(* ===== verification/Fsfw_Prelude.thy ===== *)
theory Fsfw_Prelude
  imports Main "HOL-Library.Word"
begin

text \<open>
  The prelude of the development: the machine integer types of the sources, the return value
  type \<open>ReturnValue_t\<close> of \<open>src/src/fsfw/returnvalues/returnvalue.h\<close>, block copies between byte
  buffers, big-endian conversions, and the generic lemmas on lists and words that the component
  theories share.
\<close>

unbundle bit_operations_syntax

section \<open>Machine integers\<close>

type_synonym u8 = "8 word"
type_synonym u16 = "16 word"
type_synonym u32 = "32 word"
type_synonym u64 = "64 word"
type_synonym bytes = "u8 list"

section \<open>Return values\<close>

text \<open>
  \<open>ReturnValue_t\<close> is a 16 bit code: 0 is \<open>OK\<close>, 1 is \<open>FAILED\<close>, and every other code is made by
  \<open>MAKE_RETURN_CODE\<close> from the interface identifier of a class (\<open>FwClassIds.h\<close>) and a number.
  The sources compare codes for equality only, so a made code is the pair of the two; its numeric
  value is \<open>rv_code\<close>.
\<close>

datatype retval = OK | FAILED | RC nat nat

fun rv_code :: "retval \<Rightarrow> u16" where
  "rv_code OK = 0"
| "rv_code FAILED = 1"
| "rv_code (RC classId number) = push_bit 8 (of_nat classId) + of_nat number"

section \<open>Lemma collections\<close>

named_theorems codes \<open>definitions of return codes and constants\<close>
named_theorems inv_intros \<open>preservation lemmas of component invariants\<close>

section \<open>Block copies\<close>

text \<open>
  \<open>memcpy\<close> into a buffer: the bytes \<open>src\<close> replace those of \<open>dst\<close> from index \<open>i\<close> on. A copy that
  would run past the end of the buffer is undefined in C; the lemmas below are only used under
  \<open>i + length src \<le> length dst\<close>.
\<close>

definition memcpy_at :: "'a list \<Rightarrow> nat \<Rightarrow> 'a list \<Rightarrow> 'a list" where
  "memcpy_at dst i src = take i dst @ src @ drop (i + length src) dst"

text \<open>\<open>memmove\<close> or a read of \<open>n\<close> elements from index \<open>i\<close>.\<close>

definition mem_read :: "'a list \<Rightarrow> nat \<Rightarrow> nat \<Rightarrow> 'a list" where
  "mem_read src i n = take n (drop i src)"

lemma length_memcpy_at [simp]:
  "i + length src \<le> length dst \<Longrightarrow> length (memcpy_at dst i src) = length dst"
  by (simp add: memcpy_at_def)

lemma nth_memcpy_at:
  assumes "i + length src \<le> length dst" and "j < length dst"
  shows "memcpy_at dst i src ! j =
    (if i \<le> j \<and> j < i + length src then src ! (j - i) else dst ! j)"
  using assms by (auto simp: memcpy_at_def nth_append)

lemma memcpy_at_Nil [simp]: "memcpy_at dst i [] = dst"
  by (simp add: memcpy_at_def)

lemma length_mem_read [simp]: "i + n \<le> length src \<Longrightarrow> length (mem_read src i n) = n"
  by (simp add: mem_read_def)

lemma nth_mem_read: "i + n \<le> length src \<Longrightarrow> j < n \<Longrightarrow> mem_read src i n ! j = src ! (i + j)"
  by (simp add: mem_read_def)

lemma mem_read_memcpy_same:
  "i + length src \<le> length dst \<Longrightarrow> mem_read (memcpy_at dst i src) i (length src) = src"
  by (simp add: mem_read_def memcpy_at_def)

lemma mem_read_memcpy_disjoint:
  assumes "i + length src \<le> length dst" and "j + n \<le> length dst"
    and "j + n \<le> i \<or> i + length src \<le> j"
  shows "mem_read (memcpy_at dst i src) j n = mem_read dst j n"
  using assms by (intro nth_equalityI) (auto simp: nth_mem_read nth_memcpy_at)

section \<open>Bytes of words\<close>

lemma bit_mask_numerals:
  "bit (255 :: int) n \<longleftrightarrow> n < 8" "bit (65535 :: int) n \<longleftrightarrow> n < 16"
proof -
  have "(255 :: int) = mask 8" "(65535 :: int) = mask 16" by (simp_all add: mask_eq_exp_minus_1)
  then show "bit (255 :: int) n \<longleftrightarrow> n < 8" "bit (65535 :: int) n \<longleftrightarrow> n < 16"
    by (simp_all only: bit_mask_iff possible_bit_int simp_thms)
qed

lemma byte_bit_cases:
  assumes "n < 8" and "P 0" and "P 1" and "P 2" and "P 3" and "P 4" and "P 5" and "P 6" and "P 7"
  shows "P (n :: nat)"
proof -
  from \<open>n < 8\<close> have "n \<in> {0, 1, 2, 3, 4, 5, 6, 7}" by auto
  with assms show ?thesis by blast
qed

lemma byte_eqI:
  fixes a b :: u8
  assumes "\<And>n. n < 8 \<Longrightarrow> bit a n = bit b n"
  shows "a = b"
  using assms by (intro bit_word_eqI) simp

section \<open>Big-endian halves\<close>

text \<open>The two bytes of a 16 bit word in network order, and the word made of two bytes.\<close>

definition hi8 :: "u16 \<Rightarrow> u8" where "hi8 w = ucast (drop_bit 8 w)"
definition lo8 :: "u16 \<Rightarrow> u8" where "lo8 w = ucast w"
definition be16 :: "u8 \<Rightarrow> u8 \<Rightarrow> u16" where "be16 h l = push_bit 8 (ucast h) OR ucast l"

lemma bit_hi8: "bit (hi8 w) n \<longleftrightarrow> n < 8 \<and> bit w (n + 8)"
  by (auto simp: hi8_def bit_unsigned_iff bit_drop_bit_eq ac_simps dest: bit_imp_le_length)

lemma bit_lo8: "bit (lo8 w) n \<longleftrightarrow> n < 8 \<and> bit w n"
  by (auto simp: lo8_def bit_unsigned_iff dest: bit_imp_le_length)

lemma bit_be16: "bit (be16 h l) n \<longleftrightarrow> (if n < 8 then bit l n else bit h (n - 8))"
  by (auto simp: be16_def bit_simps dest: bit_imp_le_length)

lemma u16_eq_iff: "a = b \<longleftrightarrow> hi8 a = hi8 b \<and> lo8 a = lo8 b"
proof
  assume *: "hi8 a = hi8 b \<and> lo8 a = lo8 b"
  show "a = b"
  proof (rule bit_word_eqI)
    fix n :: nat
    assume "n < LENGTH(16)"
    show "bit a n = bit b n"
    proof (cases "n < 8")
      case True
      with * bit_lo8 [of a n] bit_lo8 [of b n] show ?thesis by simp
    next
      case False
      with \<open>n < LENGTH(16)\<close> have "n - 8 < 8" by simp
      with False * bit_hi8 [of a "n - 8"] bit_hi8 [of b "n - 8"] show ?thesis by simp
    qed
  qed
qed simp

lemma hi8_be16 [simp]: "hi8 (be16 h l) = h"
  by (rule bit_word_eqI) (simp add: bit_hi8 bit_be16)

lemma lo8_be16 [simp]: "lo8 (be16 h l) = l"
  by (rule bit_word_eqI) (simp add: bit_lo8 bit_be16)

lemma be16_hi8_lo8 [simp]: "be16 (hi8 w) (lo8 w) = w"
  by (simp add: u16_eq_iff)

text \<open>Casting to a narrower type and back loses nothing when the value fits.\<close>

lemma ucast_ucast_small:
  fixes v :: "'a::len word"
  assumes "unat v < 2 ^ LENGTH('b)"
  shows "(ucast (ucast v :: 'b::len word) :: 'a word) = v"
proof -
  have "(ucast (ucast v :: 'b word) :: 'a word) = take_bit LENGTH('b) v"
    by (rule bit_word_eqI) (auto simp: bit_simps)
  also have "\<dots> = v"
    using assms by (simp add: word_unat_eq_iff unsigned_take_bit_eq take_bit_nat_eq_self)
  finally show ?thesis .
qed

section \<open>Ring arithmetic\<close>

text \<open>Index arithmetic modulo the capacity of a ring, shared by the FIFO and the ring buffers.\<close>

lemma mod_ring_neq:
  fixes r i n m :: nat
  assumes "i < n" and "n < m"
  shows "(r + i) mod m \<noteq> (r + n) mod m"
proof
  assume eq: "(r + i) mod m = (r + n) mod m"
  then have "m dvd (r + n) - (r + i)"
    using assms by (metis mod_eq_dvd_iff_nat nat_add_left_cancel_le less_imp_le)
  then have "m dvd n - i" by simp
  with assms show False by (auto dest: dvd_imp_le)
qed

lemma mod_ring_step:
  fixes r n m :: nat
  assumes "0 < n"
  shows "(Suc r mod m + (n - 1)) mod m = (r + n) mod m"
  using assms by (cases n) (auto simp: mod_simps)

section \<open>Linear searches\<close>

text \<open>
  The search loop \<open>for (i = start; i < n; ++i) if (P(xs[i])) return i; return i;\<close> that the
  containers, the pools and the task sequences share.
\<close>

function scan_from :: "('a \<Rightarrow> bool) \<Rightarrow> 'a list \<Rightarrow> nat \<Rightarrow> nat \<Rightarrow> nat" where
  "scan_from P xs n i = (if i < n then (if P (xs ! i) then i else scan_from P xs n (i + 1)) else i)"
  by pat_completeness auto
termination
  by (relation "measure (\<lambda>(P, xs, n, i). n - i)") auto

declare scan_from.simps [simp del]

lemma scan_from_bounds: "i \<le> n \<Longrightarrow> i \<le> scan_from P xs n i \<and> scan_from P xs n i \<le> n"
proof (induction P xs n i rule: scan_from.induct)
  case (1 P xs n i)
  then show ?case by (cases "i < n \<and> \<not> P (xs ! i)") (auto simp: scan_from.simps [of P xs n i])
qed

lemma scan_from_ge: "i \<le> scan_from P xs n i"
proof (induction P xs n i rule: scan_from.induct)
  case (1 P xs n i)
  then show ?case by (cases "i < n \<and> \<not> P (xs ! i)") (auto simp: scan_from.simps [of P xs n i])
qed

lemma scan_from_hit: "scan_from P xs n i < n \<Longrightarrow> P (xs ! scan_from P xs n i)"
proof (induction P xs n i rule: scan_from.induct)
  case (1 P xs n i)
  then show ?case by (auto simp: scan_from.simps [of P xs n i] split: if_splits)
qed

lemma scan_from_miss: "i \<le> j \<Longrightarrow> j < scan_from P xs n i \<Longrightarrow> \<not> P (xs ! j)"
proof (induction P xs n i rule: scan_from.induct)
  case (1 P xs n i)
  show ?case
  proof (cases "i < n \<and> \<not> P (xs ! i)")
    case True
    with "1" show ?thesis by (cases "i = j") (simp_all add: scan_from.simps [of P xs n i])
  next
    case False
    with "1.prems" show ?thesis by (auto simp: scan_from.simps [of P xs n i] split: if_splits)
  qed
qed

lemma scan_from_less_iff:
  assumes "i \<le> n"
  shows "scan_from P xs n i < n \<longleftrightarrow> (\<exists>j. i \<le> j \<and> j < n \<and> P (xs ! j))"
proof
  assume "scan_from P xs n i < n"
  with scan_from_hit [of P xs n i] scan_from_bounds [OF assms, of P xs]
  show "\<exists>j. i \<le> j \<and> j < n \<and> P (xs ! j)" by blast
next
  assume "\<exists>j. i \<le> j \<and> j < n \<and> P (xs ! j)"
  with scan_from_miss [of i _ P xs n] show "scan_from P xs n i < n"
    using scan_from_bounds [OF assms, of P xs] by (metis not_le_imp_less order_less_le_trans)
qed

section \<open>Ordered maps\<close>

text \<open>
  \<open>std::map\<close> as the list of its entries in the order of the keys: \<open>insert\<close> leaves the map alone when
  the key is present and reports whether it inserted.
\<close>

type_synonym ('k, 'v) std_map = "('k \<times> 'v) list"

definition map_insert :: "'k::linorder \<Rightarrow> 'v \<Rightarrow> ('k, 'v) std_map \<Rightarrow> bool \<times> ('k, 'v) std_map" where
  "map_insert k v m =
     (if map_of m k = None then (True, insort_key fst (k, v) m) else (False, m))"

fun map_assign :: "'k \<Rightarrow> 'v \<Rightarrow> ('k, 'v) std_map \<Rightarrow> ('k, 'v) std_map" where
  "map_assign k v [] = []"
| "map_assign k v ((k', v') # m) = (if k' = k then (k, v) # m else (k', v') # map_assign k v m)"

definition map_erase :: "'k \<Rightarrow> ('k, 'v) std_map \<Rightarrow> ('k, 'v) std_map" where
  "map_erase k m = filter (\<lambda>e. fst e \<noteq> k) m"

lemma map_of_map_assign [simp]:
  "map_of (map_assign k v m) k' =
     (if k' = k \<and> map_of m k \<noteq> None then Some v else map_of m k')"
  by (induction m) auto

lemma map_of_insort_key:
  "map_of m k = None \<Longrightarrow> map_of (insort_key fst (k, v) m) k' = (if k' = k then Some v else map_of m k')"
  by (induction m) (auto split: if_splits)

lemma map_of_map_insert [simp]:
  "map_of (snd (map_insert k v m)) k' =
     (if k' = k \<and> map_of m k = None then Some v else map_of m k')"
  by (simp add: map_insert_def map_of_insort_key)

lemma map_of_map_erase [simp]:
  "map_of (map_erase k m) k' = (if k' = k then None else map_of m k')"
  by (induction m) (auto simp: map_erase_def)

lemma sorted_map_insert:
  "sorted (map fst m) \<Longrightarrow> sorted (map fst (snd (map_insert k v m)))"
  by (simp add: map_insert_def sorted_insort_key)

section \<open>Runs of calls and data refinement\<close>

text \<open>
  A component is used through a sequence of calls. Each call takes the component's state to a
  reply and a next state; \<open>run_calls\<close> makes the calls one after the other.
\<close>

fun run_calls :: "('s \<Rightarrow> 'c \<Rightarrow> 'r \<times> 's) \<Rightarrow> 's \<Rightarrow> 'c list \<Rightarrow> 'r list \<times> 's" where
  "run_calls step s [] = ([], s)"
| "run_calls step s (c # cs) =
     (case step s c of (r, s') \<Rightarrow> (case run_calls step s' cs of (rs, s'') \<Rightarrow> (r # rs, s'')))"

lemma run_calls_append:
  "run_calls step s (cs @ ds) =
     (fst (run_calls step s cs) @ fst (run_calls step (snd (run_calls step s cs)) ds),
      snd (run_calls step (snd (run_calls step s cs)) ds))"
  by (induction cs arbitrary: s) (auto simp: case_prod_unfold)

text \<open>
  The contract between a container and its users: an invariant that every call keeps, and an
  abstraction under which every call answers as an abstract specification does. The calls a user
  may make are those that \<open>legal\<close> admits.
\<close>

locale data_refinement =
  fixes step :: "'s \<Rightarrow> 'c \<Rightarrow> 'r \<times> 's"
    and spec :: "'a \<Rightarrow> 'c \<Rightarrow> 'r \<times> 'a"
    and abs :: "'s \<Rightarrow> 'a"
    and invar :: "'s \<Rightarrow> bool"
    and legal :: "'c \<Rightarrow> bool"
  assumes step_invar: "invar s \<Longrightarrow> legal c \<Longrightarrow> invar (snd (step s c))"
    and step_refines: "invar s \<Longrightarrow> legal c \<Longrightarrow>
      spec (abs s) c = (fst (step s c), abs (snd (step s c)))"
begin

lemma run_invar: "invar s \<Longrightarrow> list_all legal cs \<Longrightarrow> invar (snd (run_calls step s cs))"
  by (induction cs arbitrary: s) (auto simp: case_prod_unfold step_invar)

lemma run_refines:
  "invar s \<Longrightarrow> list_all legal cs \<Longrightarrow>
     run_calls spec (abs s) cs = (fst (run_calls step s cs), abs (snd (run_calls step s cs)))"
  by (induction cs arbitrary: s) (auto simp: case_prod_unfold step_invar step_refines)

end

end
