(* ===== verification/Fifo.thy ===== *)
theory Fifo
  imports Fsfw_Prelude
begin

text \<open>
  The bounded FIFO of \<open>src/src/fsfw/container/FIFOBase.tpp\<close>, used through \<open>FIFO\<close> and
  \<open>DynamicFIFO\<close>: an array of \<open>maxCapacity\<close> slots with a read index, a write index and a fill
  count. The locale \<open>bounded_queue\<close> is the contract its users rely on; it is interpreted on the
  model below, and shows that a FIFO answers every sequence of calls as a bounded list does.
\<close>

section \<open>State and operations\<close>

record 'a fifo =
  maxCapacity :: nat
  fifo_values :: "'a list"
  readIndex :: nat
  writeIndex :: nat
  currentSize :: nat

abbreviation FIFO_FULL :: retval where "FIFO_FULL \<equiv> RC 24 1"
abbreviation FIFO_EMPTY :: retval where "FIFO_EMPTY \<equiv> RC 24 2"

text \<open>The constructor: the container is an array of \<open>capacity\<close> elements.\<close>

definition fifo_init :: "'a list \<Rightarrow> 'a fifo" where
  "fifo_init container = \<lparr>maxCapacity = length container, fifo_values = container,
     readIndex = 0, writeIndex = 0, currentSize = 0\<rparr>"

definition fifo_empty :: "'a fifo \<Rightarrow> bool" where
  "fifo_empty q \<longleftrightarrow> currentSize q = 0"

definition fifo_full :: "'a fifo \<Rightarrow> bool" where
  "fifo_full q \<longleftrightarrow> currentSize q = maxCapacity q"

definition fifo_next :: "'a fifo \<Rightarrow> nat \<Rightarrow> nat" where
  "fifo_next q current =
     (let current = current + 1 in if current = maxCapacity q then 0 else current)"

definition fifo_insert :: "'a \<Rightarrow> 'a fifo \<Rightarrow> retval \<times> 'a fifo" where
  "fifo_insert value q =
     (if fifo_full q then (FIFO_FULL, q)
      else (OK, q\<lparr>fifo_values := (fifo_values q)[writeIndex q := value],
                  writeIndex := fifo_next q (writeIndex q),
                  currentSize := currentSize q + 1\<rparr>))"

text \<open>
  The \<open>bool\<close> says whether the caller's pointer is a null pointer; the \<open>option\<close> is what is
  written through it.
\<close>

definition fifo_retrieve :: "bool \<Rightarrow> 'a fifo \<Rightarrow> retval \<times> 'a option \<times> 'a fifo" where
  "fifo_retrieve null q =
     (if fifo_empty q then (FIFO_EMPTY, None, q)
      else if null then (FAILED, None, q)
      else (OK, Some (fifo_values q ! readIndex q),
            q\<lparr>readIndex := fifo_next q (readIndex q), currentSize := currentSize q - 1\<rparr>))"

definition fifo_peek :: "bool \<Rightarrow> 'a fifo \<Rightarrow> retval \<times> 'a option" where
  "fifo_peek null q =
     (if fifo_empty q then (FIFO_EMPTY, None)
      else if null then (FAILED, None)
      else (OK, Some (fifo_values q ! readIndex q)))"

definition fifo_pop :: "'a fifo \<Rightarrow> retval \<times> 'a fifo" where
  "fifo_pop q = (case fifo_retrieve False q of (r, _, q') \<Rightarrow> (r, q'))"

definition fifo_size :: "'a fifo \<Rightarrow> nat" where
  "fifo_size q = currentSize q"

section \<open>Invariant and abstraction\<close>

definition fifo_inv :: "'a fifo \<Rightarrow> bool" where
  "fifo_inv q \<longleftrightarrow> length (fifo_values q) = maxCapacity q \<and> currentSize q \<le> maxCapacity q \<and>
     (0 < maxCapacity q \<longrightarrow> readIndex q < maxCapacity q \<and>
        writeIndex q = (readIndex q + currentSize q) mod maxCapacity q)"

text \<open>The elements in the order in which they will be retrieved.\<close>

definition fifo_list :: "'a fifo \<Rightarrow> 'a list" where
  "fifo_list q =
     map (\<lambda>i. fifo_values q ! ((readIndex q + i) mod maxCapacity q)) [0..<currentSize q]"

lemmas fifo_ops = fifo_insert_def fifo_retrieve_def fifo_peek_def fifo_pop_def
  fifo_empty_def fifo_full_def fifo_size_def

lemma length_fifo_list [simp]: "length (fifo_list q) = currentSize q"
  by (simp add: fifo_list_def)

lemma fifo_next_mod: "i < maxCapacity q \<Longrightarrow> fifo_next q i = (i + 1) mod maxCapacity q"
  by (auto simp: fifo_next_def Let_def)

lemma fifo_inv_init: "fifo_inv (fifo_init c)"
  by (auto simp: fifo_inv_def fifo_init_def)

lemma fifo_list_init [simp]: "fifo_list (fifo_init c) = []"
  by (simp add: fifo_list_def fifo_init_def)

lemma fifo_insert_inv:
  assumes "fifo_inv q"
  shows "fifo_inv (snd (fifo_insert x q))"
  using assms
  by (auto simp: fifo_ops fifo_inv_def fifo_next_mod mod_simps)

lemma fifo_retrieve_inv:
  assumes "fifo_inv q"
  shows "fifo_inv (snd (snd (fifo_retrieve n q)))"
  using assms mod_ring_step [of "currentSize q" "readIndex q" "maxCapacity q"]
  by (auto simp: fifo_ops fifo_inv_def fifo_next_mod)

lemma fifo_list_insert:
  assumes inv: "fifo_inv q" and "\<not> fifo_full q"
  shows "fifo_list (snd (fifo_insert x q)) = fifo_list q @ [x]"
proof -
  let ?m = "maxCapacity q" and ?n = "currentSize q"
  from assms have n: "?n < ?m" by (auto simp: fifo_inv_def fifo_full_def)
  with inv have w: "writeIndex q = (readIndex q + ?n) mod ?m" and "writeIndex q < ?m"
    and len: "length (fifo_values q) = ?m" by (auto simp: fifo_inv_def)
  have "writeIndex q \<noteq> (readIndex q + i) mod ?m" if "i < ?n" for i
    using mod_ring_neq [OF that n] w by metis
  with w \<open>writeIndex q < ?m\<close> len n show ?thesis
    using assms(2) by (simp add: fifo_insert_def fifo_list_def)
qed

lemma fifo_list_retrieve:
  assumes inv: "fifo_inv q" and ne: "\<not> fifo_empty q"
  shows "fifo_values q ! readIndex q = hd (fifo_list q)"
    and "fifo_list (snd (snd (fifo_retrieve False q))) = tl (fifo_list q)"
proof -
  let ?m = "maxCapacity q"
  from assms have r: "readIndex q < ?m" and n: "0 < currentSize q"
    by (auto simp: fifo_inv_def fifo_empty_def)
  then have u: "[0..<currentSize q] = 0 # map Suc [0..<currentSize q - 1]"
    by (metis Suc_pred' map_Suc_upt upt_conv_Cons)
  show "fifo_values q ! readIndex q = hd (fifo_list q)"
    using r by (simp add: fifo_list_def u)
  show "fifo_list (snd (snd (fifo_retrieve False q))) = tl (fifo_list q)"
    using r ne by (simp add: fifo_retrieve_def fifo_list_def u fifo_next_mod mod_simps o_def add.commute add.left_commute)
qed

section \<open>The queue contract and its refinement\<close>

text \<open>
  The calls a user makes, the abstract bounded queue (a list and a capacity), and the FIFO's own
  step. A step returns the return value, what was written through the caller's pointer, and the
  next state.
\<close>

datatype 'a queue_call = Insert 'a | Retrieve bool | Peek bool | Pop | IsEmpty | IsFull | Size

datatype 'a queue_reply = Status retval "'a option" | Flag bool | Count nat

fun queue_step :: "nat \<times> 'a list \<Rightarrow> 'a queue_call \<Rightarrow> 'a queue_reply \<times> nat \<times> 'a list" where
  "queue_step (c, xs) (Insert x) =
     (if length xs = c then (Status FIFO_FULL None, c, xs) else (Status OK None, c, xs @ [x]))"
| "queue_step (c, []) (Retrieve null) = (Status FIFO_EMPTY None, c, [])"
| "queue_step (c, x # xs) (Retrieve null) =
     (if null then (Status FAILED None, c, x # xs) else (Status OK (Some x), c, xs))"
| "queue_step (c, []) (Peek null) = (Status FIFO_EMPTY None, c, [])"
| "queue_step (c, x # xs) (Peek null) =
     (if null then (Status FAILED None, c, x # xs) else (Status OK (Some x), c, x # xs))"
| "queue_step (c, []) Pop = (Status FIFO_EMPTY None, c, [])"
| "queue_step (c, x # xs) Pop = (Status OK None, c, xs)"
| "queue_step (c, xs) IsEmpty = (Flag (xs = []), c, xs)"
| "queue_step (c, xs) IsFull = (Flag (length xs = c), c, xs)"
| "queue_step (c, xs) Size = (Count (length xs), c, xs)"

fun fifo_step :: "'a fifo \<Rightarrow> 'a queue_call \<Rightarrow> 'a queue_reply \<times> 'a fifo" where
  "fifo_step q (Insert x) = (case fifo_insert x q of (r, q') \<Rightarrow> (Status r None, q'))"
| "fifo_step q (Retrieve null) = (case fifo_retrieve null q of (r, v, q') \<Rightarrow> (Status r v, q'))"
| "fifo_step q (Peek null) = (case fifo_peek null q of (r, v) \<Rightarrow> (Status r v, q))"
| "fifo_step q Pop = (case fifo_pop q of (r, q') \<Rightarrow> (Status r None, q'))"
| "fifo_step q IsEmpty = (Flag (fifo_empty q), q)"
| "fifo_step q IsFull = (Flag (fifo_full q), q)"
| "fifo_step q Size = (Count (fifo_size q), q)"

definition fifo_abs :: "'a fifo \<Rightarrow> nat \<times> 'a list" where
  "fifo_abs q = (maxCapacity q, fifo_list q)"

lemma fifo_step_invar: "fifo_inv q \<Longrightarrow> fifo_inv (snd (fifo_step q c))"
  using fifo_insert_inv fifo_retrieve_inv [of q]
  by (cases c) (auto simp: case_prod_unfold fifo_pop_def)

lemma fifo_step_capacity: "maxCapacity (snd (fifo_step q c)) = maxCapacity q"
  by (cases c) (auto simp: fifo_ops)

lemma fifo_list_Nil_iff: "fifo_list q = [] \<longleftrightarrow> fifo_empty q"
  by (simp add: fifo_list_def fifo_empty_def)

lemma fifo_step_refines:
  assumes "fifo_inv q"
  shows "queue_step (fifo_abs q) c = (fst (fifo_step q c), fifo_abs (snd (fifo_step q c)))"
proof (cases "fifo_list q")
  case Nil
  then have "fifo_empty q" by (simp add: fifo_list_Nil_iff)
  with Nil show ?thesis
    using fifo_list_insert [OF assms] fifo_step_capacity [of q c] length_fifo_list [of q]
    by (cases c) (auto simp: fifo_abs_def fifo_ops)
next
  case (Cons x xs)
  then have ne: "\<not> fifo_empty q" using fifo_list_Nil_iff [of q] by auto
  have "length (fifo_list q) = currentSize q" by simp
  with Cons have sz: "Suc (length xs) = currentSize q" by simp
  with Cons ne fifo_list_retrieve [OF assms ne] show ?thesis using fifo_list_insert [OF assms]
    by (cases c) (auto simp: fifo_abs_def fifo_ops)
qed

interpretation fifo: data_refinement fifo_step queue_step fifo_abs fifo_inv "\<lambda>_. True"
  by unfold_locales (auto simp: fifo_step_invar fifo_step_refines)

section \<open>Properties\<close>

text \<open>
  C34: a FIFO constructed over any container of \<open>n\<close> slots answers every sequence of calls
  (insertions, retrievals and peeks with valid or null pointers, pops and queries) exactly as a
  list bounded by \<open>n\<close> does: values come out in the order they went in, \<open>FULL\<close> is returned at
  \<open>n\<close> elements and \<open>EMPTY\<close> at none, and the slots it holds at the end are the list's elements.
\<close>

theorem fifo_refines_bounded_list:
  "run_calls queue_step (length container, []) cs =
     (fst (run_calls fifo_step (fifo_init container) cs),
      length container, fifo_list (snd (run_calls fifo_step (fifo_init container) cs)))"
proof -
  have c: "maxCapacity (snd (run_calls fifo_step q cs)) = maxCapacity q" for q :: "'a fifo"
    by (induction cs arbitrary: q) (auto simp: case_prod_unfold fifo_step_capacity)
  show ?thesis
    using fifo.run_refines [OF fifo_inv_init [of container], of cs] c [of "fifo_init container"]
    by (simp add: fifo_abs_def list_all_iff, simp add: fifo_init_def fifo_list_def)
qed

end
