(* ===== verification/Fixed_Maps.thy ===== *)
theory Fixed_Maps
  imports Fsfw_Prelude "HOL-Library.Multiset"
begin

text \<open>
  The fixed-size containers with keys: \<open>FixedMap\<close>
  (\<open>src/src/fsfw/container/FixedMap.h\<close>), an unordered map over an array whose deletion moves
  the last entry into the gap, and \<open>FixedOrderedMultimap\<close>
  (\<open>src/src/fsfw/container/FixedOrderedMultimap.tpp\<close>), an array kept sorted by key.
\<close>

section \<open>FixedMap\<close>

record ('k, 'v) fixed_map =
  fm_map :: "('k \<times> 'v) list"
  fm_size :: nat

abbreviation fm_maxSize :: "('k, 'v) fixed_map \<Rightarrow> nat" where
  "fm_maxSize m \<equiv> length (fm_map m)"

abbreviation KEY_ALREADY_EXISTS :: retval where "KEY_ALREADY_EXISTS \<equiv> RC 21 1"
abbreviation MAP_FULL :: retval where "MAP_FULL \<equiv> RC 21 2"
abbreviation KEY_DOES_NOT_EXIST :: retval where "KEY_DOES_NOT_EXIST \<equiv> RC 21 3"

definition fm_findIndex :: "'k \<Rightarrow> ('k, 'v) fixed_map \<Rightarrow> nat" where
  "fm_findIndex key m =
     (if fm_size m = 0 then 1 else scan_from (\<lambda>e. fst e = key) (fm_map m) (fm_size m) 0)"

definition fm_exists :: "'k \<Rightarrow> ('k, 'v) fixed_map \<Rightarrow> retval" where
  "fm_exists key m = (if fm_findIndex key m < fm_size m then OK else KEY_DOES_NOT_EXIST)"

definition fm_insert :: "'k \<Rightarrow> 'v \<Rightarrow> ('k, 'v) fixed_map \<Rightarrow> retval \<times> ('k, 'v) fixed_map" where
  "fm_insert key value m =
     (if fm_exists key m = OK then (KEY_ALREADY_EXISTS, m)
      else if fm_size m = fm_maxSize m then (MAP_FULL, m)
      else (OK, m\<lparr>fm_map := (fm_map m)[fm_size m := (key, value)], fm_size := fm_size m + 1\<rparr>))"

definition fm_erase :: "'k \<Rightarrow> ('k, 'v) fixed_map \<Rightarrow> retval \<times> ('k, 'v) fixed_map" where
  "fm_erase key m =
     (let i = fm_findIndex key m in
      if i \<ge> fm_size m then (KEY_DOES_NOT_EXIST, m)
      else (OK, m\<lparr>fm_map := (fm_map m)[i := fm_map m ! (fm_size m - 1)],
                  fm_size := fm_size m - 1\<rparr>))"

text \<open>
  Deletion through an iterator, which is an index into the array: the iterator is decremented,
  and designates the index before the array when the first entry is deleted.
\<close>

definition fm_erase_iter ::
  "nat \<Rightarrow> ('k, 'v) fixed_map \<Rightarrow> retval \<times> int \<times> ('k, 'v) fixed_map" where
  "fm_erase_iter iter m =
     (let i = fm_findIndex (fst (fm_map m ! iter)) m in
      if i \<ge> fm_size m then (KEY_DOES_NOT_EXIST, int iter, m)
      else (OK, int iter - 1,
            m\<lparr>fm_map := (fm_map m)[i := fm_map m ! (fm_size m - 1)], fm_size := fm_size m - 1\<rparr>))"

definition fm_find :: "'k \<Rightarrow> ('k, 'v) fixed_map \<Rightarrow> retval \<times> 'v option" where
  "fm_find key m =
     (let result = fm_exists key m in
      if result \<noteq> OK then (result, None)
      else (OK, Some (snd (fm_map m ! fm_findIndex key m))))"

definition fm_empty :: "('k, 'v) fixed_map \<Rightarrow> bool" where
  "fm_empty m = (if fm_size m = 0 then True else False)"

definition fm_full :: "('k, 'v) fixed_map \<Rightarrow> bool" where
  "fm_full m = (if fm_size m \<ge> fm_maxSize m then True else False)"

definition fm_clear :: "('k, 'v) fixed_map \<Rightarrow> ('k, 'v) fixed_map" where
  "fm_clear m = m\<lparr>fm_size := 0\<rparr>"

text \<open>The invariant (no key twice) and the entries a map holds.\<close>

definition fm_entries :: "('k, 'v) fixed_map \<Rightarrow> ('k \<times> 'v) list" where
  "fm_entries m = take (fm_size m) (fm_map m)"

definition fm_inv :: "('k, 'v) fixed_map \<Rightarrow> bool" where
  "fm_inv m \<longleftrightarrow> fm_size m \<le> fm_maxSize m \<and> distinct (map fst (fm_entries m))"

lemma length_fm_entries [simp]: "fm_inv m \<Longrightarrow> length (fm_entries m) = fm_size m"
  by (simp add: fm_entries_def fm_inv_def)

lemma fm_entries_nth: "i < fm_size m \<Longrightarrow> fm_entries m ! i = fm_map m ! i"
  by (simp add: fm_entries_def)

lemma fm_findIndex_cases:
  assumes inv: "fm_inv m"
  obtains (found) i where "fm_findIndex k m = i" "i < fm_size m" "fst (fm_map m ! i) = k"
      "map_of (fm_entries m) k = Some (snd (fm_map m ! i))" "fm_map m ! i \<in> set (fm_entries m)"
  | (absent) "fm_size m \<le> fm_findIndex k m" "map_of (fm_entries m) k = None"
proof (cases "fm_findIndex k m < fm_size m")
  case True
  then have e: "fm_findIndex k m = scan_from (\<lambda>e. fst e = k) (fm_map m) (fm_size m) 0"
    by (auto simp: fm_findIndex_def split: if_splits)
  let ?e = "fm_map m ! fm_findIndex k m"
  have f: "fst ?e = k"
    using scan_from_hit [of "\<lambda>e. fst e = k" "fm_map m" "fm_size m" 0] True e by simp
  from True inv have in_set: "?e \<in> set (fm_entries m)"
    using fm_entries_nth [OF True] by (metis length_fm_entries nth_mem)
  then have "map_of (fm_entries m) k = Some (snd ?e)"
    using inv f by (intro map_of_is_SomeI) (auto simp: fm_inv_def, metis prod.collapse)
  with True f in_set show ?thesis using found by blast
next
  case False
  have "k \<notin> fst ` set (fm_entries m)"
  proof
    assume "k \<in> fst ` set (fm_entries m)"
    then obtain j where j: "j < fm_size m" "fst (fm_map m ! j) = k"
      using inv by (auto simp: fm_entries_def in_set_conv_nth)
    then have "scan_from (\<lambda>e. fst e = k) (fm_map m) (fm_size m) 0 < fm_size m"
      by (subst scan_from_less_iff) auto
    with j False show False by (auto simp: fm_findIndex_def split: if_splits)
  qed
  then show ?thesis using absent False by (simp add: map_of_eq_None_iff)
qed

lemma fm_find_spec:
  assumes "fm_inv m"
  shows "fm_find k m = (case map_of (fm_entries m) k of
      None \<Rightarrow> (KEY_DOES_NOT_EXIST, None) | Some v \<Rightarrow> (OK, Some v))"
  by (rule fm_findIndex_cases [OF assms, of k]) (auto simp: fm_find_def fm_exists_def Let_def)

lemma fm_exists_spec:
  assumes "fm_inv m"
  shows "fm_exists k m = (if map_of (fm_entries m) k = None then KEY_DOES_NOT_EXIST else OK)"
  by (rule fm_findIndex_cases [OF assms, of k]) (auto simp: fm_exists_def)

lemma fm_insert_entries:
  assumes inv: "fm_inv m" and "map_of (fm_entries m) k = None" and "fm_size m < fm_maxSize m"
  shows "fm_entries (snd (fm_insert k v m)) = fm_entries m @ [(k, v)]"
    and "fst (fm_insert k v m) = OK"
  using assms by (auto simp: fm_insert_def fm_exists_spec [OF inv] fm_entries_def take_Suc_conv_app_nth)

text \<open>Moving the last entry into the gap removes exactly the entry at the gap.\<close>

lemma mset_move_last:
  assumes "i < length ys"
  shows "mset (butlast (ys[i := last ys])) = mset ys - {#ys ! i#}"
proof (cases "i = length ys - 1")
  case True
  from assms have ne: "ys \<noteq> []" by auto
  with True have li: "last ys = ys ! i" by (simp add: last_conv_nth)
  from ne have "mset ys = mset (butlast ys @ [last ys])" by simp
  then have "mset ys = add_mset (last ys) (mset (butlast ys))" by simp
  with li show ?thesis by simp
next
  case False
  then obtain as x bs l where ys: "ys = as @ x # bs @ [l]" and i: "i = length as"
  proof -
    have "ys \<noteq> []" using assms by auto
    then obtain zs l where z: "ys = zs @ [l]" by (metis rev_exhaust)
    with assms False have "i < length zs" by auto
    then have "zs = take i zs @ zs ! i # drop (Suc i) zs" by (simp add: id_take_nth_drop)
    then show ?thesis using that [of "take i zs" "zs ! i" "drop (Suc i) zs" l] z \<open>i < length zs\<close>
      by (metis append.assoc append_Cons length_take min.absorb2 less_imp_le min.commute)
  qed
  then show ?thesis by (simp add: butlast_append)
qed

lemma fm_erase_entries:
  assumes inv: "fm_inv m" and k: "map_of (fm_entries m) k = Some v"
  shows "mset (fm_entries (snd (fm_erase k m))) = mset (fm_entries m) - {#(k, v)#}"
    and "fst (fm_erase k m) = OK"
proof -
  obtain i where i: "fm_findIndex k m = i" "i < fm_size m" "fm_map m ! i = (k, v)"
    by (rule fm_findIndex_cases [OF inv, of k]) (use k in \<open>auto simp: prod_eq_iff\<close>)
  let ?ys = "fm_entries m"
  have len: "length ?ys = fm_size m" using inv by simp
  have last: "last ?ys = fm_map m ! (fm_size m - 1)"
    using i len by (subst last_conv_nth) (auto simp: fm_entries_nth)
  have "fm_entries (snd (fm_erase k m)) = butlast (?ys[i := last ?ys])"
    using i inv by (simp add: fm_erase_def last, simp add: fm_entries_def butlast_take take_update_swap
      fm_inv_def butlast_list_update list_update_beyond)
  with mset_move_last [of i ?ys] i len
  show "mset (fm_entries (snd (fm_erase k m))) = mset ?ys - {#(k, v)#}"
    by (simp add: fm_entries_nth)
  show "fst (fm_erase k m) = OK" using i by (simp add: fm_erase_def)
qed

lemma fm_insert_inv:
  assumes inv: "fm_inv m"
  shows "fm_inv (snd (fm_insert k v m))"
proof (cases "map_of (fm_entries m) k = None \<and> fm_size m < fm_maxSize m")
  case True
  then have "distinct (map fst (fm_entries (snd (fm_insert k v m))))"
    using inv fm_insert_entries(1) [OF inv, of k v]
    by (auto simp: fm_inv_def map_of_eq_None_iff)
  then show ?thesis using inv True by (auto simp: fm_inv_def fm_insert_def)
next
  case False
  then show ?thesis using inv
    by (auto simp: fm_insert_def fm_exists_spec [OF inv], auto simp: fm_inv_def)
qed

lemma distinct_keys_mset: "mset xs = mset ys \<Longrightarrow> distinct (map fst xs) \<longleftrightarrow> distinct (map fst ys)"
  by (metis mset_eq_imp_distinct_iff mset_map)

lemma fm_erase_absent:
  assumes "fm_inv m" and "map_of (fm_entries m) k = None"
  shows "fm_erase k m = (KEY_DOES_NOT_EXIST, m)"
  using assms by (cases rule: fm_findIndex_cases [OF assms(1), of k]) (auto simp: fm_erase_def)

lemma fm_erase_keeps:
  assumes inv: "fm_inv m" and k: "map_of (fm_entries m) k = Some v"
  shows "fm_inv (snd (fm_erase k m))"
    and "map_of (fm_entries (snd (fm_erase k m))) = (map_of (fm_entries m))(k := None)"
    and "fm_size (snd (fm_erase k m)) = fm_size m - 1"
proof -
  let ?ys = "fm_entries m" and ?zs = "fm_entries (snd (fm_erase k m))"
  have d: "distinct (map fst ?ys)" using inv by (simp add: fm_inv_def)
  from k have kv: "(k, v) \<in> set ?ys" by (rule map_of_SomeD)
  have "mset ?zs = mset (remove1 (k, v) ?ys)" using fm_erase_entries(1) [OF inv k] by simp
  moreover have "distinct (map fst (remove1 (k, v) ?ys))"
    by (rule distinct_map [THEN iffD2]) (use d in \<open>auto simp: distinct_map intro: inj_on_subset
      dest: notin_set_remove1\<close>)
  ultimately have dz: "distinct (map fst ?zs)" using distinct_keys_mset by blast
  have "set ?zs = set ?ys - {(k, v)}"
    using \<open>mset ?zs = mset (remove1 (k, v) ?ys)\<close> d
    by (metis distinct_map mset_eq_setD set_remove1_eq)
  then have m: "map_of ?zs a = Some b \<longleftrightarrow> map_of ?ys a = Some b \<and> (a, b) \<noteq> (k, v)" for a b
    using map_of_eq_Some_iff [OF d] map_of_eq_Some_iff [OF dz] by auto
  show "map_of ?zs = (map_of ?ys)(k := None)"
  proof
    fix a
    have "map_of ?zs a = Some b \<longleftrightarrow> ((map_of ?ys)(k := None)) a = Some b" for b
      unfolding m using k by auto
    then show "map_of ?zs a = ((map_of ?ys)(k := None)) a" by (metis not_Some_eq)
  qed
  show "fm_size (snd (fm_erase k m)) = fm_size m - 1"
    using fm_erase_entries(2) [OF inv k] by (auto simp: fm_erase_def Let_def split: if_splits)
  then show "fm_inv (snd (fm_erase k m))"
    using dz inv by (auto simp: fm_inv_def, auto simp: fm_erase_def Let_def)
qed

section \<open>FixedOrderedMultimap\<close>

record ('k, 'v) multimap =
  mm_map :: "('k \<times> 'v) list"
  mm_size :: nat

abbreviation mm_maxSize :: "('k, 'v) multimap \<Rightarrow> nat" where
  "mm_maxSize m \<equiv> length (mm_map m)"

abbreviation MM_FULL :: retval where "MM_FULL \<equiv> RC 22 1"
abbreviation MM_KEY_DOES_NOT_EXIST :: retval where "MM_KEY_DOES_NOT_EXIST \<equiv> RC 22 2"

definition findFirstIndex :: "'k \<Rightarrow> nat \<Rightarrow> ('k, 'v) multimap \<Rightarrow> nat" where
  "findFirstIndex key startAt m =
     (if startAt \<ge> mm_size m then startAt + 1
      else scan_from (\<lambda>e. fst e = key) (mm_map m) (mm_size m) startAt)"

text \<open>\<open>myComp\<close> is the template parameter \<open>KEY_COMPARE\<close>, by default \<open>std::less\<close>.\<close>

definition findNicePlace :: "('k \<Rightarrow> 'k \<Rightarrow> bool) \<Rightarrow> 'k \<Rightarrow> ('k, 'v) multimap \<Rightarrow> nat" where
  "findNicePlace myComp key m = scan_from (\<lambda>e. myComp key (fst e)) (mm_map m) (mm_size m) 0"

definition removeFromPosition :: "nat \<Rightarrow> ('k, 'v) multimap \<Rightarrow> ('k, 'v) multimap" where
  "removeFromPosition position m =
     (if mm_size m \<le> position then m
      else m\<lparr>mm_map := memcpy_at (mm_map m) position
               (mem_read (mm_map m) (position + 1) (mm_size m - position - 1)),
             mm_size := mm_size m - 1\<rparr>)"

text \<open>The second component is the index the optional \<open>storedValue\<close> iterator designates.\<close>

definition mm_insert ::
  "('k \<Rightarrow> 'k \<Rightarrow> bool) \<Rightarrow> 'k \<Rightarrow> 'v \<Rightarrow> ('k, 'v) multimap \<Rightarrow>
     retval \<times> nat option \<times> ('k, 'v) multimap" where
  "mm_insert myComp key value m =
     (if mm_size m = mm_maxSize m then (MM_FULL, None, m)
      else
        (let position = findNicePlace myComp key m;
             moved = memcpy_at (mm_map m) (position + 1)
               (mem_read (mm_map m) position (mm_size m - position))
         in (OK, Some position,
             m\<lparr>mm_map := moved[position := (key, value)], mm_size := mm_size m + 1\<rparr>)))"

definition mm_exists :: "'k \<Rightarrow> ('k, 'v) multimap \<Rightarrow> retval" where
  "mm_exists key m = (if findFirstIndex key 0 m < mm_size m then OK else MM_KEY_DOES_NOT_EXIST)"

lemma erase_shrinks:
  assumes "findFirstIndex key i (removeFromPosition i m) < mm_size (removeFromPosition i m)"
  shows "mm_size (removeFromPosition i m) < mm_size m"
  using assms by (auto simp: removeFromPosition_def findFirstIndex_def split: if_splits)

text \<open>The \<open>do\<close> loop of \<open>erase(key)\<close>, entered with a valid index \<open>i\<close>.\<close>

function mm_erase_loop :: "'k \<Rightarrow> nat \<Rightarrow> ('k, 'v) multimap \<Rightarrow> ('k, 'v) multimap" where
  "mm_erase_loop key i m =
     (let m' = removeFromPosition i m; i' = findFirstIndex key i m' in
      if i' < mm_size m' then mm_erase_loop key i' m' else m')"
  by pat_completeness auto
termination
  by (relation "measure (\<lambda>(key, i, m). mm_size m)") (auto dest: erase_shrinks)

declare mm_erase_loop.simps [simp del]

definition mm_erase :: "'k \<Rightarrow> ('k, 'v) multimap \<Rightarrow> retval \<times> ('k, 'v) multimap" where
  "mm_erase key m =
     (let i = findFirstIndex key 0 m in
      if i \<ge> mm_size m then (MM_KEY_DOES_NOT_EXIST, m) else (OK, mm_erase_loop key i m))"

text \<open>Deletion through an iterator (an index): the first entry with the iterator's key goes.\<close>

definition mm_erase_iter :: "nat \<Rightarrow> ('k, 'v) multimap \<Rightarrow> retval \<times> nat \<times> ('k, 'v) multimap" where
  "mm_erase_iter iter m =
     (let i = findFirstIndex (fst (mm_map m ! iter)) 0 m in
      if i \<ge> mm_size m then (MM_KEY_DOES_NOT_EXIST, iter, m)
      else (OK, if iter \<noteq> 0 then iter - 1 else 0, removeFromPosition i m))"

definition mm_find :: "'k \<Rightarrow> ('k, 'v) multimap \<Rightarrow> retval \<times> 'v option" where
  "mm_find key m =
     (let result = mm_exists key m in
      if result \<noteq> OK then (result, None)
      else (OK, Some (snd (mm_map m ! findFirstIndex key 0 m))))"

definition mm_clear :: "('k, 'v) multimap \<Rightarrow> ('k, 'v) multimap" where
  "mm_clear m = m\<lparr>mm_size := 0\<rparr>"

definition mm_entries :: "('k, 'v) multimap \<Rightarrow> ('k \<times> 'v) list" where
  "mm_entries m = take (mm_size m) (mm_map m)"

definition mm_inv :: "('k, 'v) multimap \<Rightarrow> bool" where
  "mm_inv m \<longleftrightarrow> mm_size m \<le> mm_maxSize m"

lemma length_mm_entries [simp]: "mm_inv m \<Longrightarrow> length (mm_entries m) = mm_size m"
  by (simp add: mm_entries_def mm_inv_def)

lemma removeFromPosition_entries:
  assumes "mm_inv m" and "p < mm_size m"
  shows "mm_entries (removeFromPosition p m) = take p (mm_entries m) @ drop (Suc p) (mm_entries m)"
    and "mm_inv (removeFromPosition p m)"
    and "mm_maxSize (removeFromPosition p m) = mm_maxSize m"
    and "mm_size (removeFromPosition p m) = mm_size m - 1"
  using assms
  by (cases "p = mm_size m - 1"; auto simp: removeFromPosition_def mm_entries_def mm_inv_def
    memcpy_at_def mem_read_def min_def drop_take)+

lemma scan_entries:
  assumes inv: "mm_inv m" and "s \<le> mm_size m"
  shows "scan_from P (mm_map m) (mm_size m) s =
    s + length (takeWhile (\<lambda>e. \<not> P e) (drop s (mm_entries m)))"
proof -
  let ?r = "scan_from P (mm_map m) (mm_size m) s" and ?ys = "drop s (mm_entries m)"
  note b = scan_from_bounds [OF assms(2), of P "mm_map m"]
  have len: "length ?ys = mm_size m - s" using inv by simp
  have nth: "?ys ! i = mm_map m ! (s + i)" if "i < mm_size m - s" for i
    using that assms(2) inv by (simp add: mm_entries_def mm_inv_def)
  have t: "takeWhile (\<lambda>e. \<not> P e) ?ys = take (?r - s) ?ys"
  proof (rule takeWhile_eq_take_P_nth)
    fix i assume "i < ?r - s" "i < length ?ys"
    then show "\<not> P (?ys ! i)" using scan_from_miss [of s "s + i" P "mm_map m" "mm_size m"] nth len by simp
  next
    assume "?r - s < length ?ys"
    then show "\<not> \<not> P (?ys ! (?r - s))"
      using scan_from_hit [of P "mm_map m" "mm_size m" s] nth [of "?r - s"] len b by simp
  qed
  show ?thesis using b len assms(2) by (auto simp: t min_def)
qed

lemma mm_insert_entries:
  fixes m :: "('k, 'v) multimap" and myComp :: "'k \<Rightarrow> 'k \<Rightarrow> bool" and k :: 'k
  assumes inv: "mm_inv m" and "mm_size m < mm_maxSize m"
  defines "ys \<equiv> mm_entries m" and "P \<equiv> \<lambda>e. \<not> myComp k (fst e)"
  shows "mm_entries (snd (snd (mm_insert myComp k v m))) =
      takeWhile P ys @ (k, v) # dropWhile P ys"
    and "mm_inv (snd (snd (mm_insert myComp k v m)))"
    and "mm_maxSize (snd (snd (mm_insert myComp k v m))) = mm_maxSize m"
    and "fst (mm_insert myComp k v m) = OK"
proof -
  let ?p = "findNicePlace myComp k m" and ?n = "mm_size m"
  have p: "?p = length (takeWhile P ys)"
    using scan_entries [OF inv, of 0 "\<lambda>e. myComp k (fst e)"] by (simp add: findNicePlace_def ys_def P_def)
  have pn: "?p \<le> ?n" unfolding p using inv by (metis length_mm_entries length_takeWhile_le ys_def)
  have tw: "takeWhile P ys = take ?p ys" "dropWhile P ys = drop ?p ys"
    unfolding p by (metis takeWhile_eq_take, metis dropWhile_eq_drop)
  let ?moved = "memcpy_at (mm_map m) (Suc ?p) (mem_read (mm_map m) ?p (?n - ?p))"
  have mv: "?moved = take (?p + 1) (mm_map m) @ drop ?p ys @ drop (Suc ?n) (mm_map m)"
    using assms(2) pn by (simp add: memcpy_at_def mem_read_def ys_def mm_entries_def drop_take)
  have u: "?moved[?p := (k, v)] = take ?p ys @ (k, v) # drop ?p ys @ drop (Suc ?n) (mm_map m)"
    unfolding mv using assms(2) pn
    by (simp add: take_Suc_conv_app_nth list_update_append min_def ys_def mm_entries_def)
  have len: "length ys = ?n" using inv by (simp add: ys_def)
  show "mm_entries (snd (snd (mm_insert myComp k v m))) = takeWhile P ys @ (k, v) # dropWhile P ys"
    using assms(2) pn len unfolding tw
    by (simp add: mm_insert_def Let_def) (simp add: mm_entries_def u min_def Suc_diff_le)
  show "mm_maxSize (snd (snd (mm_insert myComp k v m))) = mm_maxSize m"
    using assms(2) pn len by (simp add: mm_insert_def Let_def u)
  then show "mm_inv (snd (snd (mm_insert myComp k v m)))"
    using assms(2) by (simp add: mm_inv_def, simp add: mm_insert_def Let_def)
  show "fst (mm_insert myComp k v m) = OK" using assms(2) by (simp add: mm_insert_def Let_def)
qed

lemma map_of_first:
  "map_of ys k = (let i = length (takeWhile (\<lambda>e. fst e \<noteq> k) ys) in
     if i < length ys then Some (snd (ys ! i)) else None)"
  by (induction ys) (auto simp: Let_def)

lemma mm_find_spec:
  assumes inv: "mm_inv m"
  shows "mm_find k m = (case map_of (mm_entries m) k of
      None \<Rightarrow> (MM_KEY_DOES_NOT_EXIST, None) | Some v \<Rightarrow> (OK, Some v))"
proof -
  let ?ys = "mm_entries m" and ?t = "takeWhile (\<lambda>e. fst e \<noteq> k) (mm_entries m)"
  have len: "length ?ys = mm_size m" using inv by simp
  have i: "findFirstIndex k 0 m < mm_size m \<longleftrightarrow> length ?t < mm_size m"
    "length ?t < mm_size m \<Longrightarrow> findFirstIndex k 0 m = length ?t"
    using scan_entries [OF inv, of 0 "\<lambda>e. fst e = k"]
    by (auto simp: findFirstIndex_def)
  show ?thesis using i len map_of_first [of ?ys k]
    by (auto simp: mm_find_def mm_exists_def Let_def mm_entries_def)
qed

lemma filter_after_first:
  "filter (\<lambda>e. fst e \<noteq> k) zs = takeWhile (\<lambda>e. fst e \<noteq> k) zs @
     filter (\<lambda>e. fst e \<noteq> k) (drop (Suc (length (takeWhile (\<lambda>e. fst e \<noteq> k) zs))) zs)"
  by (induction zs) auto

lemma mm_erase_loop_entries:
  assumes "mm_inv m" and "i < mm_size m"
  shows "mm_entries (mm_erase_loop k i m) =
      take i (mm_entries m) @ filter (\<lambda>e. fst e \<noteq> k) (drop (Suc i) (mm_entries m)) \<and>
    mm_inv (mm_erase_loop k i m) \<and> mm_maxSize (mm_erase_loop k i m) = mm_maxSize m"
  using assms
proof (induction k i m rule: mm_erase_loop.induct)
  case (1 k i m)
  let ?m = "removeFromPosition i m"
  let ?i = "findFirstIndex k i ?m" and ?ys = "mm_entries m"
  let ?zs = "drop (Suc i) ?ys" and ?tw = "takeWhile (\<lambda>e. fst e \<noteq> k) (drop (Suc i) ?ys)"
  note r = removeFromPosition_entries [OF "1.prems"]
  have len: "length ?ys = mm_size m" using "1.prems"(1) by simp
  have di: "drop i (mm_entries ?m) = ?zs" and ti: "take i (mm_entries ?m) = take i ?ys"
    using r(1) "1.prems"(2) len by simp_all
  show ?case
  proof (cases "?i < mm_size ?m")
    case True
    then have "i < mm_size ?m" by (auto simp: findFirstIndex_def split: if_splits)
    then have i': "?i = i + length ?tw"
      using scan_entries [OF r(2), of i "\<lambda>e. fst e = k"] di by (simp add: findFirstIndex_def)
    have "take ?i (mm_entries ?m) = take i ?ys @ ?tw"
      using r(1) "1.prems"(2) len by (simp add: i' takeWhile_eq_take [symmetric])
    moreover have "drop (Suc ?i) (mm_entries ?m) = drop (Suc (length ?tw)) ?zs"
      using di by (metis add_Suc_right add.commute drop_drop i')
    ultimately have "take ?i (mm_entries ?m) @ filter (\<lambda>e. fst e \<noteq> k) (drop (Suc ?i) (mm_entries ?m))
        = take i ?ys @ filter (\<lambda>e. fst e \<noteq> k) ?zs"
      using filter_after_first [of k ?zs] by simp
    with "1.IH" [OF refl refl True r(2) True] True r(3) show ?thesis
      by (simp add: mm_erase_loop.simps [of k i m] Let_def)
  next
    case False
    have "filter (\<lambda>e. fst e \<noteq> k) ?zs = ?zs"
    proof (cases "i < mm_size ?m")
      case True
      then have "?i = i + length ?tw"
        using scan_entries [OF r(2), of i "\<lambda>e. fst e = k"] di by (simp add: findFirstIndex_def)
      with False r(4) len have "length ?zs \<le> length ?tw" by simp
      then show ?thesis
        by (metis (mono_tags, lifting) filter_True le_antisym length_takeWhile_le set_takeWhileD
          takeWhile_eq_take take_all)
    next
      case False
      with r(4) len show ?thesis by simp
    qed
    then show ?thesis using False r by (simp add: mm_erase_loop.simps [of k i m])
  qed
qed

section \<open>The multimap contract\<close>

datatype ('k, 'v) mm_call = IInsert 'k 'v | IErase 'k | IFind 'k | IClear

fun sorted_list_step ::
  "nat \<times> ('k::linorder \<times> 'v) list \<Rightarrow> ('k, 'v) mm_call \<Rightarrow>
     (retval \<times> 'v option) \<times> nat \<times> ('k \<times> 'v) list" where
  "sorted_list_step (c, ys) (IInsert k v) =
     (if length ys = c then ((MM_FULL, None), c, ys)
      else ((OK, None), c, takeWhile (\<lambda>e. fst e \<le> k) ys @ (k, v) # dropWhile (\<lambda>e. fst e \<le> k) ys))"
| "sorted_list_step (c, ys) (IErase k) =
     (if map_of ys k = None then ((MM_KEY_DOES_NOT_EXIST, None), c, ys)
      else ((OK, None), c, filter (\<lambda>e. fst e \<noteq> k) ys))"
| "sorted_list_step (c, ys) (IFind k) =
     (case map_of ys k of None \<Rightarrow> ((MM_KEY_DOES_NOT_EXIST, None), c, ys)
      | Some v \<Rightarrow> ((OK, Some v), c, ys))"
| "sorted_list_step (c, ys) IClear = ((OK, None), c, [])"

fun mm_step ::
  "('k::linorder, 'v) multimap \<Rightarrow> ('k, 'v) mm_call \<Rightarrow> (retval \<times> 'v option) \<times> ('k, 'v) multimap" where
  "mm_step m (IInsert k v) = (case mm_insert (<) k v m of (r, _, m') \<Rightarrow> ((r, None), m'))"
| "mm_step m (IErase k) = (case mm_erase k m of (r, m') \<Rightarrow> ((r, None), m'))"
| "mm_step m (IFind k) = (mm_find k m, m)"
| "mm_step m IClear = ((OK, None), mm_clear m)"

definition mm_abs :: "('k, 'v) multimap \<Rightarrow> nat \<times> ('k \<times> 'v) list" where
  "mm_abs m = (mm_maxSize m, mm_entries m)"

lemma findFirstIndex_alt:
  assumes inv: "mm_inv m"
  shows "findFirstIndex k 0 m < mm_size m \<longleftrightarrow> map_of (mm_entries m) k \<noteq> None"
    and "findFirstIndex k 0 m < mm_size m \<Longrightarrow>
      findFirstIndex k 0 m = length (takeWhile (\<lambda>e. fst e \<noteq> k) (mm_entries m))"
  using scan_entries [OF inv, of 0 "\<lambda>e. fst e = k"] map_of_first [of "mm_entries m" k] inv
  by (auto simp: findFirstIndex_def Let_def split: if_splits)

lemma absent_filter: "map_of ys k = None \<Longrightarrow> filter (\<lambda>e. fst e \<noteq> k) ys = ys"
  by (induction ys) (auto split: if_splits)

lemma mm_erase_entries:
  assumes inv: "mm_inv m"
  shows "mm_entries (snd (mm_erase k m)) = filter (\<lambda>e. fst e \<noteq> k) (mm_entries m)"
    and "mm_inv (snd (mm_erase k m))" and "mm_maxSize (snd (mm_erase k m)) = mm_maxSize m"
    and "fst (mm_erase k m) =
      (if map_of (mm_entries m) k = None then MM_KEY_DOES_NOT_EXIST else OK)"
proof -
  let ?ys = "mm_entries m" and ?i = "findFirstIndex k 0 m"
  have *: "mm_entries (snd (mm_erase k m)) = filter (\<lambda>e. fst e \<noteq> k) ?ys \<and>
      mm_inv (snd (mm_erase k m)) \<and> mm_maxSize (snd (mm_erase k m)) = mm_maxSize m"
  proof (cases "?i < mm_size m")
    case True
    note i = findFirstIndex_alt(2) [OF inv True]
    have "take ?i ?ys @ filter (\<lambda>e. fst e \<noteq> k) (drop (Suc ?i) ?ys) = filter (\<lambda>e. fst e \<noteq> k) ?ys"
      unfolding i by (metis filter_after_first takeWhile_eq_take)
    with mm_erase_loop_entries [OF inv True, of k] True show ?thesis by (simp add: mm_erase_def)
  next
    case False
    then have "filter (\<lambda>e. fst e \<noteq> k) ?ys = ?ys"
      using findFirstIndex_alt(1) [OF inv, of k] by (simp add: absent_filter)
    with False inv show ?thesis by (simp add: mm_erase_def)
  qed
  then show "mm_entries (snd (mm_erase k m)) = filter (\<lambda>e. fst e \<noteq> k) ?ys"
    "mm_inv (snd (mm_erase k m))" "mm_maxSize (snd (mm_erase k m)) = mm_maxSize m" by auto
  show "fst (mm_erase k m) = (if map_of ?ys k = None then MM_KEY_DOES_NOT_EXIST else OK)"
    using findFirstIndex_alt(1) [OF inv, of k] by (auto simp: mm_erase_def Let_def)
qed

lemma mm_step_refines:
  assumes inv: "mm_inv m"
  shows "sorted_list_step (mm_abs m) c = (fst (mm_step m c), mm_abs (snd (mm_step m c)))"
    and "mm_inv (snd (mm_step m c))"
proof -
  have c: "mm_size m < mm_maxSize m \<or> mm_size m = mm_maxSize m"
    using inv by (auto simp: mm_inv_def)
  show "sorted_list_step (mm_abs m) c = (fst (mm_step m c), mm_abs (snd (mm_step m c)))"
  proof (cases c)
    case (IInsert k v)
    then show ?thesis using c mm_insert_entries [OF inv, of "(<)" k v]
      by (auto simp: mm_abs_def case_prod_unfold inv not_less) (auto simp: mm_insert_def inv)
  next
    case (IErase k)
    then show ?thesis using mm_erase_entries [OF inv, of k] absent_filter [of "mm_entries m" k]
      by (auto simp: mm_abs_def case_prod_unfold)
  qed (auto simp: mm_abs_def mm_find_spec [OF inv] mm_clear_def mm_entries_def split: option.splits)
  show "mm_inv (snd (mm_step m c))"
    using c inv mm_insert_entries(2) [OF inv, of "(<)"] mm_erase_entries(2) [OF inv]
    by (cases c) (auto simp: case_prod_unfold mm_clear_def mm_inv_def mm_insert_def)
qed

interpretation multimap: data_refinement mm_step sorted_list_step mm_abs mm_inv "\<lambda>_. True"
  by unfold_locales (auto simp: mm_step_refines)

lemma sorted_insert_after:
  fixes k :: "'k::linorder"
  assumes "sorted (map fst ys)"
  shows "sorted (map fst (takeWhile (\<lambda>e. fst e \<le> k) ys @ (k, v) # dropWhile (\<lambda>e. fst e \<le> k) ys))"
  using assms by (induction ys) (auto dest: set_takeWhileD set_dropWhileD)

lemma sorted_list_step_sorted:
  "sorted (map fst (snd s)) \<Longrightarrow> sorted (map fst (snd (snd (sorted_list_step s c))))"
  using sorted_insert_after
  by (cases s; cases c) (auto simp: sorted_filter split: option.splits)

lemma sorted_list_run_sorted:
  "sorted (map fst (snd s)) \<Longrightarrow> sorted (map fst (snd (snd (run_calls sorted_list_step s cs))))"
  by (induction cs arbitrary: s) (auto simp: case_prod_unfold sorted_list_step_sorted)

section \<open>The map contract\<close>

datatype ('k, 'v) map_call = MInsert 'k 'v | MErase 'k | MFind 'k | MExists 'k | MClear | MSize

datatype 'v map_reply = MStatus retval | MValue retval "'v option" | MCount nat

fun map_step ::
  "nat \<times> nat \<times> ('k \<rightharpoonup> 'v) \<Rightarrow> ('k, 'v) map_call \<Rightarrow> 'v map_reply \<times> nat \<times> nat \<times> ('k \<rightharpoonup> 'v)" where
  "map_step (c, n, f) (MInsert k v) =
     (if f k \<noteq> None then (MStatus KEY_ALREADY_EXISTS, c, n, f)
      else if n = c then (MStatus MAP_FULL, c, n, f)
      else (MStatus OK, c, n + 1, f(k \<mapsto> v)))"
| "map_step (c, n, f) (MErase k) =
     (if f k = None then (MStatus KEY_DOES_NOT_EXIST, c, n, f)
      else (MStatus OK, c, n - 1, f(k := None)))"
| "map_step (c, n, f) (MFind k) =
     (case f k of None \<Rightarrow> (MValue KEY_DOES_NOT_EXIST None, c, n, f)
      | Some v \<Rightarrow> (MValue OK (Some v), c, n, f))"
| "map_step (c, n, f) (MExists k) =
     (MStatus (if f k = None then KEY_DOES_NOT_EXIST else OK), c, n, f)"
| "map_step (c, n, f) MClear = (MStatus OK, c, 0, Map.empty)"
| "map_step (c, n, f) MSize = (MCount n, c, n, f)"

fun fm_step ::
  "('k, 'v) fixed_map \<Rightarrow> ('k, 'v) map_call \<Rightarrow> 'v map_reply \<times> ('k, 'v) fixed_map" where
  "fm_step m (MInsert k v) = (case fm_insert k v m of (r, m') \<Rightarrow> (MStatus r, m'))"
| "fm_step m (MErase k) = (case fm_erase k m of (r, m') \<Rightarrow> (MStatus r, m'))"
| "fm_step m (MFind k) = (case fm_find k m of (r, v) \<Rightarrow> (MValue r v, m))"
| "fm_step m (MExists k) = (MStatus (fm_exists k m), m)"
| "fm_step m MClear = (MStatus OK, fm_clear m)"
| "fm_step m MSize = (MCount (fm_size m), m)"

definition fm_abs :: "('k, 'v) fixed_map \<Rightarrow> nat \<times> nat \<times> ('k \<rightharpoonup> 'v)" where
  "fm_abs m = (fm_maxSize m, fm_size m, map_of (fm_entries m))"

lemma fm_step_maxSize: "fm_maxSize (snd (fm_step m c)) = fm_maxSize m"
  by (cases c) (auto simp: fm_insert_def fm_erase_def fm_clear_def Let_def case_prod_unfold)

lemma fm_step_inv:
  assumes "fm_inv m"
  shows "fm_inv (snd (fm_step m c))"
proof (cases c)
  case (MErase k)
  then show ?thesis using assms fm_erase_absent [OF assms, of k] fm_erase_keeps(1) [OF assms, of k]
    by (cases "map_of (fm_entries m) k") (auto simp: case_prod_unfold)
qed (use assms fm_insert_inv [OF assms] in
  \<open>auto simp: case_prod_unfold fm_clear_def fm_inv_def fm_entries_def\<close>)

lemma map_of_snoc: "map_of xs k = None \<Longrightarrow> [k \<mapsto> v] ++ map_of xs = (map_of xs)(k \<mapsto> v)"
  by (auto simp: fun_eq_iff map_add_def split: option.splits)

lemma fm_step_refines:
  assumes inv: "fm_inv m"
  shows "map_step (fm_abs m) c = (fst (fm_step m c), fm_abs (snd (fm_step m c)))"
proof (cases c)
  case (MInsert k v)
  have "fm_size m \<le> fm_maxSize m" using inv by (simp add: fm_inv_def)
  then show ?thesis
    using fm_insert_entries [OF inv, of k v] fm_step_maxSize [of m c]
    by (cases "map_of (fm_entries m) k")
      (auto simp: MInsert fm_abs_def case_prod_unfold fm_exists_spec [OF inv] fm_insert_def
        map_of_snoc split: if_splits)
next
  case (MErase k)
  then show ?thesis
    using fm_erase_absent [OF inv, of k] fm_erase_keeps [OF inv, of k] fm_erase_entries(2) [OF inv, of k]
      fm_step_maxSize [of m c]
    by (cases "map_of (fm_entries m) k") (auto simp: fm_abs_def case_prod_unfold)
qed (auto simp: fm_abs_def fm_find_spec [OF inv] fm_exists_spec [OF inv] fm_clear_def
  fm_entries_def split: option.splits)

interpretation fixed_map: data_refinement fm_step map_step fm_abs fm_inv "\<lambda>_. True"
  by unfold_locales (auto simp: fm_step_inv fm_step_refines)

definition fm_init :: "('k \<times> 'v) list \<Rightarrow> ('k, 'v) fixed_map" where
  "fm_init container = \<lparr>fm_map = container, fm_size = 0\<rparr>"

text \<open>
  C36: a \<open>FixedMap\<close> constructed with \<open>n\<close> slots answers every sequence of insertions, deletions,
  lookups, queries and clears as a finite map with at most \<open>n\<close> entries: a key is never stored
  twice, deletion removes exactly that key although it moves the last entry, and every error code
  is returned exactly in its case.
\<close>

theorem fixed_map_refines_map:
  "run_calls map_step (length container, 0, Map.empty) cs =
     (fst (run_calls fm_step (fm_init container) cs),
      fm_abs (snd (run_calls fm_step (fm_init container) cs)))"
proof -
  have "fm_inv (fm_init container)" by (simp add: fm_init_def fm_inv_def fm_entries_def)
  from fixed_map.run_refines [OF this, of cs] show ?thesis
    by (simp add: fm_abs_def list_all_iff, simp add: fm_init_def fm_entries_def)
qed

definition mm_init :: "('k \<times> 'v) list \<Rightarrow> ('k, 'v) multimap" where
  "mm_init container = \<lparr>mm_map = container, mm_size = 0\<rparr>"

text \<open>
  C35: a \<open>FixedOrderedMultimap\<close> with the default comparison answers every sequence of calls as a
  sorted association list: insertion puts an entry behind all entries with the same or a smaller
  key (so equal keys keep their insertion order and a lookup finds the oldest), \<open>erase\<close> by key
  removes every entry of the key and nothing else, its loop always ends, and the entries stay
  sorted by key.
\<close>

theorem ordered_multimap_refines_sorted_list:
  fixes container :: "('k::linorder \<times> 'v) list"
  shows "run_calls sorted_list_step (length container, []) cs =
      (fst (run_calls mm_step (mm_init container) cs),
       mm_abs (snd (run_calls mm_step (mm_init container) cs))) \<and>
    sorted (map fst (mm_entries (snd (run_calls mm_step (mm_init container) cs))))"
proof -
  let ?m = "mm_init container"
  have "mm_inv ?m" by (simp add: mm_init_def mm_inv_def)
  from multimap.run_refines [OF this, of cs]
  have r: "run_calls sorted_list_step (length container, []) cs =
      (fst (run_calls mm_step ?m cs), mm_abs (snd (run_calls mm_step ?m cs)))"
    by (simp add: mm_abs_def list_all_iff, simp add: mm_init_def mm_entries_def)
  with sorted_list_run_sorted [of "(length container, [])" cs] show ?thesis
    by (simp add: mm_abs_def)
qed

end
