(* ===== verification/Ring_Buffer.thy ===== *)
theory Ring_Buffer
  imports Fsfw_Prelude
begin

text \<open>
  The byte ring of \<open>src/src/fsfw/container/SimpleRingBuffer.cpp\<close> over
  \<open>src/src/fsfw/container/RingBufferBase.h\<close> with one read pointer. One byte of the ring stays
  unused, so that a full ring and an empty ring differ; bytes behind the ring
  (\<open>maxExcessBytes\<close>) take the overhang of a contiguous write made through \<open>getFreeElement\<close>.
\<close>

section \<open>State and operations\<close>

record ring =
  rb_start :: nat
  rb_write :: nat
  rb_read :: nat
  rb_size :: nat
  rb_overwriteOld :: bool
  rb_buffer :: bytes
  rb_maxExcessBytes :: nat
  rb_excessBytes :: nat

text \<open>Both constructors: \<open>mem\<close> is the memory that is allocated or passed in.\<close>

definition rb_init :: "bytes \<Rightarrow> nat \<Rightarrow> bool \<Rightarrow> nat \<Rightarrow> ring" where
  "rb_init mem sz overwriteOld maxExcessBytes =
     \<lparr>rb_start = 0, rb_write = 0, rb_read = 0, rb_size = sz, rb_overwriteOld = overwriteOld,
      rb_buffer = mem,
      rb_maxExcessBytes = (if maxExcessBytes > sz then sz else maxExcessBytes),
      rb_excessBytes = 0\<rparr>"

definition getAvailableReadData :: "ring \<Rightarrow> nat" where
  "getAvailableReadData rb = ((rb_write rb + rb_size rb) - rb_read rb) mod rb_size rb"

definition availableWriteSpace :: "ring \<Rightarrow> nat" where
  "availableWriteSpace rb = ((rb_read rb + rb_size rb) - rb_write rb - 1) mod rb_size rb"

definition rb_isFull :: "ring \<Rightarrow> bool" where
  "rb_isFull rb \<longleftrightarrow> availableWriteSpace rb = 0"

definition rb_isEmpty :: "ring \<Rightarrow> bool" where
  "rb_isEmpty rb \<longleftrightarrow> getAvailableReadData rb = 0"

definition getMaxSize :: "ring \<Rightarrow> nat" where
  "getMaxSize rb = rb_size rb - 1"

definition rb_clear :: "ring \<Rightarrow> ring" where
  "rb_clear rb = rb\<lparr>rb_write := rb_start rb, rb_read := rb_start rb\<rparr>"

definition writeTillWrap :: "ring \<Rightarrow> nat" where
  "writeTillWrap rb = (rb_start rb + rb_size rb) - rb_write rb"

definition readTillWrap :: "ring \<Rightarrow> nat" where
  "readTillWrap rb = (rb_start rb + rb_size rb) - rb_read rb"

text \<open>The increments take a \<open>uint32_t\<close>: a larger \<open>size_t\<close> loses its upper half on the way in.\<close>

definition incrementWrite :: "nat \<Rightarrow> ring \<Rightarrow> ring" where
  "incrementWrite amount rb = rb\<lparr>rb_write :=
     ((rb_write rb + amount mod 2 ^ 32 - rb_start rb) mod rb_size rb) + rb_start rb\<rparr>"

definition incrementRead :: "nat \<Rightarrow> ring \<Rightarrow> ring" where
  "incrementRead amount rb = rb\<lparr>rb_read :=
     ((rb_read rb + amount mod 2 ^ 32 - rb_start rb) mod rb_size rb) + rb_start rb\<rparr>"

text \<open>
  The result of \<open>getFreeElement\<close> besides the status is the index the write pointer designates.
\<close>

definition getFreeElement :: "nat \<Rightarrow> ring \<Rightarrow> retval \<times> nat option \<times> ring" where
  "getFreeElement amount rb =
     (if availableWriteSpace rb \<ge> amount \<or> rb_overwriteOld rb then
        (let amountTillWrap = writeTillWrap rb in
         if amountTillWrap < amount then
           (if amount - amountTillWrap + rb_excessBytes rb > rb_maxExcessBytes rb
            then (FAILED, None, rb)
            else (OK, Some (rb_write rb), rb\<lparr>rb_excessBytes := amount - amountTillWrap\<rparr>))
         else (OK, Some (rb_write rb), rb))
      else (FAILED, None, rb))"

definition moveExcessBytesToStart :: "ring \<Rightarrow> ring" where
  "moveExcessBytesToStart rb =
     (if rb_excessBytes rb > 0
      then rb\<lparr>rb_buffer := memcpy_at (rb_buffer rb) 0
                (mem_read (rb_buffer rb) (rb_size rb) (rb_excessBytes rb)),
              rb_excessBytes := 0\<rparr>
      else rb)"

definition confirmBytesWritten :: "nat \<Rightarrow> ring \<Rightarrow> ring" where
  "confirmBytesWritten amount rb =
     incrementWrite amount (if rb_excessBytes rb > 0 then moveExcessBytesToStart rb else rb)"

text \<open>The data argument is \<open>None\<close> for a null pointer, otherwise the \<open>amount\<close> bytes it points to.\<close>

definition rb_writeData :: "bytes option \<Rightarrow> ring \<Rightarrow> retval \<times> ring" where
  "rb_writeData data rb = (case data of None \<Rightarrow> (FAILED, rb) | Some xs \<Rightarrow>
     (let amount = length xs in
      if amount > getMaxSize rb then (FAILED, rb)
      else if availableWriteSpace rb \<ge> amount \<or> rb_overwriteOld rb then
        (let amountTillWrap = writeTillWrap rb;
             buffer = (if amountTillWrap \<ge> amount
               then memcpy_at (rb_buffer rb) (rb_write rb) xs
               else memcpy_at (memcpy_at (rb_buffer rb) (rb_write rb) (take amountTillWrap xs))
                      0 (drop amountTillWrap xs))
         in (OK, incrementWrite amount (rb\<lparr>rb_buffer := buffer\<rparr>)))
      else (FAILED, rb)))"

text \<open>The third component is what is written through a non-null \<open>trueAmount\<close>.\<close>

definition rb_deleteData :: "nat \<Rightarrow> bool \<Rightarrow> ring \<Rightarrow> retval \<times> nat option \<times> ring" where
  "rb_deleteData amount deleteRemaining rb =
     (let availableData = getAvailableReadData rb in
      if availableData < amount \<and> \<not> deleteRemaining then (FAILED, None, rb)
      else (let amount = (if availableData < amount then availableData else amount)
            in (OK, Some amount, incrementRead amount rb)))"

definition rb_readData ::
  "nat \<Rightarrow> bool \<Rightarrow> bool \<Rightarrow> ring \<Rightarrow> retval \<times> bytes \<times> nat option \<times> ring" where
  "rb_readData amount incrementReadPtr readRemaining rb =
     (let availableData = getAvailableReadData rb; amountTillWrap = readTillWrap rb in
      if availableData < amount \<and> \<not> readRemaining then (FAILED, [], None, rb)
      else
        (let amount = (if availableData < amount then availableData else amount);
             data = (if amountTillWrap \<ge> amount
               then mem_read (rb_buffer rb) (rb_read rb) amount
               else mem_read (rb_buffer rb) (rb_read rb) amountTillWrap @
                    mem_read (rb_buffer rb) 0 (amount - amountTillWrap));
             rb' = (if incrementReadPtr then snd (snd (rb_deleteData amount readRemaining rb))
                    else rb)
         in (OK, data, Some amount, rb')))"

section \<open>Invariant and abstraction\<close>

definition rb_inv :: "ring \<Rightarrow> bool" where
  "rb_inv rb \<longleftrightarrow> rb_start rb = 0 \<and> 0 < rb_size rb \<and> rb_size rb < 2 ^ 32 \<and>
     rb_write rb < rb_size rb \<and> rb_read rb < rb_size rb \<and>
     rb_maxExcessBytes rb \<le> rb_size rb \<and> rb_excessBytes rb \<le> rb_maxExcessBytes rb \<and>
     rb_size rb + rb_maxExcessBytes rb \<le> length (rb_buffer rb)"

definition rb_contents :: "ring \<Rightarrow> bytes" where
  "rb_contents rb = map (\<lambda>i. rb_buffer rb ! ((rb_read rb + i) mod rb_size rb))
     [0..<getAvailableReadData rb]"

lemma mod_below_twice:
  fixes x m :: nat
  shows "x < 2 * m \<Longrightarrow> x mod m = (if x < m then x else x - m)"
  by (auto simp: mod_if)

lemma length_rb_contents [simp]: "length (rb_contents rb) = getAvailableReadData rb"
  by (simp add: rb_contents_def)

lemma available_alt:
  "rb_inv rb \<Longrightarrow> getAvailableReadData rb =
     (if rb_read rb \<le> rb_write rb then rb_write rb - rb_read rb
      else rb_write rb + rb_size rb - rb_read rb)"
  by (auto simp: getAvailableReadData_def rb_inv_def mod_below_twice)

lemma space_plus_available:
  "rb_inv rb \<Longrightarrow> availableWriteSpace rb + getAvailableReadData rb = rb_size rb - 1"
  by (auto simp: available_alt availableWriteSpace_def mod_below_twice rb_inv_def)

lemma available_less: "rb_inv rb \<Longrightarrow> getAvailableReadData rb < rb_size rb"
  by (auto simp: getAvailableReadData_def rb_inv_def)

lemma write_from_read:
  "rb_inv rb \<Longrightarrow> rb_write rb = (rb_read rb + getAvailableReadData rb) mod rb_size rb"
  by (auto simp: available_alt mod_below_twice rb_inv_def)

text \<open>A copy that wraps at the end of the ring, and what it leaves at each index.\<close>

definition ring_store :: "bytes \<Rightarrow> nat \<Rightarrow> nat \<Rightarrow> bytes \<Rightarrow> bytes" where
  "ring_store buf m w xs =
     (if length xs \<le> m - w then memcpy_at buf w xs
      else memcpy_at (memcpy_at buf w (take (m - w) xs)) 0 (drop (m - w) xs))"

lemma ring_store_props:
  assumes "w < m" and "length xs < m" and "m \<le> length buf"
  shows "length (ring_store buf m w xs) = length buf"
    and "k < m \<Longrightarrow> ring_store buf m w xs ! k =
      (if (k + m - w) mod m < length xs then xs ! ((k + m - w) mod m) else buf ! k)"
proof -
  show "length (ring_store buf m w xs) = length buf"
    using assms by (auto simp: ring_store_def)
  assume k: "k < m"
  with assms have kw: "(k + m - w) mod m = (if w \<le> k then k - w else k + m - w)"
    by (simp add: mod_below_twice)
  show "ring_store buf m w xs ! k =
      (if (k + m - w) mod m < length xs then xs ! ((k + m - w) mod m) else buf ! k)"
    using assms k by (auto simp: kw ring_store_def nth_memcpy_at min_def add.commute)
qed

lemma ring_offset:
  fixes r i a m w :: nat
  assumes "r < m" and "a < m" and "i < m" and "w = (r + a) mod m"
  shows "((r + i) mod m + m - w) mod m = (if a \<le> i then i - a else i + m - a)"
proof -
  have r: "(r + i) mod m = (if r + i < m then r + i else r + i - m)"
    "(r + a) mod m = (if r + a < m then r + a else r + a - m)"
    using assms by (auto simp: mod_below_twice)
  show ?thesis
    unfolding assms(4) r using assms(1-3) by (auto simp: mod_below_twice)
qed

text \<open>A read that wraps at the end of the ring.\<close>

definition ring_fetch :: "bytes \<Rightarrow> nat \<Rightarrow> nat \<Rightarrow> nat \<Rightarrow> bytes" where
  "ring_fetch buf m r n =
     (if n \<le> m - r then mem_read buf r n else mem_read buf r (m - r) @ mem_read buf 0 (n - (m - r)))"

lemma ring_fetch_map:
  assumes "r < m" and "n < m" and "m \<le> length buf"
  shows "ring_fetch buf m r n = map (\<lambda>i. buf ! ((r + i) mod m)) [0..<n]"
  using assms
  by (intro nth_equalityI)
    (auto simp: ring_fetch_def nth_append nth_mem_read mod_below_twice add.commute)

lemma rb_inv_simps:
  assumes "rb_inv rb"
  shows "rb_start rb = 0" and "0 < rb_size rb" and "rb_write rb < rb_size rb"
    and "rb_read rb < rb_size rb" and "rb_size rb \<le> length (rb_buffer rb)"
    and "rb_size rb < 2 ^ 32"
  using assms by (auto simp: rb_inv_def)

section \<open>Behaviour of the operations\<close>

lemma rb_init_inv:
  "0 < sz \<Longrightarrow> sz < 2 ^ 32 \<Longrightarrow> sz + min ex sz \<le> length mem \<Longrightarrow> rb_inv (rb_init mem sz ow ex)"
  by (auto simp: rb_init_def rb_inv_def min_def)

lemma rb_init_contents [simp]: "rb_contents (rb_init mem sz ow ex) = []"
  by (simp add: rb_contents_def rb_init_def getAvailableReadData_def)

lemma incrementRead_inv:
  assumes "rb_inv rb" shows "rb_inv (incrementRead n rb)"
  using assms by (auto simp: rb_inv_def incrementRead_def)

lemma incrementRead_available:
  assumes inv: "rb_inv rb" and n: "n \<le> getAvailableReadData rb"
  shows "rb_read (incrementRead n rb) = (rb_read rb + n) mod rb_size rb"
    and "getAvailableReadData (incrementRead n rb) = getAvailableReadData rb - n"
proof -
  from n available_less [OF inv] rb_inv_simps(6) [OF inv] have t: "n mod 2 ^ 32 = n"
    by simp
  then show r: "rb_read (incrementRead n rb) = (rb_read rb + n) mod rb_size rb"
    by (simp add: incrementRead_def rb_inv_simps(1) [OF inv])
  have f: "rb_write (incrementRead n rb) = rb_write rb"
      "rb_size (incrementRead n rb) = rb_size rb"
    by (simp_all add: incrementRead_def)
  show "getAvailableReadData (incrementRead n rb) = getAvailableReadData rb - n"
    using n rb_inv_simps [OF inv] available_less [OF inv]
    unfolding available_alt [OF incrementRead_inv [OF inv]] f r
    by (auto simp: available_alt [OF inv] mod_below_twice split: if_splits)
qed

lemma incrementRead_contents:
  assumes inv: "rb_inv rb" and n: "n \<le> getAvailableReadData rb"
  shows "rb_contents (incrementRead n rb) = drop n (rb_contents rb)"
proof -
  have "rb_buffer (incrementRead n rb) = rb_buffer rb" "rb_size (incrementRead n rb) = rb_size rb"
    by (simp_all add: incrementRead_def)
  with incrementRead_available [OF assms] show ?thesis
    by (intro nth_equalityI) (auto simp: rb_contents_def mod_simps add.assoc)
qed

lemma rb_deleteData_spec:
  assumes inv: "rb_inv rb"
  shows "rb_inv (snd (snd (rb_deleteData n rem rb)))"
    and "rb_deleteData n rem rb =
      (if length (rb_contents rb) < n \<and> \<not> rem then (FAILED, None, rb)
       else (OK, Some (min n (length (rb_contents rb))),
             incrementRead (min n (length (rb_contents rb))) rb))"
  using inv by (auto simp: rb_deleteData_def Let_def incrementRead_inv min_def)

lemma rb_readData_spec:
  assumes inv: "rb_inv rb"
  shows "rb_readData n inc rem rb =
      (if length (rb_contents rb) < n \<and> \<not> rem then (FAILED, [], None, rb)
       else (OK, take n (rb_contents rb), Some (min n (length (rb_contents rb))),
             if inc then incrementRead (min n (length (rb_contents rb))) rb else rb))"
proof -
  let ?n = "min n (getAvailableReadData rb)"
  have "ring_fetch (rb_buffer rb) (rb_size rb) (rb_read rb) ?n = take n (rb_contents rb)"
    using available_less [OF inv] rb_inv_simps [OF inv]
    by (subst ring_fetch_map) (auto simp: rb_contents_def take_map take_upt min_def)
  then show ?thesis
    using rb_inv_simps(1) [OF inv]
    by (auto simp: rb_readData_def Let_def ring_fetch_def readTillWrap_def rb_deleteData_def
      min_def split: if_splits)
qed

lemma rb_writeData_eq:
  assumes inv: "rb_inv rb"
  shows "rb_writeData (Some xs) rb =
    (if length xs \<le> rb_size rb - 1 \<and> (length xs \<le> availableWriteSpace rb \<or> rb_overwriteOld rb)
     then (OK, rb\<lparr>rb_buffer := ring_store (rb_buffer rb) (rb_size rb) (rb_write rb) xs,
                  rb_write := (rb_write rb + length xs) mod rb_size rb\<rparr>)
     else (FAILED, rb))"
proof -
  have "length xs mod 2 ^ 32 = length xs" if "length xs \<le> rb_size rb - 1"
    using that rb_inv_simps(6) [OF inv] by simp
  then show ?thesis using rb_inv_simps(1) [OF inv]
    by (auto simp: rb_writeData_def Let_def getMaxSize_def ring_store_def incrementWrite_def
      writeTillWrap_def)
qed

lemma rb_writeData_inv:
  assumes inv: "rb_inv rb"
  shows "rb_inv (snd (rb_writeData xs rb))"
proof (cases xs)
  case None
  with inv show ?thesis by (simp add: rb_writeData_def)
next
  case (Some ys)
  have "length (ring_store (rb_buffer rb) (rb_size rb) (rb_write rb) ys) = length (rb_buffer rb)"
    if "length ys \<le> rb_size rb - 1"
    using that rb_inv_simps [OF inv] by (intro ring_store_props) auto
  with inv show ?thesis by (auto simp: Some rb_writeData_eq rb_inv_def)
qed

lemma rb_writeData_contents:
  assumes inv: "rb_inv rb" and fits: "length xs \<le> availableWriteSpace rb"
  shows "rb_contents (snd (rb_writeData (Some xs) rb)) = rb_contents rb @ xs"
proof -
  let ?a = "getAvailableReadData rb" and ?m = "rb_size rb"
  let ?rb = "snd (rb_writeData (Some xs) rb)"
  note sp = space_plus_available [OF inv] and b = rb_inv_simps [OF inv]
  from sp fits have le: "length xs \<le> ?m - 1" by simp
  then have eq: "?rb = rb\<lparr>rb_buffer := ring_store (rb_buffer rb) ?m (rb_write rb) xs,
                  rb_write := (rb_write rb + length xs) mod ?m\<rparr>"
    using fits by (simp add: rb_writeData_eq [OF inv])
  have inv': "rb_inv ?rb" by (rule rb_writeData_inv [OF inv])
  have av: "getAvailableReadData ?rb = ?a + length xs"
    using fits sp b unfolding available_alt [OF inv'] unfolding eq available_alt [OF inv]
    by (auto simp: mod_below_twice)
  have "ring_store (rb_buffer rb) ?m (rb_write rb) xs ! ((rb_read rb + i) mod ?m) =
      (if ?a \<le> i then xs ! (i - ?a) else rb_buffer rb ! ((rb_read rb + i) mod ?m))"
    if "i < ?a + length xs" for i
  proof -
    have "i < ?m" using that sp fits b by linarith
    then have "((rb_read rb + i) mod ?m + ?m - rb_write rb) mod ?m =
        (if ?a \<le> i then i - ?a else i + ?m - ?a)"
      using b available_less [OF inv] write_from_read [OF inv] by (intro ring_offset) auto
    then show ?thesis using that sp fits b le
      by (subst ring_store_props(2)) auto
  qed
  then show ?thesis
    using av by (intro nth_equalityI) (auto simp: rb_contents_def nth_append eq)
qed

text \<open>
  A write that does not fit into an overwriting ring moves the write pointer past the read
  pointer, which stays: of what was stored only the tail of the new data remains readable.
\<close>

lemma rb_writeData_overflow:
  assumes inv: "rb_inv rb" and ow: "rb_overwriteOld rb"
    and le: "length xs \<le> getMaxSize rb" and over: "availableWriteSpace rb < length xs"
  shows "fst (rb_writeData (Some xs) rb) = OK"
    and "rb_contents (snd (rb_writeData (Some xs) rb)) =
      drop (rb_size rb - getAvailableReadData rb) xs"
proof -
  let ?a = "getAvailableReadData rb" and ?m = "rb_size rb"
  let ?rb = "snd (rb_writeData (Some xs) rb)"
  note sp = space_plus_available [OF inv] and b = rb_inv_simps [OF inv]
  show "fst (rb_writeData (Some xs) rb) = OK"
    using le ow by (simp add: rb_writeData_eq [OF inv] getMaxSize_def)
  have eq: "?rb = rb\<lparr>rb_buffer := ring_store (rb_buffer rb) ?m (rb_write rb) xs,
                  rb_write := (rb_write rb + length xs) mod ?m\<rparr>"
    using le ow by (simp add: rb_writeData_eq [OF inv] getMaxSize_def)
  have inv': "rb_inv ?rb" by (rule rb_writeData_inv [OF inv])
  have av: "getAvailableReadData ?rb = ?a + length xs - ?m"
    using over le sp b unfolding getMaxSize_def available_alt [OF inv']
    unfolding eq available_alt [OF inv] by (auto simp: mod_below_twice)
  have "ring_store (rb_buffer rb) ?m (rb_write rb) xs ! ((rb_read rb + i) mod ?m) =
      xs ! (?m - ?a + i)" if "i < ?a + length xs - ?m" for i
  proof -
    have i: "i < ?m" "i < ?a" using that le b available_less [OF inv] by (auto simp: getMaxSize_def)
    then have "((rb_read rb + i) mod ?m + ?m - rb_write rb) mod ?m = ?m - ?a + i"
      using b available_less [OF inv] write_from_read [OF inv] by (subst ring_offset) auto
    then show ?thesis using that i b le available_less [OF inv]
      by (subst ring_store_props(2)) (auto simp: getMaxSize_def)
  qed
  then show "rb_contents ?rb = drop (?m - ?a) xs"
    using av available_less [OF inv] by (intro nth_equalityI) (auto simp: rb_contents_def eq)
qed

text \<open>
  The two-step write: the caller fills the memory from the index that \<open>getFreeElement\<close> returned
  and confirms. \<open>client_fill\<close> is the caller's store through the returned pointer.
\<close>

definition client_fill :: "nat \<Rightarrow> bytes \<Rightarrow> ring \<Rightarrow> ring" where
  "client_fill i xs rb = rb\<lparr>rb_buffer := memcpy_at (rb_buffer rb) i xs\<rparr>"

lemma getFreeElement_OK:
  assumes inv: "rb_inv rb" and ex: "rb_excessBytes rb = 0"
    and ok: "getFreeElement (length xs) rb = (OK, w, rb')"
  shows "w = Some (rb_write rb)"
    and "rb' = rb\<lparr>rb_excessBytes := length xs - (rb_size rb - rb_write rb)\<rparr>"
    and "length xs - (rb_size rb - rb_write rb) \<le> rb_maxExcessBytes rb"
  using assms
  by (auto simp: getFreeElement_def Let_def writeTillWrap_def rb_inv_simps(1) [OF inv]
    split: if_splits)

lemma ring_store_two_step:
  assumes "w < m" and "length xs < m" and "m + (length xs - (m - w)) \<le> length buf" and "k < m"
  shows "memcpy_at (memcpy_at buf w xs) 0
      (mem_read (memcpy_at buf w xs) m (length xs - (m - w))) ! k = ring_store buf m w xs ! k"
  using assms
  by (subst ring_store_props(2))
    (auto simp: nth_memcpy_at nth_mem_read mod_below_twice add.commute)

lemma rb_contents_cong:
  assumes "rb_read a = rb_read b" "rb_write a = rb_write b" "rb_size a = rb_size b" "0 < rb_size b"
    and "\<And>k. k < rb_size b \<Longrightarrow> rb_buffer a ! k = rb_buffer b ! k"
  shows "rb_contents a = rb_contents b"
  using assms by (simp add: rb_contents_def getAvailableReadData_def)

lemma two_step_write_contents:
  assumes inv: "rb_inv rb" and ex: "rb_excessBytes rb = 0"
    and fits: "length xs \<le> availableWriteSpace rb"
    and ok: "getFreeElement (length xs) rb = (OK, w, rb')"
  shows "rb_contents (confirmBytesWritten (length xs) (client_fill (the w) xs rb')) =
    rb_contents rb @ xs"
proof -
  let ?m = "rb_size rb" and ?e = "length xs - (rb_size rb - rb_write rb)"
  note g = getFreeElement_OK [OF inv ex ok] and b = rb_inv_simps [OF inv]
  have le: "length xs < ?m" using fits space_plus_available [OF inv] b by linarith
  have bl: "?m + ?e \<le> length (rb_buffer rb)" using inv g(3) by (auto simp: rb_inv_def)
  have t: "length xs mod 2 ^ 32 = length xs" using le b(6) by simp
  have "rb_contents (confirmBytesWritten (length xs) (client_fill (the w) xs rb')) =
      rb_contents (snd (rb_writeData (Some xs) rb))"
  proof (rule rb_contents_cong)
    fix k assume k: "k < rb_size (snd (rb_writeData (Some xs) rb))"
    then have "k < ?m" by (simp add: rb_writeData_eq [OF inv] split: if_splits)
    with ring_store_two_step [OF b(3) le bl] le fits b
    show "rb_buffer (confirmBytesWritten (length xs) (client_fill (the w) xs rb')) ! k =
        rb_buffer (snd (rb_writeData (Some xs) rb)) ! k"
      by (auto simp: confirmBytesWritten_def client_fill_def incrementWrite_def g
        moveExcessBytesToStart_def rb_writeData_eq [OF inv] ring_store_def)
  qed (use le fits t b in \<open>auto simp: confirmBytesWritten_def client_fill_def incrementWrite_def g
        moveExcessBytesToStart_def rb_writeData_eq [OF inv]\<close>)
  then show ?thesis using rb_writeData_contents [OF inv fits] by simp
qed

section \<open>The byte stream contract\<close>

datatype ring_call =
  Write "bytes option" | Read nat bool bool | Delete nat bool | Clear | AvailableRead | AvailableWrite

datatype ring_reply = RStatus retval | RData retval bytes "nat option" | RCount "nat option" retval

fun stream_step :: "nat \<times> bytes \<Rightarrow> ring_call \<Rightarrow> ring_reply \<times> nat \<times> bytes" where
  "stream_step (c, xs) (Write None) = (RStatus FAILED, c, xs)"
| "stream_step (c, xs) (Write (Some ys)) =
     (if length xs + length ys \<le> c then (RStatus OK, c, xs @ ys) else (RStatus FAILED, c, xs))"
| "stream_step (c, xs) (Read n inc rem) =
     (if length xs < n \<and> \<not> rem then (RData FAILED [] None, c, xs)
      else (RData OK (take n xs) (Some (min n (length xs))), c, if inc then drop n xs else xs))"
| "stream_step (c, xs) (Delete n rem) =
     (if length xs < n \<and> \<not> rem then (RCount None FAILED, c, xs)
      else (RCount (Some (min n (length xs))) OK, c, drop n xs))"
| "stream_step (c, xs) Clear = (RStatus OK, c, [])"
| "stream_step (c, xs) AvailableRead = (RCount (Some (length xs)) OK, c, xs)"
| "stream_step (c, xs) AvailableWrite = (RCount (Some (c - length xs)) OK, c, xs)"

fun ring_step :: "ring \<Rightarrow> ring_call \<Rightarrow> ring_reply \<times> ring" where
  "ring_step rb (Write d) = (case rb_writeData d rb of (r, rb') \<Rightarrow> (RStatus r, rb'))"
| "ring_step rb (Read n inc rem) =
     (case rb_readData n inc rem rb of (r, d, t, rb') \<Rightarrow> (RData r d t, rb'))"
| "ring_step rb (Delete n rem) =
     (case rb_deleteData n rem rb of (r, t, rb') \<Rightarrow> (RCount t r, rb'))"
| "ring_step rb Clear = (RStatus OK, rb_clear rb)"
| "ring_step rb AvailableRead = (RCount (Some (getAvailableReadData rb)) OK, rb)"
| "ring_step rb AvailableWrite = (RCount (Some (availableWriteSpace rb)) OK, rb)"

definition ring_abs :: "ring \<Rightarrow> nat \<times> bytes" where
  "ring_abs rb = (getMaxSize rb, rb_contents rb)"

definition ring_keeps_old :: "ring \<Rightarrow> bool" where
  "ring_keeps_old rb \<longleftrightarrow> rb_inv rb \<and> \<not> rb_overwriteOld rb"

lemma rb_clear_inv: "rb_inv rb \<Longrightarrow> rb_inv (rb_clear rb)"
  by (auto simp: rb_clear_def rb_inv_def)

lemma rb_clear_contents: "rb_contents (rb_clear rb) = []"
  by (simp add: rb_clear_def rb_contents_def getAvailableReadData_def)

lemma ring_step_frame:
  "rb_size (snd (ring_step rb c)) = rb_size rb \<and>
   rb_overwriteOld (snd (ring_step rb c)) = rb_overwriteOld rb"
  by (cases c) (auto simp: rb_writeData_def rb_readData_def rb_deleteData_def rb_clear_def Let_def
    incrementWrite_def incrementRead_def case_prod_unfold split: option.splits)

lemma ring_step_inv: "rb_inv rb \<Longrightarrow> rb_inv (snd (ring_step rb c))"
  by (cases c) (auto simp: rb_writeData_inv rb_deleteData_spec(1) rb_readData_spec rb_clear_inv
    incrementRead_inv case_prod_unfold)

lemma ring_write_refines:
  assumes "ring_keeps_old rb"
  shows "stream_step (ring_abs rb) (Write d) =
    (fst (ring_step rb (Write d)), ring_abs (snd (ring_step rb (Write d))))"
proof (cases d)
  case None
  then show ?thesis by (simp add: ring_abs_def rb_writeData_def)
next
  case (Some ys)
  from assms have inv: "rb_inv rb" and ow: "\<not> rb_overwriteOld rb" by (auto simp: ring_keeps_old_def)
  show ?thesis
    using rb_writeData_contents [OF inv, of ys] space_plus_available [OF inv] ow
      ring_step_frame [of rb "Write d"]
    by (auto simp: Some ring_abs_def getMaxSize_def case_prod_unfold rb_writeData_eq [OF inv])
qed

lemma ring_step_refines:
  assumes "ring_keeps_old rb"
  shows "stream_step (ring_abs rb) c = (fst (ring_step rb c), ring_abs (snd (ring_step rb c)))"
proof -
  from assms have inv: "rb_inv rb" by (simp add: ring_keeps_old_def)
  note [simp] = ring_abs_def getMaxSize_def
  have [simp]: "rb_size (incrementRead n rb) = rb_size rb" for n by (simp add: incrementRead_def)
  have d: "rb_contents (incrementRead (min n (getAvailableReadData rb)) rb) = drop n (rb_contents rb)" for n
    by (auto simp: incrementRead_contents [OF inv] min_def)
  show ?thesis
  proof (cases c)
    case (Write x1)
    then show ?thesis using ring_write_refines [OF assms] by simp
  qed (use space_plus_available [OF inv] d in
    \<open>auto simp: rb_readData_spec [OF inv] rb_deleteData_spec(2) [OF inv] rb_clear_contents,
     (simp add: rb_clear_def)?\<close>)
qed

interpretation stream: data_refinement ring_step stream_step ring_abs ring_keeps_old "\<lambda>_. True"
  by unfold_locales (auto simp: ring_step_refines ring_keeps_old_def ring_step_inv ring_step_frame)

section \<open>Properties\<close>

text \<open>
  C18: a ring of \<open>sz\<close> bytes that does not overwrite, constructed over memory that holds the ring
  and its excess bytes, answers every sequence of writes, reads, deletions and clears as a byte
  stream of capacity \<open>sz - 1\<close>: a write is refused exactly when it does not fit, reads return the
  oldest bytes in order across the wrap, and nothing is lost, repeated or reordered.
\<close>

theorem ring_refines_byte_stream:
  assumes "0 < sz" and "sz < 2 ^ 32" and "sz + min ex sz \<le> length mem"
  shows "run_calls stream_step (sz - 1, []) cs =
    (fst (run_calls ring_step (rb_init mem sz False ex) cs),
     sz - 1, rb_contents (snd (run_calls ring_step (rb_init mem sz False ex) cs)))"
proof -
  let ?rb = "rb_init mem sz False ex"
  have "rb_size (snd (run_calls ring_step rb cs)) = rb_size rb" for rb
    by (induction cs arbitrary: rb) (auto simp: case_prod_unfold ring_step_frame)
  then have f: "rb_size (snd (run_calls ring_step ?rb cs)) = sz" by (simp add: rb_init_def)
  have k: "ring_keeps_old ?rb"
    using rb_init_inv [OF assms, of False] by (simp add: ring_keeps_old_def rb_init_def)
  have a: "ring_abs ?rb = (sz - 1, [])" by (simp add: ring_abs_def getMaxSize_def, simp add: rb_init_def)
  show ?thesis
    using stream.run_refines [OF k, of cs] f unfolding a
    by (simp add: ring_abs_def getMaxSize_def list_all_iff)
qed

theorem ring_refines_byte_stream_witness:
  "run_calls stream_step (4 - 1, []) [Write (Some [1, 2, 3]), Read 2 True False,
      Write (Some [4, 5]), Write (Some [6]), Read 4 False True] =
    (fst (run_calls ring_step (rb_init [0, 0, 0, 0] 4 False 0) [Write (Some [1, 2, 3]),
      Read 2 True False, Write (Some [4, 5]), Write (Some [6]), Read 4 False True]),
     4 - 1, rb_contents (snd (run_calls ring_step (rb_init [0, 0, 0, 0] 4 False 0)
       [Write (Some [1, 2, 3]), Read 2 True False, Write (Some [4, 5]), Write (Some [6]),
        Read 4 False True])))"
  by (rule ring_refines_byte_stream) simp_all

text \<open>
  C3: the contiguous two-step write is equivalent to an ordinary write: when \<open>getFreeElement\<close>
  grants \<open>n\<close> bytes that fit, storing them from the returned index (past the end of the ring if
  need be) and confirming them appends exactly those bytes to the readable contents.
\<close>

theorem getFreeElement_confirm_appends:
  assumes "rb_inv rb" and "rb_excessBytes rb = 0" and "length xs \<le> availableWriteSpace rb"
    and "getFreeElement (length xs) rb = (OK, w, rb')"
  shows "rb_contents (confirmBytesWritten (length xs) (client_fill (the w) xs rb')) =
    rb_contents rb @ xs"
  using assms by (rule two_step_write_contents)

theorem getFreeElement_confirm_appends_witness:
  "rb_contents (confirmBytesWritten 2 (client_fill 3 [7, 8]
      \<lparr>rb_start = 0, rb_write = 3, rb_read = 2, rb_size = 4, rb_overwriteOld = False,
       rb_buffer = [0, 0, 9, 0, 0, 0], rb_maxExcessBytes = 2, rb_excessBytes = 1\<rparr>)) = [9, 7, 8]"
proof -
  let ?rb = "\<lparr>rb_start = 0, rb_write = 3, rb_read = 2, rb_size = 4, rb_overwriteOld = False,
       rb_buffer = [0, 0, 9, 0, 0, 0], rb_maxExcessBytes = 2, rb_excessBytes = 0\<rparr>"
  have c: "rb_contents ?rb = [9]" by (simp add: rb_contents_def getAvailableReadData_def)
  have "rb_inv ?rb" by (simp add: rb_inv_def)
  moreover have "getFreeElement (length [7, 8 :: u8]) ?rb = (OK, Some 3, ?rb\<lparr>rb_excessBytes := 1\<rparr>)"
    by (simp add: getFreeElement_def availableWriteSpace_def writeTillWrap_def)
  ultimately show ?thesis
    using getFreeElement_confirm_appends [of ?rb "[7, 8]" "Some 3" "?rb\<lparr>rb_excessBytes := 1\<rparr>"] c
    by (simp add: availableWriteSpace_def numeral_2_eq_2)
qed

text \<open>
  Overflow of a ring in overwriting mode: the write succeeds, but because the read pointer is
  not moved the readable contents afterwards are only the bytes of the new data behind the old
  fill, not the newest \<open>sz - 1\<close> bytes; everything that was readable before is lost.
\<close>

theorem ring_overflow_drops_backlog:
  assumes "rb_inv rb" and "rb_overwriteOld rb"
    and "length xs \<le> getMaxSize rb" and "availableWriteSpace rb < length xs"
  shows "rb_writeData (Some xs) rb = (OK, snd (rb_writeData (Some xs) rb)) \<and>
    rb_contents (snd (rb_writeData (Some xs) rb)) =
      drop (rb_size rb - length (rb_contents rb)) xs"
  using rb_writeData_overflow [OF assms] by (simp add: prod_eq_iff)

theorem ring_overflow_drops_backlog_witness:
  "rb_contents (snd (rb_writeData (Some [4, 5])
      \<lparr>rb_start = 0, rb_write = 3, rb_read = 0, rb_size = 4, rb_overwriteOld = True,
       rb_buffer = [1, 2, 3, 0], rb_maxExcessBytes = 0, rb_excessBytes = 0\<rparr>)) = [5]"
proof -
  let ?rb = "\<lparr>rb_start = 0, rb_write = 3, rb_read = 0, rb_size = 4, rb_overwriteOld = True,
       rb_buffer = [1, 2, 3, 0], rb_maxExcessBytes = 0, rb_excessBytes = 0\<rparr>"
  have "rb_inv ?rb" by (simp add: rb_inv_def)
  moreover have "rb_contents ?rb = [1, 2, 3]"
    by (simp add: rb_contents_def getAvailableReadData_def upt_rec)
  ultimately show ?thesis
    using ring_overflow_drops_backlog [of ?rb "[4, 5]"]
    by (simp add: getMaxSize_def availableWriteSpace_def)
qed

end
