(* ===== verification/Dle.thy ===== *)
theory Dle
  imports Ring_Buffer
begin

text \<open>
  The data link escape codec \<open>src/src/fsfw/globalfunctions/DleEncoder.cpp\<close> in both of its modes
  and the stream parser \<open>src/src/fsfw/globalfunctions/DleParser.cpp\<close> that finds encoded packets in
  a ring buffer.

  An output buffer is the list of the bytes written so far; the write index is its length.
\<close>

section \<open>The encoder\<close>

abbreviation STREAM_TOO_SHORT :: retval where "STREAM_TOO_SHORT \<equiv> RC 63 1"
abbreviation DECODING_ERROR :: retval where "DECODING_ERROR \<equiv> RC 63 2"

abbreviation STX_CHAR :: u8 where "STX_CHAR \<equiv> 0x02"
abbreviation ETX_CHAR :: u8 where "ETX_CHAR \<equiv> 0x03"
abbreviation DLE_CHAR :: u8 where "DLE_CHAR \<equiv> 0x10"
abbreviation CARRIAGE_RETURN :: u8 where "CARRIAGE_RETURN \<equiv> 0x0D"

record dle_encoder =
  escapeStxEtx :: bool
  escapeCr :: bool

definition setEscapeMode :: "bool \<Rightarrow> dle_encoder \<Rightarrow> dle_encoder" where
  "setEscapeMode b enc = enc\<lparr>escapeStxEtx := b\<rparr>"

text \<open>
  The loops return \<open>None\<close> when they returned from inside, otherwise the rest of the source; the
  second component is what was written.
\<close>

fun encode_loop_escaped :: "bool \<Rightarrow> nat \<Rightarrow> bytes \<Rightarrow> bytes \<Rightarrow> bytes option \<times> bytes" where
  "encode_loop_escaped cr maxDestLen [] dest = (Some [], dest)"
| "encode_loop_escaped cr maxDestLen (nextByte # src) dest =
     (if length dest < maxDestLen then
        (if (nextByte = STX_CHAR \<or> nextByte = ETX_CHAR) \<or> (cr \<and> nextByte = CARRIAGE_RETURN) then
           (if length dest + 1 \<ge> maxDestLen then (None, dest)
            else encode_loop_escaped cr maxDestLen src (dest @ [DLE_CHAR, nextByte + 0x40]))
         else if nextByte = DLE_CHAR then
           (if length dest + 1 \<ge> maxDestLen then (None, dest)
            else encode_loop_escaped cr maxDestLen src (dest @ [DLE_CHAR, DLE_CHAR]))
         else encode_loop_escaped cr maxDestLen src (dest @ [nextByte]))
      else (Some (nextByte # src), dest))"

definition encodeStreamEscaped :: "bool \<Rightarrow> bytes \<Rightarrow> nat \<Rightarrow> bool \<Rightarrow> retval \<times> bytes" where
  "encodeStreamEscaped cr source maxDestLen addStxEtx =
     (if addStxEtx \<and> maxDestLen < 1 then (STREAM_TOO_SHORT, [])
      else (case encode_loop_escaped cr maxDestLen source (if addStxEtx then [STX_CHAR] else []) of
        (None, dest) \<Rightarrow> (STREAM_TOO_SHORT, dest)
      | (Some rest, dest) \<Rightarrow>
          (if rest = [] then
             (if addStxEtx then
                (if length dest + 1 \<ge> maxDestLen then (STREAM_TOO_SHORT, dest)
                 else (OK, dest @ [ETX_CHAR]))
              else (OK, dest))
           else (STREAM_TOO_SHORT, dest))))"

fun encode_loop_plain :: "nat \<Rightarrow> bytes \<Rightarrow> bytes \<Rightarrow> bytes option \<times> bytes" where
  "encode_loop_plain maxDestLen [] dest = (Some [], dest)"
| "encode_loop_plain maxDestLen (nextByte # src) dest =
     (if length dest < maxDestLen then
        (if nextByte = DLE_CHAR then
           (if length dest + 1 \<ge> maxDestLen then (None, dest)
            else encode_loop_plain maxDestLen src (dest @ [DLE_CHAR, DLE_CHAR]))
         else encode_loop_plain maxDestLen src (dest @ [nextByte]))
      else (Some (nextByte # src), dest))"

definition encodeStreamNonEscaped :: "bytes \<Rightarrow> nat \<Rightarrow> bool \<Rightarrow> retval \<times> bytes" where
  "encodeStreamNonEscaped source maxDestLen addStxEtx =
     (if addStxEtx \<and> maxDestLen < 2 then (STREAM_TOO_SHORT, [])
      else (case encode_loop_plain maxDestLen source (if addStxEtx then [DLE_CHAR, STX_CHAR] else []) of
        (None, dest) \<Rightarrow> (STREAM_TOO_SHORT, dest)
      | (Some rest, dest) \<Rightarrow>
          (if rest = [] then
             (if addStxEtx then
                (if length dest + 2 \<ge> maxDestLen then (STREAM_TOO_SHORT, dest)
                 else (OK, dest @ [DLE_CHAR, ETX_CHAR]))
              else (OK, dest))
           else (STREAM_TOO_SHORT, dest))))"

definition dle_encode :: "dle_encoder \<Rightarrow> bytes \<Rightarrow> nat \<Rightarrow> bool \<Rightarrow> retval \<times> bytes" where
  "dle_encode enc source maxDestLen addStxEtx =
     (if escapeStxEtx enc then encodeStreamEscaped (escapeCr enc) source maxDestLen addStxEtx
      else encodeStreamNonEscaped source maxDestLen addStxEtx)"

section \<open>The decoder\<close>

text \<open>
  Result: the status, \<open>*readLen\<close>, \<open>*decodedLen\<close> where it is set, and the bytes written. The
  functions read the first bytes of the source without looking at its length; a theorem about them
  has these bytes present.
\<close>

type_synonym decode_result = "retval \<times> nat \<times> nat option \<times> bytes"

definition decode_end :: "nat \<Rightarrow> nat \<Rightarrow> bytes \<Rightarrow> decode_result" where
  "decode_end maxDest i dest =
     (if length dest = maxDest then (STREAM_TOO_SHORT, 0, None, dest)
      else (DECODING_ERROR, i, None, dest))"

function decode_loop_escaped :: "bool \<Rightarrow> nat \<Rightarrow> bytes \<Rightarrow> nat \<Rightarrow> bytes \<Rightarrow> decode_result" where
  "decode_loop_escaped cr maxDest src i dest =
     (if i < length src \<and> length dest < maxDest then
        (if src ! i = DLE_CHAR then
           (if i + 1 \<ge> length src then (DECODING_ERROR, length src, None, dest)
            else (let nextByte = src ! (i + 1) in
              if nextByte = DLE_CHAR then
                decode_loop_escaped cr maxDest src (i + 2) (dest @ [nextByte])
              else if (nextByte = STX_CHAR + 0x40 \<or> nextByte = ETX_CHAR + 0x40) \<or>
                  (cr \<and> nextByte = CARRIAGE_RETURN + 0x40) then
                decode_loop_escaped cr maxDest src (i + 2) (dest @ [nextByte - 0x40])
              else (DECODING_ERROR, i + 2, None, dest)))
         else if src ! i = STX_CHAR then (DECODING_ERROR, i, None, dest)
         else if src ! i = ETX_CHAR then (OK, i + 1, Some (length dest), dest)
         else decode_loop_escaped cr maxDest src (i + 1) (dest @ [src ! i]))
      else decode_end maxDest i dest)"
  by pat_completeness auto
termination
  by (relation "measure (\<lambda>(cr, maxDest, src, i, dest). length src - i)") auto

declare decode_loop_escaped.simps [simp del]

definition decodeStreamEscaped :: "bool \<Rightarrow> bytes \<Rightarrow> nat \<Rightarrow> decode_result" where
  "decodeStreamEscaped cr source maxDest =
     (if maxDest < 1 then (STREAM_TOO_SHORT, 0, None, [])
      else if source ! 0 \<noteq> STX_CHAR then (DECODING_ERROR, 0, None, [])
      else decode_loop_escaped cr maxDest source 1 [])"

function decode_loop_plain :: "nat \<Rightarrow> bytes \<Rightarrow> nat \<Rightarrow> bytes \<Rightarrow> decode_result" where
  "decode_loop_plain maxDest src i dest =
     (if i < length src \<and> length dest < maxDest then
        (if src ! i = DLE_CHAR then
           (if i + 1 \<ge> length src then (DECODING_ERROR, i, None, dest)
            else (let nextByte = src ! (i + 1) in
              if nextByte = STX_CHAR then (DECODING_ERROR, i, None, dest)
              else if nextByte = DLE_CHAR then
                decode_loop_plain maxDest src (i + 2) (dest @ [nextByte])
              else if nextByte = ETX_CHAR then (OK, i + 2, Some (length dest), dest)
              else (DECODING_ERROR, i, None, dest)))
         else decode_loop_plain maxDest src (i + 1) (dest @ [src ! i]))
      else decode_end maxDest i dest)"
  by pat_completeness auto
termination
  by (relation "measure (\<lambda>(maxDest, src, i, dest). length src - i)") auto

declare decode_loop_plain.simps [simp del]

definition decodeStreamNonEscaped :: "bytes \<Rightarrow> nat \<Rightarrow> decode_result" where
  "decodeStreamNonEscaped source maxDest =
     (if maxDest < 2 then (STREAM_TOO_SHORT, 0, None, [])
      else if source ! 0 \<noteq> DLE_CHAR then (DECODING_ERROR, 0, None, [])
      else if source ! 1 \<noteq> STX_CHAR then (DECODING_ERROR, 1, None, [])
      else decode_loop_plain maxDest source 2 [])"

definition dle_decode :: "dle_encoder \<Rightarrow> bytes \<Rightarrow> nat \<Rightarrow> decode_result" where
  "dle_decode enc source maxDest =
     (if escapeStxEtx enc then decodeStreamEscaped (escapeCr enc) source maxDest
      else decodeStreamNonEscaped source maxDest)"

section \<open>The code as a byte-wise map\<close>

definition esc_byte :: "bool \<Rightarrow> u8 \<Rightarrow> bytes" where
  "esc_byte cr b =
     (if b = STX_CHAR \<or> b = ETX_CHAR \<or> cr \<and> b = CARRIAGE_RETURN then [DLE_CHAR, b + 0x40]
      else if b = DLE_CHAR then [DLE_CHAR, DLE_CHAR] else [b])"

definition plain_byte :: "u8 \<Rightarrow> bytes" where
  "plain_byte b = (if b = DLE_CHAR then [DLE_CHAR, DLE_CHAR] else [b])"

definition dle_body :: "dle_encoder \<Rightarrow> bytes \<Rightarrow> bytes" where
  "dle_body enc p =
     concat (map (if escapeStxEtx enc then esc_byte (escapeCr enc) else plain_byte) p)"

definition dle_frame :: "dle_encoder \<Rightarrow> bytes \<Rightarrow> bytes" where
  "dle_frame enc p = (if escapeStxEtx enc then [STX_CHAR] @ dle_body enc p @ [ETX_CHAR]
     else [DLE_CHAR, STX_CHAR] @ dle_body enc p @ [DLE_CHAR, ETX_CHAR])"

lemma encode_loop_escaped_fits:
  "length dest + length (concat (map (esc_byte cr) p)) \<le> m \<Longrightarrow>
   encode_loop_escaped cr m p dest = (Some [], dest @ concat (map (esc_byte cr) p))"
  by (induction p arbitrary: dest) (auto simp: esc_byte_def)

lemma encode_loop_escaped_short:
  "length dest \<le> m \<Longrightarrow> m < length dest + length (concat (map (esc_byte cr) p)) \<Longrightarrow>
   fst (encode_loop_escaped cr m p dest) \<noteq> Some []"
  by (induction p arbitrary: dest) (auto simp: esc_byte_def)

lemma encode_loop_plain_fits:
  "length dest + length (concat (map plain_byte p)) \<le> m \<Longrightarrow>
   encode_loop_plain m p dest = (Some [], dest @ concat (map plain_byte p))"
  by (induction p arbitrary: dest) (auto simp: plain_byte_def)

lemma encode_loop_plain_short:
  "length dest \<le> m \<Longrightarrow> m < length dest + length (concat (map plain_byte p)) \<Longrightarrow>
   fst (encode_loop_plain m p dest) \<noteq> Some []"
  by (induction p arbitrary: dest) (auto simp: plain_byte_def)

lemma encode_loop_bound:
  "length dest \<le> m \<Longrightarrow> length (snd (encode_loop_escaped cr m p dest)) \<le> m"
  "length dest \<le> m \<Longrightarrow> length (snd (encode_loop_plain m p dest)) \<le> m"
  by (induction p arbitrary: dest) auto

lemma esc_byte_inverse:
  "b + 0x40 \<noteq> DLE_CHAR" if "b = STX_CHAR \<or> b = ETX_CHAR \<or> b = CARRIAGE_RETURN" for b :: u8
  using that by auto

lemma decode_loop_escaped_frame:
  assumes "length dest + length p < m"
  shows "decode_loop_escaped cr m (pre @ concat (map (esc_byte cr) p) @ [ETX_CHAR] @ rest)
      (length pre) dest =
    (OK, length pre + length (concat (map (esc_byte cr) p)) + 1,
     Some (length dest + length p), dest @ p)"
  using assms
proof (induction p arbitrary: pre dest)
  case Nil
  then show ?case by (subst decode_loop_escaped.simps) (simp add: nth_append)
next
  case (Cons b p)
  have IH: "decode_loop_escaped cr m ((pre @ esc_byte cr b) @ concat (map (esc_byte cr) p) @
        [ETX_CHAR] @ rest) (length (pre @ esc_byte cr b)) (dest @ [b]) =
      (OK, length (pre @ esc_byte cr b) + length (concat (map (esc_byte cr) p)) + 1,
       Some (length (dest @ [b]) + length p), (dest @ [b]) @ p)"
    using Cons.prems by (intro Cons.IH) simp
  have "decode_loop_escaped cr m (pre @ esc_byte cr b @ concat (map (esc_byte cr) p) @
        [ETX_CHAR] @ rest) (length pre) dest =
      decode_loop_escaped cr m (pre @ esc_byte cr b @ concat (map (esc_byte cr) p) @
        [ETX_CHAR] @ rest) (length (pre @ esc_byte cr b)) (dest @ [b])"
    using Cons.prems
    by (subst decode_loop_escaped.simps) (auto simp: nth_append esc_byte_def Let_def)
  with IH show ?case by simp
qed

lemma decode_loop_plain_frame:
  assumes "length dest + length p < m"
  shows "decode_loop_plain m (pre @ concat (map plain_byte p) @ [DLE_CHAR, ETX_CHAR] @ rest)
      (length pre) dest =
    (OK, length pre + length (concat (map plain_byte p)) + 2,
     Some (length dest + length p), dest @ p)"
  using assms
proof (induction p arbitrary: pre dest)
  case Nil
  then show ?case by (subst decode_loop_plain.simps) (simp add: nth_append)
next
  case (Cons b p)
  have IH: "decode_loop_plain m ((pre @ plain_byte b) @ concat (map plain_byte p) @
        [DLE_CHAR, ETX_CHAR] @ rest) (length (pre @ plain_byte b)) (dest @ [b]) =
      (OK, length (pre @ plain_byte b) + length (concat (map plain_byte p)) + 2,
       Some (length (dest @ [b]) + length p), (dest @ [b]) @ p)"
    using Cons.prems by (intro Cons.IH) simp
  have "decode_loop_plain m (pre @ plain_byte b @ concat (map plain_byte p) @
        [DLE_CHAR, ETX_CHAR] @ rest) (length pre) dest =
      decode_loop_plain m (pre @ plain_byte b @ concat (map plain_byte p) @
        [DLE_CHAR, ETX_CHAR] @ rest) (length (pre @ plain_byte b)) (dest @ [b])"
    using Cons.prems
    by (subst decode_loop_plain.simps) (auto simp: nth_append plain_byte_def Let_def)
  with IH show ?case by simp
qed

lemma encode_loop_escaped_done:
  assumes "length dest \<le> m"
  shows "encode_loop_escaped cr m p dest = (Some [], x) \<longleftrightarrow>
    length dest + length (concat (map (esc_byte cr) p)) \<le> m \<and>
    x = dest @ concat (map (esc_byte cr) p)"
  using encode_loop_escaped_fits [of dest cr p m] encode_loop_escaped_short [OF assms, of cr p]
  by (cases "length dest + length (concat (map (esc_byte cr) p)) \<le> m") auto

lemma encode_loop_plain_done:
  assumes "length dest \<le> m"
  shows "encode_loop_plain m p dest = (Some [], x) \<longleftrightarrow>
    length dest + length (concat (map plain_byte p)) \<le> m \<and> x = dest @ concat (map plain_byte p)"
  using encode_loop_plain_fits [of dest p m] encode_loop_plain_short [OF assms, of p]
  by (cases "length dest + length (concat (map plain_byte p)) \<le> m") auto

lemma encodeStreamEscaped_frame:
  "fst (encodeStreamEscaped cr p m True) = (if length (concat (map (esc_byte cr) p)) + 2 < m
     then OK else STREAM_TOO_SHORT)"
  "length (concat (map (esc_byte cr) p)) + 2 < m \<Longrightarrow>
     snd (encodeStreamEscaped cr p m True) = [STX_CHAR] @ concat (map (esc_byte cr) p) @ [ETX_CHAR]"
  "fst (encodeStreamEscaped cr p m False) = (if length (concat (map (esc_byte cr) p)) \<le> m
     then OK else STREAM_TOO_SHORT)"
  "length (concat (map (esc_byte cr) p)) \<le> m \<Longrightarrow>
     snd (encodeStreamEscaped cr p m False) = concat (map (esc_byte cr) p)"
  by (auto simp: encodeStreamEscaped_def encode_loop_escaped_done encode_loop_escaped_fits
    split: prod.splits option.splits)

lemma encodeStreamNonEscaped_frame:
  "fst (encodeStreamNonEscaped p m True) = (if length (concat (map plain_byte p)) + 4 < m
     then OK else STREAM_TOO_SHORT)"
  "length (concat (map plain_byte p)) + 4 < m \<Longrightarrow>
     snd (encodeStreamNonEscaped p m True) =
       [DLE_CHAR, STX_CHAR] @ concat (map plain_byte p) @ [DLE_CHAR, ETX_CHAR]"
  "fst (encodeStreamNonEscaped p m False) = (if length (concat (map plain_byte p)) \<le> m
     then OK else STREAM_TOO_SHORT)"
  "length (concat (map plain_byte p)) \<le> m \<Longrightarrow>
     snd (encodeStreamNonEscaped p m False) = concat (map plain_byte p)"
  by (auto simp: encodeStreamNonEscaped_def encode_loop_plain_done encode_loop_plain_fits
    split: prod.splits option.splits)

lemma dle_encode_frame:
  "fst (dle_encode enc p m True) =
     (if length (dle_frame enc p) < m then OK else STREAM_TOO_SHORT)"
  "length (dle_frame enc p) < m \<Longrightarrow> snd (dle_encode enc p m True) = dle_frame enc p"
  "fst (dle_encode enc p m False) =
     (if length (dle_body enc p) \<le> m then OK else STREAM_TOO_SHORT)"
  "length (dle_body enc p) \<le> m \<Longrightarrow> snd (dle_encode enc p m False) = dle_body enc p"
  by (auto simp: dle_encode_def dle_frame_def dle_body_def encodeStreamEscaped_frame
    encodeStreamNonEscaped_frame)

lemma dle_decode_frame:
  assumes "length p < m" and "\<not> escapeStxEtx enc \<longrightarrow> 2 \<le> m"
  shows "dle_decode enc (dle_frame enc p @ rest) m =
    (OK, length (dle_frame enc p), Some (length p), p)"
  using assms decode_loop_escaped_frame [of "[]" p m "escapeCr enc" "[STX_CHAR]" rest]
    decode_loop_plain_frame [of "[]" p m "[DLE_CHAR, STX_CHAR]" rest]
  by (auto simp: dle_decode_def decodeStreamEscaped_def decodeStreamNonEscaped_def dle_frame_def
      dle_body_def numeral_2_eq_2)

lemma decode_loop_escaped_bounds:
  "length dest \<le> m \<Longrightarrow> i \<le> length src \<Longrightarrow>
   case decode_loop_escaped cr m src i dest of (r, readLen, n, out) \<Rightarrow>
     length out \<le> m \<and> readLen \<le> length src \<and> (r = OK \<longrightarrow> n = Some (length out))"
proof (induction cr m src i dest rule: decode_loop_escaped.induct)
  case (1 cr m src i dest)
  then show ?case
    by (subst decode_loop_escaped.simps) (auto simp: Let_def decode_end_def)
qed

lemma decode_loop_plain_bounds:
  "length dest \<le> m \<Longrightarrow> i \<le> length src \<Longrightarrow>
   case decode_loop_plain m src i dest of (r, readLen, n, out) \<Rightarrow>
     length out \<le> m \<and> readLen \<le> length src \<and> (r = OK \<longrightarrow> n = Some (length out))"
proof (induction m src i dest rule: decode_loop_plain.induct)
  case (1 m src i dest)
  then show ?case
    by (subst decode_loop_plain.simps) (auto simp: Let_def decode_end_def)
qed

section \<open>The stream parser\<close>

abbreviation NO_PACKET_FOUND :: retval where "NO_PACKET_FOUND \<equiv> RC 1 1"
abbreviation POSSIBLE_PACKET_LOSS :: retval where "POSSIBLE_PACKET_LOSS \<equiv> RC 1 2"

datatype ContextType = CtxNone | CtxPacketFound | CtxError

datatype ErrorTypes = ErrNone | ENCODED_BUF_TOO_SMALL | DECODING_BUF_TOO_SMALL | DECODE_ERROR
  | RING_BUF_ERROR | CONSECUTIVE_STX_CHARS | CONSECUTIVE_ETX_CHARS

text \<open>The union \<open>ErrorInfo\<close>; \<open>InfoUnset\<close> where the code leaves it uninitialised.\<close>

datatype ErrorInfo = InfoLen nat | InfoRes retval | InfoUnset

record dle_context =
  ctx_type :: ContextType
  ctx_decodedPacket :: "bytes option"
  ctx_error :: "ErrorTypes \<times> ErrorInfo"

record dle_parser =
  decodeRingBuf :: ring
  decoder :: dle_encoder
  encodedBufSize :: nat
  decodedBufSize :: nat
  dp_ctx :: dle_context

definition ctx_setType :: "ContextType \<Rightarrow> dle_context \<Rightarrow> dle_context" where
  "ctx_setType t ctx =
     (if t = CtxPacketFound then ctx\<lparr>ctx_type := t, ctx_error := (ErrNone, InfoLen 0)\<rparr>
      else ctx\<lparr>ctx_type := t, ctx_decodedPacket := None\<rparr>)"

definition setErrorContext :: "ErrorTypes \<Rightarrow> ErrorInfo \<Rightarrow> dle_context \<Rightarrow> dle_context" where
  "setErrorContext err info ctx = (ctx_setType CtxError ctx)\<lparr>ctx_error := (err, info)\<rparr>"

definition dle_parser_init :: "ring \<Rightarrow> dle_encoder \<Rightarrow> nat \<Rightarrow> nat \<Rightarrow> dle_parser" where
  "dle_parser_init rb enc encSize decSize =
     \<lparr>decodeRingBuf = rb, decoder = enc, encodedBufSize = encSize, decodedBufSize = decSize,
      dp_ctx = ctx_setType CtxPacketFound
        \<lparr>ctx_type = CtxPacketFound, ctx_decodedPacket = None, ctx_error = (ErrNone, InfoLen 0)\<rparr>\<rparr>"

definition passData :: "bytes option \<Rightarrow> dle_parser \<Rightarrow> retval \<times> dle_parser" where
  "passData data dp =
     (if data = None \<or> data = Some [] then (FAILED, dp)
      else (case rb_writeData data (decodeRingBuf dp) of (r, rb) \<Rightarrow> (r, dp\<lparr>decodeRingBuf := rb\<rparr>)))"

text \<open>
  The loop over the \<open>availableData\<close> bytes copied out of the ring; \<open>stx\<close> holds \<open>stxIdx\<close> once
  \<open>stxFound\<close>. The result is the status, the value assigned to \<open>readSize\<close> if any, and the context.
\<close>

function parse_scan :: "dle_encoder \<Rightarrow> nat \<Rightarrow> bytes \<Rightarrow> nat \<Rightarrow> nat option \<Rightarrow> dle_context \<Rightarrow>
    retval \<times> nat option \<times> dle_context" where
  "parse_scan enc decSize data i stx ctx =
     (if i < length data then
        (if data ! i = STX_CHAR \<and> stx \<noteq> None then
           (POSSIBLE_PACKET_LOSS, Some i, setErrorContext CONSECUTIVE_STX_CHARS InfoUnset ctx)
         else
           (let stx' = (if data ! i = STX_CHAR then Some i else stx) in
            if data ! i = ETX_CHAR then
              (case stx' of
                 Some stxIdx \<Rightarrow>
                   (case dle_decode enc (drop stxIdx data) decSize of (r, dummy, n, out) \<Rightarrow>
                      if r = OK then
                        (OK, Some (i + 1),
                         (ctx_setType CtxPacketFound ctx)\<lparr>ctx_decodedPacket := Some (take (the n) out)\<rparr>)
                      else (POSSIBLE_PACKET_LOSS, Some (i + 1),
                            setErrorContext DECODE_ERROR (InfoRes r) ctx))
               | None \<Rightarrow> (POSSIBLE_PACKET_LOSS, Some (i + 1),
                          setErrorContext CONSECUTIVE_ETX_CHARS (InfoLen 0) ctx))
            else parse_scan enc decSize data (i + 1) stx' ctx))
      else (NO_PACKET_FOUND, None, ctx))"
  by pat_completeness auto
termination
  by (relation "measure (\<lambda>(enc, decSize, data, i, stx, ctx). length data - i)") auto

declare parse_scan.simps [simp del]

definition parseRingBuf :: "dle_parser \<Rightarrow> retval \<times> nat option \<times> dle_parser" where
  "parseRingBuf dp =
     (let ctx = ctx_setType CtxNone (dp_ctx dp);
          availableData = getAvailableReadData (decodeRingBuf dp) in
      if availableData = 0 then (NO_PACKET_FOUND, None, dp\<lparr>dp_ctx := ctx\<rparr>)
      else if availableData > encodedBufSize dp then
        (FAILED, None, dp\<lparr>dp_ctx := setErrorContext DECODING_BUF_TOO_SMALL
           (InfoLen (getAvailableReadData (decodeRingBuf dp))) ctx\<rparr>)
      else
        (case rb_readData availableData False False (decodeRingBuf dp) of (r, data, t, rb) \<Rightarrow>
           if r \<noteq> OK then
             (r, None, dp\<lparr>decodeRingBuf := rb, dp_ctx := setErrorContext RING_BUF_ERROR (InfoRes r) ctx\<rparr>)
           else
             (case parse_scan (decoder dp) (decodedBufSize dp) data 0 None ctx of (r', readSize, ctx') \<Rightarrow>
                (r', readSize, dp\<lparr>decodeRingBuf := rb, dp_ctx := ctx'\<rparr>))))"

definition confirmBytesRead :: "nat \<Rightarrow> dle_parser \<Rightarrow> retval \<times> dle_parser" where
  "confirmBytesRead bytesRead dp =
     (case rb_deleteData bytesRead False (decodeRingBuf dp) of (r, t, rb) \<Rightarrow>
        (r, dp\<lparr>decodeRingBuf := rb\<rparr>))"

definition dle_reset :: "dle_parser \<Rightarrow> dle_parser" where
  "dle_reset dp = dp\<lparr>decodeRingBuf := rb_clear (decodeRingBuf dp)\<rparr>"

subsection \<open>Finding a packet\<close>

lemma esc_byte_plain: "STX_CHAR \<notin> set (esc_byte cr b)" "ETX_CHAR \<notin> set (esc_byte cr b)"
  by (auto simp: esc_byte_def)

lemma dle_body_plain:
  "escapeStxEtx enc \<Longrightarrow> STX_CHAR \<notin> set (dle_body enc p)"
  "escapeStxEtx enc \<Longrightarrow> ETX_CHAR \<notin> set (dle_body enc p)"
  using esc_byte_plain by (auto simp: dle_body_def)

lemma parse_scan_skip:
  assumes "STX_CHAR \<notin> set xs" and "ETX_CHAR \<notin> set xs"
  shows "parse_scan enc m (pre @ xs @ ys) (length pre) stx ctx =
    parse_scan enc m (pre @ xs @ ys) (length pre + length xs) stx ctx"
  using assms
proof (induction xs arbitrary: pre)
  case (Cons x xs)
  have "parse_scan enc m ((pre @ [x]) @ xs @ ys) (length (pre @ [x])) stx ctx =
      parse_scan enc m ((pre @ [x]) @ xs @ ys) (length (pre @ [x]) + length xs) stx ctx"
    using Cons.prems by (intro Cons.IH) auto
  moreover have "parse_scan enc m (pre @ (x # xs) @ ys) (length pre) stx ctx =
      parse_scan enc m (pre @ (x # xs) @ ys) (length pre + 1) stx ctx"
    using Cons.prems by (subst parse_scan.simps) (auto simp: nth_append)
  ultimately show ?case by simp
qed simp

lemma parse_scan_packet:
  assumes esc: "escapeStxEtx enc" and fits: "length p < m"
    and junk: "STX_CHAR \<notin> set junk" "ETX_CHAR \<notin> set junk"
  shows "parse_scan enc m (junk @ dle_frame enc p @ rest) 0 None ctx =
    (OK, Some (length junk + length (dle_frame enc p)),
     (ctx_setType CtxPacketFound ctx)\<lparr>ctx_decodedPacket := Some p\<rparr>)"
proof -
  let ?d = "junk @ dle_frame enc p @ rest" and ?s = "Some (length junk)"
  let ?e = "length junk + 1 + length (dle_body enc p)"
  have f: "dle_frame enc p = STX_CHAR # dle_body enc p @ [ETX_CHAR]"
    using esc by (simp add: dle_frame_def)
  have "parse_scan enc m ?d 0 None ctx = parse_scan enc m ?d (length junk) None ctx"
    using parse_scan_skip [OF junk, of enc m "[]"] by simp
  also have "\<dots> = parse_scan enc m ?d (length junk + 1) ?s ctx"
    by (subst parse_scan.simps) (simp add: f nth_append)
  also have "\<dots> = parse_scan enc m ?d ?e ?s ctx"
    using parse_scan_skip [OF dle_body_plain [OF esc], of enc m "junk @ [STX_CHAR]" _ "ETX_CHAR # rest"]
    by (simp add: f)
  also have "\<dots> = (OK, Some (length junk + length (dle_frame enc p)),
     (ctx_setType CtxPacketFound ctx)\<lparr>ctx_decodedPacket := Some p\<rparr>)"
    using dle_decode_frame [OF fits, of enc rest] esc
    by (subst parse_scan.simps) (simp add: f nth_append)
  finally show ?thesis .
qed

lemma parseRingBuf_packet:
  assumes inv: "rb_inv (decodeRingBuf dp)" and esc: "escapeStxEtx (decoder dp)"
    and c: "rb_contents (decodeRingBuf dp) = junk @ dle_frame (decoder dp) p @ rest"
    and junk: "STX_CHAR \<notin> set junk" "ETX_CHAR \<notin> set junk"
    and fits: "length p < decodedBufSize dp"
      "length (rb_contents (decodeRingBuf dp)) \<le> encodedBufSize dp"
  shows "parseRingBuf dp = (OK, Some (length junk + length (dle_frame (decoder dp) p)),
    dp\<lparr>dp_ctx := (ctx_setType CtxPacketFound (ctx_setType CtxNone (dp_ctx dp)))
      \<lparr>ctx_decodedPacket := Some p\<rparr>\<rparr>)"
proof -
  have "0 < length (rb_contents (decodeRingBuf dp))" unfolding c by (simp add: dle_frame_def)
  then have av: "0 < getAvailableReadData (decodeRingBuf dp)"
      "getAvailableReadData (decodeRingBuf dp) \<le> encodedBufSize dp"
    using fits(2) by simp_all
  moreover have "rb_readData (getAvailableReadData (decodeRingBuf dp)) False False (decodeRingBuf dp) =
      (OK, rb_contents (decodeRingBuf dp), Some (getAvailableReadData (decodeRingBuf dp)), decodeRingBuf dp)"
    using rb_readData_spec [OF inv, of "getAvailableReadData (decodeRingBuf dp)" False False]
    by (simp flip: length_rb_contents)
  ultimately show ?thesis
    using parse_scan_packet [OF esc fits(1) junk, of rest "ctx_setType CtxNone (dp_ctx dp)"]
    by (simp add: parseRingBuf_def Let_def c)
qed

lemma confirmBytesRead_contents:
  assumes inv: "rb_inv (decodeRingBuf dp)" and n: "n \<le> length (rb_contents (decodeRingBuf dp))"
  shows "fst (confirmBytesRead n dp) = OK"
    and "rb_inv (decodeRingBuf (snd (confirmBytesRead n dp)))"
    and "rb_contents (decodeRingBuf (snd (confirmBytesRead n dp))) =
      drop n (rb_contents (decodeRingBuf dp))"
    and "snd (confirmBytesRead n dp) =
      dp\<lparr>decodeRingBuf := decodeRingBuf (snd (confirmBytesRead n dp))\<rparr>"
  using n
  by (simp_all add: confirmBytesRead_def rb_deleteData_spec(2) [OF inv] incrementRead_inv [OF inv]
    incrementRead_contents [OF inv] min_def)

text \<open>
  The specification is about a client of the parser, whose loop is not part of the source: parse,
  take the packet of the context if there is one, confirm what was read; stop when there is nothing
  more to read.
\<close>

fun dle_receive :: "nat \<Rightarrow> dle_parser \<Rightarrow> bytes option list \<times> dle_parser" where
  "dle_receive 0 dp = ([], dp)"
| "dle_receive (Suc n) dp =
     (case parseRingBuf dp of (r, readSize, dp') \<Rightarrow>
        (case readSize of
           None \<Rightarrow> ([], dp')
         | Some k \<Rightarrow>
             (case dle_receive n (snd (confirmBytesRead k dp')) of (ps, dp'') \<Rightarrow>
                (ctx_decodedPacket (dp_ctx dp') # ps, dp''))))"

lemma dle_receive_frames:
  assumes "rb_inv (decodeRingBuf dp)" and "escapeStxEtx (decoder dp)"
    and "rb_contents (decodeRingBuf dp) = concat (map (dle_frame (decoder dp)) ps)"
    and "\<forall>p \<in> set ps. length p < decodedBufSize dp"
    and "length (rb_contents (decodeRingBuf dp)) \<le> encodedBufSize dp"
  shows "fst (dle_receive (length ps) dp) = map Some ps \<and>
    rb_contents (decodeRingBuf (snd (dle_receive (length ps) dp))) = []"
  using assms
proof (induction ps arbitrary: dp)
  case (Cons p ps)
  let ?f = "dle_frame (decoder dp) p"
  let ?dp = "dp\<lparr>dp_ctx := (ctx_setType CtxPacketFound (ctx_setType CtxNone (dp_ctx dp)))
      \<lparr>ctx_decodedPacket := Some p\<rparr>\<rparr>"
  let ?dp' = "snd (confirmBytesRead (length ?f) ?dp)"
  have parse: "parseRingBuf dp = (OK, Some (length ?f), ?dp)"
    using Cons.prems parseRingBuf_packet [of dp "[]" p "concat (map (dle_frame (decoder dp)) ps)"]
    by simp
  have c: "length ?f \<le> length (rb_contents (decodeRingBuf ?dp))" using Cons.prems(3) by simp
  have inv: "rb_inv (decodeRingBuf ?dp)" using Cons.prems(1) by simp
  note conf = confirmBytesRead_contents [OF inv c]
  have frame: "decoder ?dp' = decoder dp" "encodedBufSize ?dp' = encodedBufSize dp"
      "decodedBufSize ?dp' = decodedBufSize dp"
    by (subst conf(4), simp)+
  have cont: "rb_contents (decodeRingBuf ?dp') = concat (map (dle_frame (decoder dp)) ps)"
    unfolding conf(3) using Cons.prems(3) by simp
  have "fst (dle_receive (length ps) ?dp') = map Some ps \<and>
      rb_contents (decodeRingBuf (snd (dle_receive (length ps) ?dp'))) = []"
    using Cons.prems(2-5) conf(2) cont
    by (intro Cons.IH) (auto simp: frame simp del: length_rb_contents)
  then show ?case by (simp add: parse case_prod_unfold)
qed simp

section \<open>Properties\<close>

text \<open>
  C25: round trip in both modes. An encoding that succeeds is decoded, whatever follows it in the
  stream, to exactly the source: the decoder consumes the encoded bytes and nothing else. The
  destination of the decoder needs room for one byte more than the source, and for two bytes in the
  mode without escaping.
\<close>

theorem dle_roundtrip:
  assumes "dle_encode enc p maxDest True = (OK, stream)"
    and "length p < maxDecoded" and "2 \<le> maxDecoded"
  shows "dle_decode enc (stream @ rest) maxDecoded = (OK, length stream, Some (length p), p)"
proof -
  have "stream = dle_frame enc p"
    using assms(1) dle_encode_frame(1,2) [of enc p maxDest] by (auto split: if_splits)
  then show ?thesis using dle_decode_frame [OF assms(2)] assms(3) by simp
qed

theorem dle_roundtrip_witness:
  "dle_decode \<lparr>escapeStxEtx = True, escapeCr = True\<rparr> ([2, 16, 66, 7, 16, 16, 3] @ [9]) 4 =
     (OK, 7, Some 3, [2, 7, 16])"
  using dle_roundtrip [of "\<lparr>escapeStxEtx = True, escapeCr = True\<rparr>" "[2, 7, 16]" 8
      "[2, 16, 66, 7, 16, 16, 3]" 4 "[9]"]
  by (simp add: dle_encode_def encodeStreamEscaped_def)

text \<open>
  The encoder never writes past the destination, and succeeds exactly when the encoded stream
  fits: with the markers it must be strictly shorter than the destination, without them it may fill
  it. On success the destination holds the byte-wise encoding.
\<close>

theorem dle_encode_complete:
  "fst (dle_encode enc p maxDest True) =
     (if length (dle_frame enc p) < maxDest then OK else STREAM_TOO_SHORT) \<and>
   fst (dle_encode enc p maxDest False) =
     (if length (dle_body enc p) \<le> maxDest then OK else STREAM_TOO_SHORT) \<and>
   length (snd (dle_encode enc p maxDest m)) \<le> maxDest"
proof -
  have "length (snd (encodeStreamEscaped cr p maxDest m)) \<le> maxDest" for cr
    using encode_loop_bound(1) [of "if m then [STX_CHAR] else []" maxDest cr p]
    by (auto simp: encodeStreamEscaped_def split: prod.splits option.splits if_splits)
  moreover have "length (snd (encodeStreamNonEscaped p maxDest m)) \<le> maxDest"
    using encode_loop_bound(2) [of "if m then [DLE_CHAR, STX_CHAR] else []" maxDest p]
    by (auto simp: encodeStreamNonEscaped_def split: prod.splits option.splits if_splits)
  ultimately show ?thesis using dle_encode_frame by (simp add: dle_encode_def)
qed

text \<open>
  Memory safety of the decoder on arbitrary input. Whatever the received bytes are, it writes at
  most the destination's size, reports a read length within the source, and on success reports the
  number of bytes it wrote.
\<close>

theorem dle_decode_bounds:
  assumes "2 \<le> length source" and "dle_decode enc source maxDest = (r, readLen, n, out)"
  shows "length out \<le> maxDest \<and> readLen \<le> length source \<and> (r = OK \<longrightarrow> n = Some (length out))"
  using assms decode_loop_escaped_bounds [of "[]" maxDest 1 source "escapeCr enc"]
    decode_loop_plain_bounds [of "[]" maxDest 2 source]
  by (auto simp: dle_decode_def decodeStreamEscaped_def decodeStreamNonEscaped_def split: if_splits)

theorem dle_decode_bounds_witness:
  "dle_decode \<lparr>escapeStxEtx = False, escapeCr = False\<rparr> [16, 2, 5, 16, 9] 4 =
     (DECODING_ERROR, 3, None, [5]) \<and> length [5 :: u8] \<le> 4"
  using dle_decode_bounds [of "[16, 2, 5, 16, 9]" "\<lparr>escapeStxEtx = False, escapeCr = False\<rparr>" 4
      DECODING_ERROR 3 None "[5]"]
  by (simp add: dle_decode_def decodeStreamNonEscaped_def decode_loop_plain.simps)

text \<open>
  C26: end-to-end delivery through the ring buffer, in the mode that escapes STX and ETX. When the
  ring holds encoded packets one after the other, each packet is shorter than the buffer for decoded
  packets and the whole content of the ring fits into the buffer for encoded packets, then a client
  that calls \<open>parseRingBuf\<close> once per packet and confirms with \<open>confirmBytesRead\<close> the number of bytes that
  it returned finds exactly these packets, in order, in the context of the parser, and the ring is
  empty at the end. The two calls are those of the parser; the loop around them, \<open>dle_receive\<close>, is
  that of the client and is not part of \<open>DleParser.cpp\<close>. Nothing is claimed of the mode without escaping.
\<close>

theorem dle_parser_delivers:
  assumes "rb_inv rb" and "escapeStxEtx enc"
    and "rb_contents rb = concat (map (dle_frame enc) ps)"
    and "\<forall>p \<in> set ps. length p < decSize" and "length (rb_contents rb) \<le> encSize"
  shows "fst (dle_receive (length ps) (dle_parser_init rb enc encSize decSize)) = map Some ps \<and>
    rb_contents (decodeRingBuf (snd (dle_receive (length ps)
      (dle_parser_init rb enc encSize decSize)))) = []"
  using assms by (intro dle_receive_frames) (simp_all add: dle_parser_init_def)

theorem dle_parser_delivers_witness:
  "fst (dle_receive (length [[2 :: u8, 7], [16]])
     (dle_parser_init (snd (rb_writeData (Some [2, 16, 66, 7, 3, 2, 16, 16, 3])
        (rb_init (replicate 12 0) 12 False 0))) \<lparr>escapeStxEtx = True, escapeCr = False\<rparr> 10 3)) =
   [Some [2, 7], Some [16]]"
proof -
  let ?empty = "rb_init (replicate 12 0) 12 False 0"
  let ?rb = "snd (rb_writeData (Some [2, 16, 66, 7, 3, 2, 16, 16, 3]) ?empty)"
  let ?enc = "\<lparr>escapeStxEtx = True, escapeCr = False\<rparr>"
  have i: "rb_inv ?empty" by (rule rb_init_inv) simp_all
  have s: "availableWriteSpace ?empty = 11" by (simp add: availableWriteSpace_def rb_init_def)
  have c: "rb_contents ?rb = [2, 16, 66, 7, 3, 2, 16, 16, 3]"
    using rb_writeData_contents [OF i, of "[2, 16, 66, 7, 3, 2, 16, 16, 3]"] s by simp
  have "fst (dle_receive (length [[2 :: u8, 7], [16]]) (dle_parser_init ?rb ?enc 10 3)) =
      map Some [[2, 7], [16]]"
  proof (rule conjunct1 [OF dle_parser_delivers])
    show "rb_inv ?rb" using rb_writeData_inv [OF i] by blast
    show "rb_contents ?rb = concat (map (dle_frame ?enc) [[2, 7], [16]])"
      unfolding c by (simp add: dle_frame_def dle_body_def esc_byte_def)
  qed (simp_all add: c del: length_rb_contents)
  then show ?thesis by simp
qed

end
