(* ===== verification/Farm.thy ===== *)
theory Farm
  imports Fsfw_Prelude
begin

text \<open>
  Reception of telecommand frames on a virtual channel, \<open>src/src/fsfw/datalinklayer\<close>: the accessors
  of \<open>TcTransferFrame.cpp\<close>, the control commands of \<open>BCFrame.h\<close>, the link control word of
  \<open>Clcw.cpp\<close> and the FARM-1 machine (\<open>Farm1StateOpen.cpp\<close>, \<open>Farm1StateWait.cpp\<close>,
  \<open>Farm1StateLockout.cpp\<close>, \<open>VirtualChannelReception.cpp\<close>), which is proved to implement the state
  table of CCSDS 232.1 stated over modular sequence numbers.
\<close>

section \<open>Return codes\<close>

abbreviation BC_IS_SET_VR_COMMAND :: retval where "BC_IS_SET_VR_COMMAND \<equiv> RC 44 0x01"
abbreviation BC_IS_UNLOCK_COMMAND :: retval where "BC_IS_UNLOCK_COMMAND \<equiv> RC 44 0x02"
abbreviation BC_ILLEGAL_COMMAND :: retval where "BC_ILLEGAL_COMMAND \<equiv> RC 44 0xB0"
abbreviation NS_POSITIVE_W :: retval where "NS_POSITIVE_W \<equiv> RC 44 0xF0"
abbreviation NS_NEGATIVE_W :: retval where "NS_NEGATIVE_W \<equiv> RC 44 0xF1"
abbreviation NS_LOCKOUT :: retval where "NS_LOCKOUT \<equiv> RC 44 0xF2"
abbreviation FARM_IN_LOCKOUT :: retval where "FARM_IN_LOCKOUT \<equiv> RC 44 0xF3"
abbreviation FARM_IN_WAIT :: retval where "FARM_IN_WAIT \<equiv> RC 44 0xF4"
abbreviation ILLEGAL_FLAG_COMBINATION :: retval where "ILLEGAL_FLAG_COMBINATION \<equiv> RC 44 0xD0"

section \<open>Transfer frames\<close>

text \<open>A frame is the list of bytes from the frame pointer on; the header has five bytes.\<close>

type_synonym tc_frame = bytes

abbreviation FRAME_CRC_SIZE :: u16 where "FRAME_CRC_SIZE \<equiv> 2"

definition getVersionNumber :: "tc_frame \<Rightarrow> u8" where
  "getVersionNumber fr = drop_bit 6 (fr ! 0 AND 0b11000000)"

definition bypassFlagSet :: "tc_frame \<Rightarrow> bool" where
  "bypassFlagSet fr \<longleftrightarrow> fr ! 0 AND 0b00100000 \<noteq> 0"

definition controlCommandFlagSet :: "tc_frame \<Rightarrow> bool" where
  "controlCommandFlagSet fr \<longleftrightarrow> fr ! 0 AND 0b00010000 \<noteq> 0"

definition spareIsZero :: "tc_frame \<Rightarrow> bool" where
  "spareIsZero fr \<longleftrightarrow> fr ! 0 AND 0b00001100 = 0"

definition getSpacecraftId :: "tc_frame \<Rightarrow> u16" where
  "getSpacecraftId fr = push_bit 8 (ucast (fr ! 0 AND 0b00000011)) + ucast (fr ! 1)"

definition getVirtualChannelId :: "tc_frame \<Rightarrow> u8" where
  "getVirtualChannelId fr = drop_bit 2 (fr ! 2 AND 0b11111100)"

definition getFrameLength :: "tc_frame \<Rightarrow> u16" where
  "getFrameLength fr = push_bit 8 (ucast (fr ! 2 AND 0b00000011)) + ucast (fr ! 3)"

definition getHeaderSize :: "tc_frame \<Rightarrow> u16" where
  "getHeaderSize fr = 5"

text \<open>The \<open>uint16_t\<close> results wrap around for a length field that is too small.\<close>

definition getDataLength :: "tc_frame \<Rightarrow> u16" where
  "getDataLength fr = getFrameLength fr - getHeaderSize fr - 1 - FRAME_CRC_SIZE + 1"

definition getSequenceNumber :: "tc_frame \<Rightarrow> u8" where
  "getSequenceNumber fr = fr ! 4"

definition getSequenceFlags :: "tc_frame \<Rightarrow> u8" where
  "getSequenceFlags fr = drop_bit 6 (fr ! 5 AND 0b11000000)"

definition getMAPId :: "tc_frame \<Rightarrow> u8" where
  "getMAPId fr = fr ! 5 AND 0b00111111"

definition getDataField :: "tc_frame \<Rightarrow> bytes" where
  "getDataField fr = drop 6 fr"

definition getFullSize :: "tc_frame \<Rightarrow> u16" where
  "getFullSize fr = getFrameLength fr + 1"

definition getFullDataLength :: "tc_frame \<Rightarrow> u16" where
  "getFullDataLength fr = getFrameLength fr - getHeaderSize fr - FRAME_CRC_SIZE + 1"

definition getFullDataField :: "tc_frame \<Rightarrow> bytes" where
  "getFullDataField fr = drop 5 fr"

section \<open>Control commands\<close>

abbreviation UNLOCK_COMMAND :: u8 where "UNLOCK_COMMAND \<equiv> 0"
abbreviation SET_V_R_1 :: u8 where "SET_V_R_1 \<equiv> 0b10000010"
abbreviation SET_V_R_2 :: u8 where "SET_V_R_2 \<equiv> 0"

record bc_frame =
  bc_byte1 :: u8
  bc_byte2 :: u8
  bc_vR :: u8

definition bc_new :: bc_frame where
  "bc_new = \<lparr>bc_byte1 = 0, bc_byte2 = 0, bc_vR = 0\<rparr>"

definition bc_initialize :: "bytes \<Rightarrow> u16 \<Rightarrow> bc_frame \<Rightarrow> retval \<times> bc_frame" where
  "bc_initialize inBuffer inSize bc =
     (if inSize = 1 then
        (let bc = bc\<lparr>bc_byte1 := inBuffer ! 0\<rparr>
         in (if bc_byte1 bc = UNLOCK_COMMAND then BC_IS_UNLOCK_COMMAND else BC_ILLEGAL_COMMAND, bc))
      else if inSize = 3 then
        (let bc = bc\<lparr>bc_byte1 := inBuffer ! 0, bc_byte2 := inBuffer ! 1, bc_vR := inBuffer ! 2\<rparr>
         in (if bc_byte1 bc = SET_V_R_1 \<and> bc_byte2 bc = SET_V_R_2 then BC_IS_SET_VR_COMMAND
             else BC_ILLEGAL_COMMAND, bc))
      else (BC_ILLEGAL_COMMAND, bc))"

section \<open>The link control word\<close>

record clcw =
  clcw_status :: u8
  virtualChannelIdSpare :: u8
  clcw_flags :: u8
  vRValue :: u8

definition clcw_new :: clcw where
  "clcw_new = \<lparr>clcw_status = 1, virtualChannelIdSpare = 0, clcw_flags = 0, vRValue = 0\<rparr>"

text \<open>\<open>(flags & (0xFF xor (1 << pos))) | (value << pos)\<close>.\<close>

definition put_flag :: "nat \<Rightarrow> bool \<Rightarrow> u8 \<Rightarrow> u8" where
  "put_flag pos v flags = (flags AND (0xFF XOR push_bit pos 1)) OR push_bit pos (of_bool v)"

definition setVirtualChannel :: "u8 \<Rightarrow> clcw \<Rightarrow> clcw" where
  "setVirtualChannel ch c = c\<lparr>virtualChannelIdSpare := push_bit 2 (ch AND 0x3F)\<rparr>"

definition setLockoutFlag :: "bool \<Rightarrow> clcw \<Rightarrow> clcw" where
  "setLockoutFlag v c = c\<lparr>clcw_flags := put_flag 5 v (clcw_flags c)\<rparr>"

definition setWaitFlag :: "bool \<Rightarrow> clcw \<Rightarrow> clcw" where
  "setWaitFlag v c = c\<lparr>clcw_flags := put_flag 4 v (clcw_flags c)\<rparr>"

definition setRetransmitFlag :: "bool \<Rightarrow> clcw \<Rightarrow> clcw" where
  "setRetransmitFlag v c = c\<lparr>clcw_flags := put_flag 3 v (clcw_flags c)\<rparr>"

definition setFarmBCount :: "u8 \<Rightarrow> clcw \<Rightarrow> clcw" where
  "setFarmBCount count c =
     c\<lparr>clcw_flags := (clcw_flags c AND 0b11111001) OR push_bit 1 (count AND 0x03)\<rparr>"

definition setReceiverFrameSequenceNumber :: "u8 \<Rightarrow> clcw \<Rightarrow> clcw" where
  "setReceiverFrameSequenceNumber v c = c\<lparr>vRValue := v\<rparr>"

definition setRFAvailable :: "bool \<Rightarrow> clcw \<Rightarrow> clcw" where
  "setRFAvailable v c = c\<lparr>clcw_flags := put_flag 7 (\<not> v) (clcw_flags c)\<rparr>"

definition setBitLock :: "bool \<Rightarrow> clcw \<Rightarrow> clcw" where
  "setBitLock v c = c\<lparr>clcw_flags := put_flag 6 (\<not> v) (clcw_flags c)\<rparr>"

text \<open>The union overlays the four bytes and \<open>raw\<close>; the layout here is that of a little-endian machine.\<close>

definition getAsWhole :: "clcw \<Rightarrow> u32" where
  "getAsWhole c = ucast (clcw_status c) OR push_bit 8 (ucast (virtualChannelIdSpare c)) OR
     push_bit 16 (ucast (clcw_flags c)) OR push_bit 24 (ucast (vRValue c))"

definition setWhole :: "u32 \<Rightarrow> clcw \<Rightarrow> clcw" where
  "setWhole raw c = \<lparr>clcw_status = ucast raw, virtualChannelIdSpare = ucast (drop_bit 8 raw),
     clcw_flags = ucast (drop_bit 16 raw), vRValue = ucast (drop_bit 24 raw)\<rparr>"

section \<open>The FARM-1 machine\<close>

datatype farm1_state = Open | Wait | Lockout

record vc_reception =
  channelId :: u8
  slidingWindowWidth :: u8
  positiveWindow :: u8
  negativeWindow :: u8
  currentState :: farm1_state
  internalClcw :: clcw
  vc_vR :: u8
  farmBCounter :: u8

definition vc_new :: "u8 \<Rightarrow> u8 \<Rightarrow> vc_reception" where
  "vc_new setChannelId setSlidingWindowWidth =
     \<lparr>channelId = setChannelId, slidingWindowWidth = setSlidingWindowWidth,
      positiveWindow = setSlidingWindowWidth div 2, negativeWindow = setSlidingWindowWidth div 2,
      currentState = Open, internalClcw = setVirtualChannel setChannelId clcw_new,
      vc_vR = 0, farmBCounter = 0\<rparr>"

text \<open>
  The handlers of the three states. They work on the channel's own control word, which
  \<open>frameAcceptanceAndReportingMechanism\<close> passes to them. The difference of the sequence numbers is
  an \<open>int8_t\<close>; the windows are promoted to \<open>int\<close>.
\<close>

abbreviation upd_clcw :: "(clcw \<Rightarrow> clcw) \<Rightarrow> vc_reception \<Rightarrow> vc_reception" where
  "upd_clcw f vc \<equiv> vc\<lparr>internalClcw := f (internalClcw vc)\<rparr>"

definition open_handleADFrame :: "tc_frame \<Rightarrow> vc_reception \<Rightarrow> retval \<times> vc_reception" where
  "open_handleADFrame fr vc =
     (let diff = sint (getSequenceNumber fr - vc_vR vc) in
      if diff = 0 then (OK, upd_clcw (setRetransmitFlag False) (vc\<lparr>vc_vR := vc_vR vc + 1\<rparr>))
      else if diff < uint (positiveWindow vc) \<and> diff > 0 then
        (NS_POSITIVE_W, upd_clcw (setRetransmitFlag True) vc)
      else if diff < 0 \<and> diff \<ge> - uint (negativeWindow vc) then (NS_NEGATIVE_W, vc)
      else (NS_LOCKOUT, (upd_clcw (setLockoutFlag True) vc)\<lparr>currentState := Lockout\<rparr>))"

definition open_handleBCUnlock :: "vc_reception \<Rightarrow> retval \<times> vc_reception" where
  "open_handleBCUnlock vc =
     (BC_IS_UNLOCK_COMMAND,
      upd_clcw (setRetransmitFlag False) (vc\<lparr>farmBCounter := farmBCounter vc + 1\<rparr>))"

definition open_handleBCSetVr :: "u8 \<Rightarrow> vc_reception \<Rightarrow> retval \<times> vc_reception" where
  "open_handleBCSetVr vr vc =
     (BC_IS_SET_VR_COMMAND,
      (upd_clcw (setRetransmitFlag False) (vc\<lparr>farmBCounter := farmBCounter vc + 1\<rparr>))\<lparr>vc_vR := vr\<rparr>)"

definition wait_handleADFrame :: "tc_frame \<Rightarrow> vc_reception \<Rightarrow> retval \<times> vc_reception" where
  "wait_handleADFrame fr vc =
     (let diff = sint (getSequenceNumber fr - vc_vR vc) in
      if diff < - uint (negativeWindow vc) \<or> diff \<ge> uint (positiveWindow vc) then
        (FARM_IN_WAIT, (upd_clcw (setLockoutFlag True) vc)\<lparr>currentState := Lockout\<rparr>)
      else (FARM_IN_WAIT, vc))"

definition wait_handleBCUnlock :: "vc_reception \<Rightarrow> retval \<times> vc_reception" where
  "wait_handleBCUnlock vc =
     (BC_IS_UNLOCK_COMMAND,
      (upd_clcw (setWaitFlag False \<circ> setRetransmitFlag False)
        (vc\<lparr>farmBCounter := farmBCounter vc + 1\<rparr>))\<lparr>currentState := Open\<rparr>)"

definition wait_handleBCSetVr :: "u8 \<Rightarrow> vc_reception \<Rightarrow> retval \<times> vc_reception" where
  "wait_handleBCSetVr vr vc =
     (BC_IS_SET_VR_COMMAND,
      (upd_clcw (setRetransmitFlag False \<circ> setWaitFlag False)
        (vc\<lparr>farmBCounter := farmBCounter vc + 1\<rparr>))\<lparr>vc_vR := vr, currentState := Open\<rparr>)"

definition lockout_handleADFrame :: "tc_frame \<Rightarrow> vc_reception \<Rightarrow> retval \<times> vc_reception" where
  "lockout_handleADFrame fr vc = (FARM_IN_LOCKOUT, vc)"

definition lockout_handleBCUnlock :: "vc_reception \<Rightarrow> retval \<times> vc_reception" where
  "lockout_handleBCUnlock vc =
     (BC_IS_UNLOCK_COMMAND,
      (upd_clcw (setWaitFlag False \<circ> setLockoutFlag False \<circ> setRetransmitFlag False)
        (vc\<lparr>farmBCounter := farmBCounter vc + 1\<rparr>))\<lparr>currentState := Open\<rparr>)"

definition lockout_handleBCSetVr :: "u8 \<Rightarrow> vc_reception \<Rightarrow> retval \<times> vc_reception" where
  "lockout_handleBCSetVr vr vc = (BC_IS_SET_VR_COMMAND, vc\<lparr>farmBCounter := farmBCounter vc + 1\<rparr>)"

text \<open>The calls through \<open>currentState\<close>.\<close>

fun handleADFrame :: "farm1_state \<Rightarrow> tc_frame \<Rightarrow> vc_reception \<Rightarrow> retval \<times> vc_reception" where
  "handleADFrame Open fr vc = open_handleADFrame fr vc"
| "handleADFrame Wait fr vc = wait_handleADFrame fr vc"
| "handleADFrame Lockout fr vc = lockout_handleADFrame fr vc"

fun handleBCUnlockCommand :: "farm1_state \<Rightarrow> vc_reception \<Rightarrow> retval \<times> vc_reception" where
  "handleBCUnlockCommand Open vc = open_handleBCUnlock vc"
| "handleBCUnlockCommand Wait vc = wait_handleBCUnlock vc"
| "handleBCUnlockCommand Lockout vc = lockout_handleBCUnlock vc"

fun handleBCSetVrCommand :: "farm1_state \<Rightarrow> u8 \<Rightarrow> vc_reception \<Rightarrow> retval \<times> vc_reception" where
  "handleBCSetVrCommand Open vr vc = open_handleBCSetVr vr vc"
| "handleBCSetVrCommand Wait vr vc = wait_handleBCSetVr vr vc"
| "handleBCSetVrCommand Lockout vr vc = lockout_handleBCSetVr vr vc"

definition handleBDFrame :: "tc_frame \<Rightarrow> vc_reception \<Rightarrow> retval \<times> vc_reception" where
  "handleBDFrame fr vc = (OK, vc\<lparr>farmBCounter := farmBCounter vc + 1\<rparr>)"

definition handleBCFrame :: "tc_frame \<Rightarrow> vc_reception \<Rightarrow> retval \<times> vc_reception" where
  "handleBCFrame fr vc =
     (case bc_initialize (getFullDataField fr) (getFullDataLength fr) bc_new of (r, content) \<Rightarrow>
        if r = BC_IS_UNLOCK_COMMAND then handleBCUnlockCommand (currentState vc) vc
        else if r = BC_IS_SET_VR_COMMAND then
          handleBCSetVrCommand (currentState vc) (bc_vR content) vc
        else (r, vc))"

abbreviation AD_FRAME :: u8 where "AD_FRAME \<equiv> 0"
abbreviation BC_FRAME :: u8 where "BC_FRAME \<equiv> 3"
abbreviation BD_FRAME :: u8 where "BD_FRAME \<equiv> 2"

definition doFARM :: "tc_frame \<Rightarrow> vc_reception \<Rightarrow> retval \<times> vc_reception" where
  "doFARM fr vc =
     (let bypass = of_bool (bypassFlagSet fr); controlCommand = of_bool (controlCommandFlagSet fr);
          typeValue = push_bit 1 bypass + controlCommand :: u8 in
      if typeValue = AD_FRAME then handleADFrame (currentState vc) fr vc
      else if typeValue = BD_FRAME then handleBDFrame fr vc
      else if typeValue = BC_FRAME then handleBCFrame fr vc
      else (ILLEGAL_FLAG_COMBINATION, vc))"

definition setToWaitState :: "vc_reception \<Rightarrow> vc_reception" where
  "setToWaitState vc = (upd_clcw (setWaitFlag True) vc)\<lparr>currentState := Wait\<rparr>"

section \<open>The state table of the protocol\<close>

text \<open>
  The abstract receiver: sequence numbers are numbers below 256 compared modulo 256, and the flags
  are truth values of their own. \<open>farm_spec_step\<close> is the state table for AD, BD, Unlock and Set V(R)
  frames.
\<close>

datatype farm_event = EvAD nat | EvBD | EvUnlock | EvSetVr nat | EvIllegalBC | EvIllegalType

record farm_spec =
  fs_pw :: nat
  fs_nw :: nat
  fs_mode :: farm1_state
  fs_vr :: nat
  fs_lockout :: bool
  fs_wait :: bool
  fs_retransmit :: bool
  fs_bcount :: nat

definition classify :: "tc_frame \<Rightarrow> farm_event" where
  "classify fr =
     (if bypassFlagSet fr then
        (if controlCommandFlagSet fr then
           (case bc_initialize (getFullDataField fr) (getFullDataLength fr) bc_new of (r, bc) \<Rightarrow>
              if r = BC_IS_UNLOCK_COMMAND then EvUnlock
              else if r = BC_IS_SET_VR_COMMAND then EvSetVr (unat (bc_vR bc)) else EvIllegalBC)
         else EvBD)
      else if controlCommandFlagSet fr then EvIllegalType
      else EvAD (unat (getSequenceNumber fr)))"

text \<open>How far \<open>ns\<close> is ahead of \<open>vr\<close>, modulo 256.\<close>

definition ahead :: "nat \<Rightarrow> nat \<Rightarrow> nat" where
  "ahead ns vr = (ns + 256 - vr) mod 256"

fun farm_spec_step :: "farm_spec \<Rightarrow> farm_event \<Rightarrow> retval \<times> farm_spec" where
  "farm_spec_step s (EvAD ns) =
     (let d = ahead ns (fs_vr s) in
      case fs_mode s of
        Open \<Rightarrow>
          (if d = 0 then (OK, s\<lparr>fs_vr := (fs_vr s + 1) mod 256, fs_retransmit := False\<rparr>)
           else if d < fs_pw s then (NS_POSITIVE_W, s\<lparr>fs_retransmit := True\<rparr>)
           else if 256 - fs_nw s \<le> d then (NS_NEGATIVE_W, s)
           else (NS_LOCKOUT, s\<lparr>fs_lockout := True, fs_mode := Lockout\<rparr>))
      | Wait \<Rightarrow>
          (if d < fs_pw s \<or> 256 - fs_nw s \<le> d then (FARM_IN_WAIT, s)
           else (FARM_IN_WAIT, s\<lparr>fs_lockout := True, fs_mode := Lockout\<rparr>))
      | Lockout \<Rightarrow> (FARM_IN_LOCKOUT, s))"
| "farm_spec_step s EvBD = (OK, s\<lparr>fs_bcount := (fs_bcount s + 1) mod 256\<rparr>)"
| "farm_spec_step s EvUnlock =
     (BC_IS_UNLOCK_COMMAND,
      (let s' = s\<lparr>fs_bcount := (fs_bcount s + 1) mod 256, fs_retransmit := False, fs_mode := Open\<rparr> in
       case fs_mode s of
         Open \<Rightarrow> s'
       | Wait \<Rightarrow> s'\<lparr>fs_wait := False\<rparr>
       | Lockout \<Rightarrow> s'\<lparr>fs_wait := False, fs_lockout := False\<rparr>))"
| "farm_spec_step s (EvSetVr v) =
     (BC_IS_SET_VR_COMMAND,
      (let s' = s\<lparr>fs_bcount := (fs_bcount s + 1) mod 256\<rparr> in
       case fs_mode s of
         Open \<Rightarrow> s'\<lparr>fs_vr := v, fs_retransmit := False\<rparr>
       | Wait \<Rightarrow> s'\<lparr>fs_vr := v, fs_retransmit := False, fs_wait := False, fs_mode := Open\<rparr>
       | Lockout \<Rightarrow> s'))"
| "farm_spec_step s EvIllegalBC = (BC_ILLEGAL_COMMAND, s)"
| "farm_spec_step s EvIllegalType = (ILLEGAL_FLAG_COMBINATION, s)"

definition farm_abs :: "vc_reception \<Rightarrow> farm_spec" where
  "farm_abs vc = \<lparr>fs_pw = unat (positiveWindow vc), fs_nw = unat (negativeWindow vc),
     fs_mode = currentState vc, fs_vr = unat (vc_vR vc),
     fs_lockout = bit (clcw_flags (internalClcw vc)) 5, fs_wait = bit (clcw_flags (internalClcw vc)) 4,
     fs_retransmit = bit (clcw_flags (internalClcw vc)) 3, fs_bcount = unat (farmBCounter vc)\<rparr>"

definition farm_windows :: "vc_reception \<Rightarrow> bool" where
  "farm_windows vc \<longleftrightarrow> unat (positiveWindow vc) < 128 \<and> unat (negativeWindow vc) < 128"

subsection \<open>Helper facts\<close>

lemma bit_put_flag: "pos < 8 \<Longrightarrow> bit (put_flag pos v f) n \<longleftrightarrow> (if n = pos then v else bit f n)"
  by (auto simp: put_flag_def bit_simps bit_mask_numerals dest: bit_imp_le_length)

lemma unat_plus_one_u8: "unat (w + 1 :: u8) = (unat w + 1) mod 256"
  by (simp add: unat_word_ariths)

lemma ahead_diff: "ahead (unat a) (unat b) = unat (a - b :: u8)"
proof -
  have b: "unat b < 256" using unsigned_less [of b, where ?'a = nat] by simp
  have "int (ahead (unat a) (unat b)) = (int (unat a) + 256 - int (unat b)) mod 256"
    using b by (simp add: ahead_def of_nat_mod of_nat_diff)
  also have "\<dots> = (int (unat a) - int (unat b)) mod 256"
    by (metis add_diff_eq diff_add_eq mod_add_self2)
  also have "\<dots> = int (unat (a - b))"
    by (simp add: uint_word_ariths flip: uint_nat)
  finally show ?thesis by (simp only: of_nat_eq_iff)
qed

lemma sint_u8: "sint (w :: u8) = (if unat w < 128 then int (unat w) else int (unat w) - 256)"
proof -
  define k where "k = unat w"
  have k: "k < 256" using unsigned_less [of w, where ?'a = nat] by (simp add: k_def)
  have "sint w = signed_take_bit 7 (int k)" by (simp add: sint_uint k_def)
  also have "\<dots> = (int k + 128) mod 256 - 128"
    by (simp add: signed_take_bit_eq_take_bit_shift take_bit_eq_mod)
  also have "\<dots> = (if k < 128 then int k else int k - 256)"
  proof (cases "k < 128")
    case False
    have "(int k - 128 + 256) mod 256 = int k - 128"
      using False k by (simp only: mod_add_self2) simp
    with False show ?thesis by (simp add: add.commute)
  qed simp
  finally show ?thesis by (simp only: k_def)
qed

lemmas clcw_setters = setLockoutFlag_def setWaitFlag_def setRetransmitFlag_def

lemmas farm_handlers = open_handleADFrame_def wait_handleADFrame_def lockout_handleADFrame_def
  open_handleBCUnlock_def wait_handleBCUnlock_def lockout_handleBCUnlock_def
  open_handleBCSetVr_def wait_handleBCSetVr_def lockout_handleBCSetVr_def
  handleBDFrame_def

lemma window_tests:
  fixes ns vr pw nw :: u8
  assumes pw: "unat pw < 128" and nw: "unat nw < 128"
  defines "d \<equiv> ahead (unat ns) (unat vr)"
  shows "sint (ns - vr) = 0 \<longleftrightarrow> d = 0"
    and "sint (ns - vr) < uint pw \<and> sint (ns - vr) > 0 \<longleftrightarrow> 0 < d \<and> d < unat pw"
    and "sint (ns - vr) < 0 \<and> sint (ns - vr) \<ge> - uint nw \<longleftrightarrow> 256 - unat nw \<le> d"
    and "sint (ns - vr) < - uint nw \<or> sint (ns - vr) \<ge> uint pw \<longleftrightarrow>
      \<not> (d < unat pw \<or> 256 - unat nw \<le> d)"
proof -
  define P N where P_def: "P = unat pw" and N_def: "N = unat nw"
  have n: "uint pw = int P" "uint nw = int N" by (simp_all add: P_def N_def)
  have "d < 256" by (simp add: d_def ahead_def)
  moreover have "sint (ns - vr) = (if d < 128 then int d else int d - 256)"
    by (simp only: sint_u8 d_def ahead_diff)
  ultimately show "sint (ns - vr) = 0 \<longleftrightarrow> d = 0"
    and "sint (ns - vr) < uint pw \<and> sint (ns - vr) > 0 \<longleftrightarrow> 0 < d \<and> d < unat pw"
    and "sint (ns - vr) < 0 \<and> sint (ns - vr) \<ge> - uint nw \<longleftrightarrow> 256 - unat nw \<le> d"
    and "sint (ns - vr) < - uint nw \<or> sint (ns - vr) \<ge> uint pw \<longleftrightarrow>
      \<not> (d < unat pw \<or> 256 - unat nw \<le> d)"
    using pw nw n unfolding P_def [symmetric] N_def [symmetric] by (auto split: if_splits)
qed

lemma open_AD_refines:
  assumes "farm_windows vc" and "currentState vc = Open"
  shows "farm_spec_step (farm_abs vc) (EvAD (unat (getSequenceNumber fr))) =
    (fst (open_handleADFrame fr vc), farm_abs (snd (open_handleADFrame fr vc)))"
proof -
  from assms(1) have w: "unat (positiveWindow vc) < 128" "unat (negativeWindow vc) < 128"
    by (simp_all add: farm_windows_def)
  show ?thesis using assms(2)
    unfolding open_handleADFrame_def Let_def window_tests [OF w]
    by (simp add: farm_abs_def clcw_setters bit_put_flag unat_plus_one_u8 Let_def)
qed

lemma wait_AD_refines:
  assumes "farm_windows vc" and "currentState vc = Wait"
  shows "farm_spec_step (farm_abs vc) (EvAD (unat (getSequenceNumber fr))) =
    (fst (wait_handleADFrame fr vc), farm_abs (snd (wait_handleADFrame fr vc)))"
proof -
  from assms(1) have w: "unat (positiveWindow vc) < 128" "unat (negativeWindow vc) < 128"
    by (simp_all add: farm_windows_def)
  show ?thesis using assms(2)
    unfolding wait_handleADFrame_def Let_def window_tests [OF w]
    by (simp add: farm_abs_def clcw_setters bit_put_flag Let_def)
qed

lemma doFARM_by_type:
  "doFARM fr vc =
     (if bypassFlagSet fr then
        (if controlCommandFlagSet fr then handleBCFrame fr vc else handleBDFrame fr vc)
      else if controlCommandFlagSet fr then (ILLEGAL_FLAG_COMBINATION, vc)
      else handleADFrame (currentState vc) fr vc)"
  by (simp add: doFARM_def Let_def)

lemma bc_initialize_codes:
  "fst (bc_initialize buf n bc) \<in> {BC_IS_UNLOCK_COMMAND, BC_IS_SET_VR_COMMAND, BC_ILLEGAL_COMMAND}"
  by (simp add: bc_initialize_def Let_def)

lemma doFARM_refines:
  assumes "farm_windows vc"
  shows "farm_spec_step (farm_abs vc) (classify fr) =
    (fst (doFARM fr vc), farm_abs (snd (doFARM fr vc)))"
proof (cases "bypassFlagSet fr")
  case True
  then show ?thesis
    using bc_initialize_codes [of "getFullDataField fr" "getFullDataLength fr" bc_new]
    by (cases "currentState vc")
      (auto simp: doFARM_by_type classify_def handleBCFrame_def farm_handlers farm_abs_def
        clcw_setters bit_put_flag unat_plus_one_u8 case_prod_unfold Let_def)
next
  case False
  then show ?thesis
    using assms open_AD_refines wait_AD_refines
    by (cases "currentState vc")
      (auto simp: doFARM_by_type classify_def lockout_handleADFrame_def farm_abs_def
         simp del: farm_spec_step.simps(1), simp_all add: Let_def)
qed

lemma doFARM_windows:
  "farm_windows (snd (doFARM fr vc)) \<longleftrightarrow> farm_windows vc"
  by (cases "currentState vc")
    (auto simp: doFARM_by_type handleBCFrame_def farm_handlers farm_windows_def case_prod_unfold Let_def)

section \<open>Runs of the machine\<close>

datatype vc_call = Receive tc_frame | EnterWait

fun farm_step :: "vc_reception \<Rightarrow> vc_call \<Rightarrow> retval \<times> vc_reception" where
  "farm_step vc (Receive fr) = doFARM fr vc"
| "farm_step vc EnterWait = (OK, setToWaitState vc)"

fun farm_spec_call :: "farm_spec \<Rightarrow> vc_call \<Rightarrow> retval \<times> farm_spec" where
  "farm_spec_call s (Receive fr) = farm_spec_step s (classify fr)"
| "farm_spec_call s EnterWait = (OK, s\<lparr>fs_wait := True, fs_mode := Wait\<rparr>)"

interpretation farm: data_refinement farm_step farm_spec_call farm_abs farm_windows "\<lambda>_. True"
proof
  fix vc c
  assume w: "farm_windows vc"
  show "farm_windows (snd (farm_step vc c))"
    using w by (cases c) (simp_all add: doFARM_windows setToWaitState_def, simp add: farm_windows_def)
  show "farm_spec_call (farm_abs vc) c = (fst (farm_step vc c), farm_abs (snd (farm_step vc c)))"
  proof (cases c)
    case (Receive fr)
    with w show ?thesis by (simp add: doFARM_refines)
  qed (simp add: setToWaitState_def farm_abs_def clcw_setters bit_put_flag)
qed

lemma vc_new_windows: "farm_windows (vc_new ch w)"
proof -
  have "unat (w div 2) = unat w div 2" by (simp add: unat_div_distrib)
  moreover have "unat w < 256" using unsigned_less [of w, where ?'a = nat] by simp
  ultimately have "unat (w div 2) < 128" by simp
  then show ?thesis by (simp add: farm_windows_def vc_new_def)
qed

lemma vc_new_abs:
  "farm_abs (vc_new ch w) = \<lparr>fs_pw = unat w div 2, fs_nw = unat w div 2, fs_mode = Open, fs_vr = 0,
     fs_lockout = False, fs_wait = False, fs_retransmit = False, fs_bcount = 0\<rparr>"
  by (simp add: farm_abs_def vc_new_def setVirtualChannel_def clcw_new_def unat_div_distrib)

text \<open>The flags a ground station reads agree with the state of the machine.\<close>

definition flags_agree :: "vc_reception \<Rightarrow> bool" where
  "flags_agree vc \<longleftrightarrow>
     (bit (clcw_flags (internalClcw vc)) 5 \<longleftrightarrow> currentState vc = Lockout) \<and>
     (currentState vc = Open \<longrightarrow> \<not> bit (clcw_flags (internalClcw vc)) 4) \<and>
     (currentState vc = Wait \<longrightarrow> bit (clcw_flags (internalClcw vc)) 4)"

text \<open>\<open>setToWaitState\<close> is called on a channel that is not locked out.\<close>

inductive vc_reachable :: "u8 \<Rightarrow> u8 \<Rightarrow> vc_reception \<Rightarrow> bool" for ch w where
  start: "vc_reachable ch w (vc_new ch w)"
| receive: "vc_reachable ch w vc \<Longrightarrow> vc_reachable ch w (snd (doFARM fr vc))"
| wait: "vc_reachable ch w vc \<Longrightarrow> currentState vc \<noteq> Lockout \<Longrightarrow> vc_reachable ch w (setToWaitState vc)"

lemma doFARM_flags_agree: "flags_agree vc \<Longrightarrow> flags_agree (snd (doFARM fr vc))"
  by (cases "currentState vc")
    (auto simp: doFARM_by_type handleBCFrame_def farm_handlers flags_agree_def clcw_setters
      bit_put_flag case_prod_unfold Let_def)

lemma reachable_flags_agree: "vc_reachable ch w vc \<Longrightarrow> flags_agree vc"
proof (induction rule: vc_reachable.induct)
  case start
  then show ?case by (simp add: flags_agree_def vc_new_def setVirtualChannel_def clcw_new_def)
next
  case (receive vc fr)
  then show ?case by (simp add: doFARM_flags_agree)
next
  case (wait vc)
  then show ?case by (simp add: flags_agree_def setToWaitState_def clcw_setters bit_put_flag)
qed

text \<open>The frames among those received that the machine accepts in sequence-controlled mode.\<close>

definition is_ad :: "tc_frame \<Rightarrow> bool" where
  "is_ad fr \<longleftrightarrow> \<not> bypassFlagSet fr \<and> \<not> controlCommandFlagSet fr"

fun accepted_ad :: "vc_reception \<Rightarrow> tc_frame list \<Rightarrow> u8 list" where
  "accepted_ad vc [] = []"
| "accepted_ad vc (fr # frs) =
     (if is_ad fr \<and> fst (doFARM fr vc) = OK then [getSequenceNumber fr] else []) @
     accepted_ad (snd (doFARM fr vc)) frs"

fun run_farm :: "vc_reception \<Rightarrow> tc_frame list \<Rightarrow> vc_reception" where
  "run_farm vc [] = vc"
| "run_farm vc (fr # frs) = run_farm (snd (doFARM fr vc)) frs"

definition is_set_vr :: "tc_frame \<Rightarrow> bool" where
  "is_set_vr fr \<longleftrightarrow> (case classify fr of EvSetVr v \<Rightarrow> True | _ \<Rightarrow> False)"

definition is_unlock :: "tc_frame \<Rightarrow> bool" where
  "is_unlock fr \<longleftrightarrow> classify fr = EvUnlock"

lemma sint_diff_zero: "sint (a - b :: u8) = 0 \<longleftrightarrow> a = b"
  using word_eq_iff_signed [of "a - b" 0, where ?'a = int] by simp

lemma doFARM_vR:
  assumes "\<not> is_set_vr fr"
  shows "vc_vR (snd (doFARM fr vc)) =
    (if is_ad fr \<and> fst (doFARM fr vc) = OK then vc_vR vc + 1 else vc_vR vc)"
    and "is_ad fr \<Longrightarrow> fst (doFARM fr vc) = OK \<Longrightarrow> getSequenceNumber fr = vc_vR vc"
  using assms
  by (cases "currentState vc";
      auto simp: doFARM_by_type handleBCFrame_def farm_handlers is_ad_def is_set_vr_def classify_def
        case_prod_unfold Let_def sint_diff_zero split: if_splits)+

lemma accepted_ad_consecutive:
  assumes "\<forall>fr \<in> set frs. \<not> is_set_vr fr"
  shows "accepted_ad vc frs = map (\<lambda>i. vc_vR vc + of_nat i) [0..<length (accepted_ad vc frs)] \<and>
    vc_vR (run_farm vc frs) = vc_vR vc + of_nat (length (accepted_ad vc frs))"
  using assms
proof (induction frs arbitrary: vc)
  case (Cons fr frs)
  let ?n = "length (accepted_ad (snd (doFARM fr vc)) frs)"
  have shift: "map (\<lambda>i. vc_vR vc + of_nat i) [0..<Suc ?n] =
      vc_vR vc # map (\<lambda>i. (vc_vR vc + 1) + of_nat i) [0..<?n]"
    by (simp only: map_upt_Suc) (simp add: ac_simps)
  have IH: "accepted_ad (snd (doFARM fr vc)) frs =
      map (\<lambda>i. vc_vR (snd (doFARM fr vc)) + of_nat i) [0..<?n]"
    "vc_vR (run_farm (snd (doFARM fr vc)) frs) = vc_vR (snd (doFARM fr vc)) + of_nat ?n"
    using Cons by auto
  from Cons.prems have ns: "\<not> is_set_vr fr" by simp
  show ?case
  proof (cases "is_ad fr \<and> fst (doFARM fr vc) = OK")
    case True
    then have "getSequenceNumber fr = vc_vR vc" using doFARM_vR(2) [OF ns] by blast
    with True IH shift show ?thesis by (simp add: doFARM_vR(1) [OF ns] del: upt_Suc)
  next
    case False
    with IH show ?thesis by (simp add: doFARM_vR(1) [OF ns])
  qed
qed simp

lemma lockout_stays:
  assumes "currentState vc = Lockout" and "\<not> is_unlock fr"
  shows "currentState (snd (doFARM fr vc)) = Lockout" and "is_ad fr \<Longrightarrow> fst (doFARM fr vc) \<noteq> OK"
  using assms
  by (auto simp: doFARM_by_type handleBCFrame_def farm_handlers is_unlock_def classify_def is_ad_def
    case_prod_unfold)

lemma lockout_rejects:
  "currentState vc = Lockout \<Longrightarrow> \<forall>fr \<in> set frs. \<not> is_unlock fr \<Longrightarrow>
   accepted_ad vc frs = [] \<and> currentState (run_farm vc frs) = Lockout"
  by (induction frs arbitrary: vc) (auto simp: lockout_stays)

section \<open>Properties\<close>

text \<open>
  C15: the reception of a virtual channel implements the FARM-1 state table. For every window width
  and every sequence of frames and wait requests, a new channel answers as the abstract receiver
  over modular sequence numbers does, and its V(R), FARM-B counter and the lockout, wait and
  retransmit bits of its control word are those of the abstract receiver.
\<close>

theorem farm_refines_state_table:
  "run_calls farm_spec_call
     \<lparr>fs_pw = unat w div 2, fs_nw = unat w div 2, fs_mode = Open, fs_vr = 0, fs_lockout = False,
      fs_wait = False, fs_retransmit = False, fs_bcount = 0\<rparr> cs =
   (fst (run_calls farm_step (vc_new ch w) cs), farm_abs (snd (run_calls farm_step (vc_new ch w) cs)))"
  using farm.run_refines [OF vc_new_windows, of cs ch w] by (simp add: vc_new_abs list_all_iff)

text \<open>
  C29: sequence control. Whatever frames arrive, in whatever order, lost, repeated or damaged, as
  long as no Set V(R) command is among them the sequence numbers of the accepted AD frames are V(R),
  V(R) + 1, V(R) + 2 and so on modulo 256: none is skipped, repeated or reordered, also across
  lockouts and unlocks.
\<close>

theorem farm_accepts_in_sequence:
  assumes "\<forall>fr \<in> set frs. \<not> is_set_vr fr"
  shows "accepted_ad vc frs = map (\<lambda>i. vc_vR vc + of_nat i) [0..<length (accepted_ad vc frs)] \<and>
    vc_vR (run_farm vc frs) = vc_vR vc + of_nat (length (accepted_ad vc frs))"
  using assms by (rule accepted_ad_consecutive)

theorem farm_accepts_in_sequence_witness:
  "accepted_ad (vc_new 0 10) [[0, 0, 0, 8, 0, 0, 0, 0, 0], [0, 0, 0, 8, 3, 0, 0, 0, 0],
     [0, 0, 0, 8, 1, 0, 0, 0, 0]] = [0, 1] \<and>
   vc_vR (run_farm (vc_new 0 10) [[0, 0, 0, 8, 0, 0, 0, 0, 0], [0, 0, 0, 8, 3, 0, 0, 0, 0],
     [0, 0, 0, 8, 1, 0, 0, 0, 0]]) = 2"
proof -
  let ?frs = "[[0, 0, 0, 8, 0, 0, 0, 0, 0], [0, 0, 0, 8, 3, 0, 0, 0, 0],
     [0, 0, 0, 8, 1, 0, 0, 0, 0]] :: tc_frame list"
  have "\<forall>fr \<in> set ?frs. \<not> is_set_vr fr" by code_simp
  moreover have "accepted_ad (vc_new 0 10) ?frs = [0, 1]" by code_simp
  ultimately show ?thesis
    using farm_accepts_in_sequence [of ?frs "vc_new 0 10"] by (simp add: vc_new_def)
qed

text \<open>
  Lockout is left by an Unlock command only. While a channel is locked out and no Unlock arrives,
  no AD frame is accepted and the channel stays locked out.
\<close>

theorem farm_lockout_until_unlock:
  assumes "currentState vc = Lockout" and "\<forall>fr \<in> set frs. \<not> is_unlock fr"
  shows "accepted_ad vc frs = [] \<and> currentState (run_farm vc frs) = Lockout"
  using assms by (rule lockout_rejects)

theorem farm_lockout_until_unlock_witness:
  "accepted_ad (run_farm (vc_new 0 10) [[0, 0, 0, 8, 99, 0, 0, 0, 0]]) [[0, 0, 0, 8, 0, 0, 0, 0, 0]] = []"
  using farm_lockout_until_unlock [of "run_farm (vc_new 0 10) [[0, 0, 0, 8, 99, 0, 0, 0, 0]]"
    "[[0, 0, 0, 8, 0, 0, 0, 0, 0]]"]
  by (simp add: is_unlock_def classify_def bypassFlagSet_def controlCommandFlagSet_def
    doFARM_by_type vc_new_def open_handleADFrame_def getSequenceNumber_def sint_u8)

text \<open>
  The control word tells the ground the truth. In every state a channel reaches, when it is put
  into the wait state only while not locked out, the lockout flag is set exactly in the lockout
  state, and the wait flag is set in the wait state and clear in the open state.
\<close>

theorem farm_flags_agree:
  assumes "vc_reachable ch w vc"
  shows "(bit (clcw_flags (internalClcw vc)) 5 \<longleftrightarrow> currentState vc = Lockout) \<and>
    (currentState vc = Open \<longrightarrow> \<not> bit (clcw_flags (internalClcw vc)) 4) \<and>
    (currentState vc = Wait \<longrightarrow> bit (clcw_flags (internalClcw vc)) 4)"
  using reachable_flags_agree [OF assms] unfolding flags_agree_def .

theorem farm_flags_agree_witness:
  "currentState (setToWaitState (vc_new 3 10)) = Wait \<and>
   bit (clcw_flags (internalClcw (setToWaitState (vc_new 3 10)))) 4"
  using farm_flags_agree [OF vc_reachable.wait [OF vc_reachable.start], of 3 10]
  by (simp add: vc_new_def setToWaitState_def)

text \<open>
  The wait request does not look at the state. On a channel that is locked out it leaves the
  lockout flag set in the wait state, and the Unlock that follows reopens the channel with the
  lockout flag still set.
\<close>

theorem farm_wait_in_lockout_keeps_flag:
  assumes "currentState vc = Lockout" and "bit (clcw_flags (internalClcw vc)) 5"
    and "is_unlock fr"
  shows "currentState (snd (doFARM fr (setToWaitState vc))) = Open \<and>
    bit (clcw_flags (internalClcw (snd (doFARM fr (setToWaitState vc))))) 5"
proof -
  let ?buf = "bc_initialize (getFullDataField fr) (getFullDataLength fr) bc_new"
  have t: "bypassFlagSet fr \<and> controlCommandFlagSet fr"
    using assms(3) by (auto simp: is_unlock_def classify_def split: if_splits)
  then have "fst ?buf = BC_IS_UNLOCK_COMMAND"
    using assms(3) by (simp add: is_unlock_def classify_def case_prod_unfold split: if_splits)
  with t assms(2) show ?thesis
    by (simp add: doFARM_by_type handleBCFrame_def case_prod_unfold setToWaitState_def
      wait_handleBCUnlock_def clcw_setters bit_put_flag)
qed

theorem farm_wait_in_lockout_keeps_flag_witness:
  "bit (clcw_flags (internalClcw (snd (doFARM [0x30, 0, 0, 7, 0, 0, 0, 0]
     (setToWaitState (run_farm (vc_new 0 10) [[0, 0, 0, 8, 99, 0, 0, 0, 0]])))))) 5"
  using farm_wait_in_lockout_keeps_flag [of "run_farm (vc_new 0 10) [[0, 0, 0, 8, 99, 0, 0, 0, 0]]"
    "[0x30, 0, 0, 7, 0, 0, 0, 0]"]
  by (simp add: is_unlock_def classify_def bypassFlagSet_def controlCommandFlagSet_def
    doFARM_by_type vc_new_def open_handleADFrame_def getSequenceNumber_def sint_u8
    setLockoutFlag_def bit_put_flag bc_initialize_def getFullDataLength_def getFrameLength_def
    getHeaderSize_def getFullDataField_def)

end
