(* ===== verification/Local_Pool.thy ===== *)
theory Local_Pool
  imports Fsfw_Prelude
begin

text \<open>
  The packet store of \<open>src/src/fsfw/storagemanager/LocalPool.cpp\<close>: subpools of equally sized
  elements in ascending element size, addressed by a subpool index and a packet index
  (\<open>storeAddress.h\<close>). Telecommands, telemetry and housekeeping data travel through the system as
  addresses into such a store. The locale \<open>packet_store\<close> is the contract of
  \<open>StorageManagerIF\<close> that its users rely on.
\<close>

section \<open>State\<close>

record store_address =
  poolIndex :: nat
  packetIndex :: nat

text \<open>
  A size of \<open>STORAGE_FREE\<close> marks a free element. \<open>storeFullHits\<close> is the counter of the internal
  error reporter, \<open>None\<close> before \<open>initialize\<close> has found the reporter. \<open>pool_undefined\<close> records that a
  vector has been indexed out of its bounds, which is undefined behaviour.
\<close>

record pool =
  numberOfElements :: "nat list"
  elementSizes :: "nat list"
  pool_store :: "bytes list"
  sizeLists :: "nat list list"
  ignoreFault :: bool
  spillsToHigherPools :: bool
  storeFullHits :: "nat option"
  pool_undefined :: bool

definition STORAGE_FREE :: nat where "STORAGE_FREE = 2 ^ 64 - 1"

abbreviation NUMBER_OF_SUBPOOLS :: "pool \<Rightarrow> nat" where
  "NUMBER_OF_SUBPOOLS p \<equiv> length (elementSizes p)"

abbreviation DATA_TOO_LARGE :: retval where "DATA_TOO_LARGE \<equiv> RC 40 1"
abbreviation DATA_STORAGE_FULL :: retval where "DATA_STORAGE_FULL \<equiv> RC 40 2"
abbreviation ILLEGAL_STORAGE_ID :: retval where "ILLEGAL_STORAGE_ID \<equiv> RC 40 3"
abbreviation DATA_DOES_NOT_EXIST :: retval where "DATA_DOES_NOT_EXIST \<equiv> RC 40 4"
abbreviation ILLEGAL_ADDRESS :: retval where "ILLEGAL_ADDRESS \<equiv> RC 40 5"
abbreviation POOL_TOO_LARGE :: retval where "POOL_TOO_LARGE \<equiv> RC 40 6"
abbreviation INTERNAL_ERR_REPORTER_UNINIT :: retval where "INTERNAL_ERR_REPORTER_UNINIT \<equiv> RC 2 4"

section \<open>Operations\<close>

text \<open>
  The configuration is a multiset of pairs (number of elements, element size) ordered by
  \<open>LocalPoolConfigCmp\<close>: by size, then by number.
\<close>

definition config_order :: "(nat \<times> nat) list \<Rightarrow> (nat \<times> nat) list" where
  "config_order cfg = sort_key snd (sort_key fst cfg)"

definition pool_init :: "(nat \<times> nat) list \<Rightarrow> bool \<Rightarrow> pool" where
  "pool_init cfg spills =
     (let c = config_order cfg in
      \<lparr>numberOfElements = map fst c, elementSizes = map snd c,
       pool_store = map (\<lambda>(n, s). replicate (n * s) 0) c,
       sizeLists = map (\<lambda>(n, s). replicate n STORAGE_FREE) c,
       ignoreFault = False, spillsToHigherPools = spills, storeFullHits = None, pool_undefined = False\<rparr>)"

text \<open>\<open>initialize\<close>, with the reporter the object manager returns (its hit counter, if any).\<close>

definition pool_initialize :: "nat option \<Rightarrow> pool \<Rightarrow> retval \<times> pool" where
  "pool_initialize reporter p =
     (case reporter of None \<Rightarrow> (INTERNAL_ERR_REPORTER_UNINIT, p\<lparr>storeFullHits := None\<rparr>)
      | Some h \<Rightarrow>
        (if list_ex (\<lambda>s. s \<ge> STORAGE_FREE) (elementSizes p) then POOL_TOO_LARGE else OK,
         p\<lparr>storeFullHits := Some h\<rparr>))"

text \<open>The parameter has the type \<open>max_subpools_t\<close>, an integer of eight bits.\<close>

definition getSubpoolElementSize :: "u8 \<Rightarrow> pool \<Rightarrow> nat" where
  "getSubpoolElementSize i p = (if unat i < NUMBER_OF_SUBPOOLS p then elementSizes p ! unat i else 0)"

definition getSubPoolIndex :: "nat \<Rightarrow> nat \<Rightarrow> pool \<Rightarrow> retval \<times> nat" where
  "getSubPoolIndex packetSize startAtIndex p =
     (let n = scan_from (\<lambda>s. s \<ge> packetSize) (elementSizes p) (NUMBER_OF_SUBPOOLS p) startAtIndex
      in if n < NUMBER_OF_SUBPOOLS p then (OK, n) else (DATA_TOO_LARGE, n))"

definition getRawPosition :: "store_address \<Rightarrow> pool \<Rightarrow> nat" where
  "getRawPosition a p = packetIndex a * elementSizes p ! poolIndex a"

definition findEmpty :: "nat \<Rightarrow> pool \<Rightarrow> retval \<times> nat" where
  "findEmpty i p =
     (let e = scan_from (\<lambda>s. s = STORAGE_FREE) (sizeLists p ! i) (numberOfElements p ! i) 0
      in if e < numberOfElements p ! i then (OK, e) else (DATA_STORAGE_FULL, e))"

lemma getSubPoolIndex_OK:
  assumes "getSubPoolIndex sz s p = (OK, n)"
  shows "s \<le> n" and "n < NUMBER_OF_SUBPOOLS p" and "sz \<le> elementSizes p ! n"
    and "\<And>j. s \<le> j \<Longrightarrow> j < n \<Longrightarrow> elementSizes p ! j < sz"
proof -
  from assms have n: "n = scan_from (\<lambda>e. e \<ge> sz) (elementSizes p) (NUMBER_OF_SUBPOOLS p) s"
    and l: "n < NUMBER_OF_SUBPOOLS p"
    by (auto simp: getSubPoolIndex_def Let_def split: if_splits)
  then show "s \<le> n" "n < NUMBER_OF_SUBPOOLS p" by (simp_all add: scan_from_ge)
  show "sz \<le> elementSizes p ! n"
    using scan_from_hit [of "\<lambda>e. e \<ge> sz" "elementSizes p" "NUMBER_OF_SUBPOOLS p" s] l n by simp
  show "elementSizes p ! j < sz" if "s \<le> j" "j < n" for j
    using scan_from_miss [of s j "\<lambda>e. e \<ge> sz" "elementSizes p" "NUMBER_OF_SUBPOOLS p"] that n
    by simp
qed

lemma getSubPoolIndex_step:
  "getSubPoolIndex sz (Suc i) p = (OK, n) \<Longrightarrow> NUMBER_OF_SUBPOOLS p - n < NUMBER_OF_SUBPOOLS p - i"
  using getSubPoolIndex_OK(1,2) [of sz "Suc i" p n] by linarith

text \<open>
  The search of \<open>reserveSpace\<close> once a fitting subpool is known: look for a free element there
  and, as long as there is none and the pool may spill, in the next fitting subpool.
\<close>

function reserve_search :: "nat \<Rightarrow> store_address \<Rightarrow> pool \<Rightarrow> retval \<times> store_address" where
  "reserve_search sz a p =
     (case findEmpty (poolIndex a) p of (status, e) \<Rightarrow>
       if status = OK then (OK, a\<lparr>packetIndex := e\<rparr>)
       else if \<not> spillsToHigherPools p then (status, a)
       else case getSubPoolIndex sz (poolIndex a + 1) p of (status, n) \<Rightarrow>
         if status \<noteq> OK then (status, a) else reserve_search sz (a\<lparr>poolIndex := n\<rparr>) p)"
  by pat_completeness auto
termination
  by (relation "measure (\<lambda>(sz, a, p). NUMBER_OF_SUBPOOLS p - poolIndex a)")
    (auto dest!: sym [of "(_, _)"] dest: getSubPoolIndex_step)

declare reserve_search.simps [simp del]

definition reserveSpace :: "nat \<Rightarrow> store_address \<Rightarrow> pool \<Rightarrow> retval \<times> store_address \<times> pool" where
  "reserveSpace sz a p =
     (case getSubPoolIndex sz 0 p of (status, n) \<Rightarrow>
       if status \<noteq> OK then (status, a, p)
       else case reserve_search sz (a\<lparr>poolIndex := n\<rparr>) p of (status, a) \<Rightarrow>
         if status = OK then
           (OK, a, p\<lparr>sizeLists := (sizeLists p)[poolIndex a :=
                      (sizeLists p ! poolIndex a)[packetIndex a := sz]]\<rparr>)
         else (status, a,
           if \<not> ignoreFault p then p\<lparr>storeFullHits := map_option Suc (storeFullHits p)\<rparr> else p))"

definition pool_write :: "store_address \<Rightarrow> bytes \<Rightarrow> pool \<Rightarrow> pool" where
  "pool_write a data p =
     p\<lparr>pool_store := (pool_store p)[poolIndex a :=
         memcpy_at (pool_store p ! poolIndex a) (getRawPosition a p) data],
       sizeLists := (sizeLists p)[poolIndex a :=
         (sizeLists p ! poolIndex a)[packetIndex a := length data]]\<rparr>"

definition pool_addData :: "store_address \<Rightarrow> bytes \<Rightarrow> pool \<Rightarrow> retval \<times> store_address \<times> pool" where
  "pool_addData a data p =
     (case reserveSpace (length data) a p of (status, a, p) \<Rightarrow>
       if status = OK then (OK, a, pool_write a data p) else (status, a, p))"

text \<open>
  A pointer to an element is its position in the subpool's memory; the operations that hand out a
  pointer return the position and the size.
\<close>

definition pool_modifyData :: "store_address \<Rightarrow> pool \<Rightarrow> retval \<times> (nat \<times> nat) option" where
  "pool_modifyData a p =
     (if poolIndex a \<ge> NUMBER_OF_SUBPOOLS p then (ILLEGAL_STORAGE_ID, None)
      else if packetIndex a \<ge> numberOfElements p ! poolIndex a then (ILLEGAL_STORAGE_ID, None)
      else if sizeLists p ! poolIndex a ! packetIndex a \<noteq> STORAGE_FREE
      then (OK, Some (getRawPosition a p, sizeLists p ! poolIndex a ! packetIndex a))
      else (DATA_DOES_NOT_EXIST, None))"

text \<open>\<open>getData\<close>, with the bytes that the returned pointer and size designate.\<close>

definition pool_getData :: "store_address \<Rightarrow> pool \<Rightarrow> retval \<times> bytes option" where
  "pool_getData a p =
     (case pool_modifyData a p of
        (status, None) \<Rightarrow> (status, None)
      | (status, Some (pos, sz)) \<Rightarrow> (status, Some (mem_read (pool_store p ! poolIndex a) pos sz)))"

definition pool_getFreeElement ::
  "store_address \<Rightarrow> nat \<Rightarrow> pool \<Rightarrow> retval \<times> nat option \<times> store_address \<times> pool" where
  "pool_getFreeElement a sz p =
     (case reserveSpace sz a p of (status, a, p) \<Rightarrow>
       if status = OK then (OK, Some (getRawPosition a p), a, p) else (status, None, a, p))"

text \<open>A write of the caller through the pointer that \<open>getFreeElement\<close> returned.\<close>

definition page_write :: "store_address \<Rightarrow> bytes \<Rightarrow> pool \<Rightarrow> pool" where
  "page_write a data p =
     p\<lparr>pool_store := (pool_store p)[poolIndex a :=
         memcpy_at (pool_store p ! poolIndex a) (getRawPosition a p) data]\<rparr>"

text \<open>
  Deletion stores the raw position in a \<open>uint16_t\<close>: a position of \<open>2 ^ 16\<close> and more is reduced
  before the page is cleared. The subpool index of 16 bits is reduced to eight bits when its element
  size is looked up, and used as it is afterwards: an index whose low byte is a subpool passes the check
  and is then out of the bounds of all vectors.
\<close>

definition pool_deleteData :: "store_address \<Rightarrow> pool \<Rightarrow> retval \<times> pool" where
  "pool_deleteData a p =
     (let pageSize = getSubpoolElementSize (of_nat (poolIndex a)) p in
      if pageSize \<noteq> 0 \<and> poolIndex a \<ge> NUMBER_OF_SUBPOOLS p then (ILLEGAL_STORAGE_ID, p\<lparr>pool_undefined := True\<rparr>)
      else if pageSize \<noteq> 0 \<and> packetIndex a < numberOfElements p ! poolIndex a then
        (let packetPosition = getRawPosition a p mod 2 ^ 16 in
         (OK, p\<lparr>pool_store := (pool_store p)[poolIndex a :=
                  memcpy_at (pool_store p ! poolIndex a) packetPosition (replicate pageSize 0)],
                sizeLists := (sizeLists p)[poolIndex a :=
                  (sizeLists p ! poolIndex a)[packetIndex a := STORAGE_FREE]]\<rparr>))
      else (ILLEGAL_STORAGE_ID, p))"

text \<open>
  Deletion by pointer: the pointer is a block of memory and an offset into it, the blocks being
  the subpools' memories in order; the loop finds the subpool whose memory contains it.
\<close>

definition pool_deletePtr ::
  "nat \<times> nat \<Rightarrow> pool \<Rightarrow> retval \<times> store_address option \<times> pool" where
  "pool_deletePtr ptr p =
     (case ptr of (block, offset) \<Rightarrow>
       (let n = scan_from (\<lambda>i. block = i \<and> offset < numberOfElements p ! i * elementSizes p ! i)
                  [0..<NUMBER_OF_SUBPOOLS p] (NUMBER_OF_SUBPOOLS p) 0 in
        if n < NUMBER_OF_SUBPOOLS p then
          (let a = \<lparr>poolIndex = n,
                    packetIndex = ((offset mod 2 ^ 32) div elementSizes p ! n) mod 2 ^ 16\<rparr>
           in case pool_deleteData a p of (r, p') \<Rightarrow> (r, Some a, p'))
        else (ILLEGAL_ADDRESS, None, p)))"

definition clearStore :: "pool \<Rightarrow> pool" where
  "clearStore p = p\<lparr>sizeLists := map (map (\<lambda>_. STORAGE_FREE)) (sizeLists p)\<rparr>"

definition clearSubPool :: "nat \<Rightarrow> pool \<Rightarrow> pool" where
  "clearSubPool i p =
     (if i \<ge> NUMBER_OF_SUBPOOLS p then p
      else p\<lparr>sizeLists := (sizeLists p)[i := map (\<lambda>_. STORAGE_FREE) (sizeLists p ! i)],
             pool_store := (pool_store p)[i :=
               memcpy_at (pool_store p ! i) 0 (replicate (elementSizes p ! i) 0)]\<rparr>)"

definition hasDataAtId :: "store_address \<Rightarrow> pool \<Rightarrow> bool" where
  "hasDataAtId a p =
     (if poolIndex a \<ge> NUMBER_OF_SUBPOOLS p then False
      else if packetIndex a \<ge> numberOfElements p ! poolIndex a then False
      else if sizeLists p ! poolIndex a ! packetIndex a \<noteq> STORAGE_FREE then True
      else False)"

definition getTotalSize :: "pool \<Rightarrow> nat \<times> nat" where
  "getTotalSize p =
     (sum_list (map2 (*) (elementSizes p) (numberOfElements p)),
      sum_list (map (\<lambda>n. n * 8) (numberOfElements p)))"

definition setToSpillToHigherPools :: "bool \<Rightarrow> pool \<Rightarrow> pool" where
  "setToSpillToHigherPools enable p = p\<lparr>spillsToHigherPools := enable\<rparr>"

section \<open>Invariant\<close>

definition subpool_ok :: "nat \<Rightarrow> nat \<Rightarrow> bytes \<Rightarrow> nat list \<Rightarrow> bool" where
  "subpool_ok n s mem sizes \<longleftrightarrow> n < 2 ^ 16 \<and> s < STORAGE_FREE \<and> length mem = n * s \<and>
     length sizes = n \<and> (\<forall>j < n. sizes ! j = STORAGE_FREE \<or> sizes ! j \<le> s)"

definition pool_inv :: "pool \<Rightarrow> bool" where
  "pool_inv p \<longleftrightarrow> length (numberOfElements p) = NUMBER_OF_SUBPOOLS p \<and>
     length (pool_store p) = NUMBER_OF_SUBPOOLS p \<and> length (sizeLists p) = NUMBER_OF_SUBPOOLS p \<and>
     NUMBER_OF_SUBPOOLS p < 2 ^ 8 \<and> sorted (elementSizes p) \<and>
     (\<forall>i < NUMBER_OF_SUBPOOLS p. subpool_ok (numberOfElements p ! i) (elementSizes p ! i)
        (pool_store p ! i) (sizeLists p ! i))"

text \<open>What the store holds at an address.\<close>

definition pool_contents :: "pool \<Rightarrow> store_address \<Rightarrow> bytes option" where
  "pool_contents p a = snd (pool_getData a p)"

section \<open>Reservation\<close>

definition subpool_full :: "pool \<Rightarrow> nat \<Rightarrow> bool" where
  "subpool_full p i \<longleftrightarrow> (\<forall>e < numberOfElements p ! i. sizeLists p ! i ! e \<noteq> STORAGE_FREE)"

lemma findEmpty_cases:
  obtains (free) e where "findEmpty i p = (OK, e)" "e < numberOfElements p ! i"
      "sizeLists p ! i ! e = STORAGE_FREE" "\<not> subpool_full p i"
  | (full) e where "findEmpty i p = (DATA_STORAGE_FULL, e)" "subpool_full p i"
proof -
  let ?n = "numberOfElements p ! i"
  let ?e = "scan_from (\<lambda>s. s = STORAGE_FREE) (sizeLists p ! i) ?n 0"
  show ?thesis
  proof (cases "?e < ?n")
    case True
    with scan_from_hit [OF True] show ?thesis
      by (intro free [of ?e]) (auto simp: findEmpty_def subpool_full_def)
  next
    case False
    have "subpool_full p i"
      using False scan_from_less_iff [of 0 ?n "\<lambda>s. s = STORAGE_FREE" "sizeLists p ! i"]
      by (auto simp: subpool_full_def)
    with False show ?thesis by (intro full [of ?e]) (auto simp: findEmpty_def)
  qed
qed

definition fits :: "pool \<Rightarrow> nat \<Rightarrow> nat \<Rightarrow> bool" where
  "fits p sz i \<longleftrightarrow> i < NUMBER_OF_SUBPOOLS p \<and> sz \<le> elementSizes p ! i"

lemma getSubPoolIndex_fail:
  assumes "getSubPoolIndex sz s p = (st, n)" and "st \<noteq> OK"
  shows "st = DATA_TOO_LARGE" and "\<And>j. s \<le> j \<Longrightarrow> \<not> fits p sz j"
proof -
  let ?N = "NUMBER_OF_SUBPOOLS p"
  show "st = DATA_TOO_LARGE"
    using assms by (auto simp: getSubPoolIndex_def Let_def split: if_splits)
  have "\<not> scan_from (\<lambda>e. e \<ge> sz) (elementSizes p) ?N s < ?N"
    using assms by (auto simp: getSubPoolIndex_def Let_def split: if_splits)
  then show "\<not> fits p sz j" if "s \<le> j" for j
    using that scan_from_less_iff [of s ?N "\<lambda>e. e \<ge> sz" "elementSizes p"]
    by (cases "s \<le> ?N") (auto simp: fits_def)
qed

lemma reserve_search_OK:
  assumes "reserve_search sz a p = (OK, b)" and "fits p sz (poolIndex a)"
  shows "poolIndex a \<le> poolIndex b \<and> fits p sz (poolIndex b) \<and>
    packetIndex b < numberOfElements p ! poolIndex b \<and>
    sizeLists p ! poolIndex b ! packetIndex b = STORAGE_FREE \<and>
    (\<forall>j. poolIndex a \<le> j \<and> j < poolIndex b \<and> fits p sz j \<longrightarrow> subpool_full p j) \<and>
    (\<not> spillsToHigherPools p \<longrightarrow> poolIndex b = poolIndex a)"
  using assms
proof (induction sz a p rule: reserve_search.induct)
  case (1 sz a p)
  show ?case
  proof (cases rule: findEmpty_cases [of "poolIndex a" p])
    case (free e)
    with "1.prems" show ?thesis by (auto simp: reserve_search.simps [of sz a p])
  next
    case (full e)
    obtain st n where g: "getSubPoolIndex sz (poolIndex a + 1) p = (st, n)" by fastforce
    with "1.prems" full have sp: "spillsToHigherPools p" and st: "st = OK"
      and r: "reserve_search sz (a\<lparr>poolIndex := n\<rparr>) p = (OK, b)"
      by (auto simp: reserve_search.simps [of sz a p] split: if_splits)
    note o = getSubPoolIndex_OK [OF g [unfolded st]]
    have f: "fits p sz n" using o by (simp add: fits_def)
    from "1.IH" [OF full(1) [symmetric] _ _ g [unfolded st, symmetric] _ r] sp f
    have ih: "n \<le> poolIndex b \<and> fits p sz (poolIndex b) \<and>
      packetIndex b < numberOfElements p ! poolIndex b \<and>
      sizeLists p ! poolIndex b ! packetIndex b = STORAGE_FREE \<and>
      (\<forall>j. n \<le> j \<and> j < poolIndex b \<and> fits p sz j \<longrightarrow> subpool_full p j)"
      by simp
    have "subpool_full p j" if "poolIndex a \<le> j" "j < poolIndex b" "fits p sz j" for j
    proof (cases "n \<le> j")
      case True
      with ih that show ?thesis by blast
    next
      case False
      with o(4) [of j] that(1,3) full(2) show ?thesis
        by (cases "j = poolIndex a") (auto simp: fits_def)
    qed
    with ih sp o(1) show ?thesis by auto
  qed
qed

lemma reserve_search_fail:
  assumes "reserve_search sz a p = (st, b)" and "st \<noteq> OK" and "fits p sz (poolIndex a)"
  shows "subpool_full p (poolIndex a) \<and>
    (spillsToHigherPools p \<longrightarrow> st = DATA_TOO_LARGE \<and>
       (\<forall>j. poolIndex a \<le> j \<and> fits p sz j \<longrightarrow> subpool_full p j)) \<and>
    (\<not> spillsToHigherPools p \<longrightarrow> st = DATA_STORAGE_FULL)"
  using assms
proof (induction sz a p rule: reserve_search.induct)
  case (1 sz a p)
  show ?case
  proof (cases rule: findEmpty_cases [of "poolIndex a" p])
    case (free e)
    with "1.prems" show ?thesis by (auto simp: reserve_search.simps [of sz a p])
  next
    case (full e)
    show ?thesis
    proof (cases "spillsToHigherPools p")
      case False
      with full "1.prems" show ?thesis by (auto simp: reserve_search.simps [of sz a p])
    next
      case sp: True
      obtain st' n where g: "getSubPoolIndex sz (poolIndex a + 1) p = (st', n)" by fastforce
      show ?thesis
      proof (cases "st' = OK")
        case False
        with getSubPoolIndex_fail [OF g False] full sp g "1.prems" show ?thesis
          by (auto simp: reserve_search.simps [of sz a p], metis Suc_leI le_neq_implies_less)
      next
        case True
        with g full sp "1.prems" have r: "reserve_search sz (a\<lparr>poolIndex := n\<rparr>) p = (st, b)"
          by (simp add: reserve_search.simps [of sz a p])
        note o = getSubPoolIndex_OK [OF g [unfolded True]]
        have f: "fits p sz n" using o by (simp add: fits_def)
        from "1.IH" [OF full(1) [symmetric] _ _ g [unfolded True, symmetric] _ r "1.prems"(2)] sp f
        have "st = DATA_TOO_LARGE" and ih: "\<forall>j. n \<le> j \<and> fits p sz j \<longrightarrow> subpool_full p j"
          by simp_all
        moreover have "subpool_full p j" if "poolIndex a \<le> j" "fits p sz j" for j
          using ih full(2) that o(4) [of j]
          by (cases "n \<le> j"; cases "j = poolIndex a") (auto simp: fits_def)
        ultimately show ?thesis using sp full(2) by blast
      qed
    qed
  qed
qed

section \<open>Contents\<close>

definition valid_id :: "pool \<Rightarrow> store_address \<Rightarrow> bool" where
  "valid_id p a \<longleftrightarrow> poolIndex a < NUMBER_OF_SUBPOOLS p \<and>
     packetIndex a < numberOfElements p ! poolIndex a"

lemma pool_contents_eq:
  "pool_contents p a =
     (if valid_id p a \<and> sizeLists p ! poolIndex a ! packetIndex a \<noteq> STORAGE_FREE
      then Some (mem_read (pool_store p ! poolIndex a) (getRawPosition a p)
                  (sizeLists p ! poolIndex a ! packetIndex a))
      else None)"
  by (auto simp: pool_contents_def pool_getData_def pool_modifyData_def valid_id_def)

lemma pool_getData_status:
  "pool_getData a p =
     (case pool_contents p a of Some d \<Rightarrow> (OK, Some d)
      | None \<Rightarrow> (if valid_id p a then DATA_DOES_NOT_EXIST else ILLEGAL_STORAGE_ID, None))"
  by (auto simp: pool_contents_def pool_getData_def pool_modifyData_def valid_id_def)

lemma hasDataAtId_iff: "hasDataAtId a p \<longleftrightarrow> pool_contents p a \<noteq> None"
  by (auto simp: pool_contents_eq hasDataAtId_def valid_id_def)

lemma pool_inv_subpool:
  "pool_inv p \<Longrightarrow> i < NUMBER_OF_SUBPOOLS p \<Longrightarrow>
     subpool_ok (numberOfElements p ! i) (elementSizes p ! i) (pool_store p ! i) (sizeLists p ! i)"
  by (simp add: pool_inv_def)

lemma slots_disjoint:
  fixes k k' s x y :: nat
  assumes "k \<noteq> k'" and "x \<le> s" and "y \<le> s"
  shows "k * s + x \<le> k' * s \<or> k' * s + y \<le> k * s"
proof (cases "k < k'")
  case True
  then have "(k + 1) * s \<le> k' * s" by (intro mult_le_mono1) simp
  with assms(2) show ?thesis by simp
next
  case False
  with assms(1) have "(k' + 1) * s \<le> k * s" by (intro mult_le_mono1) simp
  with assms(3) show ?thesis by simp
qed

lemma slot_in_memory:
  fixes k n s x :: nat
  assumes "k < n" and "x \<le> s"
  shows "k * s + x \<le> n * s"
proof -
  have "(k + 1) * s \<le> n * s" using assms(1) by (intro mult_le_mono1) simp
  with assms(2) show ?thesis by simp
qed

text \<open>
  The effect of storing \<open>data\<close> in the memory of one slot and setting its size entry: every
  other address keeps its contents. Writing and deleting are both instances.
\<close>

definition set_slot :: "store_address \<Rightarrow> bytes \<Rightarrow> nat \<Rightarrow> pool \<Rightarrow> pool" where
  "set_slot a data sz p =
     p\<lparr>pool_store := (pool_store p)[poolIndex a :=
         memcpy_at (pool_store p ! poolIndex a) (getRawPosition a p) data],
       sizeLists := (sizeLists p)[poolIndex a :=
         (sizeLists p ! poolIndex a)[packetIndex a := sz]]\<rparr>"

lemma set_slot_frame [simp]:
  "numberOfElements (set_slot a d sz p) = numberOfElements p"
  "elementSizes (set_slot a d sz p) = elementSizes p"
  "spillsToHigherPools (set_slot a d sz p) = spillsToHigherPools p"
  "pool_undefined (set_slot a d sz p) = pool_undefined p"
  "valid_id (set_slot a d sz p) b = valid_id p b"
  "getRawPosition b (set_slot a d sz p) = getRawPosition b p"
  by (simp_all add: set_slot_def valid_id_def getRawPosition_def)

lemma set_slot_inv:
  assumes inv: "pool_inv p" and a: "valid_id p a" and d: "length d \<le> elementSizes p ! poolIndex a"
    and sz: "sz = STORAGE_FREE \<or> sz \<le> elementSizes p ! poolIndex a"
  shows "pool_inv (set_slot a d sz p)"
proof -
  let ?i = "poolIndex a"
  have ok: "subpool_ok (numberOfElements p ! ?i) (elementSizes p ! ?i) (pool_store p ! ?i) (sizeLists p ! ?i)"
    using inv a by (auto simp: valid_id_def pool_inv_def)
  moreover have "getRawPosition a p + length d \<le> length (pool_store p ! ?i)"
    using slot_in_memory [OF _ d] a ok
    by (simp add: subpool_ok_def valid_id_def getRawPosition_def)
  ultimately have "subpool_ok (numberOfElements p ! ?i) (elementSizes p ! ?i)
      (memcpy_at (pool_store p ! ?i) (getRawPosition a p) d) ((sizeLists p ! ?i)[packetIndex a := sz])"
    using sz a by (auto simp: subpool_ok_def nth_list_update valid_id_def)
  with inv a show ?thesis
    by (auto simp: pool_inv_def set_slot_def nth_list_update valid_id_def)
qed

lemma set_slot_contents:
  assumes inv: "pool_inv p" and a: "valid_id p a" and d: "length d \<le> elementSizes p ! poolIndex a"
    and sz: "sz = STORAGE_FREE \<or> sz = length d"
  shows "pool_contents (set_slot a d sz p) =
    (pool_contents p)(a := if sz = STORAGE_FREE then None else Some d)"
proof
  fix b
  let ?i = "poolIndex a"
  have ok: "subpool_ok (numberOfElements p ! ?i) (elementSizes p ! ?i) (pool_store p ! ?i) (sizeLists p ! ?i)"
    and i: "?i < NUMBER_OF_SUBPOOLS p" "length (pool_store p) = NUMBER_OF_SUBPOOLS p"
      "length (sizeLists p) = NUMBER_OF_SUBPOOLS p"
    using inv a by (auto simp: valid_id_def pool_inv_def)
  have fit: "getRawPosition a p + length d \<le> length (pool_store p ! ?i)"
    using slot_in_memory [OF _ d] a ok
    by (simp add: subpool_ok_def valid_id_def getRawPosition_def)
  consider "b = a" | "poolIndex b = ?i" "packetIndex b \<noteq> packetIndex a" | "poolIndex b \<noteq> ?i"
    by (metis (full_types) old.unit.exhaust store_address.equality)
  then show "pool_contents (set_slot a d sz p) b =
      ((pool_contents p)(a := if sz = STORAGE_FREE then None else Some d)) b"
  proof cases
    case 1
    then show ?thesis using a i ok sz mem_read_memcpy_same [OF fit]
      by (auto simp: pool_contents_eq, auto simp: set_slot_def subpool_ok_def valid_id_def)
  next
    case 2
    let ?s = "sizeLists p ! poolIndex b ! packetIndex b"
    have "mem_read (memcpy_at (pool_store p ! ?i) (getRawPosition a p) d) (getRawPosition b p) ?s =
        mem_read (pool_store p ! ?i) (getRawPosition b p) ?s"
      if v: "valid_id p b" and "?s \<noteq> STORAGE_FREE"
    proof (rule mem_read_memcpy_disjoint [OF fit])
      have s: "?s \<le> elementSizes p ! ?i" using that ok 2 by (auto simp: subpool_ok_def valid_id_def)
      with slot_in_memory [of "packetIndex b" "numberOfElements p ! ?i" ?s] v ok 2
      show "getRawPosition b p + ?s \<le> length (pool_store p ! ?i)"
        by (simp add: subpool_ok_def valid_id_def getRawPosition_def)
      show "getRawPosition b p + ?s \<le> getRawPosition a p \<or>
          getRawPosition a p + length d \<le> getRawPosition b p"
        using slots_disjoint [OF 2(2) s d] 2(1) by (simp add: getRawPosition_def)
    qed
    with 2 i show ?thesis by (auto simp: pool_contents_eq, auto simp: set_slot_def)
  next
    case 3
    then have "a \<noteq> b" by auto
    with 3 show ?thesis by (auto simp: pool_contents_eq, auto simp: set_slot_def)
  qed
qed

section \<open>Adding and deleting\<close>

lemma reserveSpace_OK:
  assumes "reserveSpace sz a0 p = (OK, a, p')"
  shows "p' = p\<lparr>sizeLists := (sizeLists p)[poolIndex a := (sizeLists p ! poolIndex a)[packetIndex a := sz]]\<rparr>"
    and "valid_id p a" and "sz \<le> elementSizes p ! poolIndex a"
    and "sizeLists p ! poolIndex a ! packetIndex a = STORAGE_FREE"
    and "\<forall>j < poolIndex a. fits p sz j \<longrightarrow> subpool_full p j"
    and "\<not> spillsToHigherPools p \<longrightarrow> (\<forall>j < poolIndex a. \<not> fits p sz j)"
proof -
  obtain st n where g: "getSubPoolIndex sz 0 p = (st, n)" by fastforce
  obtain st' b where r: "reserve_search sz (a0\<lparr>poolIndex := n\<rparr>) p = (st', b)" by fastforce
  from assms g r have st: "st = OK" and r': "reserve_search sz (a0\<lparr>poolIndex := n\<rparr>) p = (OK, a)"
    and p': "p' = p\<lparr>sizeLists := (sizeLists p)[poolIndex a := (sizeLists p ! poolIndex a)[packetIndex a := sz]]\<rparr>"
    by (auto simp: reserveSpace_def split: if_splits)
  note o = getSubPoolIndex_OK [OF g [unfolded st]]
  have f: "fits p sz (poolIndex (a0\<lparr>poolIndex := n\<rparr>))" using o by (simp add: fits_def)
  note s = reserve_search_OK [OF r' f]
  show "p' = p\<lparr>sizeLists := (sizeLists p)[poolIndex a := (sizeLists p ! poolIndex a)[packetIndex a := sz]]\<rparr>"
    by (rule p')
  show "valid_id p a" "sz \<le> elementSizes p ! poolIndex a"
    "sizeLists p ! poolIndex a ! packetIndex a = STORAGE_FREE"
    using s by (auto simp: valid_id_def fits_def)
  have low: "\<not> fits p sz j" if "j < n" for j using o(4) [of j] that by (simp add: fits_def)
  then show "\<forall>j < poolIndex a. fits p sz j \<longrightarrow> subpool_full p j"
    using s by (auto simp: not_le [symmetric])
  show "\<not> spillsToHigherPools p \<longrightarrow> (\<forall>j < poolIndex a. \<not> fits p sz j)"
    using s low by auto
qed

lemma reserveSpace_fail:
  assumes "reserveSpace sz a0 p = (st, a, p')" and "st \<noteq> OK"
  shows "p' = p \<or> p' = p\<lparr>storeFullHits := map_option Suc (storeFullHits p)\<rparr>"
    and "if spillsToHigherPools p then st = DATA_TOO_LARGE \<and> (\<forall>j. fits p sz j \<longrightarrow> subpool_full p j)
      else (st = DATA_TOO_LARGE \<and> (\<forall>j. \<not> fits p sz j)) \<or>
        (st = DATA_STORAGE_FULL \<and>
          (\<exists>j. fits p sz j \<and> (\<forall>i < j. \<not> fits p sz i) \<and> subpool_full p j))"
proof -
  obtain st1 n where g: "getSubPoolIndex sz 0 p = (st1, n)" by fastforce
  obtain st2 b where r: "reserve_search sz (a0\<lparr>poolIndex := n\<rparr>) p = (st2, b)" by fastforce
  show "p' = p \<or> p' = p\<lparr>storeFullHits := map_option Suc (storeFullHits p)\<rparr>"
    using assms g r by (auto simp: reserveSpace_def split: if_splits)
  show "if spillsToHigherPools p then st = DATA_TOO_LARGE \<and> (\<forall>j. fits p sz j \<longrightarrow> subpool_full p j)
      else (st = DATA_TOO_LARGE \<and> (\<forall>j. \<not> fits p sz j)) \<or>
        (st = DATA_STORAGE_FULL \<and>
          (\<exists>j. fits p sz j \<and> (\<forall>i < j. \<not> fits p sz i) \<and> subpool_full p j))"
  proof (cases "st1 = OK")
    case False
    with assms g getSubPoolIndex_fail [OF g False] show ?thesis by (auto simp: reserveSpace_def)
  next
    case True
    note o = getSubPoolIndex_OK [OF g [unfolded True]]
    have f: "fits p sz (poolIndex (a0\<lparr>poolIndex := n\<rparr>))" using o by (simp add: fits_def)
    have low: "\<not> fits p sz j" if "j < n" for j using o(4) [of j] that by (simp add: fits_def)
    from assms g r True have "st2 = st" by (auto simp: reserveSpace_def split: if_splits)
    from reserve_search_fail [OF r [unfolded this] assms(2) f] low f show ?thesis
      by (auto simp: not_le [symmetric])
  qed
qed

lemma pool_addData_OK:
  assumes inv: "pool_inv p" and ok: "pool_addData a0 d p = (OK, a, p')"
  shows "p' = set_slot a d (length d) p" and "valid_id p a"
    and "length d \<le> elementSizes p ! poolIndex a" and "pool_contents p a = None"
    and "\<forall>j < poolIndex a. fits p (length d) j \<longrightarrow> subpool_full p j"
    and "\<not> spillsToHigherPools p \<longrightarrow> (\<forall>j < poolIndex a. \<not> fits p (length d) j)"
proof -
  from ok obtain p1 where r: "reserveSpace (length d) a0 p = (OK, a, p1)"
    and p': "p' = pool_write a d p1"
    by (auto simp: pool_addData_def split: prod.splits if_splits)
  note s = reserveSpace_OK [OF r]
  from s(2) inv have l: "poolIndex a < length (sizeLists p)" by (auto simp: valid_id_def pool_inv_def)
  show "p' = set_slot a d (length d) p"
    unfolding p' s(1) using l by (simp add: pool_write_def set_slot_def getRawPosition_def)
  show "valid_id p a" "length d \<le> elementSizes p ! poolIndex a" "pool_contents p a = None"
    "\<forall>j < poolIndex a. fits p (length d) j \<longrightarrow> subpool_full p j"
    "\<not> spillsToHigherPools p \<longrightarrow> (\<forall>j < poolIndex a. \<not> fits p (length d) j)"
    using s by (auto simp: pool_contents_eq)
qed

lemma size_not_free:
  assumes "pool_inv p" and "valid_id p a" and "n \<le> elementSizes p ! poolIndex a"
  shows "n \<noteq> STORAGE_FREE"
  using assms by (auto simp: valid_id_def pool_inv_def subpool_ok_def)

lemma pool_addData_effect:
  assumes inv: "pool_inv p" and ok: "pool_addData a0 d p = (OK, a, p')"
  shows "pool_inv p'" and "pool_contents p' = (pool_contents p)(a \<mapsto> d)"
  using set_slot_inv [OF inv] set_slot_contents [OF inv] pool_addData_OK [OF assms]
    size_not_free [OF inv] by auto

lemma pool_addData_fail:
  assumes inv: "pool_inv p" and r: "pool_addData a0 d p = (st, a, p')" and "st \<noteq> OK"
  shows "pool_inv p'" and "pool_contents p' = pool_contents p"
    and "reserveSpace (length d) a0 p = (st, a, p')"
proof -
  from r \<open>st \<noteq> OK\<close> show rs: "reserveSpace (length d) a0 p = (st, a, p')"
    by (auto simp: pool_addData_def split: prod.splits if_splits)
  from reserveSpace_fail(1) [OF rs \<open>st \<noteq> OK\<close>] inv
  show "pool_inv p'" "pool_contents p' = pool_contents p"
    by (auto simp: pool_inv_def fun_eq_iff pool_contents_eq valid_id_def getRawPosition_def)
qed

text \<open>Deletion is the slot update with zeros as long as the raw position fits into 16 bits.\<close>

definition deletable :: "store_address \<Rightarrow> bool" where
  "deletable a \<longleftrightarrow> poolIndex a < 2 ^ 8 \<or> poolIndex a mod 2 ^ 8 = 2 ^ 8 - 1"

lemma getSubpoolElementSize_deletable:
  assumes "pool_inv p" and "deletable a"
  shows "getSubpoolElementSize (of_nat (poolIndex a)) p =
    (if poolIndex a < NUMBER_OF_SUBPOOLS p then elementSizes p ! poolIndex a else 0)"
  using assms by (auto simp: getSubpoolElementSize_def deletable_def pool_inv_def unat_of_nat)

lemma valid_deletable: "pool_inv p \<Longrightarrow> valid_id p a \<Longrightarrow> deletable a"
  by (simp add: deletable_def pool_inv_def valid_id_def)

lemma pool_deleteData_small:
  assumes inv: "pool_inv p" and "deletable a" and small: "getRawPosition a p < 2 ^ 16"
  shows "pool_deleteData a p =
    (if valid_id p a \<and> elementSizes p ! poolIndex a \<noteq> 0
     then (OK, set_slot a (replicate (elementSizes p ! poolIndex a) 0) STORAGE_FREE p)
     else (ILLEGAL_STORAGE_ID, p))"
  using small
  by (auto simp: pool_deleteData_def Let_def getSubpoolElementSize_deletable [OF inv assms(2)] valid_id_def set_slot_def)

lemma pool_deleteData_effect:
  assumes inv: "pool_inv p" and "deletable a" and small: "getRawPosition a p < 2 ^ 16"
    and ok: "pool_deleteData a p = (OK, p')"
  shows "pool_inv p'" and "pool_contents p' = (pool_contents p)(a := None)"
  using set_slot_inv [OF inv] set_slot_contents [OF inv] ok pool_deleteData_small [OF inv assms(2) small]
  by (auto split: if_splits)

lemma pool_clear_contents: "pool_inv p \<Longrightarrow> pool_contents (clearStore p) = Map.empty"
  by (auto simp: fun_eq_iff pool_contents_eq clearStore_def valid_id_def pool_inv_def subpool_ok_def)

section \<open>The storage contract\<close>

datatype 'a store_op = SAdd 'a bytes | SDelete 'a

text \<open>
  What the users of \<open>StorageManagerIF\<close> rely on: a successful \<open>addData\<close> returns an address that
  held nothing and changes nothing else, \<open>getData\<close> returns what is held, and \<open>deleteData\<close>
  affects its own address only, for the addresses it is defined on (\<open>deletable\<close>), to which all
  addresses that hold something belong.
\<close>

locale packet_store =
  fixes addData :: "'a \<Rightarrow> bytes \<Rightarrow> 's \<Rightarrow> retval \<times> 'a \<times> 's"
    and getData :: "'a \<Rightarrow> 's \<Rightarrow> retval \<times> bytes option"
    and deleteData :: "'a \<Rightarrow> 's \<Rightarrow> retval \<times> 's"
    and held :: "'s \<Rightarrow> 'a \<Rightarrow> bytes option"
    and deletable :: "'a \<Rightarrow> bool"
    and invar :: "'s \<Rightarrow> bool"
  assumes add_OK: "invar s \<Longrightarrow> addData a0 d s = (OK, a, s') \<Longrightarrow>
      held s a = None \<and> held s' = (held s)(a \<mapsto> d) \<and> invar s'"
    and add_fail: "invar s \<Longrightarrow> addData a0 d s = (st, a, s') \<Longrightarrow> st \<noteq> OK \<Longrightarrow>
      held s' = held s \<and> invar s'"
    and get_held: "invar s \<Longrightarrow> getData a s = (st, x) \<Longrightarrow> x = held s a \<and> (st = OK \<longleftrightarrow> x \<noteq> None)"
    and held_deletable: "invar s \<Longrightarrow> held s a \<noteq> None \<Longrightarrow> deletable a"
    and delete_held: "invar s \<Longrightarrow> deletable a \<Longrightarrow> deleteData a s = (st, s') \<Longrightarrow>
      invar s' \<and> held s' = (if st = OK then (held s)(a := None) else held s)"
    and delete_OK: "invar s \<Longrightarrow> held s a = Some d \<Longrightarrow> d \<noteq> [] \<Longrightarrow> fst (deleteData a s) = OK"
begin

lemma delete_packet:
  assumes "invar s" and "held s a = Some d" and "d \<noteq> []"
  shows "invar (snd (deleteData a s)) \<and> held (snd (deleteData a s)) = (held s)(a := None)"
proof -
  obtain st s' where r: "deleteData a s = (st, s')" by (cases "deleteData a s")
  with delete_held [OF assms(1) _ r] held_deletable [OF assms(1), of a] delete_OK [OF assms] assms(2) show ?thesis by simp
qed

fun run_store :: "'s \<Rightarrow> 'a store_op list \<Rightarrow> 's" where
  "run_store s [] = s"
| "run_store s (SAdd a d # ops) = run_store (snd (snd (addData a d s))) ops"
| "run_store s (SDelete a # ops) = run_store (snd (deleteData a s)) ops"

lemma add_keeps:
  assumes "invar s" and "held s b = Some x"
  shows "invar (snd (snd (addData a d s))) \<and> held (snd (snd (addData a d s))) b = Some x"
proof -
  obtain st a' s' where r: "addData a d s = (st, a', s')" by (cases "addData a d s")
  with add_OK [OF assms(1), of a d a' s'] add_fail [OF assms(1) r] assms show ?thesis
    by (cases "st = OK") auto
qed

lemma delete_keeps:
  assumes "invar s" and "held s b = Some x" and "a \<noteq> b" and "deletable a"
  shows "invar (snd (deleteData a s)) \<and> held (snd (deleteData a s)) b = Some x"
proof -
  obtain st s' where r: "deleteData a s = (st, s')" by (cases "deleteData a s")
  with delete_held [OF assms(1,4) r] assms show ?thesis by auto
qed

lemma packet_survives:
  "invar s \<Longrightarrow> held s b = Some x \<Longrightarrow> SDelete b \<notin> set ops \<Longrightarrow> \<forall>c. SDelete c \<in> set ops \<longrightarrow> deletable c \<Longrightarrow>
     invar (run_store s ops) \<and> held (run_store s ops) b = Some x"
  by (induction s ops rule: run_store.induct) (auto simp: add_keeps delete_keeps)

lemma stored_packet_survives:
  assumes "invar s" and "addData a0 d s = (OK, a, s')" and "SDelete a \<notin> set ops"
    and "\<forall>c. SDelete c \<in> set ops \<longrightarrow> deletable c"
  shows "getData a (run_store s' ops) = (OK, Some d) \<and> invar (run_store s' ops)"
proof -
  obtain st x where g: "getData a (run_store s' ops) = (st, x)" by (cases "getData a (run_store s' ops)")
  with packet_survives [of s' a d ops] add_OK [OF assms(1,2)] assms(3,4)
    get_held [of "run_store s' ops" a st x] show ?thesis by auto
qed

end

text \<open>The pools on which deletion is exact: no subpool has more than 65536 bytes, and nothing undefined has happened.\<close>

definition small_pool :: "pool \<Rightarrow> bool" where
  "small_pool p \<longleftrightarrow> pool_inv p \<and> \<not> pool_undefined p \<and>
     (\<forall>i < NUMBER_OF_SUBPOOLS p. numberOfElements p ! i * elementSizes p ! i \<le> 2 ^ 16)"

lemma small_pool_position:
  assumes "small_pool p" and "valid_id p a" and "elementSizes p ! poolIndex a \<noteq> 0"
  shows "getRawPosition a p < 2 ^ 16"
proof -
  have "packetIndex a * elementSizes p ! poolIndex a <
      numberOfElements p ! poolIndex a * elementSizes p ! poolIndex a"
    using assms by (simp add: valid_id_def)
  also have "\<dots> \<le> 2 ^ 16" using assms by (auto simp: small_pool_def valid_id_def)
  finally show ?thesis by (simp add: getRawPosition_def)
qed

lemma small_pool_frame:
  "small_pool p \<Longrightarrow> pool_inv q \<Longrightarrow> numberOfElements q = numberOfElements p \<Longrightarrow>
     elementSizes q = elementSizes p \<Longrightarrow> pool_undefined q = pool_undefined p \<Longrightarrow> small_pool q"
  by (simp add: small_pool_def)

lemma small_pool_inv: "small_pool p \<Longrightarrow> pool_inv p"
  by (simp add: small_pool_def)

lemma pool_delete_contract:
  assumes sp: "small_pool p" and a: "deletable a" and d: "pool_deleteData a p = (st, p')"
  shows "small_pool p' \<and> pool_contents p' = (if st = OK then (pool_contents p)(a := None)
    else pool_contents p)"
proof (cases "valid_id p a \<and> elementSizes p ! poolIndex a \<noteq> 0")
  case True
  with small_pool_position [OF sp] have small: "getRawPosition a p < 2 ^ 16" by blast
  note inv = small_pool_inv [OF sp]
  from pool_deleteData_small [OF inv a small] True d have st: "st = OK"
    and p': "p' = set_slot a (replicate (elementSizes p ! poolIndex a) 0) STORAGE_FREE p" by auto
  from pool_deleteData_effect [OF inv a small d [unfolded st]] st sp show ?thesis
    by (auto intro: small_pool_frame simp: p')
next
  case False
  then have "p' = p \<and> st = ILLEGAL_STORAGE_ID" using d
    by (auto simp: pool_deleteData_def Let_def getSubpoolElementSize_deletable [OF small_pool_inv [OF sp] a] valid_id_def
        split: if_splits)
  with sp show ?thesis by simp
qed

lemma pool_delete_nonempty:
  assumes sp: "small_pool p" and h: "pool_contents p a = Some d" and d: "d \<noteq> []"
  shows "fst (pool_deleteData a p) = OK"
proof -
  have v: "valid_id p a" using h by (auto simp: pool_contents_eq split: if_splits)
  let ?n = "sizeLists p ! poolIndex a ! packetIndex a"
  have "d = mem_read (pool_store p ! poolIndex a) (getRawPosition a p) ?n" "?n \<noteq> STORAGE_FREE"
    using h by (auto simp: pool_contents_eq split: if_splits)
  then have "?n \<noteq> 0" using d by (auto simp: mem_read_def)
  with v small_pool_inv [OF sp] \<open>?n \<noteq> STORAGE_FREE\<close> have "elementSizes p ! poolIndex a \<noteq> 0"
    by (fastforce simp: valid_id_def pool_inv_def subpool_ok_def)
  with v small_pool_position [OF sp v] pool_deleteData_small [OF small_pool_inv [OF sp] valid_deletable [OF small_pool_inv [OF sp] v]]
  show ?thesis by simp
qed

interpretation local_pool:
  packet_store pool_addData pool_getData pool_deleteData pool_contents deletable small_pool
proof
  fix p a0 d a p' assume sp: "small_pool p" and ok: "pool_addData a0 d p = (OK, a, p')"
  note inv = small_pool_inv [OF sp]
  have "small_pool p'"
    by (rule small_pool_frame [OF sp pool_addData_effect(1) [OF inv ok]])
      (simp_all add: pool_addData_OK(1) [OF inv ok])
  with pool_addData_OK(4) [OF inv ok] pool_addData_effect(2) [OF inv ok]
  show "pool_contents p a = None \<and> pool_contents p' = (pool_contents p)(a \<mapsto> d) \<and> small_pool p'"
    by simp
next
  fix p a0 d st a p'
  assume sp: "small_pool p" and r: "pool_addData a0 d p = (st, a, p')" and st: "st \<noteq> OK"
  note f = pool_addData_fail [OF small_pool_inv [OF sp] r st]
  have "small_pool p'"
    by (rule small_pool_frame [OF sp f(1)]) (use reserveSpace_fail(1) [OF f(3) st] in auto)
  with f(2) show "pool_contents p' = pool_contents p \<and> small_pool p'" by simp
next
  fix p a st x assume "pool_getData a p = (st, x)"
  then show "x = pool_contents p a \<and> (st = OK \<longleftrightarrow> x \<noteq> None)"
    by (cases "pool_contents p a"; cases "valid_id p a") (auto simp: pool_getData_status dest: sym)
next
  fix p a assume "small_pool p" and "pool_contents p a \<noteq> None"
  then show "deletable a"
    by (intro valid_deletable [OF small_pool_inv]) (auto simp: pool_contents_eq split: if_splits)
next
  fix p a st p' assume "small_pool p" and "deletable a" and "pool_deleteData a p = (st, p')"
  then show "small_pool p' \<and> pool_contents p' = (if st = OK then (pool_contents p)(a := None)
      else pool_contents p)"
    by (rule pool_delete_contract)
next
  fix p a d assume "small_pool p" and "pool_contents p a = Some d" and "d \<noteq> []"
  then show "fst (pool_deleteData a p) = OK" by (rule pool_delete_nonempty)
qed

section \<open>Properties\<close>

lemma length_config_order [simp]: "length (config_order cfg) = length cfg"
  and set_config_order [simp]: "set (config_order cfg) = set cfg"
  and sorted_config_order [simp]: "sorted (map snd (config_order cfg))"
  by (simp_all add: config_order_def)

lemma pool_init_inv:
  assumes "length cfg < 2 ^ 8" and "\<forall>(n, s) \<in> set cfg. n < 2 ^ 16 \<and> s < STORAGE_FREE"
  shows "pool_inv (pool_init cfg spills)"
proof -
  have "config_order cfg ! i \<in> set cfg" if "i < length cfg" for i
    using that nth_mem [of i "config_order cfg"] by simp
  with assms show ?thesis
    by (fastforce simp: pool_inv_def pool_init_def Let_def subpool_ok_def case_prod_unfold)
qed

text \<open>
  C33: whatever the pool's state, when \<open>addData\<close> succeeds the address it returns held no data
  before, reading that address returns exactly the stored bytes, reading any other address
  (valid or not) returns what it returned before, and the pool's invariant is kept.
\<close>

theorem pool_add_get_roundtrip:
  assumes "pool_inv p" and "pool_addData a0 d p = (OK, a, p')"
  shows "snd (pool_getData a p) = None \<and> pool_getData a p' = (OK, Some d) \<and>
    (\<forall>b. b \<noteq> a \<longrightarrow> pool_getData b p' = pool_getData b p) \<and> pool_inv p'"
  using pool_addData_effect [OF assms] pool_addData_OK [OF assms]
  by (auto simp: pool_getData_status pool_contents_def [symmetric])

theorem pool_add_get_roundtrip_witness:
  "pool_getData \<lparr>poolIndex = 0, packetIndex = 0\<rparr>
     (snd (snd (pool_addData \<lparr>poolIndex = 9, packetIndex = 9\<rparr> [1, 2] (pool_init [(2, 3)] False)))) =
     (OK, Some [1, 2])"
proof -
  let ?p = "pool_init [(2, 3)] False" and ?a = "\<lparr>poolIndex = 0, packetIndex = 0\<rparr>"
  have "pool_inv ?p" by (rule pool_init_inv) (simp_all add: STORAGE_FREE_def)
  moreover have "pool_addData \<lparr>poolIndex = 9, packetIndex = 9\<rparr> [1, 2] ?p =
      (OK, ?a, snd (snd (pool_addData \<lparr>poolIndex = 9, packetIndex = 9\<rparr> [1, 2] ?p)))"
    by (simp add: pool_init_def config_order_def pool_addData_def reserveSpace_def Let_def
      getSubPoolIndex_def scan_from.simps reserve_search.simps findEmpty_def STORAGE_FREE_def
      numeral_2_eq_2)
  ultimately show ?thesis using pool_add_get_roundtrip by blast
qed

text \<open>
  Reservation is complete and takes the smallest suitable subpool: with spilling, data is
  refused (with \<open>DATA_TOO_LARGE\<close>) exactly when every subpool whose elements are large enough is
  full, and otherwise goes into the first of them that is not; without spilling only the first
  subpool that is large enough is considered, and the error says whether there is none
  (\<open>DATA_TOO_LARGE\<close>) or it is full (\<open>DATA_STORAGE_FULL\<close>).
\<close>

theorem pool_reservation_complete:
  assumes "pool_inv p" and "pool_addData a0 d p = (st, a, p')"
  shows "if st = OK then
      fits p (length d) (poolIndex a) \<and> \<not> subpool_full p (poolIndex a) \<and>
      (\<forall>j < poolIndex a. fits p (length d) j \<longrightarrow> spillsToHigherPools p \<and> subpool_full p j)
    else if spillsToHigherPools p then
      st = DATA_TOO_LARGE \<and> (\<forall>j. fits p (length d) j \<longrightarrow> subpool_full p j)
    else (st = DATA_TOO_LARGE \<and> (\<forall>j. \<not> fits p (length d) j)) \<or>
      (st = DATA_STORAGE_FULL \<and> (\<exists>j. fits p (length d) j \<and>
         (\<forall>i < j. \<not> fits p (length d) i) \<and> subpool_full p j))"
proof (cases "st = OK")
  case True
  note o = pool_addData_OK [OF assms(1) assms(2) [unfolded True]]
  from o(2,4) size_not_free [OF assms(1) o(2)] have "\<not> subpool_full p (poolIndex a)"
    by (auto simp: subpool_full_def valid_id_def pool_contents_eq split: if_splits)
  with o True show ?thesis by (auto simp: fits_def valid_id_def)
next
  case False
  with reserveSpace_fail(2) [OF pool_addData_fail(3) [OF assms False] False] show ?thesis by simp
qed

theorem pool_reservation_complete_witness:
  "fst (pool_addData \<lparr>poolIndex = 0, packetIndex = 0\<rparr> [1, 2, 3, 4] (pool_init [(2, 3)] True)) =
     DATA_TOO_LARGE"
proof -
  let ?p = "pool_init [(2, 3)] True" and ?a = "\<lparr>poolIndex = 0, packetIndex = 0\<rparr>"
  obtain st a p' where r: "pool_addData ?a [1, 2, 3, 4] ?p = (st, a, p')"
    by (cases "pool_addData ?a [1, 2, 3, 4] ?p")
  have "pool_inv ?p" by (rule pool_init_inv) (simp_all add: STORAGE_FREE_def)
  moreover have "\<not> fits ?p (length [1, 2, 3, 4 :: u8]) j" for j
    by (cases j) (simp_all add: fits_def pool_init_def config_order_def Let_def)
  moreover have "spillsToHigherPools ?p" by (simp add: pool_init_def Let_def)
  ultimately show ?thesis
    using pool_reservation_complete [OF _ r] r by (auto split: if_splits)
qed

text \<open>
  C16: packets are isolated from each other over any history: in a pool whose subpools each have
  at most 65536 bytes, a packet that was stored successfully is returned unchanged by \<open>getData\<close>
  after any sequence of further \<open>addData\<close> and \<open>deleteData\<close> calls, successful or not, that does
  not delete its own address, and no vector is indexed out of its bounds on the way. The addresses
  that are deleted have a subpool index of at most eight bits or with the low byte 255, like the
  invalid address: \<open>deleteData\<close> is undefined on other addresses (\<open>delete_out_of_bounds\<close>).
\<close>

theorem pool_packet_survives:
  assumes "small_pool p" and "pool_addData a0 d p = (OK, a, p')" and "SDelete a \<notin> set ops"
    and "\<forall>c. SDelete c \<in> set ops \<longrightarrow> deletable c"
  shows "pool_getData a (local_pool.run_store p' ops) = (OK, Some d) \<and> \<not> pool_undefined (local_pool.run_store p' ops)"
  using local_pool.stored_packet_survives [OF assms] by (simp add: small_pool_def)

theorem pool_packet_survives_witness:
  "pool_getData \<lparr>poolIndex = 0, packetIndex = 0\<rparr>
     (local_pool.run_store
       (snd (snd (pool_addData \<lparr>poolIndex = 9, packetIndex = 9\<rparr> [1, 2] (pool_init [(2, 3)] False))))
       [SAdd \<lparr>poolIndex = 9, packetIndex = 9\<rparr> [7, 8, 9], SDelete \<lparr>poolIndex = 0, packetIndex = 1\<rparr>]) =
     (OK, Some [1, 2])"
proof -
  let ?p = "pool_init [(2, 3)] False" and ?a = "\<lparr>poolIndex = 0, packetIndex = 0\<rparr>"
  have "pool_inv ?p" by (rule pool_init_inv) (simp_all add: STORAGE_FREE_def)
  then have "small_pool ?p" by (simp add: small_pool_def, simp add: pool_init_def config_order_def Let_def)
  moreover have "pool_addData \<lparr>poolIndex = 9, packetIndex = 9\<rparr> [1, 2] ?p =
      (OK, ?a, snd (snd (pool_addData \<lparr>poolIndex = 9, packetIndex = 9\<rparr> [1, 2] ?p)))"
    by (simp add: pool_init_def config_order_def pool_addData_def reserveSpace_def Let_def
      getSubPoolIndex_def scan_from.simps reserve_search.simps findEmpty_def STORAGE_FREE_def
      numeral_2_eq_2)
  ultimately show ?thesis
    using pool_packet_survives [of ?p _ "[1, 2]" ?a _ "[SAdd \<lparr>poolIndex = 9, packetIndex = 9\<rparr> [7, 8, 9],
      SDelete \<lparr>poolIndex = 0, packetIndex = 1\<rparr>]"] by (simp add: deletable_def)
qed

text \<open>
  Deletion can destroy another packet: because \<open>deleteData\<close> keeps the raw position in 16
  bits, in a subpool of two elements of 65536 bytes deleting the second element succeeds and
  clears the memory of the first, whose packet then reads as zero.
\<close>

theorem pool_delete_clears_other_packet:
  "\<exists>p a b. pool_inv p \<and> a \<noteq> b \<and> pool_getData b p = (OK, Some [1]) \<and>
     fst (pool_deleteData a p) = OK \<and>
     pool_getData b (snd (pool_deleteData a p)) = (OK, Some [0])"
proof -
  let ?p = "\<lparr>numberOfElements = [2], elementSizes = [65536],
    pool_store = [1 # replicate 131071 0], sizeLists = [[1, 1]],
    ignoreFault = False, spillsToHigherPools = False, storeFullHits = None, pool_undefined = False\<rparr> :: pool"
  let ?a = "\<lparr>poolIndex = 0, packetIndex = 1\<rparr>" and ?b = "\<lparr>poolIndex = 0, packetIndex = 0\<rparr>"
  have inv: "pool_inv ?p"
    by (auto simp: pool_inv_def subpool_ok_def STORAGE_FREE_def nth_Cons split: nat.splits)
  have g: "pool_getData ?b ?p = (OK, Some [1])"
    by (simp add: pool_getData_def pool_modifyData_def getRawPosition_def STORAGE_FREE_def mem_read_def)
  have del: "pool_deleteData ?a ?p = (OK, ?p\<lparr>
      pool_store := [memcpy_at (1 # replicate 131071 0) 0 (replicate 65536 0)],
      sizeLists := [[1, STORAGE_FREE]]\<rparr>)"
    by (simp add: pool_deleteData_def Let_def getSubpoolElementSize_def getRawPosition_def)
  have "take (Suc 0) (replicate 65536 (0 :: u8)) = [0]"
    by (simp only: take_replicate) (simp add: min_def)
  then have m: "mem_read (memcpy_at (1 # replicate 131071 0) 0 (replicate 65536 (0 :: u8))) 0 1 = [0]"
    unfolding mem_read_def memcpy_at_def by (simp only: drop_0 take_0 append_Nil take_append One_nat_def) simp
  have "pool_getData ?b (snd (pool_deleteData ?a ?p)) = (OK, Some [0])"
    unfolding del using m
    by (simp add: pool_getData_def pool_modifyData_def getRawPosition_def STORAGE_FREE_def)
  with inv g del show ?thesis by (intro exI [of _ ?p] exI [of _ ?a] exI [of _ ?b]) simp
qed

text \<open>With a subpool index of 256 and more, deletion can index the vectors out of their bounds.\<close>

lemma delete_out_of_bounds:
  "pool_undefined (snd (pool_deleteData \<lparr>poolIndex = 256, packetIndex = 0\<rparr> (pool_init [(2, 3)] False)))"
  by (simp add: pool_deleteData_def getSubpoolElementSize_def pool_init_def config_order_def Let_def)

end
