(* ===== verification/Map_Extraction.thy ===== *)
theory Map_Extraction
  imports Farm Local_Pool
begin

text \<open>
  Extraction of space packets from transfer frames,
  \<open>src/src/fsfw/datalinklayer/MapPacketExtraction.cpp\<close>: reassembly of segmented packets and
  unpacking of blocked ones. Complete packets go to the telecommand store, here the \<open>LocalPool\<close> of
  theory \<open>Local_Pool\<close>, and their address to the queue of the distributor.

  Parameters stand for what the sources do not contain: \<open>qsend\<close> for
  \<open>MessageQueueSenderIF::sendMessage\<close> of the operating system layer, and \<open>minSize\<close> and
  \<open>fullSize\<close> for \<open>SpacePacketBase::MINIMUM_SIZE\<close> and \<open>SpacePacketBase::getFullSize\<close>, a class that
  the file refers to and that the repository does not define.
\<close>

section \<open>State and operations\<close>

abbreviation CONTENT_TOO_LARGE :: retval where "CONTENT_TOO_LARGE \<equiv> RC 44 0xEC"
abbreviation RESIDUAL_DATA :: retval where "RESIDUAL_DATA \<equiv> RC 44 0xED"
abbreviation DATA_CORRUPTED :: retval where "DATA_CORRUPTED \<equiv> RC 44 0xEE"
abbreviation ILLEGAL_SEGMENTATION_FLAG :: retval where "ILLEGAL_SEGMENTATION_FLAG \<equiv> RC 44 0xEF"
abbreviation TOO_SHORT_BLOCKED_PACKET :: retval where "TOO_SHORT_BLOCKED_PACKET \<equiv> RC 44 0xD2"

definition FIRST_PORTION :: u8 where "FIRST_PORTION = 1"
definition CONTINUING_PORTION :: u8 where "CONTINUING_PORTION = 0"
definition LAST_PORTION :: u8 where "LAST_PORTION = 2"
definition NO_SEGMENTATION :: u8 where "NO_SEGMENTATION = 3"

lemmas portion_defs [codes] =
  FIRST_PORTION_def CONTINUING_PORTION_def LAST_PORTION_def NO_SEGMENTATION_def

definition MAX_PACKET_SIZE :: nat where "MAX_PACKET_SIZE = 4096"

record map_extraction =
  lastSegmentationFlag :: u8
  me_mapId :: u8
  packetLength :: u32
  bufferPosition :: nat
  packetBuffer :: bytes
  packetDestination :: u32
  packetStoreSet :: bool
  tcQueueId :: u32

record 'q tc_sink =
  sink_store :: pool
  sink_queue :: 'q

abbreviation NO_QUEUE :: u32 where "NO_QUEUE \<equiv> 0"

definition me_new :: "u8 \<Rightarrow> u32 \<Rightarrow> map_extraction" where
  "me_new setMapId setPacketDestination =
     \<lparr>lastSegmentationFlag = NO_SEGMENTATION, me_mapId = setMapId, packetLength = 0,
      bufferPosition = 0, packetBuffer = replicate MAX_PACKET_SIZE 0,
      packetDestination = setPacketDestination, packetStoreSet = False, tcQueueId = NO_QUEUE\<rparr>"

definition clearBuffers :: "map_extraction \<Rightarrow> map_extraction" where
  "clearBuffers me = me\<lparr>packetBuffer := replicate (length (packetBuffer me)) 0, bufferPosition := 0,
     packetLength := 0, lastSegmentationFlag := NO_SEGMENTATION\<rparr>"

text \<open>A default-constructed \<open>store_address_t\<close> holds the invalid address.\<close>

definition store_address_default :: store_address where
  "store_address_default = \<lparr>poolIndex = 0xFFFF, packetIndex = 0xFFFF\<rparr>"

definition sendCompletePacket ::
  "('q \<Rightarrow> store_address \<Rightarrow> retval \<times> 'q) \<Rightarrow> bytes \<Rightarrow> 'q tc_sink \<Rightarrow> retval \<times> 'q tc_sink" where
  "sendCompletePacket qsend data sink =
     (case pool_addData store_address_default data (sink_store sink) of (status, store_id, p) \<Rightarrow>
        if status = OK then
          (case qsend (sink_queue sink) store_id of (status', q) \<Rightarrow>
             (status', sink\<lparr>sink_store := p, sink_queue := q\<rparr>))
        else (status, sink\<lparr>sink_store := p\<rparr>))"

text \<open>
  The loop over blocked packets: the state is the status, \<open>totalLength\<close> and the bytes from
  \<open>position\<close> on. It may run forever when a packet reports the size 0; then its value is \<open>None\<close>.
\<close>

partial_function (option) unpack_loop ::
  "nat \<Rightarrow> (bytes \<Rightarrow> nat) \<Rightarrow> ('q \<Rightarrow> store_address \<Rightarrow> retval \<times> 'q) \<Rightarrow> retval \<Rightarrow> nat \<Rightarrow> bytes \<Rightarrow>
   'q tc_sink \<Rightarrow> (retval \<times> nat \<times> 'q tc_sink) option" where
  "unpack_loop minSize fullSize qsend status totalLength position sink =
     (if totalLength > minSize then
        (let packetSize = fullSize position in
         if packetSize \<le> totalLength then
           unpack_loop minSize fullSize qsend OK (totalLength - packetSize) (drop packetSize position)
             (snd (sendCompletePacket qsend (take packetSize position) sink))
         else unpack_loop minSize fullSize qsend DATA_CORRUPTED 0 position sink)
      else Some (status, totalLength, sink))"

declare unpack_loop.simps [code]

definition unpackBlockingPackets ::
  "nat \<Rightarrow> (bytes \<Rightarrow> nat) \<Rightarrow> ('q \<Rightarrow> store_address \<Rightarrow> retval \<times> 'q) \<Rightarrow> tc_frame \<Rightarrow> 'q tc_sink \<Rightarrow>
   (retval \<times> 'q tc_sink) option" where
  "unpackBlockingPackets minSize fullSize qsend fr sink =
     (let totalLength = unat (getDataLength fr) in
      if totalLength > MAX_PACKET_SIZE then Some (CONTENT_TOO_LARGE, sink)
      else (case unpack_loop minSize fullSize qsend TOO_SHORT_BLOCKED_PACKET totalLength
              (getDataField fr) sink of
          None \<Rightarrow> None
        | Some (status, rest, sink) \<Rightarrow> Some (if rest > 0 then RESIDUAL_DATA else status, sink)))"

text \<open>The three branches of the switch for segments.\<close>

definition me_first :: "tc_frame \<Rightarrow> map_extraction \<Rightarrow> retval \<times> map_extraction" where
  "me_first fr me =
     (let me = me\<lparr>packetLength := ucast (getDataLength fr)\<rparr> in
      if unat (packetLength me) \<le> MAX_PACKET_SIZE then
        (OK, me\<lparr>packetBuffer := memcpy_at (packetBuffer me) 0
                  (take (unat (packetLength me)) (getDataField fr)),
                bufferPosition := unat (packetLength me)\<rparr>)
      else (CONTENT_TOO_LARGE, clearBuffers me))"

definition me_continue ::
  "('q \<Rightarrow> store_address \<Rightarrow> retval \<times> 'q) \<Rightarrow> tc_frame \<Rightarrow> map_extraction \<Rightarrow> 'q tc_sink \<Rightarrow>
   retval \<times> map_extraction \<times> 'q tc_sink" where
  "me_continue qsend fr me sink =
     (if lastSegmentationFlag me = FIRST_PORTION \<or> lastSegmentationFlag me = CONTINUING_PORTION then
        (let me = me\<lparr>packetLength := packetLength me + ucast (getDataLength fr)\<rparr> in
         if unat (packetLength me) \<le> MAX_PACKET_SIZE then
           (let me = me\<lparr>packetBuffer := memcpy_at (packetBuffer me) (bufferPosition me)
                          (take (unat (getDataLength fr)) (getDataField fr)),
                        bufferPosition := unat (packetLength me)\<rparr> in
            if getSequenceFlags fr = LAST_PORTION then
              (OK, clearBuffers me,
               snd (sendCompletePacket qsend (take (unat (packetLength me)) (packetBuffer me)) sink))
            else (OK, me, sink))
         else (CONTENT_TOO_LARGE, clearBuffers me, sink))
      else (ILLEGAL_SEGMENTATION_FLAG, clearBuffers me, sink))"

definition extractPackets ::
  "nat \<Rightarrow> (bytes \<Rightarrow> nat) \<Rightarrow> ('q \<Rightarrow> store_address \<Rightarrow> retval \<times> 'q) \<Rightarrow> tc_frame \<Rightarrow> map_extraction \<Rightarrow>
   'q tc_sink \<Rightarrow> (retval \<times> map_extraction \<times> 'q tc_sink) option" where
  "extractPackets minSize fullSize qsend fr me sink =
     (let segmentationFlag = getSequenceFlags fr;
          result =
            (if segmentationFlag = NO_SEGMENTATION then
               (case unpackBlockingPackets minSize fullSize qsend fr sink of
                  None \<Rightarrow> None
                | Some (status, sink) \<Rightarrow> Some (status, me, sink))
             else if segmentationFlag = FIRST_PORTION then
               (case me_first fr me of (status, me) \<Rightarrow> Some (status, me, sink))
             else if segmentationFlag = CONTINUING_PORTION \<or> segmentationFlag = LAST_PORTION then
               Some (me_continue qsend fr me sink)
             else Some (DATA_CORRUPTED, clearBuffers me, sink))
      in (case result of
            None \<Rightarrow> None
          | Some (status, me, sink) \<Rightarrow>
              Some (status, me\<lparr>lastSegmentationFlag := segmentationFlag\<rparr>, sink)))"

text \<open>The arguments are whether the store was found and the queue of the destination, if found.\<close>

definition me_initialize :: "bool \<Rightarrow> u32 option \<Rightarrow> map_extraction \<Rightarrow> retval \<times> map_extraction" where
  "me_initialize storeFound distributor me =
     (let me = me\<lparr>packetStoreSet := storeFound\<rparr> in
      case distributor of
        Some queue \<Rightarrow> (if storeFound then (OK, me\<lparr>tcQueueId := queue\<rparr>) else (FAILED, me))
      | None \<Rightarrow> (FAILED, me))"

section \<open>Buffer invariant\<close>

definition me_inv :: "map_extraction \<Rightarrow> bool" where
  "me_inv me \<longleftrightarrow> length (packetBuffer me) = MAX_PACKET_SIZE \<and>
     bufferPosition me = unat (packetLength me) \<and> unat (packetLength me) \<le> MAX_PACKET_SIZE"

text \<open>What has been collected of the current packet.\<close>

definition me_collected :: "map_extraction \<Rightarrow> bytes" where
  "me_collected me = take (unat (packetLength me)) (packetBuffer me)"

text \<open>The data of a frame that is completely in memory.\<close>

definition frame_data :: "tc_frame \<Rightarrow> bytes" where
  "frame_data fr = take (unat (getDataLength fr)) (getDataField fr)"

definition frame_complete :: "tc_frame \<Rightarrow> bool" where
  "frame_complete fr \<longleftrightarrow> unat (getDataLength fr) \<le> length (getDataField fr)"

lemma length_frame_data [simp]:
  "frame_complete fr \<Longrightarrow> length (frame_data fr) = unat (getDataLength fr)"
  by (simp add: frame_data_def frame_complete_def)

lemma unat_ucast_u16_u32 [simp]: "unat (ucast (w :: u16) :: u32) = unat w"
  by (simp add: unsigned_ucast_eq take_bit_nat_eq_self unsigned_less less_trans [OF unsigned_less])

lemma me_new_inv: "me_inv (me_new i d)"
  by (simp add: me_inv_def me_new_def)

lemma clearBuffers_inv [simp]: "length (packetBuffer me) = MAX_PACKET_SIZE \<Longrightarrow> me_inv (clearBuffers me)"
  by (simp add: me_inv_def clearBuffers_def)

lemma me_inv_flag [simp]: "me_inv (me\<lparr>lastSegmentationFlag := f\<rparr>) = me_inv me"
  by (simp add: me_inv_def)

lemma me_first_spec:
  assumes inv: "me_inv me" and c: "frame_complete fr" and m: "unat (getDataLength fr) \<le> MAX_PACKET_SIZE"
  shows "fst (me_first fr me) = OK" and "me_inv (snd (me_first fr me))"
    and "me_collected (snd (me_first fr me)) = frame_data fr"
  using assms by (simp_all add: me_first_def Let_def me_inv_def me_collected_def frame_data_def
    frame_complete_def memcpy_at_def)

lemma me_first_inv: "me_inv me \<Longrightarrow> frame_complete fr \<Longrightarrow> me_inv (snd (me_first fr me))"
  by (cases "unat (getDataLength fr) \<le> MAX_PACKET_SIZE")
    (simp add: me_first_spec, simp add: me_first_def me_inv_def clearBuffers_def)

lemma packetLength_add:
  assumes "me_inv me"
  shows "unat (packetLength me + ucast (getDataLength fr)) =
    unat (packetLength me) + unat (getDataLength fr)"
proof -
  have "unat (getDataLength fr) < 2 ^ 16"
    using unsigned_less [of "getDataLength fr", where ?'a = nat] by simp
  moreover have "unat (packetLength me) \<le> 4096" using assms by (simp add: me_inv_def MAX_PACKET_SIZE_def)
  ultimately show ?thesis by (simp add: unat_word_ariths)
qed

definition in_segment :: "map_extraction \<Rightarrow> bool" where
  "in_segment me \<longleftrightarrow>
     lastSegmentationFlag me = FIRST_PORTION \<or> lastSegmentationFlag me = CONTINUING_PORTION"

text \<open>The extraction with the portion appended.\<close>

definition me_append :: "tc_frame \<Rightarrow> map_extraction \<Rightarrow> map_extraction" where
  "me_append fr me = me\<lparr>packetLength := packetLength me + ucast (getDataLength fr),
     packetBuffer := memcpy_at (packetBuffer me) (bufferPosition me) (frame_data fr),
     bufferPosition := unat (packetLength me + ucast (getDataLength fr))\<rparr>"

lemma me_append_spec:
  assumes inv: "me_inv me" and c: "frame_complete fr"
    and m: "length (me_collected me) + length (frame_data fr) \<le> MAX_PACKET_SIZE"
  shows "me_inv (me_append fr me)" and "me_collected (me_append fr me) = me_collected me @ frame_data fr"
proof -
  have l: "length (me_collected me) = unat (packetLength me)"
    using inv by (simp add: me_inv_def me_collected_def)
  with m c have m': "unat (packetLength me) + unat (getDataLength fr) \<le> MAX_PACKET_SIZE" by simp
  show "me_inv (me_append fr me)"
    using inv c m' by (simp add: me_inv_def me_append_def packetLength_add)
  show "me_collected (me_append fr me) = me_collected me @ frame_data fr"
    using inv c m' packetLength_add [OF inv, of fr]
    by (simp add: me_inv_def me_append_def me_collected_def memcpy_at_def)
qed

lemma me_continue_eq:
  assumes inv: "me_inv me" and c: "frame_complete fr"
  shows "me_continue qsend fr me sink =
    (if in_segment me then
       (if length (me_collected me) + length (frame_data fr) \<le> MAX_PACKET_SIZE then
          (if getSequenceFlags fr = LAST_PORTION then
             (OK, clearBuffers (me_append fr me),
              snd (sendCompletePacket qsend (me_collected me @ frame_data fr) sink))
           else (OK, me_append fr me, sink))
        else (CONTENT_TOO_LARGE, clearBuffers me, sink))
     else (ILLEGAL_SEGMENTATION_FLAG, clearBuffers me, sink))"
proof -
  have l: "length (me_collected me) = unat (packetLength me)"
    using inv by (simp add: me_inv_def me_collected_def)
  have b: "memcpy_at (packetBuffer me) (bufferPosition me) (take (unat (getDataLength fr)) (getDataField fr)) =
      packetBuffer (me_append fr me)"
    by (simp add: me_append_def frame_data_def)
  have "take (unat (packetLength me) + unat (getDataLength fr)) (packetBuffer (me_append fr me)) =
      me_collected me @ frame_data fr"
    if "unat (packetLength me) + unat (getDataLength fr) \<le> MAX_PACKET_SIZE"
    using me_append_spec(2) [OF inv c] that l c packetLength_add [OF inv, of fr]
    by (simp add: me_collected_def) (simp add: me_append_def)
  then show ?thesis
    using c by (simp add: me_continue_def in_segment_def Let_def packetLength_add [OF inv] l b)
      (simp add: me_append_def clearBuffers_def packetLength_add [OF inv] frame_data_def)
qed

lemma me_continue_inv:
  assumes "me_inv me" and "frame_complete fr"
  shows "me_inv (fst (snd (me_continue qsend fr me sink)))"
  using me_append_spec(1) [OF assms] assms
  by (auto simp: me_continue_eq [OF assms] me_inv_def clearBuffers_def)

section \<open>Blocked packets\<close>

text \<open>When every packet has a positive size the loop returns.\<close>

lemma unpack_loop_returns:
  assumes "\<And>x. 0 < fullSize x"
  shows "\<exists>r. unpack_loop minSize fullSize qsend status n pos sink = Some r"
proof (induction n arbitrary: status pos sink rule: less_induct)
  case (less n)
  show ?case
  proof (cases "n > minSize \<and> fullSize pos \<le> n")
    case True
    then have "n - fullSize pos < n" using assms [of pos] by simp
    with less True show ?thesis by (subst unpack_loop.simps) (simp add: Let_def)
  next
    case False
    then show ?thesis
      by (subst unpack_loop.simps)
        (auto simp: Let_def unpack_loop.simps [of minSize fullSize qsend DATA_CORRUPTED 0])
  qed
qed

lemma unpack_loop_packets:
  assumes "\<forall>p \<in> set ps. minSize < length p \<and> (\<forall>rest. fullSize (p @ rest) = length p)"
  shows "unpack_loop minSize fullSize qsend status (length (concat ps)) (concat ps @ rest) sink =
    Some (if ps = [] then status else OK, 0,
          fold (\<lambda>p s. snd (sendCompletePacket qsend p s)) ps sink)"
  using assms
proof (induction ps arbitrary: status sink)
  case Nil
  then show ?case by (subst unpack_loop.simps) simp
next
  case (Cons p ps)
  then have "fullSize (p @ concat ps @ rest) = length p" "minSize < length p" by simp_all
  with Cons show ?case by (subst unpack_loop.simps) (auto simp: Let_def)
qed

section \<open>Runs of frames\<close>

fun run_extract ::
  "nat \<Rightarrow> (bytes \<Rightarrow> nat) \<Rightarrow> ('q \<Rightarrow> store_address \<Rightarrow> retval \<times> 'q) \<Rightarrow> tc_frame list \<Rightarrow>
   map_extraction \<Rightarrow> 'q tc_sink \<Rightarrow> (retval list \<times> map_extraction \<times> 'q tc_sink) option" where
  "run_extract minSize fullSize qsend [] me sink = Some ([], me, sink)"
| "run_extract minSize fullSize qsend (fr # frs) me sink =
     (case extractPackets minSize fullSize qsend fr me sink of
        None \<Rightarrow> None
      | Some (r, me', sink') \<Rightarrow>
          (case run_extract minSize fullSize qsend frs me' sink' of
             None \<Rightarrow> None
           | Some (rs, me'', sink'') \<Rightarrow> Some (r # rs, me'', sink'')))"

lemma extractPackets_inv:
  assumes "me_inv me" and "frame_complete fr"
    and "extractPackets minSize fullSize qsend fr me sink = Some (r, me', sink')"
  shows "me_inv me' \<and> lastSegmentationFlag me' = getSequenceFlags fr"
  using assms me_first_inv [OF assms(1,2)] me_continue_inv [OF assms(1,2), of qsend sink]
  by (auto simp: extractPackets_def Let_def clearBuffers_def me_inv_def
    split: if_splits option.splits prod.splits)

lemma extract_first:
  assumes "me_inv me" and "frame_complete fr" and "getSequenceFlags fr = FIRST_PORTION"
    and "length (frame_data fr) \<le> MAX_PACKET_SIZE"
  shows "\<exists>me'. extractPackets minSize fullSize qsend fr me sink = Some (OK, me', sink) \<and>
    me_inv me' \<and> in_segment me' \<and> me_collected me' = frame_data fr"
proof -
  have m: "unat (getDataLength fr) \<le> MAX_PACKET_SIZE" using assms(2,4) by simp
  note f = me_first_spec [OF assms(1,2) m]
  obtain me1 where e: "me_first fr me = (OK, me1)" using f(1) by (cases "me_first fr me") auto
  with f assms(3) show ?thesis
    by (auto simp: extractPackets_def portion_defs in_segment_def me_collected_def)
qed

lemma extract_continuing:
  assumes "me_inv me" and "in_segment me" and "frame_complete fr"
    and "getSequenceFlags fr = CONTINUING_PORTION"
    and "length (me_collected me) + length (frame_data fr) \<le> MAX_PACKET_SIZE"
  shows "\<exists>me'. extractPackets minSize fullSize qsend fr me sink = Some (OK, me', sink) \<and>
    me_inv me' \<and> in_segment me' \<and> me_collected me' = me_collected me @ frame_data fr"
  using assms me_append_spec [OF assms(1,3,5)]
  by (auto simp: extractPackets_def me_continue_eq portion_defs in_segment_def me_collected_def)

lemma extract_last:
  assumes "me_inv me" and "in_segment me" and "frame_complete fr"
    and "getSequenceFlags fr = LAST_PORTION"
    and "length (me_collected me) + length (frame_data fr) \<le> MAX_PACKET_SIZE"
  shows "\<exists>me'. extractPackets minSize fullSize qsend fr me sink =
    Some (OK, me', snd (sendCompletePacket qsend (me_collected me @ frame_data fr) sink)) \<and>
    me_inv me' \<and> \<not> in_segment me'"
  using assms me_append_spec [OF assms(1,3,5)]
  by (auto simp: extractPackets_def me_continue_eq portion_defs in_segment_def clearBuffers_def
    me_inv_def)

lemma extract_tail:
  assumes "me_inv me" and "in_segment me"
    and "\<forall>fr \<in> set cs. frame_complete fr \<and> getSequenceFlags fr = CONTINUING_PORTION"
    and "frame_complete l" and "getSequenceFlags l = LAST_PORTION"
    and "length (me_collected me) + length (concat (map frame_data (cs @ [l]))) \<le> MAX_PACKET_SIZE"
  shows "\<exists>me'. run_extract minSize fullSize qsend (cs @ [l]) me sink =
    Some (replicate (length cs + 1) OK, me',
      snd (sendCompletePacket qsend (me_collected me @ concat (map frame_data (cs @ [l]))) sink)) \<and>
    me_inv me' \<and> \<not> in_segment me'"
  using assms
proof (induction cs arbitrary: me)
  case Nil
  then have "length (me_collected me) + length (frame_data l) \<le> MAX_PACKET_SIZE" by simp
  from extract_last [OF Nil.prems(1,2,4,5) this, of minSize fullSize qsend sink] show ?case
    by auto
next
  case (Cons c cs)
  have l: "length (me_collected me) + length (frame_data c) \<le> MAX_PACKET_SIZE"
    using Cons.prems(6) by simp
  obtain me1 where me1: "extractPackets minSize fullSize qsend c me sink = Some (OK, me1, sink)"
      "me_inv me1" "in_segment me1" "me_collected me1 = me_collected me @ frame_data c"
    using extract_continuing [OF Cons.prems(1,2) _ _ l] Cons.prems(3) by force
  have "\<exists>me'. run_extract minSize fullSize qsend (cs @ [l]) me1 sink =
    Some (replicate (length cs + 1) OK, me',
      snd (sendCompletePacket qsend (me_collected me1 @ concat (map frame_data (cs @ [l]))) sink)) \<and>
    me_inv me' \<and> \<not> in_segment me'"
    using Cons.prems me1 by (intro Cons.IH) auto
  with me1 show ?case by auto
qed

lemma extract_segments:
  assumes "me_inv me"
    and "frame_complete f" and "getSequenceFlags f = FIRST_PORTION"
    and "\<forall>fr \<in> set cs. frame_complete fr \<and> getSequenceFlags fr = CONTINUING_PORTION"
    and "frame_complete l" and "getSequenceFlags l = LAST_PORTION"
    and "length (concat (map frame_data (f # cs @ [l]))) \<le> MAX_PACKET_SIZE"
  shows "\<exists>me'. run_extract minSize fullSize qsend (f # cs @ [l]) me sink =
    Some (replicate (length cs + 2) OK, me',
      snd (sendCompletePacket qsend (concat (map frame_data (f # cs @ [l]))) sink)) \<and>
    me_inv me' \<and> \<not> in_segment me'"
proof -
  have "length (frame_data f) \<le> MAX_PACKET_SIZE" using assms(7) by simp
  from extract_first [OF assms(1-3) this, of minSize fullSize qsend sink]
  obtain me1 where me1: "extractPackets minSize fullSize qsend f me sink = Some (OK, me1, sink)"
      "me_inv me1" "in_segment me1" "me_collected me1 = frame_data f"
    by auto
  have "length (me_collected me1) + length (concat (map frame_data (cs @ [l]))) \<le> MAX_PACKET_SIZE"
    using assms(7) me1(4) by simp
  from extract_tail [OF me1(2,3) assms(4-6) this, of minSize fullSize qsend sink] me1
  show ?thesis by auto
qed

lemma sendCompletePacket_stored:
  assumes "pool_inv (sink_store sink)"
    and "sendCompletePacket qsend d sink = (OK, sink')"
  shows "\<exists>a q. qsend (sink_queue sink) a = (OK, q) \<and> sink_queue sink' = q \<and>
    pool_getData a (sink_store sink') = (OK, Some d) \<and> pool_inv (sink_store sink')"
proof -
  obtain st a p where r: "pool_addData store_address_default d (sink_store sink) = (st, a, p)"
    by (cases "pool_addData store_address_default d (sink_store sink)") auto
  with assms(2) have ok: "st = OK" by (auto simp: sendCompletePacket_def split: if_splits)
  with r have r': "pool_addData store_address_default d (sink_store sink) = (OK, a, p)" by simp
  have g: "pool_getData a p = (OK, Some d)" "pool_inv p"
    using pool_addData_effect [OF assms(1) r'] by (simp_all add: pool_getData_status)
  show ?thesis
    using assms(2) g unfolding sendCompletePacket_def r' by (auto split: prod.splits)
qed

section \<open>Properties\<close>

text \<open>
  C19: reassembly. From any state of the extraction, a first portion, any number of continuing
  portions and a last portion of together at most 4096 bytes are all accepted and forward exactly
  one packet, the concatenation of the data of the frames in order; afterwards no packet is open.
  When store and queue take it, the queue gets an address under which the store holds that packet.
\<close>

theorem segments_are_reassembled:
  assumes "me_inv me" and "pool_inv (sink_store sink)"
    and "frame_complete f" and "getSequenceFlags f = FIRST_PORTION"
    and "\<forall>fr \<in> set cs. frame_complete fr \<and> getSequenceFlags fr = CONTINUING_PORTION"
    and "frame_complete l" and "getSequenceFlags l = LAST_PORTION"
    and "length (concat (map frame_data (f # cs @ [l]))) \<le> MAX_PACKET_SIZE"
    and "sendCompletePacket qsend (concat (map frame_data (f # cs @ [l]))) sink = (r, sink')"
  shows "(\<exists>me'. run_extract minSize fullSize qsend (f # cs @ [l]) me sink =
      Some (replicate (length cs + 2) OK, me', sink') \<and> me_inv me' \<and> \<not> in_segment me') \<and>
    (r = OK \<longrightarrow> (\<exists>a. qsend (sink_queue sink) a = (OK, sink_queue sink') \<and>
      pool_getData a (sink_store sink') = (OK, Some (concat (map frame_data (f # cs @ [l]))))))"
  using extract_segments [OF assms(1,3-8), of minSize fullSize qsend sink] assms(9)
    sendCompletePacket_stored [OF assms(2), of qsend "concat (map frame_data (f # cs @ [l]))" sink']
  by auto

theorem segments_are_reassembled_witness:
  "\<exists>me' sink'. run_extract 6 length (\<lambda>q a. (OK, q @ [a]))
     [[0, 0, 0, 8, 0, 0x40, 1, 0, 0], [0, 0, 0, 9, 1, 0x80, 2, 3, 0, 0]] (me_new 0 0)
     \<lparr>sink_store = pool_init [(2, 8)] False, sink_queue = []\<rparr> = Some ([OK, OK], me', sink')"
proof -
  let ?f = "[0, 0, 0, 8, 0, 0x40, 1, 0, 0] :: tc_frame" and ?l = "[0, 0, 0, 9, 1, 0x80, 2, 3, 0, 0] :: tc_frame"
  let ?sink = "\<lparr>sink_store = pool_init [(2, 8)] False, sink_queue = []\<rparr>"
  have p: "pool_inv (sink_store ?sink)" by simp (rule pool_init_inv, simp_all add: STORAGE_FREE_def)
  have f: "frame_complete ?f" "frame_complete ?l" "getSequenceFlags ?f = FIRST_PORTION"
      "getSequenceFlags ?l = LAST_PORTION" "frame_data ?f = [1]" "frame_data ?l = [2, 3]"
    by code_simp+
  obtain r sink' where "sendCompletePacket (\<lambda>q a. (OK, q @ [a])) [1, 2, 3] ?sink = (r, sink')"
    by (cases "sendCompletePacket (\<lambda>q a. (OK, q @ [a])) [1, 2, 3] ?sink")
  then show ?thesis
    using segments_are_reassembled [OF me_new_inv [of 0 0] p f(1,3) _ f(2,4), where cs = "[]"
      and qsend = "\<lambda>q a. (OK, q @ [a])" and minSize = 6 and fullSize = length
      and r = r and sink' = sink']
    by (simp add: f MAX_PACKET_SIZE_def numeral_2_eq_2) blast
qed

text \<open>
  Memory safety. Whatever a complete frame contains, the extraction keeps its buffer of 4096 bytes
  and the write position inside it.
\<close>

theorem extraction_stays_in_buffer:
  assumes "me_inv me" and "frame_complete fr"
    and "extractPackets minSize fullSize qsend fr me sink = Some (r, me', sink')"
  shows "length (packetBuffer me') = 4096 \<and> bufferPosition me' = unat (packetLength me') \<and>
    bufferPosition me' \<le> 4096"
  using extractPackets_inv [OF assms] by (simp add: me_inv_def MAX_PACKET_SIZE_def)

theorem extraction_stays_in_buffer_witness:
  "length (packetBuffer (fst (snd (the (extractPackets 6 length (\<lambda>q a. (OK, q))
     [0, 0, 0, 8, 0, 0x40, 1, 0, 0] (me_new 0 0)
     \<lparr>sink_store = pool_init [(2, 8)] False, sink_queue = ()\<rparr>))))) = 4096"
proof -
  let ?fr = "[0, 0, 0, 8, 0, 0x40, 1, 0, 0] :: tc_frame"
  have c: "frame_complete ?fr" "getSequenceFlags ?fr = FIRST_PORTION" "frame_data ?fr = [1]"
    by code_simp+
  have l: "length (frame_data ?fr) \<le> MAX_PACKET_SIZE" by (simp add: c MAX_PACKET_SIZE_def)
  from extract_first [OF me_new_inv [of 0 0] c(1,2) l, of 6 length "\<lambda>q a. (OK, q)"
      "\<lparr>sink_store = pool_init [(2, 8)] False, sink_queue = ()\<rparr>"]
  obtain me' where e: "extractPackets 6 length (\<lambda>q a. (OK, q)) ?fr (me_new 0 0)
      \<lparr>sink_store = pool_init [(2, 8)] False, sink_queue = ()\<rparr> =
      Some (OK, me', \<lparr>sink_store = pool_init [(2, 8)] False, sink_queue = ()\<rparr>)"
    by auto
  from extraction_stays_in_buffer [OF me_new_inv [of 0 0] c(1) e] e show ?thesis by simp
qed

text \<open>
  Unpacking of blocked packets. A frame whose data field of at most 4096 bytes is a sequence of
  packets, each longer than the minimum size and reporting its own length, forwards all of them in
  order and returns OK.
\<close>

theorem blocked_packets_are_forwarded:
  assumes "\<forall>p \<in> set ps. minSize < length p \<and> (\<forall>rest. fullSize (p @ rest) = length p)"
    and "getDataField fr = concat ps @ rest" and "unat (getDataLength fr) = length (concat ps)"
    and "length (concat ps) \<le> MAX_PACKET_SIZE" and "ps \<noteq> []"
  shows "unpackBlockingPackets minSize fullSize qsend fr sink =
    Some (OK, fold (\<lambda>p s. snd (sendCompletePacket qsend p s)) ps sink)"
  using assms unpack_loop_packets [OF assms(1), of qsend TOO_SHORT_BLOCKED_PACKET rest sink]
  by (simp add: unpackBlockingPackets_def Let_def)

theorem blocked_packets_are_forwarded_witness:
  "unpackBlockingPackets 1 (\<lambda>xs. unat (xs ! 0)) (\<lambda>q a. (OK, q @ [a]))
     [0, 0, 0, 12, 0, 0xC0, 2, 7, 3, 8, 9, 0, 0] \<lparr>sink_store = pool_init [(2, 8)] False, sink_queue = []\<rparr> =
   Some (OK, fold (\<lambda>p s. snd (sendCompletePacket (\<lambda>q a. (OK, q @ [a])) p s)) [[2, 7], [3, 8, 9]]
     \<lparr>sink_store = pool_init [(2, 8)] False, sink_queue = []\<rparr>)"
proof (rule blocked_packets_are_forwarded)
  let ?fr = "[0, 0, 0, 12, 0, 0xC0, 2, 7, 3, 8, 9, 0, 0] :: tc_frame"
  show "getDataField ?fr = concat [[2, 7], [3, 8, 9]] @ [0, 0]" by code_simp
  have "getDataLength ?fr = 5" by code_simp
  then show "unat (getDataLength ?fr) = length (concat [[2 :: u8, 7], [3, 8, 9]])" by simp
qed (simp_all add: MAX_PACKET_SIZE_def)

text \<open>
  C37: the extraction of blocked packets returns, for every frame and every state of the store and of
  the queue, provided that no packet reports the size 0.
\<close>

theorem extraction_returns:
  assumes "\<And>x. 0 < fullSize x"
  shows "\<exists>r. extractPackets minSize fullSize qsend fr me sink = Some r"
proof -
  obtain status n sink' where "unpack_loop minSize fullSize qsend TOO_SHORT_BLOCKED_PACKET
      (unat (getDataLength fr)) (getDataField fr) sink = Some (status, n, sink')"
    using unpack_loop_returns [where fullSize = fullSize and minSize = minSize and qsend = qsend
      and status = TOO_SHORT_BLOCKED_PACKET and n = "unat (getDataLength fr)"
      and pos = "getDataField fr" and sink = sink, OF assms] by auto
  then show ?thesis
    by (auto simp: extractPackets_def unpackBlockingPackets_def Let_def split: prod.splits)
qed

theorem extraction_returns_witness:
  "\<exists>r. extractPackets 6 (\<lambda>xs. length xs + 7) (\<lambda>q a. (OK, q)) [0, 0, 0, 8, 0, 0xC0, 1, 0, 0]
     (me_new 0 0) \<lparr>sink_store = pool_init [(2, 8)] False, sink_queue = ()\<rparr> = Some r"
  by (rule extraction_returns) simp

text \<open>
  A portion that was refused is forgotten, yet its flag is remembered. After a continuing portion
  without a first one is refused as illegal, the last portion that follows is accepted and its data
  alone is forwarded as a complete packet.
\<close>

theorem refused_portion_opens_packet:
  assumes "me_inv me" and "\<not> in_segment me"
    and "frame_complete c" and "getSequenceFlags c = CONTINUING_PORTION"
    and "frame_complete l" and "getSequenceFlags l = LAST_PORTION"
    and "length (frame_data l) \<le> MAX_PACKET_SIZE"
  shows "\<exists>me'. run_extract minSize fullSize qsend [c, l] me sink =
    Some ([ILLEGAL_SEGMENTATION_FLAG, OK], me', snd (sendCompletePacket qsend (frame_data l) sink))"
proof -
  let ?me = "(clearBuffers me)\<lparr>lastSegmentationFlag := CONTINUING_PORTION\<rparr>"
  have s: "extractPackets minSize fullSize qsend c me sink =
      Some (ILLEGAL_SEGMENTATION_FLAG, ?me, sink)"
    using assms(1-4) by (simp add: extractPackets_def me_continue_eq portion_defs)
  have i: "me_inv ?me" "in_segment ?me" "me_collected ?me = []"
    using assms(1) by (simp_all add: me_inv_def in_segment_def clearBuffers_def me_collected_def)
  then show ?thesis
    using extract_last [OF i(1,2) assms(5,6), of minSize fullSize qsend sink] assms(7) s by auto
qed

theorem refused_portion_opens_packet_witness:
  "\<exists>me'. run_extract 6 length (\<lambda>q a. (OK, q @ [a]))
     [[0, 0, 0, 8, 0, 0, 1, 0, 0], [0, 0, 0, 9, 1, 0x80, 2, 3, 0, 0]] (me_new 0 0)
     \<lparr>sink_store = pool_init [(2, 8)] False, sink_queue = []\<rparr> =
     Some ([ILLEGAL_SEGMENTATION_FLAG, OK], me', snd (sendCompletePacket (\<lambda>q a. (OK, q @ [a])) [2, 3]
       \<lparr>sink_store = pool_init [(2, 8)] False, sink_queue = []\<rparr>))"
proof -
  let ?c = "[0, 0, 0, 8, 0, 0, 1, 0, 0] :: tc_frame" and ?l = "[0, 0, 0, 9, 1, 0x80, 2, 3, 0, 0] :: tc_frame"
  have f: "frame_complete ?c" "frame_complete ?l" "getSequenceFlags ?c = CONTINUING_PORTION"
      "getSequenceFlags ?l = LAST_PORTION" "frame_data ?l = [2, 3]"
    by code_simp+
  have n: "\<not> in_segment (me_new 0 0)" by (simp add: in_segment_def me_new_def portion_defs)
  show ?thesis
    using refused_portion_opens_packet [OF me_new_inv n f(1,3,2,4), of 6 length "\<lambda>q a. (OK, q @ [a])"]
    by (simp add: f MAX_PACKET_SIZE_def)
qed

end
