(* ===== verification/Crc.thy ===== *)
theory Crc
  imports Fsfw_Prelude
begin

text \<open>
  The frame check of \<open>src/src/fsfw/globalfunctions/CRC.cpp\<close>: the CRC-16/CCITT over a byte
  buffer, driven by a table of 256 entries. Transfer frames, PUS packets and CFDP PDUs are checked
  by running it over the packet with its trailing checksum and comparing with 0.
\<close>

section \<open>The algorithm\<close>

definition crc16ccitt_table :: "u16 list" where
  "crc16ccitt_table =
    [0x0000, 0x1021, 0x2042, 0x3063, 0x4084, 0x50a5, 0x60c6, 0x70e7, 0x8108, 0x9129,
     0xa14a, 0xb16b, 0xc18c, 0xd1ad, 0xe1ce, 0xf1ef, 0x1231, 0x0210, 0x3273, 0x2252,
     0x52b5, 0x4294, 0x72f7, 0x62d6, 0x9339, 0x8318, 0xb37b, 0xa35a, 0xd3bd, 0xc39c,
     0xf3ff, 0xe3de, 0x2462, 0x3443, 0x0420, 0x1401, 0x64e6, 0x74c7, 0x44a4, 0x5485,
     0xa56a, 0xb54b, 0x8528, 0x9509, 0xe5ee, 0xf5cf, 0xc5ac, 0xd58d, 0x3653, 0x2672,
     0x1611, 0x0630, 0x76d7, 0x66f6, 0x5695, 0x46b4, 0xb75b, 0xa77a, 0x9719, 0x8738,
     0xf7df, 0xe7fe, 0xd79d, 0xc7bc, 0x48c4, 0x58e5, 0x6886, 0x78a7, 0x0840, 0x1861,
     0x2802, 0x3823, 0xc9cc, 0xd9ed, 0xe98e, 0xf9af, 0x8948, 0x9969, 0xa90a, 0xb92b,
     0x5af5, 0x4ad4, 0x7ab7, 0x6a96, 0x1a71, 0x0a50, 0x3a33, 0x2a12, 0xdbfd, 0xcbdc,
     0xfbbf, 0xeb9e, 0x9b79, 0x8b58, 0xbb3b, 0xab1a, 0x6ca6, 0x7c87, 0x4ce4, 0x5cc5,
     0x2c22, 0x3c03, 0x0c60, 0x1c41, 0xedae, 0xfd8f, 0xcdec, 0xddcd, 0xad2a, 0xbd0b,
     0x8d68, 0x9d49, 0x7e97, 0x6eb6, 0x5ed5, 0x4ef4, 0x3e13, 0x2e32, 0x1e51, 0x0e70,
     0xff9f, 0xefbe, 0xdfdd, 0xcffc, 0xbf1b, 0xaf3a, 0x9f59, 0x8f78, 0x9188, 0x81a9,
     0xb1ca, 0xa1eb, 0xd10c, 0xc12d, 0xf14e, 0xe16f, 0x1080, 0x00a1, 0x30c2, 0x20e3,
     0x5004, 0x4025, 0x7046, 0x6067, 0x83b9, 0x9398, 0xa3fb, 0xb3da, 0xc33d, 0xd31c,
     0xe37f, 0xf35e, 0x02b1, 0x1290, 0x22f3, 0x32d2, 0x4235, 0x5214, 0x6277, 0x7256,
     0xb5ea, 0xa5cb, 0x95a8, 0x8589, 0xf56e, 0xe54f, 0xd52c, 0xc50d, 0x34e2, 0x24c3,
     0x14a0, 0x0481, 0x7466, 0x6447, 0x5424, 0x4405, 0xa7db, 0xb7fa, 0x8799, 0x97b8,
     0xe75f, 0xf77e, 0xc71d, 0xd73c, 0x26d3, 0x36f2, 0x0691, 0x16b0, 0x6657, 0x7676,
     0x4615, 0x5634, 0xd94c, 0xc96d, 0xf90e, 0xe92f, 0x99c8, 0x89e9, 0xb98a, 0xa9ab,
     0x5844, 0x4865, 0x7806, 0x6827, 0x18c0, 0x08e1, 0x3882, 0x28a3, 0xcb7d, 0xdb5c,
     0xeb3f, 0xfb1e, 0x8bf9, 0x9bd8, 0xabbb, 0xbb9a, 0x4a75, 0x5a54, 0x6a37, 0x7a16,
     0x0af1, 0x1ad0, 0x2ab3, 0x3a92, 0xfd2e, 0xed0f, 0xdd6c, 0xcd4d, 0xbdaa, 0xad8b,
     0x9de8, 0x8dc9, 0x7c26, 0x6c07, 0x5c64, 0x4c45, 0x3ca2, 0x2c83, 0x1ce0, 0x0cc1,
     0xef1f, 0xff3e, 0xcf5d, 0xdf7c, 0xaf9b, 0xbfba, 0x8fd9, 0x9ff8, 0x6e17, 0x7e36,
     0x4e55, 0x5e74, 0x2e93, 0x3eb2, 0x0ed1, 0x1ef0]"

definition crc_step :: "u16 \<Rightarrow> u8 \<Rightarrow> u16" where
  "crc_step crc b =
     (let tbl_idx = (drop_bit 8 crc XOR ucast b) AND 0xff
      in (crc16ccitt_table ! unat tbl_idx XOR push_bit 8 crc) AND 0xffff)"

fun crc16ccitt_from :: "bytes \<Rightarrow> u16 \<Rightarrow> u16" where
  "crc16ccitt_from [] startingCrc = startingCrc AND 0xffff"
| "crc16ccitt_from (b # bs) startingCrc = crc16ccitt_from bs (crc_step startingCrc b)"

text \<open>The default of the third argument is \<open>0xFFFF\<close>.\<close>

definition crc16ccitt :: "bytes \<Rightarrow> u16" where
  "crc16ccitt bs = crc16ccitt_from bs 0xFFFF"

section \<open>The table\<close>

text \<open>Reference: eight steps of the shift register for the polynomial \<open>x^16 + x^12 + x^5 + 1\<close>.\<close>

fun poly_shift :: "nat \<Rightarrow> u16 \<Rightarrow> u16" where
  "poly_shift 0 r = r"
| "poly_shift (Suc n) r =
     poly_shift n (if bit r 15 then push_bit 1 r XOR 0x1021 else push_bit 1 r)"

text \<open>The same value in closed form.\<close>

definition crc_entry :: "u8 \<Rightarrow> u16" where
  "crc_entry i = (let x = ucast (i XOR drop_bit 4 i) :: u16
     in push_bit 12 x XOR push_bit 5 x XOR x)"

lemma crc_table_entries: "crc16ccitt_table = map (\<lambda>i. crc_entry (of_nat i)) [0..<256]"
  by code_simp

text \<open>
  Both the shift register and the closed form are linear over XOR, so that they agree everywhere
  once they agree on the eight single-bit bytes.
\<close>

lemma poly_shift_xor: "poly_shift n (a XOR b) = poly_shift n a XOR poly_shift n b"
proof (induction n arbitrary: a b)
  case (Suc n)
  have "(if bit (a XOR b) 15 then push_bit 1 (a XOR b) XOR 0x1021 else push_bit 1 (a XOR b)) =
    (if bit a 15 then push_bit 1 a XOR 0x1021 else push_bit 1 a) XOR
    (if bit b 15 then push_bit 1 b XOR 0x1021 else push_bit 1 b)"
    by (auto simp: bit_xor_iff push_bit_xor ac_simps)
  then show ?case by (simp add: Suc del: push_bit_of_1 push_bit_Suc)
qed simp

lemma crc_entry_xor: "crc_entry (a XOR b) = crc_entry a XOR crc_entry b"
  by (simp add: crc_entry_def Let_def drop_bit_xor push_bit_xor unsigned_xor_eq ac_simps)

lemma byte_split: "(v :: u8) = (v AND 1) XOR (v AND 2) XOR (v AND 4) XOR (v AND 8) XOR
  (v AND 16) XOR (v AND 32) XOR (v AND 64) XOR (v AND 128)"
proof -
  have "(v :: u8) = v AND (1 XOR 2 XOR 4 XOR 8 XOR 16 XOR 32 XOR 64 XOR 128)"
    by (rule byte_eqI) (simp add: bit_and_iff bit_mask_numerals)
  then show ?thesis unfolding bit.conj_xor_distrib .
qed

lemma and_power_cases: "(v :: 'a::len word) AND 2 ^ k = (if bit v k then 2 ^ k else 0)"
  by (rule bit_word_eqI) (auto simp: bit_and_iff bit_exp_iff)

lemma linear_byte_ext:
  fixes f g :: "u8 \<Rightarrow> u16"
  assumes f: "\<And>a b. f (a XOR b) = f a XOR f b" and g: "\<And>a b. g (a XOR b) = g a XOR g b"
    and base: "\<And>k. k < 8 \<Longrightarrow> f (2 ^ k) = g (2 ^ k)"
  shows "f v = g v"
proof -
  have zero: "f 0 = g 0" using f [of 0 0] g [of 0 0] by simp
  have one: "f (v AND 2 ^ k) = g (v AND 2 ^ k)" if "k < 8" for k
    using base [OF that] zero by (simp add: and_power_cases)
  have bits: "f (v AND 1) = g (v AND 1)" "f (v AND 2) = g (v AND 2)" "f (v AND 4) = g (v AND 4)"
    "f (v AND 8) = g (v AND 8)" "f (v AND 16) = g (v AND 16)" "f (v AND 32) = g (v AND 32)"
    "f (v AND 64) = g (v AND 64)" "f (v AND 128) = g (v AND 128)"
    using one [of 0] one [of 1] one [of 2] one [of 3] one [of 4] one [of 5] one [of 6] one [of 7]
    by simp_all
  show ?thesis
    by (subst (1 2) byte_split) (simp only: f g bits)
qed

lemma poly_shift_entry: "poly_shift 8 (push_bit 8 (ucast i)) = crc_entry i"
proof (rule linear_byte_ext [of "\<lambda>i. poly_shift 8 (push_bit 8 (ucast i))"])
  fix k :: nat
  assume "k < 8"
  then have "k \<in> {0, 1, 2, 3, 4, 5, 6, 7}" by auto
  then show "poly_shift 8 (push_bit 8 (ucast (2 ^ k :: u8))) = crc_entry (2 ^ k)"
    by (elim insertE emptyE; simp; code_simp)
qed (simp_all add: crc_entry_xor poly_shift_xor unsigned_xor_eq push_bit_xor)

lemma crc_table_nth: "crc16ccitt_table ! unat i = crc_entry i"
  using unsigned_less [of i, where ?'a = nat] by (simp add: crc_table_entries)


section \<open>Injectivity of one step\<close>

text \<open>The low byte of an entry already determines the index.\<close>

lemma lo8_crc_entry: "lo8 (crc_entry v) = push_bit 5 (v XOR drop_bit 4 v) XOR (v XOR drop_bit 4 v)"
  by (rule byte_eqI, erule byte_bit_cases) (simp_all add: bit_lo8 crc_entry_def Let_def bit_simps)

lemma lo8_crc_entry_zero:
  assumes "lo8 (crc_entry v) = 0"
  shows "v = 0"
proof -
  have b: "\<not> bit (lo8 (crc_entry v)) n" for n using assms by simp
  have hi: "\<not> bit v 8" "\<not> bit v 9" "\<not> bit v 10" "\<not> bit v 11"
    by (auto dest: bit_imp_le_length)
  have all: "bit v 0 = bit v 4 \<and> bit v 1 = bit v 5 \<and> bit v 2 = bit v 6 \<and> bit v 3 = bit v 7 \<and>
     \<not> bit v 4 \<and> \<not> bit v 5 \<and> \<not> bit v 6 \<and> \<not> bit v 7"
    using b [of 0] b [of 1] b [of 2] b [of 3] b [of 4] b [of 5] b [of 6] b [of 7] hi
    by (simp add: lo8_crc_entry bit_simps)
  show ?thesis
    by (rule byte_eqI, erule byte_bit_cases) (simp_all add: all all [simplified])
qed

lemma lo8_xor: "lo8 (a XOR b) = lo8 a XOR lo8 b"
  and hi8_xor: "hi8 (a XOR b) = hi8 a XOR hi8 b"
  by (rule bit_word_eqI, simp add: bit_lo8 bit_hi8 bit_xor_iff)+

lemma xor_zero_iff: "(a :: 'a::len word) XOR b = 0 \<longleftrightarrow> a = b"
  by (metis bit.xor_cancel_right bit.xor_left_self xor.right_neutral)

lemma xor_left_cancel_iff: "(a :: 'a::len word) XOR b = a XOR c \<longleftrightarrow> b = c"
  by (metis bit.xor_left_self)

lemma xor_right_cancel_iff: "(b :: 'a::len word) XOR a = c XOR a \<longleftrightarrow> b = c"
  by (simp only: xor.commute [of _ a] xor_left_cancel_iff)

lemma lo8_crc_entry_inject [simp]: "lo8 (crc_entry a) = lo8 (crc_entry b) \<longleftrightarrow> a = b"
proof
  assume "lo8 (crc_entry a) = lo8 (crc_entry b)"
  then have "lo8 (crc_entry (a XOR b)) = 0" by (simp add: crc_entry_xor lo8_xor)
  then show "a = b" using lo8_crc_entry_zero [of "a XOR b"] by (simp add: xor_zero_iff)
qed simp

lemma crc_step_halves:
  "hi8 (crc_step c b) = hi8 (crc_entry (hi8 c XOR b)) XOR lo8 c"
  "lo8 (crc_step c b) = lo8 (crc_entry (hi8 c XOR b))"
proof -
  have "unat ((drop_bit 8 c XOR ucast b) AND 0xff :: u16) = unat (hi8 c XOR b)"
  proof -
    have "(drop_bit 8 c XOR ucast b) AND 0xff = (ucast (hi8 c XOR b) :: u16)"
      by (rule bit_word_eqI)
         (auto simp: bit_simps bit_hi8 bit_mask_numerals add.commute dest: bit_imp_le_length)
    then show ?thesis using unsigned_less [of "hi8 c XOR b", where ?'a = nat]
      by (simp add: unsigned_ucast_eq take_bit_nat_eq_self)
  qed
  then have s: "crc_step c b = crc_entry (hi8 c XOR b) XOR push_bit 8 c"
    by (simp add: crc_step_def Let_def crc_table_nth) (rule bit_word_eqI, simp add: bit_simps bit_mask_numerals)
  have p: "hi8 (push_bit 8 c) = lo8 c" "lo8 (push_bit 8 c) = 0"
    by (rule bit_word_eqI, simp add: bit_hi8 bit_lo8 bit_simps)+
  show "hi8 (crc_step c b) = hi8 (crc_entry (hi8 c XOR b)) XOR lo8 c"
    "lo8 (crc_step c b) = lo8 (crc_entry (hi8 c XOR b))"
    by (simp_all add: s hi8_xor lo8_xor p)
qed


text \<open>A step can be undone in its register, and two steps in their bytes.\<close>

lemma crc_step_inject: "crc_step c b = crc_step c' b \<longleftrightarrow> c = c'"
proof
  assume eq: "crc_step c b = crc_step c' b"
  then have "hi8 c XOR b = hi8 c' XOR b"
    using crc_step_halves(2) lo8_crc_entry_inject by metis
  then have h: "hi8 c = hi8 c'" by (simp only: xor_right_cancel_iff)
  from eq have "hi8 (crc_entry (hi8 c XOR b)) XOR lo8 c = hi8 (crc_entry (hi8 c' XOR b)) XOR lo8 c'"
    by (metis crc_step_halves(1))
  then have "lo8 c = lo8 c'" unfolding h by (simp only: xor_left_cancel_iff)
  with h show "c = c'" by (simp add: u16_eq_iff)
qed simp

lemma crc16ccitt_from_eq: "crc16ccitt_from bs c = foldl crc_step c bs"
proof (induction bs arbitrary: c)
  case Nil
  have "c AND 0xffff = c" by (rule bit_word_eqI) (simp add: bit_and_iff bit_mask_numerals)
  then show ?case by simp
qed simp

lemma crc_run_inject: "foldl crc_step c bs = foldl crc_step c' bs \<longleftrightarrow> c = c'"
  by (induction bs arbitrary: c c') (simp_all add: crc_step_inject)

lemma crc_two_steps_inject:
  "crc_step (crc_step c b1) b2 = crc_step (crc_step c d1) d2 \<longleftrightarrow> b1 = d1 \<and> b2 = d2"
proof
  assume eq: "crc_step (crc_step c b1) b2 = crc_step (crc_step c d1) d2"
  let ?h = "hi8 (crc_step c b1)" and ?k = "hi8 (crc_step c d1)"
  have x: "?h XOR b2 = ?k XOR d2"
    using eq crc_step_halves(2) lo8_crc_entry_inject by metis
  have "hi8 (crc_entry (?h XOR b2)) XOR lo8 (crc_step c b1) =
        hi8 (crc_entry (?k XOR d2)) XOR lo8 (crc_step c d1)"
    using eq crc_step_halves(1) by metis
  then have "lo8 (crc_step c b1) = lo8 (crc_step c d1)" unfolding x by (simp only: xor_left_cancel_iff)
  then have "hi8 c XOR b1 = hi8 c XOR d1" by (simp add: crc_step_halves(2))
  then have b: "b1 = d1" by (simp only: xor_left_cancel_iff)
  with x show "b1 = d1 \<and> b2 = d2" by (simp only: xor_left_cancel_iff simp_thms)
qed simp

lemma crc_residue: "crc_step (crc_step c b1) b2 = 0 \<longleftrightarrow> b1 = hi8 c \<and> b2 = lo8 c"
proof -
  have z: "crc_entry 0 = 0" by code_simp
  have h: "hi8 0 = 0" "lo8 0 = 0" by (simp_all add: hi8_def lo8_def)
  have "crc_step (crc_step c (hi8 c)) (lo8 c) = 0"
    by (simp add: u16_eq_iff crc_step_halves z h)
  with crc_two_steps_inject [of c b1 b2 "hi8 c" "lo8 c"] show ?thesis by simp
qed

lemma crc_trailer_iff: "crc16ccitt (msg @ [b1, b2]) = 0 \<longleftrightarrow> be16 b1 b2 = crc16ccitt msg"
proof -
  have "crc16ccitt (msg @ [b1, b2]) = 0 \<longleftrightarrow>
      b1 = hi8 (crc16ccitt msg) \<and> b2 = lo8 (crc16ccitt msg)"
    by (simp add: crc16ccitt_def crc16ccitt_from_eq crc_residue)
  then show ?thesis by (simp add: u16_eq_iff)
qed

lemma crc_burst_iff:
  "crc16ccitt (pre @ [a1, a2] @ post) = crc16ccitt (pre @ [b1, b2] @ post) \<longleftrightarrow>
     a1 = b1 \<and> a2 = b2"
  by (simp add: crc16ccitt_def crc16ccitt_from_eq crc_run_inject crc_two_steps_inject)

section \<open>Properties\<close>

text \<open>
  The table of \<open>CRC::crc16ccitt\<close> is that of the CCITT polynomial: every entry is the value that
  eight steps of the bitwise shift register for \<open>x^16 + x^12 + x^5 + 1\<close> give for its index.
\<close>

theorem crc_table_is_ccitt:
  "crc16ccitt_table ! unat (i :: u8) = poly_shift 8 (push_bit 8 (ucast i)) \<and>
   length crc16ccitt_table = 256"
  by (simp add: crc_table_nth poly_shift_entry) (simp add: crc_table_entries)

text \<open>
  The check that the receivers make. The checksum over a message and two further bytes is 0
  exactly when these two bytes are the checksum of the message, high byte first.
\<close>

theorem crc_residue_zero_iff:
  "crc16ccitt (msg @ [b1, b2]) = 0 \<longleftrightarrow> be16 b1 b2 = crc16ccitt msg"
  by (rule crc_trailer_iff)

text \<open>
  C28: error detection. Two messages of the same length that differ only within two adjacent bytes have
  different checksums. (A corrupted length field of a frame is no such case for a receiver that computes
  the checksum over the length that the frame itself states.)
\<close>

theorem crc_detects_two_byte_burst:
  "crc16ccitt (pre @ [a1, a2] @ post) = crc16ccitt (pre @ [b1, b2] @ post) \<longleftrightarrow>
     a1 = b1 \<and> a2 = b2"
  by (rule crc_burst_iff)

end
