(* ===== verification/Data_Link.thy ===== *)
theory Data_Link
  imports Map_Extraction Crc
begin

text \<open>
  The data link layer \<open>src/src/fsfw/datalinklayer/DataLinkLayer.cpp\<close> on top of the frame acceptance
  (theory \<open>Farm\<close>), the packet extraction (theory \<open>Map_Extraction\<close>) and the checksum (theory
  \<open>Crc\<close>): delimiting and validation of frames, demultiplexing to virtual channels and MAP channels,
  and reporting of the control word. Every virtual channel owns its MAP channels.
\<close>

section \<open>Virtual channels\<close>

abbreviation VC_NOT_FOUND :: retval where "VC_NOT_FOUND \<equiv> RC 44 0xEA"

record vchannel =
  vc_core :: vc_reception
  mapChannels :: "(u8, map_extraction) std_map"

definition mapDemultiplexing ::
  "nat \<Rightarrow> (bytes \<Rightarrow> nat) \<Rightarrow> ('q \<Rightarrow> store_address \<Rightarrow> retval \<times> 'q) \<Rightarrow> tc_frame \<Rightarrow> vchannel \<Rightarrow>
   'q tc_sink \<Rightarrow> (retval \<times> vchannel \<times> 'q tc_sink) option" where
  "mapDemultiplexing minSize fullSize qsend fr vch sink =
     (let mapId = getMAPId fr in
      case map_of (mapChannels vch) mapId of
        None \<Rightarrow> Some (VC_NOT_FOUND, vch, sink)
      | Some me \<Rightarrow>
          (case extractPackets minSize fullSize qsend fr me sink of
             None \<Rightarrow> None
           | Some (r, me', sink') \<Rightarrow>
               Some (r, vch\<lparr>mapChannels := map_assign mapId me' (mapChannels vch)\<rparr>, sink')))"

definition frameAcceptanceAndReportingMechanism ::
  "nat \<Rightarrow> (bytes \<Rightarrow> nat) \<Rightarrow> ('q \<Rightarrow> store_address \<Rightarrow> retval \<times> 'q) \<Rightarrow> tc_frame \<Rightarrow> vchannel \<Rightarrow>
   clcw \<Rightarrow> 'q tc_sink \<Rightarrow> (retval \<times> vchannel \<times> clcw \<times> 'q tc_sink) option" where
  "frameAcceptanceAndReportingMechanism minSize fullSize qsend fr vch clcw sink =
     (case doFARM fr (vc_core vch) of (result, vc) \<Rightarrow>
        (let ic = setFarmBCount (farmBCounter vc)
                    (setReceiverFrameSequenceNumber (vc_vR vc) (internalClcw vc));
             vch = vch\<lparr>vc_core := vc\<lparr>internalClcw := ic\<rparr>\<rparr>;
             clcw = setWhole (getAsWhole ic) clcw in
         if result = OK then
           (case mapDemultiplexing minSize fullSize qsend fr vch sink of
              None \<Rightarrow> None
            | Some (r, vch, sink) \<Rightarrow> Some (r, vch, clcw, sink))
         else if result = BC_IS_SET_VR_COMMAND \<or> result = BC_IS_UNLOCK_COMMAND then
           Some (OK, vch, clcw, sink)
         else Some (result, vch, clcw, sink)))"

definition addMapChannel :: "u8 \<Rightarrow> map_extraction \<Rightarrow> vchannel \<Rightarrow> retval \<times> vchannel" where
  "addMapChannel mapId me vch =
     (case map_insert mapId me (mapChannels vch) of (inserted, m) \<Rightarrow>
        (if inserted then OK else FAILED, vch\<lparr>mapChannels := m\<rparr>))"

text \<open>
  The loop initializes the channels in order until one fails. \<open>env\<close> says for every MAP channel what
  the object manager finds: the store and the queue of the destination.
\<close>

fun init_maps :: "(u8 \<Rightarrow> bool \<times> u32 option) \<Rightarrow> retval \<Rightarrow> (u8, map_extraction) std_map \<Rightarrow>
    retval \<times> (u8, map_extraction) std_map" where
  "init_maps env r [] = (r, [])"
| "init_maps env r ((k, me) # m) =
     (case me_initialize (fst (env k)) (snd (env k)) me of (r', me') \<Rightarrow>
        if r' \<noteq> OK then (r', (k, me') # m)
        else (case init_maps env r' m of (r'', m') \<Rightarrow> (r'', (k, me') # m')))"

definition vc_initialize :: "(u8 \<Rightarrow> bool \<times> u32 option) \<Rightarrow> vchannel \<Rightarrow> retval \<times> vchannel" where
  "vc_initialize env vch =
     (if slidingWindowWidth (vc_core vch) > 254 \<or> slidingWindowWidth (vc_core vch) mod 2 \<noteq> 0
      then (FAILED, vch)
      else (case init_maps env FAILED (mapChannels vch) of (r, m) \<Rightarrow> (r, vch\<lparr>mapChannels := m\<rparr>)))"

section \<open>The layer\<close>

abbreviation TOO_SHORT :: retval where "TOO_SHORT \<equiv> RC 44 0xE5"
abbreviation WRONG_TF_VERSION :: retval where "WRONG_TF_VERSION \<equiv> RC 44 0xE6"
abbreviation WRONG_SPACECRAFT_ID :: retval where "WRONG_SPACECRAFT_ID \<equiv> RC 44 0xE7"
abbreviation NO_VALID_FRAME_TYPE :: retval where "NO_VALID_FRAME_TYPE \<equiv> RC 44 0xE8"
abbreviation CRC_FAILED :: retval where "CRC_FAILED \<equiv> RC 44 0xE9"
abbreviation SHORTER_THAN_HEADER :: retval where "SHORTER_THAN_HEADER \<equiv> RC 44 0xD1"

abbreviation FRAME_VERSION_NUMBER_DEFAULT :: u8 where "FRAME_VERSION_NUMBER_DEFAULT \<equiv> 0"
abbreviation START_SEQUENCE_PATTERN :: u8 where "START_SEQUENCE_PATTERN \<equiv> 0"

text \<open>
  \<open>dll_memory\<close> is the memory that the frame buffer points into, \<open>frameBuffer\<close> the index it points
  to, \<open>currentFrame\<close> the index of the current frame.
\<close>

record dll =
  spacecraftId :: u16
  dll_memory :: bytes
  frameBuffer :: nat
  dll_clcw :: clcw
  receivedDataLength :: u16
  currentFrame :: "nat option"
  startSequenceLength :: u8
  virtualChannels :: "(u8, vchannel) std_map"

definition dll_new :: "bytes \<Rightarrow> clcw \<Rightarrow> u8 \<Rightarrow> u16 \<Rightarrow> dll" where
  "dll_new mem setClcw set_start_sequence_length set_scid =
     \<lparr>spacecraftId = set_scid, dll_memory = mem, frameBuffer = 0, dll_clcw = setClcw,
      receivedDataLength = 0, currentFrame = None,
      startSequenceLength = set_start_sequence_length, virtualChannels = []\<rparr>"

abbreviation dll_frame :: "dll \<Rightarrow> tc_frame" where
  "dll_frame d \<equiv> drop (the (currentFrame d)) (dll_memory d)"

text \<open>
  \<open>while (*frameBuffer == 0) frameBuffer++\<close>; \<open>None\<close> when the loop runs off the end of the memory.
\<close>

function skip_start :: "bytes \<Rightarrow> nat \<Rightarrow> nat option" where
  "skip_start mem i =
     (if i < length mem then
        (if mem ! i = START_SEQUENCE_PATTERN then skip_start mem (i + 1) else Some i)
      else None)"
  by pat_completeness auto
termination
  by (relation "measure (\<lambda>(mem, i). length mem - i)") auto

declare skip_start.simps [simp del]

definition frameDelimitingAndFillRemoval :: "dll \<Rightarrow> (retval \<times> dll) option" where
  "frameDelimitingAndFillRemoval d =
     (if uint (receivedDataLength d) - uint (startSequenceLength d) < 5
      then Some (SHORTER_THAN_HEADER, d)
      else (case skip_start (dll_memory d) (frameBuffer d) of
          None \<Rightarrow> None
        | Some i \<Rightarrow> Some (OK, d\<lparr>frameBuffer := i, currentFrame := Some i\<rparr>)))"

definition frameCheckCRC :: "dll \<Rightarrow> retval" where
  "frameCheckCRC d =
     (let checkValue = crc16ccitt (take (unat (getFullSize (dll_frame d))) (dll_frame d))
      in if checkValue = 0 then OK else CRC_FAILED)"

definition frameValidationCheck :: "dll \<Rightarrow> retval" where
  "frameValidationCheck d =
     (let fr = dll_frame d in
      if getVersionNumber fr \<noteq> FRAME_VERSION_NUMBER_DEFAULT then WRONG_TF_VERSION
      else if getSpacecraftId fr \<noteq> spacecraftId d then WRONG_SPACECRAFT_ID
      else if \<not> bypassFlagSet fr \<and> controlCommandFlagSet fr then NO_VALID_FRAME_TYPE
      else if \<not> spareIsZero fr then NO_VALID_FRAME_TYPE
      else if getFullSize fr > receivedDataLength d then TOO_SHORT
      else frameCheckCRC d)"

definition allFramesReception :: "dll \<Rightarrow> (retval \<times> dll) option" where
  "allFramesReception d =
     (case frameDelimitingAndFillRemoval d of
        None \<Rightarrow> None
      | Some (status, d) \<Rightarrow>
          if status \<noteq> OK then Some (status, d) else Some (frameValidationCheck d, d))"

definition virtualChannelDemultiplexing ::
  "nat \<Rightarrow> (bytes \<Rightarrow> nat) \<Rightarrow> ('q \<Rightarrow> store_address \<Rightarrow> retval \<times> 'q) \<Rightarrow> dll \<Rightarrow> 'q tc_sink \<Rightarrow>
   (retval \<times> dll \<times> 'q tc_sink) option" where
  "virtualChannelDemultiplexing minSize fullSize qsend d sink =
     (let vcId = getVirtualChannelId (dll_frame d) in
      case map_of (virtualChannels d) vcId of
        None \<Rightarrow> Some (OK, d, sink)
      | Some vch \<Rightarrow>
          (case frameAcceptanceAndReportingMechanism minSize fullSize qsend (dll_frame d) vch
                  (dll_clcw d) sink of
             None \<Rightarrow> None
           | Some (r, vch', clcw', sink') \<Rightarrow>
               Some (r, d\<lparr>virtualChannels := map_assign vcId vch' (virtualChannels d),
                         dll_clcw := clcw'\<rparr>, sink')))"

definition masterChannelDemultiplexing ::
  "nat \<Rightarrow> (bytes \<Rightarrow> nat) \<Rightarrow> ('q \<Rightarrow> store_address \<Rightarrow> retval \<times> 'q) \<Rightarrow> dll \<Rightarrow> 'q tc_sink \<Rightarrow>
   (retval \<times> dll \<times> 'q tc_sink) option" where
  "masterChannelDemultiplexing = virtualChannelDemultiplexing"

definition processFrame ::
  "nat \<Rightarrow> (bytes \<Rightarrow> nat) \<Rightarrow> ('q \<Rightarrow> store_address \<Rightarrow> retval \<times> 'q) \<Rightarrow> u16 \<Rightarrow> dll \<Rightarrow> 'q tc_sink \<Rightarrow>
   (retval \<times> dll \<times> 'q tc_sink) option" where
  "processFrame minSize fullSize qsend len d sink =
     (case allFramesReception (d\<lparr>receivedDataLength := len\<rparr>) of
        None \<Rightarrow> None
      | Some (status, d) \<Rightarrow>
          if status \<noteq> OK then Some (status, d, sink)
          else masterChannelDemultiplexing minSize fullSize qsend d sink)"

definition addVirtualChannel :: "u8 \<Rightarrow> vchannel \<Rightarrow> dll \<Rightarrow> retval \<times> dll" where
  "addVirtualChannel virtualChannelId vch d =
     (case map_insert virtualChannelId vch (virtualChannels d) of (inserted, m) \<Rightarrow>
        (if inserted then OK else FAILED, d\<lparr>virtualChannels := m\<rparr>))"

fun init_vcs :: "(u8 \<Rightarrow> u8 \<Rightarrow> bool \<times> u32 option) \<Rightarrow> retval \<Rightarrow> (u8, vchannel) std_map \<Rightarrow>
    retval \<times> (u8, vchannel) std_map" where
  "init_vcs env r [] = (r, [])"
| "init_vcs env r ((k, vch) # m) =
     (case vc_initialize (env k) vch of (r', vch') \<Rightarrow>
        if r' \<noteq> OK then (r', (k, vch') # m)
        else (case init_vcs env r' m of (r'', m') \<Rightarrow> (r'', (k, vch') # m')))"

definition dll_initialize :: "(u8 \<Rightarrow> u8 \<Rightarrow> bool \<times> u32 option) \<Rightarrow> dll \<Rightarrow> retval \<times> dll" where
  "dll_initialize env d =
     (case virtualChannels d of
        [] \<Rightarrow> (FAILED, d)
      | (k, vch) # m \<Rightarrow>
          (let d = d\<lparr>dll_clcw := setVirtualChannel (channelId (vc_core vch)) (dll_clcw d)\<rparr> in
           case init_vcs env FAILED (virtualChannels d) of (r, vcs) \<Rightarrow>
             (r, d\<lparr>virtualChannels := vcs\<rparr>)))"

section \<open>Lemmas\<close>

lemma setWhole_getAsWhole [simp]: "setWhole (getAsWhole c) c' = c"
proof -
  have "ucast (getAsWhole c) = clcw_status c" "ucast (drop_bit 8 (getAsWhole c)) = virtualChannelIdSpare c"
    "ucast (drop_bit 16 (getAsWhole c)) = clcw_flags c" "ucast (drop_bit 24 (getAsWhole c)) = vRValue c"
    by (rule byte_eqI, auto simp: getAsWhole_def bit_simps dest: bit_imp_le_length)+
  then show ?thesis by (simp add: setWhole_def)
qed

lemma bit_setFarmBCount:
  "bit (clcw_flags (setFarmBCount b c)) n =
     (if n = 1 then bit b 0 else if n = 2 then bit b 1 else bit (clcw_flags c) n)"
proof (cases "n < 8")
  case True
  have "clcw_flags (setFarmBCount b c) = (clcw_flags c AND 0b11111001) OR push_bit 1 (b AND 0x03)"
    by (simp add: setFarmBCount_def)
  moreover have "bit ((clcw_flags c AND 0b11111001) OR push_bit 1 (b AND 0x03)) n \<longleftrightarrow>
      bit (clcw_flags c) n \<and> bit (0b11111001 :: u8) n \<or> 1 \<le> n \<and> bit b (n - 1) \<and> bit (3 :: u8) (n - 1)"
    using True by (auto simp only: bit_or_iff bit_and_iff bit_push_bit_iff possible_bit_word len_num1 len_num0 len_bit0 mult_2)
  ultimately have "bit (clcw_flags (setFarmBCount b c)) n \<longleftrightarrow>
      bit (clcw_flags c) n \<and> bit (0b11111001 :: u8) n \<or> 1 \<le> n \<and> bit b (n - 1) \<and> bit (3 :: u8) (n - 1)"
    by (simp only:)
  then show ?thesis using True by (simp only:) (erule byte_bit_cases, simp_all)
next
  case False
  then show ?thesis by (auto dest: bit_imp_le_length)
qed

lemma take_trailer:
  assumes "2 \<le> n" and "n \<le> length xs"
  shows "take n xs = take (n - 2) xs @ [xs ! (n - 2), xs ! (n - 1)]"
proof -
  obtain k where n: "n = Suc (Suc k)" using assms(1) by (metis add_2_eq_Suc le_Suc_ex)
  with assms(2) have "take n xs = take k xs @ [xs ! k] @ [xs ! Suc k]"
    by (simp add: take_Suc_conv_app_nth)
  then show ?thesis by (simp add: n)
qed

text \<open>The header accessors read the first four bytes only.\<close>

lemma header_prefix:
  assumes "4 \<le> length pre"
  shows "getVersionNumber (pre @ xs) = getVersionNumber pre"
    "getSpacecraftId (pre @ xs) = getSpacecraftId pre" "bypassFlagSet (pre @ xs) = bypassFlagSet pre"
    "controlCommandFlagSet (pre @ xs) = controlCommandFlagSet pre"
    "spareIsZero (pre @ xs) = spareIsZero pre" "getFullSize (pre @ xs) = getFullSize pre"
proof -
  have "0 < length pre" "1 < length pre" "2 < length pre" "3 < length pre" using assms by linarith+
  note h = this [THEN nth_append_left]
  show "getVersionNumber (pre @ xs) = getVersionNumber pre"
    "getSpacecraftId (pre @ xs) = getSpacecraftId pre" "bypassFlagSet (pre @ xs) = bypassFlagSet pre"
    "controlCommandFlagSet (pre @ xs) = controlCommandFlagSet pre"
    "spareIsZero (pre @ xs) = spareIsZero pre" "getFullSize (pre @ xs) = getFullSize pre"
    unfolding getVersionNumber_def getSpacecraftId_def bypassFlagSet_def
      controlCommandFlagSet_def spareIsZero_def getFullSize_def getFrameLength_def
    by (simp_all only: h)
qed

lemma skip_start_spec:
  "skip_start mem i = Some j \<Longrightarrow> i \<le> j \<and> j < length mem \<and> mem ! j \<noteq> 0 \<and> (\<forall>k. i \<le> k \<and> k < j \<longrightarrow> mem ! k = 0)"
proof (induction mem i rule: skip_start.induct)
  case (1 mem i)
  from "1.prems" have l: "i < length mem" by (subst (asm) skip_start.simps) (simp split: if_splits)
  show ?case
  proof (cases "mem ! i = 0")
    case True
    then have "skip_start mem (i + 1) = Some j" using "1.prems" l by (subst (asm) skip_start.simps) simp
    with "1.IH" l True have "i + 1 \<le> j \<and> j < length mem \<and> mem ! j \<noteq> 0 \<and>
        (\<forall>k. i + 1 \<le> k \<and> k < j \<longrightarrow> mem ! k = 0)" by simp
    with True show ?thesis by (metis Suc_eq_plus1 Suc_leD le_neq_implies_less Suc_leI)
  next
    case False
    with "1.prems" l have "j = i" by (subst (asm) skip_start.simps) simp
    with l False show ?thesis by auto
  qed
qed

lemma acceptance_core:
  assumes "frameAcceptanceAndReportingMechanism minSize fullSize qsend fr vch c sink =
      Some (r, vch', c', sink')"
  shows "c' = internalClcw (vc_core vch')"
    and "\<exists>vc. vc = snd (doFARM fr (vc_core vch)) \<and> vc_core vch' = vc\<lparr>internalClcw :=
      setFarmBCount (farmBCounter vc) (setReceiverFrameSequenceNumber (vc_vR vc) (internalClcw vc))\<rparr>"
  using assms
  by (auto simp: frameAcceptanceAndReportingMechanism_def mapDemultiplexing_def Let_def
    split: prod.splits if_splits option.splits)

section \<open>Properties\<close>

text \<open>
  C27: frame validation. A received frame that is in memory is passed on exactly when its version is
  0, it carries the spacecraft's identifier, it is not a control command without bypass, its spare
  bits are zero, it is not longer than the received data, and its last two bytes are the CRC of the
  bytes before them.
\<close>

theorem frame_validation_iff:
  assumes "fr = dll_frame d" and "2 \<le> unat (getFullSize fr)" and "unat (getFullSize fr) \<le> length fr"
  shows "frameValidationCheck d = OK \<longleftrightarrow>
    getVersionNumber fr = 0 \<and> getSpacecraftId fr = spacecraftId d \<and>
    (controlCommandFlagSet fr \<longrightarrow> bypassFlagSet fr) \<and> spareIsZero fr \<and>
    getFullSize fr \<le> receivedDataLength d \<and>
    be16 (fr ! (unat (getFullSize fr) - 2)) (fr ! (unat (getFullSize fr) - 1)) =
      crc16ccitt (take (unat (getFullSize fr) - 2) fr)"
proof -
  have "crc16ccitt (take (unat (getFullSize fr)) fr) = 0 \<longleftrightarrow>
      be16 (fr ! (unat (getFullSize fr) - 2)) (fr ! (unat (getFullSize fr) - 1)) =
        crc16ccitt (take (unat (getFullSize fr) - 2) fr)"
    unfolding take_trailer [OF assms(2,3)] by (rule crc_trailer_iff)
  then show ?thesis
    unfolding frameValidationCheck_def frameCheckCRC_def Let_def assms(1) [symmetric]
    by (auto simp: not_less)
qed

theorem frame_validation_iff_witness:
  "frameValidationCheck (dll_new [0x20, 5, 0, 8, 0, 0xC0, 1, 0xAF, 0xAA] clcw_new 0 5
     \<lparr>receivedDataLength := 9, currentFrame := Some 0\<rparr>) \<noteq> OK"
proof -
  let ?d = "dll_new [0x20, 5, 0, 8, 0, 0xC0, 1, 0xAF, 0xAA] clcw_new 0 5
     \<lparr>receivedDataLength := 9, currentFrame := Some 0\<rparr>"
  have f: "dll_frame ?d = [0x20, 5, 0, 8, 0, 0xC0, 1, 0xAF, 0xAA]" by (simp add: dll_new_def)
  have g: "unat (getFullSize [0x20, 5, 0, 8, 0, 0xC0, 1, 0xAF, 0xAA]) = 9" by code_simp
  have c: "be16 0xAF 0xAA \<noteq> crc16ccitt [0x20, 5, 0, 8, 0, 0xC0, 1]" by code_simp
  show ?thesis using frame_validation_iff [OF f [symmetric]] c by (simp add: g)
qed

text \<open>
  Error detection on the link. When a frame is valid and two adjacent bytes behind its length
  field are received differently, the frame is refused with \<open>CRC_FAILED\<close>.
\<close>

theorem corrupted_frame_is_refused:
  assumes "frameValidationCheck d = OK" and "dll_frame d = pre @ [a1, a2] @ post"
    and "dll_frame d' = pre @ [b1, b2] @ post" and "(b1, b2) \<noteq> (a1, a2)"
    and "4 \<le> length pre" and "length pre + 2 \<le> unat (getFullSize (dll_frame d))"
    and "spacecraftId d' = spacecraftId d" and "receivedDataLength d' = receivedDataLength d"
  shows "frameValidationCheck d' = CRC_FAILED"
proof -
  let ?n = "unat (getFullSize pre)"
  note h = header_prefix [OF assms(5)]
  have t: "take ?n (pre @ [x, y] @ post) = pre @ [x, y] @ take (?n - length pre - 2) post" for x y
    using assms(6) unfolding assms(2) h by (simp add: take_Cons')
  have ok: "crc16ccitt (pre @ [a1, a2] @ take (?n - length pre - 2) post) = 0"
    using assms(1) unfolding frameValidationCheck_def frameCheckCRC_def Let_def assms(2) h t
    by (simp split: if_splits)
  then have "crc16ccitt (pre @ [b1, b2] @ take (?n - length pre - 2) post) \<noteq> 0"
    using crc_burst_iff [of pre a1 a2 "take (?n - length pre - 2) post" b1 b2] assms(4) by auto
  then show ?thesis
    using assms(1) unfolding frameValidationCheck_def frameCheckCRC_def Let_def assms(2,3,7,8) h t
    by (simp split: if_splits)
qed

theorem corrupted_frame_is_refused_witness:
  "frameValidationCheck (dll_new [0x20, 5, 0, 8, 0, 0xC0, 2, 0x5F, 0x8F] clcw_new 0 5
     \<lparr>receivedDataLength := 9, currentFrame := Some 0\<rparr>) = CRC_FAILED"
proof (rule corrupted_frame_is_refused)
  let ?d = "dll_new [0x20, 5, 0, 8, 0, 0xC0, 1, 0x5F, 0x8F] clcw_new 0 5
     \<lparr>receivedDataLength := 9, currentFrame := Some 0\<rparr>"
  show "frameValidationCheck ?d = OK" by code_simp
  show "dll_frame ?d = [0x20, 5, 0, 8, 0, 0xC0] @ [1, 0x5F] @ [0x8F]" by (simp add: dll_new_def)
  have "unat (getFullSize [0x20, 5, 0, 8, 0, 0xC0, 1, 0x5F, 0x8F]) = 9" by code_simp
  then show "length [0x20 :: u8, 5, 0, 8, 0, 0xC0] + 2 \<le> unat (getFullSize (dll_frame ?d))"
    by (simp add: dll_new_def)
  show "(2 :: u8, 0x5F :: u8) \<noteq> (1, 0x5F)" by code_simp
qed (simp_all add: dll_new_def)

text \<open>
  The report to the ground. After every frame given to a virtual channel whose flags agree with
  its state, the control word handed out carries V(R), the two low bits of the FARM-B counter, the
  lockout flag exactly in the lockout state and the wait flag according to the state, and the
  channel is left with agreeing flags.
\<close>

theorem control_word_reports_state:
  assumes "flags_agree (vc_core vch)"
    and "frameAcceptanceAndReportingMechanism minSize fullSize qsend fr vch c sink =
      Some (r, vch', c', sink')"
  shows "vRValue c' = vc_vR (vc_core vch') \<and>
    (bit (clcw_flags c') 1 \<longleftrightarrow> bit (farmBCounter (vc_core vch')) 0) \<and>
    (bit (clcw_flags c') 2 \<longleftrightarrow> bit (farmBCounter (vc_core vch')) 1) \<and>
    (bit (clcw_flags c') 5 \<longleftrightarrow> currentState (vc_core vch') = Lockout) \<and>
    (currentState (vc_core vch') = Wait \<longrightarrow> bit (clcw_flags c') 4) \<and>
    flags_agree (vc_core vch')"
proof -
  obtain vc where vc: "vc = snd (doFARM fr (vc_core vch))"
    and core: "vc_core vch' = vc\<lparr>internalClcw :=
      setFarmBCount (farmBCounter vc) (setReceiverFrameSequenceNumber (vc_vR vc) (internalClcw vc))\<rparr>"
    using acceptance_core(2) [OF assms(2)] by auto
  have "flags_agree vc" unfolding vc by (rule doFARM_flags_agree [OF assms(1)])
  moreover have "vRValue (setFarmBCount b k) = vRValue k" for b k by (simp add: setFarmBCount_def)
  ultimately show ?thesis
    by (simp add: acceptance_core(1) [OF assms(2)] core flags_agree_def bit_setFarmBCount
      setReceiverFrameSequenceNumber_def)
qed

theorem control_word_reports_state_witness:
  "bit (clcw_flags (fst (snd (snd (the (frameAcceptanceAndReportingMechanism 6 length (\<lambda>q a. (OK, q))
      [0, 0, 0, 8, 99, 0, 0, 0, 0] \<lparr>vc_core = vc_new 0 10, mapChannels = []\<rparr> clcw_new
      \<lparr>sink_store = pool_init [(2, 8)] False, sink_queue = ()\<rparr>)))))) 5"
proof -
  let ?fr = "[0, 0, 0, 8, 99, 0, 0, 0, 0] :: tc_frame" and ?vch = "\<lparr>vc_core = vc_new 0 10, mapChannels = []\<rparr>"
  let ?sink = "\<lparr>sink_store = pool_init [(2, 8)] False, sink_queue = ()\<rparr>"
  have f: "flags_agree (vc_core ?vch)" using reachable_flags_agree [OF vc_reachable.start] by simp
  have l: "fst (doFARM ?fr (vc_new 0 10)) = NS_LOCKOUT" by code_simp
  then obtain vch' c' where e: "frameAcceptanceAndReportingMechanism 6 length (\<lambda>q a. (OK, q)) ?fr ?vch
      clcw_new ?sink = Some (NS_LOCKOUT, vch', c', ?sink)"
    by (simp add: frameAcceptanceAndReportingMechanism_def case_prod_unfold Let_def)
  have "currentState (snd (doFARM ?fr (vc_new 0 10))) = Lockout" by code_simp
  then have "currentState (vc_core vch') = Lockout" using acceptance_core(2) [OF e] by auto
  with control_word_reports_state [OF f e] e show ?thesis by simp
qed

text \<open>
  The removal of the start sequence. A frame whose first byte is 0, that is every AD frame of a
  spacecraft with an identifier below 256, is not examined where it was placed: the frame pointer
  moves past all leading zero bytes, and it stays there for the next frame.
\<close>

theorem leading_zero_bytes_are_skipped:
  assumes "frameDelimitingAndFillRemoval d = Some (OK, d')" and "dll_memory d ! frameBuffer d = 0"
  shows "frameBuffer d < frameBuffer d' \<and> currentFrame d' = Some (frameBuffer d') \<and>
    dll_memory d' ! frameBuffer d' \<noteq> 0 \<and>
    (\<forall>k. frameBuffer d \<le> k \<and> k < frameBuffer d' \<longrightarrow> dll_memory d ! k = 0)"
proof -
  obtain i where i: "skip_start (dll_memory d) (frameBuffer d) = Some i"
      "d' = d\<lparr>frameBuffer := i, currentFrame := Some i\<rparr>"
    using assms(1) by (auto simp: frameDelimitingAndFillRemoval_def split: if_splits option.splits)
  with skip_start_spec [OF i(1)] assms(2) show ?thesis by (auto simp: le_less)
qed

theorem leading_zero_bytes_are_skipped_witness:
  "frameBuffer (snd (the (frameDelimitingAndFillRemoval
     ((dll_new [0, 5, 0, 8, 0, 0xC0, 1, 0, 0] clcw_new 0 5)\<lparr>receivedDataLength := 9\<rparr>)))) \<noteq> 0"
proof -
  let ?d = "(dll_new [0, 5, 0, 8, 0, 0xC0, 1, 0, 0] clcw_new 0 5)\<lparr>receivedDataLength := 9\<rparr>"
  have "frameDelimitingAndFillRemoval ?d = Some (OK, ?d\<lparr>frameBuffer := 1, currentFrame := Some 1\<rparr>)"
    by (simp add: frameDelimitingAndFillRemoval_def dll_new_def skip_start.simps)
  from leading_zero_bytes_are_skipped [OF this] this show ?thesis by (simp add: dll_new_def)
qed

end
