(* ===== verification/Array_List.thy ===== *)
theory Array_List
  imports Fsfw_Prelude
begin

text \<open>
  The bounded list over an array, \<open>src/src/fsfw/container/ArrayList.h\<close>.
\<close>

section \<open>State and operations\<close>

record 'a array_list =
  al_entries :: "'a list"
  al_size :: nat
  al_maxSize :: nat

abbreviation LIST_FULL :: retval where "LIST_FULL \<equiv> RC 17 1"

definition al_insert :: "'a \<Rightarrow> 'a array_list \<Rightarrow> retval \<times> 'a array_list" where
  "al_insert entry l =
     (if al_size l \<ge> al_maxSize l then (LIST_FULL, l)
      else (OK, l\<lparr>al_entries := (al_entries l)[al_size l := entry], al_size := al_size l + 1\<rparr>))"

definition al_clear :: "'a array_list \<Rightarrow> 'a array_list" where
  "al_clear l = l\<lparr>al_size := 0\<rparr>"

definition al_remaining :: "'a array_list \<Rightarrow> nat" where
  "al_remaining l = al_maxSize l - al_size l"

text \<open>
  The entries in use; an insertion appends to them until the list is full.
\<close>

definition al_list :: "'a array_list \<Rightarrow> 'a list" where
  "al_list l = take (al_size l) (al_entries l)"

lemma al_insert_appends:
  assumes "al_maxSize l \<le> length (al_entries l)" and "al_size l \<le> al_maxSize l"
  shows "al_insert x l = (if al_remaining l = 0 then (LIST_FULL, l) else (OK, snd (al_insert x l)))"
    and "al_remaining l \<noteq> 0 \<Longrightarrow> al_list (snd (al_insert x l)) = al_list l @ [x]"
  using assms by (auto simp: al_insert_def al_remaining_def al_list_def take_Suc_conv_app_nth)

end
