(* ===== verification/Serialize.thy ===== *)
theory Serialize
  imports Array_List
begin

text \<open>
  The serialization layer \<open>src/src/fsfw/serialize\<close>: integers in both byte orders
  (\<open>SerializeAdapter.h\<close>, \<open>EndianConverter.h\<close>), length-prefixed buffers (\<open>SerialBufferAdapter.cpp\<close>),
  array lists (\<open>SerialArrayListAdapter.h\<close>) and linked lists of serializable objects
  (\<open>SerialLinkedListAdapter.h\<close>). The contract of \<open>SerializeIF\<close> is the locale \<open>codec\<close>.

  The machine is little-endian. A sink is the bytes written through the moving buffer pointer and
  the value of \<open>*size\<close>; a source is the bytes from the buffer pointer on and the value of \<open>*size\<close>.
\<close>

section \<open>Byte order\<close>

datatype Endianness = BIG | LITTLE | MACHINE

abbreviation BUFFER_TOO_SHORT :: retval where "BUFFER_TOO_SHORT \<equiv> RC 20 1"
abbreviation SER_STREAM_TOO_SHORT :: retval where "SER_STREAM_TOO_SHORT \<equiv> RC 20 2"
abbreviation TOO_MANY_ELEMENTS :: retval where "TOO_MANY_ELEMENTS \<equiv> RC 20 3"

type_synonym sink = "bytes \<times> nat"
type_synonym source = "bytes \<times> nat"

text \<open>\<open>sizeof(T)\<close> and the bytes of a variable in memory.\<close>

definition sizeof :: "'a::len word \<Rightarrow> nat" where
  "sizeof w = LENGTH('a) div 8"

definition mem_image :: "'a::len word \<Rightarrow> bytes" where
  "mem_image w = map (\<lambda>k. ucast (drop_bit (8 * k) w)) [0..<sizeof w]"

fun from_image :: "bytes \<Rightarrow> 'a::len word" where
  "from_image [] = 0"
| "from_image (b # bs) = ucast b OR push_bit 8 (from_image bs)"

text \<open>Both conversions work on the memory image of the variable.\<close>

definition convertBigEndian :: "bytes \<Rightarrow> bytes" where
  "convertBigEndian img = rev img"

definition convertLittleEndian :: "bytes \<Rightarrow> bytes" where
  "convertLittleEndian img = img"

fun convertStream :: "Endianness \<Rightarrow> bytes \<Rightarrow> bytes" where
  "convertStream BIG img = convertBigEndian img"
| "convertStream LITTLE img = convertLittleEndian img"
| "convertStream MACHINE img = img"

section \<open>Integers\<close>

definition ser_word :: "Endianness \<Rightarrow> 'a::len word \<Rightarrow> sink \<Rightarrow> nat \<Rightarrow> retval \<times> sink" where
  "ser_word e obj snk maxSize =
     (let newSize = sizeof obj + snd snk in
      if newSize \<le> maxSize \<and> newSize > snd snk then
        (OK, fst snk @ convertStream e (mem_image obj), newSize)
      else (BUFFER_TOO_SHORT, snk))"

definition deser_word :: "Endianness \<Rightarrow> source \<Rightarrow> retval \<times> 'a::len word option \<times> source" where
  "deser_word e src =
     (let n = sizeof (0 :: 'a word) in
      if snd src \<ge> n then
        (OK, Some (from_image (convertStream e (take n (fst src)))), drop n (fst src), snd src - n)
      else (SER_STREAM_TOO_SHORT, None, src))"

text \<open>
  The variant without a moving buffer pointer reads without a bound: it passes the largest
  \<open>size_t\<close>.
\<close>

definition deser_word_unbounded :: "Endianness \<Rightarrow> bytes \<Rightarrow> retval \<times> 'a::len word option" where
  "deser_word_unbounded e buf =
     (case deser_word e (buf, 2 ^ 64 - 1) of (r, v, src) \<Rightarrow> (r, v))"

subsection \<open>Facts on images\<close>

lemma length_mem_image [simp]: "length (mem_image w) = sizeof w"
  by (simp add: mem_image_def)

lemma length_convertStream [simp]: "length (convertStream e xs) = length xs"
  by (cases e) (simp_all add: convertBigEndian_def convertLittleEndian_def)

lemma convertStream_involution [simp]: "convertStream e (convertStream e xs) = xs"
  by (cases e) (simp_all add: convertBigEndian_def convertLittleEndian_def)

lemma bit_from_image:
  "bit (from_image bs :: 'a::len word) n \<longleftrightarrow>
     n < LENGTH('a) \<and> n div 8 < length bs \<and> bit (bs ! (n div 8)) (n mod 8)"
proof (induction bs arbitrary: n)
  case (Cons b bs)
  show ?case
  proof (cases "n < 8")
    case True
    then show ?thesis by (auto simp: bit_simps)
  next
    case False
    then obtain m where m: "n = m + 8" by (metis add.commute le_Suc_ex not_less)
    have "(m + 8) div 8 = Suc (m div 8)" by simp
    moreover have "\<not> bit b (m + 8)" by (auto dest: bit_imp_le_length)
    ultimately show ?thesis using Cons.IH [of m] by (auto simp: m bit_simps)
  qed
qed simp

lemma from_image_mem_image [simp]:
  assumes "8 dvd LENGTH('a)"
  shows "from_image (mem_image (w :: 'a::len word)) = w"
proof (rule bit_word_eqI)
  fix n :: nat
  assume n: "n < LENGTH('a)"
  with assms have d: "n div 8 < LENGTH('a) div 8" by (auto elim!: dvdE)
  moreover have "bit (ucast (drop_bit (8 * (n div 8)) w) :: u8) (n mod 8) = bit w n"
    by (simp add: bit_simps)
  ultimately show "bit (from_image (mem_image w) :: 'a word) n = bit w n"
    using n by (simp add: bit_from_image mem_image_def sizeof_def)
qed

lemma mem_image_from_image:
  assumes "length bs = LENGTH('a) div 8"
  shows "mem_image (from_image bs :: 'a::len word) = bs"
proof (rule nth_equalityI)
  show "length (mem_image (from_image bs :: 'a word)) = length bs" using assms by (simp add: sizeof_def)
  fix i
  assume "i < length (mem_image (from_image bs :: 'a word))"
  then have i: "i < LENGTH('a) div 8" by (simp add: sizeof_def)
  show "mem_image (from_image bs :: 'a word) ! i = bs ! i"
  proof (rule byte_eqI)
    fix n :: nat
    assume n: "n < 8"
    with i have "8 * i + n < LENGTH('a)" by (simp add: less_mult_imp_div_less mult.commute)
    then show "bit (mem_image (from_image bs :: 'a word) ! i) n = bit (bs ! i) n"
      using n i assms by (simp add: mem_image_def sizeof_def bit_simps bit_from_image)
  qed
qed

section \<open>Loops over objects\<close>

text \<open>
  \<open>while ((result == OK) && (i < size)) result = serialize(entries[i++], ...)\<close>, for an element type
  with the serialization \<open>ser\<close>; the linked list walks its elements with the same loop.
\<close>

fun ser_loop :: "('a \<Rightarrow> sink \<Rightarrow> nat \<Rightarrow> retval \<times> sink) \<Rightarrow> 'a list \<Rightarrow> sink \<Rightarrow> nat \<Rightarrow> retval \<times> sink" where
  "ser_loop ser [] snk m = (OK, snk)"
| "ser_loop ser (x # xs) snk m =
     (case ser x snk m of (r, snk') \<Rightarrow> if r = OK then ser_loop ser xs snk' m else (r, snk'))"

fun deser_loop :: "(source \<Rightarrow> retval \<times> 'a option \<times> source) \<Rightarrow> nat \<Rightarrow> source \<Rightarrow> retval \<times> 'a list \<times> source" where
  "deser_loop deser 0 src = (OK, [], src)"
| "deser_loop deser (Suc k) src =
     (case deser src of (r, x, src') \<Rightarrow>
        if r = OK then
          (case deser_loop deser k src' of (r', xs, src'') \<Rightarrow> (r', the x # xs, src''))
        else (r, [], src'))"

section \<open>The contract\<close>

text \<open>
  What \<open>SerializeIF\<close> promises: serializing appends the object's encoding when it fits below
  \<open>maxSize\<close> and reports an error otherwise, without going past \<open>maxSize\<close>; deserializing an encoding
  returns the object and consumes exactly its bytes, and a shorter stream is an error.
\<close>

locale codec =
  fixes enc :: "'a \<Rightarrow> bytes"
    and ser :: "'a \<Rightarrow> sink \<Rightarrow> nat \<Rightarrow> retval \<times> sink"
    and deser :: "source \<Rightarrow> retval \<times> 'a option \<times> source"
    and valid :: "'a \<Rightarrow> bool"
  assumes ser_fits: "n + length (enc x) \<le> m \<Longrightarrow>
      ser x (out, n) m = (OK, out @ enc x, n + length (enc x))"
    and ser_short: "m < n + length (enc x) \<Longrightarrow> fst (ser x (out, n) m) \<noteq> OK"
    and ser_bound: "n \<le> m \<Longrightarrow> snd (snd (ser x (out, n) m)) \<le> m"
    and deser_enc: "valid x \<Longrightarrow> length (enc x) \<le> n \<Longrightarrow>
      deser (enc x @ rest, n) = (OK, Some x, rest, n - length (enc x))"
begin

lemma ser_OK_iff: "fst (ser x (out, n) m) = OK \<longleftrightarrow> n + length (enc x) \<le> m"
  using ser_fits ser_short by (metis fst_conv not_le)

lemma roundtrip:
  assumes "valid x" and "ser x (out, n) m = (OK, out', n')"
  shows "\<exists>e. out' = out @ e \<and> n' = n + length e \<and>
    deser (e @ rest, length e + k) = (OK, Some x, rest, k)"
proof -
  have "n + length (enc x) \<le> m" using assms(2) ser_OK_iff [of x out n m] by simp
  from ser_fits [OF this, of out] assms show ?thesis using deser_enc [OF assms(1)] by auto
qed

lemma ser_all_fits:
  "n + length (concat (map enc xs)) \<le> m \<Longrightarrow>
   ser_loop ser xs (out, n) m = (OK, out @ concat (map enc xs), n + length (concat (map enc xs)))"
  by (induction xs arbitrary: out n) (auto simp: ser_fits add.assoc)

lemma ser_all_short:
  "n \<le> m \<Longrightarrow> m < n + length (concat (map enc xs)) \<Longrightarrow> fst (ser_loop ser xs (out, n) m) \<noteq> OK"
proof (induction xs arbitrary: out n)
  case (Cons x xs)
  show ?case
  proof (cases "n + length (enc x) \<le> m")
    case True
    then have s: "ser x (out, n) m = (OK, out @ enc x, n + length (enc x))" by (rule ser_fits)
    have "fst (ser_loop ser xs (out @ enc x, n + length (enc x)) m) \<noteq> OK"
      using Cons.prems True by (intro Cons.IH) simp_all
    with s show ?thesis by simp
  next
    case False
    then have "fst (ser x (out, n) m) \<noteq> OK" by (intro ser_short) simp
    then show ?thesis by (auto split: prod.splits)
  qed
qed simp

lemma ser_all_bound: "n \<le> m \<Longrightarrow> snd (snd (ser_loop ser xs (out, n) m)) \<le> m"
proof (induction xs arbitrary: out n)
  case (Cons x xs)
  obtain r out' n' where s: "ser x (out, n) m = (r, out', n')" by (cases "ser x (out, n) m") auto
  with ser_bound [OF Cons.prems, of x out] have "n' \<le> m" by simp
  with Cons.IH s show ?case by simp
qed simp

lemma deser_all_enc:
  "list_all valid xs \<Longrightarrow> length (concat (map enc xs)) \<le> n \<Longrightarrow>
   deser_loop deser (length xs) (concat (map enc xs) @ rest, n) =
     (OK, xs, rest, n - length (concat (map enc xs)))"
  by (induction xs arbitrary: n) (auto simp: deser_enc)

end

section \<open>Integers fulfil the contract\<close>

abbreviation enc_word :: "Endianness \<Rightarrow> 'a::len word \<Rightarrow> bytes" where
  "enc_word e w \<equiv> convertStream e (mem_image w)"

lemma word_codec:
  assumes "8 dvd LENGTH('a)"
  shows "codec (enc_word e) (ser_word e) (deser_word e) (\<lambda>w :: 'a::len word. True)"
proof -
  have p: "0 < sizeof (w :: 'a word)" for w
    using dvd_imp_le [OF assms] by (simp add: sizeof_def div_greater_zero_iff)
  have s: "sizeof w = sizeof (0 :: 'a word)" for w :: "'a word" by (simp add: sizeof_def)
  show ?thesis
  proof
    fix w :: "'a word" and n rest
    assume "length (enc_word e w) \<le> n"
    then show "deser_word e (enc_word e w @ rest, n) = (OK, Some w, rest, n - length (enc_word e w))"
      using s [of w] by (simp add: deser_word_def Let_def from_image_mem_image [OF assms])
  qed (use p in \<open>simp_all add: ser_word_def Let_def add.commute\<close>)
qed

lemma ser_word_fits:
  fixes w :: "'a::len word"
  assumes "8 dvd LENGTH('a)" and "n + length (enc_word e w) \<le> m"
  shows "ser_word e w (out, n) m = (OK, out @ enc_word e w, n + length (enc_word e w))"
  by (rule codec.ser_fits [OF word_codec [OF assms(1)] assms(2)])

lemma ser_word_OK_iff:
  fixes w :: "'a::len word"
  assumes "8 dvd LENGTH('a)"
  shows "fst (ser_word e w (out, n) m) = OK \<longleftrightarrow> n + length (enc_word e w) \<le> m"
  by (rule codec.ser_OK_iff [OF word_codec [OF assms]])

lemma deser_word_enc:
  fixes w :: "'a::len word"
  assumes "8 dvd LENGTH('a)" and "length (enc_word e w) \<le> n"
  shows "deser_word e (enc_word e w @ rest, n) = (OK, Some w, rest, n - length (enc_word e w))"
  by (rule codec.deser_enc [OF word_codec [OF assms(1)] _ assms(2)]) simp

lemma deser_word_unbounded_enc:
  fixes w :: "'a::len word"
  assumes "8 dvd LENGTH('a)" and "LENGTH('a) < 2 ^ 64"
  shows "deser_word_unbounded e (enc_word e w @ rest) = (OK, Some w)"
proof -
  have "LENGTH('a) div 8 \<le> LENGTH('a)" by (rule div_le_dividend)
  with assms(2) have "length (enc_word e w) \<le> 2 ^ 64 - 1"
    by (simp only: length_convertStream length_mem_image sizeof_def)
  from deser_word_enc [OF assms(1) this] show ?thesis
    by (simp only: deser_word_unbounded_def prod.case)
qed

interpretation ser_u8: codec "enc_word e" "ser_word e" "deser_word e" "\<lambda>w :: u8. True" for e
  by (rule word_codec) simp

interpretation ser_u16: codec "enc_word e" "ser_word e" "deser_word e" "\<lambda>w :: u16. True" for e
  by (rule word_codec) simp

interpretation ser_u32: codec "enc_word e" "ser_word e" "deser_word e" "\<lambda>w :: u32. True" for e
  by (rule word_codec) simp

interpretation ser_u64: codec "enc_word e" "ser_word e" "deser_word e" "\<lambda>w :: u64. True" for e
  by (rule word_codec) simp

text \<open>Two objects one after the other, and the contract they inherit.\<close>

definition ser_pair ::
  "('a \<Rightarrow> sink \<Rightarrow> nat \<Rightarrow> retval \<times> sink) \<Rightarrow> ('b \<Rightarrow> sink \<Rightarrow> nat \<Rightarrow> retval \<times> sink) \<Rightarrow> 'a \<times> 'b \<Rightarrow> sink \<Rightarrow> nat \<Rightarrow>
   retval \<times> sink" where
  "ser_pair s t p snk m =
     (case s (fst p) snk m of (r, snk) \<Rightarrow> if r \<noteq> OK then (r, snk) else t (snd p) snk m)"

definition deser_pair ::
  "(source \<Rightarrow> retval \<times> 'a option \<times> source) \<Rightarrow> (source \<Rightarrow> retval \<times> 'b option \<times> source) \<Rightarrow> source \<Rightarrow>
   retval \<times> ('a \<times> 'b) option \<times> source" where
  "deser_pair d e src =
     (case d src of (r, x, src) \<Rightarrow>
        if r \<noteq> OK then (r, None, src)
        else (case e src of (r, y, src) \<Rightarrow> (r, if r = OK then Some (the x, the y) else None, src)))"

definition enc_pair :: "('a \<Rightarrow> bytes) \<Rightarrow> ('b \<Rightarrow> bytes) \<Rightarrow> 'a \<times> 'b \<Rightarrow> bytes" where
  "enc_pair e1 e2 p = e1 (fst p) @ e2 (snd p)"

lemma codec_pair:
  fixes e1 :: "'a \<Rightarrow> bytes" and e2 :: "'b \<Rightarrow> bytes"
  assumes "codec e1 s1 d1 v1" and "codec e2 s2 d2 v2"
  shows "codec (enc_pair e1 e2) (ser_pair s1 s2) (deser_pair d1 d2) (\<lambda>p. v1 (fst p) \<and> v2 (snd p))"
proof
  fix n m :: nat and p :: "'a \<times> 'b" and out
  assume "n + length (enc_pair e1 e2 p) \<le> m"
  then show "ser_pair s1 s2 p (out, n) m = (OK, out @ enc_pair e1 e2 p, n + length (enc_pair e1 e2 p))"
    using codec.ser_fits [OF assms(1), of n "fst p" m out]
      codec.ser_fits [OF assms(2), of "n + length (e1 (fst p))" "snd p" m "out @ e1 (fst p)"]
    by (simp add: ser_pair_def enc_pair_def)
next
  fix n m :: nat and p :: "'a \<times> 'b" and out
  assume short: "m < n + length (enc_pair e1 e2 p)"
  show "fst (ser_pair s1 s2 p (out, n) m) \<noteq> OK"
  proof (cases "n + length (e1 (fst p)) \<le> m")
    case True
    with short show ?thesis
      using codec.ser_fits [OF assms(1) True, of out]
        codec.ser_short [OF assms(2), of m "n + length (e1 (fst p))" "snd p" "out @ e1 (fst p)"]
      by (simp add: ser_pair_def enc_pair_def)
  next
    case False
    with codec.ser_short [OF assms(1), of m n "fst p" out] show ?thesis
      by (auto simp: ser_pair_def split: prod.splits)
  qed
next
  fix n m :: nat and p :: "'a \<times> 'b" and out
  assume "n \<le> m"
  with codec.ser_bound [OF assms(1), of n m "fst p" out] codec.ser_bound [OF assms(2)]
  show "snd (snd (ser_pair s1 s2 p (out, n) m)) \<le> m"
    by (auto simp: ser_pair_def split: prod.splits)
next
  fix n :: nat and p :: "'a \<times> 'b" and rest
  assume "v1 (fst p) \<and> v2 (snd p)" "length (enc_pair e1 e2 p) \<le> n"
  then show "deser_pair d1 d2 (enc_pair e1 e2 p @ rest, n) = (OK, Some p, rest, n - length (enc_pair e1 e2 p))"
    using codec.deser_enc [OF assms(1)] codec.deser_enc [OF assms(2)]
    by (simp add: deser_pair_def enc_pair_def)
qed

text \<open>The network order of two and four bytes, written out.\<close>

lemma enc_u8 [simp]: "enc_word e (w :: u8) = [w]"
  by (cases e) (simp_all add: mem_image_def sizeof_def convertBigEndian_def convertLittleEndian_def)

lemma enc_u16_big: "enc_word BIG w = [hi8 w, lo8 w]"
  by (simp add: mem_image_def sizeof_def convertBigEndian_def hi8_def lo8_def upt_rec)

lemma enc_u32_big:
  "enc_word BIG (w :: u32) = [ucast (drop_bit 24 w), ucast (drop_bit 16 w), ucast (drop_bit 8 w), ucast w]"
  by (simp add: mem_image_def sizeof_def convertBigEndian_def upt_rec)

section \<open>Length-prefixed buffers\<close>

text \<open>\<open>SerialBufferAdapter<count_t>\<close>; null pointers are \<open>None\<close>.\<close>

record 'n buffer_adapter =
  ba_serializeLength :: bool
  ba_constBuffer :: "bytes option"
  ba_buffer :: "bytes option"
  ba_bufferLength :: 'n

text \<open>The constructors from a constant and from a writable buffer.\<close>

definition ba_from_const :: "bytes option \<Rightarrow> 'c::len word \<Rightarrow> bool \<Rightarrow> 'c word buffer_adapter" where
  "ba_from_const buf len serializeLength =
     \<lparr>ba_serializeLength = serializeLength, ba_constBuffer = buf, ba_buffer = None,
      ba_bufferLength = len\<rparr>"

definition ba_from_buffer :: "bytes option \<Rightarrow> 'c::len word \<Rightarrow> bool \<Rightarrow> 'c word buffer_adapter" where
  "ba_from_buffer buf len serializeLength =
     \<lparr>ba_serializeLength = serializeLength, ba_constBuffer = buf, ba_buffer = buf,
      ba_bufferLength = len\<rparr>"

definition ba_serialize ::
  "Endianness \<Rightarrow> 'c::len word buffer_adapter \<Rightarrow> sink \<Rightarrow> nat \<Rightarrow> retval \<times> sink" where
  "ba_serialize e ba snk maxSize =
     (case (if ba_serializeLength ba then ser_word e (ba_bufferLength ba) snk maxSize else (OK, snk)) of
        (result, snk) \<Rightarrow>
          if result \<noteq> OK then (result, snk)
          else if snd snk + unat (ba_bufferLength ba) > maxSize then (BUFFER_TOO_SHORT, snk)
          else
            (case (if ba_constBuffer ba \<noteq> None then ba_constBuffer ba else ba_buffer ba) of
               None \<Rightarrow> (FAILED, snk)
             | Some buf \<Rightarrow>
                 (OK, fst snk @ take (unat (ba_bufferLength ba)) buf,
                  snd snk + unat (ba_bufferLength ba))))"

definition ba_getSerializedSize :: "'c::len word buffer_adapter \<Rightarrow> nat" where
  "ba_getSerializedSize ba =
     (if ba_serializeLength ba then unat (ba_bufferLength ba) + sizeof (ba_bufferLength ba)
      else unat (ba_bufferLength ba))"

definition ba_deSerialize ::
  "Endianness \<Rightarrow> 'c::len word buffer_adapter \<Rightarrow> source \<Rightarrow> retval \<times> 'c word buffer_adapter \<times> source" where
  "ba_deSerialize e ba src =
     (case ba_buffer ba of
        None \<Rightarrow> (FAILED, ba, src)
      | Some buf \<Rightarrow>
          (case (if ba_serializeLength ba then deser_word e src
                 else (OK, Some (ba_bufferLength ba), src)) of (result, len, src) \<Rightarrow>
             if result \<noteq> OK then (result, ba, src)
             else if the len > ba_bufferLength ba then (TOO_MANY_ELEMENTS, ba, src)
             else
               (let n = unat (the len); ba = ba\<lparr>ba_bufferLength := the len\<rparr> in
                if n \<le> snd src then
                  (OK, ba\<lparr>ba_buffer := Some (memcpy_at buf 0 (take n (fst src))),
                          ba_constBuffer := Some (memcpy_at buf 0 (take n (fst src)))\<rparr>,
                   drop n (fst src), snd src - n)
                else (SER_STREAM_TOO_SHORT, ba, src))))"

definition ba_setConstBuffer :: "bytes option \<Rightarrow> 'c::len word \<Rightarrow> 'c word buffer_adapter \<Rightarrow> 'c word buffer_adapter" where
  "ba_setConstBuffer buf len ba =
     ba\<lparr>ba_buffer := None, ba_bufferLength := len, ba_constBuffer := buf\<rparr>"

section \<open>Array lists\<close>

text \<open>The count type is the type argument; \<open>ser\<close> and \<open>deser\<close> serialize an entry.\<close>

definition al_serialize ::
  "'c::len itself \<Rightarrow> Endianness \<Rightarrow> ('a \<Rightarrow> sink \<Rightarrow> nat \<Rightarrow> retval \<times> sink) \<Rightarrow> 'a array_list \<Rightarrow> sink \<Rightarrow> nat \<Rightarrow>
   retval \<times> sink" where
  "al_serialize c e ser list snk maxSize =
     (case ser_word e (of_nat (al_size list) :: 'c word) snk maxSize of (result, snk) \<Rightarrow>
        if result = OK then ser_loop ser (take (al_size list) (al_entries list)) snk maxSize
        else (result, snk))"

definition al_getSerializedSize :: "'c::len itself \<Rightarrow> ('a \<Rightarrow> nat) \<Rightarrow> 'a array_list \<Rightarrow> nat" where
  "al_getSerializedSize c entrySize list =
     sizeof (0 :: 'c word) + sum_list (map entrySize (take (al_size list) (al_entries list)))"

definition al_deSerialize ::
  "'c::len itself \<Rightarrow> Endianness \<Rightarrow> (source \<Rightarrow> retval \<times> 'a option \<times> source) \<Rightarrow> 'a array_list \<Rightarrow> source \<Rightarrow>
   retval \<times> 'a array_list \<times> source" where
  "al_deSerialize c e deser list src =
     (case deser_word e src of (result, tempSize :: 'c word option, src) \<Rightarrow>
        if result \<noteq> OK then (result, list, src)
        else if unat (the tempSize) > al_maxSize list then (TOO_MANY_ELEMENTS, list, src)
        else
          (case deser_loop deser (unat (the tempSize)) src of (result, xs, src) \<Rightarrow>
             (result, list\<lparr>al_size := unat (the tempSize),
                           al_entries := memcpy_at (al_entries list) 0 xs\<rparr>, src)))"

section \<open>Linked lists\<close>

definition ll_serialize ::
  "'c::len itself \<Rightarrow> Endianness \<Rightarrow> ('a \<Rightarrow> sink \<Rightarrow> nat \<Rightarrow> retval \<times> sink) \<Rightarrow> bool \<Rightarrow> 'a list \<Rightarrow> sink \<Rightarrow> nat \<Rightarrow>
   retval \<times> sink" where
  "ll_serialize c e ser printCount elements snk maxSize =
     (case (if printCount then ser_word e (of_nat (length elements) :: 'c word) snk maxSize
            else (OK, snk)) of (result, snk) \<Rightarrow>
        if result \<noteq> OK then (result, snk) else ser_loop ser elements snk maxSize)"

text \<open>Deserialization walks the elements of the list that is there; it never reads the count.\<close>

definition ll_deSerialize ::
  "(source \<Rightarrow> retval \<times> 'a option \<times> source) \<Rightarrow> 'a list \<Rightarrow> source \<Rightarrow> retval \<times> 'a list \<times> source" where
  "ll_deSerialize deser elements src =
     (case deser_loop deser (length elements) src of (r, xs, src) \<Rightarrow>
        (r, xs @ drop (length xs) elements, src))"

text \<open>
  \<open>getSerializedSize()\<close>: with a printed count the function calls itself. \<open>None\<close> is a call that does
  not return.
\<close>

partial_function (option) ll_getSerializedSize :: "nat \<Rightarrow> ('a \<Rightarrow> nat) \<Rightarrow> bool \<Rightarrow> 'a list \<Rightarrow> nat option" where
  "ll_getSerializedSize countSize entrySize printCount elements =
     (if printCount then
        Option.bind (ll_getSerializedSize countSize entrySize printCount elements)
          (\<lambda>n. Some (n + countSize))
      else Some (sum_list (map entrySize elements)))"

lemma ll_size_returns:
  assumes "ll_getSerializedSize c f pc xs = Some n"
  shows "\<not> pc"
proof (rule ll_getSerializedSize.raw_induct [where P = "\<lambda>c f pc xs n. \<not> pc", OF _ assms])
  fix rec c f pc xs n
  assume IH: "\<And>c f pc xs n. rec c f pc xs = Some n \<Longrightarrow> \<not> pc"
    and eq: "(if pc then Option.bind (rec c f pc xs) (\<lambda>n. Some (n + c))
          else Some (sum_list (map f xs))) = Some n"
  show "\<not> pc"
  proof
    assume pc
    with eq obtain y where "rec c f pc xs = Some y" by (auto simp: bind_eq_Some_conv)
    from IH [OF this] \<open>pc\<close> show False by simp
  qed
qed

section \<open>Adapters over the contract\<close>

context codec
begin

lemma array_list_roundtrip:
  assumes "list_all valid (take (al_size l) (al_entries l))"
    and size: "al_size l \<le> length (al_entries l)" and count: "al_size l < 2 ^ LENGTH('c::len)"
    and dvd: "8 dvd LENGTH('c)"
    and ser: "al_serialize TYPE('c) e ser l (out, n) m = (OK, out', n')"
    and room: "al_size l \<le> al_maxSize t" "al_maxSize t \<le> length (al_entries t)"
    and nm: "n \<le> m"
  shows "\<exists>b. out' = out @ b \<and> n' = n + length b \<and>
    al_deSerialize TYPE('c) e deser t (b @ rest, length b + k) =
      (OK, t\<lparr>al_size := al_size l, al_entries := take (al_size l) (al_entries l) @
              drop (al_size l) (al_entries t)\<rparr>, rest, k)"
proof -
  let ?c = "of_nat (al_size l) :: 'c word" and ?xs = "take (al_size l) (al_entries l)"
  let ?b = "enc_word e ?c @ concat (map enc ?xs)"
  have u: "unat ?c = al_size l" using count by (simp add: unat_of_nat take_bit_nat_eq_self)
  have fit: "n + length (enc_word e ?c) \<le> m"
  proof -
    have "fst (ser_word e ?c (out, n) m) = OK"
      using ser by (auto simp: al_serialize_def split: prod.splits if_splits)
    then show ?thesis by (simp only: ser_word_OK_iff [OF dvd])
  qed
  from ser have loop: "ser_loop ser ?xs (out @ enc_word e ?c, n + length (enc_word e ?c)) m = (OK, out', n')"
    by (simp add: al_serialize_def ser_word_fits [OF dvd fit])
  then have "n + length (enc_word e ?c) + length (concat (map enc ?xs)) \<le> m"
    using ser_all_short [OF fit, of ?xs "out @ enc_word e ?c"] by (metis fst_conv not_le)
  from ser_all_fits [OF this, of "out @ enc_word e ?c"] loop
  have o: "out' = out @ ?b" "n' = n + length ?b" by auto
  have d: "deser_loop deser (al_size l) (concat (map enc ?xs) @ rest, length (concat (map enc ?xs)) + k) =
      (OK, ?xs, rest, k)"
    using deser_all_enc [OF assms(1), of "length (concat (map enc ?xs)) + k" rest] size by simp
  have "deser_word e (?b @ rest, length ?b + k) =
      (OK, Some ?c, concat (map enc ?xs) @ rest, length (concat (map enc ?xs)) + k)"
    using deser_word_enc [OF dvd, of e ?c "length ?b + k" "concat (map enc ?xs) @ rest"] by simp
  then have "al_deSerialize TYPE('c) e deser t (?b @ rest, length ?b + k) =
      (OK, t\<lparr>al_size := al_size l, al_entries := ?xs @ drop (al_size l) (al_entries t)\<rparr>, rest, k)"
    using room size d by (simp add: al_deSerialize_def u memcpy_at_def)
  with o show ?thesis by blast
qed

lemma linked_list_roundtrip:
  assumes "list_all valid xs" and "length ys = length xs" and "n \<le> m"
    and "ll_serialize c e ser False xs (out, n) m = (OK, out', n')"
  shows "\<exists>b. out' = out @ b \<and> n' = n + length b \<and>
    ll_deSerialize deser ys (b @ rest, length b + k) = (OK, xs, rest, k)"
proof -
  let ?b = "concat (map enc xs)"
  have loop: "ser_loop ser xs (out, n) m = (OK, out', n')"
    using assms(4) by (simp add: ll_serialize_def)
  then have "n + length ?b \<le> m" using ser_all_short [OF assms(3), of xs out] by (metis fst_conv not_le)
  from ser_all_fits [OF this, of out] loop have "out' = out @ ?b" "n' = n + length ?b" by auto
  moreover have "ll_deSerialize deser ys (?b @ rest, length ?b + k) = (OK, xs, rest, k)"
    using deser_all_enc [OF assms(1), of "length ?b + k" rest] assms(2)
    by (simp add: ll_deSerialize_def)
  ultimately show ?thesis by blast
qed

end

lemma ba_roundtrip_aux:
  fixes c t :: "'c::len word buffer_adapter"
  assumes dvd: "8 dvd LENGTH('c)" and buf: "ba_constBuffer c = Some buf"
    and len: "unat (ba_bufferLength c) \<le> length buf"
    and same: "ba_serializeLength t = ba_serializeLength c"
      "\<not> ba_serializeLength t \<longrightarrow> ba_bufferLength t = ba_bufferLength c"
    and tgt: "ba_buffer t = Some tbuf" "ba_bufferLength c \<le> ba_bufferLength t"
    and ser: "ba_serialize e c (out, n) m = (OK, out', n')"
  shows "\<exists>b. out' = out @ b \<and> n' = n + length b \<and> length b = ba_getSerializedSize c \<and>
    (case ba_deSerialize e t (b @ rest, length b + k) of (r, t', src) \<Rightarrow>
       r = OK \<and> src = (rest, k) \<and> ba_bufferLength t' = ba_bufferLength c \<and>
       take (unat (ba_bufferLength c)) (the (ba_buffer t')) = take (unat (ba_bufferLength c)) buf)"
proof -
  let ?n = "unat (ba_bufferLength c)" and ?h = "if ba_serializeLength c then enc_word e (ba_bufferLength c) else []"
  have fit: "n + length ?h \<le> m" if "ba_serializeLength c"
  proof -
    have "fst (ser_word e (ba_bufferLength c) (out, n) m) = OK"
      using ser that by (auto simp: ba_serialize_def split: prod.splits if_splits)
    then have "n + length (enc_word e (ba_bufferLength c)) \<le> m" by (simp only: ser_word_OK_iff [OF dvd])
    with that show ?thesis by simp
  qed
  have o: "out' = out @ ?h @ take ?n buf" "n' = n + length ?h + ?n"
    using ser fit ser_word_fits [OF dvd, of n e "ba_bufferLength c" m out]
    by (auto simp: ba_serialize_def buf split: if_splits)
  moreover have "length (?h @ take ?n buf) = ba_getSerializedSize c"
    using len by (simp add: ba_getSerializedSize_def)
  moreover have "case ba_deSerialize e t ((?h @ take ?n buf) @ rest, length (?h @ take ?n buf) + k) of
      (r, t', src) \<Rightarrow> r = OK \<and> src = (rest, k) \<and> ba_bufferLength t' = ba_bufferLength c \<and>
       take ?n (the (ba_buffer t')) = take ?n buf"
    using same tgt len deser_word_enc [OF dvd, of e "ba_bufferLength c"]
    by (auto simp: ba_deSerialize_def memcpy_at_def not_less Let_def split: if_splits)
  ultimately show ?thesis using len by (intro exI [of _ "?h @ take ?n buf"]) auto
qed

section \<open>Properties\<close>

text \<open>
  Integers of every width. In either byte order, serializing succeeds exactly when the integer
  fits below the maximum size and then appends its bytes; deserializing these bytes, whatever
  follows, returns the integer and consumes exactly them.
\<close>

theorem integer_roundtrip:
  assumes "8 dvd LENGTH('a::len)"
  shows "(fst (ser_word e (w :: 'a word) (out, n) m) = OK \<longleftrightarrow> n + LENGTH('a) div 8 \<le> m) \<and>
    (ser_word e w (out, n) m = (OK, out', n') \<longrightarrow>
      (\<exists>b. out' = out @ b \<and> n' = n + length b \<and> length b = LENGTH('a) div 8 \<and>
        deser_word e (b @ rest, length b + k) = (OK, Some w, rest, k)))"
proof -
  have l: "length (enc_word e w) = LENGTH('a) div 8" by (simp add: sizeof_def)
  have "\<exists>b. out' = out @ b \<and> n' = n + length b \<and> length b = LENGTH('a) div 8 \<and>
      deser_word e (b @ rest, length b + k) = (OK, Some w, rest, k)"
    if s: "ser_word e w (out, n) m = (OK, out', n')"
  proof -
    have "n + length (enc_word e w) \<le> m" using s ser_word_OK_iff [OF assms, of e w out n m] by simp
    from ser_word_fits [OF assms this, of out] s l
      deser_word_enc [OF assms, of e w "length (enc_word e w) + k" rest]
    show ?thesis by (intro exI [of _ "enc_word e w"]) simp
  qed
  then show ?thesis using ser_word_OK_iff [OF assms, of e w out n m] l by simp
qed

theorem integer_roundtrip_witness:
  "deser_word BIG ([0x12, 0x34] @ [9], length [0x12 :: u8, 0x34] + 1) =
     (OK, Some (0x1234 :: u16), [9], 1)"
proof -
  have "ser_word BIG (0x1234 :: u16) ([], 0) 5 = (OK, [0x12, 0x34], 2)" by code_simp
  then show ?thesis
    using integer_roundtrip [where e = BIG and w = "0x1234 :: u16" and out = "[]" and n = 0 and m = 5
      and out' = "[0x12, 0x34]" and n' = 2 and rest = "[9]" and k = 1] by simp
qed

text \<open>
  Buffers. A constant buffer serialized with or without its length and deserialized into a
  writable buffer that is large enough gives the same bytes and the same length, and consumes exactly
  the bytes that \<open>getSerializedSize\<close> announces.
\<close>

theorem buffer_roundtrip:
  fixes c t :: "'c::len word buffer_adapter"
  assumes "8 dvd LENGTH('c)" and "ba_constBuffer c = Some buf"
    and "unat (ba_bufferLength c) \<le> length buf"
    and "ba_serializeLength t = ba_serializeLength c"
    and "\<not> ba_serializeLength t \<longrightarrow> ba_bufferLength t = ba_bufferLength c"
    and "ba_buffer t = Some tbuf" and "ba_bufferLength c \<le> ba_bufferLength t"
    and "ba_serialize e c (out, n) m = (OK, out', n')"
  shows "\<exists>b. out' = out @ b \<and> n' = n + length b \<and> length b = ba_getSerializedSize c \<and>
    (case ba_deSerialize e t (b @ rest, length b + k) of (r, t', src) \<Rightarrow>
       r = OK \<and> src = (rest, k) \<and> ba_bufferLength t' = ba_bufferLength c \<and>
       take (unat (ba_bufferLength c)) (the (ba_buffer t')) = take (unat (ba_bufferLength c)) buf)"
  by (rule ba_roundtrip_aux [OF assms])

theorem buffer_roundtrip_witness:
  "\<exists>b. [2, 7, 8] = [] @ b \<and>
    fst (ba_deSerialize BIG (ba_from_buffer (Some [0, 0, 0]) (3 :: u8) True) (b @ [9], length b + 1)) = OK"
proof -
  let ?c = "ba_from_const (Some [7, 8]) (2 :: u8) True" and ?t = "ba_from_buffer (Some [0, 0, 0]) (3 :: u8) True"
  have s: "ba_serialize BIG ?c ([], 0) 8 = (OK, [2, 7, 8], 3)" by code_simp
  show ?thesis
    using buffer_roundtrip [of ?c "[7, 8]" ?t "[0, 0, 0]" BIG "[]" 0 8 "[2, 7, 8]" 3 "[9]" 1] s
    by (simp add: ba_from_const_def ba_from_buffer_def split: prod.splits)
qed

text \<open>
  Array lists of 32 bit integers with an 8 bit count. A list of at most 255 entries that was
  serialized is restored in a list of sufficient capacity, whose remaining entries stay.
\<close>

theorem array_list_u32_roundtrip:
  fixes l t :: "u32 array_list"
  assumes "al_size l \<le> length (al_entries l)" and "al_size l < 256"
    and "al_serialize TYPE(8) e (ser_word e) l (out, n) m = (OK, out', n')"
    and "al_size l \<le> al_maxSize t" and "al_maxSize t \<le> length (al_entries t)" and "n \<le> m"
  shows "\<exists>b. out' = out @ b \<and> n' = n + length b \<and>
    al_deSerialize TYPE(8) e (deser_word e) t (b @ rest, length b + k) =
      (OK, t\<lparr>al_size := al_size l, al_entries := take (al_size l) (al_entries l) @
              drop (al_size l) (al_entries t)\<rparr>, rest, k)"
  using assms by (intro ser_u32.array_list_roundtrip) (simp_all add: list_all_iff)

theorem array_list_u32_roundtrip_witness:
  "\<exists>b. [1, 0, 0, 0, 5] = [] @ b \<and>
    al_deSerialize TYPE(8) BIG (deser_word BIG) \<lparr>al_entries = [0, 0 :: u32], al_size = 0, al_maxSize = 2\<rparr>
      (b @ [], length b + 0) = (OK, \<lparr>al_entries = [5, 0], al_size = 1, al_maxSize = 2\<rparr>, [], 0)"
proof -
  let ?l = "\<lparr>al_entries = [5 :: u32], al_size = 1, al_maxSize = 1\<rparr>"
  let ?t = "\<lparr>al_entries = [0, 0 :: u32], al_size = 0, al_maxSize = 2\<rparr>"
  have s: "al_serialize TYPE(8) BIG (ser_word BIG) ?l ([], 0) 9 = (OK, [1, 0, 0, 0, 5], 5)"
    by code_simp
  show ?thesis using array_list_u32_roundtrip [OF _ _ s, of ?t "[]" 0] by simp
qed

text \<open>
  The size of a linked list with a printed count: the function calls itself, and the call does
  not return.
\<close>

theorem linked_list_size_diverges: "ll_getSerializedSize c f True xs = None"
  using ll_size_returns [of c f True xs] by (cases "ll_getSerializedSize c f True xs") auto

end
