(* ===== verification/Space_Packet.thy ===== *)
theory Space_Packet
  imports Serialize
begin

text \<open>
  CCSDS space packets, \<open>src/src/fsfw/tmtcpacket/ccsds\<close>: the packet identifier and the sequence
  control field with their raw forms, the header accessors of \<open>header.cpp\<close>, the
  \<open>SpacePacketCreator\<close> that writes headers and the \<open>SpacePacketReader\<close> that reads them.
\<close>

section \<open>Packet identifier and sequence control\<close>

datatype PacketType = TM | TC
datatype SequenceFlags = CONTINUATION | FIRST_SEGMENT | LAST_SEGMENT | UNSEGMENTED

text \<open>The numeric values of the enumerations and the casts to them.\<close>

fun type_code :: "PacketType \<Rightarrow> u16" where
  "type_code TM = 0" | "type_code TC = 1"

definition type_of_bit :: "bool \<Rightarrow> PacketType" where
  "type_of_bit b = (if b then TC else TM)"

fun flags_code :: "SequenceFlags \<Rightarrow> u16" where
  "flags_code CONTINUATION = 0" | "flags_code FIRST_SEGMENT = 1"
| "flags_code LAST_SEGMENT = 2" | "flags_code UNSEGMENTED = 3"

definition flags_of_bits :: "bool \<Rightarrow> bool \<Rightarrow> SequenceFlags" where
  "flags_of_bits h l = (if h then (if l then UNSEGMENTED else LAST_SEGMENT)
     else (if l then FIRST_SEGMENT else CONTINUATION))"

abbreviation LIMIT_APID :: u16 where "LIMIT_APID \<equiv> 2048"
abbreviation LIMIT_SEQUENCE_COUNT :: u16 where "LIMIT_SEQUENCE_COUNT \<equiv> 16384"

record PacketId =
  packetType :: PacketType
  secHeaderFlag :: bool
  apid :: u16

definition pid_raw :: "PacketId \<Rightarrow> u16" where
  "pid_raw p = push_bit 12 (type_code (packetType p)) OR
     push_bit 11 (of_bool (secHeaderFlag p)) OR (apid p AND 0x7ff)"

definition pid_fromRaw :: "u16 \<Rightarrow> PacketId" where
  "pid_fromRaw raw =
     (let highByte = (ucast (drop_bit 8 raw AND 0xff) :: u8); lowByte = (ucast (raw AND 0xff) :: u8) in
      \<lparr>packetType = type_of_bit (drop_bit 4 highByte AND 1 \<noteq> 0),
       secHeaderFlag = (drop_bit 3 highByte AND 1 \<noteq> 0),
       apid = push_bit 8 (ucast (highByte AND 0b111)) OR ucast lowByte\<rparr>)"

text \<open>\<open>prev\<close> is the byte that the buffer holds where the identifier is written.\<close>

definition pid_serialize :: "u8 \<Rightarrow> PacketId \<Rightarrow> sink \<Rightarrow> nat \<Rightarrow> retval \<times> sink" where
  "pid_serialize prev p snk maxSize =
     (if snd snk + 2 > maxSize then (BUFFER_TOO_SHORT, snk)
      else (let idRaw = pid_raw p in
        (OK, fst snk @ [(prev AND NOT 0x1f) OR ucast (drop_bit 8 idRaw AND 0x1f), ucast (idRaw AND 0xff)],
         snd snk + 2)))"

definition pid_deSerialize :: "source \<Rightarrow> retval \<times> PacketId option \<times> source" where
  "pid_deSerialize src =
     (if snd src < 2 then (SER_STREAM_TOO_SHORT, None, src)
      else (let highByte = fst src ! 0; lowByte = fst src ! 1 in
        (OK, Some \<lparr>packetType = type_of_bit (drop_bit 4 highByte AND 1 \<noteq> 0),
                   secHeaderFlag = (drop_bit 3 highByte AND 1 \<noteq> 0),
                   apid = push_bit 8 (ucast (highByte AND 0b111)) OR ucast lowByte\<rparr>,
         drop 2 (fst src), snd src - 2)))"

record PacketSeqCtrl =
  seqFlags :: SequenceFlags
  seqCount :: u16

definition psc_raw :: "PacketSeqCtrl \<Rightarrow> u16" where
  "psc_raw s = push_bit 14 (flags_code (seqFlags s)) OR (seqCount s AND 0x3FFF)"

definition psc_fromRaw :: "u16 \<Rightarrow> PacketSeqCtrl" where
  "psc_fromRaw raw =
     (let highByte = (ucast (drop_bit 8 raw AND 0xff) :: u8); lowByte = (ucast (raw AND 0xff) :: u8) in
      \<lparr>seqFlags = flags_of_bits (drop_bit 7 highByte AND 1 \<noteq> 0) (drop_bit 6 highByte AND 1 \<noteq> 0),
       seqCount = (push_bit 8 (ucast highByte) OR ucast lowByte) AND 0x3FFF\<rparr>)"

definition psc_serialize :: "Endianness \<Rightarrow> PacketSeqCtrl \<Rightarrow> sink \<Rightarrow> nat \<Rightarrow> retval \<times> sink" where
  "psc_serialize e s snk maxSize = ser_word e (psc_raw s) snk maxSize"

definition psc_deSerialize :: "source \<Rightarrow> retval \<times> PacketSeqCtrl option \<times> source" where
  "psc_deSerialize src =
     (if snd src < 2 then (SER_STREAM_TOO_SHORT, None, src)
      else (let highByte = fst src ! 0; lowByte = fst src ! 1 in
        (OK, Some \<lparr>seqFlags = flags_of_bits (drop_bit 7 highByte AND 1 \<noteq> 0) (drop_bit 6 highByte AND 1 \<noteq> 0),
                   seqCount = (push_bit 8 (ucast highByte) OR ucast lowByte) AND 0x3FFF\<rparr>,
         drop 2 (fst src), snd src - 2)))"

text \<open>\<open>getSpacePacketIdFromApid\<close> and its two instances.\<close>

definition getSpacePacketIdFromApid :: "bool \<Rightarrow> u16 \<Rightarrow> bool \<Rightarrow> u16" where
  "getSpacePacketIdFromApid isTc ap secondaryHeaderFlag =
     push_bit 8 (push_bit 4 (of_bool isTc) OR push_bit 3 (of_bool secondaryHeaderFlag) OR
       (drop_bit 8 ap AND 0x07)) OR (ap AND 0x00ff)"

definition getTcSpacePacketIdFromApid :: "u16 \<Rightarrow> bool \<Rightarrow> u16" where
  "getTcSpacePacketIdFromApid = getSpacePacketIdFromApid True"

definition getTmSpacePacketIdFromApid :: "u16 \<Rightarrow> bool \<Rightarrow> u16" where
  "getTmSpacePacketIdFromApid = getSpacePacketIdFromApid False"

section \<open>The header in memory\<close>

record PrimaryHeader =
  packetIdHAndVersion :: u8
  packetIdL :: u8
  packetSeqCtrlH :: u8
  packetSeqCtrlL :: u8
  packetLenH :: u8
  packetLenL :: u8

definition header_of :: "bytes \<Rightarrow> PrimaryHeader" where
  "header_of bs = \<lparr>packetIdHAndVersion = bs ! 0, packetIdL = bs ! 1, packetSeqCtrlH = bs ! 2,
     packetSeqCtrlL = bs ! 3, packetLenH = bs ! 4, packetLenL = bs ! 5\<rparr>"

definition hdr_getPacketId :: "PrimaryHeader \<Rightarrow> u16" where
  "hdr_getPacketId h = push_bit 8 (ucast (packetIdHAndVersion h AND 0x1F)) + ucast (packetIdL h)"

definition hdr_getPacketSeqCtrl :: "PrimaryHeader \<Rightarrow> u16" where
  "hdr_getPacketSeqCtrl h = push_bit 8 (ucast (packetSeqCtrlH h)) OR ucast (packetSeqCtrlL h)"

definition hdr_getVersion :: "PrimaryHeader \<Rightarrow> u8" where
  "hdr_getVersion h = drop_bit 5 (packetIdHAndVersion h) AND 0b111"

definition hdr_getPacketLen :: "PrimaryHeader \<Rightarrow> u16" where
  "hdr_getPacketLen h = push_bit 8 (ucast (packetLenH h)) OR ucast (packetLenL h)"

definition hdr_setPacketId :: "u16 \<Rightarrow> PrimaryHeader \<Rightarrow> PrimaryHeader" where
  "hdr_setPacketId packetId h =
     h\<lparr>packetIdHAndVersion := packetIdHAndVersion h OR ucast (drop_bit 8 packetId AND 0x1F),
       packetIdL := ucast (packetId AND 0xff)\<rparr>"

definition hdr_setApid :: "u16 \<Rightarrow> PrimaryHeader \<Rightarrow> PrimaryHeader" where
  "hdr_setApid ap h =
     hdr_setPacketId ((hdr_getPacketId h AND NOT 0x7FF) OR (ap AND 0x7FF)) h"

definition hdr_setSequenceCount :: "u16 \<Rightarrow> PrimaryHeader \<Rightarrow> PrimaryHeader" where
  "hdr_setSequenceCount cnt h =
     h\<lparr>packetSeqCtrlH := packetSeqCtrlH h OR ucast (drop_bit 8 cnt AND 0x3F),
       packetSeqCtrlL := ucast (cnt AND 0xFF)\<rparr>"

section \<open>The common accessors\<close>

text \<open>
  The accessors that \<open>SpacePacketIF\<close> derives from the raw fields; \<open>idRaw\<close>, \<open>pscRaw\<close> and \<open>len\<close> are
  the values of the three virtual functions.
\<close>

abbreviation HEADER_LEN :: nat where "HEADER_LEN \<equiv> 6"

definition sp_getApid :: "u16 \<Rightarrow> u16" where
  "sp_getApid idRaw = idRaw AND 0x7ff"

definition sp_getVersion :: "u16 \<Rightarrow> u8" where
  "sp_getVersion idRaw = ucast (drop_bit 13 idRaw AND 0b111)"

definition sp_getPacketType :: "u16 \<Rightarrow> PacketType" where
  "sp_getPacketType idRaw = type_of_bit (drop_bit 12 idRaw AND 1 \<noteq> 0)"

definition sp_isTc :: "u16 \<Rightarrow> bool" where
  "sp_isTc idRaw \<longleftrightarrow> sp_getPacketType idRaw = TC"

definition sp_hasSecHeader :: "u16 \<Rightarrow> bool" where
  "sp_hasSecHeader idRaw \<longleftrightarrow> drop_bit 11 idRaw AND 1 \<noteq> 0"

definition sp_getSequenceFlags :: "u16 \<Rightarrow> SequenceFlags" where
  "sp_getSequenceFlags pscRaw = flags_of_bits (drop_bit 15 pscRaw AND 1 \<noteq> 0) (drop_bit 14 pscRaw AND 1 \<noteq> 0)"

definition sp_getSequenceCount :: "u16 \<Rightarrow> u16" where
  "sp_getSequenceCount pscRaw = pscRaw AND 0x3FFF"

definition sp_getFullPacketLen :: "u16 \<Rightarrow> nat" where
  "sp_getFullPacketLen len = HEADER_LEN + unat len + 1"

section \<open>The creator\<close>

record SpacePacketParams =
  sp_packetId :: PacketId
  sp_packetSeqCtrl :: PacketSeqCtrl
  sp_dataLen :: u16
  sp_version :: u8

record sp_creator =
  spc_valid :: bool
  spc_params :: SpacePacketParams

definition checkFieldValidity :: "sp_creator \<Rightarrow> sp_creator" where
  "checkFieldValidity c =
     c\<lparr>spc_valid := \<not> (apid (sp_packetId (spc_params c)) > LIMIT_APID \<or>
        seqCount (sp_packetSeqCtrl (spc_params c)) > LIMIT_SEQUENCE_COUNT)\<rparr>"

definition spc_new :: "SpacePacketParams \<Rightarrow> sp_creator" where
  "spc_new params = checkFieldValidity \<lparr>spc_valid = False, spc_params = params\<rparr>"

definition spc_new_fields ::
  "PacketType \<Rightarrow> bool \<Rightarrow> u16 \<Rightarrow> SequenceFlags \<Rightarrow> u16 \<Rightarrow> u16 \<Rightarrow> u8 \<Rightarrow> sp_creator" where
  "spc_new_fields pt sec ap fl cnt len ver =
     spc_new \<lparr>sp_packetId = \<lparr>packetType = pt, secHeaderFlag = sec, apid = ap\<rparr>,
       sp_packetSeqCtrl = \<lparr>seqFlags = fl, seqCount = cnt\<rparr>, sp_dataLen = len, sp_version = ver\<rparr>"

abbreviation upd_params :: "(SpacePacketParams \<Rightarrow> SpacePacketParams) \<Rightarrow> sp_creator \<Rightarrow> sp_creator" where
  "upd_params f c \<equiv> c\<lparr>spc_params := f (spc_params c)\<rparr>"

definition spc_setApid :: "u16 \<Rightarrow> sp_creator \<Rightarrow> sp_creator" where
  "spc_setApid ap c =
     checkFieldValidity (if ap < LIMIT_APID
       then upd_params (\<lambda>p. p\<lparr>sp_packetId := (sp_packetId p)\<lparr>apid := ap\<rparr>\<rparr>) c else c)"

definition spc_setSeqCount :: "u16 \<Rightarrow> sp_creator \<Rightarrow> sp_creator" where
  "spc_setSeqCount cnt c =
     checkFieldValidity (if cnt < LIMIT_SEQUENCE_COUNT
       then upd_params (\<lambda>p. p\<lparr>sp_packetSeqCtrl := (sp_packetSeqCtrl p)\<lparr>seqCount := cnt\<rparr>\<rparr>) c else c)"

definition spc_setSeqFlags :: "SequenceFlags \<Rightarrow> sp_creator \<Rightarrow> sp_creator" where
  "spc_setSeqFlags fl c =
     upd_params (\<lambda>p. p\<lparr>sp_packetSeqCtrl := (sp_packetSeqCtrl p)\<lparr>seqFlags := fl\<rparr>\<rparr>) c"

definition spc_setDataLenField :: "u16 \<Rightarrow> sp_creator \<Rightarrow> sp_creator" where
  "spc_setDataLenField len c = upd_params (\<lambda>p. p\<lparr>sp_dataLen := len\<rparr>) c"

text \<open>The length minus one is converted to \<open>uint16_t\<close> in the call.\<close>

definition setCcsdsLenFromTotalDataFieldLen :: "nat \<Rightarrow> sp_creator \<Rightarrow> sp_creator" where
  "setCcsdsLenFromTotalDataFieldLen actualLength c =
     (if actualLength = 0 then c else spc_setDataLenField (of_nat (actualLength - 1)) c)"

definition spc_setPacketType :: "PacketType \<Rightarrow> sp_creator \<Rightarrow> sp_creator" where
  "spc_setPacketType t c = upd_params (\<lambda>p. p\<lparr>sp_packetId := (sp_packetId p)\<lparr>packetType := t\<rparr>\<rparr>) c"

definition spc_setSecHeaderFlag :: "sp_creator \<Rightarrow> sp_creator" where
  "spc_setSecHeaderFlag c =
     upd_params (\<lambda>p. p\<lparr>sp_packetId := (sp_packetId p)\<lparr>secHeaderFlag := True\<rparr>\<rparr>) c"

definition spc_setParams :: "SpacePacketParams \<Rightarrow> sp_creator \<Rightarrow> sp_creator" where
  "spc_setParams p c = c\<lparr>spc_params := p\<rparr>"

definition spc_getPacketIdRaw :: "sp_creator \<Rightarrow> u16" where
  "spc_getPacketIdRaw c = pid_raw (sp_packetId (spc_params c))"

definition spc_getPacketSeqCtrlRaw :: "sp_creator \<Rightarrow> u16" where
  "spc_getPacketSeqCtrlRaw c = psc_raw (sp_packetSeqCtrl (spc_params c))"

definition spc_getPacketDataLen :: "sp_creator \<Rightarrow> u16" where
  "spc_getPacketDataLen c = sp_dataLen (spc_params c)"

definition spc_serialize :: "Endianness \<Rightarrow> sp_creator \<Rightarrow> sink \<Rightarrow> nat \<Rightarrow> retval \<times> sink" where
  "spc_serialize e c snk maxSize =
     (if \<not> spc_valid c then (FAILED, snk)
      else
        (let packetIdAndVersion =
               push_bit 13 (ucast (sp_version (spc_params c))) OR pid_raw (sp_packetId (spc_params c)) in
         case ser_word e packetIdAndVersion snk maxSize of (result, snk) \<Rightarrow>
           if result \<noteq> OK then (result, snk)
           else (case ser_word e (psc_raw (sp_packetSeqCtrl (spc_params c))) snk maxSize of (result, snk) \<Rightarrow>
             if result \<noteq> OK then (result, snk)
             else ser_word e (sp_dataLen (spc_params c)) snk maxSize)))"

section \<open>The reader\<close>

record sp_reader =
  spHeader :: "bytes option"
  packetDataField :: "bytes option"
  spr_bufSize :: nat

definition spr_new :: sp_reader where
  "spr_new = \<lparr>spHeader = None, packetDataField = None, spr_bufSize = 0\<rparr>"

abbreviation spr_header :: "sp_reader \<Rightarrow> PrimaryHeader" where
  "spr_header r \<equiv> header_of (the (spHeader r))"

definition spr_isNull :: "sp_reader \<Rightarrow> bool" where
  "spr_isNull r \<longleftrightarrow> spHeader r = None"

definition spr_getPacketIdRaw :: "sp_reader \<Rightarrow> u16" where
  "spr_getPacketIdRaw r = hdr_getPacketId (spr_header r)"

definition spr_getPacketSeqCtrlRaw :: "sp_reader \<Rightarrow> u16" where
  "spr_getPacketSeqCtrlRaw r = hdr_getPacketSeqCtrl (spr_header r)"

definition spr_getPacketDataLen :: "sp_reader \<Rightarrow> u16" where
  "spr_getPacketDataLen r = hdr_getPacketLen (spr_header r)"

definition spr_getFullPacketLen :: "sp_reader \<Rightarrow> nat" where
  "spr_getFullPacketLen r = sp_getFullPacketLen (spr_getPacketDataLen r)"

definition spr_checkSize :: "sp_reader \<Rightarrow> retval" where
  "spr_checkSize r =
     (if spr_isNull r then FAILED
      else if spr_getFullPacketLen r > spr_bufSize r then SER_STREAM_TOO_SHORT
      else OK)"

text \<open>The data argument is \<open>None\<close> for a null pointer.\<close>

definition setInternalFields :: "bytes option \<Rightarrow> nat \<Rightarrow> sp_reader \<Rightarrow> retval \<times> sp_reader" where
  "setInternalFields data maxSize r =
     (let r = r\<lparr>spr_bufSize := maxSize\<rparr> in
      if maxSize < HEADER_LEN then (SER_STREAM_TOO_SHORT, r)
      else
        (let r = r\<lparr>spHeader := data\<rparr>;
             r = (if maxSize > HEADER_LEN then r\<lparr>packetDataField := map_option (drop HEADER_LEN) data\<rparr>
                  else r)
         in (spr_checkSize r, r)))"

definition spr_setReadOnlyData :: "bytes option \<Rightarrow> nat \<Rightarrow> sp_reader \<Rightarrow> retval \<times> sp_reader" where
  "spr_setReadOnlyData data maxSize r = setInternalFields data maxSize r"

section \<open>Raw forms\<close>

lemma bit_below:
  fixes w :: "'a::len word"
  assumes "w < 2 ^ k" and "bit w n"
  shows "n < k"
proof -
  have "bit (w AND mask k) n" using assms(2) less_mask_eq [OF assms(1)] by simp
  then show ?thesis by (simp add: bit_and_iff bit_mask_iff)
qed

lemma bit_field_masks:
  "bit (0x7ff :: int) n \<longleftrightarrow> n < 11" "bit (0x3FFF :: int) n \<longleftrightarrow> n < 14" "bit (0x1f :: int) n \<longleftrightarrow> n < 5"
  "bit (7 :: int) n \<longleftrightarrow> n < 3" "bit (0x3f :: int) n \<longleftrightarrow> n < 6"
proof -
  have "(0x7ff :: int) = mask 11" "(0x3FFF :: int) = mask 14" "(0x1f :: int) = mask 5"
      "(7 :: int) = mask 3" "(0x3f :: int) = mask 6"
    by (simp_all add: mask_eq_exp_minus_1)
  then show "bit (0x7ff :: int) n \<longleftrightarrow> n < 11" "bit (0x3FFF :: int) n \<longleftrightarrow> n < 14" "bit (0x1f :: int) n \<longleftrightarrow> n < 5"
    "bit (7 :: int) n \<longleftrightarrow> n < 3" "bit (0x3f :: int) n \<longleftrightarrow> n < 6"
    by (simp_all only: bit_mask_iff possible_bit_int simp_thms)
qed

lemmas field_bits = bit_field_masks bit_mask_numerals

lemma and_one_bit: "(drop_bit k w AND 1 \<noteq> 0) = bit (w :: 'a::len word) k"
  by (simp add: and_one_eq bit_iff_odd_drop_bit odd_iff_mod_2_eq_one)

lemma bit_type_code: "bit (type_code t) n \<longleftrightarrow> n = 0 \<and> t = TC"
  by (cases t) (auto simp: bit_1_iff)

lemma bit_small_numerals:
  "bit (2 :: int) n \<longleftrightarrow> n = 1" "bit (3 :: int) n \<longleftrightarrow> n < 2" "bit (1792 :: int) n \<longleftrightarrow> 8 \<le> n \<and> n < 11"
proof -
  show "bit (2 :: int) n \<longleftrightarrow> n = 1" using bit_exp_iff [of 1 n, where ?'a = int] by auto
  have "(3 :: int) = mask 2" by (simp add: mask_eq_exp_minus_1)
  then show "bit (3 :: int) n \<longleftrightarrow> n < 2" by (simp only: bit_mask_iff possible_bit_int simp_thms)
  have "(1792 :: int) = push_bit 8 (mask 3)" by (simp add: mask_eq_exp_minus_1 push_bit_eq_mult)
  then show "bit (1792 :: int) n \<longleftrightarrow> 8 \<le> n \<and> n < 11"
    by (simp only: bit_push_bit_iff bit_mask_iff possible_bit_int simp_thms) auto
qed

lemma bit_flags_code:
  "bit (flags_code f) n \<longleftrightarrow> (n = 0 \<and> f \<in> {FIRST_SEGMENT, UNSEGMENTED}) \<or> (n = 1 \<and> f \<in> {LAST_SEGMENT, UNSEGMENTED})"
  by (cases f) (auto simp: bit_small_numerals bit_1_iff)

lemma bit_pid_raw:
  "bit (pid_raw p) n \<longleftrightarrow> (n = 12 \<and> packetType p = TC) \<or> (n = 11 \<and> secHeaderFlag p) \<or> (n < 11 \<and> bit (apid p) n)"
  by (auto simp: pid_raw_def bit_simps bit_type_code field_bits dest: bit_imp_le_length)

lemma bit_psc_raw:
  "bit (psc_raw s) n \<longleftrightarrow> (n = 14 \<and> seqFlags s \<in> {FIRST_SEGMENT, UNSEGMENTED}) \<or>
     (n = 15 \<and> seqFlags s \<in> {LAST_SEGMENT, UNSEGMENTED}) \<or> (n < 14 \<and> bit (seqCount s) n)"
  by (auto simp: psc_raw_def bit_simps bit_flags_code field_bits dest: bit_imp_le_length)

lemma PacketId_eqI:
  "packetType p = packetType q \<Longrightarrow> secHeaderFlag p = secHeaderFlag q \<Longrightarrow> apid p = apid q \<Longrightarrow> p = (q :: PacketId)"
  by simp

lemma pid_fromRaw_fields:
  "packetType (pid_fromRaw raw) = type_of_bit (bit raw 12)"
  "secHeaderFlag (pid_fromRaw raw) = bit raw 11"
  "apid (pid_fromRaw raw) = raw AND 0x7ff"
proof -
  show "packetType (pid_fromRaw raw) = type_of_bit (bit raw 12)"
    "secHeaderFlag (pid_fromRaw raw) = bit raw 11"
    by (simp_all only: pid_fromRaw_def Let_def PacketId.simps and_one_bit) (simp_all add: bit_simps)
  show "apid (pid_fromRaw raw) = raw AND 0x7ff"
    by (rule bit_word_eqI) (auto simp: pid_fromRaw_def Let_def bit_simps field_bits)
qed

lemma pid_roundtrip: "apid p < LIMIT_APID \<Longrightarrow> pid_fromRaw (pid_raw p) = p"
proof (rule PacketId_eqI)
  assume "apid p < LIMIT_APID"
  then have b: "bit (apid p) n \<Longrightarrow> n < 11" for n using bit_below [of "apid p" 11 n] by simp
  show "apid (pid_fromRaw (pid_raw p)) = apid p"
    unfolding pid_fromRaw_fields by (rule bit_word_eqI) (auto simp: bit_simps bit_pid_raw field_bits dest: b)
  show "packetType (pid_fromRaw (pid_raw p)) = packetType p"
    unfolding pid_fromRaw_fields by (cases "packetType p") (simp_all add: bit_pid_raw type_of_bit_def)
  show "secHeaderFlag (pid_fromRaw (pid_raw p)) = secHeaderFlag p"
    unfolding pid_fromRaw_fields by (simp add: bit_pid_raw)
qed

lemma psc_fromRaw_fields:
  "seqFlags (psc_fromRaw raw) = flags_of_bits (bit raw 15) (bit raw 14)"
  "seqCount (psc_fromRaw raw) = raw AND 0x3FFF"
proof -
  show "seqFlags (psc_fromRaw raw) = flags_of_bits (bit raw 15) (bit raw 14)"
    by (simp only: psc_fromRaw_def Let_def PacketSeqCtrl.simps and_one_bit) (simp add: bit_simps)
  show "seqCount (psc_fromRaw raw) = raw AND 0x3FFF"
    by (rule bit_word_eqI) (auto simp: psc_fromRaw_def Let_def bit_simps field_bits)
qed

lemma psc_roundtrip:
  assumes "seqCount s < LIMIT_SEQUENCE_COUNT"
  shows "psc_fromRaw (psc_raw s) = s"
proof -
  have b: "bit (seqCount s) n \<Longrightarrow> n < 14" for n using assms bit_below [of "seqCount s" 14 n] by simp
  have "seqCount (psc_fromRaw (psc_raw s)) = seqCount s"
    unfolding psc_fromRaw_fields by (rule bit_word_eqI) (auto simp: bit_simps bit_psc_raw field_bits dest: b)
  moreover have "seqFlags (psc_fromRaw (psc_raw s)) = seqFlags s"
    unfolding psc_fromRaw_fields by (cases "seqFlags s") (simp_all add: bit_psc_raw flags_of_bits_def)
  ultimately show ?thesis by simp
qed

text \<open>The accessors of \<open>SpacePacketIF\<close> are those of the decoded fields.\<close>

lemma sp_accessors:
  "sp_getApid raw = apid (pid_fromRaw raw)" "sp_getPacketType raw = packetType (pid_fromRaw raw)"
  "sp_hasSecHeader raw = secHeaderFlag (pid_fromRaw raw)"
  "sp_getSequenceFlags raw = seqFlags (psc_fromRaw raw)" "sp_getSequenceCount raw = seqCount (psc_fromRaw raw)"
  unfolding pid_fromRaw_fields psc_fromRaw_fields sp_getApid_def sp_getPacketType_def
    sp_hasSecHeader_def sp_getSequenceFlags_def sp_getSequenceCount_def and_one_bit
  by simp_all

lemma getSpacePacketIdFromApid_eq:
  "getSpacePacketIdFromApid isTc ap sec =
     pid_raw \<lparr>packetType = (if isTc then TC else TM), secHeaderFlag = sec, apid = ap\<rparr>"
  by (rule bit_word_eqI)
    (auto simp: getSpacePacketIdFromApid_def bit_pid_raw bit_simps field_bits bit_small_numerals)

section \<open>Headers\<close>

abbreviation sp_first_word :: "SpacePacketParams \<Rightarrow> u16" where
  "sp_first_word p \<equiv> push_bit 13 (ucast (sp_version p)) OR pid_raw (sp_packetId p)"

definition sp_header_bytes :: "SpacePacketParams \<Rightarrow> bytes" where
  "sp_header_bytes p = [hi8 (sp_first_word p), lo8 (sp_first_word p),
     hi8 (psc_raw (sp_packetSeqCtrl p)), lo8 (psc_raw (sp_packetSeqCtrl p)),
     hi8 (sp_dataLen p), lo8 (sp_dataLen p)]"

lemma ser_u16_big:
  "ser_word BIG (w :: u16) (out, n) m =
     (if n + 2 \<le> m then (OK, out @ [hi8 w, lo8 w], n + 2) else (BUFFER_TOO_SHORT, out, n))"
  unfolding ser_word_def Let_def enc_u16_big by (simp add: sizeof_def)

lemma spc_serialize_big:
  "spc_serialize BIG c (out, n) m =
     (if \<not> spc_valid c then (FAILED, out, n)
      else if n + 6 \<le> m then (OK, out @ sp_header_bytes (spc_params c), n + 6)
      else (BUFFER_TOO_SHORT, snd (spc_serialize BIG c (out, n) m)))"
  by (simp add: spc_serialize_def ser_u16_big sp_header_bytes_def Let_def)

lemma spc_serialize_OK:
  "spc_serialize BIG c (out, n) m = (OK, x) \<longleftrightarrow>
     spc_valid c \<and> n + 6 \<le> m \<and> x = (out @ sp_header_bytes (spc_params c), n + 6)"
  by (auto simp: spc_serialize_def ser_u16_big sp_header_bytes_def Let_def)

lemma header_fields:
  "hdr_getPacketSeqCtrl (header_of (a # b # c # d # e # f # xs)) = be16 c d"
  "hdr_getPacketLen (header_of (a # b # c # d # e # f # xs)) = be16 e f"
  by (simp_all add: hdr_getPacketSeqCtrl_def hdr_getPacketLen_def header_of_def be16_def)

lemma plus_be16: "push_bit 8 (ucast (a :: u8)) + ucast (b :: u8) = be16 a b"
proof -
  have "push_bit 8 (ucast a :: u16) AND ucast b = 0"
    by (rule bit_word_eqI) (auto simp: bit_simps dest: bit_imp_le_length)
  then show ?thesis unfolding be16_def by (simp add: disjunctive_add_eq_or)
qed

lemma header_packetId:
  "hdr_getPacketId (header_of (sp_header_bytes p @ xs)) = pid_raw (sp_packetId p)"
  unfolding hdr_getPacketId_def plus_be16
  by (rule bit_word_eqI)
    (auto simp: header_of_def sp_header_bytes_def bit_be16 bit_simps bit_hi8 bit_lo8 bit_pid_raw field_bits)

lemma length_sp_header_bytes [simp]: "length (sp_header_bytes p) = 6"
  by (simp add: sp_header_bytes_def)

lemma header_seq_len:
  "hdr_getPacketSeqCtrl (header_of (sp_header_bytes p @ xs)) = psc_raw (sp_packetSeqCtrl p)"
  "hdr_getPacketLen (header_of (sp_header_bytes p @ xs)) = sp_dataLen p"
  by (simp_all add: sp_header_bytes_def header_fields)

lemma drop_sp_header [simp]: "drop 6 (sp_header_bytes p @ xs) = xs"
  by simp

text \<open>Reading what a creator wrote.\<close>

lemma reader_of_header:
  assumes "r = \<lparr>spHeader = Some (sp_header_bytes p @ xs), packetDataField = d, spr_bufSize = n\<rparr>"
  shows "spr_getPacketIdRaw r = pid_raw (sp_packetId p)"
    "spr_getPacketSeqCtrlRaw r = psc_raw (sp_packetSeqCtrl p)"
    "spr_getPacketDataLen r = sp_dataLen p"
    "spr_getFullPacketLen r = 7 + unat (sp_dataLen p)"
  by (simp_all add: assms spr_getPacketIdRaw_def spr_getPacketSeqCtrlRaw_def spr_getPacketDataLen_def
    spr_getFullPacketLen_def sp_getFullPacketLen_def header_packetId header_seq_len)

lemma reader_set_header:
  assumes "7 + unat (sp_dataLen p) \<le> n"
  shows "spr_setReadOnlyData (Some (sp_header_bytes p @ xs)) n r =
    (OK, \<lparr>spHeader = Some (sp_header_bytes p @ xs), packetDataField = Some xs, spr_bufSize = n\<rparr>)"
  using assms
  by (cases r) (simp add: spr_setReadOnlyData_def setInternalFields_def spr_checkSize_def spr_isNull_def
    spr_getFullPacketLen_def sp_getFullPacketLen_def spr_getPacketDataLen_def header_seq_len)

section \<open>Properties\<close>

text \<open>
  Round trip of the header. A creator whose APID and sequence count are in range writes six bytes
  from which, followed by any data, the reader returns the same packet type, secondary header
  flag, APID, sequence flags, sequence count and length; it accepts the buffer when the announced
  length fits and reports \<open>STREAM_TOO_SHORT\<close> otherwise.
\<close>

theorem space_packet_header_roundtrip:
  assumes "apid (sp_packetId (spc_params c)) < LIMIT_APID"
    and "seqCount (sp_packetSeqCtrl (spc_params c)) < LIMIT_SEQUENCE_COUNT"
    and "spc_serialize BIG c ([], 0) m = (OK, hdr, k)"
    and "spr_setReadOnlyData (Some (hdr @ data)) n spr_new = (res, r)" and "HEADER_LEN < n"
  shows "length hdr = 6 \<and> k = 6 \<and> pid_fromRaw (spr_getPacketIdRaw r) = sp_packetId (spc_params c) \<and>
    psc_fromRaw (spr_getPacketSeqCtrlRaw r) = sp_packetSeqCtrl (spc_params c) \<and>
    spr_getPacketDataLen r = sp_dataLen (spc_params c) \<and> packetDataField r = Some data \<and>
    res = (if 7 + unat (sp_dataLen (spc_params c)) \<le> n then OK else SER_STREAM_TOO_SHORT)"
proof -
  have h: "hdr = sp_header_bytes (spc_params c)" "k = 6"
    using assms(3) by (simp_all add: spc_serialize_OK)
  have r: "r = \<lparr>spHeader = Some (sp_header_bytes (spc_params c) @ data),
      packetDataField = Some data, spr_bufSize = n\<rparr>"
    using assms(4,5) by (auto simp: spr_setReadOnlyData_def setInternalFields_def spr_new_def h Let_def)
  have "res = spr_checkSize r"
    using assms(4,5) by (auto simp: spr_setReadOnlyData_def setInternalFields_def Let_def)
  then show ?thesis
    using reader_of_header [OF r] pid_roundtrip [OF assms(1)] psc_roundtrip [OF assms(2)]
    by (simp add: h spr_checkSize_def spr_isNull_def) (simp add: r)
qed

theorem space_packet_header_roundtrip_witness:
  "let c = spc_new_fields TC True 0x123 UNSEGMENTED 77 1 0;
       r = snd (spr_setReadOnlyData (Some (fst (snd (spc_serialize BIG c ([], 0) 6)) @ [8, 9])) 8 spr_new)
   in pid_fromRaw (spr_getPacketIdRaw r) = \<lparr>packetType = TC, secHeaderFlag = True, apid = 0x123\<rparr>"
proof -
  let ?c = "spc_new_fields TC True 0x123 UNSEGMENTED 77 1 0"
  have s: "spc_serialize BIG ?c ([], 0) 6 = (OK, [0x19, 0x23, 0xC0, 77, 0, 1], 6)" by code_simp
  obtain res r where r: "spr_setReadOnlyData (Some ([0x19, 0x23, 0xC0, 77, 0, 1] @ [8, 9])) 8 spr_new = (res, r)"
    by (cases "spr_setReadOnlyData (Some ([0x19, 0x23, 0xC0, 77, 0, 1] @ [8, 9])) 8 spr_new")
  have p: "sp_packetId (spc_params ?c) = \<lparr>packetType = TC, secHeaderFlag = True, apid = 0x123\<rparr>"
      "seqCount (sp_packetSeqCtrl (spc_params ?c)) = 77"
    by (simp_all add: spc_new_fields_def spc_new_def checkFieldValidity_def)
  show ?thesis
    using space_packet_header_roundtrip [OF _ _ s r] p s r by (simp add: Let_def)
qed

text \<open>
  The version of a packet that is read: \<open>SpacePacketIF::getVersion\<close> looks at the upper three bits of
  the packet identifier, which the reader has masked out. The result is 0 for every packet.
\<close>

theorem reader_version_is_always_zero: "sp_getVersion (spr_getPacketIdRaw r) = 0"
  unfolding sp_getVersion_def spr_getPacketIdRaw_def hdr_getPacketId_def plus_be16
  by (rule byte_eqI) (simp add: bit_simps bit_be16 field_bits)

text \<open>
  Changing the APID of a header in place: the upper three bits of the old APID are not
  cleared, so that the result is the bitwise disjunction there.
\<close>

theorem header_setApid_keeps_old_bits:
  "hdr_getPacketId (hdr_setApid ap h) =
     (hdr_getPacketId h AND 0x1F00) OR (ap AND 0x7FF)"
  unfolding hdr_setApid_def hdr_setPacketId_def hdr_getPacketId_def plus_be16 u16_eq_iff
  by (intro conjI; rule byte_eqI, erule byte_bit_cases;
      simp add: bit_hi8 bit_lo8 bit_be16 bit_simps)

end
