(* ===== verification/Pus_Packets.thy ===== *)
theory Pus_Packets
  imports Space_Packet Crc
begin

text \<open>
  PUS telecommands and telemetry, \<open>src/src/fsfw/tmtcpacket/pus\<close>: the creators that serialize packets
  (\<open>PusTcCreator.cpp\<close>, \<open>PusTmCreator.cpp\<close>), the readers that parse them (\<open>PusTcReader.cpp\<close>,
  \<open>PusTmReader.cpp\<close>) and the writer that patches telemetry in place (\<open>PusTmZcWriter.cpp\<close>).

  A pointer into a packet is the byte sequence from it on, \<open>None\<close> for a null pointer. An object that
  implements \<open>SerializeIF\<close> is its serialization function together with its serialized size.
\<close>

section \<open>Telecommand creator\<close>

abbreviation INVALID_PUS_VERSION :: retval where "INVALID_PUS_VERSION \<equiv> RC 30 0"
abbreviation INVALID_CRC_16 :: retval where "INVALID_CRC_16 \<equiv> RC 30 1"
abbreviation PUS_C :: u8 where "PUS_C \<equiv> 2"
abbreviation ACK_ALL :: u8 where "ACK_ALL \<equiv> 0b1111"
abbreviation TC_MIN_SIZE :: nat where "TC_MIN_SIZE \<equiv> 5"

type_synonym ser_obj = "(Endianness \<Rightarrow> sink \<Rightarrow> nat \<Rightarrow> retval \<times> sink) \<times> nat"

record PusTcParams =
  tc_service :: u8
  tc_subservice :: u8
  tc_ackFlags :: u8
  tc_sourceId :: u16
  tc_bufAdapter :: "u8 buffer_adapter"
  tc_appData :: "ser_obj option"
  tc_pusVersion :: u8

definition ba_default :: "'c::len word buffer_adapter" where
  "ba_default = \<lparr>ba_serializeLength = False, ba_constBuffer = None, ba_buffer = None, ba_bufferLength = 0\<rparr>"

definition ba_obj :: "'c::len word buffer_adapter \<Rightarrow> ser_obj" where
  "ba_obj ba = (\<lambda>e. ba_serialize e ba, ba_getSerializedSize ba)"

definition tc_params_new :: "u8 \<Rightarrow> u8 \<Rightarrow> PusTcParams" where
  "tc_params_new service subservice =
     \<lparr>tc_service = service, tc_subservice = subservice, tc_ackFlags = ACK_ALL, tc_sourceId = 0,
      tc_bufAdapter = ba_default, tc_appData = None, tc_pusVersion = PUS_C\<rparr>"

definition tc_setRawAppData :: "bytes option \<Rightarrow> nat \<Rightarrow> PusTcParams \<Rightarrow> PusTcParams" where
  "tc_setRawAppData data len p =
     (let ba = ba_setConstBuffer data (of_nat len) (tc_bufAdapter p)
      in p\<lparr>tc_bufAdapter := ba, tc_appData := Some (ba_obj ba)\<rparr>)"

definition tc_setSerializableAppData :: "ser_obj \<Rightarrow> PusTcParams \<Rightarrow> PusTcParams" where
  "tc_setSerializableAppData obj p = p\<lparr>tc_appData := Some obj\<rparr>"

record tc_creator =
  tcc_sp :: sp_creator
  tcc_pus :: PusTcParams

definition tcc_updateSpLengthField :: "tc_creator \<Rightarrow> tc_creator" where
  "tcc_updateSpLengthField c =
     (let len = TC_MIN_SIZE + 2;
          len = (case tc_appData (tcc_pus c) of None \<Rightarrow> len | Some obj \<Rightarrow> len + snd obj)
      in c\<lparr>tcc_sp := setCcsdsLenFromTotalDataFieldLen len (tcc_sp c)\<rparr>)"

definition tcc_setup :: "tc_creator \<Rightarrow> tc_creator" where
  "tcc_setup c = tcc_updateSpLengthField
     (c\<lparr>tcc_sp := spc_setSeqFlags UNSEGMENTED (spc_setSecHeaderFlag (spc_setPacketType TC (tcc_sp c)))\<rparr>)"

definition tcc_new :: "SpacePacketParams \<Rightarrow> PusTcParams \<Rightarrow> tc_creator" where
  "tcc_new spParams pusParams = tcc_setup \<lparr>tcc_sp = spc_new spParams, tcc_pus = pusParams\<rparr>"

text \<open>The length is converted to the \<open>uint8_t\<close> of the adapter in the call of \<open>setConstBuffer\<close>.\<close>

definition tcc_setRawUserData :: "bytes option \<Rightarrow> nat \<Rightarrow> tc_creator \<Rightarrow> retval \<times> tc_creator" where
  "tcc_setRawUserData data len c =
     (let ba = ba_setConstBuffer data (of_nat len) (tc_bufAdapter (tcc_pus c)) in
      (OK, tcc_updateSpLengthField
         (c\<lparr>tcc_pus := (tcc_pus c)\<lparr>tc_bufAdapter := ba, tc_appData := Some (ba_obj ba)\<rparr>\<rparr>)))"

definition tcc_setSerializableUserData :: "ser_obj \<Rightarrow> tc_creator \<Rightarrow> retval \<times> tc_creator" where
  "tcc_setSerializableUserData obj c =
     (OK, tcc_updateSpLengthField (c\<lparr>tcc_pus := (tcc_pus c)\<lparr>tc_appData := Some obj\<rparr>\<rparr>))"

definition tcc_getFullPacketLen :: "tc_creator \<Rightarrow> nat" where
  "tcc_getFullPacketLen c = sp_getFullPacketLen (spc_getPacketDataLen (tcc_sp c))"

definition tcc_getSerializedSize :: "tc_creator \<Rightarrow> nat" where
  "tcc_getSerializedSize c = tcc_getFullPacketLen c"

text \<open>
  The checksum is taken over \<open>getFullPacketLen() - 2\<close> bytes from the start of the packet.
\<close>

definition tcc_serialize :: "Endianness \<Rightarrow> tc_creator \<Rightarrow> sink \<Rightarrow> nat \<Rightarrow> retval \<times> sink" where
  "tcc_serialize e c snk maxSize =
     (let start = length (fst snk); pus = tcc_pus c in
      if snd snk + tcc_getSerializedSize c > maxSize then (BUFFER_TOO_SHORT, snk)
      else if tc_pusVersion pus \<noteq> PUS_C then (INVALID_PUS_VERSION, snk)
      else (case spc_serialize e (tcc_sp c) snk maxSize of (result, snk) \<Rightarrow>
        if result \<noteq> OK then (result, snk)
        else
          (let snk = (fst snk @ [push_bit 4 (tc_pusVersion pus) OR tc_ackFlags pus, tc_service pus,
                                 tc_subservice pus], snd snk + 3) in
           case ser_word e (tc_sourceId pus) snk maxSize of (result, snk) \<Rightarrow>
             if result \<noteq> OK then (result, snk)
             else (case (case tc_appData pus of None \<Rightarrow> (OK, snk) | Some obj \<Rightarrow> fst obj e snk maxSize) of
               (result, snk) \<Rightarrow>
                 if result \<noteq> OK then (result, snk)
                 else ser_word e (crc16ccitt (take (tcc_getFullPacketLen c - 2) (drop start (fst snk))))
                        snk maxSize))))"

section \<open>Telecommand reader\<close>

record tc_reader =
  tcr_sp :: sp_reader
  tcr_spHeaderStart :: "bytes option"
  tcr_secHeaderStart :: "bytes option"
  tcr_userDataStart :: "bytes option"
  tcr_crcStart :: "bytes option"
  tcr_appDataSize :: u64

definition tcr_new :: tc_reader where
  "tcr_new = \<lparr>tcr_sp = spr_new, tcr_spHeaderStart = None, tcr_secHeaderStart = None,
     tcr_userDataStart = None, tcr_crcStart = None, tcr_appDataSize = 0\<rparr>"

definition tcr_setReadOnlyData :: "bytes option \<Rightarrow> nat \<Rightarrow> tc_reader \<Rightarrow> retval \<times> tc_reader" where
  "tcr_setReadOnlyData data n r =
     (case spr_setReadOnlyData data n (tcr_sp r) of (result, sp) \<Rightarrow>
        (result, r\<lparr>tcr_spHeaderStart := data, tcr_sp := sp\<rparr>))"

text \<open>The sizes are of type \<open>size_t\<close> and wrap around.\<close>

definition tcr_parseData :: "bool \<Rightarrow> tc_reader \<Rightarrow> retval \<times> tc_reader" where
  "tcr_parseData withCrc r =
     (case tcr_spHeaderStart r of
        None \<Rightarrow> (FAILED, r)
      | Some start \<Rightarrow>
          if spr_isNull (tcr_sp r) then (FAILED, r)
          else if spr_checkSize (tcr_sp r) \<noteq> OK then (spr_checkSize (tcr_sp r), r)
          else
            (let fullLen = spr_getFullPacketLen (tcr_sp r);
                 currentOffset = of_nat HEADER_LEN :: u64;
                 r = r\<lparr>tcr_secHeaderStart := Some (drop (unat currentOffset) start)\<rparr>;
                 currentOffset = currentOffset + of_nat TC_MIN_SIZE;
                 appDataSize = of_nat fullLen - currentOffset - 2;
                 r = r\<lparr>tcr_appDataSize := appDataSize,
                       tcr_userDataStart :=
                         (if appDataSize > 0 then Some (drop (unat currentOffset) start) else None)\<rparr>;
                 currentOffset = currentOffset + appDataSize;
                 r = r\<lparr>tcr_crcStart := Some (drop (unat currentOffset) start)\<rparr>
             in if withCrc \<and> crc16ccitt (take fullLen (the (spHeader (tcr_sp r)))) \<noteq> 0
                then (INVALID_CRC_16, r) else (OK, r)))"

definition tcr_getPusVersion :: "tc_reader \<Rightarrow> u8" where
  "tcr_getPusVersion r = drop_bit 4 (the (tcr_secHeaderStart r) ! 0) AND 0b1111"

definition tcr_getAcknowledgeFlags :: "tc_reader \<Rightarrow> u8" where
  "tcr_getAcknowledgeFlags r = the (tcr_secHeaderStart r) ! 0 AND 0b1111"

definition tcr_getService :: "tc_reader \<Rightarrow> u8" where
  "tcr_getService r = the (tcr_secHeaderStart r) ! 1"

definition tcr_getSubService :: "tc_reader \<Rightarrow> u8" where
  "tcr_getSubService r = the (tcr_secHeaderStart r) ! 2"

definition tcr_getSourceId :: "tc_reader \<Rightarrow> u16" where
  "tcr_getSourceId r =
     push_bit 8 (ucast (the (tcr_secHeaderStart r) ! 3)) OR ucast (the (tcr_secHeaderStart r) ! 4)"

definition tcr_getErrorControl :: "tc_reader \<Rightarrow> u16" where
  "tcr_getErrorControl r =
     push_bit 8 (ucast (the (tcr_crcStart r) ! 0)) OR ucast (the (tcr_crcStart r) ! 1)"

definition tcr_getUserDataLen :: "tc_reader \<Rightarrow> nat" where
  "tcr_getUserDataLen r = unat (tcr_appDataSize r)"

text \<open>The user data as a receiver takes it: the announced number of bytes at the pointer.\<close>

definition tcr_userData :: "tc_reader \<Rightarrow> bytes" where
  "tcr_userData r = (case tcr_userDataStart r of None \<Rightarrow> [] | Some d \<Rightarrow> take (tcr_getUserDataLen r) d)"

section \<open>What a telecommand creator writes\<close>

definition tc_sec_header :: "PusTcParams \<Rightarrow> bytes" where
  "tc_sec_header pus = [push_bit 4 (tc_pusVersion pus) OR tc_ackFlags pus, tc_service pus,
     tc_subservice pus, hi8 (tc_sourceId pus), lo8 (tc_sourceId pus)]"

definition tc_body :: "SpacePacketParams \<Rightarrow> PusTcParams \<Rightarrow> bytes \<Rightarrow> bytes" where
  "tc_body sp pus data = sp_header_bytes sp @ tc_sec_header pus @ data"

definition with_crc :: "bytes \<Rightarrow> bytes" where
  "with_crc body = body @ [hi8 (crc16ccitt body), lo8 (crc16ccitt body)]"

lemma length_tc_sec_header [simp]: "length (tc_sec_header pus) = 5"
  by (simp add: tc_sec_header_def)

lemma length_with_crc [simp]: "length (with_crc body) = length body + 2"
  by (simp add: with_crc_def)

lemma crc_with_crc: "crc16ccitt (with_crc body) = 0"
  unfolding with_crc_def by (simp add: crc_trailer_iff)

lemma ba_serialize_raw:
  assumes "\<not> ba_serializeLength ba" and "ba_constBuffer ba = Some data"
    and "unat (ba_bufferLength ba) = length data" and "n + length data \<le> m"
  shows "ba_serialize e ba (out, n) m = (OK, out @ data, n + length data)"
  using assms by (simp add: ba_serialize_def)

lemma tcc_serialize_data:
  assumes obj: "\<And>out n. n + length data \<le> m \<Longrightarrow> appData BIG (out, n) m = (OK, out @ data, n + length data)"
    and app: "tc_appData (tcc_pus c) = Some (appData, sz)"
    and v: "spc_valid (tcc_sp c)" "tc_pusVersion (tcc_pus c) = PUS_C"
    and len: "unat (sp_dataLen (spc_params (tcc_sp c))) = 6 + length data"
    and fit: "n + (13 + length data) \<le> m"
  shows "tcc_serialize BIG c (out, n) m =
    (OK, out @ with_crc (tc_body (spc_params (tcc_sp c)) (tcc_pus c) data), n + (13 + length data))"
proof -
  let ?p = "spc_params (tcc_sp c)" and ?pus = "tcc_pus c"
  have full: "tcc_getFullPacketLen c = 13 + length data"
    using len by (simp add: tcc_getFullPacketLen_def sp_getFullPacketLen_def spc_getPacketDataLen_def)
  have sp: "spc_serialize BIG (tcc_sp c) (out, n) m = (OK, out @ sp_header_bytes ?p, n + 6)"
    using v(1) fit by (simp add: spc_serialize_OK)
  let ?sec = "[32 OR tc_ackFlags ?pus, tc_service ?pus, tc_subservice ?pus, hi8 (tc_sourceId ?pus), lo8 (tc_sourceId ?pus)]"
  have sec: "tc_sec_header ?pus = ?sec" using v(2) by (simp add: tc_sec_header_def)
  have o: "appData BIG (out @ sp_header_bytes ?p @ ?sec, 11 + n) m =
      (OK, out @ tc_body ?p ?pus data, 11 + n + length data)"
    using obj [of "11 + n" "out @ sp_header_bytes ?p @ ?sec"] fit by (simp add: tc_body_def sec)
  have t: "take (11 + length data) (tc_body ?p ?pus data) = tc_body ?p ?pus data"
    by (simp add: tc_body_def)
  show ?thesis
    using fit v(2)
    by (simp add: tcc_serialize_def Let_def tcc_getSerializedSize_def full sp ser_u16_big app o t with_crc_def)
qed

lemma tcr_parse_packet:
  assumes len: "unat (sp_dataLen p) = 6 + length data" and n: "13 + length data \<le> n"
    and pkt: "pkt = sp_header_bytes p @ sec @ data @ crc @ rest" and "length sec = 5" and "length crc = 2"
    and set: "tcr_setReadOnlyData (Some pkt) n tcr_new = (res, r)"
    and parse: "tcr_parseData withCrc r = (res', r')"
  shows "res = OK" and "tcr_secHeaderStart r' = Some (sec @ data @ crc @ rest)"
    and "tcr_userData r' = data" and "tcr_crcStart r' = Some (crc @ rest)"
    and "tcr_sp r' = \<lparr>spHeader = Some pkt, packetDataField = Some (sec @ data @ crc @ rest), spr_bufSize = n\<rparr>"
    and "res' = (if withCrc \<and> crc16ccitt (take (13 + length data) pkt) \<noteq> 0 then INVALID_CRC_16 else OK)"
proof -
  define sp where "sp = \<lparr>spHeader = Some pkt, packetDataField = Some (sec @ data @ crc @ rest), spr_bufSize = n\<rparr>"
  have "spr_setReadOnlyData (Some pkt) n spr_new = (OK, sp)"
    using reader_set_header [of p n "sec @ data @ crc @ rest"] len n by (simp add: pkt sp_def)
  then have r: "res = OK" "r = tcr_new\<lparr>tcr_spHeaderStart := Some pkt, tcr_sp := sp\<rparr>"
    using set by (simp_all add: tcr_setReadOnlyData_def tcr_new_def)
  have full: "spr_getFullPacketLen sp = 13 + length data"
    using reader_of_header(4) [of sp p "sec @ data @ crc @ rest"] len by (simp add: pkt sp_def)
  have lb: "length data < 2 ^ 16"
    using len unsigned_less [of "sp_dataLen p", where ?'a = nat] by simp
  have u: "unat (of_nat (length data) :: u64) = length data"
    using lb by (simp add: unat_of_nat take_bit_nat_eq_self)
  have u2: "unat (11 + of_nat (length data) :: u64) = 11 + length data"
    using lb by (simp add: unat_word_ariths u)
  have chk: "spr_checkSize sp = OK" "\<not> spr_isNull sp" "the (spHeader sp) = pkt"
    using full n by (simp_all add: spr_checkSize_def spr_isNull_def sp_def)
  have z: "(0 :: u64) < of_nat (length data) \<longleftrightarrow> data \<noteq> []"
    using u by (auto simp: word_gt_0 dest!: arg_cong [where f = unat])
  have d: "drop 6 pkt = sec @ data @ crc @ rest" "drop 11 pkt = data @ crc @ rest"
      "drop (11 + length data) pkt = crc @ rest"
    using assms(4) by (simp_all add: pkt)
  have p: "tcr_parseData withCrc r =
      (if withCrc \<and> crc16ccitt (take (13 + length data) pkt) \<noteq> 0 then INVALID_CRC_16 else OK,
       r\<lparr>tcr_secHeaderStart := Some (sec @ data @ crc @ rest), tcr_appDataSize := of_nat (length data),
         tcr_userDataStart := (if data \<noteq> [] then Some (data @ crc @ rest) else None),
         tcr_crcStart := Some (crc @ rest)\<rparr>)"
    by (simp add: tcr_parseData_def r(2) chk full u2 z d Let_def)
  have r': "res' = (if withCrc \<and> crc16ccitt (take (13 + length data) pkt) \<noteq> 0 then INVALID_CRC_16 else OK)"
      "r' = r\<lparr>tcr_secHeaderStart := Some (sec @ data @ crc @ rest), tcr_appDataSize := of_nat (length data),
         tcr_userDataStart := (if data \<noteq> [] then Some (data @ crc @ rest) else None),
         tcr_crcStart := Some (crc @ rest)\<rparr>"
    using parse unfolding p by simp_all
  show "res = OK" by (rule r(1))
  show "tcr_secHeaderStart r' = Some (sec @ data @ crc @ rest)"
    "tcr_userData r' = data" "tcr_crcStart r' = Some (crc @ rest)"
    "tcr_sp r' = \<lparr>spHeader = Some pkt, packetDataField = Some (sec @ data @ crc @ rest), spr_bufSize = n\<rparr>"
    "res' = (if withCrc \<and> crc16ccitt (take (13 + length data) pkt) \<noteq> 0 then INVALID_CRC_16 else OK)"
    using u by (simp_all add: r' r(2) sp_def tcr_userData_def tcr_getUserDataLen_def)
qed

lemma tcc_raw_fields:
  fixes sp :: SpacePacketParams
  assumes "\<not> ba_serializeLength (tc_bufAdapter pus)" and "length data < 256"
  defines "c \<equiv> snd (tcc_setRawUserData (Some data) (length data) (tcc_new sp pus))"
  shows "spc_params (tcc_sp c) = sp\<lparr>sp_packetId := (sp_packetId sp)\<lparr>packetType := TC, secHeaderFlag := True\<rparr>,
      sp_packetSeqCtrl := (sp_packetSeqCtrl sp)\<lparr>seqFlags := UNSEGMENTED\<rparr>,
      sp_dataLen := of_nat (6 + length data)\<rparr>"
    and "spc_valid (tcc_sp c) = spc_valid (spc_new sp)"
    and "\<exists>ba :: u8 buffer_adapter. tc_appData (tcc_pus c) = Some (ba_obj ba) \<and> \<not> ba_serializeLength ba \<and>
      ba_constBuffer ba = Some data \<and> unat (ba_bufferLength ba) = length data"
    and "tcc_pus c = pus\<lparr>tc_bufAdapter := tc_bufAdapter (tcc_pus c), tc_appData := tc_appData (tcc_pus c)\<rparr>"
proof -
  let ?ba = "ba_setConstBuffer (Some data) (of_nat (length data)) (tc_bufAdapter pus)"
  have ad: "tc_appData (tcc_pus c) = Some (ba_obj ?ba)"
    by (simp add: c_def tcc_setRawUserData_def tcc_updateSpLengthField_def tcc_new_def tcc_setup_def Let_def)
  have "\<not> ba_serializeLength ?ba \<and> ba_constBuffer ?ba = Some data \<and> unat (ba_bufferLength ?ba) = length data"
    using assms(1,2) by (simp add: ba_setConstBuffer_def unat_of_nat take_bit_nat_eq_self)
  with ad show "\<exists>ba :: u8 buffer_adapter. tc_appData (tcc_pus c) = Some (ba_obj ba) \<and> \<not> ba_serializeLength ba \<and>
      ba_constBuffer ba = Some data \<and> unat (ba_bufferLength ba) = length data"
    by blast
qed (use assms(1,2) in \<open>simp_all add: c_def tcc_setRawUserData_def tcc_updateSpLengthField_def tcc_new_def tcc_setup_def
    setCcsdsLenFromTotalDataFieldLen_def spc_setDataLenField_def spc_setSeqFlags_def
    spc_setSecHeaderFlag_def spc_setPacketType_def ba_obj_def ba_setConstBuffer_def Let_def
    ba_getSerializedSize_def unat_of_nat take_bit_nat_eq_self spc_new_def checkFieldValidity_def
    split: option.splits\<close>)

text \<open>The fields of a telecommand as the reader returns them.\<close>

definition tc_fields_agree :: "SpacePacketParams \<Rightarrow> PusTcParams \<Rightarrow> bytes \<Rightarrow> tc_reader \<Rightarrow> bool" where
  "tc_fields_agree sp pus data r \<longleftrightarrow>
     sp_getApid (spr_getPacketIdRaw (tcr_sp r)) = apid (sp_packetId sp) \<and>
     sp_isTc (spr_getPacketIdRaw (tcr_sp r)) \<and> sp_hasSecHeader (spr_getPacketIdRaw (tcr_sp r)) \<and>
     sp_getSequenceCount (spr_getPacketSeqCtrlRaw (tcr_sp r)) = seqCount (sp_packetSeqCtrl sp) \<and>
     tcr_getPusVersion r = tc_pusVersion pus \<and> tcr_getAcknowledgeFlags r = tc_ackFlags pus \<and>
     tcr_getService r = tc_service pus \<and> tcr_getSubService r = tc_subservice pus \<and>
     tcr_getSourceId r = tc_sourceId pus \<and> tcr_userData r = data"

lemma sec_header_fields:
  assumes "tcr_secHeaderStart r = Some (tc_sec_header pus @ xs)"
    and "tc_ackFlags pus < 16" and "tc_pusVersion pus = PUS_C"
  shows "tcr_getPusVersion r = tc_pusVersion pus" "tcr_getAcknowledgeFlags r = tc_ackFlags pus"
    "tcr_getService r = tc_service pus" "tcr_getSubService r = tc_subservice pus"
    "tcr_getSourceId r = tc_sourceId pus"
proof -
  have b: "bit (tc_ackFlags pus) n \<Longrightarrow> n < 4" for n using assms(2) bit_below [of "tc_ackFlags pus" 4 n] by simp
  then have nb: "\<not> bit (tc_ackFlags pus) 4" "\<not> bit (tc_ackFlags pus) 5" "\<not> bit (tc_ackFlags pus) 6"
      "\<not> bit (tc_ackFlags pus) 7"
    by (auto dest: b)
  show "tcr_getPusVersion r = tc_pusVersion pus" "tcr_getAcknowledgeFlags r = tc_ackFlags pus"
    using nb by (simp_all add: tcr_getPusVersion_def tcr_getAcknowledgeFlags_def assms(1,3) tc_sec_header_def)
      ((rule byte_eqI, erule byte_bit_cases; simp add: bit_simps)+)
  show "tcr_getService r = tc_service pus" "tcr_getSubService r = tc_subservice pus"
    by (simp_all add: tcr_getService_def tcr_getSubService_def assms(1) tc_sec_header_def)
  have "push_bit 8 (ucast (hi8 w)) OR ucast (lo8 w) = w" for w :: u16
    using be16_hi8_lo8 [of w] by (simp only: be16_def)
  then show "tcr_getSourceId r = tc_sourceId pus"
    by (simp add: tcr_getSourceId_def assms(1) tc_sec_header_def)
qed

lemma tc_roundtrip_aux:
  assumes raw: "\<not> ba_serializeLength (tc_bufAdapter pus)" "length data < 256"
    and ok: "apid (sp_packetId sp) < LIMIT_APID" "seqCount (sp_packetSeqCtrl sp) < LIMIT_SEQUENCE_COUNT"
      "tc_ackFlags pus < 16" "tc_pusVersion pus = PUS_C"
    and m: "13 + length data \<le> m"
  shows "\<exists>pkt. tcc_serialize BIG (snd (tcc_setRawUserData (Some data) (length data) (tcc_new sp pus))) ([], 0) m =
      (OK, pkt, 13 + length data) \<and> length pkt = 13 + length data \<and> crc16ccitt pkt = 0 \<and>
    (\<forall>rest n r0 r res res'. length pkt \<le> n \<longrightarrow>
       tcr_setReadOnlyData (Some (pkt @ rest)) n tcr_new = (res, r0) \<longrightarrow>
       tcr_parseData True r0 = (res', r) \<longrightarrow> res = OK \<and> res' = OK \<and> tc_fields_agree sp pus data r \<and>
         spr_getFullPacketLen (tcr_sp r) = length pkt)"
proof -
  define c where "c = snd (tcc_setRawUserData (Some data) (length data) (tcc_new sp pus))"
  note f = tcc_raw_fields [OF raw, of sp, folded c_def]
  let ?p = "spc_params (tcc_sp c)"
  obtain ba :: "u8 buffer_adapter" where ba: "tc_appData (tcc_pus c) = Some (ba_obj ba)" "\<not> ba_serializeLength ba"
      "ba_constBuffer ba = Some data" "unat (ba_bufferLength ba) = length data"
    using f(3) by blast
  have pus: "tc_ackFlags (tcc_pus c) = tc_ackFlags pus" "tc_pusVersion (tcc_pus c) = tc_pusVersion pus"
      "tc_service (tcc_pus c) = tc_service pus" "tc_subservice (tcc_pus c) = tc_subservice pus"
      "tc_sourceId (tcc_pus c) = tc_sourceId pus"
    by (subst f(4), simp)+
  have v: "spc_valid (tcc_sp c)"
    using ok(1,2) by (auto simp: f(2) spc_new_def checkFieldValidity_def)
  have l: "unat (sp_dataLen ?p) = 6 + length data"
    using raw(2) by (simp add: f(1) unat_of_nat take_bit_nat_eq_self flip: of_nat_add)
  define pkt where "pkt = with_crc (tc_body ?p (tcc_pus c) data)"
  have ser: "tcc_serialize BIG c ([], 0) m = (OK, pkt, 13 + length data)"
    using tcc_serialize_data [of data m "\<lambda>e. ba_serialize e ba" c "ba_getSerializedSize ba" 0 "[]"]
      ba_serialize_raw [OF ba(2-4)] ba(1) v ok(4) pus l m
    by (simp add: ba_obj_def pkt_def)
  have len: "length pkt = 13 + length data" by (simp add: pkt_def tc_body_def)
  have "res = OK \<and> res' = OK \<and> tc_fields_agree sp pus data r \<and> spr_getFullPacketLen (tcr_sp r) = length pkt"
    if n: "length pkt \<le> n" and set: "tcr_setReadOnlyData (Some (pkt @ rest)) n tcr_new = (res, r0)"
      and parse: "tcr_parseData True r0 = (res', r)" for rest n r0 r res res'
  proof -
    let ?crc = "[hi8 (crc16ccitt (tc_body ?p (tcc_pus c) data)), lo8 (crc16ccitt (tc_body ?p (tcc_pus c) data))]"
    have e: "pkt @ rest = sp_header_bytes ?p @ tc_sec_header (tcc_pus c) @ data @ ?crc @ rest"
      by (simp add: pkt_def with_crc_def tc_body_def)
    have n': "13 + length data \<le> n" using n len by simp
    note q = tcr_parse_packet [OF l n' e _ _ set parse]
    have "take (13 + length data) (pkt @ rest) = pkt" using len by simp
    then have crc: "crc16ccitt (take (13 + length data) (pkt @ rest)) = 0"
      by (simp add: pkt_def crc_with_crc)
    have sec: "tcr_secHeaderStart r = Some (tc_sec_header (tcc_pus c) @ (data @ ?crc @ rest))" using q(2) by simp
    note h = sec_header_fields [OF sec, unfolded pus, OF ok(3,4)]
    have spr: "tcr_sp r = \<lparr>spHeader = Some (sp_header_bytes ?p @ (tc_sec_header (tcc_pus c) @ data @ ?crc @ rest)),
        packetDataField = Some (tc_sec_header (tcc_pus c) @ data @ ?crc @ rest), spr_bufSize = n\<rparr>"
      using q(5) by (simp add: e)
    have pid: "pid_fromRaw (spr_getPacketIdRaw (tcr_sp r)) = sp_packetId ?p"
      using reader_of_header(1) [OF spr] pid_roundtrip [of "sp_packetId ?p"] ok(1) by (simp add: f(1))
    have psc: "psc_fromRaw (spr_getPacketSeqCtrlRaw (tcr_sp r)) = sp_packetSeqCtrl ?p"
      using reader_of_header(2) [OF spr] psc_roundtrip [of "sp_packetSeqCtrl ?p"] ok(2) by (simp add: f(1))
    have "spr_getFullPacketLen (tcr_sp r) = length pkt"
      using reader_of_header(4) [OF spr] l len by simp
    then show ?thesis
      using q(1,3,6) crc h
      by (simp add: tc_fields_agree_def sp_accessors sp_isTc_def pid psc) (simp add: f(1))
  qed
  moreover have "crc16ccitt pkt = 0" by (simp add: pkt_def crc_with_crc)
  ultimately show ?thesis using ser len unfolding c_def by blast
qed

section \<open>Properties of telecommands\<close>

text \<open>
  C30: round trip of telecommands. A telecommand with up to 255 bytes of raw user data and fields in
  range is serialized into a buffer that is large enough; the reader, given these bytes and whatever
  follows them, accepts size and checksum and returns the APID, sequence count, packet type, PUS
  version, acknowledge flags, service, subservice, source identifier and user data.
\<close>

theorem tc_packet_roundtrip:
  assumes "\<not> ba_serializeLength (tc_bufAdapter pus)" and "length data < 256"
    and "apid (sp_packetId sp) < LIMIT_APID" and "seqCount (sp_packetSeqCtrl sp) < LIMIT_SEQUENCE_COUNT"
    and "tc_ackFlags pus < 16" and "tc_pusVersion pus = PUS_C" and "13 + length data \<le> m"
    and "tcc_serialize BIG (snd (tcc_setRawUserData (Some data) (length data) (tcc_new sp pus))) ([], 0) m =
      (res0, pkt, k)"
    and "length pkt \<le> n" and "tcr_setReadOnlyData (Some (pkt @ rest)) n tcr_new = (res, r0)"
    and "tcr_parseData True r0 = (res', r)"
  shows "res0 = OK \<and> k = 13 + length data \<and> length pkt = k \<and> res = OK \<and> res' = OK \<and>
    tc_fields_agree sp pus data r"
  using tc_roundtrip_aux [OF assms(1-7)] assms(8-11) by auto

theorem tc_packet_roundtrip_witness:
  "let c = snd (tcc_setRawUserData (Some [7, 8]) (length [7 :: u8, 8])
         (tcc_new (spc_params (spc_new_fields TC True 0x123 UNSEGMENTED 77 1 0)) (tc_params_new 17 1)));
       pkt = fst (snd (tcc_serialize BIG c ([], 0) 20));
       r = snd (tcr_parseData True (snd (tcr_setReadOnlyData (Some (pkt @ [])) 20 tcr_new)))
   in tcr_userData r = [7, 8] \<and> tcr_getService r = 17"
proof -
  let ?sp = "spc_params (spc_new_fields TC True 0x123 UNSEGMENTED 77 1 0)" and ?pus = "tc_params_new 17 1"
  let ?c = "snd (tcc_setRawUserData (Some [7, 8]) (length [7 :: u8, 8]) (tcc_new ?sp ?pus))"
  have f: "\<not> ba_serializeLength (tc_bufAdapter ?pus)" "tc_ackFlags ?pus < 16" "tc_pusVersion ?pus = PUS_C"
      "apid (sp_packetId ?sp) < LIMIT_APID" "seqCount (sp_packetSeqCtrl ?sp) < LIMIT_SEQUENCE_COUNT"
      "tc_service ?pus = 17"
    by (simp_all add: tc_params_new_def ba_default_def spc_new_fields_def spc_new_def checkFieldValidity_def)
  obtain res0 pkt k where s: "tcc_serialize BIG ?c ([], 0) 20 = (res0, pkt, k)"
    by (cases "tcc_serialize BIG ?c ([], 0) 20") auto
  obtain res r0 where t: "tcr_setReadOnlyData (Some (pkt @ [])) 20 tcr_new = (res, r0)"
    by (cases "tcr_setReadOnlyData (Some (pkt @ [])) 20 tcr_new") auto
  obtain res' r where q: "tcr_parseData True r0 = (res', r)" by (cases "tcr_parseData True r0") auto
  have l: "length pkt \<le> 20"
  proof -
    have "length [7 :: u8, 8] < 256" "13 + length [7 :: u8, 8] \<le> 20" by simp_all
    from tc_roundtrip_aux [OF f(1) this(1) f(4,5,2,3) this(2)] s show ?thesis by auto
  qed
  have "tc_fields_agree ?sp ?pus [7, 8] r"
    using tc_packet_roundtrip [OF f(1) _ f(4,5,2,3) _ s l t q] by simp
  then show ?thesis using s t q by (simp add: tc_fields_agree_def f)
qed

text \<open>
  The length of raw user data: it passes through the \<open>uint8_t\<close> of the buffer adapter. Of 256
  bytes and more only the length modulo 256 is announced and written.
\<close>

theorem tc_raw_user_data_truncated:
  assumes "\<not> ba_serializeLength (tc_bufAdapter (tcc_pus c))"
  shows "tcc_getSerializedSize (snd (tcc_setRawUserData data len c)) = 13 + len mod 256"
proof -
  have "len mod 256 < 256" by simp
  then have "unat (6 + of_nat (len mod 256) :: u16) = 6 + len mod 256"
    by (simp add: unat_word_ariths unat_of_nat take_bit_nat_eq_self less_imp_le)
  moreover have "unat (of_nat len :: u8) = len mod 256" by (simp add: unat_of_nat take_bit_eq_mod)
  ultimately show ?thesis
    using assms by (simp add: tcc_getSerializedSize_def tcc_getFullPacketLen_def tcc_setRawUserData_def
      tcc_updateSpLengthField_def Let_def ba_obj_def ba_getSerializedSize_def ba_setConstBuffer_def
      setCcsdsLenFromTotalDataFieldLen_def spc_setDataLenField_def spc_getPacketDataLen_def
      sp_getFullPacketLen_def)
qed

end
