(* ===== verification/Ccsds_Time.thy ===== *)
theory Ccsds_Time
  imports Complex_Main Serialize "HOL-Library.Signed_Division"
begin

text \<open>
  CCSDS time codes, \<open>src/src/fsfw/timemanager/CCSDSTime.cpp\<close>: the day-segmented (CDS), calendar
  (CCS), unsegmented (CUC) and ASCII formats, the conversions of the clock
  (\<open>timemanager/ClockCommon.cpp\<close>, \<open>osal/linux/Clock.cpp\<close>) they call, the time stamper
  \<open>CdsShortTimeStamper.cpp\<close> and the timer \<open>Countdown.cpp\<close>.

  Parameters, gathered in \<open>time_env\<close>, are the functions of the C library: \<open>sscanf\<close> with the two
  formats the code uses, \<open>timegm\<close> and \<open>gmtime\<close>; and whether the mutex of the clock exists or can be
  created. The fields of a \<open>timeval\<close> are 64 bit signed integers that the code keeps in range.
  An output parameter is passed in and returned.
\<close>

section \<open>Data\<close>

abbreviation UNSUPPORTED_TIME_FORMAT :: retval where "UNSUPPORTED_TIME_FORMAT \<equiv> RC 16 0"
abbreviation NOT_ENOUGH_INFORMATION :: retval where "NOT_ENOUGH_INFORMATION \<equiv> RC 16 1"
abbreviation LENGTH_MISMATCH :: retval where "LENGTH_MISMATCH \<equiv> RC 16 2"
abbreviation INVALID_TIME_FORMAT :: retval where "INVALID_TIME_FORMAT \<equiv> RC 16 3"
abbreviation INVALID_DAY_OF_YEAR :: retval where "INVALID_DAY_OF_YEAR \<equiv> RC 16 4"
abbreviation TIME_DOES_NOT_FIT_FORMAT :: retval where "TIME_DOES_NOT_FIT_FORMAT \<equiv> RC 16 5"
abbreviation BAD_TIMESTAMP :: retval where "BAD_TIMESTAMP \<equiv> RC 55 1"

abbreviation SECONDS_PER_DAY :: "'a::numeral" where "SECONDS_PER_DAY \<equiv> 86400"
abbreviation DAYS_CCSDS_TO_UNIX_EPOCH :: "'a::numeral" where "DAYS_CCSDS_TO_UNIX_EPOCH \<equiv> 4383"

text \<open>The time code identifications, bits 4 to 6 of the P field.\<close>

abbreviation CCS :: u8 where "CCS \<equiv> 0b101"
abbreviation CUC_LEVEL1 :: u8 where "CUC_LEVEL1 \<equiv> 0b001"
abbreviation CDS :: u8 where "CDS \<equiv> 0b100"
abbreviation AGENCY_DEFINED :: u8 where "AGENCY_DEFINED \<equiv> 0b110"

record timeval =
  tv_sec :: int
  tv_usec :: int

record TimeOfDay =
  year :: u32
  month :: u32
  day :: u32
  hour :: u32
  minute :: u32
  second :: u32
  usecond :: u32

record CDS_short =
  cds_pField :: u8
  dayMSB :: u8
  dayLSB :: u8
  msDay_hh :: u8
  msDay_h :: u8
  msDay_l :: u8
  msDay_ll :: u8

record Ccs_seconds =
  ccs_pField :: u8
  yearMSB :: u8
  yearLSB :: u8
  ccs_month :: u8
  ccs_day :: u8
  ccs_hour :: u8
  ccs_minute :: u8
  ccs_second :: u8

text \<open>\<open>Ccs_mseconds\<close> has the fields of \<open>Ccs_seconds\<close> and two more.\<close>

record Ccs_mseconds = Ccs_seconds +
  secondEminus2 :: u8
  secondEminus4 :: u8

record OBT_FLP =
  obt_pFiled :: u8
  seconds_hh :: u8
  seconds_h :: u8
  seconds_l :: u8
  seconds_ll :: u8
  subsecondsMSB :: u8
  subsecondsLSB :: u8

text \<open>The structures are packed bytes; these are their images in memory.\<close>

definition cds_bytes :: "CDS_short \<Rightarrow> bytes" where
  "cds_bytes c = [cds_pField c, dayMSB c, dayLSB c, msDay_hh c, msDay_h c, msDay_l c, msDay_ll c]"

definition ccs_bytes :: "'a Ccs_seconds_scheme \<Rightarrow> bytes" where
  "ccs_bytes c = [ccs_pField c, yearMSB c, yearLSB c, ccs_month c, ccs_day c, ccs_hour c,
     ccs_minute c, ccs_second c]"

definition ccs_ms_bytes :: "Ccs_mseconds \<Rightarrow> bytes" where
  "ccs_ms_bytes c = ccs_bytes c @ [secondEminus2 c, secondEminus4 c]"

text \<open>The fields of the C library's broken-down time the code uses, and the environment.\<close>

record tm =
  tm_year :: int
  tm_mon :: int
  tm_mday :: int
  tm_hour :: int
  tm_min :: int
  tm_sec :: int

record time_env =
  scan_a :: "bytes \<Rightarrow> (u16 \<times> u8 \<times> u16 \<times> u8 \<times> u8 \<times> rat) option"
  scan_b :: "bytes \<Rightarrow> (u16 \<times> u16 \<times> u8 \<times> u8 \<times> rat) option"
  timegm :: "tm \<Rightarrow> int"
  gmtime :: "int \<Rightarrow> tm"
  clock_mutex :: bool

section \<open>Clock conversions\<close>

definition convertTimeOfDayToTimeval :: "time_env \<Rightarrow> TimeOfDay \<Rightarrow> retval \<times> timeval" where
  "convertTimeOfDayToTimeval env from =
     (let fromTm = \<lparr>tm_year = sint (year from - 1900), tm_mon = sint (month from - 1),
            tm_mday = sint (day from), tm_hour = sint (hour from), tm_min = sint (minute from),
            tm_sec = sint (second from)\<rparr>
      in (OK, \<lparr>tv_sec = timegm env fromTm, tv_usec = uint (usecond from)\<rparr>))"

definition convertTimevalToTimeOfDay :: "time_env \<Rightarrow> timeval \<Rightarrow> TimeOfDay \<Rightarrow> retval \<times> TimeOfDay" where
  "convertTimevalToTimeOfDay env from to =
     (if \<not> clock_mutex env then (FAILED, to)
      else
        (let timeInfo = gmtime env (tv_sec from)
         in (OK, \<lparr>year = of_int (tm_year timeInfo + 1900), month = of_int (tm_mon timeInfo + 1),
              day = of_int (tm_mday timeInfo), hour = of_int (tm_hour timeInfo),
              minute = of_int (tm_min timeInfo), second = of_int (tm_sec timeInfo),
              usecond = of_int (tv_usec from)\<rparr>)))"

section \<open>Calendar\<close>

definition isLeapYear :: "u32 \<Rightarrow> bool" where
  "isLeapYear y =
     (if y mod 400 = 0 then True else if y mod 100 = 0 then False else y mod 4 = 0)"

definition checkTimeOfDay :: "TimeOfDay \<Rightarrow> retval" where
  "checkTimeOfDay time =
     (if month time > 12 \<or> month time = 0 then INVALID_TIME_FORMAT
      else if day time = 0 then INVALID_TIME_FORMAT
      else if day time >
          (if month time = 2 then (if isLeapYear (year time) then 29 else 28)
           else if month time = 4 \<or> month time = 6 \<or> month time = 9 \<or> month time = 11 then 30
           else 31) then INVALID_TIME_FORMAT
      else if hour time > 23 then INVALID_TIME_FORMAT
      else if minute time > 59 then INVALID_TIME_FORMAT
      else if second time > 59 then INVALID_TIME_FORMAT
      else if usecond time > 999999 then INVALID_TIME_FORMAT
      else OK)"

text \<open>The loop from March on: the months alternate between 31 and 30 days, July and August apart.\<close>

function doy_loop :: "u8 \<Rightarrow> u16 \<Rightarrow> u8 \<Rightarrow> retval \<times> u8 \<times> u8" where
  "doy_loop m dayofYear d =
     (if m \<le> 12 then
        if dayofYear \<le> 31 then (OK, m, ucast dayofYear)
        else if m + 1 = 8 then doy_loop (m + 1) (dayofYear - 31) d
        else if dayofYear - 31 \<le> 30 then (OK, m + 1, ucast (dayofYear - 31))
        else doy_loop (m + 1 + 1) (dayofYear - 31 - 30) d
      else (INVALID_DAY_OF_YEAR, m, d))"
  by pat_completeness auto

lemma month_steps:
  assumes "(m :: u8) \<le> 12"
  shows "unat (m + 1) = unat m + 1" and "unat (m + 1 + 1) = unat m + 2"
proof -
  from assms have "unat m \<le> 12" by (simp add: word_le_nat_alt)
  then show "unat (m + 1) = unat m + 1" "unat (m + 1 + 1) = unat m + 2"
    by (simp_all add: unat_word_ariths)
qed

termination doy_loop
proof (relation "measure (\<lambda>(m, _, _). 13 - unat m)", goal_cases)
  case (2 m dayofYear d)
  have "unat m \<le> 12" using 2(1) by (simp add: word_le_nat_alt)
  then show ?case unfolding in_measure prod.case month_steps(1) [OF 2(1)] by linarith
next
  case (3 m dayofYear d)
  have "unat m \<le> 12" using 3(1) by (simp add: word_le_nat_alt)
  then show ?case unfolding in_measure prod.case month_steps(2) [OF 3(1)] by linarith
qed simp

declare doy_loop.simps [simp del]

text \<open>The month and the day are output parameters.\<close>

definition convertDaysOfYear :: "u16 \<Rightarrow> u16 \<Rightarrow> u8 \<times> u8 \<Rightarrow> retval \<times> u8 \<times> u8" where
  "convertDaysOfYear dayofYear y out =
     (if dayofYear > (if isLeapYear (ucast y) then 366 else 365) then (INVALID_DAY_OF_YEAR, out)
      else if dayofYear \<le> 31 then (OK, 1, ucast dayofYear)
      else
        (let dayofYear = dayofYear - 31; february = (if isLeapYear (ucast y) then 29 else 28) in
         if dayofYear \<le> february then (OK, 2, ucast dayofYear)
         else doy_loop 3 (dayofYear - february) (snd out)))"

section \<open>Encoding\<close>

definition convertToCcsds_seconds :: "Ccs_seconds \<Rightarrow> TimeOfDay \<Rightarrow> retval \<times> Ccs_seconds" where
  "convertToCcsds_seconds to from =
     (let result = checkTimeOfDay from in
      if result \<noteq> OK then (result, to)
      else (OK, \<lparr>ccs_pField = push_bit 4 CCS, yearMSB = ucast (drop_bit 8 (year from)),
              yearLSB = ucast (year from AND 0xff), ccs_month = ucast (month from),
              ccs_day = ucast (day from), ccs_hour = ucast (hour from),
              ccs_minute = ucast (minute from), ccs_second = ucast (second from)\<rparr>))"

definition convertToCcsds_mseconds :: "Ccs_mseconds \<Rightarrow> TimeOfDay \<Rightarrow> retval \<times> Ccs_mseconds" where
  "convertToCcsds_mseconds to from =
     (let result = checkTimeOfDay from in
      if result \<noteq> OK then (result, to)
      else (OK, \<lparr>ccs_pField = push_bit 4 CCS + 2, yearMSB = ucast (drop_bit 8 (year from)),
              yearLSB = ucast (year from AND 0xff), ccs_month = ucast (month from),
              ccs_day = ucast (day from), ccs_hour = ucast (hour from),
              ccs_minute = ucast (minute from), ccs_second = ucast (second from),
              secondEminus2 = ucast (usecond from div 10000),
              secondEminus4 = ucast ((usecond from mod 10000) div 100)\<rparr>))"

text \<open>
  Division and remainder of the signed \<open>tv_sec\<close> truncate towards zero; the results are stored as
  \<open>uint32_t\<close>.
\<close>

definition convertToCcsds_cds :: "CDS_short \<Rightarrow> timeval \<Rightarrow> retval \<times> CDS_short" where
  "convertToCcsds_cds to from =
     (let to = to\<lparr>cds_pField := push_bit 4 CDS + 0\<rparr>;
          days = of_int (tv_sec from sdiv SECONDS_PER_DAY + DAYS_CCSDS_TO_UNIX_EPOCH) :: u32
      in if days > push_bit 16 1 then (TIME_DOES_NOT_FIT_FORMAT, to)
         else
           (let to = to\<lparr>dayMSB := ucast (drop_bit 8 (days AND 0xFF00)), dayLSB := ucast (days AND 0xFF)\<rparr>;
                msDay = of_int ((tv_sec from smod SECONDS_PER_DAY) * 1000 + tv_usec from sdiv 1000) :: u32
            in (OK, to\<lparr>msDay_hh := ucast (drop_bit 24 (msDay AND 0xFF000000)),
                        msDay_h := ucast (drop_bit 16 (msDay AND 0xFF0000)),
                        msDay_l := ucast (drop_bit 8 (msDay AND 0xFF00)),
                        msDay_ll := ucast (msDay AND 0xFF)\<rparr>)))"

text \<open>
  The quotient by \<open>1E6\<close> is computed in double precision and truncated; for the microseconds of a
  valid \<open>timeval\<close> this is integer division.
\<close>

definition convertToCcsds_obt :: "timeval \<Rightarrow> retval \<times> OBT_FLP" where
  "convertToCcsds_obt from =
     (let s = of_int (tv_sec from) :: u64;
          temp = push_bit 16 (of_int (tv_usec from)) div 1000000 :: u64
      in (OK, \<lparr>obt_pFiled = push_bit 4 AGENCY_DEFINED + 5,
            seconds_hh = ucast (drop_bit 24 s AND 0xff), seconds_h = ucast (drop_bit 16 s AND 0xff),
            seconds_l = ucast (drop_bit 8 s AND 0xff), seconds_ll = ucast (s AND 0xff),
            subsecondsMSB = ucast (drop_bit 8 temp AND 0xff), subsecondsLSB = ucast (temp AND 0xff)\<rparr>))"

section \<open>Decoding\<close>

subsection \<open>ASCII\<close>

text \<open>The seconds are a \<open>float\<close>, whose integral and fractional parts are computed exactly.\<close>

definition ascii_time :: "u16 \<Rightarrow> u8 \<Rightarrow> u16 \<Rightarrow> u8 \<Rightarrow> u8 \<Rightarrow> rat \<Rightarrow> TimeOfDay" where
  "ascii_time y mo d h mi s =
     \<lparr>year = ucast y, month = ucast mo, day = ucast d, hour = ucast h, minute = ucast mi,
      second = of_int \<lfloor>s\<rfloor>, usecond = of_int \<lfloor>(s - of_int \<lfloor>s\<rfloor>) * 1000000\<rfloor>\<rparr>"

definition convertFromASCII :: "time_env \<Rightarrow> TimeOfDay \<Rightarrow> bytes \<Rightarrow> u8 \<Rightarrow> retval \<times> TimeOfDay" where
  "convertFromASCII env to from len =
     (if len < 19 then (FAILED, to)
      else
        (case scan_a env from of
           Some (y, mo, d, h, mi, s) \<Rightarrow> (OK, ascii_time y mo d h mi s)
         | None \<Rightarrow>
             (case scan_b env from of
                Some (y, d, h, mi, s) \<Rightarrow>
                  (case convertDaysOfYear d y (0, 0) of (result, mo, tempDay) \<Rightarrow>
                     if result \<noteq> OK then (FAILED, to)
                     else (OK, ascii_time y mo (ucast tempDay) h mi s))
              | None \<Rightarrow> (UNSUPPORTED_TIME_FORMAT, to))))"

subsection \<open>Calendar segmented\<close>

text \<open>The bytes of the subseconds: each holds two decimal digits.\<close>

fun check_additional :: "nat \<Rightarrow> bytes \<Rightarrow> bool" where
  "check_additional 0 bs = True"
| "check_additional (Suc n) bs = (if hd bs > 99 then False else check_additional n (tl bs))"

definition checkCcs :: "bytes \<Rightarrow> u8 \<Rightarrow> retval" where
  "checkCcs time len =
     (let additionalBytes = time ! 0 AND 0b111 in
      if additionalBytes = 0b111 \<or> unat len < unat additionalBytes + 8 then INVALID_TIME_FORMAT
      else if (if bit (time ! 0) 3 then
                 push_bit 8 (ucast (time ! 3)) + ucast (time ! 4) > (366 :: u16)
               else time ! 3 > 12 \<or> time ! 4 > 31) then INVALID_TIME_FORMAT
      else if time ! 5 > 23 then INVALID_TIME_FORMAT
      else if time ! 6 > 59 then INVALID_TIME_FORMAT
      else if time ! 7 > 59 then INVALID_TIME_FORMAT
      else if check_additional (unat additionalBytes) (drop 8 time) then OK
      else INVALID_TIME_FORMAT)"

text \<open>
  \<open>foundLength\<close> is an output parameter of its own. \<open>checkCcs\<close> gets the length as a \<open>uint8_t\<close>.
\<close>

definition convertFromCCS_tod ::
  "TimeOfDay \<Rightarrow> bytes \<Rightarrow> nat \<Rightarrow> nat \<Rightarrow> retval \<times> TimeOfDay \<times> nat" where
  "convertFromCCS_tod to from foundLength maxLength =
     (let subsecondsLength = from ! 0 AND 0b111; totalLength = unat subsecondsLength + 8 in
      if maxLength < totalLength then (LENGTH_MISMATCH, to, foundLength)
      else
        (let foundLength = totalLength; result = checkCcs from (of_nat maxLength) in
         if result \<noteq> OK then (result, to, foundLength)
         else
           (let y = push_bit 8 (ucast (from ! 1)) + ucast (from ! 2) :: u32;
                to = to\<lparr>year := y, hour := ucast (from ! 5), minute := ucast (from ! 6),
                        second := ucast (from ! 7)\<rparr>;
                (result, m, d) =
                  (if bit (from ! 0) 3 then
                     convertDaysOfYear (push_bit 8 (ucast (from ! 3)) + ucast (from ! 4)) (ucast y) (0, 0)
                   else (OK, from ! 3, from ! 4))
            in if result \<noteq> OK then (result, to, foundLength)
               else
                 (let to = to\<lparr>month := ucast m, day := ucast d, usecond := 0\<rparr> in
                  if subsecondsLength = 0 then (OK, to, foundLength)
                  else if from ! 8 \<ge> 100 then (INVALID_TIME_FORMAT, to, foundLength + 1)
                  else
                    (let to = to\<lparr>usecond := ucast (from ! 8) * 10000\<rparr> in
                     if subsecondsLength = 1 then (OK, to, foundLength + 1)
                     else if from ! 9 \<ge> 100 then (INVALID_TIME_FORMAT, to, foundLength + 2)
                     else (OK, to\<lparr>usecond := usecond to + ucast (from ! 9) * 100\<rparr>, foundLength + 2))))))"

definition tod_zero :: TimeOfDay where
  "tod_zero = \<lparr>year = 0, month = 0, day = 0, hour = 0, minute = 0, second = 0, usecond = 0\<rparr>"

definition convertFromCCS_timeval ::
  "time_env \<Rightarrow> timeval \<Rightarrow> bytes \<Rightarrow> nat \<Rightarrow> nat \<Rightarrow> retval \<times> timeval \<times> nat" where
  "convertFromCCS_timeval env to from foundLength maxLength =
     (case convertFromCCS_tod tod_zero from foundLength maxLength of (result, tempTime, foundLength) \<Rightarrow>
        if result \<noteq> OK then (result, to, foundLength)
        else (case convertTimeOfDayToTimeval env tempTime of (r, tv) \<Rightarrow> (r, tv, foundLength)))"

subsection \<open>Day segmented\<close>

definition be_u32 :: "bytes \<Rightarrow> u32" where
  "be_u32 from = push_bit 24 (ucast (from ! 0)) + push_bit 16 (ucast (from ! 1)) +
     push_bit 8 (ucast (from ! 2)) + ucast (from ! 3)"

text \<open>
  \<open>days * SECONDS_PER_DAY\<close> is a product of \<open>uint32_t\<close> values. The microseconds of the day are
  shifted as in the source.
\<close>

definition convertFromCDS ::
  "timeval \<Rightarrow> bytes \<Rightarrow> nat option \<Rightarrow> nat \<Rightarrow> retval \<times> timeval \<times> nat option" where
  "convertFromCDS to from foundLength maxLength =
     (let pField = from ! 0; from = tl from in
      if bit pField 3 then (NOT_ENOUGH_INFORMATION, to, foundLength)
      else
        (let extendedDays = bit pField 2;
             expectedLength = 7 + (if extendedDays then 1 else 0) +
               (if pField AND 0b11 = 0b01 then 2 else if pField AND 0b11 = 0b10 then 4 else 0);
             foundLength = map_option (\<lambda>_. expectedLength) foundLength
         in if expectedLength > maxLength then (LENGTH_MISMATCH, to, foundLength)
            else
              (let (days, from) =
                     (if extendedDays then
                        (push_bit 16 (ucast (from ! 0)) + push_bit 8 (ucast (from ! 1)) +
                           ucast (from ! 2) :: u32, drop 3 from)
                      else (push_bit 8 (ucast (from ! 0)) + ucast (from ! 1), drop 2 from))
               in if days \<le> DAYS_CCSDS_TO_UNIX_EPOCH then (INVALID_TIME_FORMAT, to, foundLength)
                  else
                    (let days = days - DAYS_CCSDS_TO_UNIX_EPOCH;
                         msDay = be_u32 from;
                         to = \<lparr>tv_sec = uint (days * SECONDS_PER_DAY) + uint (msDay div 1000),
                               tv_usec = uint ((msDay mod 1000) * 1000)\<rparr>;
                         from = drop 4 from
                     in if pField AND 0b11 = 0b01 then
                          (let usecs = push_bit 16 (ucast (from ! 0)) + ucast (from ! 1) :: u16 in
                           if usecs > 999 then (INVALID_TIME_FORMAT, to, foundLength)
                           else (OK, to\<lparr>tv_usec := tv_usec to + uint usecs\<rparr>, foundLength))
                        else if pField AND 0b11 = 0b10 then
                          (let picosecs = be_u32 from in
                           if picosecs > 999999 then (INVALID_TIME_FORMAT, to, foundLength)
                           else (OK, to\<lparr>tv_usec := tv_usec to + uint (picosecs div 1000)\<rparr>, foundLength))
                        else (OK, to, foundLength)))))"

definition tv_zero :: timeval where "tv_zero = \<lparr>tv_sec = 0, tv_usec = 0\<rparr>"

definition convertFromCDS_tod :: "time_env \<Rightarrow> TimeOfDay \<Rightarrow> bytes \<Rightarrow> u8 \<Rightarrow> retval \<times> TimeOfDay" where
  "convertFromCDS_tod env to from len =
     (case convertFromCDS tv_zero from None (unat len) of (result, time, _) \<Rightarrow>
        if result \<noteq> OK then (result, to) else convertTimevalToTimeOfDay env time to)"

text \<open>The overloads for a structure that is there already; a null pointer is \<open>None\<close>.\<close>

definition convertFromCDS_struct :: "timeval \<Rightarrow> CDS_short option \<Rightarrow> retval \<times> timeval" where
  "convertFromCDS_struct to from =
     (case from of
        None \<Rightarrow> (FAILED, to)
      | Some c \<Rightarrow>
          (let days = push_bit 8 (ucast (dayMSB c)) + ucast (dayLSB c) :: u16 in
           if days \<le> DAYS_CCSDS_TO_UNIX_EPOCH then (INVALID_TIME_FORMAT, to)
           else
             (let days = days - DAYS_CCSDS_TO_UNIX_EPOCH;
                  msDay = be_u32 [msDay_hh c, msDay_h c, msDay_l c, msDay_ll c]
              in (OK, \<lparr>tv_sec = uint ((ucast days :: u32) * SECONDS_PER_DAY) + uint (msDay div 1000),
                       tv_usec = uint ((msDay mod 1000) * 1000)\<rparr>))))"

definition convertFromCDS_struct_tod ::
  "time_env \<Rightarrow> TimeOfDay \<Rightarrow> CDS_short option \<Rightarrow> retval \<times> TimeOfDay" where
  "convertFromCDS_struct_tod env to from =
     (case from of
        None \<Rightarrow> (FAILED, to)
      | Some c \<Rightarrow>
          (case convertFromCDS_struct tv_zero from of (result, tempTimeval) \<Rightarrow>
             if result \<noteq> OK then (result, to) else convertTimevalToTimeOfDay env tempTimeval to))"

subsection \<open>Unsegmented\<close>

definition subsecondsToMicroseconds :: "u16 \<Rightarrow> u32" where
  "subsecondsToMicroseconds subseconds = ucast ((ucast subseconds :: u64) * 1000000 div push_bit 16 1)"

fun cuc_loop :: "nat \<Rightarrow> bytes \<Rightarrow> u32 \<Rightarrow> u32 \<times> bytes" where
  "cuc_loop 0 from acc = (acc, from)"
| "cuc_loop (Suc n) from acc = cuc_loop n (tl from) (acc + push_bit (8 * n) (ucast (hd from)))"

definition convertFromCUC_field ::
  "timeval \<Rightarrow> u8 \<Rightarrow> bytes \<Rightarrow> nat option \<Rightarrow> nat \<Rightarrow> retval \<times> timeval \<times> nat option" where
  "convertFromCUC_field to pField from foundLength maxLength =
     (let nCoarse = unat (drop_bit 2 (pField AND 0b1100)) + 1;
          nFine = unat (pField AND 0b11);
          totalLength = nCoarse + nFine;
          foundLength = map_option (\<lambda>_. totalLength) foundLength
      in if totalLength > maxLength then (LENGTH_MISMATCH, to, foundLength)
         else
           (let (secs, from) = cuc_loop nCoarse from 0;
                (subSeconds, _) = cuc_loop nFine from 0;
                sec = uint secs - (if bit pField 4 then DAYS_CCSDS_TO_UNIX_EPOCH * SECONDS_PER_DAY else 0)
            in (OK, \<lparr>tv_sec = sec, tv_usec = uint (subsecondsToMicroseconds (ucast subSeconds))\<rparr>,
                foundLength)))"

definition convertFromCUC ::
  "timeval \<Rightarrow> bytes \<Rightarrow> nat option \<Rightarrow> nat \<Rightarrow> retval \<times> timeval \<times> nat option" where
  "convertFromCUC to from foundLength maxLength =
     (if maxLength < 1 then (INVALID_TIME_FORMAT, to, foundLength)
      else
        (case convertFromCUC_field to (from ! 0) (tl from) foundLength (maxLength - 1) of
           (result, to, foundLength) \<Rightarrow>
             if result = OK then (result, to, map_option (\<lambda>n. n + 1) foundLength)
             else (result, to, foundLength)))"

definition convertFromCUC_tod :: "TimeOfDay \<Rightarrow> bytes \<Rightarrow> u8 \<Rightarrow> retval \<times> TimeOfDay" where
  "convertFromCUC_tod to from len = (UNSUPPORTED_TIME_FORMAT, to)"

subsection \<open>Any format\<close>

definition convertFromCcsds_tod :: "time_env \<Rightarrow> TimeOfDay \<Rightarrow> bytes \<Rightarrow> nat \<Rightarrow> retval \<times> TimeOfDay" where
  "convertFromCcsds_tod env to from len =
     (if len > 0xFF then (LENGTH_MISMATCH, to)
      else
        (case convertFromASCII env to from (of_nat len) of (result, to) \<Rightarrow>
           if result = OK then (OK, to)
           else
             (let codeIdentification = drop_bit 4 (from ! 0) in
              if codeIdentification = CUC_LEVEL1 then convertFromCUC_tod to from (of_nat len)
              else if codeIdentification = CDS then convertFromCDS_tod env to from (of_nat len)
              else if codeIdentification = CCS then
                (case convertFromCCS_tod to from 0 len of (r, to, _) \<Rightarrow> (r, to))
              else (UNSUPPORTED_TIME_FORMAT, to))))"

definition ccsds_binary ::
  "time_env \<Rightarrow> timeval \<Rightarrow> bytes \<Rightarrow> nat \<Rightarrow> nat \<Rightarrow> retval \<times> timeval \<times> nat" where
  "ccsds_binary env to from foundLength maxLength =
     (let codeIdentification = drop_bit 4 (from ! 0) in
      if codeIdentification = CUC_LEVEL1 then (UNSUPPORTED_TIME_FORMAT, to, foundLength)
      else if codeIdentification = CDS then
        (case convertFromCDS to from (Some foundLength) maxLength of (r, to, n) \<Rightarrow> (r, to, the n))
      else if codeIdentification = CCS then convertFromCCS_timeval env to from foundLength maxLength
      else (UNSUPPORTED_TIME_FORMAT, to, foundLength))"

definition convertFromCcsds ::
  "time_env \<Rightarrow> timeval \<Rightarrow> bytes \<Rightarrow> nat \<Rightarrow> nat \<Rightarrow> retval \<times> timeval \<times> nat" where
  "convertFromCcsds env to from foundLength maxLength =
     (if maxLength \<ge> 19 then
        (case convertFromASCII env tod_zero from (of_nat maxLength) of (result, timeOfDay) \<Rightarrow>
           if result = OK then
             (case convertTimeOfDayToTimeval env timeOfDay of (r, tv) \<Rightarrow> (r, tv, foundLength))
           else ccsds_binary env to from foundLength maxLength)
      else ccsds_binary env to from foundLength maxLength)"

section \<open>Time stamper\<close>

abbreviation TIMESTAMP_LEN :: nat where "TIMESTAMP_LEN \<equiv> 7"

text \<open>
  \<open>now\<close> is the time the clock returns. The read time is the state of the stamper.
\<close>

definition cds_zero :: CDS_short where
  "cds_zero = \<lparr>cds_pField = push_bit 4 CDS, dayMSB = 0, dayLSB = 0, msDay_hh = 0, msDay_h = 0,
     msDay_l = 0, msDay_ll = 0\<rparr>"

definition cds_serialize :: "timeval \<Rightarrow> Endianness \<Rightarrow> sink \<Rightarrow> nat \<Rightarrow> retval \<times> sink" where
  "cds_serialize now e snk maxSize =
     (if snd snk + TIMESTAMP_LEN > maxSize then (BUFFER_TOO_SHORT, snk)
      else
        (case convertToCcsds_cds cds_zero now of (result, cds) \<Rightarrow>
           if result \<noteq> OK then (result, snk)
           else (result, fst snk @ cds_bytes cds, snd snk + TIMESTAMP_LEN)))"

definition cds_deSerialize :: "time_env \<Rightarrow> source \<Rightarrow> timeval \<Rightarrow> retval \<times> timeval \<times> source" where
  "cds_deSerialize env src readTime =
     (if snd src < TIMESTAMP_LEN then (SER_STREAM_TOO_SHORT, readTime, src)
      else if drop_bit 4 (fst src ! 0) AND 0b111 \<noteq> CDS then (BAD_TIMESTAMP, readTime, src)
      else
        (case convertFromCcsds env readTime (fst src) 0 (snd src) of (res, readTime, _) \<Rightarrow>
           if res = OK then (res, readTime, drop TIMESTAMP_LEN (fst src), snd src - TIMESTAMP_LEN)
           else (res, readTime, src)))"

text \<open>\<open>readTimeStamp\<close> of \<open>TimeReaderIF.h\<close>.\<close>

definition readTimeStamp :: "time_env \<Rightarrow> bytes \<Rightarrow> nat \<Rightarrow> timeval \<Rightarrow> retval \<times> timeval" where
  "readTimeStamp env buf maxSize readTime =
     (case cds_deSerialize env (buf, maxSize) readTime of (r, t, _) \<Rightarrow> (r, t))"

section \<open>Countdown\<close>

text \<open>The clock is read by every operation; its values are arguments.\<close>

record countdown =
  cd_timeout :: u32
  cd_startTime :: u32

definition cd_setTimeout :: "u32 \<Rightarrow> u32 \<Rightarrow> countdown \<Rightarrow> countdown" where
  "cd_setTimeout now milliseconds c = c\<lparr>cd_startTime := now, cd_timeout := milliseconds\<rparr>"

definition cd_new :: "u32 \<Rightarrow> u32 \<Rightarrow> countdown" where
  "cd_new now initialTimeout =
     cd_setTimeout now initialTimeout \<lparr>cd_timeout = initialTimeout, cd_startTime = 0\<rparr>"

definition cd_hasTimedOut :: "u32 \<Rightarrow> countdown \<Rightarrow> bool" where
  "cd_hasTimedOut now c = (if now - cd_startTime c \<ge> cd_timeout c then True else False)"

definition cd_isBusy :: "u32 \<Rightarrow> countdown \<Rightarrow> bool" where
  "cd_isBusy now c = (\<not> cd_hasTimedOut now c)"

definition cd_resetTimer :: "u32 \<Rightarrow> countdown \<Rightarrow> countdown" where
  "cd_resetTimer now c = cd_setTimeout now (cd_timeout c) c"

definition cd_timeOut :: "u32 \<Rightarrow> countdown \<Rightarrow> countdown" where
  "cd_timeOut now c = c\<lparr>cd_startTime := now - cd_timeout c\<rparr>"

text \<open>The clock is read twice: before the check and in it.\<close>

definition cd_getRemainingMillis :: "u32 \<Rightarrow> u32 \<Rightarrow> countdown \<Rightarrow> u32" where
  "cd_getRemainingMillis currentTime now c =
     (if cd_hasTimedOut now c then 0 else (cd_startTime c + cd_timeout c) - currentTime)"

section \<open>Bytes of 32 bit words\<close>

lemma byte_of_masked:
  fixes w :: u32
  shows "(ucast (drop_bit 24 (w AND 0xFF000000)) :: u8) = ucast (drop_bit 24 w)"
    "(ucast (drop_bit 16 (w AND 0xFF0000)) :: u8) = ucast (drop_bit 16 w)"
    "(ucast (drop_bit 8 (w AND 0xFF00)) :: u8) = ucast (drop_bit 8 w)"
    "(ucast (w AND 0xFF) :: u8) = ucast w"
proof -
  have m: "(0xFF000000 :: u32) = push_bit 24 (mask 8)" "(0xFF0000 :: u32) = push_bit 16 (mask 8)"
    "(0xFF00 :: u32) = push_bit 8 (mask 8)" "(0xFF :: u32) = mask 8" by (simp_all add: mask_eq_exp_minus_1)
  show "(ucast (drop_bit 24 (w AND 0xFF000000)) :: u8) = ucast (drop_bit 24 w)"
    "(ucast (drop_bit 16 (w AND 0xFF0000)) :: u8) = ucast (drop_bit 16 w)"
    "(ucast (drop_bit 8 (w AND 0xFF00)) :: u8) = ucast (drop_bit 8 w)"
    "(ucast (w AND 0xFF) :: u8) = ucast w"
    unfolding m by (rule byte_eqI; simp add: bit_simps)+
qed

lemma unat_byte_of: "unat (ucast (drop_bit k w) :: u8) = unat (w :: 'a::len word) div 2 ^ k mod 256"
  by (simp only: unsigned_ucast_eq unat_drop_bit_eq) (simp add: drop_bit_eq_div take_bit_eq_mod)

lemma bytes_of_nat:
  fixes n :: nat
  shows "n < 2 ^ 32 \<Longrightarrow> n div 2 ^ 24 mod 256 * 2 ^ 24 + n div 2 ^ 16 mod 256 * 2 ^ 16 + n div 2 ^ 8 mod 256 * 2 ^ 8 + n mod 256 = n"
    and "n < 2 ^ 16 \<Longrightarrow> n div 2 ^ 8 mod 256 * 2 ^ 8 + n mod 256 = n"
proof -
  define p q r where "p = n div 256" and "q = p div 256" and "r = q div 256"
  have e: "n div 2 ^ 8 = p" "n div 2 ^ 16 = q" "n div 2 ^ 24 = r"
    by (simp_all add: p_def q_def r_def flip: div_mult2_eq)
  have d: "n = 256 * p + n mod 256" "p = 256 * q + p mod 256" "q = 256 * r + q mod 256"
    by (simp_all add: p_def q_def r_def)
  show "n div 2 ^ 24 mod 256 * 2 ^ 24 + n div 2 ^ 16 mod 256 * 2 ^ 16 + n div 2 ^ 8 mod 256 * 2 ^ 8 + n mod 256 = n"
    if "n < 2 ^ 32"
  proof -
    have "r mod 256 = r" using that e(3) [symmetric] by simp
    then show ?thesis unfolding e using d by simp
  qed
  show "n div 2 ^ 8 mod 256 * 2 ^ 8 + n mod 256 = n" if "n < 2 ^ 16"
  proof -
    have "p mod 256 = p" using that e(1) [symmetric] by simp
    then show ?thesis unfolding e using d by simp
  qed
qed

lemma unat_be_u32:
  "unat (be_u32 bs) = unat (bs ! 0) * 2 ^ 24 + unat (bs ! 1) * 2 ^ 16 + unat (bs ! 2) * 2 ^ 8 + unat (bs ! 3)"
proof -
  have b: "unat (bs ! i) < 256" for i using unsigned_less [of "bs ! i", where ?'a = nat] by simp
  have p: "unat (push_bit k (ucast (bs ! i)) :: u32) = unat (bs ! i) * 2 ^ k" if "k \<le> 24" for i k
  proof -
    have "unat (bs ! i) * 2 ^ k < 2 ^ 8 * 2 ^ k" using b [of i] by simp
    also have "\<dots> = 2 ^ (8 + k)" by (simp only: power_add)
    also have "\<dots> \<le> (2 ^ 32 :: nat)" using that by (intro power_increasing) simp_all
    finally show ?thesis
      using b [of i]
      by (simp only: unsigned_push_bit_eq unsigned_ucast_eq) (simp add: take_bit_nat_eq_self push_bit_eq_mult)
  qed
  show ?thesis
    using b [of 0] b [of 1] b [of 2] b [of 3]
    by (simp add: be_u32_def unat_word_ariths p unsigned_ucast_eq take_bit_nat_eq_self)
qed

lemma be_u32_bytes:
  "be_u32 [ucast (drop_bit 24 w), ucast (drop_bit 16 w), ucast (drop_bit 8 w), ucast w] = (w :: u32)"
proof -
  have "unat w < 2 ^ 32" using unsigned_less [of w, where ?'a = nat] by simp
  then show ?thesis
    using bytes_of_nat(1) [of "unat w"] unat_byte_of [of 0 w]
    by (intro word_unat_eq_iff [THEN iffD2]) (simp add: unat_be_u32 unat_byte_of)
qed
section \<open>The day-segmented format\<close>

text \<open>
  A time between 1970 and the end of the 16 bit day count: the day number and the milliseconds of
  the day that are written, and what is read from them.
\<close>

lemma cds_encode:
  assumes "0 \<le> tv_sec t" and "tv_sec t < 61153 * SECONDS_PER_DAY" and "0 \<le> tv_usec t" and "tv_usec t < 1000000"
    and "d = nat (tv_sec t div SECONDS_PER_DAY) + DAYS_CCSDS_TO_UNIX_EPOCH"
    and "ms = nat (tv_sec t mod SECONDS_PER_DAY * 1000 + tv_usec t div 1000)"
  shows "convertToCcsds_cds c t = (OK, \<lparr>cds_pField = 0x40, dayMSB = of_nat (d div 256), dayLSB = of_nat d,
    msDay_hh = ucast (drop_bit 24 (of_nat ms :: u32)), msDay_h = ucast (drop_bit 16 (of_nat ms :: u32)),
    msDay_l = ucast (drop_bit 8 (of_nat ms :: u32)), msDay_ll = ucast (of_nat ms :: u32)\<rparr>)"
    and "d < 65536" and "ms < 86400000"
proof -
  have q: "tv_sec t sdiv SECONDS_PER_DAY = tv_sec t div SECONDS_PER_DAY" "tv_sec t smod SECONDS_PER_DAY = tv_sec t mod SECONDS_PER_DAY"
      "tv_usec t sdiv 1000 = tv_usec t div 1000"
    using assms(1,3) by (auto simp: signed_divide_int_def signed_modulo_int_def sgn_if)
  have "tv_sec t div SECONDS_PER_DAY < 61153" using assms(1,2) by (simp add: div_less_iff_less_mult)
  moreover have "0 \<le> tv_sec t div SECONDS_PER_DAY" using assms(1) by simp
  ultimately show d: "d < 65536" using assms(5) by linarith
  have "tv_usec t div 1000 < 1000" "0 \<le> tv_usec t div 1000" using assms(3,4) by simp_all
  moreover have "tv_sec t mod SECONDS_PER_DAY < SECONDS_PER_DAY" "0 \<le> tv_sec t mod SECONDS_PER_DAY" by simp_all
  ultimately show "ms < 86400000" using assms(6) by linarith
  have i: "(of_int (tv_sec t div SECONDS_PER_DAY + DAYS_CCSDS_TO_UNIX_EPOCH) :: u32) = of_nat d"
    using assms(1) by (simp add: assms(5))
  have m: "(of_int (tv_sec t mod SECONDS_PER_DAY * 1000 + tv_usec t div 1000) :: u32) = of_nat ms"
    using assms(3) by (simp add: assms(6))
  have l: "\<not> (push_bit 16 1 :: u32) < of_nat d"
    using d by (simp add: word_less_nat_alt unat_of_nat take_bit_nat_eq_self)
  have "(ucast (drop_bit 8 (of_nat d :: u32)) :: u8) = of_nat (d div 256)"
    using d unfolding word_unat_eq_iff unat_byte_of
    by (simp add: unat_of_nat take_bit_nat_eq_self take_bit_eq_mod)
  moreover have "(ucast (of_nat d :: u32) :: u8) = of_nat d" by (rule bit_word_eqI) (simp add: bit_simps)
  ultimately have b: "(ucast (drop_bit 8 (of_nat d :: u32)) :: u8) = of_nat (d div 256)"
      "(ucast (of_nat d :: u32) :: u8) = of_nat d" .
  show "convertToCcsds_cds c t = (OK, \<lparr>cds_pField = 0x40, dayMSB = of_nat (d div 256), dayLSB = of_nat d,
    msDay_hh = ucast (drop_bit 24 (of_nat ms :: u32)), msDay_h = ucast (drop_bit 16 (of_nat ms :: u32)),
    msDay_l = ucast (drop_bit 8 (of_nat ms :: u32)), msDay_ll = ucast (of_nat ms :: u32)\<rparr>)"
    using l unfolding convertToCcsds_cds_def Let_def q i m byte_of_masked b by simp
qed

lemma cds_decode:
  assumes "7 \<le> n" and "d < 65536" and "ms < 2 ^ 32"
    and "bs = cds_bytes \<lparr>cds_pField = 0x40, dayMSB = of_nat (d div 256), dayLSB = of_nat d,
    msDay_hh = ucast (drop_bit 24 (of_nat ms :: u32)), msDay_h = ucast (drop_bit 16 (of_nat ms :: u32)),
    msDay_l = ucast (drop_bit 8 (of_nat ms :: u32)), msDay_ll = ucast (of_nat ms :: u32)\<rparr>"
  shows "convertFromCDS to (bs @ rest) fl n =
    (if d \<le> DAYS_CCSDS_TO_UNIX_EPOCH then (INVALID_TIME_FORMAT, to, map_option (\<lambda>_. 7) fl)
     else (OK, \<lparr>tv_sec = int ((d - DAYS_CCSDS_TO_UNIX_EPOCH) * SECONDS_PER_DAY mod 2 ^ 32 + ms div 1000),
                tv_usec = int (ms mod 1000 * 1000)\<rparr>, map_option (\<lambda>_. 7) fl))"
proof -
  have days: "push_bit 8 (ucast (of_nat (d div 256) :: u8)) + ucast (of_nat d :: u8) = (of_nat d :: u32)"
  proof -
    have u: "unat (of_nat (d div 256) :: u8) = d div 256" "unat (of_nat d :: u8) = d mod 256"
      using assms(2) by (simp_all add: unat_of_nat take_bit_eq_mod)
    have p: "unat (push_bit 8 (ucast (of_nat (d div 256) :: u8)) :: u32) = d div 256 * 256"
      using assms(2) unfolding unsigned_push_bit_eq unsigned_ucast_eq u
      by (simp add: take_bit_eq_mod push_bit_eq_mult)
    have l: "unat (ucast (of_nat d :: u8) :: u32) = d mod 256"
      unfolding unsigned_ucast_eq u by (simp add: take_bit_eq_mod)
    show ?thesis
      using assms(2) unfolding word_unat_eq_iff unat_word_ariths(1) p l
      by (simp add: unat_of_nat take_bit_nat_eq_self)
  qed
  have le: "(of_nat d :: u32) \<le> DAYS_CCSDS_TO_UNIX_EPOCH \<longleftrightarrow> d \<le> DAYS_CCSDS_TO_UNIX_EPOCH"
    using assms(2) by (simp add: word_le_nat_alt unat_of_nat take_bit_nat_eq_self)
  have sec: "uint ((of_nat d - DAYS_CCSDS_TO_UNIX_EPOCH) * SECONDS_PER_DAY :: u32) =
      int ((d - DAYS_CCSDS_TO_UNIX_EPOCH) * SECONDS_PER_DAY mod 2 ^ 32)" if "\<not> d \<le> DAYS_CCSDS_TO_UNIX_EPOCH"
  proof -
    have e: "(of_nat d - DAYS_CCSDS_TO_UNIX_EPOCH) * SECONDS_PER_DAY = (of_nat ((d - DAYS_CCSDS_TO_UNIX_EPOCH) * SECONDS_PER_DAY) :: u32)"
      using that by (simp add: of_nat_diff)
    show ?thesis unfolding e unsigned_of_nat take_bit_eq_mod by simp
  qed
  have ms: "uint (of_nat ms div 1000 :: u32) = int (ms div 1000)"
      "uint (of_nat ms mod 1000 * 1000 :: u32) = int (ms mod 1000 * 1000)"
    using assms(3) by (simp_all add: uint_nat unat_div unat_mod unat_word_ariths unat_of_nat take_bit_nat_eq_self)
  show ?thesis
    using assms(1) le sec days be_u32_bytes [of "of_nat ms"]
    by (simp add: assms(4) cds_bytes_def convertFromCDS_def Let_def ms be_u32_def)
qed

section \<open>The days of a year\<close>

definition month_length :: "bool \<Rightarrow> nat \<Rightarrow> nat" where
  "month_length leap m =
     (if m = 2 then (if leap then 29 else 28) else if m \<in> {4, 6, 9, 11} then 30 else 31)"

text \<open>The days of the months before a month; the date of a day.\<close>

fun days_before :: "bool \<Rightarrow> nat \<Rightarrow> nat" where
  "days_before leap 0 = 0"
| "days_before leap (Suc m) = (if m = 0 then 0 else days_before leap m + month_length leap m)"

definition date_of_day :: "bool \<Rightarrow> nat \<Rightarrow> nat \<Rightarrow> nat \<Rightarrow> bool" where
  "date_of_day leap n m k \<longleftrightarrow> 1 \<le> m \<and> m \<le> 12 \<and> 1 \<le> k \<and> k \<le> month_length leap m \<and>
     n = days_before leap m + k"

lemma days_before_numerals:
  "days_before leap 1 = 0" "days_before leap 2 = 31"
  "days_before leap 3 = (if leap then 60 else 59)" "days_before leap 4 = (if leap then 91 else 90)"
  "days_before leap 5 = (if leap then 121 else 120)" "days_before leap 6 = (if leap then 152 else 151)"
  "days_before leap 7 = (if leap then 182 else 181)" "days_before leap 8 = (if leap then 213 else 212)"
  "days_before leap 9 = (if leap then 244 else 243)" "days_before leap 10 = (if leap then 274 else 273)"
  "days_before leap 11 = (if leap then 305 else 304)" "days_before leap 12 = (if leap then 335 else 334)"
  by (simp_all add: eval_nat_numeral month_length_def)

lemma u16_of_nat:
  assumes "n < 65536"
  shows "unat (of_nat n :: u16) = n" and "(of_nat n :: u16) \<le> numeral v \<longleftrightarrow> n \<le> unat (numeral v :: u16)"
    and "(ucast (of_nat n :: u16) :: u8) = of_nat n"
proof -
  show u: "unat (of_nat n :: u16) = n"
    using assms by (simp add: unat_of_nat take_bit_nat_eq_self)
  show "(of_nat n :: u16) \<le> numeral v \<longleftrightarrow> n \<le> unat (numeral v :: u16)"
    unfolding word_le_nat_alt u ..
  show "(ucast (of_nat n :: u16) :: u8) = of_nat n" by (rule bit_word_eqI) (simp add: bit_simps)
qed

lemma u16_minus: "k \<le> n \<Longrightarrow> (of_nat n :: u16) - of_nat k = of_nat (n - k)"
  by simp

text \<open>One round of the loop on natural numbers.\<close>

lemma doy_round:
  assumes "n < 65536"
  shows "doy_loop m (of_nat n) d =
    (if m \<le> 12 then
       if n \<le> 31 then (OK, m, of_nat n)
       else if m + 1 = 8 then doy_loop (m + 1) (of_nat (n - 31)) d
       else if n \<le> 61 then (OK, m + 1, of_nat (n - 31))
       else doy_loop (m + 1 + 1) (of_nat (n - 61)) d
     else (INVALID_DAY_OF_YEAR, m, d))"
proof -
  have s: "(of_nat n :: u16) - 31 = of_nat (n - 31)" if "\<not> n \<le> 31" using that u16_minus [of 31 n] by simp
  have t: "(of_nat (n - 31) :: u16) - 30 = of_nat (n - 61)" if "\<not> n \<le> 61" using that u16_minus [of 30 "n - 31"] by simp
  have n: "n - 31 < 65536" using assms by simp
  show ?thesis
  proof (cases "n \<le> 31")
    case True
    then show ?thesis using assms by (subst doy_loop.simps) (simp add: u16_of_nat)
  next
    case False
    then have "(of_nat (n - 31) :: u16) \<le> 30 \<longleftrightarrow> n \<le> 61" using u16_of_nat(2) [OF n] by simp arith
    with False show ?thesis
      using assms t unfolding doy_loop.simps [of m "of_nat n" d] s [OF False]
      by (simp add: u16_of_nat(2) u16_of_nat(3) [OF n] del: of_nat_diff)
  qed
qed

text \<open>The loop at the start of a month finds the date of every day from this month on.\<close>

definition finds_date :: "bool \<Rightarrow> nat \<Rightarrow> retval \<times> u8 \<times> u8 \<Rightarrow> bool" where
  "finds_date leap n res \<longleftrightarrow> (\<exists>m k. res = (OK, m, k) \<and> date_of_day leap n (unat m) (unat k))"

definition loop_finds :: "bool \<Rightarrow> nat \<Rightarrow> bool" where
  "loop_finds leap m \<longleftrightarrow> (\<forall>n d. days_before leap m < n \<longrightarrow> n \<le> (if leap then 366 else 365) \<longrightarrow>
     finds_date leap n (doy_loop (of_nat m) (of_nat (n - days_before leap m)) d))"

lemma finds_dateI:
  assumes "1 \<le> m" and "m \<le> 12" and "1 \<le> k" and "k \<le> month_length leap m" and "n = days_before leap m + k"
  shows "finds_date leap n (OK, of_nat m, of_nat k)"
proof -
  have "k < 256" using assms(4) by (simp add: month_length_def split: if_splits)
  then have "unat (of_nat k :: u8) = k" "unat (of_nat m :: u8) = m"
    using assms(2) by (simp_all add: unat_of_nat take_bit_nat_eq_self)
  with assms show ?thesis by (simp add: finds_date_def date_of_day_def)
qed

lemma u8_month:
  assumes "m < 200"
  shows "(of_nat m :: u8) \<le> 12 \<longleftrightarrow> m \<le> 12" and "(of_nat m + 1 :: u8) = 8 \<longleftrightarrow> m = 7"
proof -
  have u: "unat (of_nat m :: u8) = m" "unat (of_nat (Suc m) :: u8) = Suc m"
    using assms by (simp_all only: unat_of_nat) (simp_all add: take_bit_nat_eq_self)
  show "(of_nat m :: u8) \<le> 12 \<longleftrightarrow> m \<le> 12" by (simp add: word_le_nat_alt u)
  have "(of_nat m + 1 :: u8) = of_nat (Suc m)" by simp
  then show "(of_nat m + 1 :: u8) = 8 \<longleftrightarrow> m = 7" unfolding word_unat_eq_iff u by (simp only: u) simp
qed

lemma doy_round_month:
  assumes "m \<le> 12" and "n < 65536"
  shows "doy_loop (of_nat m) (of_nat n) d =
    (if n \<le> 31 then (OK, of_nat m, of_nat n)
     else if m = 7 then doy_loop (of_nat 8) (of_nat (n - 31)) d
     else if n \<le> 61 then (OK, of_nat (Suc m), of_nat (n - 31))
     else doy_loop (of_nat (Suc (Suc m))) (of_nat (n - 61)) d)"
proof -
  have e: "(of_nat m + 1 :: u8) = of_nat (Suc m)" "(of_nat (Suc m) + 1 :: u8) = of_nat (Suc (Suc m))"
    by (simp_all add: algebra_simps)
  show ?thesis
    using assms doy_round [OF assms(2), of "of_nat m" d] u8_month [of m]
    by (simp add: e del: of_nat_Suc of_nat_diff) 
qed

lemma loop_finds_last: "loop_finds leap 12"
  unfolding loop_finds_def
proof (intro allI impI)
  fix n d
  assume *: "days_before leap 12 < n" "n \<le> (if leap then 366 else 365)"
  define k where "k = n - days_before leap 12"
  have k: "1 \<le> k" "k \<le> 31" "n = days_before leap 12 + k"
    using * by (simp_all add: k_def days_before_numerals(12) split: if_splits)
  then have "finds_date leap n (OK, of_nat 12, of_nat k)"
    by (intro finds_dateI) (simp_all add: month_length_def)
  then show "finds_date leap n (doy_loop (of_nat 12) (of_nat (n - days_before leap 12)) d)"
    using doy_round_month [of 12 k d] k(2) unfolding k_def [symmetric] by simp
qed

lemma loop_finds_7:
  assumes "loop_finds leap 8"
  shows "loop_finds leap 7"
  unfolding loop_finds_def
proof (intro allI impI)
  fix n d
  assume *: "days_before leap 7 < n" "n \<le> (if leap then 366 else 365)"
  have b: "days_before leap 8 = days_before leap 7 + 31" by (simp add: days_before_numerals)
  show "finds_date leap n (doy_loop (of_nat 7) (of_nat (n - days_before leap 7)) d)"
  proof (cases "n - days_before leap 7 \<le> 31")
    case True
    with * show ?thesis
      using doy_round_month [of 7 "n - days_before leap 7" d] finds_dateI [of 7 "n - days_before leap 7" leap n]
      by (simp add: month_length_def del: of_nat_diff)
  next
    case False
    have "n - days_before leap 7 < 65536" using * by (simp split: if_splits)
    with False * assms show ?thesis
      using doy_round_month [of 7 "n - days_before leap 7" d]
      by (simp add: loop_finds_def b del: of_nat_diff)
  qed
qed

lemma loop_finds_step:
  assumes IH: "loop_finds leap (Suc (Suc m))"
    and m: "1 \<le> m" "m < 12" "m \<noteq> 7" "month_length leap m = 31" "month_length leap (Suc m) = 30"
  shows "loop_finds leap m"
  unfolding loop_finds_def
proof (intro allI impI)
  fix n d
  assume *: "days_before leap m < n" "n \<le> (if leap then 366 else 365)"
  let ?n = "n - days_before leap m"
  have b: "days_before leap (Suc m) = days_before leap m + 31" "days_before leap (Suc (Suc m)) = days_before leap m + 61"
    using m by simp_all
  have n: "?n < 65536" using * by (simp split: if_splits)
  note r = doy_round_month [OF _ n, of m d]
  consider "?n \<le> 31" | "31 < ?n" "?n \<le> 61" | "61 < ?n" by linarith
  then show "finds_date leap n (doy_loop (of_nat m) (of_nat ?n) d)"
  proof cases
    case 1
    with * m r show ?thesis using finds_dateI [of m ?n leap n] by (simp del: of_nat_diff)
  next
    case 2
    with * m r show ?thesis using finds_dateI [of "Suc m" "?n - 31" leap n] b
      by (simp del: of_nat_diff of_nat_Suc days_before.simps)
  next
    case 3
    with * m r show ?thesis using IH b
      by (simp add: loop_finds_def del: of_nat_diff of_nat_Suc days_before.simps)
  qed
qed

lemma loop_finds_3: "loop_finds leap 3"
proof -
  have s: "Suc (Suc 10) = 12" "Suc (Suc 8) = 10" "Suc (Suc 5) = 7" "Suc (Suc 3) = 5" by simp_all
  have "loop_finds leap 10"
    by (rule loop_finds_step) (simp_all add: s loop_finds_last month_length_def)
  then have "loop_finds leap 8" by (intro loop_finds_step [of leap 8]) (simp_all add: month_length_def)
  then have "loop_finds leap 7" by (rule loop_finds_7)
  then have "loop_finds leap 5" by (intro loop_finds_step [of leap 5]) (simp_all add: month_length_def)
  then show ?thesis by (intro loop_finds_step [of leap 3]) (simp_all add: month_length_def)
qed

lemma doy_cases:
  assumes "1 \<le> n" and "n \<le> (if leap then 366 else 365)" and leap: "leap = isLeapYear (ucast y)"
  shows "finds_date leap n (convertDaysOfYear (of_nat n) y out)"
proof -
  let ?f = "if leap then 29 else 28 :: nat"
  have n: "n < 65536" using assms(2) by (simp split: if_splits)
  have lim: "\<not> (of_nat n :: u16) > (if isLeapYear (ucast y) then 366 else 365)"
    using assms(2) n by (simp add: leap word_less_nat_alt u16_of_nat split: if_splits)
  have f: "(if isLeapYear (ucast y) then 29 else 28) = (of_nat ?f :: u16)" by (simp add: leap)
  have b: "days_before leap 3 = 31 + ?f" by (simp add: days_before_numerals)
  consider "n \<le> 31" | "31 < n" "n - 31 \<le> ?f" | "31 < n" "?f < n - 31" by linarith
  then show ?thesis
  proof cases
    case 1
    then have "finds_date leap n (OK, of_nat 1, of_nat n)"
      using assms(1) by (intro finds_dateI) (simp_all add: month_length_def days_before_numerals)
    with 1 n lim show ?thesis by (simp add: convertDaysOfYear_def u16_of_nat)
  next
    case 2
    have d: "(of_nat n :: u16) - 31 = of_nat (n - 31)" using 2 u16_minus [of 31 n] by simp
    have l: "\<not> (of_nat n :: u16) \<le> 31" "(of_nat (n - 31) :: u16) \<le> of_nat ?f"
      using 2 n by (simp_all add: u16_of_nat word_le_nat_alt del: of_nat_diff split: if_splits)
    have "finds_date leap n (OK, of_nat 2, of_nat (n - 31))"
      using 2 by (intro finds_dateI) (simp_all add: month_length_def days_before_numerals)
    with lim l n show ?thesis unfolding convertDaysOfYear_def Let_def d f
      by (simp add: u16_of_nat del: of_nat_diff)
  next
    case 3
    have d: "(of_nat n :: u16) - 31 = of_nat (n - 31)" "(of_nat (n - 31) :: u16) - of_nat ?f = of_nat (n - days_before leap 3)"
      using 3 u16_minus [of 31 n] u16_minus [of ?f "n - 31"] b by (simp_all del: of_nat_diff)
    have l: "\<not> (of_nat n :: u16) \<le> 31" "\<not> (of_nat (n - 31) :: u16) \<le> of_nat ?f"
      using 3 n by (simp_all add: u16_of_nat word_le_nat_alt del: of_nat_diff split: if_splits)
    have "finds_date leap n (doy_loop 3 (of_nat (n - days_before leap 3)) (snd out))"
      using loop_finds_3 [of leap] 3 assms(2) b by (simp add: loop_finds_def)
    with lim l show ?thesis unfolding convertDaysOfYear_def Let_def d f by simp
  qed
qed

section \<open>The calendar-segmented format\<close>

lemma u32_through_u8:
  assumes "w < 256"
  shows "ucast (ucast w :: u8) = (w :: u32)" and "(ucast w :: u8) > numeral v \<longleftrightarrow> unat w > unat (numeral v :: u8)"
proof -
  have "unat w < 256" using assms by (simp add: word_less_nat_alt)
  then have u: "unat (ucast w :: u8) = unat w" by (simp add: unsigned_ucast_eq take_bit_nat_eq_self)
  show "(ucast w :: u8) > numeral v \<longleftrightarrow> unat w > unat (numeral v :: u8)"
    unfolding word_less_nat_alt u ..
  show "ucast (ucast w :: u8) = w"
    unfolding word_unat_eq_iff unsigned_ucast_eq [where w = "ucast w :: u8"] u using \<open>unat w < 256\<close>
    by (simp add: take_bit_nat_eq_self)
qed

lemma year_bytes:
  assumes "y < 65536"
  shows "push_bit 8 (ucast (ucast (drop_bit 8 y) :: u8)) + ucast (ucast (y AND 0xff) :: u8) = (y :: u32)"
proof -
  have y: "unat y < 2 ^ 16" using assms by (simp add: word_less_nat_alt)
  have "be_u32 [0, 0, ucast (drop_bit 8 y), ucast y] = y"
    using bytes_of_nat(2) [OF y] unat_byte_of [of 8 y] unat_byte_of [of 0 y]
    unfolding word_unat_eq_iff unat_be_u32 by (simp add: mult.commute)
  then show ?thesis by (simp add: be_u32_def byte_of_masked)
qed

definition ccs_ok :: "TimeOfDay \<Rightarrow> bool" where
  "ccs_ok t \<longleftrightarrow> year t < 65536 \<and> month t \<le> 12 \<and> day t \<le> 31 \<and> hour t \<le> 23 \<and> minute t \<le> 59 \<and> second t \<le> 59 \<and>
     usecond t \<le> 999999"

lemma checkTimeOfDay_OK:
  assumes "checkTimeOfDay t = OK" and "year t < 65536"
  shows "ccs_ok t"
proof -
  have d: "day t \<le> 31" if "\<not> day t > (if b then (if c then 29 else 28) else if e then 30 else 31)" for b c e
    using that by (simp add: not_less word_le_nat_alt split: if_splits)
  let ?lim = "if month t = 2 then (if isLeapYear (year t) then 29 else 28)
    else if month t = 4 \<or> month t = 6 \<or> month t = 9 \<or> month t = 11 then 30 else 31 :: u32"
  have "\<not> month t > 12" "\<not> day t > ?lim" "\<not> hour t > 23" "\<not> minute t > 59" "\<not> second t > 59"
      "\<not> usecond t > 999999"
    using assms(1) unfolding checkTimeOfDay_def by (meson retval.distinct(4))+
  with assms(2) d show ?thesis unfolding ccs_ok_def not_less by blast
qed

lemma check_additional_1 [simp]: "check_additional 1 (a # bs) = (a \<le> 99)"
  by (auto simp: not_less)

lemma check_additional_2 [simp]: "check_additional 2 (a # b # bs) = (a \<le> 99 \<and> b \<le> 99)"
  by (auto simp: numeral_2_eq_2 not_less)

lemma ccs_decode:
  assumes ok: "ccs_ok t" and n: "8 + length sub \<le> n" "n < 256" and p: "p = 0x50 + of_nat (length sub)"
    and sub: "length sub \<le> 2" "\<forall>b \<in> set sub. b < 100"
  shows "convertFromCCS_tod to ([p, ucast (drop_bit 8 (year t)), ucast (year t AND 0xff), ucast (month t),
      ucast (day t), ucast (hour t), ucast (minute t), ucast (second t)] @ sub @ rest) fl n =
    (OK, t\<lparr>usecond := (case sub of [] \<Rightarrow> 0 | [a] \<Rightarrow> ucast a * 10000 | a # b # _ \<Rightarrow> ucast a * 10000 + ucast b * 100)\<rparr>,
     8 + 2 * length sub)"
proof -
  have l: "month t < 256" "day t < 256" "hour t < 256" "minute t < 256" "second t < 256"
    using ok by (auto simp: ccs_ok_def word_le_nat_alt word_less_nat_alt)
  note b = u32_through_u8 [OF l(1)] u32_through_u8 [OF l(2)] u32_through_u8 [OF l(3)]
    u32_through_u8 [OF l(4)] u32_through_u8 [OF l(5)]
  have y: "year t < 65536" using ok by (simp add: ccs_ok_def)
  have nn: "unat (of_nat n :: u8) = n" using n(2) by (simp add: unat_of_nat take_bit_nat_eq_self)
  have f: "unat (month t) \<le> 12" "unat (day t) \<le> 31" "unat (hour t) \<le> 23" "unat (minute t) \<le> 59" "unat (second t) \<le> 59"
    using ok by (simp_all add: ccs_ok_def word_le_nat_alt)
  consider "sub = []" | a where "sub = [a]" | a c where "sub = [a, c]"
    using sub(1) by (metis (no_types) One_nat_def le_SucE le_zero_eq length_0_conv length_Suc_conv numeral_2_eq_2)
  then show ?thesis
  proof cases
    case 1
    then show ?thesis using n f p
      by (simp add: convertFromCCS_tod_def checkCcs_def Let_def nn b year_bytes [OF y])
  next
    case (2 a)
    then have "a < 100" "a \<le> 99" using sub(2) by (auto simp: word_less_nat_alt word_le_nat_alt)
    with 2 show ?thesis using n f p
      by (simp add: convertFromCCS_tod_def checkCcs_def Let_def nn b year_bytes [OF y] not_le)
  next
    case (3 a c)
    then have "a < 100" "a \<le> 99" "c < 100" "c \<le> 99" using sub(2) by (auto simp: word_less_nat_alt word_le_nat_alt)
    with 3 show ?thesis using n f p
      by (simp add: convertFromCCS_tod_def checkCcs_def Let_def nn b year_bytes [OF y] not_le)
  qed
qed

lemma u32_le_nat: "w \<le> numeral v \<longleftrightarrow> unat (w :: u32) \<le> unat (numeral v :: u32)"
  by (rule word_le_nat_alt)

lemma usecond_digits:
  assumes "u \<le> (999999 :: u32)"
  shows "(ucast (u div 10000) :: u8) < 100" and "(ucast (u mod 10000 div 100) :: u8) < 100"
    and "ucast (ucast (u div 10000) :: u8) * 10000 + ucast (ucast (u mod 10000 div 100) :: u8) * 100 = u - u mod 100"
proof -
  have n: "unat u \<le> 999999" using assms by (simp add: word_le_nat_alt)
  have d: "unat (u div 10000) = unat u div 10000" "unat (u mod 10000 div 100) = unat u mod 10000 div 100"
    by (simp_all add: unat_div unat_mod)
  then have l: "unat (u div 10000) < 100" "unat (u mod 10000 div 100) < 100" using n by auto
  then have s: "u div 10000 < 256" "u mod 10000 div 100 < 256" by (simp_all add: word_less_nat_alt)
  have c: "unat (ucast (u div 10000) :: u8) = unat (u div 10000)"
      "unat (ucast (u mod 10000 div 100) :: u8) = unat (u mod 10000 div 100)"
    unfolding unsigned_ucast_eq using l by (simp_all add: take_bit_nat_eq_self)
  show "(ucast (u div 10000) :: u8) < 100" "(ucast (u mod 10000 div 100) :: u8) < 100"
    unfolding word_less_nat_alt c using l by simp_all
  have e: "n div 10000 * 10000 + n mod 10000 div 100 * 100 = n - n mod 100" for n :: nat
  proof -
    have "n mod 10000 mod 100 = n mod 100" by (simp add: mod_mod_cancel)
    then show ?thesis
      using div_mult_mod_eq [of n 10000] div_mult_mod_eq [of "n mod 10000" 100] by linarith
  qed
  have m: "u mod 100 \<le> u" by (simp add: word_le_nat_alt unat_mod)
  have a: "unat (u div 10000 * 10000) = unat u div 10000 * 10000"
      "unat (u mod 10000 div 100 * 100) = unat u mod 10000 div 100 * 100"
    unfolding unat_word_ariths(2) d using n l d by auto
  have "unat u div 10000 * 10000 + unat u mod 10000 div 100 * 100 < 2 ^ 32" unfolding e using n by simp
  then have "unat (u div 10000 * 10000 + u mod 10000 div 100 * 100) = unat u - unat u mod 100"
    unfolding unat_word_ariths(1) a e [symmetric] by simp
  then show "ucast (ucast (u div 10000) :: u8) * 10000 + ucast (ucast (u mod 10000 div 100) :: u8) * 100 = u - u mod 100"
    unfolding u32_through_u8(1) [OF s(1)] u32_through_u8(1) [OF s(2)] word_unat_eq_iff unat_sub [OF m]
    by (simp add: unat_mod)
qed

lemma ms_parts:
  fixes s u :: int
  assumes "0 \<le> s" and "0 \<le> u" and "u < 1000"
  shows "nat (s * 1000 + u) div 1000 = nat s" and "nat (s * 1000 + u) mod 1000 = nat u"
proof -
  have "nat (s * 1000 + u) = nat s * 1000 + nat u" using assms by (simp add: nat_add_distrib nat_mult_distrib)
  then show "nat (s * 1000 + u) div 1000 = nat s" "nat (s * 1000 + u) mod 1000 = nat u"
    using assms(2,3) by simp_all
qed

lemma cds_codec:
  assumes "SECONDS_PER_DAY \<le> tv_sec t" and "tv_sec t < 61153 * SECONDS_PER_DAY"
    and "0 \<le> tv_usec t" and "tv_usec t < 1000000" and "7 \<le> n"
    and "convertToCcsds_cds c t = (result, cds)" and "k = nat (tv_sec t div SECONDS_PER_DAY)"
  shows "result = OK" and "0 < k" and "int k = tv_sec t div SECONDS_PER_DAY"
    and "convertFromCDS to (cds_bytes cds @ rest) (Some fl) n =
      (OK, \<lparr>tv_sec = int (k * SECONDS_PER_DAY mod 2 ^ 32) + tv_sec t mod SECONDS_PER_DAY,
            tv_usec = tv_usec t - tv_usec t mod 1000\<rparr>, Some 7)"
proof -
  let ?m = "nat (tv_sec t mod SECONDS_PER_DAY * 1000 + tv_usec t div 1000)"
  have e: "0 \<le> tv_sec t" using assms(1) by simp
  note enc = cds_encode [OF e assms(2,3,4) refl refl, folded assms(7)]
  have m: "?m < 2 ^ 32" using enc(3) by simp
  show q: "int k = tv_sec t div SECONDS_PER_DAY" using e by (simp add: assms(7) pos_imp_zdiv_nonneg_iff)
  have "1 \<le> tv_sec t div SECONDS_PER_DAY" using zdiv_mono1 [OF assms(1), of SECONDS_PER_DAY] by simp
  then show k: "0 < k" using q by linarith
  have c: "result = OK" "cds = snd (convertToCcsds_cds c t)" using enc(1) [of c] assms(6) by simp_all
  show "result = OK" by (rule c(1))
  have ms: "int (?m div 1000) = tv_sec t mod SECONDS_PER_DAY" "int (?m mod 1000 * 1000) = tv_usec t - tv_usec t mod 1000"
    using ms_parts [of "tv_sec t mod SECONDS_PER_DAY" "tv_usec t div 1000"] assms(3,4)
    by (simp_all add: minus_mod_eq_div_mult)
  have dec: "convertFromCDS to (cds_bytes cds @ rest) (Some fl) n =
      (OK, \<lparr>tv_sec = int (k * SECONDS_PER_DAY mod 2 ^ 32 + ?m div 1000), tv_usec = int (?m mod 1000 * 1000)\<rparr>, Some 7)"
    unfolding c(2) enc(1) [of c] snd_conv cds_decode [OF assms(5) enc(2) m refl, of to rest "Some fl"]
    using k by (simp del: of_nat_mult of_nat_add of_nat_mod)
  show "convertFromCDS to (cds_bytes cds @ rest) (Some fl) n =
      (OK, \<lparr>tv_sec = int (k * SECONDS_PER_DAY mod 2 ^ 32) + tv_sec t mod SECONDS_PER_DAY,
            tv_usec = tv_usec t - tv_usec t mod 1000\<rparr>, Some 7)"
    unfolding dec of_nat_add ms ..
qed

lemma cds_codec_ok:
  assumes "SECONDS_PER_DAY \<le> tv_sec t" and "tv_sec t < 49711 * SECONDS_PER_DAY"
    and "0 \<le> tv_usec t" and "tv_usec t < 1000000" and "7 \<le> n"
    and "convertToCcsds_cds c t = (result, cds)"
  shows "result = OK" and "convertFromCDS to (cds_bytes cds @ rest) (Some fl) n =
    (OK, \<lparr>tv_sec = tv_sec t, tv_usec = tv_usec t - tv_usec t mod 1000\<rparr>, Some 7)"
proof -
  define k where "k = nat (tv_sec t div SECONDS_PER_DAY)"
  have "tv_sec t < 61153 * SECONDS_PER_DAY" using assms(2) by simp
  note c = cds_codec [OF assms(1) this assms(3-6) k_def]
  have "tv_sec t div SECONDS_PER_DAY < 49711" using assms(2) by (simp add: div_less_iff_less_mult)
  then have "k < 49711" using c(3) by linarith
  then have "k * SECONDS_PER_DAY < 2 ^ 32" by simp
  then have "int (k * SECONDS_PER_DAY mod 2 ^ 32) = tv_sec t div SECONDS_PER_DAY * SECONDS_PER_DAY"
    using c(3) by (simp only: mod_less of_nat_mult of_nat_numeral)
  with c(1,4) show "result = OK" "convertFromCDS to (cds_bytes cds @ rest) (Some fl) n =
    (OK, \<lparr>tv_sec = tv_sec t, tv_usec = tv_usec t - tv_usec t mod 1000\<rparr>, Some 7)" by simp_all
qed

section \<open>Properties\<close>

text \<open>
  Day-segmented time codes: a time from the second day of 1970 on, as long as the seconds of its day
  fit into 32 bits (until February 2106), is encoded and decoded again with a resolution of one
  millisecond; seven bytes are consumed.
\<close>

theorem cds_time_roundtrip:
  assumes "SECONDS_PER_DAY \<le> tv_sec t" and "tv_sec t < 49711 * SECONDS_PER_DAY"
    and "0 \<le> tv_usec t" and "tv_usec t < 1000000" and "7 \<le> n"
    and "convertToCcsds_cds c t = (result, cds)"
  shows "result = OK \<and> convertFromCDS to (cds_bytes cds @ rest) (Some fl) n =
    (OK, \<lparr>tv_sec = tv_sec t, tv_usec = tv_usec t - tv_usec t mod 1000\<rparr>, Some 7)"
  using cds_codec_ok [OF assms] by simp

theorem cds_time_roundtrip_witness:
  "convertFromCDS tv_zero (cds_bytes (snd (convertToCcsds_cds cds_zero \<lparr>tv_sec = 1700000000, tv_usec = 123456\<rparr>)) @ [7])
     (Some 0) 8 = (OK, \<lparr>tv_sec = 1700000000, tv_usec = 123000\<rparr>, Some 7)"
proof -
  obtain r cds where c: "convertToCcsds_cds cds_zero \<lparr>tv_sec = 1700000000, tv_usec = 123456\<rparr> = (r, cds)"
    by (cases "convertToCcsds_cds cds_zero \<lparr>tv_sec = 1700000000, tv_usec = 123456\<rparr>") auto
  show ?thesis using cds_time_roundtrip [OF _ _ _ _ _ c, of 8 tv_zero "[7]" 0] c by simp
qed

text \<open>
  From the last day below 2 to the power of 32 seconds on the product of the days and the seconds of
  a day wraps around: the time is decoded about 136 years too early, although the encoder accepts it.
\<close>

theorem cds_decoding_wraps:
  assumes "49711 * SECONDS_PER_DAY \<le> tv_sec t" and "tv_sec t < 61153 * SECONDS_PER_DAY"
    and "0 \<le> tv_usec t" and "tv_usec t < 1000000" and "7 \<le> n"
    and "convertToCcsds_cds c t = (result, cds)"
  shows "result = OK \<and> tv_sec (fst (snd (convertFromCDS to (cds_bytes cds @ rest) (Some fl) n))) =
    tv_sec t - 2 ^ 32"
proof -
  define k where "k = nat (tv_sec t div SECONDS_PER_DAY)"
  have "SECONDS_PER_DAY \<le> tv_sec t" using assms(1) by simp
  note c = cds_codec [OF this assms(2-6) k_def]
  have "49711 \<le> tv_sec t div SECONDS_PER_DAY" using zdiv_mono1 [OF assms(1), of SECONDS_PER_DAY] by simp
  moreover have "tv_sec t div SECONDS_PER_DAY < 61153" using assms(2) by (simp add: div_less_iff_less_mult)
  ultimately have "49711 \<le> k" "k < 61153" using c(3) by linarith+
  then have "2 ^ 32 \<le> k * SECONDS_PER_DAY" "k * SECONDS_PER_DAY - 2 ^ 32 < 2 ^ 32" by simp_all
  then have "int (k * SECONDS_PER_DAY mod 2 ^ 32) = int (k * SECONDS_PER_DAY) - 2 ^ 32"
    by (simp only: le_mod_geq mod_less of_nat_diff of_nat_power of_nat_numeral)
  then have "int (k * SECONDS_PER_DAY mod 2 ^ 32) = tv_sec t div SECONDS_PER_DAY * SECONDS_PER_DAY - 2 ^ 32"
    using c(3) by (simp only: of_nat_mult of_nat_numeral)
  with c(1,4) show ?thesis by simp
qed

text \<open>
  Days of the year: every day number from 1 to the length of the year is converted to a month and a
  day of this month whose distance from the start of the year it is; larger numbers are refused.
\<close>

theorem day_of_year_is_a_date:
  assumes "n \<noteq> 0"
  shows "case convertDaysOfYear n y out of (result, m, d) \<Rightarrow>
    if unat n \<le> (if isLeapYear (ucast y) then 366 else 365)
    then result = OK \<and> date_of_day (isLeapYear (ucast y)) (unat n) (unat m) (unat d)
    else result = INVALID_DAY_OF_YEAR \<and> (m, d) = out"
proof (cases "unat n \<le> (if isLeapYear (ucast y) then 366 else 365)")
  case True
  have "1 \<le> unat n" using assms by (simp add: unat_gt_0 Suc_le_eq)
  from doy_cases [OF this True refl, of out] True show ?thesis by (auto simp: finds_date_def)
next
  case False
  then have "n > (if isLeapYear (ucast y) then 366 else 365)" by (simp add: word_less_nat_alt split: if_splits)
  with False show ?thesis by (cases out) (simp add: convertDaysOfYear_def)
qed

theorem day_of_year_is_a_date_witness:
  "fst (convertDaysOfYear 60 2024 (0, 0)) = OK \<and>
   date_of_day True 60 (unat (fst (snd (convertDaysOfYear 60 2024 (0, 0)))))
     (unat (snd (snd (convertDaysOfYear 60 2024 (0, 0)))))"
  using day_of_year_is_a_date [of 60 2024 "(0, 0)"] by (simp add: isLeapYear_def split: prod.splits)

text \<open>
  Calendar-segmented time codes: a valid time of day with a year of at most 65535 is decoded as it
  was encoded, to the second or to a tenth of a millisecond. The reported length counts the bytes of
  the subseconds twice.
\<close>

theorem ccs_time_roundtrip:
  assumes "checkTimeOfDay t = OK" and "year t < 65536" and "10 \<le> n" and "n < 256"
  shows "convertFromCCS_tod to (ccs_bytes (snd (convertToCcsds_seconds c t)) @ rest) fl n =
      (OK, t\<lparr>usecond := 0\<rparr>, 8) \<and>
    convertFromCCS_tod to (ccs_ms_bytes (snd (convertToCcsds_mseconds c' t)) @ rest) fl n =
      (OK, t\<lparr>usecond := usecond t - usecond t mod 100\<rparr>, 12)"
proof -
  note ok = checkTimeOfDay_OK [OF assms(1,2)]
  then have u: "usecond t \<le> 999999" by (simp add: ccs_ok_def)
  note g = usecond_digits [OF u]
  let ?sub = "[ucast (usecond t div 10000), ucast (usecond t mod 10000 div 100)] :: bytes"
  show ?thesis
    using ccs_decode [OF ok, of "[]" n "0x50" to rest fl] ccs_decode [OF ok, of ?sub n "0x52" to rest fl] assms g
    by (simp add: convertToCcsds_seconds_def convertToCcsds_mseconds_def ccs_bytes_def ccs_ms_bytes_def)
qed

theorem ccs_time_roundtrip_witness:
  "convertFromCCS_tod tod_zero (ccs_bytes (snd (convertToCcsds_seconds
       \<lparr>ccs_pField = 0, yearMSB = 0, yearLSB = 0, ccs_month = 0, ccs_day = 0, ccs_hour = 0, ccs_minute = 0, ccs_second = 0\<rparr>
       \<lparr>year = 2024, month = 2, day = 29, hour = 23, minute = 59, second = 59, usecond = 999999\<rparr>)) @ [0, 0]) 0 10 =
     (OK, \<lparr>year = 2024, month = 2, day = 29, hour = 23, minute = 59, second = 59, usecond = 0\<rparr>, 8)"
  using ccs_time_roundtrip [of "\<lparr>year = 2024, month = 2, day = 29, hour = 23, minute = 59, second = 59, usecond = 999999\<rparr>" 10
      tod_zero _ "[0, 0]" 0]
  by (simp add: checkTimeOfDay_def isLeapYear_def)

text \<open>
  C38: countdowns: after a start at any uptime, \<open>hasTimedOut\<close> is true exactly when at least the timeout
  has elapsed, whether or not the 32 bit millisecond counter has wrapped around, as long as less than
  one period of the counter has passed; the remaining time never exceeds the timeout.
\<close>

theorem countdown_survives_wraparound:
  assumes "elapsed < 2 ^ 32" and "earlier \<le> elapsed"
  shows "(cd_hasTimedOut (start + of_nat elapsed) (cd_setTimeout start t c) \<longleftrightarrow> unat t \<le> elapsed) \<and>
    cd_hasTimedOut now (cd_timeOut now c) \<and>
    unat (cd_getRemainingMillis (start + of_nat earlier) (start + of_nat elapsed) (cd_setTimeout start t c)) =
      (if unat t \<le> elapsed then 0 else unat t - earlier)"
proof -
  have u: "unat (of_nat elapsed :: u32) = elapsed" "unat (of_nat earlier :: u32) = earlier"
    using assms by (simp_all add: unat_of_nat take_bit_nat_eq_self)
  have "start + t - (start + of_nat earlier) = t - of_nat earlier" by simp
  moreover have "unat (t - of_nat earlier) = unat t - earlier" if "\<not> unat t \<le> elapsed"
    using that assms(2) u(2) by (simp add: unat_sub_if_size)
  ultimately show ?thesis
    by (simp add: cd_hasTimedOut_def cd_setTimeout_def cd_timeOut_def cd_getRemainingMillis_def word_le_nat_alt u)
qed

theorem countdown_survives_wraparound_witness:
  "\<not> cd_hasTimedOut (0xFFFFFFFE + of_nat 7) (cd_setTimeout 0xFFFFFFFE 10 (cd_new 0 0))"
  using countdown_survives_wraparound [of 7 0 "0xFFFFFFFE" 10 "cd_new 0 0" 0]
  by (simp del: of_nat_numeral)

end
