(* ===== verification/Pus_Tm.thy ===== *)
theory Pus_Tm
  imports Pus_Packets Ccsds_Time
begin

text \<open>
  PUS telemetry, \<open>src/src/fsfw/tmtcpacket/pus/tm\<close>: the creator \<open>PusTmCreator.cpp\<close>, the reader
  \<open>PusTmReader.cpp\<close> and the writer \<open>PusTmZcWriter.cpp\<close> that patches a packet in place. Time stamper
  and time reader are interfaces of the framework (\<open>TimeWriterIF.h\<close>, \<open>TimeReaderIF.h\<close>); their
  contract is the locale \<open>time_codec\<close>, interpreted on the CDS time stamper.
\<close>

section \<open>Creator\<close>

record PusTmSecHeader =
  tms_service :: u8
  tms_subservice :: u8
  tms_timeStamper :: "ser_obj option"
  tms_pusVersion :: u8
  tms_scTimeRefStatus :: u8
  tms_messageTypeCounter :: u16
  tms_destId :: u16

record PusTmParams =
  tm_secHeader :: PusTmSecHeader
  tm_adapter :: "u8 buffer_adapter"
  tm_sourceData :: "ser_obj option"

definition tm_sec_new :: "u8 \<Rightarrow> u8 \<Rightarrow> ser_obj option \<Rightarrow> PusTmSecHeader" where
  "tm_sec_new service subservice timeStamper =
     \<lparr>tms_service = service, tms_subservice = subservice, tms_timeStamper = timeStamper,
      tms_pusVersion = PUS_C, tms_scTimeRefStatus = 0, tms_messageTypeCounter = 0, tms_destId = 0\<rparr>"

definition tm_params_new :: "u8 \<Rightarrow> u8 \<Rightarrow> ser_obj option \<Rightarrow> PusTmParams" where
  "tm_params_new service subservice timeStamper =
     \<lparr>tm_secHeader = tm_sec_new service subservice timeStamper, tm_adapter = ba_default,
      tm_sourceData = None\<rparr>"

abbreviation MIN_SEC_HEADER_LEN :: nat where "MIN_SEC_HEADER_LEN \<equiv> 7"

record tm_creator =
  tmc_pus :: PusTmParams
  tmc_calculateCrc :: bool
  tmc_sp :: sp_creator

abbreviation upd_sec :: "(PusTmSecHeader \<Rightarrow> PusTmSecHeader) \<Rightarrow> tm_creator \<Rightarrow> tm_creator" where
  "upd_sec f c \<equiv> c\<lparr>tmc_pus := (tmc_pus c)\<lparr>tm_secHeader := f (tm_secHeader (tmc_pus c))\<rparr>\<rparr>"

definition tmc_updateSpLengthField :: "tm_creator \<Rightarrow> tm_creator" where
  "tmc_updateSpLengthField c =
     (let headerLen = MIN_SEC_HEADER_LEN + 2;
          headerLen = (case tm_sourceData (tmc_pus c) of None \<Rightarrow> headerLen | Some obj \<Rightarrow> headerLen + snd obj);
          headerLen = (case tms_timeStamper (tm_secHeader (tmc_pus c)) of None \<Rightarrow> headerLen
                       | Some obj \<Rightarrow> headerLen + snd obj)
      in c\<lparr>tmc_sp := setCcsdsLenFromTotalDataFieldLen headerLen (tmc_sp c)\<rparr>)"

definition tmc_setup :: "tm_creator \<Rightarrow> tm_creator" where
  "tmc_setup c =
     (let c = tmc_updateSpLengthField c
      in c\<lparr>tmc_sp := spc_setSeqFlags UNSEGMENTED (spc_setSecHeaderFlag (spc_setPacketType TM (tmc_sp c)))\<rparr>)"

definition tmc_new :: "SpacePacketParams \<Rightarrow> PusTmParams \<Rightarrow> tm_creator" where
  "tmc_new spParams pusParams =
     tmc_setup \<lparr>tmc_pus = pusParams, tmc_calculateCrc = True, tmc_sp = spc_new spParams\<rparr>"

definition disableCrcCalculation :: "tm_creator \<Rightarrow> tm_creator" where
  "disableCrcCalculation c = c\<lparr>tmc_calculateCrc := False\<rparr>"

definition enableCrcCalculation :: "tm_creator \<Rightarrow> tm_creator" where
  "enableCrcCalculation c = c\<lparr>tmc_calculateCrc := True\<rparr>"

definition tmc_setTimeStamper :: "ser_obj \<Rightarrow> tm_creator \<Rightarrow> tm_creator" where
  "tmc_setTimeStamper obj c = tmc_updateSpLengthField (upd_sec (\<lambda>s. s\<lparr>tms_timeStamper := Some obj\<rparr>) c)"

definition tmc_setApid :: "u16 \<Rightarrow> tm_creator \<Rightarrow> tm_creator" where
  "tmc_setApid ap c = c\<lparr>tmc_sp := spc_setApid ap (tmc_sp c)\<rparr>"

definition tmc_setMessageTypeCounter :: "u16 \<Rightarrow> tm_creator \<Rightarrow> tm_creator" where
  "tmc_setMessageTypeCounter n c = upd_sec (\<lambda>s. s\<lparr>tms_messageTypeCounter := n\<rparr>) c"

definition tmc_setDestId :: "u16 \<Rightarrow> tm_creator \<Rightarrow> tm_creator" where
  "tmc_setDestId n c = upd_sec (\<lambda>s. s\<lparr>tms_destId := n\<rparr>) c"

definition tmc_setService :: "u8 \<Rightarrow> tm_creator \<Rightarrow> tm_creator" where
  "tmc_setService n c = upd_sec (\<lambda>s. s\<lparr>tms_service := n\<rparr>) c"

definition tmc_setSubservice :: "u8 \<Rightarrow> tm_creator \<Rightarrow> tm_creator" where
  "tmc_setSubservice n c = upd_sec (\<lambda>s. s\<lparr>tms_subservice := n\<rparr>) c"

definition tmc_setRawUserData :: "bytes option \<Rightarrow> nat \<Rightarrow> tm_creator \<Rightarrow> retval \<times> tm_creator" where
  "tmc_setRawUserData data len c =
     (let p = tmc_pus c;
          p = (if data = None \<or> len = 0 then p\<lparr>tm_sourceData := None\<rparr>
               else
                 (let ba = ba_setConstBuffer data (of_nat len) (tm_adapter p)
                  in p\<lparr>tm_adapter := ba, tm_sourceData := Some (ba_obj ba)\<rparr>))
      in (OK, tmc_updateSpLengthField (c\<lparr>tmc_pus := p\<rparr>)))"

definition tmc_setSerializableUserData :: "ser_obj \<Rightarrow> tm_creator \<Rightarrow> retval \<times> tm_creator" where
  "tmc_setSerializableUserData obj c =
     (OK, tmc_updateSpLengthField (c\<lparr>tmc_pus := (tmc_pus c)\<lparr>tm_sourceData := Some obj\<rparr>\<rparr>))"

definition tmc_getFullPacketLen :: "tm_creator \<Rightarrow> nat" where
  "tmc_getFullPacketLen c = sp_getFullPacketLen (spc_getPacketDataLen (tmc_sp c))"

definition tmc_getSerializedSize :: "tm_creator \<Rightarrow> nat" where
  "tmc_getSerializedSize c = tmc_getFullPacketLen c"

definition ser_opt :: "ser_obj option \<Rightarrow> Endianness \<Rightarrow> sink \<Rightarrow> nat \<Rightarrow> retval \<times> sink" where
  "ser_opt obj e snk maxSize = (case obj of None \<Rightarrow> (OK, snk) | Some obj \<Rightarrow> fst obj e snk maxSize)"

text \<open>
  Without a checksum its two bytes are skipped and keep whatever the buffer holds: \<open>old\<close>.
\<close>

definition tmc_serialize :: "u8 \<times> u8 \<Rightarrow> Endianness \<Rightarrow> tm_creator \<Rightarrow> sink \<Rightarrow> nat \<Rightarrow> retval \<times> sink" where
  "tmc_serialize old e c snk maxSize =
     (let start = length (fst snk); sec = tm_secHeader (tmc_pus c) in
      if snd snk + tmc_getSerializedSize c > maxSize then (BUFFER_TOO_SHORT, snk)
      else (case spc_serialize e (tmc_sp c) snk maxSize of (result, snk) \<Rightarrow>
        if result \<noteq> OK then (result, snk)
        else
          (let snk = (fst snk @ [(push_bit 4 (tms_pusVersion sec) AND 0xF0) OR (tms_scTimeRefStatus sec AND 0x0F),
                                 tms_service sec, tms_subservice sec], snd snk + 3) in
           case ser_word e (tms_messageTypeCounter sec) snk maxSize of (result, snk) \<Rightarrow>
           if result \<noteq> OK then (result, snk)
           else (case ser_word e (tms_destId sec) snk maxSize of (result, snk) \<Rightarrow>
           if result \<noteq> OK then (result, snk)
           else (case ser_opt (tms_timeStamper sec) e snk maxSize of (result, snk) \<Rightarrow>
           if result \<noteq> OK then (result, snk)
           else (case ser_opt (tm_sourceData (tmc_pus c)) e snk maxSize of (result, snk) \<Rightarrow>
           if result \<noteq> OK then (result, snk)
           else if tmc_calculateCrc c then
             ser_word e (crc16ccitt (take (tmc_getFullPacketLen c - 2) (drop start (fst snk)))) snk maxSize
           else (OK, fst snk @ [fst old, snd old], snd snk + 2)))))))"

section \<open>Reader\<close>

text \<open>A time reader: its state, \<open>readTimeStamp\<close> and \<open>getTimestampSize\<close>.\<close>

record 'r time_reader =
  tr_read :: "bytes \<Rightarrow> u64 \<Rightarrow> 'r \<Rightarrow> retval \<times> 'r"
  tr_size :: "'r \<Rightarrow> nat"
  tr_state :: 'r

record 'r tm_reader =
  tmr_sp :: sp_reader
  tmr_spHeaderStart :: "bytes option"
  tmr_secHeaderStart :: "bytes option"
  tmr_userDataStart :: "bytes option"
  tmr_crcStart :: "bytes option"
  tmr_sourceDataLen :: u64
  tmr_timeReader :: "'r time_reader option"

definition tmr_new :: "'r time_reader option \<Rightarrow> 'r tm_reader" where
  "tmr_new tr = \<lparr>tmr_sp = spr_new, tmr_spHeaderStart = None, tmr_secHeaderStart = None,
     tmr_userDataStart = None, tmr_crcStart = None, tmr_sourceDataLen = 0, tmr_timeReader = tr\<rparr>"

definition tmr_setReadOnlyData :: "bytes option \<Rightarrow> nat \<Rightarrow> 'r tm_reader \<Rightarrow> retval \<times> 'r tm_reader" where
  "tmr_setReadOnlyData data n r =
     (case spr_setReadOnlyData data n (tmr_sp r) of (result, sp) \<Rightarrow>
        (result, r\<lparr>tmr_spHeaderStart := data, tmr_sp := sp\<rparr>))"

definition tmr_setTimeReader :: "'r time_reader option \<Rightarrow> 'r tm_reader \<Rightarrow> 'r tm_reader" where
  "tmr_setTimeReader tr r = r\<lparr>tmr_timeReader := tr\<rparr>"

definition tmr_isNull :: "'r tm_reader \<Rightarrow> bool" where
  "tmr_isNull r \<longleftrightarrow> spr_isNull (tmr_sp r) \<or> tmr_secHeaderStart r = None"

definition tmr_parseData :: "bool \<Rightarrow> 'r tm_reader \<Rightarrow> retval \<times> 'r tm_reader" where
  "tmr_parseData crcCheck r =
     (case tmr_spHeaderStart r of
        None \<Rightarrow> (FAILED, r)
      | Some start \<Rightarrow>
     (case tmr_timeReader r of
        None \<Rightarrow> (FAILED, r)
      | Some tr \<Rightarrow>
          if spr_isNull (tmr_sp r) then (FAILED, r)
          else if spr_checkSize (tmr_sp r) \<noteq> OK then (spr_checkSize (tmr_sp r), r)
          else
            (let fullLen = spr_getFullPacketLen (tmr_sp r);
                 currentOffset = of_nat HEADER_LEN :: u64;
                 r = r\<lparr>tmr_secHeaderStart := Some (drop (unat currentOffset) start)\<rparr>;
                 currentOffset = currentOffset + of_nat MIN_SEC_HEADER_LEN;
                 minTimestampLen = of_nat fullLen - currentOffset;
                 (result, st) = tr_read tr (drop (unat currentOffset) start) minTimestampLen (tr_state tr);
                 r = r\<lparr>tmr_timeReader := Some (tr\<lparr>tr_state := st\<rparr>)\<rparr>
             in if result \<noteq> OK then (result, r)
                else
                  (let timestampLen = tr_size tr st in
                   if unat currentOffset + timestampLen > spr_bufSize (tmr_sp r) then (SER_STREAM_TOO_SHORT, r)
                   else
                     (let currentOffset = currentOffset + of_nat timestampLen;
                          sourceDataLen = of_nat fullLen - currentOffset - 2;
                          r = r\<lparr>tmr_sourceDataLen := sourceDataLen,
                                tmr_userDataStart :=
                                  (if sourceDataLen > 0 then Some (drop (unat currentOffset) start) else None)\<rparr>;
                          currentOffset = currentOffset + sourceDataLen;
                          r = r\<lparr>tmr_crcStart := Some (drop (unat currentOffset) start)\<rparr>
                      in if crcCheck \<and> crc16ccitt (take fullLen (the (spHeader (tmr_sp r)))) \<noteq> 0
                         then (INVALID_CRC_16, r) else (OK, r))))))"

definition tmr_getPusVersion :: "'r tm_reader \<Rightarrow> u8" where
  "tmr_getPusVersion r = drop_bit 4 (the (tmr_secHeaderStart r) ! 0) AND 0b1111"

definition tmr_getScTimeRefStatus :: "'r tm_reader \<Rightarrow> u8" where
  "tmr_getScTimeRefStatus r = the (tmr_secHeaderStart r) ! 0 AND 0b1111"

definition tmr_getService :: "'r tm_reader \<Rightarrow> u8" where
  "tmr_getService r = the (tmr_secHeaderStart r) ! 1"

definition tmr_getSubService :: "'r tm_reader \<Rightarrow> u8" where
  "tmr_getSubService r = the (tmr_secHeaderStart r) ! 2"

definition tmr_getMessageTypeCounter :: "'r tm_reader \<Rightarrow> u16" where
  "tmr_getMessageTypeCounter r =
     push_bit 8 (ucast (the (tmr_secHeaderStart r) ! 3)) OR ucast (the (tmr_secHeaderStart r) ! 4)"

definition tmr_getDestId :: "'r tm_reader \<Rightarrow> u16" where
  "tmr_getDestId r =
     push_bit 8 (ucast (the (tmr_secHeaderStart r) ! 5)) OR ucast (the (tmr_secHeaderStart r) ! 6)"

definition tmr_getUserDataLen :: "'r tm_reader \<Rightarrow> nat" where
  "tmr_getUserDataLen r = unat (tmr_sourceDataLen r)"

text \<open>The source data as a receiver takes it.\<close>

definition tmr_userData :: "'r tm_reader \<Rightarrow> bytes" where
  "tmr_userData r = (case tmr_userDataStart r of None \<Rightarrow> [] | Some d \<Rightarrow> take (tmr_getUserDataLen r) d)"

section \<open>Zero-copy writer\<close>

text \<open>
  The writer changes the packet its pointers refer to. A pointer is the bytes from it on, so that a
  write gives every pointer the bytes of the changed packet from the same offset on.
\<close>

definition ptr_rebase :: "bytes \<Rightarrow> bytes \<Rightarrow> bytes option \<Rightarrow> bytes option" where
  "ptr_rebase old new p = map_option (\<lambda>bs. drop (length old - length bs) new) p"

definition tmr_rebase :: "bytes \<Rightarrow> 'r tm_reader \<Rightarrow> 'r tm_reader" where
  "tmr_rebase new r =
     (let f = ptr_rebase (the (tmr_spHeaderStart r)) new; sp = tmr_sp r
      in r\<lparr>tmr_sp := sp\<lparr>spHeader := f (spHeader sp), packetDataField := f (packetDataField sp)\<rparr>,
          tmr_spHeaderStart := f (tmr_spHeaderStart r), tmr_secHeaderStart := f (tmr_secHeaderStart r),
          tmr_userDataStart := f (tmr_userDataStart r), tmr_crcStart := f (tmr_crcStart r)\<rparr>)"

definition header_bytes :: "PrimaryHeader \<Rightarrow> bytes" where
  "header_bytes h = [packetIdHAndVersion h, packetIdL h, packetSeqCtrlH h, packetSeqCtrlL h,
     packetLenH h, packetLenL h]"

definition zc_setSequenceCount :: "u16 \<Rightarrow> 'r tm_reader \<Rightarrow> 'r tm_reader" where
  "zc_setSequenceCount cnt r =
     (if tmr_isNull r then r
      else
        (let buf = the (tmr_spHeaderStart r)
         in tmr_rebase (memcpy_at buf 0 (header_bytes (hdr_setSequenceCount cnt (header_of buf)))) r))"

definition zc_updateErrorControl :: "'r tm_reader \<Rightarrow> 'r tm_reader" where
  "zc_updateErrorControl r =
     (if tmr_isNull r then r
      else
        (let buf = the (tmr_spHeaderStart r);
             crcStart = length buf - length (the (tmr_crcStart r));
             crc16 = crc16ccitt (take (spr_getFullPacketLen (tmr_sp r) - 2) buf)
         in tmr_rebase (memcpy_at buf crcStart [ucast (drop_bit 8 crc16 AND 0xff), ucast (crc16 AND 0xff)]) r))"

section \<open>What a telemetry creator writes\<close>

definition tm_sec_header :: "PusTmSecHeader \<Rightarrow> bytes" where
  "tm_sec_header sec = [(push_bit 4 (tms_pusVersion sec) AND 0xF0) OR (tms_scTimeRefStatus sec AND 0x0F),
     tms_service sec, tms_subservice sec, hi8 (tms_messageTypeCounter sec), lo8 (tms_messageTypeCounter sec),
     hi8 (tms_destId sec), lo8 (tms_destId sec)]"

lemma length_tm_sec_header [simp]: "length (tm_sec_header sec) = 7"
  by (simp add: tm_sec_header_def)

definition tm_body :: "SpacePacketParams \<Rightarrow> PusTmSecHeader \<Rightarrow> bytes \<Rightarrow> bytes \<Rightarrow> bytes" where
  "tm_body sp sec ts data = sp_header_bytes sp @ tm_sec_header sec @ ts @ data"

lemma tmc_serialize_data:
  assumes ts: "\<And>out n. n + length ts \<le> m \<Longrightarrow> ser_opt (tms_timeStamper (tm_secHeader (tmc_pus c))) BIG (out, n) m = (OK, out @ ts, n + length ts)"
    and data: "\<And>out n. n + length data \<le> m \<Longrightarrow> ser_opt (tm_sourceData (tmc_pus c)) BIG (out, n) m = (OK, out @ data, n + length data)"
    and v: "spc_valid (tmc_sp c)" "tmc_calculateCrc c"
    and len: "unat (sp_dataLen (spc_params (tmc_sp c))) = 8 + length ts + length data"
    and fit: "n + (15 + length ts + length data) \<le> m"
  shows "tmc_serialize old BIG c (out, n) m =
    (OK, out @ with_crc (tm_body (spc_params (tmc_sp c)) (tm_secHeader (tmc_pus c)) ts data),
     n + (15 + length ts + length data))"
proof -
  let ?p = "spc_params (tmc_sp c)" and ?sec = "tm_secHeader (tmc_pus c)"
  let ?b = "tm_body ?p ?sec ts data"
  have full: "tmc_getFullPacketLen c = 15 + length ts + length data"
    using len by (simp add: tmc_getFullPacketLen_def sp_getFullPacketLen_def spc_getPacketDataLen_def)
  have sp: "spc_serialize BIG (tmc_sp c) (out, n) m = (OK, out @ sp_header_bytes ?p, n + 6)"
    using v(1) fit by (simp add: spc_serialize_OK)
  have s: "ser_opt (tms_timeStamper ?sec) BIG (out @ sp_header_bytes ?p @ tm_sec_header ?sec, 13 + n) m =
      (OK, out @ sp_header_bytes ?p @ tm_sec_header ?sec @ ts, 13 + n + length ts)"
    using ts [of "13 + n"] fit by simp
  have d: "ser_opt (tm_sourceData (tmc_pus c)) BIG (out @ sp_header_bytes ?p @ tm_sec_header ?sec @ ts, 13 + n + length ts) m =
      (OK, out @ ?b, 13 + n + length ts + length data)"
    using data [of "13 + n + length ts"] fit by (simp add: tm_body_def)
  have t: "take (13 + length ts + length data) ?b = ?b" by (simp add: tm_body_def)
  show ?thesis
    using fit v(2) s d t
    by (simp add: tmc_serialize_def Let_def tmc_getSerializedSize_def full sp ser_u16_big with_crc_def
      tm_sec_header_def)
qed

lemma tmr_parse_packet:
  assumes len: "unat (sp_dataLen p) = 8 + length ts + length data" and n: "15 + length ts + length data \<le> n"
    and pkt: "pkt = sp_header_bytes p @ sec @ ts @ data @ crc @ rest" and "length sec = 7" and "length crc = 2"
    and rd: "\<And>k bs. length ts \<le> unat k \<Longrightarrow> tr_read tr (ts @ bs) k (tr_state tr) = (OK, st)"
    and sz: "tr_size tr st = length ts"
    and set: "tmr_setReadOnlyData (Some pkt) n (tmr_new (Some tr)) = (res, r)"
    and parse: "tmr_parseData withCrc r = (res', r')"
  shows "res = OK" and "tmr_secHeaderStart r' = Some (sec @ ts @ data @ crc @ rest)"
    and "tmr_userData r' = data" and "tmr_crcStart r' = Some (crc @ rest)"
    and "tmr_sp r' = \<lparr>spHeader = Some pkt, packetDataField = Some (sec @ ts @ data @ crc @ rest), spr_bufSize = n\<rparr>"
    and "tmr_spHeaderStart r' = Some pkt"
    and "res' = (if withCrc \<and> crc16ccitt (take (15 + length ts + length data) pkt) \<noteq> 0 then INVALID_CRC_16 else OK)"
    and "tmr_timeReader r' = Some (tr\<lparr>tr_state := st\<rparr>)"
proof -
  define sp where "sp = \<lparr>spHeader = Some pkt, packetDataField = Some (sec @ ts @ data @ crc @ rest), spr_bufSize = n\<rparr>"
  have "spr_setReadOnlyData (Some pkt) n spr_new = (OK, sp)"
    using reader_set_header [of p n "sec @ ts @ data @ crc @ rest"] len n by (simp add: pkt sp_def)
  then have r: "res = OK" "r = (tmr_new (Some tr))\<lparr>tmr_spHeaderStart := Some pkt, tmr_sp := sp\<rparr>"
    using set by (simp_all add: tmr_setReadOnlyData_def tmr_new_def)
  have full: "spr_getFullPacketLen sp = 15 + length ts + length data"
    using reader_of_header(4) [of sp p "sec @ ts @ data @ crc @ rest"] len by (simp add: pkt sp_def)
  have lb: "length ts + length data < 2 ^ 16"
    using len unsigned_less [of "sp_dataLen p", where ?'a = nat] by simp
  then have u: "unat (of_nat (length data) :: u64) = length data" "unat (of_nat (length ts) :: u64) = length ts"
    by (simp_all add: unat_of_nat take_bit_nat_eq_self)
  have u2: "unat (13 + of_nat (length ts) :: u64) = 13 + length ts"
      "unat (13 + of_nat (length ts) + of_nat (length data) :: u64) = 13 + length ts + length data"
    using lb by (simp_all add: unat_word_ariths u)
  have u3: "length ts \<le> unat (of_nat (15 + length ts + length data) - 13 :: u64)"
  proof -
    have e: "(of_nat (15 + length ts + length data) - 13 :: u64) = of_nat (2 + length ts + length data)" by simp
    show ?thesis unfolding e unat_of_nat using lb by (simp add: take_bit_nat_eq_self)
  qed
  have sd: "(of_nat (15 + length ts + length data) - (13 + of_nat (length ts)) - 2 :: u64) = of_nat (length data)"
    by simp
  have chk: "spr_checkSize sp = OK" "\<not> spr_isNull sp" "the (spHeader sp) = pkt" "spr_bufSize sp = n"
    using full n by (simp_all add: spr_checkSize_def spr_isNull_def sp_def)
  have z: "(0 :: u64) < of_nat (length data) \<longleftrightarrow> data \<noteq> []"
    using u by (auto simp: word_gt_0 dest!: arg_cong [where f = unat])
  have d: "drop 6 pkt = sec @ ts @ data @ crc @ rest" "drop 13 pkt = ts @ data @ crc @ rest"
      "drop (13 + length ts) pkt = data @ crc @ rest"
      "drop (13 + length ts + length data) pkt = crc @ rest"
    using assms(4) by (simp_all add: pkt)
  have o: "(6 + 7 :: u64) = 13" by simp
  have q: "tr_read tr (ts @ data @ crc @ rest) (of_nat (15 + length ts + length data) - 13) (tr_state tr) = (OK, st)"
    by (rule rd [OF u3])
  have p: "tmr_parseData withCrc r =
      (if withCrc \<and> crc16ccitt (take (15 + length ts + length data) pkt) \<noteq> 0 then INVALID_CRC_16 else OK,
       r\<lparr>tmr_secHeaderStart := Some (sec @ ts @ data @ crc @ rest), tmr_timeReader := Some (tr\<lparr>tr_state := st\<rparr>),
         tmr_sourceDataLen := of_nat (length data),
         tmr_userDataStart := (if data \<noteq> [] then Some (data @ crc @ rest) else None),
         tmr_crcStart := Some (crc @ rest)\<rparr>)"
    using q n by (simp add: tmr_parseData_def r(2) tmr_new_def chk full u2 u z d sz Let_def)
  have r': "res' = (if withCrc \<and> crc16ccitt (take (15 + length ts + length data) pkt) \<noteq> 0 then INVALID_CRC_16 else OK)"
      "r' = r\<lparr>tmr_secHeaderStart := Some (sec @ ts @ data @ crc @ rest), tmr_timeReader := Some (tr\<lparr>tr_state := st\<rparr>),
         tmr_sourceDataLen := of_nat (length data),
         tmr_userDataStart := (if data \<noteq> [] then Some (data @ crc @ rest) else None),
         tmr_crcStart := Some (crc @ rest)\<rparr>"
    using parse unfolding p by simp_all
  show "res = OK" by (rule r(1))
  show "tmr_secHeaderStart r' = Some (sec @ ts @ data @ crc @ rest)"
    "tmr_userData r' = data" "tmr_crcStart r' = Some (crc @ rest)"
    "tmr_sp r' = \<lparr>spHeader = Some pkt, packetDataField = Some (sec @ ts @ data @ crc @ rest), spr_bufSize = n\<rparr>"
    "tmr_spHeaderStart r' = Some pkt" "tmr_timeReader r' = Some (tr\<lparr>tr_state := st\<rparr>)"
    "res' = (if withCrc \<and> crc16ccitt (take (15 + length ts + length data) pkt) \<noteq> 0 then INVALID_CRC_16 else OK)"
    using u by (simp_all add: r' r(2) sp_def tmr_userData_def tmr_getUserDataLen_def)
qed

text \<open>The fields of a telemetry packet as the reader returns them.\<close>

definition tm_fields_agree :: "SpacePacketParams \<Rightarrow> PusTmSecHeader \<Rightarrow> bytes \<Rightarrow> 'r tm_reader \<Rightarrow> bool" where
  "tm_fields_agree sp sec data r \<longleftrightarrow>
     sp_getApid (spr_getPacketIdRaw (tmr_sp r)) = apid (sp_packetId sp) \<and>
     \<not> sp_isTc (spr_getPacketIdRaw (tmr_sp r)) \<and> sp_hasSecHeader (spr_getPacketIdRaw (tmr_sp r)) \<and>
     sp_getSequenceCount (spr_getPacketSeqCtrlRaw (tmr_sp r)) = seqCount (sp_packetSeqCtrl sp) \<and>
     tmr_getPusVersion r = tms_pusVersion sec \<and> tmr_getScTimeRefStatus r = tms_scTimeRefStatus sec \<and>
     tmr_getService r = tms_service sec \<and> tmr_getSubService r = tms_subservice sec \<and>
     tmr_getMessageTypeCounter r = tms_messageTypeCounter sec \<and> tmr_getDestId r = tms_destId sec \<and>
     tmr_userData r = data"

lemma tm_sec_header_fields:
  assumes "tmr_secHeaderStart r = Some (tm_sec_header sec @ xs)"
    and "tms_pusVersion sec < 16" and "tms_scTimeRefStatus sec < 16"
  shows "tmr_getPusVersion r = tms_pusVersion sec" "tmr_getScTimeRefStatus r = tms_scTimeRefStatus sec"
    "tmr_getService r = tms_service sec" "tmr_getSubService r = tms_subservice sec"
    "tmr_getMessageTypeCounter r = tms_messageTypeCounter sec" "tmr_getDestId r = tms_destId sec"
proof -
  have b: "bit (tms_pusVersion sec) n \<Longrightarrow> n < 4" "bit (tms_scTimeRefStatus sec) n \<Longrightarrow> n < 4" for n
    using assms(2,3) bit_below [of "tms_pusVersion sec" 4 n] bit_below [of "tms_scTimeRefStatus sec" 4 n] by simp_all
  then have nb: "\<not> bit (tms_pusVersion sec) 4" "\<not> bit (tms_pusVersion sec) 5" "\<not> bit (tms_pusVersion sec) 6"
      "\<not> bit (tms_pusVersion sec) 7" "\<not> bit (tms_scTimeRefStatus sec) 4" "\<not> bit (tms_scTimeRefStatus sec) 5"
      "\<not> bit (tms_scTimeRefStatus sec) 6" "\<not> bit (tms_scTimeRefStatus sec) 7"
    by (auto dest: b)
  show "tmr_getPusVersion r = tms_pusVersion sec" "tmr_getScTimeRefStatus r = tms_scTimeRefStatus sec"
    using nb by (simp_all add: tmr_getPusVersion_def tmr_getScTimeRefStatus_def assms(1) tm_sec_header_def)
      ((rule byte_eqI, erule byte_bit_cases; simp add: bit_simps)+)
  show "tmr_getService r = tms_service sec" "tmr_getSubService r = tms_subservice sec"
    by (simp_all add: tmr_getService_def tmr_getSubService_def assms(1) tm_sec_header_def)
  have "push_bit 8 (ucast (hi8 w)) OR ucast (lo8 w) = w" for w :: u16
    using be16_hi8_lo8 [of w] by (simp only: be16_def)
  then show "tmr_getMessageTypeCounter r = tms_messageTypeCounter sec" "tmr_getDestId r = tms_destId sec"
    by (simp_all add: tmr_getMessageTypeCounter_def tmr_getDestId_def assms(1) tm_sec_header_def)
qed

section \<open>Time stamps\<close>

text \<open>
  What the telemetry packets rely on: a stamper writes a stamp of fixed length for the current time,
  and the reader accepts it at the start of whatever follows.
\<close>

locale time_codec =
  fixes valid :: "'p \<Rightarrow> bool"
    and stamp :: "'p \<Rightarrow> bytes"
    and ser :: "'p \<Rightarrow> Endianness \<Rightarrow> sink \<Rightarrow> nat \<Rightarrow> retval \<times> sink"
    and len :: nat
    and rd :: "'p \<Rightarrow> bytes \<Rightarrow> u64 \<Rightarrow> 'r \<Rightarrow> retval \<times> 'r"
    and size_of :: "'r \<Rightarrow> nat"
    and seen :: "'p \<Rightarrow> 'r"
  assumes len_small: "len \<le> 16"
    and length_stamp: "valid p \<Longrightarrow> length (stamp p) = len"
    and ser_stamp: "valid p \<Longrightarrow> n + len \<le> m \<Longrightarrow> ser p e (out, n) m = (OK, out @ stamp p, n + len)"
    and rd_stamp: "valid p \<Longrightarrow> len \<le> unat k \<Longrightarrow> rd p (stamp p @ rest) k st = (OK, seen p)"
    and size_stamp: "size_of st = len"
begin

definition stamper :: "'p \<Rightarrow> ser_obj" where
  "stamper p = (ser p, len)"

definition reader :: "'p \<Rightarrow> 'r \<Rightarrow> 'r time_reader" where
  "reader p st = \<lparr>tr_read = rd p, tr_size = size_of, tr_state = st\<rparr>"

text \<open>A telemetry creator with this stamper and raw source data.\<close>

lemma raw_fields:
  fixes sp :: SpacePacketParams
  assumes "\<not> ba_serializeLength (tm_adapter pus)" and "length data < 256" and "data \<noteq> []"
    and "tms_timeStamper (tm_secHeader pus) = Some (stamper p)"
  defines "c \<equiv> snd (tmc_setRawUserData (Some data) (length data) (tmc_new sp pus))"
  shows "spc_params (tmc_sp c) = sp\<lparr>sp_packetId := (sp_packetId sp)\<lparr>packetType := TM, secHeaderFlag := True\<rparr>,
      sp_packetSeqCtrl := (sp_packetSeqCtrl sp)\<lparr>seqFlags := UNSEGMENTED\<rparr>,
      sp_dataLen := of_nat (8 + len + length data)\<rparr>"
    and "spc_valid (tmc_sp c) = spc_valid (spc_new sp)" and "tmc_calculateCrc c"
    and "tm_secHeader (tmc_pus c) = tm_secHeader pus"
    and "n + length data \<le> m \<Longrightarrow> ser_opt (tm_sourceData (tmc_pus c)) e (out, n) m = (OK, out @ data, n + length data)"
proof -
  let ?ba = "ba_setConstBuffer (Some data) (of_nat (length data)) (tm_adapter pus)"
  have u: "unat (of_nat (length data) :: u8) = length data"
    using assms(2) by (simp add: unat_of_nat take_bit_nat_eq_self)
  have ba: "\<not> ba_serializeLength ?ba" "ba_constBuffer ?ba = Some data" "unat (ba_bufferLength ?ba) = length data"
    using assms(1) u by (simp_all add: ba_setConstBuffer_def)
  have sz: "snd (ba_obj ?ba) = length data" using ba by (simp add: ba_obj_def ba_getSerializedSize_def)
  have src: "tm_sourceData (tmc_pus c) = Some (ba_obj ?ba)"
    using assms(3) by (simp add: c_def tmc_setRawUserData_def tmc_updateSpLengthField_def tmc_new_def tmc_setup_def Let_def)
  show "ser_opt (tm_sourceData (tmc_pus c)) e (out, n) m = (OK, out @ data, n + length data)" if "n + length data \<le> m"
    using ba_serialize_raw [OF ba that] by (simp add: ser_opt_def src ba_obj_def)
  show "tmc_calculateCrc c" "tm_secHeader (tmc_pus c) = tm_secHeader pus"
    "spc_valid (tmc_sp c) = spc_valid (spc_new sp)"
    using assms(3) by (simp_all add: c_def tmc_setRawUserData_def tmc_updateSpLengthField_def tmc_new_def tmc_setup_def
      setCcsdsLenFromTotalDataFieldLen_def spc_setDataLenField_def spc_setSeqFlags_def
      spc_setSecHeaderFlag_def spc_setPacketType_def Let_def)
  show "spc_params (tmc_sp c) = sp\<lparr>sp_packetId := (sp_packetId sp)\<lparr>packetType := TM, secHeaderFlag := True\<rparr>,
      sp_packetSeqCtrl := (sp_packetSeqCtrl sp)\<lparr>seqFlags := UNSEGMENTED\<rparr>,
      sp_dataLen := of_nat (8 + len + length data)\<rparr>"
    using assms(3,4) sz by (simp add: c_def tmc_setRawUserData_def tmc_updateSpLengthField_def tmc_new_def tmc_setup_def
      setCcsdsLenFromTotalDataFieldLen_def spc_setDataLenField_def spc_setSeqFlags_def
      spc_setSecHeaderFlag_def spc_setPacketType_def Let_def spc_new_def checkFieldValidity_def stamper_def
      algebra_simps)
qed

lemma tm_serialized_length:
  fixes sp :: SpacePacketParams
  assumes raw: "\<not> ba_serializeLength (tm_adapter pus)" "length data < 256" "data \<noteq> []"
    and p: "tms_timeStamper (tm_secHeader pus) = Some (stamper p)" "valid p"
    and ok: "apid (sp_packetId sp) < LIMIT_APID" "seqCount (sp_packetSeqCtrl sp) < LIMIT_SEQUENCE_COUNT"
    and m: "15 + len + length data \<le> m"
    and ser: "tmc_serialize old BIG (snd (tmc_setRawUserData (Some data) (length data) (tmc_new sp pus))) ([], 0) m =
      (res0, pkt, k)"
  defines "c \<equiv> snd (tmc_setRawUserData (Some data) (length data) (tmc_new sp pus))"
  shows "res0 = OK" and "pkt = with_crc (tm_body (spc_params (tmc_sp c)) (tm_secHeader pus) (stamp p) data)"
    and "k = 15 + len + length data" and "unat (sp_dataLen (spc_params (tmc_sp c))) = 8 + length (stamp p) + length data"
proof -
  note f = raw_fields [OF raw p(1), where sp = sp, folded c_def]
  note ls = length_stamp [OF p(2)]
  have v: "spc_valid (tmc_sp c)" using ok(1,2) by (auto simp: f(2) spc_new_def checkFieldValidity_def)
  show l: "unat (sp_dataLen (spc_params (tmc_sp c))) = 8 + length (stamp p) + length data"
    using raw(2) len_small by (simp add: f(1) ls unat_of_nat take_bit_nat_eq_self flip: of_nat_add)
  have "tmc_serialize old BIG c ([], 0) m =
      (OK, with_crc (tm_body (spc_params (tmc_sp c)) (tm_secHeader pus) (stamp p) data), 15 + len + length data)"
    using tmc_serialize_data [of "stamp p" m c data 0 old "[]"] ser_stamp [OF p(2)] f(3-5) p(1) v l m
    by (simp add: ls ser_opt_def stamper_def)
  then show "res0 = OK" "pkt = with_crc (tm_body (spc_params (tmc_sp c)) (tm_secHeader pus) (stamp p) data)"
      "k = 15 + len + length data"
    using ser by (simp_all add: c_def)
qed

lemma tm_roundtrip:
  fixes sp :: SpacePacketParams
  assumes raw: "\<not> ba_serializeLength (tm_adapter pus)" "length data < 256" "data \<noteq> []"
    and p: "tms_timeStamper (tm_secHeader pus) = Some (stamper p)" "valid p"
    and ok: "apid (sp_packetId sp) < LIMIT_APID" "seqCount (sp_packetSeqCtrl sp) < LIMIT_SEQUENCE_COUNT"
      "tms_pusVersion (tm_secHeader pus) < 16" "tms_scTimeRefStatus (tm_secHeader pus) < 16"
    and m: "15 + len + length data \<le> m"
    and ser: "tmc_serialize old BIG (snd (tmc_setRawUserData (Some data) (length data) (tmc_new sp pus))) ([], 0) m =
      (res0, pkt, k)"
    and n: "k \<le> n"
    and set: "tmr_setReadOnlyData (Some (pkt @ rest)) n (tmr_new (Some (reader p st))) = (res, r0)"
    and parse: "tmr_parseData True r0 = (res', r)"
  shows "res0 = OK \<and> k = 15 + len + length data \<and> length pkt = k \<and> res = OK \<and> res' = OK \<and>
    tm_fields_agree sp (tm_secHeader pus) data r \<and> tmr_timeReader r = Some (reader p (seen p))"
proof -
  define c where "c = snd (tmc_setRawUserData (Some data) (length data) (tmc_new sp pus))"
  note f = raw_fields [OF raw p(1), where sp = sp, folded c_def]
  let ?p = "spc_params (tmc_sp c)" and ?sec = "tm_secHeader pus"
  note ls = length_stamp [OF p(2)]
  note e = tm_serialized_length [OF raw p ok(1,2) m ser, folded c_def]
  note l = e(4)
  have lp: "length pkt = k" by (simp add: e tm_body_def ls)
  let ?crc = "[hi8 (crc16ccitt (tm_body ?p ?sec (stamp p) data)), lo8 (crc16ccitt (tm_body ?p ?sec (stamp p) data))]"
  have pk: "pkt @ rest = sp_header_bytes ?p @ tm_sec_header ?sec @ stamp p @ data @ ?crc @ rest"
    by (simp add: e(2) with_crc_def tm_body_def)
  have n': "15 + length (stamp p) + length data \<le> n" using n e(3) ls by simp
  have tr: "tr_read (reader p st) (stamp p @ bs) x (tr_state (reader p st)) = (OK, seen p)" if "length (stamp p) \<le> unat x" for x bs
    using that by (simp add: reader_def ls rd_stamp [OF p(2)])
  have sz: "tr_size (reader p st) (seen p) = length (stamp p)" by (simp add: reader_def size_stamp ls)
  note q = tmr_parse_packet [OF l n' pk _ _ tr sz set parse]
  have "take (15 + length (stamp p) + length data) (pkt @ rest) = pkt" using lp e(3) ls by simp
  then have crc: "crc16ccitt (take (15 + length (stamp p) + length data) (pkt @ rest)) = 0"
    by (simp add: e(2) crc_with_crc)
  have sec: "tmr_secHeaderStart r = Some (tm_sec_header ?sec @ (stamp p @ data @ ?crc @ rest))" using q(2) by simp
  note h = tm_sec_header_fields [OF sec ok(3,4)]
  have spr: "tmr_sp r = \<lparr>spHeader = Some (sp_header_bytes ?p @ (tm_sec_header ?sec @ stamp p @ data @ ?crc @ rest)),
      packetDataField = Some (tm_sec_header ?sec @ stamp p @ data @ ?crc @ rest), spr_bufSize = n\<rparr>"
    using q(5) by (simp add: pk)
  have pid: "pid_fromRaw (spr_getPacketIdRaw (tmr_sp r)) = sp_packetId ?p"
    using reader_of_header(1) [OF spr] pid_roundtrip [of "sp_packetId ?p"] ok(1) by (simp add: f(1))
  have psc: "psc_fromRaw (spr_getPacketSeqCtrlRaw (tmr_sp r)) = sp_packetSeqCtrl ?p"
    using reader_of_header(2) [OF spr] psc_roundtrip [of "sp_packetSeqCtrl ?p"] ok(2) by (simp add: f(1))
  have "tm_fields_agree sp ?sec data r"
    using q(3) h by (simp add: tm_fields_agree_def sp_accessors sp_isTc_def pid psc) (simp add: f(1))
  moreover have "tmr_timeReader r = Some (reader p (seen p))" using q(8) by (simp add: reader_def)
  moreover have "res = OK" "res' = OK" using q(1,7) crc by simp_all
  ultimately show ?thesis using e lp by simp
qed

end

section \<open>The CDS time stamper as time codec\<close>

text \<open>
  A parameter of the stamper is the environment and the current time. The stamps start with the
  byte 0x40, which is no digit, so that \<open>sscanf\<close> matches neither of the ASCII formats.
\<close>

definition cds_valid :: "time_env \<times> timeval \<Rightarrow> bool" where
  "cds_valid p \<longleftrightarrow> SECONDS_PER_DAY \<le> tv_sec (snd p) \<and> tv_sec (snd p) < 49711 * SECONDS_PER_DAY \<and>
     0 \<le> tv_usec (snd p) \<and> tv_usec (snd p) < 1000000 \<and>
     (\<forall>bs. scan_a (fst p) (0x40 # bs) = None) \<and> (\<forall>bs. scan_b (fst p) (0x40 # bs) = None)"

definition cds_stamp :: "time_env \<times> timeval \<Rightarrow> bytes" where
  "cds_stamp p = cds_bytes (snd (convertToCcsds_cds cds_zero (snd p)))"

definition cds_seen :: "time_env \<times> timeval \<Rightarrow> timeval" where
  "cds_seen p = \<lparr>tv_sec = tv_sec (snd p), tv_usec = tv_usec (snd p) - tv_usec (snd p) mod 1000\<rparr>"

definition cds_read :: "time_env \<times> timeval \<Rightarrow> bytes \<Rightarrow> u64 \<Rightarrow> timeval \<Rightarrow> retval \<times> timeval" where
  "cds_read p bs n st = readTimeStamp (fst p) bs (unat n) st"

lemma cds_stamp_first: "cds_stamp p = 0x40 # tl (cds_stamp p)"
  by (simp add: cds_stamp_def cds_bytes_def convertToCcsds_cds_def Let_def)

lemma cds_read_stamp:
  assumes "cds_valid p" and "7 \<le> n"
  shows "readTimeStamp (fst p) (cds_stamp p @ rest) n st = (OK, cds_seen p)"
proof -
  have v: "SECONDS_PER_DAY \<le> tv_sec (snd p)" "tv_sec (snd p) < 49711 * SECONDS_PER_DAY" "0 \<le> tv_usec (snd p)"
      "tv_usec (snd p) < 1000000"
    using assms(1) by (simp_all add: cds_valid_def)
  obtain r cds where c: "convertToCcsds_cds cds_zero (snd p) = (r, cds)"
    by (cases "convertToCcsds_cds cds_zero (snd p)") auto
  have dec: "convertFromCDS st (cds_stamp p @ rest) (Some 0) n = (OK, cds_seen p, Some 7)"
    using cds_codec_ok(2) [OF v assms(2) c, of st rest 0] by (simp add: cds_stamp_def c cds_seen_def)
  have bin: "ccsds_binary (fst p) st (cds_stamp p @ rest) 0 n = (OK, cds_seen p, 7)"
    using dec by (subst ccsds_binary_def) (subst cds_stamp_first, simp)
  have "fst (convertFromASCII (fst p) tod_zero (cds_stamp p @ rest) k) \<noteq> OK" for k
    using assms(1) by (subst cds_stamp_first) (simp add: convertFromASCII_def cds_valid_def)
  then have "convertFromCcsds (fst p) st (cds_stamp p @ rest) 0 n = (OK, cds_seen p, 7)"
    using bin by (auto simp: convertFromCcsds_def split: prod.splits)
       (metis fst_conv)+
  moreover have "drop_bit 4 ((cds_stamp p @ rest) ! 0) AND 0b111 = CDS" by (subst cds_stamp_first) simp
  ultimately show ?thesis using assms(2) by (simp add: readTimeStamp_def cds_deSerialize_def)
qed

interpretation cds: time_codec cds_valid cds_stamp "\<lambda>p. cds_serialize (snd p)" TIMESTAMP_LEN cds_read
  "\<lambda>_. TIMESTAMP_LEN" cds_seen
proof
  fix p :: "time_env \<times> timeval" and n m e out k rest st
  assume v: "cds_valid p"
  show "length (cds_stamp p) = TIMESTAMP_LEN" by (simp add: cds_stamp_def cds_bytes_def)
  have "fst (convertToCcsds_cds cds_zero (snd p)) = OK"
    using cds_codec_ok(1) [of "snd p" 7 cds_zero _ "snd (convertToCcsds_cds cds_zero (snd p))"] v
    by (simp add: cds_valid_def)
  then show "cds_serialize (snd p) e (out, n) m = (OK, out @ cds_stamp p, n + TIMESTAMP_LEN)" if "n + TIMESTAMP_LEN \<le> m"
    using that by (cases "convertToCcsds_cds cds_zero (snd p)") (simp add: cds_serialize_def cds_stamp_def)
  show "cds_read p (cds_stamp p @ rest) k st = (OK, cds_seen p)" if "TIMESTAMP_LEN \<le> unat k"
    using cds_read_stamp [OF v that] by (simp add: cds_read_def)
qed simp_all

section \<open>Properties of telemetry\<close>

text \<open>
  C31: round trip of telemetry: a packet with a CDS time stamp and between 1 and 255 bytes of raw source
  data (without a length field) is serialized into a buffer that is large enough; the reader, given
  these bytes and whatever follows them, accepts size, time stamp and checksum, and returns the
  application identifier, the sequence count, the packet type and the secondary header flag of the
  packet header, every field of the secondary header, the source data, and the time with a resolution
  of one millisecond. The clock shows a time from 2 January 1970 to 7 February 2106; the application
  identifier is below 2048, the sequence count below 16384, the PUS version and the status of the time
  reference are below 16.
\<close>

theorem tm_packet_roundtrip:
  fixes sp :: SpacePacketParams
  assumes "\<not> ba_serializeLength (tm_adapter pus)" and "length data < 256" and "data \<noteq> []"
    and "tms_timeStamper (tm_secHeader pus) = Some (cds.stamper (env, now))" and "cds_valid (env, now)"
    and "apid (sp_packetId sp) < LIMIT_APID" and "seqCount (sp_packetSeqCtrl sp) < LIMIT_SEQUENCE_COUNT"
    and "tms_pusVersion (tm_secHeader pus) < 16" and "tms_scTimeRefStatus (tm_secHeader pus) < 16"
    and "22 + length data \<le> m"
    and "tmc_serialize old BIG (snd (tmc_setRawUserData (Some data) (length data) (tmc_new sp pus))) ([], 0) m =
      (res0, pkt, k)"
    and "k \<le> n"
    and "tmr_setReadOnlyData (Some (pkt @ rest)) n (tmr_new (Some (cds.reader (env, now) st))) = (res, r0)"
    and "tmr_parseData True r0 = (res', r)"
  shows "res0 = OK \<and> k = 22 + length data \<and> length pkt = k \<and> res = OK \<and> res' = OK \<and>
    tm_fields_agree sp (tm_secHeader pus) data r \<and>
    tmr_timeReader r = Some (cds.reader (env, now) \<lparr>tv_sec = tv_sec now, tv_usec = tv_usec now - tv_usec now mod 1000\<rparr>)"
proof -
  have m: "15 + TIMESTAMP_LEN + length data \<le> m" using assms(10) by simp
  from cds.tm_roundtrip [OF assms(1-9) m assms(11-14)] show ?thesis by (simp add: cds_seen_def)
qed

definition demo_env :: time_env where
  "demo_env = \<lparr>scan_a = (\<lambda>_. None), scan_b = (\<lambda>_. None), timegm = (\<lambda>_. 0),
     gmtime = (\<lambda>_. \<lparr>tm_year = 0, tm_mon = 0, tm_mday = 0, tm_hour = 0, tm_min = 0, tm_sec = 0\<rparr>), clock_mutex = True\<rparr>"

definition demo_now :: timeval where
  "demo_now = \<lparr>tv_sec = 1700000000, tv_usec = 5000\<rparr>"

theorem tm_packet_roundtrip_witness:
  "let pus = tm_params_new 3 25 (Some (cds.stamper (demo_env, demo_now)));
       sp = spc_params (spc_new_fields TM True 0x42 UNSEGMENTED 9 1 0);
       pkt = fst (snd (tmc_serialize (0, 0) BIG (snd (tmc_setRawUserData (Some [7, 8]) (length [7 :: u8, 8]) (tmc_new sp pus)))
               ([], 0) 64));
       r = snd (tmr_parseData True (snd (tmr_setReadOnlyData (Some (pkt @ [])) 64
               (tmr_new (Some (cds.reader (demo_env, demo_now) demo_now))))))
   in tmr_userData r = [7, 8] \<and> tmr_getService r = 3"
proof -
  let ?pus = "tm_params_new 3 25 (Some (cds.stamper (demo_env, demo_now)))"
  let ?sp = "spc_params (spc_new_fields TM True 0x42 UNSEGMENTED 9 1 0)"
  let ?c = "snd (tmc_setRawUserData (Some [7, 8]) (length [7 :: u8, 8]) (tmc_new ?sp ?pus))"
  have f: "\<not> ba_serializeLength (tm_adapter ?pus)" "tms_timeStamper (tm_secHeader ?pus) = Some (cds.stamper (demo_env, demo_now))"
      "cds_valid (demo_env, demo_now)" "apid (sp_packetId ?sp) < LIMIT_APID" "seqCount (sp_packetSeqCtrl ?sp) < LIMIT_SEQUENCE_COUNT"
      "tms_pusVersion (tm_secHeader ?pus) < 16" "tms_scTimeRefStatus (tm_secHeader ?pus) < 16" "tms_service (tm_secHeader ?pus) = 3"
    by (simp_all add: tm_params_new_def tm_sec_new_def ba_default_def spc_new_fields_def spc_new_def checkFieldValidity_def
      cds_valid_def demo_env_def demo_now_def)
  have d: "length [7 :: u8, 8] < 256" "[7 :: u8, 8] \<noteq> []" "22 + length [7 :: u8, 8] \<le> 64" by simp_all
  obtain res0 pkt k where s: "tmc_serialize (0, 0) BIG ?c ([], 0) 64 = (res0, pkt, k)"
    by (cases "tmc_serialize (0, 0) BIG ?c ([], 0) 64") auto
  obtain res r0 where t: "tmr_setReadOnlyData (Some (pkt @ [])) 64 (tmr_new (Some (cds.reader (demo_env, demo_now) demo_now))) = (res, r0)"
    by (cases "tmr_setReadOnlyData (Some (pkt @ [])) 64 (tmr_new (Some (cds.reader (demo_env, demo_now) demo_now)))") auto
  obtain res' r where q: "tmr_parseData True r0 = (res', r)" by (cases "tmr_parseData True r0") auto
  have dm: "15 + TIMESTAMP_LEN + length [7 :: u8, 8] \<le> 64" by simp
  have k: "k \<le> 64" using cds.tm_serialized_length [OF f(1) d(1,2) f(2,3,4,5) dm s] by simp
  have "tm_fields_agree ?sp (tm_secHeader ?pus) [7, 8] r"
    using tm_packet_roundtrip [OF f(1) d(1,2) f(2-7) d(3) s k t q] by simp
  then show ?thesis using s t q by (simp add: tm_fields_agree_def f)
qed

text \<open>
  The zero-copy writer: after a packet was parsed without looking at its checksum, as for one that
  was created without, \<open>updateErrorControl\<close> changes the two checksum bytes only and makes the
  checksum of the whole packet valid.
\<close>

theorem zc_update_makes_crc_valid:
  assumes "unat (sp_dataLen p) = 8 + length ts + length data" and "15 + length ts + length data \<le> n"
    and "pkt = sp_header_bytes p @ sec @ ts @ data @ crc @ rest" and "length sec = 7" and "length crc = 2"
    and "\<And>k bs. length ts \<le> unat k \<Longrightarrow> tr_read tr (ts @ bs) k (tr_state tr) = (OK, st)"
    and "tr_size tr st = length ts"
    and "tmr_setReadOnlyData (Some pkt) n (tmr_new (Some tr)) = (res, r0)"
    and "tmr_parseData False r0 = (res', r)"
  shows "\<exists>crc'. tmr_spHeaderStart (zc_updateErrorControl r) = Some (sp_header_bytes p @ sec @ ts @ data @ crc' @ rest) \<and>
    length crc' = 2 \<and> crc16ccitt (sp_header_bytes p @ sec @ ts @ data @ crc') = 0"
proof -
  note q = tmr_parse_packet [OF assms]
  let ?body = "sp_header_bytes p @ sec @ ts @ data"
  let ?crc = "crc16ccitt ?body"
  have null: "\<not> tmr_isNull r" using q(2,5) by (simp add: tmr_isNull_def spr_isNull_def)
  have full: "spr_getFullPacketLen (tmr_sp r) = 15 + length ts + length data"
    using reader_of_header(4) [of "tmr_sp r" p "sec @ ts @ data @ crc @ rest" _ n] q(5) assms(1,3) by simp
  have body: "take (13 + length ts + length data) pkt = ?body" using assms(4) by (simp add: assms(3))
  have off: "length pkt - length (crc @ rest) = length ?body" by (simp add: assms(3))
  have bt: "(ucast (drop_bit 8 w AND 0xff) :: u8) = hi8 w" "(ucast (w AND 0xff) :: u8) = lo8 w" for w :: u16
    by (rule byte_eqI, erule byte_bit_cases; simp add: bit_hi8 bit_lo8 bit_simps)+
  have bt2: "lo8 (drop_bit 8 w) = hi8 w" for w by (simp add: hi8_def lo8_def)
  have new: "memcpy_at pkt (length ?body) [hi8 ?crc, lo8 ?crc] = ?body @ [hi8 ?crc, lo8 ?crc] @ rest"
    using assms(5) by (simp add: memcpy_at_def assms(3))
  have "tmr_spHeaderStart (zc_updateErrorControl r) = Some (?body @ [hi8 ?crc, lo8 ?crc] @ rest)"
  proof -
    have "15 + length ts + length data - 2 = 13 + length ts + length data" by simp
    then have "zc_updateErrorControl r = tmr_rebase (?body @ [hi8 ?crc, lo8 ?crc] @ rest) r"
      using null q(4,6) unfolding zc_updateErrorControl_def Let_def full bt
      by (simp only: if_False option.sel body off bt2 new)
    then show ?thesis using q(6) by (simp add: tmr_rebase_def ptr_rebase_def Let_def)
  qed
  moreover have "crc16ccitt (?body @ [hi8 ?crc, lo8 ?crc]) = 0" by (simp only: crc_trailer_iff be16_hi8_lo8)
  ultimately show ?thesis by (intro exI [of _ "[hi8 ?crc, lo8 ?crc]"]) simp
qed

theorem zc_update_makes_crc_valid_witness:
  "let tr = \<lparr>tr_read = (\<lambda>_ _ _. (OK, ())), tr_size = (\<lambda>_. 0), tr_state = ()\<rparr>;
       sp = spc_params (spc_new_fields TM True 0x42 UNSEGMENTED 9 9 0);
       pkt = sp_header_bytes sp @ replicate 7 0 @ [] @ [5] @ [0, 0] @ [];
       r = snd (tmr_parseData False (snd (tmr_setReadOnlyData (Some pkt) 16 (tmr_new (Some tr)))))
   in \<exists>crc. tmr_spHeaderStart (zc_updateErrorControl r) = Some (sp_header_bytes sp @ replicate 7 0 @ [] @ [5] @ crc @ []) \<and>
     length crc = 2 \<and> crc16ccitt (sp_header_bytes sp @ replicate 7 0 @ [] @ [5] @ crc) = 0"
proof -
  define tr where "tr = \<lparr>tr_read = (\<lambda>_ _ _. (OK, ())), tr_size = (\<lambda>_. 0), tr_state = ()\<rparr>"
  let ?sp = "spc_params (spc_new_fields TM True 0x42 UNSEGMENTED 9 9 0)"
  let ?pkt = "sp_header_bytes ?sp @ replicate 7 0 @ [] @ [5] @ [0, 0] @ []"
  have d: "unat (sp_dataLen ?sp) = 8 + length [] + length [5 :: u8]"
    by (simp add: spc_new_fields_def spc_new_def checkFieldValidity_def)
  obtain res r0 where t: "tmr_setReadOnlyData (Some ?pkt) 16 (tmr_new (Some tr)) = (res, r0)"
    by (cases "tmr_setReadOnlyData (Some ?pkt) 16 (tmr_new (Some tr))") auto
  obtain res' r where q: "tmr_parseData False r0 = (res', r)" by (cases "tmr_parseData False r0") auto
  have "\<exists>crc. tmr_spHeaderStart (zc_updateErrorControl r) = Some (sp_header_bytes ?sp @ replicate 7 0 @ [] @ [5] @ crc @ []) \<and>
     length crc = 2 \<and> crc16ccitt (sp_header_bytes ?sp @ replicate 7 0 @ [] @ [5] @ crc) = 0"
    by (rule zc_update_makes_crc_valid [OF d _ refl _ _ _ _ t q, of "()"]) (simp_all add: tr_def)
  then show ?thesis using t q unfolding Let_def tr_def by (simp only: snd_conv)
qed

end
