(* ===== verification/Cfdp_Fields.thy ===== *)
theory Cfdp_Fields
  imports Serialize
begin

text \<open>
  The fields of CFDP packets (\<open>src/src/fsfw/cfdp\<close>): fields of variable width (\<open>VarLenFields.cpp\<close>),
  file sizes (\<open>FileSize.h\<close>), length-value and type-length-value fields (\<open>tlv/Lv.cpp\<close>, \<open>tlv/Tlv.cpp\<close>)
  and the fields built on them (\<open>tlv/EntityIdTlv.cpp\<close>, \<open>tlv/FilestoreRequestTlv.cpp\<close>,
  \<open>tlv/FilestoreResponseTlv.cpp\<close>, \<open>tlv/FaultHandlerOverrideTlv.cpp\<close>).

  Enumerations that are filled by an unchecked cast of a raw byte (condition codes, action codes,
  widths) are their raw values; those whose values are checked are datatypes. An object held by
  reference is part of the state of the object that holds it.
\<close>

section \<open>Constants\<close>

abbreviation INVALID_TLV_TYPE :: retval where "INVALID_TLV_TYPE \<equiv> RC 54 1"
abbreviation INVALID_DIRECTIVE_FIELD :: retval where "INVALID_DIRECTIVE_FIELD \<equiv> RC 54 2"
abbreviation INVALID_PDU_DATAFIELD_LEN :: retval where "INVALID_PDU_DATAFIELD_LEN \<equiv> RC 54 3"
abbreviation INVALID_ACK_DIRECTIVE_FIELDS :: retval where "INVALID_ACK_DIRECTIVE_FIELDS \<equiv> RC 54 4"
abbreviation METADATA_CANT_PARSE_OPTIONS :: retval where "METADATA_CANT_PARSE_OPTIONS \<equiv> RC 54 5"
abbreviation NAK_CANT_PARSE_OPTIONS :: retval where "NAK_CANT_PARSE_OPTIONS \<equiv> RC 54 6"
abbreviation FINISHED_CANT_PARSE_FS_RESPONSES :: retval where "FINISHED_CANT_PARSE_FS_RESPONSES \<equiv> RC 54 7"
abbreviation FILESTORE_REQUIRES_SECOND_FILE :: retval where "FILESTORE_REQUIRES_SECOND_FILE \<equiv> RC 54 8"
abbreviation FILESTORE_RESPONSE_CANT_PARSE_FS_MESSAGE :: retval where
  "FILESTORE_RESPONSE_CANT_PARSE_FS_MESSAGE \<equiv> RC 54 9"

definition VERSION_BITS :: u8 where "VERSION_BITS = push_bit 5 1"

datatype TlvType = FILESTORE_REQUEST | FILESTORE_RESPONSE | MSG_TO_USER | FAULT_HANDLER | FLOW_LABEL
  | ENTITY_ID | INVALID_TLV

fun tlv_code :: "TlvType \<Rightarrow> u8" where
  "tlv_code FILESTORE_REQUEST = 0"
| "tlv_code FILESTORE_RESPONSE = 1"
| "tlv_code MSG_TO_USER = 2"
| "tlv_code FAULT_HANDLER = 4"
| "tlv_code FLOW_LABEL = 5"
| "tlv_code ENTITY_ID = 6"
| "tlv_code INVALID_TLV = 255"

text \<open>\<open>static_cast<TlvType>\<close> of a byte that \<open>checkType\<close> let pass.\<close>

definition tlv_cast :: "u8 \<Rightarrow> TlvType" where
  "tlv_cast b = (if b = 0 then FILESTORE_REQUEST else if b = 1 then FILESTORE_RESPONSE
     else if b = 2 then MSG_TO_USER else if b = 4 then FAULT_HANDLER else if b = 5 then FLOW_LABEL
     else if b = 6 then ENTITY_ID else INVALID_TLV)"

abbreviation (input) NO_ERROR :: u8 where "NO_ERROR \<equiv> 0"
abbreviation (input) UNSUPPORTED_CHECKSUM_TYPE :: u8 where "UNSUPPORTED_CHECKSUM_TYPE \<equiv> 11"
abbreviation (input) NO_CONDITION_FIELD :: u8 where "NO_CONDITION_FIELD \<equiv> 255"

section \<open>Fields of variable width\<close>

text \<open>\<open>vlf_value\<close> is the memory of the union: a write to one member changes its low bytes only.\<close>

record VarLenField =
  vlf_width :: nat
  vlf_value :: u64

definition union_write :: "nat \<Rightarrow> u64 \<Rightarrow> VarLenField \<Rightarrow> VarLenField" where
  "union_write n v f =
     f\<lparr>vlf_value := (vlf_value f AND NOT (mask (8 * n))) OR (v AND mask (8 * n))\<rparr>"

definition vlf_default :: VarLenField where
  "vlf_default = \<lparr>vlf_width = 1, vlf_value = 0\<rparr>"

definition vlf_setValue :: "nat \<Rightarrow> u64 \<Rightarrow> VarLenField \<Rightarrow> retval \<times> VarLenField" where
  "vlf_setValue w v f =
     (if w = 1 then (if v > 0xFF then (FAILED, f) else (OK, (union_write 1 v f)\<lparr>vlf_width := w\<rparr>))
      else if w = 2 then (if v > 0xFFFF then (FAILED, f) else (OK, (union_write 2 v f)\<lparr>vlf_width := w\<rparr>))
      else if w = 4 then (if v > 0xFFFFFFFF then (FAILED, f) else (OK, (union_write 4 v f)\<lparr>vlf_width := w\<rparr>))
      else (OK, f\<lparr>vlf_width := w\<rparr>))"

definition vlf_new :: "nat \<Rightarrow> u64 \<Rightarrow> VarLenField" where
  "vlf_new w v = snd (vlf_setValue w v vlf_default)"

definition vlf_getValue :: "VarLenField \<Rightarrow> u64" where
  "vlf_getValue f =
     (if vlf_width f = 1 then ucast (ucast (vlf_value f) :: u8)
      else if vlf_width f = 2 then ucast (ucast (vlf_value f) :: u16)
      else if vlf_width f = 4 then ucast (ucast (vlf_value f) :: u32)
      else 0)"

definition vlf_serialize :: "Endianness \<Rightarrow> VarLenField \<Rightarrow> sink \<Rightarrow> nat \<Rightarrow> retval \<times> sink" where
  "vlf_serialize e f snk maxSize =
     (if vlf_width f = 1 then
        (if snd snk + 1 > maxSize then (BUFFER_TOO_SHORT, snk)
         else (OK, fst snk @ [ucast (vlf_value f)], snd snk + 1))
      else if vlf_width f = 2 then ser_word e (ucast (vlf_value f) :: u16) snk maxSize
      else if vlf_width f = 4 then ser_word e (ucast (vlf_value f) :: u32) snk maxSize
      else (FAILED, snk))"

definition vlf_getSerializedSize :: "VarLenField \<Rightarrow> nat" where
  "vlf_getSerializedSize f = vlf_width f"

text \<open>
  Reading a field of one byte adds to the remaining size instead of decreasing it, and leaves the
  buffer pointer where it is.
\<close>

definition vlf_deSerialize :: "Endianness \<Rightarrow> nat \<Rightarrow> VarLenField \<Rightarrow> source \<Rightarrow> retval \<times> VarLenField \<times> source" where
  "vlf_deSerialize e w f src =
     (let f = f\<lparr>vlf_width := w\<rparr> in
      if w = 1 then (OK, union_write 1 (ucast (hd (fst src))) f, fst src, snd src + 1)
      else if w = 2 then
        (case deser_word e src of (r, v :: u16 option, src) \<Rightarrow>
           (r, (case v of None \<Rightarrow> f | Some v \<Rightarrow> union_write 2 (ucast v) f), src))
      else if w = 4 then
        (case deser_word e src of (r, v :: u32 option, src) \<Rightarrow>
           (r, (case v of None \<Rightarrow> f | Some v \<Rightarrow> union_write 4 (ucast v) f), src))
      else (FAILED, f, src))"

definition vlf_less :: "VarLenField \<Rightarrow> VarLenField \<Rightarrow> bool" where
  "vlf_less f g =
     (if vlf_width f < vlf_width g then True
      else if vlf_width f = vlf_width g then vlf_getValue f < vlf_getValue g
      else False)"

definition vlf_equal :: "VarLenField \<Rightarrow> VarLenField \<Rightarrow> bool" where
  "vlf_equal f g \<longleftrightarrow> vlf_width f = vlf_width g \<and> vlf_getValue f = vlf_getValue g"

section \<open>File sizes\<close>

record FileSize =
  fs_fileSize :: u64
  fs_largeFile :: bool

definition fs_default :: FileSize where
  "fs_default = \<lparr>fs_fileSize = 0, fs_largeFile = False\<rparr>"

text \<open>The test for a value that does not fit looks at the value the object had before.\<close>

definition setFileSize :: "u64 \<Rightarrow> bool option \<Rightarrow> FileSize \<Rightarrow> retval \<times> FileSize" where
  "setFileSize v large f =
     (let f = (case large of Some l \<Rightarrow> f\<lparr>fs_largeFile := l\<rparr> | None \<Rightarrow> f) in
      if \<not> fs_largeFile f \<and> fs_fileSize f > 0xFFFFFFFF then (FAILED, f)
      else (OK, f\<lparr>fs_fileSize := v\<rparr>))"

definition fs_new :: "u64 \<Rightarrow> bool \<Rightarrow> FileSize" where
  "fs_new v large = snd (setFileSize v (Some large) fs_default)"

definition fs_serialize :: "Endianness \<Rightarrow> FileSize \<Rightarrow> sink \<Rightarrow> nat \<Rightarrow> retval \<times> sink" where
  "fs_serialize e f snk maxSize =
     (if \<not> fs_largeFile f then ser_word e (ucast (fs_fileSize f) :: u32) snk maxSize
      else ser_word e (fs_fileSize f) snk maxSize)"

definition fs_serialize_as :: "Endianness \<Rightarrow> bool \<Rightarrow> FileSize \<Rightarrow> sink \<Rightarrow> nat \<Rightarrow> retval \<times> FileSize \<times> sink" where
  "fs_serialize_as e isLarge f snk maxSize =
     (let f = f\<lparr>fs_largeFile := isLarge\<rparr> in
      case fs_serialize e f snk maxSize of (r, snk) \<Rightarrow> (r, f, snk))"

definition fs_getSerializedSize :: "FileSize \<Rightarrow> nat" where
  "fs_getSerializedSize f = (if fs_largeFile f then 8 else 4)"

text \<open>
  The eight bytes of a large size are read into the local pointer \<open>size\<close>; the file size stays what
  it was.
\<close>

definition fs_deSerialize :: "Endianness \<Rightarrow> FileSize \<Rightarrow> source \<Rightarrow> retval \<times> FileSize \<times> source" where
  "fs_deSerialize e f src =
     (if fs_largeFile f then
        (case deser_word e src of (r, v :: u64 option, src) \<Rightarrow> (r, f, src))
      else
        (case deser_word e src of (r, sizeTmp :: u32 option, src) \<Rightarrow>
           (r, (if r = OK then f\<lparr>fs_fileSize := ucast (the sizeTmp)\<rparr> else f), src)))"

section \<open>Length-value fields\<close>

record Lv =
  lv_zeroLen :: bool
  lv_value :: "u8 buffer_adapter"

definition lv_new :: "bytes option \<Rightarrow> nat \<Rightarrow> Lv" where
  "lv_new v sz = \<lparr>lv_zeroLen = \<not> 0 < sz, lv_value = ba_from_const v (of_nat sz) True\<rparr>"

definition lv_from_vector :: "bytes \<Rightarrow> Lv" where
  "lv_from_vector data =
     \<lparr>lv_zeroLen = (data = []), lv_value = ba_from_const (Some data) (of_nat (length data)) True\<rparr>"

definition lv_default :: Lv where
  "lv_default = \<lparr>lv_zeroLen = True, lv_value = ba_from_const None 0 True\<rparr>"

definition lv_getValue :: "Lv \<Rightarrow> bytes option \<times> nat" where
  "lv_getValue l = (ba_constBuffer (lv_value l), ba_getSerializedSize (lv_value l) - 1)"

definition lv_copy :: "Lv \<Rightarrow> Lv" where
  "lv_copy other =
     \<lparr>lv_zeroLen = \<not> ba_getSerializedSize (lv_value other) - 1 > 0,
      lv_value = ba_from_const (ba_constBuffer (lv_value other))
        (of_nat (ba_getSerializedSize (lv_value other) - 1)) True\<rparr>"

text \<open>The assignment sets \<open>zeroLen\<close> for an empty value and never clears it.\<close>

definition lv_assign :: "Lv \<Rightarrow> Lv \<Rightarrow> Lv" where
  "lv_assign this other =
     (case lv_getValue other of (otherVal, otherSize) \<Rightarrow>
        let this = (if otherVal = None \<or> otherSize = 0 then this\<lparr>lv_zeroLen := True\<rparr> else this) in
        this\<lparr>lv_value := ba_setConstBuffer otherVal (of_nat otherSize) (lv_value this)\<rparr>)"

definition lv_serialize :: "Endianness \<Rightarrow> Lv \<Rightarrow> sink \<Rightarrow> nat \<Rightarrow> retval \<times> sink" where
  "lv_serialize e l snk maxSize =
     (if maxSize < 1 then (BUFFER_TOO_SHORT, snk)
      else if lv_zeroLen l then (OK, fst snk @ [0], snd snk + 1)
      else ba_serialize e (lv_value l) snk maxSize)"

definition lv_getSerializedSize :: "Lv \<Rightarrow> nat" where
  "lv_getSerializedSize l =
     (if lv_zeroLen l then 1
      else if ba_constBuffer (lv_value l) = None then 0
      else ba_getSerializedSize (lv_value l))"

definition lv_deSerialize :: "Lv \<Rightarrow> source \<Rightarrow> retval \<times> Lv \<times> source" where
  "lv_deSerialize l src =
     (if snd src < 1 then (SER_STREAM_TOO_SHORT, l, src)
      else
        (let lengthField = unat (hd (fst src)) in
         if lengthField = 0 then (OK, l\<lparr>lv_zeroLen := True\<rparr>, drop 1 (fst src), snd src - 1)
         else if snd src < lengthField + 1 then (SER_STREAM_TOO_SHORT, l, src)
         else
           (OK, l\<lparr>lv_zeroLen := False,
                  lv_value := ba_setConstBuffer (Some (drop 1 (fst src))) (of_nat lengthField) (lv_value l)\<rparr>,
            drop (1 + lengthField) (fst src), snd src - (1 + lengthField))))"

section \<open>Type-length-value fields\<close>

record Tlv =
  tlv_zeroLen :: bool
  tlv_type :: TlvType
  tlv_value :: "u8 buffer_adapter"

definition tlv_new :: "TlvType \<Rightarrow> bytes option \<Rightarrow> nat \<Rightarrow> Tlv" where
  "tlv_new t v sz =
     \<lparr>tlv_zeroLen = \<not> 0 < sz, tlv_type = t, tlv_value = ba_from_const v (of_nat sz) True\<rparr>"

definition tlv_default :: Tlv where
  "tlv_default = \<lparr>tlv_zeroLen = True, tlv_type = INVALID_TLV, tlv_value = ba_from_const None 0 True\<rparr>"

definition tlv_serialize :: "Endianness \<Rightarrow> Tlv \<Rightarrow> sink \<Rightarrow> nat \<Rightarrow> retval \<times> sink" where
  "tlv_serialize e t snk maxSize =
     (if snd snk + 2 > maxSize then (BUFFER_TOO_SHORT, snk)
      else if tlv_type t = INVALID_TLV then (INVALID_TLV_TYPE, snk)
      else
        (let snk = (fst snk @ [tlv_code (tlv_type t)], snd snk + 1) in
         if tlv_zeroLen t then (OK, fst snk @ [0], snd snk + 1)
         else if ba_constBuffer (tlv_value t) = None then (FAILED, snk)
         else ba_serialize e (tlv_value t) snk maxSize))"

definition tlv_getSerializedSize :: "Tlv \<Rightarrow> nat" where
  "tlv_getSerializedSize t =
     (if tlv_zeroLen t then 2
      else if ba_constBuffer (tlv_value t) = None then 0
      else ba_getSerializedSize (tlv_value t) + 1)"

definition checkType :: "u8 \<Rightarrow> bool" where
  "checkType rawType \<longleftrightarrow> rawType \<noteq> 3 \<and> rawType \<le> 6"

definition tlv_deSerialize :: "Tlv \<Rightarrow> source \<Rightarrow> retval \<times> Tlv \<times> source" where
  "tlv_deSerialize t src =
     (if snd src < 2 then (SER_STREAM_TOO_SHORT, t, src)
      else
        (let rawType = hd (fst src) in
         if \<not> checkType rawType then (INVALID_TLV_TYPE, t, src)
         else
           (let t = t\<lparr>tlv_type := tlv_cast rawType\<rparr>;
                src = (drop 1 (fst src), snd src - 1);
                lengthField = unat (hd (fst src)) in
            if lengthField = 0 then (OK, t\<lparr>tlv_zeroLen := True\<rparr>, drop 1 (fst src), snd src - 1)
            else if lengthField + 1 > snd src then (SER_STREAM_TOO_SHORT, t, src)
            else
              (OK, t\<lparr>tlv_zeroLen := False,
                     tlv_value := ba_setConstBuffer (Some (drop 1 (fst src))) (of_nat lengthField) (tlv_value t)\<rparr>,
               drop (1 + lengthField) (fst src), snd src - (1 + lengthField)))))"

definition tlv_setValue :: "bytes option \<Rightarrow> nat \<Rightarrow> Tlv \<Rightarrow> Tlv" where
  "tlv_setValue v len t =
     (let t = (if len > 0 then t\<lparr>tlv_zeroLen := False\<rparr> else t) in
      t\<lparr>tlv_value := ba_setConstBuffer v (of_nat len) (tlv_value t)\<rparr>)"

definition tlv_setType :: "TlvType \<Rightarrow> Tlv \<Rightarrow> Tlv" where
  "tlv_setType ty t = t\<lparr>tlv_type := ty\<rparr>"

definition tlv_getLengthField :: "Tlv \<Rightarrow> u8" where
  "tlv_getLengthField t = of_nat (ba_getSerializedSize (tlv_value t) - 1)"

text \<open>Messages to the user and flow labels are fields of a fixed type.\<close>

definition msg_to_user :: "bytes option \<Rightarrow> nat \<Rightarrow> Tlv" where
  "msg_to_user v sz = tlv_new MSG_TO_USER v sz"

definition flow_label :: "bytes option \<Rightarrow> nat \<Rightarrow> Tlv" where
  "flow_label v sz = tlv_new FLOW_LABEL v sz"

section \<open>Entity identifiers\<close>

definition eid_getLengthField :: "VarLenField \<Rightarrow> u8" where
  "eid_getLengthField entityId = of_nat (1 + vlf_getSerializedSize entityId)"

definition eid_getSerializedSize :: "VarLenField \<Rightarrow> nat" where
  "eid_getSerializedSize entityId = unat (eid_getLengthField entityId) + 1"

definition eid_serialize :: "Endianness \<Rightarrow> VarLenField \<Rightarrow> sink \<Rightarrow> nat \<Rightarrow> retval \<times> sink" where
  "eid_serialize e entityId snk maxSize =
     (if maxSize < eid_getSerializedSize entityId then (BUFFER_TOO_SHORT, snk)
      else
        vlf_serialize e entityId
          (fst snk @ [tlv_code ENTITY_ID, of_nat (vlf_getSerializedSize entityId)], snd snk + 2) maxSize)"

definition eid_deSerialize :: "Endianness \<Rightarrow> VarLenField \<Rightarrow> source \<Rightarrow> retval \<times> VarLenField \<times> source" where
  "eid_deSerialize e entityId src =
     (if snd src < 3 then (SER_STREAM_TOO_SHORT, entityId, src)
      else if hd (fst src) \<noteq> tlv_code ENTITY_ID then (INVALID_TLV_TYPE, entityId, src)
      else
        (let src = (drop 1 (fst src), snd src - 1);
             width = unat (hd (fst src)) in
         if snd src < 1 + width then (SER_STREAM_TOO_SHORT, entityId, src)
         else vlf_deSerialize e width entityId (drop 1 (fst src), snd src - 1)))"

text \<open>From a parsed field: the two bytes skipped are bytes of the value, not of its header.\<close>

definition eid_deSerialize_tlv :: "Endianness \<Rightarrow> VarLenField \<Rightarrow> Tlv \<Rightarrow> retval \<times> VarLenField" where
  "eid_deSerialize_tlv e entityId tlv =
     (let ptr = drop 2 (the (ba_constBuffer (tlv_value tlv)));
          remSz = tlv_getSerializedSize tlv - 2;
          width = unat (of_nat remSz :: u8) in
      case vlf_deSerialize e width entityId (ptr, remSz) of (r, entityId, src) \<Rightarrow> (r, entityId))"

section \<open>Filestore requests and responses\<close>

text \<open>The action codes that need a second file name.\<close>

abbreviation (input) RENAME_FILE :: u8 where "RENAME_FILE \<equiv> 2"
abbreviation (input) APPEND_FILE :: u8 where "APPEND_FILE \<equiv> 3"
abbreviation (input) REPLACE_FILE :: u8 where "REPLACE_FILE \<equiv> 4"
abbreviation (input) INVALID_ACTION :: u8 where "INVALID_ACTION \<equiv> 15"

definition requiresSecondFileName :: "u8 \<Rightarrow> bool" where
  "requiresSecondFileName actionCode \<longleftrightarrow>
     actionCode = RENAME_FILE \<or> actionCode = APPEND_FILE \<or> actionCode = REPLACE_FILE"

definition commonSerialize ::
  "TlvType \<Rightarrow> u8 \<Rightarrow> u8 \<Rightarrow> u8 option \<Rightarrow> sink \<Rightarrow> nat \<Rightarrow> retval \<times> sink" where
  "commonSerialize ty lengthField actionCode status snk maxSize =
     (if maxSize < 3 then (BUFFER_TOO_SHORT, snk)
      else
        (let b = push_bit 4 actionCode;
             b = (case status of Some st \<Rightarrow> b OR st | None \<Rightarrow> b) in
         (OK, fst snk @ [tlv_code ty, lengthField, b], snd snk + 3)))"

definition commonDeserialize :: "TlvType \<Rightarrow> source \<Rightarrow> retval \<times> source" where
  "commonDeserialize ty src =
     (if snd src < 3 then (SER_STREAM_TOO_SHORT, src)
      else if hd (fst src) \<noteq> tlv_code ty then (INVALID_TLV_TYPE, src)
      else
        (let src = (drop 1 (fst src), snd src - 1);
             remainingLength = unat (hd (fst src));
             src = (drop 1 (fst src), snd src - 1) in
         if remainingLength = 0 then (SER_STREAM_TOO_SHORT, src) else (OK, src)))"

record FilestoreRequest =
  fsq_actionCode :: u8
  fsq_firstFileName :: Lv
  fsq_secondFileName :: "Lv option"

definition fsq_new :: "u8 \<Rightarrow> Lv \<Rightarrow> FilestoreRequest" where
  "fsq_new actionCode firstFileName =
     \<lparr>fsq_actionCode = actionCode, fsq_firstFileName = firstFileName, fsq_secondFileName = None\<rparr>"

definition fsq_setSecondFileName :: "Lv option \<Rightarrow> FilestoreRequest \<Rightarrow> FilestoreRequest" where
  "fsq_setSecondFileName l q = q\<lparr>fsq_secondFileName := l\<rparr>"

definition fsq_getLengthField :: "FilestoreRequest \<Rightarrow> u8" where
  "fsq_getLengthField q =
     of_nat (1 + lv_getSerializedSize (fsq_firstFileName q) +
       (case fsq_secondFileName q of
          Some l \<Rightarrow> (if requiresSecondFileName (fsq_actionCode q) then lv_getSerializedSize l else 0)
        | None \<Rightarrow> 0))"

definition fsq_getSerializedSize :: "FilestoreRequest \<Rightarrow> nat" where
  "fsq_getSerializedSize q = unat (fsq_getLengthField q) + 2"

text \<open>The result of writing the second file name is not looked at.\<close>

definition fsq_serialize :: "Endianness \<Rightarrow> FilestoreRequest \<Rightarrow> sink \<Rightarrow> nat \<Rightarrow> retval \<times> sink" where
  "fsq_serialize e q snk maxSize =
     (case commonSerialize FILESTORE_REQUEST (fsq_getLengthField q) (fsq_actionCode q) None snk maxSize of
        (result, snk) \<Rightarrow>
          if result \<noteq> OK then (result, snk)
          else
            (case lv_serialize e (fsq_firstFileName q) snk maxSize of (result, snk) \<Rightarrow>
               if result \<noteq> OK then (result, snk)
               else if requiresSecondFileName (fsq_actionCode q) then
                 (case fsq_secondFileName q of
                    None \<Rightarrow> (FILESTORE_REQUIRES_SECOND_FILE, snk)
                  | Some l \<Rightarrow> (OK, snd (lv_serialize e l snk maxSize)))
               else (OK, snk)))"

definition fsq_deSerializeFromValue :: "FilestoreRequest \<Rightarrow> source \<Rightarrow> retval \<times> FilestoreRequest \<times> source" where
  "fsq_deSerializeFromValue q src =
     (let q = q\<lparr>fsq_actionCode := drop_bit 4 (hd (fst src)) AND 0x0F\<rparr>;
          src = (drop 1 (fst src), snd src - 1) in
      case lv_deSerialize (fsq_firstFileName q) src of (result, first, src) \<Rightarrow>
        let q = q\<lparr>fsq_firstFileName := first\<rparr> in
        if result \<noteq> OK then (result, q, src)
        else if requiresSecondFileName (fsq_actionCode q) then
          (case fsq_secondFileName q of
             None \<Rightarrow> (FAILED, q, src)
           | Some l \<Rightarrow>
               (case lv_deSerialize l src of (result, l, src) \<Rightarrow>
                  (result, q\<lparr>fsq_secondFileName := Some l\<rparr>, src)))
        else (result, q, src))"

definition fsq_deSerialize :: "FilestoreRequest \<Rightarrow> source \<Rightarrow> retval \<times> FilestoreRequest \<times> source" where
  "fsq_deSerialize q src =
     (case commonDeserialize FILESTORE_REQUEST src of (result, src) \<Rightarrow>
        if result \<noteq> OK then (result, q, src) else fsq_deSerializeFromValue q src)"

definition fsq_deSerialize_tlv :: "FilestoreRequest \<Rightarrow> Tlv \<Rightarrow> retval \<times> FilestoreRequest" where
  "fsq_deSerialize_tlv q tlv =
     (case fsq_deSerializeFromValue q (the (ba_constBuffer (tlv_value tlv)), tlv_getSerializedSize tlv) of
        (r, q, src) \<Rightarrow> (r, q))"

text \<open>
  \<open>convertToTlv\<close> of the base class, for the serialization \<open>ser\<close> and the type \<open>ty\<close> of the derived
  class: the value of the field is the serialized bytes after the two of its header.
\<close>

definition convertToTlv :: "(sink \<Rightarrow> nat \<Rightarrow> retval \<times> sink) \<Rightarrow> TlvType \<Rightarrow> Tlv \<Rightarrow> nat \<Rightarrow> retval \<times> Tlv" where
  "convertToTlv ser ty tlv maxSize =
     (case ser ([], 0) maxSize of (result, buf, serSize) \<Rightarrow>
        if result \<noteq> OK then (result, tlv)
        else (result, tlv_setType ty (tlv_setValue (Some (drop 2 buf)) (serSize - 2) tlv)))"

record FilestoreResponse =
  fsp_actionCode :: u8
  fsp_firstFileName :: Lv
  fsp_statusCode :: u8
  fsp_secondFileName :: "Lv option"
  fsp_filestoreMsg :: "Lv option"

definition fsp_new :: "u8 \<Rightarrow> u8 \<Rightarrow> Lv \<Rightarrow> Lv option \<Rightarrow> FilestoreResponse" where
  "fsp_new actionCode statusCode firstFileName fsMsg =
     \<lparr>fsp_actionCode = actionCode, fsp_firstFileName = firstFileName, fsp_statusCode = statusCode,
      fsp_secondFileName = None, fsp_filestoreMsg = fsMsg\<rparr>"

definition fsp_setSecondFileName :: "Lv option \<Rightarrow> FilestoreResponse \<Rightarrow> FilestoreResponse" where
  "fsp_setSecondFileName l p = p\<lparr>fsp_secondFileName := l\<rparr>"

definition fsp_setFilestoreMessage :: "Lv option \<Rightarrow> FilestoreResponse \<Rightarrow> FilestoreResponse" where
  "fsp_setFilestoreMessage l p = p\<lparr>fsp_filestoreMsg := l\<rparr>"

definition fsp_getLengthField :: "FilestoreResponse \<Rightarrow> u8" where
  "fsp_getLengthField p =
     of_nat (1 + lv_getSerializedSize (fsp_firstFileName p) +
       ((case fsp_secondFileName p of Some l \<Rightarrow> lv_getSerializedSize l | None \<Rightarrow> 0) +
        (case fsp_filestoreMsg p of Some l \<Rightarrow> lv_getSerializedSize l | None \<Rightarrow> 1)))"

definition fsp_getSerializedSize :: "FilestoreResponse \<Rightarrow> nat" where
  "fsp_getSerializedSize p = unat (fsp_getLengthField p) + 2"

text \<open>The second file name is required but not written.\<close>

definition fsp_serialize :: "Endianness \<Rightarrow> FilestoreResponse \<Rightarrow> sink \<Rightarrow> nat \<Rightarrow> retval \<times> sink" where
  "fsp_serialize e p snk maxSize =
     (case commonSerialize FILESTORE_RESPONSE (fsp_getLengthField p) (fsp_actionCode p)
             (Some (fsp_statusCode p)) snk maxSize of (result, snk) \<Rightarrow>
        if result \<noteq> OK then (result, snk)
        else
          (case lv_serialize e (fsp_firstFileName p) snk maxSize of (result, snk) \<Rightarrow>
             if result \<noteq> OK then (result, snk)
             else if requiresSecondFileName (fsp_actionCode p) \<and> fsp_secondFileName p = None then
               (FILESTORE_REQUIRES_SECOND_FILE, snk)
             else
               (case fsp_filestoreMsg p of
                  Some l \<Rightarrow> lv_serialize e l snk maxSize
                | None \<Rightarrow>
                    if snd snk = maxSize then (BUFFER_TOO_SHORT, snk)
                    else (result, fst snk @ [0], snd snk + 1))))"

text \<open>The end of \<open>deSerializeFromValue\<close>, from the filestore message on.\<close>

definition fsp_parse_msg :: "FilestoreResponse \<Rightarrow> source \<Rightarrow> retval \<times> FilestoreResponse \<times> source" where
  "fsp_parse_msg p src =
     (if snd src = 0 \<or> (snd src > 1 \<and> fsp_filestoreMsg p = None) then
        (FILESTORE_RESPONSE_CANT_PARSE_FS_MESSAGE, p, src)
      else
        (case fsp_filestoreMsg p of
           None \<Rightarrow> (OK, p, drop 1 (fst src), snd src - 1)
         | Some l \<Rightarrow>
             (case lv_deSerialize l src of (result, l, src) \<Rightarrow>
                (result, p\<lparr>fsp_filestoreMsg := Some l\<rparr>, src))))"

definition fsp_deSerializeFromValue :: "FilestoreResponse \<Rightarrow> source \<Rightarrow> retval \<times> FilestoreResponse \<times> source" where
  "fsp_deSerializeFromValue p src =
     (let p = p\<lparr>fsp_actionCode := drop_bit 4 (hd (fst src)) AND 0x0F,
                fsp_statusCode := hd (fst src) AND 0x0F\<rparr>;
          src = (drop 1 (fst src), snd src - 1) in
      case lv_deSerialize (fsp_firstFileName p) src of (result, first, src) \<Rightarrow>
        let p = p\<lparr>fsp_firstFileName := first\<rparr> in
        if result \<noteq> OK then (result, p, src)
        else if requiresSecondFileName (fsp_actionCode p) then
          (case fsp_secondFileName p of
             None \<Rightarrow> (FILESTORE_REQUIRES_SECOND_FILE, p, src)
           | Some l \<Rightarrow>
               (case lv_deSerialize l src of (result, l, src) \<Rightarrow>
                  let p = p\<lparr>fsp_secondFileName := Some l\<rparr> in
                  if result \<noteq> OK then (result, p, src) else fsp_parse_msg p src))
        else fsp_parse_msg p src)"

definition fsp_deSerialize :: "FilestoreResponse \<Rightarrow> source \<Rightarrow> retval \<times> FilestoreResponse \<times> source" where
  "fsp_deSerialize p src =
     (case commonDeserialize FILESTORE_RESPONSE src of (result, src) \<Rightarrow>
        if result \<noteq> OK then (result, p, src) else fsp_deSerializeFromValue p src)"

definition fsp_deSerialize_tlv :: "FilestoreResponse \<Rightarrow> Tlv \<Rightarrow> retval \<times> FilestoreResponse" where
  "fsp_deSerialize_tlv p tlv =
     (case fsp_deSerializeFromValue p (the (ba_constBuffer (tlv_value tlv)), tlv_getSerializedSize tlv) of
        (r, p, src) \<Rightarrow> (r, p))"

section \<open>Fault handler overrides\<close>

record FaultHandlerOverride =
  fho_conditionCode :: u8
  fho_handlerCode :: u8

definition fho_default :: FaultHandlerOverride where
  "fho_default = \<lparr>fho_conditionCode = NO_CONDITION_FIELD, fho_handlerCode = 0\<rparr>"

definition fho_getLengthField :: "FaultHandlerOverride \<Rightarrow> u8" where
  "fho_getLengthField f = 1"

definition fho_getSerializedSize :: "FaultHandlerOverride \<Rightarrow> nat" where
  "fho_getSerializedSize f = unat (fho_getLengthField f) + 2"

definition fho_serialize :: "FaultHandlerOverride \<Rightarrow> sink \<Rightarrow> nat \<Rightarrow> retval \<times> sink" where
  "fho_serialize f snk maxSize =
     (if maxSize < 3 \<or> snd snk + 3 > maxSize then (BUFFER_TOO_SHORT, snk)
      else
        (OK, fst snk @ [tlv_code FAULT_HANDLER, fho_getLengthField f,
                        push_bit 4 (fho_conditionCode f) OR fho_handlerCode f],
         snd snk + 3))"

text \<open>The remaining size goes down by one and then up by two.\<close>

definition fho_deSerialize :: "FaultHandlerOverride \<Rightarrow> source \<Rightarrow> retval \<times> FaultHandlerOverride \<times> source" where
  "fho_deSerialize f src =
     (if snd src < 3 then (SER_STREAM_TOO_SHORT, f, src)
      else if hd (fst src) \<noteq> tlv_code FAULT_HANDLER then (INVALID_TLV_TYPE, f, src)
      else
        (let src = (drop 1 (fst src), snd src - 1) in
         if hd (fst src) \<noteq> fho_getLengthField f then (FAILED, f, src)
         else
           (let src = (drop 1 (fst src), snd src + 1);
                f = f\<lparr>fho_conditionCode := drop_bit 4 (hd (fst src)) AND 0x0F,
                      fho_handlerCode := hd (fst src) AND 0x0F\<rparr> in
            (OK, f, drop 1 (fst src), snd src + 1))))"

section \<open>Facts on the fields\<close>

subsection \<open>Variable width\<close>

definition width_ok :: "nat \<Rightarrow> bool" where
  "width_ok w \<longleftrightarrow> w = 1 \<or> w = 2 \<or> w = 4"

text \<open>The bytes a field stands for on the wire.\<close>

definition enc_vlf :: "Endianness \<Rightarrow> VarLenField \<Rightarrow> bytes" where
  "enc_vlf e f =
     (if vlf_width f = 1 then [ucast (vlf_value f)]
      else if vlf_width f = 2 then enc_word e (ucast (vlf_value f) :: u16)
      else enc_word e (ucast (vlf_value f) :: u32))"

lemma length_enc_vlf: "width_ok (vlf_width f) \<Longrightarrow> length (enc_vlf e f) = vlf_width f"
  by (auto simp: width_ok_def enc_vlf_def sizeof_def)

lemma vlf_serialize_fits:
  assumes "width_ok (vlf_width f)" and "n + vlf_width f \<le> m"
  shows "vlf_serialize e f (out, n) m = (OK, out @ enc_vlf e f, n + vlf_width f)"
  using assms by (auto simp: vlf_serialize_def width_ok_def enc_vlf_def ser_word_def sizeof_def Let_def)

lemma bit_union_write:
  "bit (vlf_value (union_write n v f)) k \<longleftrightarrow>
     (if k < 8 * n then bit v k else bit (vlf_value f) k)"
  by (auto simp: union_write_def bit_simps dest: bit_imp_le_length)

lemma vlf_width_union_write [simp]: "vlf_width (union_write n v f) = vlf_width f"
  by (simp add: union_write_def)

lemma ucast_union_write [simp]:
  "(ucast (vlf_value (union_write 1 v f)) :: u8) = ucast v"
  "(ucast (vlf_value (union_write 2 v f)) :: u16) = ucast v"
  "(ucast (vlf_value (union_write 4 v f)) :: u32) = ucast v"
  by (rule bit_word_eqI; simp add: bit_simps bit_union_write)+

lemma vlf_setValue_fits:
  assumes "width_ok w" and "unat v < 256 ^ w"
  shows "vlf_setValue w v f = (OK, (union_write w v f)\<lparr>vlf_width := w\<rparr>)"
  using assms by (auto simp: width_ok_def vlf_setValue_def word_less_nat_alt)

lemma vlf_getValue_write:
  assumes "width_ok w" and "unat v < 256 ^ w"
  shows "vlf_getValue ((union_write w v f)\<lparr>vlf_width := w\<rparr>) = v"
proof -
  have "unat v < 2 ^ 8" if "w = 1" using assms that by simp
  moreover have "unat v < 2 ^ 16" if "w = 2" using assms that by simp
  moreover have "unat v < 2 ^ 32" if "w = 4" using assms that by simp
  ultimately show ?thesis
    using assms(1) ucast_ucast_small [of v, where 'b = 8] ucast_ucast_small [of v, where 'b = 16]
      ucast_ucast_small [of v, where 'b = 32]
      ucast_union_write [of v f]
    by (auto simp: width_ok_def vlf_getValue_def simp del: ucast_union_write)
qed

lemma vlf_new_fits:
  assumes "width_ok w" and "unat v < 256 ^ w"
  shows "vlf_width (vlf_new w v) = w" and "vlf_getValue (vlf_new w v) = v"
  using vlf_setValue_fits [OF assms] vlf_getValue_write [OF assms] by (simp_all add: vlf_new_def)

subsection \<open>File sizes\<close>

definition enc_fs :: "Endianness \<Rightarrow> FileSize \<Rightarrow> bytes" where
  "enc_fs e f =
     (if fs_largeFile f then enc_word e (fs_fileSize f) else enc_word e (ucast (fs_fileSize f) :: u32))"

definition fs_small :: "FileSize \<Rightarrow> bool" where
  "fs_small f \<longleftrightarrow> \<not> fs_largeFile f \<and> unat (fs_fileSize f) < 2 ^ 32"

lemma length_enc_fs: "length (enc_fs e f) = fs_getSerializedSize f"
  by (simp add: enc_fs_def fs_getSerializedSize_def sizeof_def)

text \<open>Sizes of normal files keep the contract of \<open>SerializeIF\<close>, from any object they are read into.\<close>

lemma fs_deSerialize_enc:
  assumes "fs_small f" and "\<not> fs_largeFile g" and "4 \<le> n"
  shows "fs_deSerialize e g (enc_fs e f @ rest, n) = (OK, f, rest, n - 4)"
proof -
  have l: "length (enc_word e (ucast (fs_fileSize f) :: u32)) = 4" by (simp add: sizeof_def)
  have "g\<lparr>fs_fileSize := ucast (ucast (fs_fileSize f) :: u32)\<rparr> = f"
    using assms ucast_ucast_small [of "fs_fileSize f", where 'b = 32]
    by (cases f; cases g) (simp add: fs_small_def)
  with assms l show ?thesis
    by (simp add: fs_deSerialize_def enc_fs_def fs_small_def deser_word_enc)
qed

interpretation file_size: codec "enc_fs e" "fs_serialize e"
  "\<lambda>src. case fs_deSerialize e fs_default src of (r, f, src) \<Rightarrow> (r, Some f, src)" fs_small for e
proof
  fix f n m out
  show "n + length (enc_fs e f) \<le> m \<Longrightarrow>
      fs_serialize e f (out, n) m = (OK, out @ enc_fs e f, n + length (enc_fs e f))"
    by (cases "fs_largeFile f") (auto simp: fs_serialize_def enc_fs_def ser_word_def sizeof_def Let_def)
  show "m < n + length (enc_fs e f) \<Longrightarrow> fst (fs_serialize e f (out, n) m) \<noteq> OK"
    by (cases "fs_largeFile f") (auto simp: fs_serialize_def enc_fs_def ser_word_def sizeof_def Let_def)
  show "n \<le> m \<Longrightarrow> snd (snd (fs_serialize e f (out, n) m)) \<le> m"
    by (auto simp: fs_serialize_def ser_word_def sizeof_def Let_def)
next
  fix f n rest
  assume "fs_small f" "length (enc_fs e f) \<le> n"
  moreover from this have "length (enc_fs e f) = 4"
    by (simp add: length_enc_fs fs_getSerializedSize_def fs_small_def)
  ultimately show "(case fs_deSerialize e fs_default (enc_fs e f @ rest, n) of
      (r, f, src) \<Rightarrow> (r, Some f, src)) = (OK, Some f, rest, n - length (enc_fs e f))"
    by (simp add: fs_deSerialize_enc fs_default_def)
qed

subsection \<open>Length-value fields\<close>

text \<open>The value of a field, and what makes a field ready to be written.\<close>

definition ba_content :: "u8 buffer_adapter \<Rightarrow> bytes" where
  "ba_content b = take (unat (ba_bufferLength b)) (the (ba_constBuffer b))"

definition ba_ready :: "u8 buffer_adapter \<Rightarrow> bool" where
  "ba_ready b \<longleftrightarrow> ba_serializeLength b \<and> ba_constBuffer b \<noteq> None \<and> 0 < unat (ba_bufferLength b) \<and>
     unat (ba_bufferLength b) \<le> length (the (ba_constBuffer b))"

definition lv_content :: "Lv \<Rightarrow> bytes" where
  "lv_content l = (if lv_zeroLen l then [] else ba_content (lv_value l))"

definition lv_ready :: "Lv \<Rightarrow> bool" where
  "lv_ready l \<longleftrightarrow> lv_zeroLen l \<or> ba_ready (lv_value l)"

definition enc_lv :: "bytes \<Rightarrow> bytes" where
  "enc_lv data = of_nat (length data) # data"

lemma length_enc_lv [simp]: "length (enc_lv data) = Suc (length data)"
  by (simp add: enc_lv_def)

lemma enc_lv_Nil [simp]: "enc_lv [] = [0]"
  by (simp add: enc_lv_def)

lemma length_ba_content: "ba_ready b \<Longrightarrow> length (ba_content b) = unat (ba_bufferLength b)"
  by (simp add: ba_ready_def ba_content_def)

lemma length_lv_content: "lv_ready l \<Longrightarrow> length (lv_content l) < 256"
  using length_ba_content [of "lv_value l"] unsigned_less [of "ba_bufferLength (lv_value l)"]
  by (auto simp: lv_ready_def lv_content_def)

lemma ba_serialize_ready:
  assumes "ba_ready b" and "n + Suc (length (ba_content b)) \<le> m"
  shows "ba_serialize e b (out, n) m = (OK, out @ enc_lv (ba_content b), n + Suc (length (ba_content b)))"
  using assms length_ba_content [OF assms(1)]
  by (auto simp: ba_serialize_def ba_ready_def ser_word_def sizeof_def Let_def enc_lv_def ba_content_def)

lemma lv_serialize_ready:
  assumes "lv_ready l" and "n + Suc (length (lv_content l)) \<le> m"
  shows "lv_serialize e l (out, n) m = (OK, out @ enc_lv (lv_content l), n + Suc (length (lv_content l)))"
  using assms by (auto simp: lv_serialize_def lv_ready_def lv_content_def ba_serialize_ready)

lemma lv_size_ready: "lv_ready l \<Longrightarrow> lv_getSerializedSize l = Suc (length (lv_content l))"
  by (auto simp: lv_getSerializedSize_def lv_ready_def lv_content_def ba_ready_def length_ba_content
      ba_getSerializedSize_def ba_content_def sizeof_def)

lemma lv_new_ready:
  assumes "length d < 256"
  shows "lv_ready (lv_new (Some d) (length d))" and "lv_content (lv_new (Some d) (length d)) = d"
  using assms
  by (auto simp: lv_new_def lv_ready_def lv_content_def ba_ready_def ba_content_def ba_from_const_def
      unsigned_of_nat take_bit_nat_eq_self)

text \<open>Reading a field gives its value and consumes its bytes.\<close>

lemma unat_of_nat_u8: "k < 256 \<Longrightarrow> unat (of_nat k :: u8) = k"
  by (simp add: unsigned_of_nat take_bit_nat_eq_self)

lemma lv_deSerialize_enc:
  assumes "length d < 256" and "Suc (length d) \<le> n" and "ba_serializeLength (lv_value l)"
  shows "\<exists>l'. lv_deSerialize l (enc_lv d @ rest, n) = (OK, l', rest, n - Suc (length d)) \<and>
    lv_ready l' \<and> lv_content l' = d \<and> ba_serializeLength (lv_value l')"
  using assms
  by (auto simp: lv_deSerialize_def enc_lv_def Let_def unat_of_nat_u8 lv_ready_def lv_content_def
      ba_ready_def ba_content_def ba_setConstBuffer_def simp del: of_nat_Suc)

subsection \<open>Type-length-value fields\<close>

definition tlv_content :: "Tlv \<Rightarrow> bytes" where
  "tlv_content t = (if tlv_zeroLen t then [] else ba_content (tlv_value t))"

definition tlv_ready :: "Tlv \<Rightarrow> bool" where
  "tlv_ready t \<longleftrightarrow> tlv_type t \<noteq> INVALID_TLV \<and> (tlv_zeroLen t \<or> ba_ready (tlv_value t))"

definition enc_tlv :: "TlvType \<Rightarrow> bytes \<Rightarrow> bytes" where
  "enc_tlv ty data = tlv_code ty # enc_lv data"

lemma length_enc_tlv [simp]: "length (enc_tlv ty data) = Suc (Suc (length data))"
  by (simp add: enc_tlv_def)

lemma length_tlv_content: "tlv_ready t \<Longrightarrow> length (tlv_content t) < 256"
  using length_ba_content [of "tlv_value t"] unsigned_less [of "ba_bufferLength (tlv_value t)"]
  by (auto simp: tlv_ready_def tlv_content_def)

lemma tlv_serialize_ready:
  assumes "tlv_ready t" and "n + length (enc_tlv (tlv_type t) (tlv_content t)) \<le> m"
  shows "tlv_serialize e t (out, n) m =
    (OK, out @ enc_tlv (tlv_type t) (tlv_content t), n + length (enc_tlv (tlv_type t) (tlv_content t)))"
proof (cases "tlv_zeroLen t")
  case True
  with assms show ?thesis
    by (simp add: tlv_serialize_def tlv_ready_def tlv_content_def enc_tlv_def Let_def)
next
  case False
  with assms have b: "ba_ready (tlv_value t)" by (simp add: tlv_ready_def)
  then have "ba_serialize e (tlv_value t) (out @ [tlv_code (tlv_type t)], Suc n) m =
      (OK, out @ enc_tlv (tlv_type t) (tlv_content t), n + length (enc_tlv (tlv_type t) (tlv_content t)))"
    using assms False ba_serialize_ready [OF b, of "Suc n" m e "out @ [tlv_code (tlv_type t)]"]
    by (simp add: tlv_content_def enc_tlv_def)
  with b assms False show ?thesis
    by (simp add: tlv_serialize_def tlv_ready_def ba_ready_def Let_def)
qed

lemma tlv_size_ready:
  "tlv_ready t \<Longrightarrow> tlv_getSerializedSize t = length (enc_tlv (tlv_type t) (tlv_content t))"
  by (auto simp: tlv_getSerializedSize_def tlv_ready_def tlv_content_def ba_ready_def ba_content_def
      ba_getSerializedSize_def sizeof_def)

lemma tlv_new_ready:
  assumes "length d < 256" and "ty \<noteq> INVALID_TLV"
  shows "tlv_ready (tlv_new ty (Some d) (length d))" and "tlv_content (tlv_new ty (Some d) (length d)) = d"
    and "tlv_type (tlv_new ty (Some d) (length d)) = ty"
  using assms
  by (auto simp: tlv_new_def tlv_ready_def tlv_content_def ba_ready_def ba_content_def ba_from_const_def
      unat_of_nat_u8)

lemma tlv_cast_code [simp]: "tlv_cast (tlv_code ty) = ty"
  by (cases ty) (simp_all add: tlv_cast_def)

lemma checkType_iff: "checkType b \<longleftrightarrow> (\<exists>ty. ty \<noteq> INVALID_TLV \<and> tlv_code ty = b)"
proof
  assume b: "checkType b"
  then have "unat b \<le> 6" by (simp add: checkType_def word_le_nat_alt)
  then have "unat b \<in> {0, 1, 2, 3, 4, 5, 6}" by auto
  then have "of_nat (unat b) \<in> (of_nat ` {0, 1, 2, 3, 4, 5, 6} :: u8 set)" by (rule imageI)
  then have "b = 0 \<or> b = 1 \<or> b = 2 \<or> b = 3 \<or> b = 4 \<or> b = 5 \<or> b = 6" by simp
  with b show "\<exists>ty. ty \<noteq> INVALID_TLV \<and> tlv_code ty = b"
    unfolding checkType_def by (metis TlvType.distinct tlv_code.simps)
next
  assume "\<exists>ty. ty \<noteq> INVALID_TLV \<and> tlv_code ty = b"
  then obtain ty where "ty \<noteq> INVALID_TLV" "tlv_code ty = b" by blast
  then show "checkType b" by (cases ty) (auto simp: checkType_def)
qed

lemma tlv_deSerialize_enc:
  assumes "length d < 256" and "ty \<noteq> INVALID_TLV" and "length (enc_tlv ty d) \<le> n"
    and "ba_serializeLength (tlv_value t)"
  shows "\<exists>t'. tlv_deSerialize t (enc_tlv ty d @ rest, n) = (OK, t', rest, n - length (enc_tlv ty d)) \<and>
    tlv_ready t' \<and> tlv_type t' = ty \<and> tlv_content t' = d \<and> ba_serializeLength (tlv_value t')"
proof -
  have "checkType (tlv_code ty)" using assms(2) by (auto simp: checkType_iff)
  then show ?thesis
    using assms
    by (cases d)
      (auto simp: tlv_deSerialize_def enc_tlv_def enc_lv_def Let_def unat_of_nat_u8 tlv_ready_def
        tlv_content_def ba_ready_def ba_content_def ba_setConstBuffer_def simp del: of_nat_Suc)
qed

text \<open>The fields the readers take from a stream always shorten it.\<close>

lemma lv_deSerialize_shortens:
  "lv_deSerialize l src = (OK, l', src') \<Longrightarrow> snd src' < snd src"
  by (auto simp: lv_deSerialize_def Let_def split: if_splits)

lemma tlv_deSerialize_shortens:
  "tlv_deSerialize t src = (OK, t', src') \<Longrightarrow> snd src' < snd src"
  by (auto simp: tlv_deSerialize_def Let_def split: if_splits)

lemma fsp_deSerialize_shortens:
  assumes "fsp_deSerialize p src = (OK, p', src')"
  shows "snd src' < snd src"
proof -
  obtain r1 s1 where c: "commonDeserialize FILESTORE_RESPONSE src = (r1, s1)"
    by (cases "commonDeserialize FILESTORE_RESPONSE src")
  with assms have r1: "r1 = OK" by (auto simp: fsp_deSerialize_def split: if_splits)
  with c have s1: "snd s1 + 2 = snd src \<and> 0 < snd s1"
    by (auto simp: commonDeserialize_def Let_def split: if_splits)
  have msg: "snd s' < snd s" if "fsp_parse_msg q s = (OK, q', s')" for q q' s s'
    using that lv_deSerialize_shortens
    by (auto simp: fsp_parse_msg_def split: if_splits option.splits prod.splits)
  show ?thesis
    using assms c r1 s1
    by (auto simp: fsp_deSerialize_def fsp_deSerializeFromValue_def Let_def
        dest!: msg lv_deSerialize_shortens split: prod.splits if_splits option.splits)
qed

lemma eid_deSerialize_shortens:
  "eid_deSerialize e f src = (OK, f', src') \<Longrightarrow> snd src' < snd src"
  by (auto simp: eid_deSerialize_def vlf_deSerialize_def deser_word_def sizeof_def Let_def
      split: if_splits prod.splits)

end
