(* ===== verification/Cfdp_Header.thy ===== *)
theory Cfdp_Header
  imports Cfdp_Fields
begin

text \<open>
  The headers of CFDP packets (\<open>src/src/fsfw/cfdp/pdu\<close>): \<open>PduConfig\<close>, writing (\<open>HeaderCreator.cpp\<close>,
  \<open>FileDirectiveCreator.cpp\<close>) and reading (\<open>HeaderReader.cpp\<close>, \<open>FileDirectiveReader.cpp\<close>).
\<close>

section \<open>Configuration\<close>

datatype PduType = FILE_DIRECTIVE | FILE_DATA
datatype TransmissionMode = ACKNOWLEDGED | UNACKNOWLEDGED
datatype Direction = TOWARDS_RECEIVER | TOWARDS_SENDER

record PduConfig =
  pc_mode :: TransmissionMode
  pc_seqNum :: VarLenField
  pc_sourceId :: VarLenField
  pc_destId :: VarLenField
  pc_crcFlag :: bool
  pc_largeFile :: bool
  pc_direction :: Direction

definition pc_default :: PduConfig where
  "pc_default = \<lparr>pc_mode = ACKNOWLEDGED, pc_seqNum = vlf_default, pc_sourceId = vlf_default,
     pc_destId = vlf_default, pc_crcFlag = False, pc_largeFile = False, pc_direction = TOWARDS_RECEIVER\<rparr>"

definition pc_new ::
  "VarLenField \<Rightarrow> VarLenField \<Rightarrow> TransmissionMode \<Rightarrow> VarLenField \<Rightarrow> bool \<Rightarrow> bool \<Rightarrow> Direction \<Rightarrow> PduConfig" where
  "pc_new sourceId destId mode seqNum crcFlag largeFile direction =
     \<lparr>pc_mode = mode, pc_seqNum = seqNum, pc_sourceId = sourceId, pc_destId = destId,
      pc_crcFlag = crcFlag, pc_largeFile = largeFile, pc_direction = direction\<rparr>"

section \<open>Writing a header\<close>

record HeaderCreator =
  hc_pduType :: PduType
  hc_segmentMetadataFlag :: bool
  hc_segmentationCtrl :: bool
  hc_pduDataFieldLen :: nat
  hc_pduConf :: PduConfig

definition hc_new :: "PduConfig \<Rightarrow> PduType \<Rightarrow> nat \<Rightarrow> bool \<Rightarrow> bool \<Rightarrow> HeaderCreator" where
  "hc_new conf ty len smf segCtrl =
     \<lparr>hc_pduType = ty, hc_segmentMetadataFlag = smf, hc_segmentationCtrl = segCtrl,
      hc_pduDataFieldLen = len, hc_pduConf = conf\<rparr>"

definition hc_getSerializedSize :: "HeaderCreator \<Rightarrow> nat" where
  "hc_getSerializedSize h =
     vlf_width (pc_seqNum (hc_pduConf h)) + vlf_width (pc_sourceId (hc_pduConf h)) * 2 + 4"

definition first_byte :: "HeaderCreator \<Rightarrow> u8" where
  "first_byte h =
     VERSION_BITS OR push_bit 4 (of_bool (hc_pduType h = FILE_DATA))
     OR push_bit 3 (of_bool (pc_direction (hc_pduConf h) = TOWARDS_SENDER))
     OR push_bit 2 (of_bool (pc_mode (hc_pduConf h) = UNACKNOWLEDGED))
     OR push_bit 1 (of_bool (pc_crcFlag (hc_pduConf h))) OR of_bool (pc_largeFile (hc_pduConf h))"

definition fourth_byte :: "HeaderCreator \<Rightarrow> u8" where
  "fourth_byte h =
     push_bit 7 (of_bool (hc_segmentationCtrl h)) OR push_bit 4 (of_nat (vlf_width (pc_sourceId (hc_pduConf h))))
     OR push_bit 3 (of_bool (hc_segmentMetadataFlag h)) OR of_nat (vlf_width (pc_seqNum (hc_pduConf h)))"

definition hc_serialize :: "Endianness \<Rightarrow> HeaderCreator \<Rightarrow> sink \<Rightarrow> nat \<Rightarrow> retval \<times> sink" where
  "hc_serialize e h snk maxSize =
     (if maxSize < hc_getSerializedSize h then (BUFFER_TOO_SHORT, snk)
      else
        (let conf = hc_pduConf h;
             snk = (fst snk @ [first_byte h, hi8 (of_nat (hc_pduDataFieldLen h)),
                               lo8 (of_nat (hc_pduDataFieldLen h)), fourth_byte h], snd snk + 4) in
         case vlf_serialize e (pc_sourceId conf) snk maxSize of (result, snk) \<Rightarrow>
           if result \<noteq> OK then (result, snk)
           else
             (case vlf_serialize e (pc_seqNum conf) snk maxSize of (result, snk) \<Rightarrow>
                if result \<noteq> OK then (result, snk)
                else vlf_serialize e (pc_destId conf) snk maxSize)))"

definition hc_getWholePduSize :: "HeaderCreator \<Rightarrow> nat" where
  "hc_getWholePduSize h = hc_pduDataFieldLen h + hc_getSerializedSize h"

definition hc_setPduDataFieldLen :: "nat \<Rightarrow> HeaderCreator \<Rightarrow> HeaderCreator" where
  "hc_setPduDataFieldLen len h = h\<lparr>hc_pduDataFieldLen := len\<rparr>"

definition hc_setPduType :: "PduType \<Rightarrow> HeaderCreator \<Rightarrow> HeaderCreator" where
  "hc_setPduType ty h = h\<lparr>hc_pduType := ty\<rparr>"

definition hc_setSegmentMetadataFlag :: "bool \<Rightarrow> HeaderCreator \<Rightarrow> HeaderCreator" where
  "hc_setSegmentMetadataFlag b h = h\<lparr>hc_segmentMetadataFlag := b\<rparr>"

definition hc_setSegmentationControl :: "bool \<Rightarrow> HeaderCreator \<Rightarrow> HeaderCreator" where
  "hc_setSegmentationControl b h = h\<lparr>hc_segmentationCtrl := b\<rparr>"

section \<open>Reading a header\<close>

text \<open>The pointers into the packet are the bytes from there on; null is \<open>None\<close>.\<close>

record pdu_reader =
  rd_fixedHeader :: "bytes option"
  rd_dataFieldStart :: "bytes option"
  rd_rawPtr :: "bytes option"
  rd_maxSize :: nat
  rd_sourceIdRaw :: "bytes option"
  rd_seqNumRaw :: "bytes option"
  rd_destIdRaw :: "bytes option"

definition rd_init :: pdu_reader where
  "rd_init = \<lparr>rd_fixedHeader = None, rd_dataFieldStart = None, rd_rawPtr = None, rd_maxSize = 0,
     rd_sourceIdRaw = None, rd_seqNumRaw = None, rd_destIdRaw = None\<rparr>"

definition rd_setData :: "bytes option \<Rightarrow> nat \<Rightarrow> 'a pdu_reader_scheme \<Rightarrow> retval \<times> 'a pdu_reader_scheme" where
  "rd_setData dataPtr maxSize r =
     (if dataPtr = None then (FAILED, r)
      else if maxSize < 7 then (SER_STREAM_TOO_SHORT, r)
      else (OK, r\<lparr>rd_rawPtr := dataPtr, rd_maxSize := maxSize\<rparr>))"

abbreviation firstByte :: "'a pdu_reader_scheme \<Rightarrow> u8" where
  "firstByte r \<equiv> the (rd_fixedHeader r) ! 0"

abbreviation fourthByte :: "'a pdu_reader_scheme \<Rightarrow> u8" where
  "fourthByte r \<equiv> the (rd_fixedHeader r) ! 3"

definition rd_getLenEntityIds :: "'a pdu_reader_scheme \<Rightarrow> nat" where
  "rd_getLenEntityIds r = unat (drop_bit 4 (fourthByte r) AND 7)"

definition rd_getLenSeqNum :: "'a pdu_reader_scheme \<Rightarrow> nat" where
  "rd_getLenSeqNum r = unat (fourthByte r AND 7)"

definition rd_getHeaderSize :: "'a pdu_reader_scheme \<Rightarrow> nat" where
  "rd_getHeaderSize r =
     (if rd_fixedHeader r \<noteq> None then rd_getLenEntityIds r * 2 + rd_getLenSeqNum r + 4 else 0)"

definition rd_getPduDataFieldLen :: "'a pdu_reader_scheme \<Rightarrow> nat" where
  "rd_getPduDataFieldLen r = unat (be16 (the (rd_fixedHeader r) ! 1) (the (rd_fixedHeader r) ! 2))"

definition rd_getWholePduSize :: "'a pdu_reader_scheme \<Rightarrow> nat" where
  "rd_getWholePduSize r = rd_getPduDataFieldLen r + rd_getHeaderSize r"

definition rd_parseData :: "'a pdu_reader_scheme \<Rightarrow> retval \<times> 'a pdu_reader_scheme" where
  "rd_parseData r =
     (case rd_rawPtr r of
        None \<Rightarrow> (FAILED, r)
      | Some raw \<Rightarrow>
          if rd_maxSize r < 7 then (SER_STREAM_TOO_SHORT, r)
          else
            (let r = r\<lparr>rd_fixedHeader := Some raw, rd_sourceIdRaw := Some (drop 4 raw)\<rparr>;
                 widthEntityIds = rd_getLenEntityIds r;
                 widthSeqNum = rd_getLenSeqNum r;
                 seqNumRaw = drop widthEntityIds (drop 4 raw);
                 destIdRaw = drop widthSeqNum seqNumRaw;
                 r = r\<lparr>rd_seqNumRaw := Some seqNumRaw, rd_destIdRaw := Some destIdRaw\<rparr> in
             (OK, r\<lparr>rd_dataFieldStart :=
                (if rd_getWholePduSize r > rd_getHeaderSize r then Some (drop widthEntityIds destIdRaw)
                 else None)\<rparr>)))"

definition rd_getPduType :: "'a pdu_reader_scheme \<Rightarrow> PduType" where
  "rd_getPduType r = (if drop_bit 4 (firstByte r) AND 1 = 0 then FILE_DIRECTIVE else FILE_DATA)"

definition rd_getDirection :: "'a pdu_reader_scheme \<Rightarrow> Direction" where
  "rd_getDirection r = (if drop_bit 3 (firstByte r) AND 1 = 0 then TOWARDS_RECEIVER else TOWARDS_SENDER)"

definition rd_getTransmissionMode :: "'a pdu_reader_scheme \<Rightarrow> TransmissionMode" where
  "rd_getTransmissionMode r = (if drop_bit 2 (firstByte r) AND 1 = 0 then ACKNOWLEDGED else UNACKNOWLEDGED)"

definition rd_getCrcFlag :: "'a pdu_reader_scheme \<Rightarrow> bool" where
  "rd_getCrcFlag r \<longleftrightarrow> drop_bit 1 (firstByte r) AND 1 \<noteq> 0"

definition rd_getLargeFileFlag :: "'a pdu_reader_scheme \<Rightarrow> bool" where
  "rd_getLargeFileFlag r \<longleftrightarrow> firstByte r AND 1 \<noteq> 0"

definition rd_getSegmentationControl :: "'a pdu_reader_scheme \<Rightarrow> bool" where
  "rd_getSegmentationControl r \<longleftrightarrow> drop_bit 7 (fourthByte r) AND 1 \<noteq> 0"

definition rd_hasSegmentMetadataFlag :: "'a pdu_reader_scheme \<Rightarrow> bool" where
  "rd_hasSegmentMetadataFlag r \<longleftrightarrow> drop_bit 3 (fourthByte r) AND 1 \<noteq> 0"

definition assignVarLenField :: "VarLenField \<Rightarrow> nat \<Rightarrow> bytes \<Rightarrow> VarLenField" where
  "assignVarLenField field width src =
     (if width = 1 then snd (vlf_setValue width (ucast (hd src)) field)
      else if width = 2 then
        (case deser_word_unbounded BIG src of (r, v :: u16 option) \<Rightarrow>
           snd (vlf_setValue width (case v of Some v \<Rightarrow> ucast v | None \<Rightarrow> 0) field))
      else if width = 4 then
        (case deser_word_unbounded BIG src of (r, v :: u32 option) \<Rightarrow>
           snd (vlf_setValue width (case v of Some v \<Rightarrow> ucast v | None \<Rightarrow> 0) field))
      else field)"

definition rd_getSourceId :: "'a pdu_reader_scheme \<Rightarrow> VarLenField \<Rightarrow> VarLenField" where
  "rd_getSourceId r f = assignVarLenField f (rd_getLenEntityIds r) (the (rd_sourceIdRaw r))"

definition rd_getDestId :: "'a pdu_reader_scheme \<Rightarrow> VarLenField \<Rightarrow> VarLenField" where
  "rd_getDestId r f = assignVarLenField f (rd_getLenEntityIds r) (the (rd_destIdRaw r))"

definition rd_getTransactionSeqNum :: "'a pdu_reader_scheme \<Rightarrow> VarLenField \<Rightarrow> VarLenField" where
  "rd_getTransactionSeqNum r f = assignVarLenField f (rd_getLenSeqNum r) (the (rd_seqNumRaw r))"

definition rd_isNull :: "'a pdu_reader_scheme \<Rightarrow> bool" where
  "rd_isNull r \<longleftrightarrow> rd_rawPtr r = None \<or> rd_fixedHeader r = None"

definition fillConfig :: "'a pdu_reader_scheme \<Rightarrow> PduConfig \<Rightarrow> PduConfig" where
  "fillConfig r cfg =
     cfg\<lparr>pc_largeFile := rd_getLargeFileFlag r, pc_crcFlag := rd_getCrcFlag r,
         pc_mode := rd_getTransmissionMode r, pc_direction := rd_getDirection r,
         pc_seqNum := rd_getTransactionSeqNum r (pc_seqNum cfg),
         pc_sourceId := rd_getSourceId r (pc_sourceId cfg),
         pc_destId := rd_getDestId r (pc_destId cfg)\<rparr>"

section \<open>File directives\<close>

datatype FileDirective = INVALID_DIRECTIVE | EOF_DIRECTIVE | FINISH | ACK | METADATA | NAK | PROMPT
  | KEEP_ALIVE

fun directive_code :: "FileDirective \<Rightarrow> u8" where
  "directive_code INVALID_DIRECTIVE = 0x0F"
| "directive_code EOF_DIRECTIVE = 4"
| "directive_code FINISH = 5"
| "directive_code ACK = 6"
| "directive_code METADATA = 7"
| "directive_code NAK = 8"
| "directive_code PROMPT = 9"
| "directive_code KEEP_ALIVE = 0x0C"

text \<open>\<open>static_cast<FileDirective>\<close> of a byte that \<open>checkFileDirective\<close> let pass.\<close>

definition directive_cast :: "u8 \<Rightarrow> FileDirective" where
  "directive_cast b = (if b = 4 then EOF_DIRECTIVE else if b = 5 then FINISH else if b = 6 then ACK
     else if b = 7 then METADATA else if b = 8 then NAK else if b = 9 then PROMPT
     else if b = 0x0C then KEEP_ALIVE else INVALID_DIRECTIVE)"

record FileDirectiveCreator = HeaderCreator +
  fdc_directiveCode :: FileDirective

definition fdc_new :: "PduConfig \<Rightarrow> FileDirective \<Rightarrow> nat \<Rightarrow> FileDirectiveCreator" where
  "fdc_new conf code len =
     HeaderCreator.extend (hc_new conf FILE_DIRECTIVE (len + 1) False False) \<lparr>fdc_directiveCode = code\<rparr>"

definition fdc_header :: "FileDirectiveCreator \<Rightarrow> HeaderCreator" where
  "fdc_header c = HeaderCreator.truncate c"

definition setDirectiveDataFieldLen :: "nat \<Rightarrow> FileDirectiveCreator \<Rightarrow> FileDirectiveCreator" where
  "setDirectiveDataFieldLen len c = c\<lparr>hc_pduDataFieldLen := len + 1\<rparr>"

definition fdc_getSerializedSize :: "FileDirectiveCreator \<Rightarrow> nat" where
  "fdc_getSerializedSize c = hc_getSerializedSize (fdc_header c) + 1"

definition fdc_serialize :: "Endianness \<Rightarrow> FileDirectiveCreator \<Rightarrow> sink \<Rightarrow> nat \<Rightarrow> retval \<times> sink" where
  "fdc_serialize e c snk maxSize =
     (if hc_getWholePduSize (fdc_header c) > maxSize then (BUFFER_TOO_SHORT, snk)
      else
        (case hc_serialize e (fdc_header c) snk maxSize of (result, snk) \<Rightarrow>
           if result \<noteq> OK then (result, snk)
           else if snd snk \<ge> maxSize then (BUFFER_TOO_SHORT, snk)
           else (OK, fst snk @ [directive_code (fdc_directiveCode c)], snd snk + 1)))"

record directive_reader = pdu_reader +
  fdr_fileDirective :: FileDirective
  fdr_endianness :: Endianness

definition fdr_new :: "bytes option \<Rightarrow> nat \<Rightarrow> directive_reader" where
  "fdr_new pduBuf maxSize =
     snd (rd_setData pduBuf maxSize
       (pdu_reader.extend rd_init \<lparr>fdr_fileDirective = INVALID_DIRECTIVE, fdr_endianness = BIG\<rparr>))"

definition checkFileDirective :: "u8 \<Rightarrow> bool" where
  "checkFileDirective rawByte \<longleftrightarrow> \<not> (rawByte < 4 \<or> rawByte > 9 \<and> rawByte \<noteq> 0x0C)"

definition fdr_parseData :: "directive_reader \<Rightarrow> retval \<times> directive_reader" where
  "fdr_parseData r =
     (case rd_parseData r of (result, r) \<Rightarrow>
        if result \<noteq> OK then (result, r)
        else if rd_getPduDataFieldLen r < 1 then (INVALID_PDU_DATAFIELD_LEN, r)
        else if rd_getWholePduSize r > rd_maxSize r then (SER_STREAM_TOO_SHORT, r)
        else
          (let b = the (rd_rawPtr r) ! rd_getHeaderSize r in
           if \<not> checkFileDirective b then (INVALID_DIRECTIVE_FIELD, r)
           else (OK, r\<lparr>fdr_fileDirective := directive_cast b\<rparr>)))"

definition fdr_getHeaderSize :: "directive_reader \<Rightarrow> nat" where
  "fdr_getHeaderSize r = rd_getHeaderSize r + 1"

definition fdr_setEndianness :: "Endianness \<Rightarrow> directive_reader \<Rightarrow> directive_reader" where
  "fdr_setEndianness e r = r\<lparr>fdr_endianness := e\<rparr>"

section \<open>Written headers are read back\<close>

text \<open>The configurations a header can carry: supported widths, one width for both entity identifiers.\<close>

definition conf_ok :: "PduConfig \<Rightarrow> bool" where
  "conf_ok c \<longleftrightarrow> width_ok (vlf_width (pc_sourceId c)) \<and> width_ok (vlf_width (pc_seqNum c)) \<and>
     vlf_width (pc_destId c) = vlf_width (pc_sourceId c)"

definition conf_equal :: "PduConfig \<Rightarrow> PduConfig \<Rightarrow> bool" where
  "conf_equal c d \<longleftrightarrow> pc_mode c = pc_mode d \<and> vlf_equal (pc_seqNum c) (pc_seqNum d) \<and>
     vlf_equal (pc_sourceId c) (pc_sourceId d) \<and> vlf_equal (pc_destId c) (pc_destId d) \<and>
     pc_crcFlag c = pc_crcFlag d \<and> pc_largeFile c = pc_largeFile d \<and> pc_direction c = pc_direction d"

definition enc_header :: "Endianness \<Rightarrow> HeaderCreator \<Rightarrow> bytes" where
  "enc_header e h =
     [first_byte h, hi8 (of_nat (hc_pduDataFieldLen h)), lo8 (of_nat (hc_pduDataFieldLen h)), fourth_byte h]
     @ enc_vlf e (pc_sourceId (hc_pduConf h)) @ enc_vlf e (pc_seqNum (hc_pduConf h))
     @ enc_vlf e (pc_destId (hc_pduConf h))"

lemma length_enc_header:
  "conf_ok (hc_pduConf h) \<Longrightarrow> length (enc_header e h) = hc_getSerializedSize h"
  by (simp add: enc_header_def conf_ok_def length_enc_vlf hc_getSerializedSize_def)

lemma hc_serialize_fits:
  assumes "conf_ok (hc_pduConf h)" and "n + length (enc_header e h) \<le> m"
  shows "hc_serialize e h (out, n) m = (OK, out @ enc_header e h, n + length (enc_header e h))"
proof -
  let ?c = "hc_pduConf h"
  let ?b = "[first_byte h, hi8 (of_nat (hc_pduDataFieldLen h)), lo8 (of_nat (hc_pduDataFieldLen h)), fourth_byte h]"
  let ?w = "vlf_width (pc_sourceId ?c)" and ?q = "vlf_width (pc_seqNum ?c)"
  have l: "length (enc_header e h) = ?q + ?w * 2 + 4"
    using length_enc_header [OF assms(1)] by (simp add: hc_getSerializedSize_def)
  have ok: "width_ok ?w" "width_ok ?q" "width_ok (vlf_width (pc_destId ?c))" "vlf_width (pc_destId ?c) = ?w"
    using assms(1) by (simp_all add: conf_ok_def)
  have 1: "vlf_serialize e (pc_sourceId ?c) (out @ ?b, n + 4) m =
      (OK, (out @ ?b) @ enc_vlf e (pc_sourceId ?c), n + 4 + ?w)"
    using assms(2) l by (intro vlf_serialize_fits ok) simp
  have 2: "vlf_serialize e (pc_seqNum ?c) ((out @ ?b) @ enc_vlf e (pc_sourceId ?c), n + 4 + ?w) m =
      (OK, ((out @ ?b) @ enc_vlf e (pc_sourceId ?c)) @ enc_vlf e (pc_seqNum ?c), n + 4 + ?w + ?q)"
    using assms(2) l by (intro vlf_serialize_fits ok) simp
  have 3: "vlf_serialize e (pc_destId ?c) (((out @ ?b) @ enc_vlf e (pc_sourceId ?c)) @ enc_vlf e (pc_seqNum ?c),
        n + 4 + ?w + ?q) m =
      (OK, (((out @ ?b) @ enc_vlf e (pc_sourceId ?c)) @ enc_vlf e (pc_seqNum ?c)) @ enc_vlf e (pc_destId ?c),
        n + 4 + ?w + ?q + vlf_width (pc_destId ?c))"
    using assms(2) l ok(4) by (intro vlf_serialize_fits ok) simp
  have "\<not> m < hc_getSerializedSize h" using assms(2) l by (simp add: hc_getSerializedSize_def)
  then show ?thesis
    using 1 2 3 l ok(4)
    by (simp add: hc_serialize_def Let_def enc_header_def)
qed

text \<open>The flag bytes of the header.\<close>

lemma first_byte_bits:
  "drop_bit 4 (first_byte h) AND 1 = 0 \<longleftrightarrow> hc_pduType h = FILE_DIRECTIVE"
  "drop_bit 3 (first_byte h) AND 1 = 0 \<longleftrightarrow> pc_direction (hc_pduConf h) = TOWARDS_RECEIVER"
  "drop_bit 2 (first_byte h) AND 1 = 0 \<longleftrightarrow> pc_mode (hc_pduConf h) = ACKNOWLEDGED"
  "drop_bit 1 (first_byte h) AND 1 = 0 \<longleftrightarrow> \<not> pc_crcFlag (hc_pduConf h)"
  "first_byte h AND 1 = 0 \<longleftrightarrow> \<not> pc_largeFile (hc_pduConf h)"
  by (cases "hc_pduType h"; cases "pc_direction (hc_pduConf h)"; cases "pc_mode (hc_pduConf h)";
      cases "pc_crcFlag (hc_pduConf h)"; cases "pc_largeFile (hc_pduConf h)";
      simp add: first_byte_def VERSION_BITS_def)+

lemma fourth_byte_cases:
  fixes w q :: nat and a b :: bool
  defines "x \<equiv> push_bit 7 (of_bool a) OR push_bit 4 (of_nat w) OR push_bit 3 (of_bool b) OR of_nat q :: u8"
  assumes "w \<in> {1, 2, 4}" and "q \<in> {1, 2, 4}"
  shows "unat (drop_bit 4 x AND 7) = w \<and> unat (x AND 7) = q \<and>
    (drop_bit 7 x AND 1 = 0 \<longleftrightarrow> \<not> a) \<and> (drop_bit 3 x AND 1 = 0 \<longleftrightarrow> \<not> b)"
proof -
  have "\<forall>w\<in>{1, 2, 4}. \<forall>q\<in>{1, 2, 4}. \<forall>a b.
    let x = push_bit 7 (of_bool a) OR push_bit 4 (of_nat w) OR push_bit 3 (of_bool b) OR of_nat q :: u8 in
    unat (drop_bit 4 x AND 7) = w \<and> unat (x AND 7) = q \<and>
    (drop_bit 7 x AND 1 = 0 \<longleftrightarrow> \<not> a) \<and> (drop_bit 3 x AND 1 = 0 \<longleftrightarrow> \<not> b)"
    by code_simp
  with assms show ?thesis unfolding Let_def x_def by blast
qed

lemma fourth_byte_bits:
  assumes "conf_ok (hc_pduConf h)"
  shows "unat (drop_bit 4 (fourth_byte h) AND 7) = vlf_width (pc_sourceId (hc_pduConf h))"
    and "unat (fourth_byte h AND 7) = vlf_width (pc_seqNum (hc_pduConf h))"
    and "drop_bit 7 (fourth_byte h) AND 1 = 0 \<longleftrightarrow> \<not> hc_segmentationCtrl h"
    and "drop_bit 3 (fourth_byte h) AND 1 = 0 \<longleftrightarrow> \<not> hc_segmentMetadataFlag h"
  using assms fourth_byte_cases [of "vlf_width (pc_sourceId (hc_pduConf h))"
      "vlf_width (pc_seqNum (hc_pduConf h))" "hc_segmentationCtrl h" "hc_segmentMetadataFlag h"]
  by (simp_all add: conf_ok_def width_ok_def fourth_byte_def)

lemma assignVarLenField_enc:
  assumes "width_ok (vlf_width f)"
  shows "vlf_equal (assignVarLenField g (vlf_width f) (enc_vlf BIG f @ rest)) f"
proof -
  have u16: "deser_word_unbounded BIG (enc_word BIG w @ rest) = (OK, Some w)" for w :: u16
    by (rule deser_word_unbounded_enc) simp_all
  have u32: "deser_word_unbounded BIG (enc_word BIG w @ rest) = (OK, Some w)" for w :: u32
    by (rule deser_word_unbounded_enc) simp_all
  have lt: "unat (vlf_getValue f) < 256 ^ vlf_width f"
    using assms take_bit_nat_less_exp [of 8 "unat (vlf_value f)"]
      take_bit_nat_less_exp [of 16 "unat (vlf_value f)"] take_bit_nat_less_exp [of 32 "unat (vlf_value f)"]
    by (auto simp: width_ok_def vlf_getValue_def unsigned_ucast_eq unsigned_take_bit_eq)
  have "assignVarLenField g (vlf_width f) (enc_vlf BIG f @ rest) =
      snd (vlf_setValue (vlf_width f) (vlf_getValue f) g)"
    using assms by (auto simp: assignVarLenField_def width_ok_def enc_vlf_def vlf_getValue_def u16 u32
        simp del: convertStream.simps)
  then show ?thesis
    using vlf_setValue_fits [OF assms lt] vlf_getValue_write [OF assms lt] by (simp add: vlf_equal_def)
qed

text \<open>The header as the reader sees it.\<close>

definition begins_with_header :: "HeaderCreator \<Rightarrow> bytes \<Rightarrow> bytes \<Rightarrow> bool" where
  "begins_with_header h rest raw \<longleftrightarrow> raw = enc_header BIG h @ rest"

lemma header_at:
  assumes "begins_with_header h rest raw"
  shows "raw ! 0 = first_byte h"
    and "be16 (raw ! 1) (raw ! 2) = of_nat (hc_pduDataFieldLen h)"
    and "raw ! 3 = fourth_byte h"
    and "drop 4 raw =
      enc_vlf BIG (pc_sourceId (hc_pduConf h)) @ enc_vlf BIG (pc_seqNum (hc_pduConf h))
      @ enc_vlf BIG (pc_destId (hc_pduConf h)) @ rest"
  using assms by (simp_all add: begins_with_header_def enc_header_def)

definition parsed_header :: "HeaderCreator \<Rightarrow> bytes \<Rightarrow> bytes \<Rightarrow> 'a pdu_reader_scheme \<Rightarrow> 'a pdu_reader_scheme" where
  "parsed_header h rest raw r =
     r\<lparr>rd_fixedHeader := Some raw,
       rd_dataFieldStart := (if hc_pduDataFieldLen h = 0 then None else Some rest),
       rd_sourceIdRaw := Some (drop 4 raw),
       rd_seqNumRaw := Some (enc_vlf BIG (pc_seqNum (hc_pduConf h)) @ enc_vlf BIG (pc_destId (hc_pduConf h)) @ rest),
       rd_destIdRaw := Some (enc_vlf BIG (pc_destId (hc_pduConf h)) @ rest)\<rparr>"

lemma rd_parse_header:
  fixes r :: "'a pdu_reader_scheme"
  assumes conf: "conf_ok (hc_pduConf h)" and len: "hc_pduDataFieldLen h < 65536"
    and hdr: "begins_with_header h rest raw"
    and raw: "rd_rawPtr r = Some raw" and max: "7 \<le> rd_maxSize r"
  shows "rd_parseData r = (OK, parsed_header h rest raw r)"
proof -
  have "unat (of_nat (hc_pduDataFieldLen h) :: u16) = hc_pduDataFieldLen h"
    using len by (simp add: unsigned_of_nat take_bit_nat_eq_self)
  then show ?thesis
    using conf raw max
    by (simp add: rd_parseData_def Let_def rd_getLenEntityIds_def rd_getLenSeqNum_def rd_getWholePduSize_def
        rd_getPduDataFieldLen_def rd_getHeaderSize_def header_at [OF hdr] fourth_byte_bits conf_ok_def
        length_enc_vlf parsed_header_def del: One_nat_def)
qed

definition reads_header :: "HeaderCreator \<Rightarrow> 'a pdu_reader_scheme \<Rightarrow> bool" where
  "reads_header h r \<longleftrightarrow> rd_getHeaderSize r = hc_getSerializedSize h \<and>
     rd_getPduDataFieldLen r = hc_pduDataFieldLen h \<and> rd_getPduType r = hc_pduType h \<and>
     rd_getSegmentationControl r = hc_segmentationCtrl h \<and>
     rd_hasSegmentMetadataFlag r = hc_segmentMetadataFlag h \<and>
     rd_getLargeFileFlag r = pc_largeFile (hc_pduConf h) \<and>
     (\<forall>cfg. conf_equal (fillConfig r cfg) (hc_pduConf h))"

lemma enum_of_bit:
  "(if ty = FILE_DIRECTIVE then FILE_DIRECTIVE else FILE_DATA) = ty"
  "(if d = TOWARDS_RECEIVER then TOWARDS_RECEIVER else TOWARDS_SENDER) = d"
  "(if tm = ACKNOWLEDGED then ACKNOWLEDGED else UNACKNOWLEDGED) = tm"
  by (cases ty; cases d; cases tm; simp)+

lemma parsed_header_reads:
  assumes conf: "conf_ok (hc_pduConf h)" and len: "hc_pduDataFieldLen h < 65536"
    and hdr: "begins_with_header h rest raw"
  shows "reads_header h (parsed_header h rest raw r)"
proof -
  have "unat (of_nat (hc_pduDataFieldLen h) :: u16) = hc_pduDataFieldLen h"
    using len by (simp add: unsigned_of_nat take_bit_nat_eq_self)
  moreover have "vlf_equal (assignVarLenField g (vlf_width (pc_sourceId (hc_pduConf h)))
      (enc_vlf BIG (pc_destId (hc_pduConf h)) @ xs)) (pc_destId (hc_pduConf h))" for g xs
    using conf assignVarLenField_enc [of "pc_destId (hc_pduConf h)"] by (simp add: conf_ok_def)
  ultimately show ?thesis
    using conf
    by (simp add: enum_of_bit parsed_header_def reads_header_def rd_getHeaderSize_def rd_getLenEntityIds_def
        rd_getLenSeqNum_def hc_getSerializedSize_def rd_getPduDataFieldLen_def rd_getPduType_def
        rd_getSegmentationControl_def rd_hasSegmentMetadataFlag_def rd_getLargeFileFlag_def
        conf_equal_def fillConfig_def rd_getCrcFlag_def rd_getTransmissionMode_def rd_getDirection_def
        rd_getTransactionSeqNum_def rd_getSourceId_def rd_getDestId_def header_at [OF hdr] fourth_byte_bits
        first_byte_bits assignVarLenField_enc conf_ok_def del: One_nat_def)
qed

text \<open>
  C24: the CFDP header survives writing and reading. For supported widths, equal widths of both entity
  identifiers and a data field length of two bytes, \<open>HeaderCreator\<close> succeeds whenever the header fits;
  \<open>PduHeaderReader\<close> on its bytes, followed by any data field, succeeds and returns every flag, the
  length, both identifiers and the sequence number, and points at the data field.
\<close>
theorem cfdp_header_roundtrip:
  assumes "conf_ok (hc_pduConf h)" and "hc_pduDataFieldLen h < 65536"
    and "n + hc_getSerializedSize h \<le> m"
  shows "\<exists>hdr. hc_serialize BIG h (out, n) m = (OK, out @ hdr, n + length hdr) \<and>
    length hdr = hc_getSerializedSize h \<and>
    (\<exists>r. rd_parseData (snd (rd_setData (Some (hdr @ rest)) (length (hdr @ rest)) rd_init)) = (OK, r) \<and>
      reads_header h r \<and>
      rd_dataFieldStart r = (if hc_pduDataFieldLen h = 0 then None else Some rest))"
proof (intro exI [of _ "enc_header BIG h"] conjI)
  have l: "length (enc_header BIG h) = hc_getSerializedSize h" by (rule length_enc_header [OF assms(1)])
  then show "hc_serialize BIG h (out, n) m = (OK, out @ enc_header BIG h, n + length (enc_header BIG h))"
    using assms(3) by (intro hc_serialize_fits assms(1)) simp
  show "length (enc_header BIG h) = hc_getSerializedSize h" by (rule l)
  let ?raw = "enc_header BIG h @ rest"
  let ?r = "snd (rd_setData (Some ?raw) (length ?raw) rd_init)"
  have b: "begins_with_header h rest ?raw" by (simp add: begins_with_header_def)
  have "7 \<le> hc_getSerializedSize h"
    using assms(1) by (auto simp: conf_ok_def width_ok_def hc_getSerializedSize_def)
  then have "rd_rawPtr ?r = Some ?raw" "7 \<le> rd_maxSize ?r" using l by (simp_all add: rd_setData_def)
  from rd_parse_header [OF assms(1,2) b this] parsed_header_reads [OF assms(1,2) b, of ?r]
  show "\<exists>r. rd_parseData ?r = (OK, r) \<and> reads_header h r \<and>
      rd_dataFieldStart r = (if hc_pduDataFieldLen h = 0 then None else Some rest)"
    by (simp add: parsed_header_def)
qed

theorem cfdp_header_roundtrip_witness:
  "\<exists>hdr. hc_serialize BIG (hc_new (pc_new (vlf_new 2 500) (vlf_new 2 7) UNACKNOWLEDGED (vlf_new 1 9)
       True False TOWARDS_SENDER) FILE_DATA 3 True True) ([], 0) 20 = (OK, hdr, 9) \<and> length hdr = 9"
proof -
  let ?h = "hc_new (pc_new (vlf_new 2 500) (vlf_new 2 7) UNACKNOWLEDGED (vlf_new 1 9)
       True False TOWARDS_SENDER) FILE_DATA 3 True True"
  have "vlf_width (vlf_new 2 500) = 2" "vlf_width (vlf_new 2 7) = 2" "vlf_width (vlf_new 1 9) = 1"
    by (rule vlf_new_fits; simp add: width_ok_def)+
  then have "conf_ok (hc_pduConf ?h)" "hc_pduDataFieldLen ?h < 65536" "0 + hc_getSerializedSize ?h \<le> 20"
    "hc_getSerializedSize ?h = 9"
    by (simp_all add: hc_new_def pc_new_def conf_ok_def width_ok_def hc_getSerializedSize_def)
  with cfdp_header_roundtrip [OF this(1-3), of "[]" "[1, 2, 3]"] show ?thesis by auto
qed

section \<open>Directives\<close>

lemma checkFileDirective_code [simp]:
  "d \<noteq> INVALID_DIRECTIVE \<Longrightarrow> checkFileDirective (directive_code d)"
  by (cases d) (simp_all add: checkFileDirective_def)

lemma directive_cast_code [simp]: "directive_cast (directive_code d) = d"
  by (cases d) (simp_all add: directive_cast_def)

text \<open>The header of a directive and its code octet.\<close>

definition enc_directive :: "Endianness \<Rightarrow> FileDirectiveCreator \<Rightarrow> bytes" where
  "enc_directive e c = enc_header e (fdc_header c) @ [directive_code (fdc_directiveCode c)]"

lemma fdc_header_simps [simp]:
  "hc_pduConf (fdc_header c) = hc_pduConf c"
  "hc_pduDataFieldLen (fdc_header c) = hc_pduDataFieldLen c"
  "hc_pduType (fdc_header c) = hc_pduType c"
  by (simp_all add: fdc_header_def HeaderCreator.defs)

lemma length_enc_directive:
  "conf_ok (hc_pduConf c) \<Longrightarrow> length (enc_directive e c) = hc_getSerializedSize (fdc_header c) + 1"
  using length_enc_header [of "fdc_header c" e] by (simp add: enc_directive_def)

lemma fdc_serialize_fits:
  assumes "conf_ok (hc_pduConf c)" and "n + length (enc_directive e c) \<le> m"
    and "hc_getWholePduSize (fdc_header c) \<le> m"
  shows "fdc_serialize e c (out, n) m = (OK, out @ enc_directive e c, n + length (enc_directive e c))"
  using assms hc_serialize_fits [of "fdc_header c" n e m out]
  by (simp add: fdc_serialize_def enc_directive_def)

text \<open>A parsed directive: the reader holds the whole packet and knows where the parameters start.\<close>

definition reads_directive :: "FileDirectiveCreator \<Rightarrow> bytes \<Rightarrow> directive_reader \<Rightarrow> bool" where
  "reads_directive c params r \<longleftrightarrow> reads_header (fdc_header c) r \<and>
     fdr_fileDirective r = fdc_directiveCode c \<and> fdr_endianness r = BIG \<and>
     fdr_getHeaderSize r = length (enc_directive BIG c) \<and>
     rd_rawPtr r = Some (enc_directive BIG c @ params) \<and>
     rd_maxSize r = length (enc_directive BIG c @ params) \<and>
     rd_getWholePduSize r = length (enc_directive BIG c @ params)"

lemma reader_directive_update [simp]:
  "rd_getHeaderSize (r\<lparr>fdr_fileDirective := d\<rparr>) = rd_getHeaderSize r"
  "rd_getPduDataFieldLen (r\<lparr>fdr_fileDirective := d\<rparr>) = rd_getPduDataFieldLen r"
  "reads_header h (r\<lparr>fdr_fileDirective := d\<rparr>) = reads_header h r"
  by (simp_all add: reads_header_def rd_getHeaderSize_def rd_getLenEntityIds_def rd_getLenSeqNum_def
      rd_getPduDataFieldLen_def rd_getPduType_def rd_getSegmentationControl_def
      rd_hasSegmentMetadataFlag_def rd_getLargeFileFlag_def fillConfig_def rd_getCrcFlag_def
      rd_getTransmissionMode_def rd_getDirection_def rd_getTransactionSeqNum_def rd_getSourceId_def
      rd_getDestId_def)

lemma fdr_parse_directive:
  assumes conf: "conf_ok (hc_pduConf c)" and len: "hc_pduDataFieldLen c = length params + 1"
    and small: "length params + 1 < 65536" and code: "fdc_directiveCode c \<noteq> INVALID_DIRECTIVE"
  defines "raw \<equiv> enc_directive BIG c @ params"
  shows "\<exists>r. fdr_parseData (fdr_new (Some raw) (length raw)) = (OK, r) \<and> reads_directive c params r"
proof -
  let ?h = "fdc_header c" and ?rest = "directive_code (fdc_directiveCode c) # params"
  let ?r = "fdr_new (Some raw) (length raw)"
  have conf': "conf_ok (hc_pduConf ?h)" and len': "hc_pduDataFieldLen ?h < 65536"
    using conf len small by simp_all
  have b: "begins_with_header ?h ?rest raw" by (simp add: begins_with_header_def raw_def enc_directive_def)
  have lr: "length raw = hc_getSerializedSize ?h + 1 + length params"
    using length_enc_directive [OF conf] by (simp add: raw_def)
  have "7 \<le> hc_getSerializedSize ?h"
    using conf by (auto simp: conf_ok_def width_ok_def hc_getSerializedSize_def)
  with lr have raw: "rd_rawPtr ?r = Some raw" and max: "rd_maxSize ?r = length raw" "7 \<le> rd_maxSize ?r"
    and e: "fdr_endianness ?r = BIG"
    by (simp_all add: fdr_new_def rd_setData_def pdu_reader.defs)
  let ?p = "parsed_header ?h ?rest raw ?r"
  have p: "rd_parseData ?r = (OK, ?p)" by (rule rd_parse_header [OF conf' len' b raw max(2)])
  have h: "reads_header ?h ?p" by (rule parsed_header_reads [OF conf' len' b])
  have keep: "rd_rawPtr ?p = Some raw" "rd_maxSize ?p = length raw" "fdr_endianness ?p = BIG"
    using raw max(1) e by (simp_all add: parsed_header_def)
  have sz: "rd_getHeaderSize ?p = hc_getSerializedSize ?h" "rd_getPduDataFieldLen ?p = length params + 1"
    using h len by (simp_all add: reads_header_def)
  have w: "rd_getWholePduSize ?p = length raw" using sz lr by (simp add: rd_getWholePduSize_def)
  have "raw ! hc_getSerializedSize ?h = directive_code (fdc_directiveCode c)"
    using length_enc_header [OF conf', of BIG] by (simp add: raw_def enc_directive_def nth_append)
  with p keep sz w code
  have "fdr_parseData ?r = (OK, ?p\<lparr>fdr_fileDirective := fdc_directiveCode c\<rparr>)"
    by (simp add: fdr_parseData_def Let_def)
  moreover have "reads_directive c params (?p\<lparr>fdr_fileDirective := fdc_directiveCode c\<rparr>)"
    using h keep sz lr length_enc_directive [OF conf, of BIG]
    by (simp add: reads_directive_def fdr_getHeaderSize_def rd_getWholePduSize_def raw_def)
  ultimately show ?thesis by blast
qed

end
