(* ===== verification/Cfdp_Pdus.thy ===== *)
theory Cfdp_Pdus
  imports Cfdp_Header
begin

text \<open>
  The CFDP packets (\<open>src/src/fsfw/cfdp/pdu\<close>): acknowledgements, end of file, negative
  acknowledgements, prompts, keep-alives, metadata, finished and file data, each with the object that
  holds its parameters, its creator and its reader.
\<close>

section \<open>Acknowledgements\<close>

record AckInfo =
  ai_ackedDirective :: FileDirective
  ai_ackedConditionCode :: u8
  ai_transactionStatus :: u8
  ai_directiveSubtypeCode :: u8

definition ai_default :: AckInfo where
  "ai_default = \<lparr>ai_ackedDirective = INVALID_DIRECTIVE, ai_ackedConditionCode = NO_CONDITION_FIELD,
     ai_transactionStatus = 0, ai_directiveSubtypeCode = 0\<rparr>"

definition ai_new :: "FileDirective \<Rightarrow> u8 \<Rightarrow> u8 \<Rightarrow> AckInfo" where
  "ai_new directive condition status =
     \<lparr>ai_ackedDirective = directive, ai_ackedConditionCode = condition, ai_transactionStatus = status,
      ai_directiveSubtypeCode = (if directive = FINISH then 1 else 0)\<rparr>"

definition setAckedConditionCode :: "u8 \<Rightarrow> AckInfo \<Rightarrow> AckInfo" where
  "setAckedConditionCode condition i =
     i\<lparr>ai_ackedConditionCode := condition,
       ai_directiveSubtypeCode := (if ai_ackedDirective i = FINISH then 1 else 0)\<rparr>"

definition ack_creator :: "PduConfig \<Rightarrow> FileDirectiveCreator" where
  "ack_creator conf = fdc_new conf ACK 2"

definition ack_serialize ::
  "Endianness \<Rightarrow> FileDirectiveCreator \<Rightarrow> AckInfo \<Rightarrow> sink \<Rightarrow> nat \<Rightarrow> retval \<times> sink" where
  "ack_serialize e c i snk maxSize =
     (case fdc_serialize e c snk maxSize of (result, snk) \<Rightarrow>
        if result \<noteq> OK then (result, snk)
        else if ai_ackedDirective i \<noteq> FINISH \<and> ai_ackedDirective i \<noteq> EOF_DIRECTIVE then (FAILED, snk)
        else if snd snk + 2 > maxSize then (BUFFER_TOO_SHORT, snk)
        else
          (OK, fst snk @ [push_bit 4 (directive_code (ai_ackedDirective i)) OR ai_directiveSubtypeCode i,
                          push_bit 4 (ai_ackedConditionCode i) OR ai_transactionStatus i],
           snd snk + 2))"

definition checkAckedDirectiveField :: "u8 \<Rightarrow> FileDirective option" where
  "checkAckedDirectiveField b =
     (let raw = drop_bit 4 b in
      if raw \<noteq> directive_code EOF_DIRECTIVE \<and> raw \<noteq> directive_code FINISH then None
      else Some (directive_cast raw))"

definition checkAndSetCodes :: "u8 \<Rightarrow> u8 \<Rightarrow> AckInfo \<Rightarrow> bool \<times> AckInfo" where
  "checkAndSetCodes first second i =
     (case checkAckedDirectiveField first of
        None \<Rightarrow> (False, i)
      | Some directive \<Rightarrow>
          (let i = i\<lparr>ai_ackedDirective := directive\<rparr>; subtype = first AND 0x0F in
           if subtype \<noteq> 0 \<and> subtype \<noteq> 1 then (False, i)
           else
             (True, (setAckedConditionCode (drop_bit 4 second) (i\<lparr>ai_directiveSubtypeCode := subtype\<rparr>))
                \<lparr>ai_transactionStatus := second AND 0x0F\<rparr>)))"

definition ack_parseData :: "directive_reader \<Rightarrow> AckInfo \<Rightarrow> retval \<times> directive_reader \<times> AckInfo" where
  "ack_parseData r i =
     (case fdr_parseData r of (result, r) \<Rightarrow>
        if result \<noteq> OK then (result, r, i)
        else
          (let currentIdx = fdr_getHeaderSize r; raw = the (rd_rawPtr r) in
           if currentIdx + 2 > rd_maxSize r then (BUFFER_TOO_SHORT, r, i)
           else
             (case checkAndSetCodes (raw ! currentIdx) (raw ! (currentIdx + 1)) i of (ok, i) \<Rightarrow>
                if ok then (OK, r, i) else (INVALID_ACK_DIRECTIVE_FIELDS, r, i))))"

section \<open>End of file\<close>

text \<open>The fault location is the entity identifier of the field the pointer refers to.\<close>

record EofInfo =
  ei_conditionCode :: u8
  ei_checksum :: u32
  ei_fileSize :: FileSize
  ei_faultLoc :: "VarLenField option"

definition ei_new :: "u8 \<Rightarrow> u32 \<Rightarrow> FileSize \<Rightarrow> VarLenField option \<Rightarrow> EofInfo" where
  "ei_new condition checksum fileSize faultLoc =
     \<lparr>ei_conditionCode = condition, ei_checksum = checksum, ei_fileSize = fileSize, ei_faultLoc = faultLoc\<rparr>"

definition ei_empty :: "VarLenField option \<Rightarrow> EofInfo" where
  "ei_empty faultLoc = ei_new NO_CONDITION_FIELD 0 (fs_new 0 False) faultLoc"

definition ei_getSerializedSize :: "bool \<Rightarrow> EofInfo \<Rightarrow> nat" where
  "ei_getSerializedSize fssLarge i =
     5 + (if fssLarge then 8 else 4) +
     (case ei_faultLoc i of
        Some l \<Rightarrow> (if ei_conditionCode i \<noteq> NO_ERROR then eid_getSerializedSize l else 0)
      | None \<Rightarrow> 0)"

definition ei_setFileSize :: "u64 \<Rightarrow> bool \<Rightarrow> EofInfo \<Rightarrow> retval \<times> EofInfo" where
  "ei_setFileSize v isLarge i =
     (case setFileSize v (Some isLarge) (ei_fileSize i) of (r, f) \<Rightarrow> (r, i\<lparr>ei_fileSize := f\<rparr>))"

definition eof_creator :: "PduConfig \<Rightarrow> EofInfo \<Rightarrow> FileDirectiveCreator" where
  "eof_creator conf i =
     setDirectiveDataFieldLen (ei_getSerializedSize (pc_largeFile conf) i) (fdc_new conf EOF_DIRECTIVE 9)"

definition eof_serialize ::
  "Endianness \<Rightarrow> FileDirectiveCreator \<Rightarrow> EofInfo \<Rightarrow> sink \<Rightarrow> nat \<Rightarrow> retval \<times> sink" where
  "eof_serialize e c i snk maxSize =
     (case fdc_serialize e c snk maxSize of (result, snk) \<Rightarrow>
        if result \<noteq> OK then (result, snk)
        else if snd snk + 1 > maxSize then (BUFFER_TOO_SHORT, snk)
        else
          (case ser_word e (ei_checksum i) (fst snk @ [push_bit 4 (ei_conditionCode i)], snd snk + 1) maxSize of
             (result, snk) \<Rightarrow>
               if result \<noteq> OK then (result, snk)
               else
                 (case (if fs_largeFile (ei_fileSize i) then ser_word e (fs_fileSize (ei_fileSize i)) snk maxSize
                        else ser_word e (ucast (fs_fileSize (ei_fileSize i)) :: u32) snk maxSize) of
                    (result, snk) \<Rightarrow>
                      (case ei_faultLoc i of
                         Some l \<Rightarrow>
                           if ei_conditionCode i \<noteq> NO_ERROR then eid_serialize e l snk maxSize
                           else (result, snk)
                       | None \<Rightarrow> (result, snk)))))"

text \<open>The end of the reader's \<open>parseData\<close>: the fault location.\<close>

definition eof_parse_fault :: "Endianness \<Rightarrow> EofInfo \<Rightarrow> source \<Rightarrow> retval \<Rightarrow> retval \<times> EofInfo" where
  "eof_parse_fault e i src result =
     (if ei_conditionCode i \<noteq> NO_ERROR then
        (case ei_faultLoc i of
           None \<Rightarrow> (FAILED, i)
         | Some l \<Rightarrow>
             (case eid_deSerialize e l src of (result, l, src) \<Rightarrow> (result, i\<lparr>ei_faultLoc := Some l\<rparr>)))
      else (result, i))"

definition eof_parse_size :: "Endianness \<Rightarrow> bool \<Rightarrow> EofInfo \<Rightarrow> source \<Rightarrow> retval \<times> EofInfo \<times> source" where
  "eof_parse_size e large i src =
     (if large then
        (case deser_word e src of (result, v :: u64 option, src) \<Rightarrow>
           (result, snd (ei_setFileSize (case v of Some v \<Rightarrow> v | None \<Rightarrow> 0) True i), src))
      else
        (case deser_word e src of (result, v :: u32 option, src) \<Rightarrow>
           (result, snd (ei_setFileSize (case v of Some v \<Rightarrow> ucast v | None \<Rightarrow> 0) False i), src)))"

definition eof_parseData :: "directive_reader \<Rightarrow> EofInfo \<Rightarrow> retval \<times> directive_reader \<times> EofInfo" where
  "eof_parseData r i =
     (case fdr_parseData r of (result, r) \<Rightarrow>
        if result \<noteq> OK then (result, r, i)
        else
          (let expectedFileFieldLen = (if rd_getLargeFileFlag r then 8 else 4);
               currentIdx = fdr_getHeaderSize r;
               e = fdr_endianness r in
           if rd_maxSize r < currentIdx + 5 + expectedFileFieldLen then (SER_STREAM_TOO_SHORT, r, i)
           else
             (let buf = drop currentIdx (the (rd_rawPtr r));
                  i = i\<lparr>ei_conditionCode := drop_bit 4 (hd buf)\<rparr> in
              case deser_word e (drop 1 buf, rd_maxSize r - currentIdx - 1) of (result, checksum, src) \<Rightarrow>
                if result \<noteq> OK then (result, r, i)
                else
                  (case eof_parse_size e (rd_getLargeFileFlag r) (i\<lparr>ei_checksum := the checksum\<rparr>) src of
                     (result, i, src) \<Rightarrow>
                       if result \<noteq> OK then (result, r, i)
                       else (case eof_parse_fault e i src result of (result, i) \<Rightarrow> (result, r, i))))))"

section \<open>Negative acknowledgements\<close>

type_synonym SegmentRequest = "FileSize \<times> FileSize"

record NakInfo =
  ni_startOfScope :: FileSize
  ni_endOfScope :: FileSize
  ni_segmentRequests :: "SegmentRequest list option"
  ni_segmentRequestsLen :: nat
  ni_maxSegmentRequestsLen :: nat

definition ni_new :: "FileSize \<Rightarrow> FileSize \<Rightarrow> NakInfo" where
  "ni_new s t = \<lparr>ni_startOfScope = s, ni_endOfScope = t, ni_segmentRequests = None,
     ni_segmentRequestsLen = 0, ni_maxSegmentRequestsLen = 0\<rparr>"

definition hasSegmentRequests :: "NakInfo \<Rightarrow> bool" where
  "hasSegmentRequests i \<longleftrightarrow> ni_segmentRequests i \<noteq> None \<and> ni_segmentRequestsLen i > 0"

definition canHoldSegmentRequests :: "NakInfo \<Rightarrow> bool" where
  "canHoldSegmentRequests i \<longleftrightarrow> ni_segmentRequests i \<noteq> None \<and> ni_maxSegmentRequestsLen i > 0"

definition ni_getSerializedSize :: "bool \<Rightarrow> NakInfo \<Rightarrow> nat" where
  "ni_getSerializedSize fssLarge i =
     8 + (if fssLarge then 8 else 0) +
     (if hasSegmentRequests i then ni_segmentRequestsLen i * (if fssLarge then 16 else 8) else 0)"

definition setSegmentRequests ::
  "SegmentRequest list option \<Rightarrow> nat option \<Rightarrow> nat option \<Rightarrow> NakInfo \<Rightarrow> NakInfo" where
  "setSegmentRequests reqs len maxLen i =
     (let i = i\<lparr>ni_segmentRequests := reqs\<rparr>;
          i = (case len of Some n \<Rightarrow> i\<lparr>ni_segmentRequestsLen := n\<rparr> | None \<Rightarrow> i) in
      case maxLen of Some n \<Rightarrow> i\<lparr>ni_maxSegmentRequestsLen := n\<rparr> | None \<Rightarrow> i)"

definition nak_updateDirectiveFieldLen :: "NakInfo \<Rightarrow> FileDirectiveCreator \<Rightarrow> FileDirectiveCreator" where
  "nak_updateDirectiveFieldLen i c =
     setDirectiveDataFieldLen (ni_getSerializedSize (pc_largeFile (hc_pduConf c)) i) c"

definition nak_creator :: "PduConfig \<Rightarrow> NakInfo \<Rightarrow> FileDirectiveCreator" where
  "nak_creator conf i = nak_updateDirectiveFieldLen i (fdc_new conf NAK 0)"

text \<open>A segment request is its two offsets, one after the other.\<close>

definition ser_request :: "Endianness \<Rightarrow> SegmentRequest \<Rightarrow> sink \<Rightarrow> nat \<Rightarrow> retval \<times> sink" where
  "ser_request e q snk maxSize =
     (case fs_serialize e (fst q) snk maxSize of (result, snk) \<Rightarrow>
        if result \<noteq> OK then (result, snk) else fs_serialize e (snd q) snk maxSize)"

definition nak_serialize ::
  "Endianness \<Rightarrow> FileDirectiveCreator \<Rightarrow> NakInfo \<Rightarrow> sink \<Rightarrow> nat \<Rightarrow> retval \<times> sink" where
  "nak_serialize e c i snk maxSize =
     (case fdc_serialize e c snk maxSize of (result, snk) \<Rightarrow>
        if result \<noteq> OK then (result, snk)
        else
          (case fs_serialize e (ni_startOfScope i) snk maxSize of (result, snk) \<Rightarrow>
             if result \<noteq> OK then (result, snk)
             else
               (case fs_serialize e (ni_endOfScope i) snk maxSize of (result, snk) \<Rightarrow>
                  if result \<noteq> OK then (result, snk)
                  else if hasSegmentRequests i then
                    ser_loop (ser_request e)
                      (take (ni_segmentRequestsLen i) (the (ni_segmentRequests i))) snk maxSize
                  else (result, snk))))"

lemma fs_deSerialize_shortens:
  "fs_deSerialize e f src = (OK, f', src') \<Longrightarrow> snd src' < snd src"
  by (auto simp: fs_deSerialize_def deser_word_def sizeof_def Let_def split: if_splits prod.splits)

function nak_loop ::
  "nat \<Rightarrow> nat \<Rightarrow> SegmentRequest list \<Rightarrow> source \<Rightarrow> retval \<Rightarrow> retval \<times> SegmentRequest list \<times> nat option" where
  "nak_loop maxSegReqs idx segReqs src result =
     (if snd src > 0 then
        (if idx = maxSegReqs then (NAK_CANT_PARSE_OPTIONS, segReqs, None)
         else
           (case fs_deSerialize BIG (fst (segReqs ! idx)) src of (result, a, src) \<Rightarrow>
              let segReqs = segReqs[idx := (a, snd (segReqs ! idx))] in
              if result \<noteq> OK then (result, segReqs, None)
              else
                (case fs_deSerialize BIG (snd (segReqs ! idx)) src of (result, b, src) \<Rightarrow>
                   let segReqs = segReqs[idx := (fst (segReqs ! idx), b)] in
                   if result \<noteq> OK then (result, segReqs, None)
                   else nak_loop maxSegReqs (idx + 1) segReqs src result)))
      else (result, segReqs, Some idx))"
  by pat_completeness auto
termination
  by (relation "measure (\<lambda>(m, i, q, src, r). snd src)")
     (auto dest!: fs_deSerialize_shortens [OF sym])

declare nak_loop.simps [simp del]

definition nak_parseData :: "directive_reader \<Rightarrow> NakInfo \<Rightarrow> retval \<times> directive_reader \<times> NakInfo" where
  "nak_parseData r i =
     (case fdr_parseData r of (result, r) \<Rightarrow>
        if result \<noteq> OK then (result, r, i)
        else
          (let currentIdx = fdr_getHeaderSize r;
               src = (drop currentIdx (the (rd_rawPtr r)), rd_getWholePduSize r - currentIdx) in
           if snd src < 1 then (SER_STREAM_TOO_SHORT, r, i)
           else
             (case fs_deSerialize BIG (ni_startOfScope i) src of (result, s, src) \<Rightarrow>
                let i = i\<lparr>ni_startOfScope := s\<rparr> in
                if result \<noteq> OK then (result, r, i)
                else
                  (case fs_deSerialize BIG (ni_endOfScope i) src of (result, t, src) \<Rightarrow>
                     let i = i\<lparr>ni_endOfScope := t\<rparr> in
                     if result \<noteq> OK then (result, r, i)
                     else
                       (let i = i\<lparr>ni_segmentRequestsLen := 0\<rparr> in
                        if snd src > 0 then
                          (if \<not> canHoldSegmentRequests i then (NAK_CANT_PARSE_OPTIONS, r, i)
                           else
                             (case nak_loop (ni_maxSegmentRequestsLen i) 0 (the (ni_segmentRequests i)) src result of
                                (result, reqs, n) \<Rightarrow>
                                  (result, r, i\<lparr>ni_segmentRequests := Some reqs,
                                                ni_segmentRequestsLen := (case n of Some n \<Rightarrow> n | None \<Rightarrow> 0)\<rparr>)))
                        else (result, r, i))))))"

section \<open>Prompts and keep-alives\<close>

definition prompt_creator :: "PduConfig \<Rightarrow> FileDirectiveCreator" where
  "prompt_creator conf = fdc_new conf PROMPT 1"

definition prompt_serialize ::
  "Endianness \<Rightarrow> FileDirectiveCreator \<Rightarrow> bool \<Rightarrow> sink \<Rightarrow> nat \<Rightarrow> retval \<times> sink" where
  "prompt_serialize e c keepAlive snk maxSize =
     (case fdc_serialize e c snk maxSize of (result, snk) \<Rightarrow>
        if result \<noteq> OK then (result, snk)
        else if snd snk + 1 > maxSize then (BUFFER_TOO_SHORT, snk)
        else (result, fst snk @ [push_bit 7 (of_bool keepAlive)], snd snk + 1))"

definition prompt_parseData :: "directive_reader \<Rightarrow> bool \<Rightarrow> retval \<times> directive_reader \<times> bool" where
  "prompt_parseData r keepAlive =
     (case fdr_parseData r of (result, r) \<Rightarrow>
        if result \<noteq> OK then (result, r, keepAlive)
        else if rd_getWholePduSize r \<le> fdr_getHeaderSize r then (SER_STREAM_TOO_SHORT, r, keepAlive)
        else (OK, r, drop_bit 7 (the (rd_rawPtr r) ! fdr_getHeaderSize r) AND 1 \<noteq> 0))"

definition keep_alive_creator :: "PduConfig \<Rightarrow> FileDirectiveCreator" where
  "keep_alive_creator conf =
     (let c = fdc_new conf KEEP_ALIVE 4 in
      if pc_largeFile conf then setDirectiveDataFieldLen 8 c else c)"

definition keep_alive_serialize ::
  "Endianness \<Rightarrow> FileDirectiveCreator \<Rightarrow> FileSize \<Rightarrow> sink \<Rightarrow> nat \<Rightarrow> retval \<times> FileSize \<times> sink" where
  "keep_alive_serialize e c progress snk maxSize =
     (case fdc_serialize e c snk maxSize of (result, snk) \<Rightarrow>
        if result \<noteq> OK then (result, progress, snk)
        else fs_serialize_as e (pc_largeFile (hc_pduConf c)) progress snk maxSize)"

definition keep_alive_parseData :: "directive_reader \<Rightarrow> FileSize \<Rightarrow> retval \<times> directive_reader \<times> FileSize" where
  "keep_alive_parseData r progress =
     (case fdr_parseData r of (result, r) \<Rightarrow>
        if result \<noteq> OK then (result, r, progress)
        else
          (let currentIdx = fdr_getHeaderSize r in
           case fs_deSerialize (fdr_endianness r) progress
               (drop currentIdx (the (rd_rawPtr r)), rd_getWholePduSize r - currentIdx) of
             (result, progress, src) \<Rightarrow> (result, r, progress)))"

section \<open>Metadata\<close>

record MetadataInfo =
  mi_closureRequested :: bool
  mi_checksumType :: u8
  mi_fileSize :: FileSize
  mi_sourceFileName :: Lv
  mi_destFileName :: Lv
  mi_optionsArray :: "Tlv list option"
  mi_optionsLen :: nat
  mi_maxOptionsLen :: nat

definition mi_new :: "bool \<Rightarrow> u8 \<Rightarrow> FileSize \<Rightarrow> Lv \<Rightarrow> Lv \<Rightarrow> MetadataInfo" where
  "mi_new closure checksum fileSize source dest =
     \<lparr>mi_closureRequested = closure, mi_checksumType = checksum, mi_fileSize = fileSize,
      mi_sourceFileName = source, mi_destFileName = dest, mi_optionsArray = None, mi_optionsLen = 0,
      mi_maxOptionsLen = 0\<rparr>"

definition setOptionsArray :: "Tlv list option \<Rightarrow> nat option \<Rightarrow> nat option \<Rightarrow> MetadataInfo \<Rightarrow> MetadataInfo" where
  "setOptionsArray opts len maxLen i =
     (let i = i\<lparr>mi_optionsArray := opts\<rparr>;
          i = (case maxLen of Some n \<Rightarrow> i\<lparr>mi_maxOptionsLen := n\<rparr> | None \<Rightarrow> i) in
      case len of Some n \<Rightarrow> i\<lparr>mi_optionsLen := n\<rparr> | None \<Rightarrow> i)"

definition hasOptions :: "MetadataInfo \<Rightarrow> bool" where
  "hasOptions i \<longleftrightarrow> mi_optionsArray i \<noteq> None \<and> mi_optionsLen i > 0"

definition canHoldOptions :: "MetadataInfo \<Rightarrow> bool" where
  "canHoldOptions i \<longleftrightarrow> mi_optionsArray i \<noteq> None \<and> mi_maxOptionsLen i > 0"

definition mi_getSerializedSize :: "bool \<Rightarrow> MetadataInfo \<Rightarrow> nat" where
  "mi_getSerializedSize fssLarge i =
     5 + (if fssLarge then 4 else 0) + lv_getSerializedSize (mi_sourceFileName i)
     + lv_getSerializedSize (mi_destFileName i)
     + (if hasOptions i then
          sum_list (map tlv_getSerializedSize (take (mi_optionsLen i) (the (mi_optionsArray i))))
        else 0)"

definition metadata_updateDirectiveFieldLen :: "MetadataInfo \<Rightarrow> FileDirectiveCreator \<Rightarrow> FileDirectiveCreator" where
  "metadata_updateDirectiveFieldLen i c =
     setDirectiveDataFieldLen (mi_getSerializedSize (pc_largeFile (hc_pduConf c)) i) c"

definition metadata_creator :: "PduConfig \<Rightarrow> MetadataInfo \<Rightarrow> FileDirectiveCreator" where
  "metadata_creator conf i = metadata_updateDirectiveFieldLen i (fdc_new conf METADATA 5)"

definition metadata_serialize ::
  "Endianness \<Rightarrow> FileDirectiveCreator \<Rightarrow> MetadataInfo \<Rightarrow> sink \<Rightarrow> nat \<Rightarrow> retval \<times> sink" where
  "metadata_serialize e c i snk maxSize =
     (case fdc_serialize e c snk maxSize of (result, snk) \<Rightarrow>
        if result \<noteq> OK then (result, snk)
        else if snd snk + 1 \<ge> maxSize then (BUFFER_TOO_SHORT, snk)
        else
          (case fs_serialize e (mi_fileSize i)
              (fst snk @ [push_bit 6 (of_bool (mi_closureRequested i)) OR mi_checksumType i], snd snk + 1)
              maxSize of (result, snk) \<Rightarrow>
             if result \<noteq> OK then (result, snk)
             else
               (case lv_serialize e (mi_sourceFileName i) snk maxSize of (result, snk) \<Rightarrow>
                  if result \<noteq> OK then (result, snk)
                  else
                    (case lv_serialize e (mi_destFileName i) snk maxSize of (result, snk) \<Rightarrow>
                       if result \<noteq> OK then (result, snk)
                       else if hasOptions i then
                         ser_loop (tlv_serialize e) (take (mi_optionsLen i) (the (mi_optionsArray i)))
                           snk maxSize
                       else (result, snk)))))"

text \<open>The reader accepts one option more than the array holds before it gives up.\<close>

function metadata_loop ::
  "nat \<Rightarrow> nat \<Rightarrow> Tlv list \<Rightarrow> source \<Rightarrow> retval \<Rightarrow> retval \<times> Tlv list \<times> nat option" where
  "metadata_loop optsMaxLen optsIdx opts src result =
     (if snd src > 0 then
        (if optsIdx > optsMaxLen then (METADATA_CANT_PARSE_OPTIONS, opts, None)
         else
           (case tlv_deSerialize (opts ! optsIdx) src of (result, t, src) \<Rightarrow>
              let opts = opts[optsIdx := t] in
              if result \<noteq> OK then (result, opts, None)
              else metadata_loop optsMaxLen (optsIdx + 1) opts src result))
      else (result, opts, Some optsIdx))"
  by pat_completeness auto
termination
  by (relation "measure (\<lambda>(m, i, q, src, r). snd src)")
     (auto dest!: tlv_deSerialize_shortens [OF sym])

declare metadata_loop.simps [simp del]

definition metadata_options :: "MetadataInfo \<Rightarrow> source \<Rightarrow> retval \<Rightarrow> retval \<times> MetadataInfo" where
  "metadata_options i src result =
     (let i = i\<lparr>mi_optionsLen := 0\<rparr> in
      if snd src > 0 then
        (if \<not> canHoldOptions i then (METADATA_CANT_PARSE_OPTIONS, i)
         else
           (case metadata_loop (mi_maxOptionsLen i) 0 (the (mi_optionsArray i)) src result of
              (result, opts, n) \<Rightarrow>
                (result, i\<lparr>mi_optionsArray := Some opts,
                           mi_optionsLen := (case n of Some n \<Rightarrow> n | None \<Rightarrow> 0)\<rparr>)))
      else (result, i))"

definition metadata_parseData :: "directive_reader \<Rightarrow> MetadataInfo \<Rightarrow> retval \<times> directive_reader \<times> MetadataInfo" where
  "metadata_parseData r i =
     (case fdr_parseData r of (result, r) \<Rightarrow>
        if result \<noteq> OK then (result, r, i)
        else
          (let currentIdx = fdr_getHeaderSize r;
               e = fdr_endianness r;
               buf = drop currentIdx (the (rd_rawPtr r));
               remSize = rd_getWholePduSize r - currentIdx in
           if remSize < 1 then (SER_STREAM_TOO_SHORT, r, i)
           else
             (let i = i\<lparr>mi_closureRequested := (drop_bit 6 (hd buf) AND 1 \<noteq> 0),
                        mi_checksumType := hd buf AND 0x0F\<rparr> in
              case fs_deSerialize e (mi_fileSize i) (drop 1 buf, remSize - 1) of (result, f, src) \<Rightarrow>
                let i = i\<lparr>mi_fileSize := f\<rparr> in
                if result \<noteq> OK then (result, r, i)
                else
                  (case lv_deSerialize (mi_sourceFileName i) src of (result, l, src) \<Rightarrow>
                     let i = i\<lparr>mi_sourceFileName := l\<rparr> in
                     if result \<noteq> OK then (result, r, i)
                     else
                       (case lv_deSerialize (mi_destFileName i) src of (result, l, src) \<Rightarrow>
                          let i = i\<lparr>mi_destFileName := l\<rparr> in
                          if result \<noteq> OK then (result, r, i)
                          else (case metadata_options i src result of (result, i) \<Rightarrow> (result, r, i)))))))"

section \<open>Finished\<close>

record FinishedInfo =
  fi_conditionCode :: u8
  fi_deliveryCode :: u8
  fi_fileStatus :: u8
  fi_fsResponses :: "FilestoreResponse list option"
  fi_fsResponsesLen :: nat
  fi_fsResponsesMaxLen :: nat
  fi_faultLocation :: "VarLenField option"

definition fi_new :: "u8 \<Rightarrow> u8 \<Rightarrow> u8 \<Rightarrow> FinishedInfo" where
  "fi_new condition delivery status =
     \<lparr>fi_conditionCode = condition, fi_deliveryCode = delivery, fi_fileStatus = status,
      fi_fsResponses = None, fi_fsResponsesLen = 0, fi_fsResponsesMaxLen = 0, fi_faultLocation = None\<rparr>"

definition hasFsResponses :: "FinishedInfo \<Rightarrow> bool" where
  "hasFsResponses i \<longleftrightarrow> fi_fsResponses i \<noteq> None \<and> fi_fsResponsesLen i > 0"

definition canHoldFsResponses :: "FinishedInfo \<Rightarrow> bool" where
  "canHoldFsResponses i \<longleftrightarrow> fi_fsResponses i \<noteq> None \<and> fi_fsResponsesMaxLen i > 0"

definition fi_getSerializedSize :: "FinishedInfo \<Rightarrow> nat" where
  "fi_getSerializedSize i =
     1 + (if hasFsResponses i then
            sum_list (map fsp_getSerializedSize (take (fi_fsResponsesLen i) (the (fi_fsResponses i))))
          else 0)
     + (case fi_faultLocation i of Some l \<Rightarrow> eid_getSerializedSize l | None \<Rightarrow> 0)"

definition setFilestoreResponsesArray ::
  "FilestoreResponse list option \<Rightarrow> nat option \<Rightarrow> nat option \<Rightarrow> FinishedInfo \<Rightarrow> FinishedInfo" where
  "setFilestoreResponsesArray resps len maxLen i =
     (let i = i\<lparr>fi_fsResponses := resps\<rparr>;
          i = (case len of
                 Some n \<Rightarrow>
                   (let i = i\<lparr>fi_fsResponsesLen := n\<rparr> in
                    if fi_fsResponsesMaxLen i < n then i\<lparr>fi_fsResponsesMaxLen := fi_fsResponsesLen i\<rparr> else i)
               | None \<Rightarrow> i) in
      case maxLen of Some n \<Rightarrow> i\<lparr>fi_fsResponsesMaxLen := n\<rparr> | None \<Rightarrow> i)"

definition setFaultLocation :: "VarLenField option \<Rightarrow> FinishedInfo \<Rightarrow> FinishedInfo" where
  "setFaultLocation l i = i\<lparr>fi_faultLocation := l\<rparr>"

definition finished_creator :: "PduConfig \<Rightarrow> FinishedInfo \<Rightarrow> FileDirectiveCreator" where
  "finished_creator conf i = setDirectiveDataFieldLen (fi_getSerializedSize i) (fdc_new conf FINISH 0)"

definition finished_serialize ::
  "Endianness \<Rightarrow> FileDirectiveCreator \<Rightarrow> FinishedInfo \<Rightarrow> sink \<Rightarrow> nat \<Rightarrow> retval \<times> sink" where
  "finished_serialize e c i snk maxSize =
     (case fdc_serialize e c snk maxSize of (result, snk) \<Rightarrow>
        if result \<noteq> OK then (result, snk)
        else if snd snk + 1 > maxSize then (BUFFER_TOO_SHORT, snk)
        else
          (let snk = (fst snk @ [push_bit 4 (fi_conditionCode i) OR push_bit 2 (fi_deliveryCode i)
                                 OR fi_fileStatus i], snd snk + 1) in
           case (if hasFsResponses i then
                   ser_loop (fsp_serialize e) (take (fi_fsResponsesLen i) (the (fi_fsResponses i))) snk maxSize
                 else (result, snk)) of (result, snk) \<Rightarrow>
             if result \<noteq> OK then (result, snk)
             else
               (case fi_faultLocation i of
                  Some l \<Rightarrow> eid_serialize e l snk maxSize
                | None \<Rightarrow> (result, snk))))"

text \<open>
  \<open>parseTlvs\<close>: \<open>currentIdx\<close> is never advanced, so the test against \<open>maxSize\<close> is the same in every
  round. The responses read so far are kept in the array.
\<close>

function parseTlvs ::
  "Endianness \<Rightarrow> nat \<Rightarrow> nat \<Rightarrow> u8 \<Rightarrow> nat \<Rightarrow> FinishedInfo \<Rightarrow> source \<Rightarrow> retval \<Rightarrow> retval \<times> FinishedInfo" where
  "parseTlvs e maxSize currentIdx conditionCode idx i src result =
     (if snd src > 0 then
        (if currentIdx + 2 > maxSize then (SER_STREAM_TOO_SHORT, i)
         else if hd (fst src) = tlv_code FILESTORE_RESPONSE then
           (if \<not> canHoldFsResponses i \<or> idx = fi_fsResponsesMaxLen i then
              (FINISHED_CANT_PARSE_FS_RESPONSES, i)
            else
              (case fsp_deSerialize (the (fi_fsResponses i) ! idx) src of (result, p, src) \<Rightarrow>
                 let i = i\<lparr>fi_fsResponses := Some ((the (fi_fsResponses i))[idx := p])\<rparr> in
                 if result \<noteq> OK then (result, i)
                 else parseTlvs e maxSize currentIdx conditionCode (idx + 1) i src result))
         else if hd (fst src) = tlv_code ENTITY_ID then
           (if conditionCode = NO_ERROR \<or> conditionCode = UNSUPPORTED_CHECKSUM_TYPE then
              (INVALID_TLV_TYPE, i)
            else
              (case fi_faultLocation i of
                 None \<Rightarrow> (FAILED, i)
               | Some l \<Rightarrow>
                   (case eid_deSerialize e l src of (result, l, src) \<Rightarrow>
                      let i = i\<lparr>fi_faultLocation := Some l\<rparr> in
                      if result \<noteq> OK then (result, i)
                      else parseTlvs e maxSize currentIdx conditionCode idx i src result)))
         else (INVALID_TLV_TYPE, i))
      else (result, i\<lparr>fi_fsResponsesLen := idx\<rparr>))"
  by pat_completeness auto
termination
  by (relation "measure (\<lambda>(e, m, c, cc, idx, i, src, r). snd src)")
     (auto dest!: fsp_deSerialize_shortens [OF sym] eid_deSerialize_shortens [OF sym])

declare parseTlvs.simps [simp del]

definition finished_parseData :: "directive_reader \<Rightarrow> FinishedInfo \<Rightarrow> retval \<times> directive_reader \<times> FinishedInfo" where
  "finished_parseData r i =
     (case fdr_parseData r of (result, r) \<Rightarrow>
        if result \<noteq> OK then (result, r, i)
        else
          (let currentIdx = fdr_getHeaderSize r;
               buf = drop currentIdx (the (rd_rawPtr r));
               remSize = rd_getWholePduSize r - currentIdx in
           if remSize < 1 then (SER_STREAM_TOO_SHORT, r, i)
           else
             (let condCode = drop_bit 4 (hd buf) AND 0x0F;
                  i = i\<lparr>fi_conditionCode := condCode, fi_deliveryCode := drop_bit 2 (hd buf) AND 1,
                        fi_fileStatus := hd buf AND 3\<rparr> in
              if remSize - 1 > 0 then
                (case parseTlvs (fdr_endianness r) (rd_maxSize r) (currentIdx + 1) condCode 0 i
                    (drop 1 buf, remSize - 1) OK of (result, i) \<Rightarrow> (result, r, i))
              else (result, r, i))))"

section \<open>File data\<close>

record FileDataInfo =
  fd_segmentMetadataFlag :: bool
  fd_segCtrl :: bool
  fd_offset :: FileSize
  fd_fileData :: "bytes option"
  fd_fileSize :: nat
  fd_recContState :: u8
  fd_segmentMetadataLen :: nat
  fd_segmentMetadata :: "bytes option"

definition fd_new :: "FileSize \<Rightarrow> bytes option \<Rightarrow> nat \<Rightarrow> FileDataInfo" where
  "fd_new offset fileData fileSize =
     \<lparr>fd_segmentMetadataFlag = False, fd_segCtrl = False, fd_offset = offset, fd_fileData = fileData,
      fd_fileSize = fileSize, fd_recContState = 0, fd_segmentMetadataLen = 0, fd_segmentMetadata = None\<rparr>"

definition fd_getSerializedSize :: "bool \<Rightarrow> FileDataInfo \<Rightarrow> nat" where
  "fd_getSerializedSize largeFile i =
     (if fd_segmentMetadataFlag i then 1 + fd_segmentMetadataLen i else 0)
     + (if largeFile then 8 else 4) + fd_fileSize i"

definition addSegmentMetadataInfo :: "u8 \<Rightarrow> bytes option \<Rightarrow> nat \<Rightarrow> FileDataInfo \<Rightarrow> retval \<times> FileDataInfo" where
  "addSegmentMetadataInfo recContState segmentMetadata len i =
     (let i = i\<lparr>fd_segmentMetadataFlag := True, fd_recContState := recContState\<rparr> in
      if len > 63 then (FAILED, i)
      else (OK, i\<lparr>fd_segmentMetadata := segmentMetadata, fd_segmentMetadataLen := len\<rparr>))"

definition setFileData :: "bytes option \<Rightarrow> nat \<Rightarrow> FileDataInfo \<Rightarrow> FileDataInfo" where
  "setFileData fileData fileSize i = i\<lparr>fd_fileData := fileData, fd_fileSize := fileSize\<rparr>"

definition fdata_update :: "FileDataInfo \<Rightarrow> HeaderCreator \<Rightarrow> HeaderCreator" where
  "fdata_update i h =
     hc_setPduDataFieldLen (fd_getSerializedSize (pc_largeFile (hc_pduConf h)) i)
       (hc_setSegmentationControl (fd_segCtrl i)
         (hc_setSegmentMetadataFlag (fd_segmentMetadataFlag i) h))"

definition fdata_creator :: "PduConfig \<Rightarrow> FileDataInfo \<Rightarrow> HeaderCreator" where
  "fdata_creator conf i = fdata_update i (hc_new conf FILE_DATA 0 (fd_segmentMetadataFlag i) False)"

definition fdata_getSerializedSize :: "HeaderCreator \<Rightarrow> FileDataInfo \<Rightarrow> nat" where
  "fdata_getSerializedSize h i =
     hc_getSerializedSize h + fd_getSerializedSize (pc_largeFile (hc_pduConf h)) i"

definition fdata_serialize ::
  "Endianness \<Rightarrow> HeaderCreator \<Rightarrow> FileDataInfo \<Rightarrow> sink \<Rightarrow> nat \<Rightarrow> retval \<times> FileDataInfo \<times> sink" where
  "fdata_serialize e h i snk maxSize =
     (if snd snk + fdata_getSerializedSize h i > maxSize then (BUFFER_TOO_SHORT, i, snk)
      else
        (case hc_serialize e h snk maxSize of (result, snk) \<Rightarrow>
           if result \<noteq> OK then (result, i, snk)
           else
             (let snk =
                (if hc_segmentMetadataFlag h then
                   (fst snk @ [push_bit 6 (fd_recContState i) OR of_nat (fd_segmentMetadataLen i)]
                      @ take (fd_segmentMetadataLen i) (the (fd_segmentMetadata i)),
                    snd snk + 1 + fd_segmentMetadataLen i)
                 else snk) in
              case fs_serialize_as e (pc_largeFile (hc_pduConf h)) (fd_offset i) snk maxSize of
                (result, offset, snk) \<Rightarrow>
                  let i = i\<lparr>fd_offset := offset\<rparr> in
                  if result \<noteq> OK then (result, i, snk)
                  else if snd snk + fd_fileSize i > maxSize then (BUFFER_TOO_SHORT, i, snk)
                  else
                    (OK, i, fst snk @ take (fd_fileSize i) (the (fd_fileData i)), snd snk + fd_fileSize i))))"

record file_data_reader = pdu_reader +
  fdt_endianness :: Endianness

definition fdt_new :: "bytes option \<Rightarrow> nat \<Rightarrow> file_data_reader" where
  "fdt_new pduBuf maxSize =
     snd (rd_setData pduBuf maxSize (pdu_reader.extend rd_init \<lparr>fdt_endianness = BIG\<rparr>))"

text \<open>The end of \<open>parseData\<close>, from the offset on.\<close>

definition fdata_parse_data :: "Endianness \<Rightarrow> FileDataInfo \<Rightarrow> source \<Rightarrow> retval \<times> FileDataInfo" where
  "fdata_parse_data e i src =
     (case fs_deSerialize e (fd_offset i) src of (result, offset, src) \<Rightarrow>
        let i = i\<lparr>fd_offset := offset\<rparr> in
        if result \<noteq> OK then (result, i)
        else (OK, if snd src > 0 then setFileData (Some (fst src)) (snd src) i else i))"

definition fdata_parseData :: "file_data_reader \<Rightarrow> FileDataInfo \<Rightarrow> retval \<times> file_data_reader \<times> FileDataInfo" where
  "fdata_parseData r i =
     (case rd_parseData r of (result, r) \<Rightarrow>
        if result \<noteq> OK then (result, r, i)
        else
          (let currentIdx = rd_getHeaderSize r;
               buf = drop currentIdx (the (rd_rawPtr r));
               remSize = rd_getWholePduSize r - currentIdx;
               e = fdt_endianness r in
           if remSize < 1 then (SER_STREAM_TOO_SHORT, r, i)
           else if rd_hasSegmentMetadataFlag r then
             (let len = unat (hd buf AND 0x3F);
                  i = i\<lparr>fd_segmentMetadataFlag := True, fd_recContState := drop_bit 6 (hd buf) AND 3,
                        fd_segmentMetadataLen := len\<rparr> in
              if remSize < len + 1 then (SER_STREAM_TOO_SHORT, r, i)
              else if len > 0 then
                (case fdata_parse_data e (i\<lparr>fd_segmentMetadata := Some (drop 1 buf)\<rparr>)
                    (drop len (drop 1 buf), remSize - 1 - len) of (result, i) \<Rightarrow> (result, r, i))
              else (case fdata_parse_data e i (buf, remSize) of (result, i) \<Rightarrow> (result, r, i)))
           else (case fdata_parse_data e i (buf, remSize) of (result, i) \<Rightarrow> (result, r, i))))"

section \<open>Directives are read back\<close>

lemma fdc_new_simps [simp]:
  "hc_pduConf (fdc_new conf d len) = conf" "fdc_directiveCode (fdc_new conf d len) = d"
  "hc_pduDataFieldLen (fdc_new conf d len) = len + 1"
  by (simp_all add: fdc_new_def hc_new_def HeaderCreator.defs)

lemma setDirectiveDataFieldLen_simps [simp]:
  "hc_pduConf (setDirectiveDataFieldLen len c) = hc_pduConf c"
  "fdc_directiveCode (setDirectiveDataFieldLen len c) = fdc_directiveCode c"
  "hc_pduDataFieldLen (setDirectiveDataFieldLen len c) = len + 1"
  by (simp_all add: setDirectiveDataFieldLen_def)

text \<open>
  What every directive shares: when the length field counts the parameters, the packet has the size
  the creator announces, and the creator writes header and code octet before the parameters.
\<close>

lemma whole_pdu_size:
  assumes "conf_ok (hc_pduConf c)" and "hc_pduDataFieldLen c = length params + 1"
  shows "hc_getWholePduSize (fdc_header c) = length (enc_directive BIG c @ params)"
  using length_enc_directive [OF assms(1), of BIG] assms(2) by (simp add: hc_getWholePduSize_def)

lemma fdc_serialize_whole:
  fixes params :: bytes
  assumes "conf_ok (hc_pduConf c)" and "hc_pduDataFieldLen c = length params + 1"
    and "n + hc_getWholePduSize (fdc_header c) \<le> m"
  shows "fdc_serialize BIG c (out, n) m = (OK, out @ enc_directive BIG c, n + length (enc_directive BIG c))"
  using assms whole_pdu_size [OF assms(1,2)] by (intro fdc_serialize_fits) simp_all

lemma reads_directive_source:
  assumes "reads_directive c params r"
  shows "drop (fdr_getHeaderSize r) (the (rd_rawPtr r)) = params"
    and "rd_getWholePduSize r - fdr_getHeaderSize r = length params"
  using assms by (simp_all add: reads_directive_def)

section \<open>Negative acknowledgements are read back\<close>

lemma ser_request_eq: "ser_request e = ser_pair (fs_serialize e) (fs_serialize e)"
  by (simp add: fun_eq_iff ser_request_def ser_pair_def)

interpretation seg_request: codec "enc_pair (enc_fs e) (enc_fs e)" "ser_request e"
  "deser_pair (\<lambda>src. case fs_deSerialize e fs_default src of (r, f, src) \<Rightarrow> (r, Some f, src))
     (\<lambda>src. case fs_deSerialize e fs_default src of (r, f, src) \<Rightarrow> (r, Some f, src))"
  "\<lambda>p. fs_small (fst p) \<and> fs_small (snd p)" for e
  unfolding ser_request_eq by (rule codec_pair [OF file_size.codec_axioms file_size.codec_axioms])

abbreviation enc_requests :: "SegmentRequest list \<Rightarrow> bytes" where
  "enc_requests qs \<equiv> concat (map (enc_pair (enc_fs BIG) (enc_fs BIG)) qs)"

definition small_request :: "SegmentRequest \<Rightarrow> bool" where
  "small_request q \<longleftrightarrow> fs_small (fst q) \<and> fs_small (snd q)"

definition normal_request :: "SegmentRequest \<Rightarrow> bool" where
  "normal_request q \<longleftrightarrow> \<not> fs_largeFile (fst q) \<and> \<not> fs_largeFile (snd q)"

lemma enc_pair_Pair: "enc_pair f g (a, b) = f a @ g b"
  by (simp add: enc_pair_def)

lemma length_enc_fs_small [simp]: "fs_small f \<Longrightarrow> length (enc_fs e f) = 4"
  by (simp add: length_enc_fs fs_getSerializedSize_def fs_small_def)

lemma length_enc_requests [simp]:
  "list_all small_request qs \<Longrightarrow> length (enc_requests qs) = 8 * length qs"
  by (induction qs) (simp_all add: enc_pair_def small_request_def)

lemma nak_loop_reads:
  assumes "list_all small_request xs" and "idx + length xs \<le> maxN" and "maxN \<le> length qs"
    and "list_all normal_request qs"
  shows "nak_loop maxN idx qs (enc_requests xs, 8 * length xs) OK =
    (OK, memcpy_at qs idx xs, Some (idx + length xs))"
  using assms
proof (induction xs arbitrary: idx qs)
  case Nil
  then show ?case by (simp add: nak_loop.simps)
next
  case (Cons x xs)
  obtain a b where x: "x = (a, b)" by (cases x)
  have i: "idx < length qs" "idx \<noteq> maxN" using Cons.prems by simp_all
  have q: "\<not> fs_largeFile (fst (qs ! idx))" "\<not> fs_largeFile (snd (qs ! idx))"
    using Cons.prems i by (auto simp: list_all_length normal_request_def)
  have s: "fs_small a" "fs_small b" using Cons.prems by (simp_all add: x small_request_def)
  let ?qs = "qs[idx := (a, b)]"
  have "list_all normal_request ?qs"
    using Cons.prems s by (auto simp: list_all_length normal_request_def nth_list_update fs_small_def)
  with Cons.prems have IH: "nak_loop maxN (idx + 1) ?qs (enc_requests xs, 8 * length xs) OK =
      (OK, memcpy_at ?qs (idx + 1) xs, Some (idx + 1 + length xs))"
    by (intro Cons.IH) simp_all
  have "memcpy_at ?qs (idx + 1) xs = memcpy_at qs idx (x # xs)"
    using i Cons.prems by (intro nth_equalityI) (auto simp: nth_memcpy_at x nth_list_update nth_Cons')
  with IH i q s show ?case
    by (simp add: nak_loop.simps [of maxN idx] x enc_pair_Pair fs_deSerialize_enc Let_def)
qed

text \<open>What a negative acknowledgement says.\<close>

definition nak_requests :: "NakInfo \<Rightarrow> SegmentRequest list" where
  "nak_requests i = (if hasSegmentRequests i then take (ni_segmentRequestsLen i) (the (ni_segmentRequests i)) else [])"

definition nak_normal :: "NakInfo \<Rightarrow> bool" where
  "nak_normal i \<longleftrightarrow> fs_small (ni_startOfScope i) \<and> fs_small (ni_endOfScope i) \<and>
     list_all small_request (nak_requests i) \<and>
     (ni_segmentRequests i \<noteq> None \<longrightarrow> ni_segmentRequestsLen i \<le> length (the (ni_segmentRequests i)))"

text \<open>An object with room for \<open>k\<close> requests of normal files.\<close>

definition nak_holds :: "nat \<Rightarrow> NakInfo \<Rightarrow> bool" where
  "nak_holds k i \<longleftrightarrow> \<not> fs_largeFile (ni_startOfScope i) \<and> \<not> fs_largeFile (ni_endOfScope i) \<and>
     k \<le> ni_maxSegmentRequestsLen i \<and>
     (case ni_segmentRequests i of
        None \<Rightarrow> k = 0
      | Some qs \<Rightarrow> ni_maxSegmentRequestsLen i \<le> length qs \<and> list_all normal_request qs)"

definition enc_nak :: "NakInfo \<Rightarrow> bytes" where
  "enc_nak i = enc_fs BIG (ni_startOfScope i) @ enc_fs BIG (ni_endOfScope i) @ enc_requests (nak_requests i)"

lemma length_nak_requests:
  "nak_normal i \<Longrightarrow> length (nak_requests i) = (if hasSegmentRequests i then ni_segmentRequestsLen i else 0)"
  by (auto simp: nak_normal_def nak_requests_def hasSegmentRequests_def)

lemma length_enc_nak:
  assumes "nak_normal i"
  shows "length (enc_nak i) = ni_getSerializedSize False i"
  using assms length_nak_requests [OF assms]
  by (auto simp: nak_normal_def enc_nak_def ni_getSerializedSize_def simp del: length_concat)

lemma nak_serialize_fits:
  assumes conf: "conf_ok conf" "\<not> pc_largeFile conf" and i: "nak_normal i"
    and fits: "n + hc_getWholePduSize (fdc_header (nak_creator conf i)) \<le> m"
  defines "pdu \<equiv> enc_directive BIG (nak_creator conf i) @ enc_nak i"
  shows "nak_serialize BIG (nak_creator conf i) i (out, n) m = (OK, out @ pdu, n + length pdu)"
proof -
  let ?c = "nak_creator conf i" and ?d = "enc_directive BIG (nak_creator conf i)"
  have len: "hc_pduDataFieldLen ?c = length (enc_nak i) + 1" and conf': "conf_ok (hc_pduConf ?c)"
    using conf length_enc_nak [OF i] by (simp_all add: nak_creator_def nak_updateDirectiveFieldLen_def)
  have "n + length (?d @ enc_nak i) \<le> m" using fits whole_pdu_size [OF conf' len] by simp
  moreover have sm: "fs_small (ni_startOfScope i)" "fs_small (ni_endOfScope i)"
      "list_all small_request (nak_requests i)"
    using i by (simp_all add: nak_normal_def)
  ultimately show ?thesis
    using fdc_serialize_whole [OF conf' len fits]
      file_size.ser_fits [of "n + length ?d" BIG "ni_startOfScope i" m "out @ ?d"]
      file_size.ser_fits [of "n + length ?d + 4" BIG "ni_endOfScope i" m "out @ ?d @ enc_fs BIG (ni_startOfScope i)"]
      seg_request.ser_all_fits [of "n + length ?d + 8" BIG "nak_requests i" m
        "out @ ?d @ enc_fs BIG (ni_startOfScope i) @ enc_fs BIG (ni_endOfScope i)"]
    by (auto simp: nak_serialize_def pdu_def enc_nak_def nak_requests_def add.assoc simp del: length_concat)
qed

lemma nak_requests_update [simp]:
  "nak_requests (x\<lparr>ni_segmentRequests := Some l, ni_segmentRequestsLen := k\<rparr>) = take k l"
  by (simp add: nak_requests_def hasSegmentRequests_def)

lemma nak_parse_enc:
  assumes r: "fdr_parseData r0 = (OK, r)" "reads_directive c (enc_nak i) r"
    and i: "nak_normal i" and j: "nak_holds (length (nak_requests i)) j"
  shows "\<exists>j'. nak_parseData r0 j = (OK, r, j') \<and> ni_startOfScope j' = ni_startOfScope i \<and>
    ni_endOfScope j' = ni_endOfScope i \<and> nak_requests j' = nak_requests i"
proof -
  have small: "fs_small (ni_startOfScope i)" "fs_small (ni_endOfScope i)" "list_all small_request (nak_requests i)"
    using i by (simp_all add: nak_normal_def)
  have large: "\<not> fs_largeFile (ni_startOfScope j)" "\<not> fs_largeFile (ni_endOfScope j)"
    using j by (simp_all add: nak_holds_def)
  let ?q = "enc_requests (nak_requests i)" and ?k = "length (nak_requests i)"
  have len: "length (enc_nak i) = 8 + 8 * ?k"
    using small by (simp add: enc_nak_def del: length_concat)
  have d1: "fs_deSerialize BIG (ni_startOfScope j) (enc_nak i, length (enc_nak i)) =
      (OK, ni_startOfScope i, enc_fs BIG (ni_endOfScope i) @ ?q, 4 + 8 * ?k)"
    unfolding len enc_nak_def using small large by (simp add: fs_deSerialize_enc)
  have d2: "fs_deSerialize BIG (ni_endOfScope j) (enc_fs BIG (ni_endOfScope i) @ ?q, 4 + 8 * ?k) =
      (OK, ni_endOfScope i, ?q, 8 * ?k)"
    using small large by (simp add: fs_deSerialize_enc)
  note src = reads_directive_source [OF r(2)]
  show ?thesis
  proof (cases "?k = 0")
    case True
    then show ?thesis
      using r(1) src d1 d2 len
      by (simp add: nak_parseData_def Let_def nak_requests_def hasSegmentRequests_def)
  next
    case False
    with j obtain qs where qs: "ni_segmentRequests j = Some qs" and m: "ni_maxSegmentRequestsLen j \<le> length qs"
      "list_all normal_request qs" "?k \<le> ni_maxSegmentRequestsLen j"
      by (auto simp: nak_holds_def split: option.splits)
    have loop: "nak_loop (ni_maxSegmentRequestsLen j) 0 qs (?q, 8 * ?k) OK =
        (OK, memcpy_at qs 0 (nak_requests i), Some ?k)"
      using nak_loop_reads [OF small(3), of 0] m by simp
    have "take ?k (memcpy_at qs 0 (nak_requests i)) = nak_requests i"
      by (simp add: memcpy_at_def)
    moreover have "0 < ni_maxSegmentRequestsLen j" "\<not> rd_getWholePduSize r \<le> fdr_getHeaderSize r"
      using False m src(2) len by linarith+
    ultimately show ?thesis
      using False qs loop r(1) src d1 d2 len
      by (simp add: nak_parseData_def Let_def canHoldSegmentRequests_def)
  qed
qed

text \<open>
  Negative acknowledgements of normal files survive writing and reading: the creator announces the
  size of what it writes and succeeds when that fits; the reader, into an object with room for the
  segment requests, returns both ends of the scope and the same segment requests in the same order.
\<close>
theorem nak_pdu_roundtrip:
  assumes "conf_ok conf" and "\<not> pc_largeFile conf" and "nak_normal i"
    and "ni_getSerializedSize False i + 1 < 65536"
    and "n + hc_getWholePduSize (fdc_header (nak_creator conf i)) \<le> m"
    and "nak_holds (length (nak_requests i)) j"
  shows "\<exists>pdu r j'. nak_serialize BIG (nak_creator conf i) i (out, n) m = (OK, out @ pdu, n + length pdu) \<and>
    length pdu = hc_getWholePduSize (fdc_header (nak_creator conf i)) \<and>
    nak_parseData (fdr_new (Some pdu) (length pdu)) j = (OK, r, j') \<and>
    fdr_fileDirective r = NAK \<and> conf_equal (fillConfig r cfg) conf \<and>
    ni_startOfScope j' = ni_startOfScope i \<and> ni_endOfScope j' = ni_endOfScope i \<and>
    nak_requests j' = nak_requests i"
proof -
  let ?c = "nak_creator conf i" and ?pdu = "enc_directive BIG (nak_creator conf i) @ enc_nak i"
  have c: "hc_pduDataFieldLen ?c = length (enc_nak i) + 1" "conf_ok (hc_pduConf ?c)"
      "length (enc_nak i) + 1 < 65536" "fdc_directiveCode ?c = NAK" "hc_pduConf ?c = conf"
    using assms length_enc_nak [OF assms(3)] by (simp_all add: nak_creator_def nak_updateDirectiveFieldLen_def)
  then obtain r where r: "fdr_parseData (fdr_new (Some ?pdu) (length ?pdu)) = (OK, r)"
      "reads_directive ?c (enc_nak i) r"
    using fdr_parse_directive [of ?c "enc_nak i"] by auto
  with nak_parse_enc [OF r assms(3,6)] c whole_pdu_size [OF c(2,1)] nak_serialize_fits [OF assms(1-3,5), of out]
  show ?thesis by (auto simp: reads_directive_def reads_header_def)
qed

theorem nak_pdu_roundtrip_witness:
  "\<exists>pdu. nak_serialize BIG
      (nak_creator (pc_new (vlf_new 1 1) (vlf_new 1 2) ACKNOWLEDGED (vlf_new 1 3) False False TOWARDS_SENDER)
        (setSegmentRequests (Some [(fs_new 10 False, fs_new 20 False)]) (Some 1) (Some 1)
          (ni_new (fs_new 0 False) (fs_new 100 False))))
      (setSegmentRequests (Some [(fs_new 10 False, fs_new 20 False)]) (Some 1) (Some 1)
        (ni_new (fs_new 0 False) (fs_new 100 False))) ([], 0) 24 = (OK, pdu, 24)"
proof -
  let ?conf = "pc_new (vlf_new 1 1) (vlf_new 1 2) ACKNOWLEDGED (vlf_new 1 3) False False TOWARDS_SENDER"
  let ?i = "setSegmentRequests (Some [(fs_new 10 False, fs_new 20 False)]) (Some 1) (Some 1)
          (ni_new (fs_new 0 False) (fs_new 100 False))"
  have w: "vlf_width (vlf_new 1 1) = 1" "vlf_width (vlf_new 1 2) = 1" "vlf_width (vlf_new 1 3) = 1"
    by (rule vlf_new_fits; simp add: width_ok_def)+
  then have conf: "conf_ok ?conf" "\<not> pc_largeFile ?conf"
    by (simp_all add: pc_new_def conf_ok_def width_ok_def)
  have f: "fs_new v False = \<lparr>fs_fileSize = v, fs_largeFile = False\<rparr>" for v
    by (simp add: fs_new_def setFileSize_def fs_default_def Let_def)
  have i: "nak_normal ?i" "ni_getSerializedSize False ?i = 16" "nak_holds (length (nak_requests ?i)) ?i"
    by (simp_all add: nak_normal_def setSegmentRequests_def ni_new_def f fs_small_def nak_requests_def
        hasSegmentRequests_def small_request_def ni_getSerializedSize_def nak_holds_def normal_request_def)
  have sz: "hc_getWholePduSize (fdc_header (nak_creator ?conf ?i)) = 24"
    using i(2) w by (simp add: hc_getWholePduSize_def hc_getSerializedSize_def nak_creator_def
        nak_updateDirectiveFieldLen_def pc_new_def)
  then have "0 + hc_getWholePduSize (fdc_header (nak_creator ?conf ?i)) \<le> 24"
    "ni_getSerializedSize False ?i + 1 < 65536"
    using i(2) by simp_all
  from nak_pdu_roundtrip [OF conf i(1) this(2,1) i(3), where out = "[]" and cfg = pc_default] sz show ?thesis
    by (auto simp del: One_nat_def)
qed

section \<open>File data are read back\<close>

text \<open>The contents of a file data packet, and those a packet of a normal file can carry.\<close>

definition fd_content :: "FileDataInfo \<Rightarrow> bytes" where
  "fd_content i = take (fd_fileSize i) (the (fd_fileData i))"

definition fd_meta :: "FileDataInfo \<Rightarrow> bytes" where
  "fd_meta i = take (fd_segmentMetadataLen i) (the (fd_segmentMetadata i))"

definition fd_ok :: "FileDataInfo \<Rightarrow> bool" where
  "fd_ok i \<longleftrightarrow> fs_small (fd_offset i) \<and> 0 < fd_fileSize i \<and> fd_fileSize i \<le> length (the (fd_fileData i)) \<and>
     (fd_segmentMetadataFlag i \<longrightarrow> 0 < fd_segmentMetadataLen i \<and> fd_segmentMetadataLen i \<le> 63 \<and>
        fd_segmentMetadataLen i \<le> length (the (fd_segmentMetadata i)) \<and> fd_recContState i < 4)"

definition enc_fd_meta :: "FileDataInfo \<Rightarrow> bytes" where
  "enc_fd_meta i =
     (if fd_segmentMetadataFlag i then
        (push_bit 6 (fd_recContState i) OR of_nat (fd_segmentMetadataLen i)) # fd_meta i
      else [])"

definition enc_fdata :: "FileDataInfo \<Rightarrow> bytes" where
  "enc_fdata i = enc_fd_meta i @ enc_fs BIG (fd_offset i) @ fd_content i"

lemma length_enc_fdata: "fd_ok i \<Longrightarrow> length (enc_fdata i) = fd_getSerializedSize False i"
  by (auto simp: enc_fdata_def enc_fd_meta_def fd_meta_def fd_content_def fd_ok_def fd_getSerializedSize_def)

lemma meta_octet:
  fixes rec :: u8
  assumes "rec < 4" and "len \<le> 63"
  shows "drop_bit 6 (push_bit 6 rec OR of_nat len) AND 3 = rec"
    and "unat ((push_bit 6 rec OR of_nat len) AND 0x3F) = len"
proof -
  have r: "take_bit 2 rec = rec" using assms(1)
    by (simp add: word_less_nat_alt word_unat_eq_iff unsigned_take_bit_eq take_bit_nat_eq_self)
  define w :: u8 where "w = of_nat len"
  have l: "take_bit 6 w = w" unfolding w_def using assms(2)
    by (simp add: word_unat_eq_iff unsigned_take_bit_eq unat_of_nat_u8 take_bit_nat_eq_self)
  have br: "n < 2" if "bit rec n" for n using r that by (metis bit_take_bit_iff)
  have bl: "n < 6" if "bit w n" for n using l that by (metis bit_take_bit_iff)
  have m: "(3 :: u8) = mask 2" "(0x3F :: u8) = mask 6" by (simp_all add: mask_eq_exp_minus_1)
  show "drop_bit 6 (push_bit 6 rec OR of_nat len) AND 3 = rec"
    unfolding m w_def [symmetric] by (rule bit_word_eqI) (auto simp: bit_simps dest: br bl)
  have "(push_bit 6 rec OR of_nat len) AND 0x3F = (of_nat len :: u8)"
    unfolding m w_def [symmetric] by (rule bit_word_eqI) (auto simp: bit_simps dest: bl)
  then show "unat ((push_bit 6 rec OR of_nat len) AND 0x3F) = len"
    using assms(2) by (simp add: unat_of_nat_u8)
qed

lemma fdata_creator_simps [simp]:
  "hc_pduConf (fdata_creator conf i) = conf"
  "hc_segmentMetadataFlag (fdata_creator conf i) = fd_segmentMetadataFlag i"
  "hc_segmentationCtrl (fdata_creator conf i) = fd_segCtrl i"
  "hc_pduDataFieldLen (fdata_creator conf i) = fd_getSerializedSize (pc_largeFile conf) i"
  "hc_pduType (fdata_creator conf i) = FILE_DATA"
  by (simp_all add: fdata_creator_def fdata_update_def hc_setPduDataFieldLen_def hc_new_def
      hc_setSegmentationControl_def hc_setSegmentMetadataFlag_def)

lemma fs_small_update [simp]: "fs_small f \<Longrightarrow> f\<lparr>fs_largeFile := False\<rparr> = f"
  by (cases f) (simp add: fs_small_def)

lemma fdata_serialize_fits:
  assumes conf: "conf_ok conf" "\<not> pc_largeFile conf" and i: "fd_ok i"
    and fits: "n + fdata_getSerializedSize (fdata_creator conf i) i \<le> m"
  defines "pdu \<equiv> enc_header BIG (fdata_creator conf i) @ enc_fdata i"
  shows "fdata_serialize BIG (fdata_creator conf i) i (out, n) m = (OK, i, out @ pdu, n + length pdu)"
proof -
  let ?h = "enc_header BIG (fdata_creator conf i)" and ?m = "enc_fd_meta i"
  have lh: "length ?h = hc_getSerializedSize (fdata_creator conf i)"
    using conf by (intro length_enc_header) simp
  have le: "n + length ?h + length (enc_fdata i) \<le> m"
    using fits lh length_enc_fdata [OF i] conf by (simp add: fdata_getSerializedSize_def)
  have s: "fs_small (fd_offset i)" using i by (simp add: fd_ok_def)
  have "hc_serialize BIG (fdata_creator conf i) (out, n) m = (OK, out @ ?h, n + length ?h)"
    using conf le by (intro hc_serialize_fits) simp_all
  moreover have "fs_serialize_as BIG False (fd_offset i) (out @ ?h @ ?m, n + length ?h + length ?m) m =
      (OK, fd_offset i, out @ ?h @ ?m @ enc_fs BIG (fd_offset i), n + length ?h + length ?m + 4)"
    using le s file_size.ser_fits [of "n + length ?h + length ?m" BIG "fd_offset i" m "out @ ?h @ ?m"]
    by (simp add: fs_serialize_as_def Let_def enc_fdata_def)
  moreover have "length (fd_content i) = fd_fileSize i"
      "fd_segmentMetadataFlag i \<Longrightarrow> length (fd_meta i) = fd_segmentMetadataLen i"
    using i by (auto simp: fd_content_def fd_meta_def fd_ok_def)
  ultimately show ?thesis
    using le fits conf s
    by (cases "fd_segmentMetadataFlag i")
      (simp_all add: fdata_serialize_def Let_def pdu_def enc_fdata_def enc_fd_meta_def
        flip: fd_content_def fd_meta_def)
qed

lemma fd_read_simps [simp]:
  "fd_content (x\<lparr>fd_fileData := Some b, fd_fileSize := n\<rparr>) = take n b"
  "fd_meta (x\<lparr>fd_fileData := a, fd_fileSize := n\<rparr>) = fd_meta x"
  "fd_meta (x\<lparr>fd_offset := f\<rparr>) = fd_meta x"
  "fd_meta (x\<lparr>fd_segmentMetadataLen := n, fd_segmentMetadata := Some b\<rparr>) = take n b"
  by (simp_all add: fd_content_def fd_meta_def)

lemma fdata_parse_enc:
  assumes r: "rd_parseData r0 = (OK, r)" and hdr: "reads_header (fdata_creator conf i) r"
    and raw: "drop (rd_getHeaderSize r) (the (rd_rawPtr r)) = enc_fdata i @ rest"
    and conf: "\<not> pc_largeFile conf" and i: "fd_ok i" and e: "fdt_endianness r = BIG"
    and j: "\<not> fs_largeFile (fd_offset j)"
  shows "\<exists>j'. fdata_parseData r0 j = (OK, r, j') \<and> fd_offset j' = fd_offset i \<and>
    fd_content j' = fd_content i \<and> fd_fileSize j' = fd_fileSize i \<and>
    (fd_segmentMetadataFlag i \<longrightarrow> fd_segmentMetadataFlag j' \<and> fd_meta j' = fd_meta i \<and>
       fd_recContState j' = fd_recContState i)"
proof -
  have f: "rd_hasSegmentMetadataFlag r = fd_segmentMetadataFlag i" and
    w: "rd_getWholePduSize r - rd_getHeaderSize r = length (enc_fdata i)"
    using hdr conf length_enc_fdata [OF i] by (simp_all add: reads_header_def rd_getWholePduSize_def)
  have s: "fs_small (fd_offset i)" "0 < fd_fileSize i" "length (fd_content i) = fd_fileSize i"
    using i by (simp_all add: fd_ok_def fd_content_def)
  have d: "fdata_parse_data BIG k (enc_fs BIG (fd_offset i) @ fd_content i @ rest, 4 + fd_fileSize i) =
      (OK, k\<lparr>fd_offset := fd_offset i, fd_fileData := Some (fd_content i @ rest), fd_fileSize := fd_fileSize i\<rparr>)"
    if "\<not> fs_largeFile (fd_offset k)" for k
    using that s by (simp add: fdata_parse_data_def fs_deSerialize_enc setFileData_def Let_def)
  have gt: "\<not> rd_getWholePduSize r \<le> rd_getHeaderSize r"
    using w s by (simp add: enc_fdata_def)
  show ?thesis
  proof (cases "fd_segmentMetadataFlag i")
    case False
    then have "enc_fdata i = enc_fs BIG (fd_offset i) @ fd_content i"
      by (simp add: enc_fdata_def enc_fd_meta_def)
    with False r raw f w s e d [OF j] gt show ?thesis
      by (simp add: fdata_parseData_def Let_def)
  next
    case True
    let ?b = "push_bit 6 (fd_recContState i) OR of_nat (fd_segmentMetadataLen i) :: u8"
    have m: "0 < fd_segmentMetadataLen i" "fd_segmentMetadataLen i \<le> 63" "fd_recContState i < 4"
        "length (fd_meta i) = fd_segmentMetadataLen i"
      using i True by (simp_all add: fd_ok_def fd_meta_def)
    have enc: "enc_fdata i = ?b # fd_meta i @ enc_fs BIG (fd_offset i) @ fd_content i"
      using True by (simp add: enc_fdata_def enc_fd_meta_def)
    have "length (enc_fdata i) - 1 - fd_segmentMetadataLen i = 4 + fd_fileSize i"
      using s m by (simp add: enc)
    with True r raw f w s e j m meta_octet [OF m(3,2)] d gt show ?thesis
      by (simp add: fdata_parseData_def Let_def enc)
  qed
qed

text \<open>
  C23: file data packets of normal files survive writing and reading. For at least one byte of file data
  and, if the packet has segment metadata, one to 63 bytes of it, \<open>FileDataCreator\<close> succeeds when the
  packet fits, and \<open>FileDataReader\<close> on its bytes, whatever follows them, returns the offset, the file
  data, the segment metadata with its continuation state, and the configuration of the header.
\<close>
theorem file_data_pdu_roundtrip:
  assumes "conf_ok conf" and "\<not> pc_largeFile conf" and "fd_ok i"
    and "fd_getSerializedSize False i < 65536"
    and "n + fdata_getSerializedSize (fdata_creator conf i) i \<le> m"
    and "\<not> fs_largeFile (fd_offset j)"
  shows "\<exists>pdu r j'. fdata_serialize BIG (fdata_creator conf i) i (out, n) m = (OK, i, out @ pdu, n + length pdu) \<and>
    length pdu = fdata_getSerializedSize (fdata_creator conf i) i \<and>
    fdata_parseData (fdt_new (Some (pdu @ rest)) (length (pdu @ rest))) j = (OK, r, j') \<and>
    rd_getPduType r = FILE_DATA \<and> conf_equal (fillConfig r cfg) conf \<and>
    rd_getSegmentationControl r = fd_segCtrl i \<and>
    fd_offset j' = fd_offset i \<and> fd_content j' = fd_content i \<and> fd_fileSize j' = fd_fileSize i \<and>
    (fd_segmentMetadataFlag i \<longrightarrow> fd_segmentMetadataFlag j' \<and> fd_meta j' = fd_meta i \<and>
       fd_recContState j' = fd_recContState i)"
proof -
  let ?h = "fdata_creator conf i" and ?pdu = "enc_header BIG (fdata_creator conf i) @ enc_fdata i"
  let ?raw = "enc_header BIG (fdata_creator conf i) @ enc_fdata i @ rest"
  let ?rd = "fdt_new (Some ?raw) (length ?raw)"
  let ?r = "parsed_header ?h (enc_fdata i @ rest) ?raw ?rd"
  have c: "conf_ok (hc_pduConf ?h)" "hc_pduDataFieldLen ?h < 65536"
    using assms by simp_all
  have b: "begins_with_header ?h (enc_fdata i @ rest) ?raw" by (simp add: begins_with_header_def)
  have lh: "length (enc_header BIG ?h) = hc_getSerializedSize ?h" by (rule length_enc_header [OF c(1)])
  have "7 \<le> hc_getSerializedSize ?h"
    using assms(1) by (auto simp: conf_ok_def width_ok_def hc_getSerializedSize_def)
  with lh have raw: "rd_rawPtr ?rd = Some ?raw" "7 \<le> rd_maxSize ?rd" "fdt_endianness ?rd = BIG"
    by (simp_all add: fdt_new_def rd_setData_def pdu_reader.defs)
  have p: "rd_parseData ?rd = (OK, ?r)" by (rule rd_parse_header [OF c b raw(1,2)])
  have hdr: "reads_header ?h ?r" by (rule parsed_header_reads [OF c b])
  then have "drop (rd_getHeaderSize ?r) (the (rd_rawPtr ?r)) = enc_fdata i @ rest"
    using raw(1) lh by (simp add: reads_header_def parsed_header_def)
  moreover have "fdt_endianness ?r = BIG" using raw(3) by (simp add: parsed_header_def)
  ultimately obtain j' where "fdata_parseData ?rd j = (OK, ?r, j')" "fd_offset j' = fd_offset i"
    "fd_content j' = fd_content i" "fd_fileSize j' = fd_fileSize i"
    "fd_segmentMetadataFlag i \<longrightarrow> fd_segmentMetadataFlag j' \<and> fd_meta j' = fd_meta i \<and>
       fd_recContState j' = fd_recContState i"
    using fdata_parse_enc [OF p hdr _ assms(2,3) _ assms(6)] by blast
  moreover have "length ?pdu = fdata_getSerializedSize ?h i"
    using lh length_enc_fdata [OF assms(3)] assms(2) by (simp add: fdata_getSerializedSize_def)
  ultimately show ?thesis
    using fdata_serialize_fits [OF assms(1-3,5), of out] hdr
    by (intro exI [of _ ?pdu] exI [of _ ?r] exI [of _ j']) (simp add: reads_header_def)
qed

theorem file_data_pdu_roundtrip_witness:
  "\<exists>pdu. fdata_serialize BIG
      (fdata_creator (pc_new (vlf_new 1 1) (vlf_new 1 2) ACKNOWLEDGED (vlf_new 1 3) False False TOWARDS_RECEIVER)
        (snd (addSegmentMetadataInfo 1 (Some [9]) 1 (fd_new (fs_new 16 False) (Some [1, 2, 3]) 3))))
      (snd (addSegmentMetadataInfo 1 (Some [9]) 1 (fd_new (fs_new 16 False) (Some [1, 2, 3]) 3))) ([], 0) 16 =
      (OK, snd (addSegmentMetadataInfo 1 (Some [9]) 1 (fd_new (fs_new 16 False) (Some [1, 2, 3]) 3)), pdu, 16)"
proof -
  let ?conf = "pc_new (vlf_new 1 1) (vlf_new 1 2) ACKNOWLEDGED (vlf_new 1 3) False False TOWARDS_RECEIVER"
  let ?i = "snd (addSegmentMetadataInfo 1 (Some [9]) 1 (fd_new (fs_new 16 False) (Some [1, 2, 3]) 3))"
  have w: "vlf_width (vlf_new 1 1) = 1" "vlf_width (vlf_new 1 2) = 1" "vlf_width (vlf_new 1 3) = 1"
    by (rule vlf_new_fits; simp add: width_ok_def)+
  then have conf: "conf_ok ?conf" "\<not> pc_largeFile ?conf"
    by (simp_all add: pc_new_def conf_ok_def width_ok_def)
  have f: "fs_new 16 False = \<lparr>fs_fileSize = 16, fs_largeFile = False\<rparr>"
    by (simp add: fs_new_def setFileSize_def fs_default_def Let_def)
  have i: "fd_ok ?i" "fd_getSerializedSize False ?i = 9" "\<not> fs_largeFile (fd_offset ?i)"
    by (simp_all add: fd_ok_def addSegmentMetadataInfo_def fd_new_def f fs_small_def fd_getSerializedSize_def)
  have sz: "fdata_getSerializedSize (fdata_creator ?conf ?i) ?i = 16"
    using i(2) w by (simp add: fdata_getSerializedSize_def hc_getSerializedSize_def pc_new_def)
  then have "0 + fdata_getSerializedSize (fdata_creator ?conf ?i) ?i \<le> 16" "fd_getSerializedSize False ?i < 65536"
    using i(2) by simp_all
  from file_data_pdu_roundtrip [OF conf i(1) this(2,1) i(3), where out = "[]" and cfg = pc_default and rest = "[7]"] sz
  show ?thesis by (auto simp del: One_nat_def)
qed

section \<open>Metadata are read back\<close>

text \<open>The file names and options of a metadata packet, and the packets of normal files.\<close>

definition mi_options :: "MetadataInfo \<Rightarrow> Tlv list" where
  "mi_options i = (if hasOptions i then take (mi_optionsLen i) (the (mi_optionsArray i)) else [])"

definition tlv_pair :: "Tlv \<Rightarrow> TlvType \<times> bytes" where
  "tlv_pair t = (tlv_type t, tlv_content t)"

definition mi_ok :: "MetadataInfo \<Rightarrow> bool" where
  "mi_ok i \<longleftrightarrow> fs_small (mi_fileSize i) \<and> mi_checksumType i < 16 \<and> lv_ready (mi_sourceFileName i) \<and>
     lv_ready (mi_destFileName i) \<and> list_all tlv_ready (mi_options i)"

text \<open>An object with room for \<open>k\<close> options.\<close>

definition mi_holds :: "nat \<Rightarrow> MetadataInfo \<Rightarrow> bool" where
  "mi_holds k i \<longleftrightarrow> \<not> fs_largeFile (mi_fileSize i) \<and> ba_serializeLength (lv_value (mi_sourceFileName i)) \<and>
     ba_serializeLength (lv_value (mi_destFileName i)) \<and> k \<le> mi_maxOptionsLen i \<and>
     (case mi_optionsArray i of
        None \<Rightarrow> k = 0
      | Some ts \<Rightarrow> mi_maxOptionsLen i \<le> length ts \<and> list_all (\<lambda>t. ba_serializeLength (tlv_value t)) ts)"

abbreviation enc_options :: "(TlvType \<times> bytes) list \<Rightarrow> bytes" where
  "enc_options ps \<equiv> concat (map (\<lambda>p. enc_tlv (fst p) (snd p)) ps)"

definition enc_metadata :: "MetadataInfo \<Rightarrow> bytes" where
  "enc_metadata i =
     (push_bit 6 (of_bool (mi_closureRequested i)) OR mi_checksumType i) # enc_fs BIG (mi_fileSize i)
     @ enc_lv (lv_content (mi_sourceFileName i)) @ enc_lv (lv_content (mi_destFileName i))
     @ enc_options (map tlv_pair (mi_options i))"

lemma sum_tlv_sizes:
  "list_all tlv_ready ts \<Longrightarrow>
     sum_list (map tlv_getSerializedSize ts) = length (enc_options (map tlv_pair ts))"
  by (induction ts) (simp_all add: tlv_size_ready tlv_pair_def)

lemma length_enc_metadata:
  assumes "mi_ok i"
  shows "length (enc_metadata i) = mi_getSerializedSize False i"
  using assms sum_tlv_sizes [of "mi_options i"]
  by (auto simp: mi_ok_def enc_metadata_def mi_getSerializedSize_def lv_size_ready mi_options_def
      simp del: length_concat)

lemma options_ser_loop:
  "list_all tlv_ready ts \<Longrightarrow> n + length (enc_options (map tlv_pair ts)) \<le> m \<Longrightarrow>
   ser_loop (tlv_serialize e) ts (out, n) m =
     (OK, out @ enc_options (map tlv_pair ts), n + length (enc_options (map tlv_pair ts)))"
proof (induction ts arbitrary: out n)
  case (Cons t ts)
  have "tlv_serialize e t (out, n) m =
      (OK, out @ enc_tlv (tlv_type t) (tlv_content t), n + length (enc_tlv (tlv_type t) (tlv_content t)))"
    using Cons.prems by (intro tlv_serialize_ready) (simp_all add: tlv_pair_def)
  with Cons.prems Cons.IH [of "n + length (enc_tlv (tlv_type t) (tlv_content t))"
      "out @ enc_tlv (tlv_type t) (tlv_content t)"]
  show ?case by (simp add: tlv_pair_def del: length_concat)
qed simp

lemma metadata_serialize_fits:
  assumes conf: "conf_ok conf" "\<not> pc_largeFile conf" and i: "mi_ok i"
    and fits: "n + hc_getWholePduSize (fdc_header (metadata_creator conf i)) \<le> m"
  defines "pdu \<equiv> enc_directive BIG (metadata_creator conf i) @ enc_metadata i"
  shows "metadata_serialize BIG (metadata_creator conf i) i (out, n) m = (OK, out @ pdu, n + length pdu)"
proof -
  let ?c = "metadata_creator conf i" and ?d = "enc_directive BIG (metadata_creator conf i)"
  let ?b = "push_bit 6 (of_bool (mi_closureRequested i)) OR mi_checksumType i :: u8"
  let ?s = "lv_content (mi_sourceFileName i)" and ?t = "lv_content (mi_destFileName i)"
  let ?f = "enc_fs BIG (mi_fileSize i)"
  have len: "hc_pduDataFieldLen ?c = length (enc_metadata i) + 1" and conf': "conf_ok (hc_pduConf ?c)"
    using conf length_enc_metadata [OF i] by (simp_all add: metadata_creator_def metadata_updateDirectiveFieldLen_def)
  have le: "n + length (?d @ enc_metadata i) \<le> m" using fits whole_pdu_size [OF conf' len] by simp
  have ok: "fs_small (mi_fileSize i)" "lv_ready (mi_sourceFileName i)" "lv_ready (mi_destFileName i)"
      "list_all tlv_ready (mi_options i)"
    using i by (simp_all add: mi_ok_def)
  define k where "k = n + length ?d + 1"
  have le': "k + 4 + Suc (length ?s) + Suc (length ?t) + length (enc_options (map tlv_pair (mi_options i))) \<le> m"
    using le ok(1) by (simp add: enc_metadata_def k_def del: length_concat)
  have 1: "fs_serialize BIG (mi_fileSize i) (out @ ?d @ [?b], k) m = (OK, out @ ?d @ [?b] @ ?f, k + 4)"
    using le' ok(1) file_size.ser_fits [of k BIG "mi_fileSize i" m "out @ ?d @ [?b]"] by simp
  have 2: "lv_serialize BIG (mi_sourceFileName i) (out @ ?d @ [?b] @ ?f, k + 4) m =
      (OK, (out @ ?d @ [?b] @ ?f) @ enc_lv ?s, k + 4 + Suc (length ?s))"
    using le' by (intro lv_serialize_ready ok) simp
  have 3: "lv_serialize BIG (mi_destFileName i) ((out @ ?d @ [?b] @ ?f) @ enc_lv ?s, k + 4 + Suc (length ?s)) m =
      (OK, ((out @ ?d @ [?b] @ ?f) @ enc_lv ?s) @ enc_lv ?t, k + 4 + Suc (length ?s) + Suc (length ?t))"
    using le' by (intro lv_serialize_ready ok) simp
  have 4: "ser_loop (tlv_serialize BIG) (mi_options i) (((out @ ?d @ [?b] @ ?f) @ enc_lv ?s) @ enc_lv ?t,
        k + 4 + Suc (length ?s) + Suc (length ?t)) m =
      (OK, (((out @ ?d @ [?b] @ ?f) @ enc_lv ?s) @ enc_lv ?t) @ enc_options (map tlv_pair (mi_options i)),
       k + 4 + Suc (length ?s) + Suc (length ?t) + length (enc_options (map tlv_pair (mi_options i))))"
    using le' by (intro options_ser_loop ok) simp
  have "\<not> k \<ge> m" using le' by simp
  then show ?thesis
    using fdc_serialize_whole [OF conf' len fits] 1 2 3 4 ok(1)
    by (cases "hasOptions i")
      (simp_all add: metadata_serialize_def pdu_def enc_metadata_def mi_options_def k_def del: length_concat)
qed

lemma metadata_loop_reads:
  assumes "list_all (\<lambda>p. fst p \<noteq> INVALID_TLV \<and> length (snd p) < 256) ps"
    and "idx + length ps \<le> maxN" and "maxN \<le> length ts"
    and "list_all (\<lambda>t. ba_serializeLength (tlv_value t)) ts"
  shows "\<exists>ts'. metadata_loop maxN idx ts (enc_options ps, length (enc_options ps)) OK =
      (OK, ts', Some (idx + length ps)) \<and> length ts' = length ts \<and> take idx ts' = take idx ts \<and>
      map tlv_pair (take (length ps) (drop idx ts')) = ps"
  using assms
proof (induction ps arbitrary: idx ts)
  case Nil
  then show ?case by (simp add: metadata_loop.simps)
next
  case (Cons p ps)
  have i: "idx < length ts" "\<not> maxN < idx" using Cons.prems by simp_all
  have p: "length (snd p) < 256" "fst p \<noteq> INVALID_TLV" "ba_serializeLength (tlv_value (ts ! idx))"
    using Cons.prems i by (auto simp: list_all_length)
  let ?n = "length (enc_options (p # ps))"
  obtain t where t: "tlv_deSerialize (ts ! idx) (enc_tlv (fst p) (snd p) @ enc_options ps, ?n) =
      (OK, t, enc_options ps, ?n - length (enc_tlv (fst p) (snd p)))"
      "tlv_type t = fst p" "tlv_content t = snd p" "ba_serializeLength (tlv_value t)"
    using tlv_deSerialize_enc [OF p(1,2) _ p(3), of ?n "enc_options ps"] by auto
  have rem: "?n - length (enc_tlv (fst p) (snd p)) = length (enc_options ps)" by simp
  have "list_all (\<lambda>t. ba_serializeLength (tlv_value t)) (ts[idx := t])"
    using Cons.prems(4) t(4) set_update_subset_insert [of ts idx t] by (auto simp: list_all_iff)
  then obtain ts' where ts': "metadata_loop maxN (idx + 1) (ts[idx := t]) (enc_options ps, length (enc_options ps)) OK =
      (OK, ts', Some (idx + 1 + length ps))" "length ts' = length ts"
      "take (idx + 1) ts' = take (idx + 1) (ts[idx := t])"
      "map tlv_pair (take (length ps) (drop (idx + 1) ts')) = ps"
    using Cons.IH [of "idx + 1" "ts[idx := t]"] Cons.prems by auto
  have nth: "ts' ! idx = t" using arg_cong [OF ts'(3), of "\<lambda>l. l ! idx"] i ts'(2) by simp
  have "take idx ts' = take idx ts"
    using arg_cong [OF ts'(3), of "take idx"] by (simp add: min_def)
  moreover have "drop idx ts' = t # drop (idx + 1) ts'"
    using i ts'(2) nth by (metis Cons_nth_drop_Suc Suc_eq_plus1)
  moreover have "metadata_loop maxN idx ts (enc_options (p # ps), ?n) OK = (OK, ts', Some (idx + length (p # ps)))"
    using i t(1) ts'(1) rem by (simp add: metadata_loop.simps [of maxN idx] Let_def del: length_concat)
  moreover have "tlv_pair t = p" using t(2,3) by (simp add: tlv_pair_def)
  ultimately show ?case using ts'(2,4) by auto
qed

lemma mi_options_update [simp]:
  "mi_options (x\<lparr>mi_optionsArray := Some l, mi_optionsLen := k\<rparr>) = take k l"
  by (simp add: mi_options_def hasOptions_def)

lemma metadata_options_reads:
  assumes i: "mi_ok i" and j: "mi_holds (length (mi_options i)) j"
  defines "os \<equiv> enc_options (map tlv_pair (mi_options i))"
  shows "\<exists>j'. metadata_options j (os, length os) OK = (OK, j') \<and>
    map tlv_pair (mi_options j') = map tlv_pair (mi_options i) \<and>
    mi_closureRequested j' = mi_closureRequested j \<and> mi_checksumType j' = mi_checksumType j \<and>
    mi_fileSize j' = mi_fileSize j \<and> mi_sourceFileName j' = mi_sourceFileName j \<and>
    mi_destFileName j' = mi_destFileName j"
proof (cases "mi_options i = []")
  case True
  then show ?thesis by (simp add: os_def metadata_options_def mi_options_def hasOptions_def Let_def)
next
  case False
  let ?k = "length (mi_options i)"
  from False j obtain ts where ts: "mi_optionsArray j = Some ts" "mi_maxOptionsLen j \<le> length ts"
      "list_all (\<lambda>t. ba_serializeLength (tlv_value t)) ts" "?k \<le> mi_maxOptionsLen j"
    by (auto simp: mi_holds_def split: option.splits)
  have ps: "list_all (\<lambda>p. fst p \<noteq> INVALID_TLV \<and> length (snd p) < 256) (map tlv_pair (mi_options i))"
    using i length_tlv_content by (auto simp: mi_ok_def tlv_pair_def list_all_iff tlv_ready_def)
  obtain ts' where loop: "metadata_loop (mi_maxOptionsLen j) 0 ts (os, length os) OK = (OK, ts', Some ?k)"
      and eq: "map tlv_pair (take ?k ts') = map tlv_pair (mi_options i)"
    using metadata_loop_reads [OF ps, of 0 "mi_maxOptionsLen j" ts] ts
    by (auto simp: os_def simp del: length_concat)
  have "0 < mi_maxOptionsLen j" "0 < length os"
    using False ts(4) by (cases "mi_options i"; simp add: os_def enc_tlv_def)+
  then show ?thesis
    using ts(1) loop eq by (simp add: metadata_options_def canHoldOptions_def Let_def)
qed

lemma metadata_octet:
  assumes "(cs :: u8) < 16"
  shows "(drop_bit 6 (push_bit 6 (of_bool b) OR cs) AND 1 \<noteq> 0) = b"
    and "(push_bit 6 (of_bool b) OR cs) AND 0x0F = cs"
proof -
  have t: "take_bit 4 cs = cs" using assms
    by (simp add: word_less_nat_alt word_unat_eq_iff unsigned_take_bit_eq take_bit_nat_eq_self)
  have c: "n < 4" if "bit cs n" for n using t that by (metis bit_take_bit_iff)
  have m: "(0x0F :: u8) = mask 4" by (simp add: mask_eq_exp_minus_1)
  have "drop_bit 6 (push_bit 6 (of_bool b) OR cs) AND 1 = (of_bool b :: u8)"
    by (rule bit_word_eqI) (auto simp: bit_simps dest: c)
  then show "(drop_bit 6 (push_bit 6 (of_bool b) OR cs) AND 1 \<noteq> 0) = b" by simp
  show "(push_bit 6 (of_bool b) OR cs) AND 0x0F = cs"
    unfolding m by (rule bit_word_eqI) (auto simp: bit_simps dest: c)
qed

lemma metadata_parse_enc:
  assumes r: "fdr_parseData rd = (OK, r)" "reads_directive c (enc_metadata i) r"
    and i: "mi_ok i" and j: "mi_holds (length (mi_options i)) j"
  shows "\<exists>j'. metadata_parseData rd j = (OK, r, j') \<and>
    mi_fileSize j' = mi_fileSize i \<and> mi_closureRequested j' = mi_closureRequested i \<and>
    mi_checksumType j' = mi_checksumType i \<and>
    lv_content (mi_sourceFileName j') = lv_content (mi_sourceFileName i) \<and>
    lv_content (mi_destFileName j') = lv_content (mi_destFileName i) \<and>
    map tlv_pair (mi_options j') = map tlv_pair (mi_options i)"
proof -
  let ?s = "lv_content (mi_sourceFileName i)" and ?t = "lv_content (mi_destFileName i)"
  let ?o = "enc_options (map tlv_pair (mi_options i))"
  have ok: "fs_small (mi_fileSize i)" "lv_ready (mi_sourceFileName i)" "lv_ready (mi_destFileName i)"
      "mi_checksumType i < 16"
    using i by (simp_all add: mi_ok_def)
  define k where "k = Suc (length ?s) + (Suc (length ?t) + length ?o)"
  have len: "length (enc_metadata i) = 5 + k"
    using ok(1) by (simp add: enc_metadata_def k_def del: length_concat)
  have f: "fs_deSerialize BIG (mi_fileSize j) (enc_fs BIG (mi_fileSize i) @ enc_lv ?s @ enc_lv ?t @ ?o, 4 + k) =
      (OK, mi_fileSize i, enc_lv ?s @ enc_lv ?t @ ?o, k)"
    using ok(1) j by (simp add: fs_deSerialize_enc mi_holds_def)
  obtain ls where ls: "lv_deSerialize (mi_sourceFileName j) (enc_lv ?s @ enc_lv ?t @ ?o, k) =
      (OK, ls, enc_lv ?t @ ?o, k - Suc (length ?s))" "lv_content ls = ?s" "ba_serializeLength (lv_value ls)"
    using lv_deSerialize_enc [OF length_lv_content [OF ok(2)], of k "mi_sourceFileName j" "enc_lv ?t @ ?o"] j
    by (auto simp: k_def mi_holds_def)
  obtain lt where lt: "lv_deSerialize (mi_destFileName j) (enc_lv ?t @ ?o, k - Suc (length ?s)) =
      (OK, lt, ?o, length ?o)" "lv_content lt = ?t" "ba_serializeLength (lv_value lt)"
    using lv_deSerialize_enc [OF length_lv_content [OF ok(3)], of "k - Suc (length ?s)" "mi_destFileName j" ?o] j
    by (auto simp: k_def mi_holds_def simp del: length_concat)
  let ?j = "j\<lparr>mi_closureRequested := mi_closureRequested i, mi_checksumType := mi_checksumType i,
    mi_fileSize := mi_fileSize i, mi_sourceFileName := ls, mi_destFileName := lt\<rparr>"
  have "mi_holds (length (mi_options i)) ?j"
    using j ls(3) lt(3) ok(1) by (auto simp: mi_holds_def fs_small_def split: option.splits)
  from metadata_options_reads [OF i this] obtain j' where
    "metadata_options ?j (?o, length ?o) OK = (OK, j')" "map tlv_pair (mi_options j') = map tlv_pair (mi_options i)"
    "mi_closureRequested j' = mi_closureRequested i" "mi_checksumType j' = mi_checksumType i"
    "mi_fileSize j' = mi_fileSize i" "mi_sourceFileName j' = ls" "mi_destFileName j' = lt"
    by auto
  moreover have "\<not> rd_getWholePduSize r \<le> fdr_getHeaderSize r"
    using reads_directive_source(2) [OF r(2)] len by linarith
  moreover have "hd (enc_metadata i) = push_bit 6 (of_bool (mi_closureRequested i)) OR mi_checksumType i"
    "drop 1 (enc_metadata i) = enc_fs BIG (mi_fileSize i) @ enc_lv ?s @ enc_lv ?t @ ?o"
    by (simp_all add: enc_metadata_def)
  moreover have "fdr_endianness r = BIG" using r(2) by (simp add: reads_directive_def)
  ultimately show ?thesis
    using r(1) reads_directive_source [OF r(2)] f ls(1,2) lt(1,2) metadata_octet [OF ok(4)] len
    by (simp add: metadata_parseData_def Let_def)
qed

text \<open>
  C22: metadata packets of normal files survive writing and reading: file size, closure request, checksum
  type, both file names and all options come back, in order, when the object read into has room for
  the options.
\<close>
theorem metadata_pdu_roundtrip:
  assumes "conf_ok conf" and "\<not> pc_largeFile conf" and "mi_ok i"
    and "mi_getSerializedSize False i + 1 < 65536"
    and "n + hc_getWholePduSize (fdc_header (metadata_creator conf i)) \<le> m"
    and "mi_holds (length (mi_options i)) j"
  shows "\<exists>pdu r j'. metadata_serialize BIG (metadata_creator conf i) i (out, n) m = (OK, out @ pdu, n + length pdu) \<and>
    metadata_parseData (fdr_new (Some pdu) (length pdu)) j = (OK, r, j') \<and>
    fdr_fileDirective r = METADATA \<and> conf_equal (fillConfig r cfg) conf \<and>
    mi_fileSize j' = mi_fileSize i \<and> mi_closureRequested j' = mi_closureRequested i \<and>
    mi_checksumType j' = mi_checksumType i \<and>
    lv_content (mi_sourceFileName j') = lv_content (mi_sourceFileName i) \<and>
    lv_content (mi_destFileName j') = lv_content (mi_destFileName i) \<and>
    map tlv_pair (mi_options j') = map tlv_pair (mi_options i)"
proof -
  let ?c = "metadata_creator conf i" and ?pdu = "enc_directive BIG (metadata_creator conf i) @ enc_metadata i"
  have c: "hc_pduDataFieldLen ?c = length (enc_metadata i) + 1" "conf_ok (hc_pduConf ?c)"
      "length (enc_metadata i) + 1 < 65536" "fdc_directiveCode ?c = METADATA" "hc_pduConf ?c = conf"
    using assms length_enc_metadata [OF assms(3)]
    by (simp_all add: metadata_creator_def metadata_updateDirectiveFieldLen_def)
  then obtain r where r: "fdr_parseData (fdr_new (Some ?pdu) (length ?pdu)) = (OK, r)"
      "reads_directive ?c (enc_metadata i) r"
    using fdr_parse_directive [of ?c "enc_metadata i"] by auto
  with metadata_parse_enc [OF r assms(3,6)] c metadata_serialize_fits [OF assms(1-3,5), of out]
  show ?thesis by (auto simp: reads_directive_def reads_header_def)
qed

definition example_metadata :: MetadataInfo where
  "example_metadata =
     setOptionsArray (Some [msg_to_user (Some [1, 2]) 2]) (Some 1) (Some 1)
       (mi_new True 3 (fs_new 77 False) (lv_new (Some [97]) 1) (lv_new (Some [98, 99]) 2))"

theorem metadata_pdu_roundtrip_witness:
  "\<exists>pdu. metadata_serialize BIG
      (metadata_creator (pc_new (vlf_new 1 1) (vlf_new 1 2) ACKNOWLEDGED (vlf_new 1 3) False False TOWARDS_RECEIVER)
        example_metadata) example_metadata ([], 0) 30 = (OK, pdu, length pdu)"
proof -
  let ?conf = "pc_new (vlf_new 1 1) (vlf_new 1 2) ACKNOWLEDGED (vlf_new 1 3) False False TOWARDS_RECEIVER"
  have w: "vlf_width (vlf_new 1 1) = 1" "vlf_width (vlf_new 1 2) = 1" "vlf_width (vlf_new 1 3) = 1"
    by (rule vlf_new_fits; simp add: width_ok_def)+
  then have conf: "conf_ok ?conf" "\<not> pc_largeFile ?conf"
    by (simp_all add: pc_new_def conf_ok_def width_ok_def)
  have f: "fs_new 77 False = \<lparr>fs_fileSize = 77, fs_largeFile = False\<rparr>"
    by (simp add: fs_new_def setFileSize_def fs_default_def Let_def)
  have i: "mi_ok example_metadata" "mi_holds (length (mi_options example_metadata)) example_metadata"
    by (simp_all add: example_metadata_def setOptionsArray_def mi_new_def mi_ok_def mi_holds_def f fs_small_def
        mi_options_def hasOptions_def msg_to_user_def lv_new_def tlv_new_def ba_from_const_def lv_ready_def
        tlv_ready_def ba_ready_def)
  have sz: "mi_getSerializedSize False example_metadata = 14"
    by (simp add: example_metadata_def setOptionsArray_def mi_new_def mi_getSerializedSize_def hasOptions_def
        msg_to_user_def lv_getSerializedSize_def lv_new_def tlv_new_def tlv_getSerializedSize_def ba_from_const_def
        ba_getSerializedSize_def sizeof_def)
  then have "0 + hc_getWholePduSize (fdc_header (metadata_creator ?conf example_metadata)) \<le> 30"
      "mi_getSerializedSize False example_metadata + 1 < 65536"
    using w by (simp_all add: hc_getWholePduSize_def hc_getSerializedSize_def metadata_creator_def
        metadata_updateDirectiveFieldLen_def pc_new_def)
  from metadata_pdu_roundtrip [OF conf i(1) this(2,1) i(2), where out = "[]" and cfg = pc_default]
  show ?thesis by (auto simp del: One_nat_def)
qed

section \<open>Packets that are not read back\<close>

text \<open>
  The size of a large file is never read: the eight bytes are consumed, and the object keeps the
  value it had.
\<close>
theorem large_file_size_not_read:
  assumes "fs_largeFile f" and "8 \<le> n"
  shows "fs_deSerialize e f (enc_fs e f' @ rest, n) = (OK, f, drop 8 (enc_fs e f' @ rest), n - 8)"
  using assms by (simp add: fs_deSerialize_def deser_word_def sizeof_def Let_def)

text \<open>
  A finished packet with a fault location of one byte is refused by the reader: the one-byte field is
  read without moving on, and its value is taken for the type of the next field.
\<close>
theorem short_fault_location_refused:
  "let conf = pc_new (vlf_new 1 1) (vlf_new 1 2) ACKNOWLEDGED (vlf_new 1 3) False False TOWARDS_SENDER;
       i = setFaultLocation (Some (vlf_new 1 9)) (fi_new 4 1 0) in
   case finished_serialize BIG (finished_creator conf i) i ([], 0) 100 of (result, pdu, sz) \<Rightarrow>
     result = OK \<and> sz = length pdu \<and> sz = 12 \<and>
     fst (finished_parseData (fdr_new (Some pdu) sz) (setFaultLocation (Some vlf_default) (fi_new 0 0 0)))
       = INVALID_TLV_TYPE"
  by code_simp

text \<open>
  A filestore response for an action with two file names announces the length of the second name
  but does not write it.
\<close>
theorem second_file_name_not_written:
  "let p = fsp_setSecondFileName (Some (lv_new (Some [98]) 1)) (fsp_new RENAME_FILE 0 (lv_new (Some [97]) 1) None) in
   fsp_getSerializedSize p = 8 \<and> fsp_serialize BIG p ([], 0) 100 = (OK, [1, 6, 32, 1, 97, 0], 6)"
  by code_simp

end
