(* ===== verification/Tc_Distribution.thy ===== *)
theory Tc_Distribution
  imports Pus_Packets Local_Pool Cfdp_Header
begin

abbreviation INVALID_CCSDS_VERSION :: retval where "INVALID_CCSDS_VERSION \<equiv> RC 27 1"
abbreviation INVALID_APID :: retval where "INVALID_APID \<equiv> RC 27 2"
abbreviation INVALID_PACKET_TYPE :: retval where "INVALID_PACKET_TYPE \<equiv> RC 27 3"
abbreviation INVALID_SEC_HEADER_FIELD :: retval where "INVALID_SEC_HEADER_FIELD \<equiv> RC 27 4"
abbreviation INCOMPLETE_PACKET :: retval where "INCOMPLETE_PACKET \<equiv> RC 27 7"
abbreviation INVALID_PUS_VERSION :: retval where "INVALID_PUS_VERSION \<equiv> RC 27 8"
abbreviation INCORRECT_CHECKSUM :: retval where "INCORRECT_CHECKSUM \<equiv> RC 27 9"

abbreviation PACKET_LOST :: retval where "PACKET_LOST \<equiv> RC 28 1"
abbreviation DESTINATION_NOT_FOUND :: retval where "DESTINATION_NOT_FOUND \<equiv> RC 28 2"
abbreviation SERVICE_ID_ALREADY_EXISTS :: retval where "SERVICE_ID_ALREADY_EXISTS \<equiv> RC 28 3"

section \<open>Messages\<close>

type_synonym queue_id = u32
type_synonym queue_status = "queue_id \<Rightarrow> (queue_id \<Rightarrow> store_address list) \<Rightarrow> retval"

record tc_world =
  w_store :: pool
  w_queues :: "queue_id \<Rightarrow> store_address list"
  w_failed :: "retval list"

definition sendMessage :: "queue_status \<Rightarrow> queue_id \<Rightarrow> store_address \<Rightarrow> tc_world \<Rightarrow> retval \<times> tc_world" where
  "sendMessage qstat q a w =
     (let status = qstat q (w_queues w) in
      (status, if status = OK then w\<lparr>w_queues := (w_queues w)(q := w_queues w q @ [a])\<rparr> else w))"

text \<open>\<open>deleteData\<close> of the store, also as the destructor of an accessor that was not released does it.\<close>

definition deletePacket :: "store_address \<Rightarrow> tc_world \<Rightarrow> tc_world" where
  "deletePacket a w = w\<lparr>w_store := snd (pool_deleteData a (w_store w))\<rparr>"

section \<open>The base class\<close>

text \<open>
  \<open>select\<close> and \<open>callback\<close> are the virtual functions of the distributor; \<open>select\<close> may replace the message
  (by another store address) and returns the destination.
\<close>

definition handlePacket ::
  "('d \<Rightarrow> store_address \<Rightarrow> tc_world \<Rightarrow> retval \<times> queue_id \<times> store_address \<times> 'd \<times> tc_world) \<Rightarrow>
   (retval \<Rightarrow> store_address \<Rightarrow> 'd \<Rightarrow> tc_world \<Rightarrow> retval \<times> 'd \<times> tc_world) \<Rightarrow>
   queue_status \<Rightarrow> store_address \<Rightarrow> 'd \<Rightarrow> tc_world \<Rightarrow> retval \<times> 'd \<times> tc_world" where
  "handlePacket select callback qstat msg d w =
     (case select d msg w of (result, destId, msg, d, w) \<Rightarrow>
        if result \<noteq> OK then (result, d, w)
        else (case sendMessage qstat destId msg w of (status, w) \<Rightarrow> callback status msg d w))"


section \<open>CCSDS distribution\<close>

record CcsdsPacketChecker =
  ck_checkApid :: bool
  ck_apid :: u16
  ck_packetType :: PacketType
  ck_ccsdsVersion :: u8

definition ck_new :: "PacketType \<Rightarrow> u8 \<Rightarrow> CcsdsPacketChecker" where
  "ck_new ty version = \<lparr>ck_checkApid = False, ck_apid = 0, ck_packetType = ty, ck_ccsdsVersion = version\<rparr>"

definition setApidToCheck :: "u16 \<Rightarrow> CcsdsPacketChecker \<Rightarrow> CcsdsPacketChecker" where
  "setApidToCheck ap c = c\<lparr>ck_apid := ap, ck_checkApid := True\<rparr>"

definition ck_checkPacket :: "CcsdsPacketChecker \<Rightarrow> sp_reader \<Rightarrow> nat \<Rightarrow> retval" where
  "ck_checkPacket c r packetLen =
     (if ck_checkApid c \<and> sp_getApid (spr_getPacketIdRaw r) \<noteq> ck_apid c then INVALID_APID
      else if sp_getVersion (spr_getPacketIdRaw r) \<noteq> ck_ccsdsVersion c then INVALID_CCSDS_VERSION
      else if sp_getPacketType (spr_getPacketIdRaw r) \<noteq> ck_packetType c then INVALID_PACKET_TYPE
      else if spr_getFullPacketLen r \<noteq> packetLen then INCOMPLETE_PACKET
      else OK)"

text \<open>The checker of CFDP packets accepts everything.\<close>

definition cfdp_checkPacket :: "sp_reader \<Rightarrow> nat \<Rightarrow> retval" where
  "cfdp_checkPacket r packetLen = OK"

record DestInfo =
  di_apid :: u16
  di_destId :: queue_id
  di_removeHeader :: bool

record CcsdsDistributor =
  cd_receiverMap :: "(u16, DestInfo) std_map"
  cd_defaultApid :: u16
  cd_packetChecker :: "sp_reader \<Rightarrow> nat \<Rightarrow> retval"

text \<open>The distributor after \<open>initialize\<close>, without a checker of its own.\<close>

definition ccsds_new :: "u16 \<Rightarrow> CcsdsDistributor" where
  "ccsds_new ap = \<lparr>cd_receiverMap = [], cd_defaultApid = ap, cd_packetChecker = ck_checkPacket (ck_new TC 0)\<rparr>"

definition registerApplication :: "DestInfo \<Rightarrow> CcsdsDistributor \<Rightarrow> retval \<times> CcsdsDistributor" where
  "registerApplication info d =
     (case map_insert (di_apid info) info (cd_receiverMap d) of (inserted, m) \<Rightarrow>
        (if inserted then OK else FAILED, d\<lparr>cd_receiverMap := m\<rparr>))"

text \<open>A store address as its constructor leaves it.\<close>

definition invalid_address :: store_address where
  "invalid_address = \<lparr>poolIndex = 0xFFFF, packetIndex = 0xFFFF\<rparr>"

definition handleCcsdsHeaderRemoval ::
  "bytes \<Rightarrow> store_address \<Rightarrow> tc_world \<Rightarrow> retval \<times> store_address \<times> tc_world" where
  "handleCcsdsHeaderRemoval data msg w =
     (case pool_addData invalid_address (drop HEADER_LEN data) (w_store w) of (result, newStoreId, s) \<Rightarrow>
        if result \<noteq> OK then (result, msg, w\<lparr>w_store := s\<rparr>)
        else (OK, newStoreId, w\<lparr>w_store := s\<rparr>))"

text \<open>
  \<open>selectDestination\<close>: on every early return, and after the removal of the header, the accessor goes out
  of scope and deletes the packet. A destination is irrelevant when the result is not \<open>OK\<close>; it is 0 then.
\<close>

definition ccsds_selectDestination ::
  "CcsdsDistributor \<Rightarrow> store_address \<Rightarrow> tc_world \<Rightarrow> retval \<times> queue_id \<times> store_address \<times> CcsdsDistributor \<times> tc_world" where
  "ccsds_selectDestination d msg w =
     (case pool_getData msg (w_store w) of (result, data) \<Rightarrow>
        if result \<noteq> OK then (result, 0, msg, d, deletePacket msg w)
        else
          (let bytes = the data in
           if length bytes < HEADER_LEN + 1 then (SER_STREAM_TOO_SHORT, 0, msg, d, deletePacket msg w)
           else
             (let currentPacket = snd (spr_setReadOnlyData (Some bytes) (length bytes) spr_new);
                  result = cd_packetChecker d currentPacket (length bytes) in
              if result \<noteq> OK then (result, 0, msg, d, deletePacket msg w)
              else
                (case (case map_of (cd_receiverMap d) (sp_getApid (spr_getPacketIdRaw currentPacket)) of
                         Some info \<Rightarrow> Some info
                       | None \<Rightarrow> map_of (cd_receiverMap d) (cd_defaultApid d)) of
                   None \<Rightarrow> (DESTINATION_NOT_FOUND, 0, msg, d, deletePacket msg w)
                 | Some info \<Rightarrow>
                     if di_removeHeader info then
                       (case handleCcsdsHeaderRemoval bytes msg w of (result, msg', w) \<Rightarrow>
                          (result, di_destId info, msg', d, deletePacket msg w))
                     else (OK, di_destId info, msg, d, w)))))"

definition ccsds_callbackAfterSending ::
  "retval \<Rightarrow> store_address \<Rightarrow> CcsdsDistributor \<Rightarrow> tc_world \<Rightarrow> retval \<times> CcsdsDistributor \<times> tc_world" where
  "ccsds_callbackAfterSending queueStatus msg d w =
     (OK, d, if queueStatus \<noteq> OK then deletePacket msg w else w)"

definition ccsds_handlePacket ::
  "queue_status \<Rightarrow> store_address \<Rightarrow> CcsdsDistributor \<Rightarrow> tc_world \<Rightarrow> retval \<times> CcsdsDistributor \<times> tc_world" where
  "ccsds_handlePacket = handlePacket ccsds_selectDestination ccsds_callbackAfterSending"

section \<open>PUS distribution\<close>

text \<open>\<open>pd_reports\<close> are the acceptance reports sent: \<open>OK\<close> for success, the failure code otherwise.\<close>

record PusDistributor =
  pd_receiverMap :: "(u8, queue_id) std_map"
  pd_apid :: u16
  pd_pusVersion :: u8
  pd_reader :: tc_reader
  pd_tcStatus :: retval
  pd_reports :: "(retval \<times> tc_reader) list"

definition pd_new :: "u16 \<Rightarrow> PusDistributor" where
  "pd_new ap = \<lparr>pd_receiverMap = [], pd_apid = ap, pd_pusVersion = PUS_C, pd_reader = tcr_new,
     pd_tcStatus = FAILED, pd_reports = []\<rparr>"

text \<open>The identifier of a service has 16 bits, the key of the map eight.\<close>

definition registerService :: "u16 \<Rightarrow> queue_id \<Rightarrow> PusDistributor \<Rightarrow> retval \<times> PusDistributor" where
  "registerService serviceId queue d =
     (case map_insert (ucast serviceId) queue (pd_receiverMap d) of (inserted, m) \<Rightarrow>
        (if inserted then OK else SERVICE_ID_ALREADY_EXISTS, d\<lparr>pd_receiverMap := m\<rparr>))"

definition pus_checkPacket :: "u16 \<Rightarrow> u8 \<Rightarrow> tc_reader \<Rightarrow> retval" where
  "pus_checkPacket ap pusVersion r =
     (let idRaw = spr_getPacketIdRaw (tcr_sp r);
          fullLen = spr_getFullPacketLen (tcr_sp r) in
      if \<not> sp_hasSecHeader idRaw then INVALID_SEC_HEADER_FIELD
      else if crc16ccitt (take fullLen (the (tcr_spHeaderStart r))) \<noteq> 0 then INCORRECT_CHECKSUM
      else if sp_getApid idRaw \<noteq> ap then INVALID_APID
      else if tcr_getPusVersion r \<noteq> pusVersion then INVALID_PUS_VERSION
      else OK)"

text \<open>
  When no service is registered, the source still reads the destination through the end iterator; it
  is not used, since the result is an error. An error of the store becomes \<open>FAILED\<close>, the value of the
  comparison that is assigned to the result.
\<close>

definition pus_selectDestination ::
  "PusDistributor \<Rightarrow> store_address \<Rightarrow> tc_world \<Rightarrow> retval \<times> queue_id \<times> store_address \<times> PusDistributor \<times> tc_world" where
  "pus_selectDestination d msg w =
     (case pool_getData msg (w_store w) of (result, data) \<Rightarrow>
        if result \<noteq> OK then (FAILED, 0, msg, d\<lparr>pd_tcStatus := PACKET_LOST\<rparr>, w)
        else
          (case tcr_setReadOnlyData data (length (the data)) (pd_reader d) of (result, rd) \<Rightarrow>
             let d = d\<lparr>pd_reader := rd\<rparr> in
             if result \<noteq> OK then (result, 0, msg, d\<lparr>pd_tcStatus := PACKET_LOST\<rparr>, w)
             else
               (case tcr_parseData False rd of (result, rd) \<Rightarrow>
                  let d = d\<lparr>pd_reader := rd\<rparr> in
                  if result \<noteq> OK then (result, 0, msg, d\<lparr>pd_tcStatus := PACKET_LOST\<rparr>, w)
                  else if tcr_spHeaderStart rd \<noteq> None then
                    (let tcStatus = pus_checkPacket (pd_apid d) (pd_pusVersion d) rd in
                     case map_of (pd_receiverMap d) (tcr_getService rd) of
                       None \<Rightarrow> (DESTINATION_NOT_FOUND, 0, msg, d\<lparr>pd_tcStatus := DESTINATION_NOT_FOUND\<rparr>, w)
                     | Some queue \<Rightarrow> (tcStatus, queue, msg, d\<lparr>pd_tcStatus := tcStatus\<rparr>, w))
                  else (PACKET_LOST, 0, msg, d\<lparr>pd_tcStatus := PACKET_LOST\<rparr>, w))))"

definition pus_callbackAfterSending ::
  "retval \<Rightarrow> store_address \<Rightarrow> PusDistributor \<Rightarrow> tc_world \<Rightarrow> retval \<times> PusDistributor \<times> tc_world" where
  "pus_callbackAfterSending queueStatus msg d w =
     (let d = (if queueStatus \<noteq> OK then d\<lparr>pd_tcStatus := queueStatus\<rparr> else d) in
      if pd_tcStatus d \<noteq> OK then
        (FAILED, d\<lparr>pd_reports := pd_reports d @ [(pd_tcStatus d, pd_reader d)]\<rparr>, deletePacket msg w)
      else (OK, d\<lparr>pd_reports := pd_reports d @ [(OK, pd_reader d)]\<rparr>, w))"

definition pus_handlePacket ::
  "queue_status \<Rightarrow> store_address \<Rightarrow> PusDistributor \<Rightarrow> tc_world \<Rightarrow> retval \<times> PusDistributor \<times> tc_world" where
  "pus_handlePacket = handlePacket pus_selectDestination pus_callbackAfterSending"

section \<open>CFDP distribution\<close>

record CfdpDistributor =
  cfd_tcDestinations :: "(VarLenField \<times> queue_id) list"
  cfd_pduReader :: pdu_reader


definition registerTcDestination :: "VarLenField \<Rightarrow> queue_id \<Rightarrow> CfdpDistributor \<Rightarrow> retval \<times> CfdpDistributor" where
  "registerTcDestination address queue d =
     (if \<exists>dest \<in> set (cfd_tcDestinations d). vlf_equal (fst dest) address then (FAILED, d)
      else (OK, d\<lparr>cfd_tcDestinations := cfd_tcDestinations d @ [(address, queue)]\<rparr>))"





section \<open>Draining the queue\<close>


text \<open>Sending and the accessors leave every queue alone but the destination.\<close>

lemma deletePacket_queues [simp]: "w_queues (deletePacket a w) = w_queues w"
  by (simp add: deletePacket_def)









section \<open>Packets are neither lost nor duplicated\<close>

text \<open>The packets in the store of a world.\<close>

abbreviation w_held :: "tc_world \<Rightarrow> store_address \<Rightarrow> bytes option" where
  "w_held w \<equiv> pool_contents (w_store w)"

abbreviation w_ok :: "tc_world \<Rightarrow> bool" where
  "w_ok w \<equiv> small_pool (w_store w)"

lemma deletePacket_held:
  assumes "w_ok w" and "w_held w a = Some x" and "x \<noteq> []"
  shows "w_ok (deletePacket a w)" and "w_held (deletePacket a w) = (w_held w)(a := None)"
  using local_pool.delete_packet [OF assms] by (simp_all add: deletePacket_def)

lemma w_failed_deletePacket [simp]: "w_failed (deletePacket a w) = w_failed w"
  by (simp add: deletePacket_def)

text \<open>
  What becomes of a packet: it is gone from its address, and either one queue has got one more message,
  with the address of the packet or of its data field, or the packet is deleted and no queue has changed.
\<close>

definition packet_settled :: "store_address \<Rightarrow> bytes \<Rightarrow> tc_world \<Rightarrow> tc_world \<Rightarrow> bool" where
  "packet_settled msg data w w' \<longleftrightarrow>
     (\<exists>q a x. w_queues w' = (w_queues w)(q := w_queues w q @ [a]) \<and> (x = data \<or> x = drop HEADER_LEN data) \<and>
        w_held w' = (w_held w)(msg := None, a \<mapsto> x)) \<or>
     (w_queues w' = w_queues w \<and> w_held w' = (w_held w)(msg := None))"

lemma settled_deleted:
  assumes "w_ok w" and "w_held w msg = Some data" and "data \<noteq> []"
  shows "w_ok (deletePacket msg w) \<and> packet_settled msg data w (deletePacket msg w)"
  using deletePacket_held [OF assms] by (simp add: packet_settled_def)

lemma send_settles:
  assumes w: "w_ok w1" and q: "w_queues w1 = w_queues w"
    and h: "w_held w1 = (w_held w)(msg := None, a \<mapsto> x)" and fresh: "a = msg \<or> w_held w a = None"
    and x: "x = data \<or> x = drop HEADER_LEN data" "x \<noteq> []"
    and s: "sendMessage qstat dest a w1 = (st, w2)"
  shows "w_ok (if st = OK then w2 else deletePacket a w2)"
    and "packet_settled msg data w (if st = OK then w2 else deletePacket a w2)"
proof -
  have w2: "w_store w2 = w_store w1"
      "w_queues w2 = (if st = OK then (w_queues w)(dest := w_queues w dest @ [a]) else w_queues w)"
    using s q by (auto simp: sendMessage_def Let_def)
  have d: "w_ok (deletePacket a w2)" "w_held (deletePacket a w2) = (w_held w1)(a := None)"
    using deletePacket_held [of w2 a x] w w2(1) h x(2) by simp_all
  show "w_ok (if st = OK then w2 else deletePacket a w2)" using d(1) w w2(1) by simp
  have "w_held (deletePacket a w2) = (w_held w)(msg := None)"
    using d(2) h fresh by (auto simp: fun_eq_iff)
  then show "packet_settled msg data w (if st = OK then w2 else deletePacket a w2)"
    using w2 h x(1) by (auto simp: packet_settled_def)
qed

text \<open>Removing the header stores the data field at a fresh address and deletes the packet.\<close>

lemma removal_settles:
  assumes w: "w_ok w" and h: "w_held w msg = Some data" and l: "HEADER_LEN < length data"
    and r: "handleCcsdsHeaderRemoval data msg w = (result, a, w1)"
  shows "w_ok (deletePacket msg w1)" and "w_queues w1 = w_queues w"
    and "result \<noteq> OK \<Longrightarrow> w_held (deletePacket msg w1) = (w_held w)(msg := None)"
    and "result = OK \<Longrightarrow> w_held w a = None \<and>
      w_held (deletePacket msg w1) = (w_held w)(msg := None, a \<mapsto> drop HEADER_LEN data)"
proof -
  obtain st b s where p: "pool_addData invalid_address (drop HEADER_LEN data) (w_store w) = (st, b, s)"
    by (cases "pool_addData invalid_address (drop HEADER_LEN data) (w_store w)")
  have w1: "w1 = w\<lparr>w_store := s\<rparr>" "result = st" "a = (if st = OK then b else msg)"
    using r p by (auto simp: handleCcsdsHeaderRemoval_def split: if_splits)
  show "w_queues w1 = w_queues w" by (simp add: w1)
  have d: "data \<noteq> []" using l by auto
  have held: "w_ok w1 \<and> w_held w1 msg = Some data \<and>
      (if st = OK then w_held w b = None \<and> w_held w1 = (w_held w)(b \<mapsto> drop HEADER_LEN data)
       else w_held w1 = w_held w)"
    using local_pool.add_OK [OF w, of invalid_address "drop HEADER_LEN data" b s]
      local_pool.add_fail [OF w p] p h by (cases "st = OK") (auto simp: w1)
  note k = deletePacket_held [of w1 msg data]
  show "w_ok (deletePacket msg w1)" using k held d by simp
  show "w_held (deletePacket msg w1) = (w_held w)(msg := None)" if "result \<noteq> OK"
    using k held d that by (simp add: w1)
  show "w_held w a = None \<and> w_held (deletePacket msg w1) = (w_held w)(msg := None, a \<mapsto> drop HEADER_LEN data)"
    if "result = OK"
    using k held d that h by (auto simp: w1 fun_eq_iff)
qed

text \<open>The three ways of \<open>selectDestination\<close> on a packet that is in the store.\<close>

lemma ccsds_select_cases:
  assumes g: "pool_getData msg (w_store w) = (OK, Some data)"
    and s: "ccsds_selectDestination d msg w = (st, q, a, d1, w1)"
  obtains (refused) "st \<noteq> OK" and "d1 = d" and "w1 = deletePacket msg w"
  | (removed) w2 where "HEADER_LEN < length data" and "handleCcsdsHeaderRemoval data msg w = (st, a, w2)"
      and "d1 = d" and "w1 = deletePacket msg w2"
  | (forwarded) "st = OK" and "a = msg" and "d1 = d" and "w1 = w"
proof -
  let ?r = "snd (spr_setReadOnlyData (Some data) (length data) spr_new)"
  let ?dest = "case map_of (cd_receiverMap d) (sp_getApid (spr_getPacketIdRaw ?r)) of
      Some info \<Rightarrow> Some info | None \<Rightarrow> map_of (cd_receiverMap d) (cd_defaultApid d)"
  note s' = s [unfolded ccsds_selectDestination_def g]
  show thesis
  proof (cases "length data < HEADER_LEN + 1 \<or> cd_packetChecker d ?r (length data) \<noteq> OK \<or> ?dest = None")
    case True
    then show thesis using s' by (intro refused) (auto simp: Let_def split: if_splits option.splits)
  next
    case False
    then obtain info where i: "?dest = Some info" by auto
    show thesis
    proof (cases "di_removeHeader info")
      case True
      obtain st' a' w2 where r: "handleCcsdsHeaderRemoval data msg w = (st', a', w2)"
        by (cases "handleCcsdsHeaderRemoval data msg w")
      show thesis using s' False i True r by (intro removed [of w2]) (simp_all add: Let_def)
    next
      case no: False
      show thesis using s' False i no by (intro forwarded) (simp_all add: Let_def)
    qed
  qed
qed

text \<open>
  C12: the CCSDS distributor neither loses nor duplicates a packet: for any packet that is not empty, in
  a store whose subpools have at most 65536 bytes each, and whatever the queues answer, after
  the packet has been handled it is either in the hands of exactly one receiver, through exactly
  one new message with the address of the packet or of its data field, or its memory is free again; all
  other packets and queues are untouched. (In a larger subpool \<open>deleteData\<close> can clear another
  packet, \<open>Local_Pool.pool_delete_clears_other_packet\<close>.)
\<close>
theorem ccsds_packet_conserved:
  assumes "w_ok w" and "w_held w msg = Some data" and "data \<noteq> []"
    and "ccsds_handlePacket qstat msg d w = (result, d', w')"
  shows "w_ok w' \<and> d' = d \<and> packet_settled msg data w w'"
proof -
  note sd = settled_deleted [OF assms(1-3)]
  have g: "pool_getData msg (w_store w) = (OK, Some data)"
    using assms(2) by (simp add: pool_getData_status)
  obtain st q a d1 w1 where s: "ccsds_selectDestination d msg w = (st, q, a, d1, w1)"
    by (cases "ccsds_selectDestination d msg w") auto
  obtain st' w2 where m: "sendMessage qstat q a w1 = (st', w2)" by (cases "sendMessage qstat q a w1")
  have h: "d' = d1 \<and> w' = (if st \<noteq> OK then w1 else if st' = OK then w2 else deletePacket a w2)"
    using assms(4) s m by (auto simp: ccsds_handlePacket_def handlePacket_def ccsds_callbackAfterSending_def
        split: if_splits)
  from g s show ?thesis
  proof (cases rule: ccsds_select_cases)
    case refused
    with h sd show ?thesis by simp
  next
    case (removed w3)
    note r = removal_settles [OF assms(1,2) removed(1,2)]
    have ne: "drop HEADER_LEN data \<noteq> []" using removed(1) by simp
    show ?thesis
    proof (cases "st = OK")
      case True
      from send_settles [OF r(1) _ _ _ _ ne m [unfolded removed(4)], of w msg data] r(2) r(4) [OF True] True h removed
      show ?thesis by simp
    next
      case False
      with r h removed show ?thesis by (simp add: packet_settled_def)
    qed
  next
    case forwarded
    have "w_held w = (w_held w)(msg := None, msg \<mapsto> data)" using assms(2) by (auto simp: fun_eq_iff)
    from send_settles [OF _ _ this _ _ assms(3) m [unfolded forwarded], of data] assms(1) forwarded h m
    show ?thesis by (simp split: if_splits)
  qed
qed

section \<open>From the creator to the service\<close>

text \<open>The bytes of a telecommand with raw user data, as \<open>PusTcCreator\<close> writes them.\<close>

definition tc_packet :: "SpacePacketParams \<Rightarrow> PusTcParams \<Rightarrow> bytes \<Rightarrow> bytes \<Rightarrow> bool" where
  "tc_packet sp pus data pkt \<longleftrightarrow>
     \<not> ba_serializeLength (tc_bufAdapter pus) \<and> length data < 256 \<and>
     apid (sp_packetId sp) < LIMIT_APID \<and> seqCount (sp_packetSeqCtrl sp) < LIMIT_SEQUENCE_COUNT \<and>
     tc_ackFlags pus < 16 \<and> tc_pusVersion pus = PUS_C \<and>
     fst (snd (tcc_serialize BIG (snd (tcc_setRawUserData (Some data) (length data) (tcc_new sp pus))) ([], 0)
       (13 + length data))) = pkt"

text \<open>What the reader was used for before does not matter once new data has been parsed.\<close>

lemma tcr_reader_reset:
  assumes "tcr_setReadOnlyData (Some pkt) n tcr_new = (OK, r0)" and "tcr_parseData True r0 = (OK, r)"
    and "HEADER_LEN < n"
  shows "\<exists>r1. tcr_setReadOnlyData (Some pkt) n old = (OK, r1) \<and> tcr_parseData False r1 = (OK, r) \<and>
    tcr_spHeaderStart r = Some pkt \<and> tcr_sp r = snd (spr_setReadOnlyData (Some pkt) n spr_new)"
proof -
  obtain st sp where s: "spr_setReadOnlyData (Some pkt) n spr_new = (st, sp)"
    by (cases "spr_setReadOnlyData (Some pkt) n spr_new")
  with assms(1) have st: "st = OK" and r0: "r0 = tcr_new\<lparr>tcr_spHeaderStart := Some pkt, tcr_sp := sp\<rparr>"
    by (auto simp: tcr_setReadOnlyData_def tcr_new_def)
  have "spr_setReadOnlyData (Some pkt) n (tcr_sp old) = (OK, sp)"
    using s st assms(3)
    by (cases "tcr_sp old") (auto simp: spr_setReadOnlyData_def setInternalFields_def spr_new_def Let_def)
  then have "tcr_setReadOnlyData (Some pkt) n old = (OK, old\<lparr>tcr_spHeaderStart := Some pkt, tcr_sp := sp\<rparr>)"
    by (simp add: tcr_setReadOnlyData_def)
  moreover have "tcr_parseData False (old\<lparr>tcr_spHeaderStart := Some pkt, tcr_sp := sp\<rparr>) = (OK, r)"
    "tcr_spHeaderStart r = Some pkt" "tcr_sp r = sp"
    using assms(2) by (auto simp: tcr_parseData_def r0 tcr_new_def Let_def split: if_splits)
  ultimately show ?thesis using s by auto
qed

lemma tc_packet_read:
  assumes "tc_packet sp pus data pkt"
  obtains r1 r where "tcr_setReadOnlyData (Some pkt) (length pkt) old = (OK, r1)" and "tcr_parseData False r1 = (OK, r)"
    and "tc_fields_agree sp pus data r" and "tcr_spHeaderStart r = Some pkt"
    and "tcr_sp r = snd (spr_setReadOnlyData (Some pkt) (length pkt) spr_new)"
    and "spr_getFullPacketLen (tcr_sp r) = length pkt" and "crc16ccitt pkt = 0" and "13 \<le> length pkt"
proof -
  let ?c = "snd (tcc_setRawUserData (Some data) (length data) (tcc_new sp pus))"
  note a = assms [unfolded tc_packet_def]
  from tc_roundtrip_aux [of pus data sp "13 + length data"] a
  have p: "length pkt = 13 + length data" "crc16ccitt pkt = 0"
    and rd: "\<And>rest n r0 r res res'. length pkt \<le> n \<Longrightarrow> tcr_setReadOnlyData (Some (pkt @ rest)) n tcr_new = (res, r0) \<Longrightarrow>
       tcr_parseData True r0 = (res', r) \<Longrightarrow> res = OK \<and> res' = OK \<and> tc_fields_agree sp pus data r \<and>
         spr_getFullPacketLen (tcr_sp r) = length pkt"
    by auto
  obtain res r0 where s: "tcr_setReadOnlyData (Some pkt) (length pkt) tcr_new = (res, r0)"
    by (cases "tcr_setReadOnlyData (Some pkt) (length pkt) tcr_new")
  obtain res' r where q: "tcr_parseData True r0 = (res', r)" by (cases "tcr_parseData True r0")
  from rd [of "length pkt" "[]", simplified, OF s q] have ok: "res = OK" "res' = OK" "tc_fields_agree sp pus data r"
    "spr_getFullPacketLen (tcr_sp r) = length pkt" by auto
  have "HEADER_LEN < length pkt" using p by simp
  from tcr_reader_reset [OF s [unfolded ok(1)] q [unfolded ok(2)] this, of old] ok p that show thesis by auto
qed

text \<open>
  C17: a telecommand finds its way. The packet was written by the telecommand creator with fields in
  their ranges, PUS version C and less than 256 bytes of user data, and is in the store; its APID is
  registered at the CCSDS distributor, which has the default packet checker, for the queue of the PUS
  distributor with the header kept, and its service is registered at the PUS distributor. If the queue
  of the PUS distributor takes the message, the CCSDS distributor forwards the packet there. The PUS
  distributor then sends it to the queue of the service and sends one report for the command that
  was created, which is a success if and only if the queue has taken the message; the packet then stays in the
  store unchanged, and it is deleted otherwise.
\<close>
theorem telecommand_reaches_service:
  assumes "tc_packet sp pus data pkt" and "w_held w a = Some pkt"
    and "cd_packetChecker d = ck_checkPacket (ck_new TC 0)"
    and "map_of (cd_receiverMap d) (apid (sp_packetId sp)) =
      Some \<lparr>di_apid = apid (sp_packetId sp), di_destId = pusQueue, di_removeHeader = False\<rparr>"
    and "pd_apid p = apid (sp_packetId sp)" and "pd_pusVersion p = PUS_C"
    and "map_of (pd_receiverMap p) (tc_service pus) = Some serviceQueue"
    and "qstat pusQueue (w_queues w) = OK"
  shows "\<exists>w1 status p' w2 r. ccsds_handlePacket qstat a d w = (OK, d, w1) \<and>
    w_queues w1 = (w_queues w)(pusQueue := w_queues w pusQueue @ [a]) \<and>
    status = qstat serviceQueue (w_queues w1) \<and> pus_handlePacket qstat a p w1 = (if status = OK then OK else FAILED, p', w2) \<and>
    w_queues w2 = (if status = OK then (w_queues w1)(serviceQueue := w_queues w1 serviceQueue @ [a]) else w_queues w1) \<and>
    w_store w2 = (if status = OK then w_store w else snd (pool_deleteData a (w_store w))) \<and>
    pd_reports p' = pd_reports p @ [(status, r)] \<and> tc_fields_agree sp pus data r"
proof -
  obtain r1 r where rd: "tcr_setReadOnlyData (Some pkt) (length pkt) (pd_reader p) = (OK, r1)"
      "tcr_parseData False r1 = (OK, r)" "tc_fields_agree sp pus data r" "tcr_spHeaderStart r = Some pkt"
      "tcr_sp r = snd (spr_setReadOnlyData (Some pkt) (length pkt) spr_new)"
      "spr_getFullPacketLen (tcr_sp r) = length pkt" "crc16ccitt pkt = 0" "13 \<le> length pkt"
    using tc_packet_read [OF assms(1), of "pd_reader p"] by blast
  let ?w1 = "w\<lparr>w_queues := (w_queues w)(pusQueue := w_queues w pusQueue @ [a])\<rparr>"
  have g: "pool_getData a (w_store w) = (OK, Some pkt)" using assms(2) by (simp add: pool_getData_status)
  note fa = rd(3) [unfolded tc_fields_agree_def sp_isTc_def]
  have "ccsds_selectDestination d a w = (OK, pusQueue, a, d, w)"
    using rd(8) fa rd(6) assms(3,4)
    by (simp add: ccsds_selectDestination_def g rd(5) [symmetric] Let_def ck_checkPacket_def ck_new_def
      reader_version_is_always_zero)
  then have c: "ccsds_handlePacket qstat a d w = (OK, d, ?w1)"
    using assms(8) by (simp add: ccsds_handlePacket_def handlePacket_def sendMessage_def ccsds_callbackAfterSending_def Let_def)
  have "pus_checkPacket (pd_apid p) (pd_pusVersion p) r = OK"
    using fa assms(1,5,6) rd(4,6,7) by (simp add: pus_checkPacket_def Let_def tc_packet_def)
  then have "pus_selectDestination p a ?w1 = (OK, serviceQueue, a, p\<lparr>pd_reader := r, pd_tcStatus := OK\<rparr>, ?w1)"
    using fa assms(7) rd(1,2,4) by (simp add: pus_selectDestination_def g Let_def)
  then show ?thesis
    using c rd(3)
    by (simp add: pus_handlePacket_def handlePacket_def sendMessage_def pus_callbackAfterSending_def deletePacket_def Let_def)
qed



text \<open>
  Error behaviour of the PUS distributor: a packet that is read but refused by the checks, or whose
  service is unknown, is reported as an event only; no verification report is sent and
  the packet is not deleted, so that it occupies the store for ever.
\<close>
theorem refused_telecommand_stays_in_store:
  "case pus_handlePacket qstat a p w of (result, p', w') \<Rightarrow>
     if fst (pus_selectDestination p a w) = OK then \<exists>report. pd_reports p' = pd_reports p @ [report]
     else result = fst (pus_selectDestination p a w) \<and> w' = w \<and> pd_reports p' = pd_reports p"
  by (auto simp: pus_handlePacket_def handlePacket_def pus_selectDestination_def pus_callbackAfterSending_def Let_def
     split: prod.splits if_splits option.splits)

text \<open>A store with one packet of at most 16 bytes.\<close>

definition world_with :: "bytes \<Rightarrow> tc_world" where
  "world_with pkt = \<lparr>w_store = snd (snd (pool_addData invalid_address pkt (pool_init [(2, 16)] False))),
     w_queues = (\<lambda>_. []), w_failed = []\<rparr>"

lemma world_with:
  assumes "length pkt \<le> 16"
  shows "w_ok (world_with pkt)" and "w_held (world_with pkt) \<lparr>poolIndex = 0, packetIndex = 0\<rparr> = Some pkt"
proof -
  let ?p = "pool_init [(2, 16)] False"
  have inv: "pool_inv ?p" by (rule pool_init_inv) (simp_all add: STORAGE_FREE_def)
  then have small: "small_pool ?p" by (simp add: small_pool_def, simp add: pool_init_def config_order_def Let_def)
  have add: "pool_addData invalid_address pkt ?p =
      (OK, \<lparr>poolIndex = 0, packetIndex = 0\<rparr>, snd (snd (pool_addData invalid_address pkt ?p)))"
    using assms
    by (simp add: pool_init_def config_order_def pool_addData_def reserveSpace_def Let_def
      getSubPoolIndex_def scan_from.simps reserve_search.simps findEmpty_def STORAGE_FREE_def numeral_2_eq_2)
  show "w_ok (world_with pkt)" "w_held (world_with pkt) \<lparr>poolIndex = 0, packetIndex = 0\<rparr> = Some pkt"
    using local_pool.add_OK [OF small add] by (simp_all add: world_with_def)
qed

theorem ccsds_packet_conserved_witness:
  "packet_settled \<lparr>poolIndex = 0, packetIndex = 0\<rparr> [0x18, 1, 0xC0, 0, 0, 0, 7] (world_with [0x18, 1, 0xC0, 0, 0, 0, 7])
     (snd (snd (ccsds_handlePacket (\<lambda>_ _. OK) \<lparr>poolIndex = 0, packetIndex = 0\<rparr> (ccsds_new 5)
       (world_with [0x18, 1, 0xC0, 0, 0, 0, 7]))))"
proof -
  let ?a = "\<lparr>poolIndex = 0, packetIndex = 0\<rparr>" and ?pkt = "[0x18, 1, 0xC0, 0, 0, 0, 7] :: bytes"
  obtain st d' w' where h: "ccsds_handlePacket (\<lambda>_ _. OK) ?a (ccsds_new 5) (world_with ?pkt) = (st, d', w')"
    by (cases "ccsds_handlePacket (\<lambda>_ _. OK) ?a (ccsds_new 5) (world_with ?pkt)")
  have l: "length ?pkt \<le> 16" by simp
  from ccsds_packet_conserved [OF world_with [OF l] _ h] show ?thesis by (simp add: h)
qed

theorem telecommand_reaches_service_witness:
  "let sp = spc_params (spc_new_fields TC True 0x123 UNSEGMENTED 77 1 0); pus = tc_params_new 17 1;
       c = snd (tcc_setRawUserData (Some [7, 8]) (length [7 :: u8, 8]) (tcc_new sp pus));
       w = world_with (fst (snd (tcc_serialize BIG c ([], 0) (13 + length [7 :: u8, 8]))));
       a = \<lparr>poolIndex = 0, packetIndex = 0\<rparr>;
       d = snd (registerApplication \<lparr>di_apid = 0x123, di_destId = 8, di_removeHeader = False\<rparr> (ccsds_new 0));
       p = snd (registerService 17 9 (pd_new 0x123));
       (st1, d1, w1) = ccsds_handlePacket (\<lambda>_ _. OK) a d w;
       (st2, p2, w2) = pus_handlePacket (\<lambda>_ _. OK) a p w1
   in st1 = OK \<and> w_queues w1 8 = [a] \<and> st2 = OK \<and> w_queues w2 9 = [a] \<and> map fst (pd_reports p2) = [OK]"
proof -
  let ?sp = "spc_params (spc_new_fields TC True 0x123 UNSEGMENTED 77 1 0)" and ?pus = "tc_params_new 17 1"
  let ?c = "snd (tcc_setRawUserData (Some [7, 8]) (length [7 :: u8, 8]) (tcc_new ?sp ?pus))"
  define pkt where "pkt = fst (snd (tcc_serialize BIG ?c ([], 0) (13 + length [7 :: u8, 8])))"
  let ?d = "snd (registerApplication \<lparr>di_apid = 0x123, di_destId = 8, di_removeHeader = False\<rparr> (ccsds_new 0))"
  let ?p = "snd (registerService 17 9 (pd_new 0x123))"
  have f: "\<not> ba_serializeLength (tc_bufAdapter ?pus)" "tc_ackFlags ?pus < 16" "tc_pusVersion ?pus = PUS_C"
      "apid (sp_packetId ?sp) < LIMIT_APID" "seqCount (sp_packetSeqCtrl ?sp) < LIMIT_SEQUENCE_COUNT"
      "tc_service ?pus = 17" "apid (sp_packetId ?sp) = 0x123"
    by (simp_all add: tc_params_new_def ba_default_def spc_new_fields_def spc_new_def checkFieldValidity_def)
  have t: "tc_packet ?sp ?pus [7, 8] pkt" using f by (simp add: tc_packet_def pkt_def)
  have "length [7 :: u8, 8] < 256" "13 + length [7 :: u8, 8] \<le> 13 + length [7 :: u8, 8]" by simp_all
  from tc_roundtrip_aux [OF f(1) this(1) f(4,5,2,3) this(2)] have "length pkt \<le> 16" by (auto simp: pkt_def)
  note h = world_with(2) [OF this]
  have d: "cd_packetChecker ?d = ck_checkPacket (ck_new TC 0)"
      "map_of (cd_receiverMap ?d) (apid (sp_packetId ?sp)) =
         Some \<lparr>di_apid = apid (sp_packetId ?sp), di_destId = 8, di_removeHeader = False\<rparr>"
    by (simp_all add: registerApplication_def ccsds_new_def map_insert_def f)
  have p: "pd_apid ?p = apid (sp_packetId ?sp)" "pd_pusVersion ?p = PUS_C"
      "map_of (pd_receiverMap ?p) (tc_service ?pus) = Some 9" "pd_reports ?p = []"
    by (simp_all add: registerService_def pd_new_def map_insert_def f)
  from telecommand_reaches_service [OF t h d p(1-3), of "\<lambda>_ _. OK"]
  show ?thesis unfolding Let_def pkt_def [symmetric] by (auto simp: p(4) world_with_def)
qed

end
