(* ===== verification/Tc_Scheduling.thy ===== *)
theory Tc_Scheduling
  imports Tc_Distribution "HOL-Library.Multiset"
begin

text \<open>
  The base class of the PUS services (\<open>src/src/fsfw/tmtcservices/PusServiceBase.cpp\<close>, \<open>tcHelpers.cpp\<close>)
  and the scheduling of telecommands, service 11 (\<open>src/src/fsfw/pus/Service11TelecommandScheduling.tpp\<close>).

  The schedule is an \<open>etl::multimap\<close> from release times to telecommands. The Embedded Template Library is
  not part of the repository: the schedule is the list of its entries in the order of iteration, an
  iterator is an index, and the place at which an entry is inserted is given by the argument \<open>pos\<close>
  (\<open>None\<close>: the map is full, \<open>insert\<close> returns \<open>end()\<close>). The predicate \<open>etl_multimap\<close> states what is
  documented of it. The time of the clock is the argument \<open>now\<close>; \<open>time_t\<close> is signed and wide enough, so
  that comparisons and differences are those of the integers.
\<close>

section \<open>PusServiceBase\<close>

definition prepareTcReader :: "pool \<Rightarrow> store_address \<Rightarrow> tc_reader \<Rightarrow> retval \<times> tc_reader" where
  "prepareTcReader store storeId rd =
     (case pool_getData storeId store of (result, data) \<Rightarrow>
        if result \<noteq> OK then (result, rd)
        else
          (case tcr_setReadOnlyData data (length (the data)) rd of (result, rd) \<Rightarrow>
             if result \<noteq> OK then (result, rd) else tcr_parseData False rd))"

datatype verif_report =
  START_FAILURE retval u32 u32
| COMPLETION_SUCCESS tc_reader
| COMPLETION_FAILURE tc_reader retval u32 u32

record 's psb =
  psb_service :: 's
  psb_currentPacket :: tc_reader
  psb_errorParameter1 :: u32
  psb_errorParameter2 :: u32
  psb_reports :: "verif_report list"

abbreviation (input) PUS_SERVICE_MAX_RECEPTION :: nat where "PUS_SERVICE_MAX_RECEPTION \<equiv> 10"

text \<open>
  One round of the loop of \<open>handleRequestQueue\<close>; \<open>handle\<close> is the virtual \<open>handleRequest\<close>, \<open>None\<close> stands
  for a call that does not return or whose behaviour is undefined.
\<close>

type_synonym 's request_handler = "u8 \<Rightarrow> 's psb \<Rightarrow> tc_world \<Rightarrow> (retval \<times> 's psb \<times> tc_world) option"

definition psb_handleMessage ::
  "'s request_handler \<Rightarrow> store_address \<Rightarrow> 's psb \<Rightarrow> tc_world \<Rightarrow> ('s psb \<times> tc_world) option" where
  "psb_handleMessage handle msg p w =
     (case prepareTcReader (w_store w) msg (psb_currentPacket p) of (result, rd) \<Rightarrow>
        let p = p\<lparr>psb_currentPacket := rd\<rparr> in
        if result \<noteq> OK then
          Some (p\<lparr>psb_reports := psb_reports p @ [START_FAILURE result (psb_errorParameter1 p) (psb_errorParameter2 p)]\<rparr>, w)
        else
          map_option (\<lambda>(result, p, w).
             (p\<lparr>psb_reports := psb_reports p @
                  [if result = OK then COMPLETION_SUCCESS (psb_currentPacket p)
                   else COMPLETION_FAILURE (psb_currentPacket p) result (psb_errorParameter1 p) (psb_errorParameter2 p)],
                psb_errorParameter1 := 0, psb_errorParameter2 := 0\<rparr>,
              deletePacket msg w))
            (handle (tcr_getSubService rd) p w))"

fun psb_requestLoop ::
  "'s request_handler \<Rightarrow> queue_id \<Rightarrow> nat \<Rightarrow> 's psb \<Rightarrow> tc_world \<Rightarrow> ('s psb \<times> tc_world) option" where
  "psb_requestLoop handle own 0 p w = Some (p, w)"
| "psb_requestLoop handle own (Suc n) p w =
     (case w_queues w own of
        [] \<Rightarrow> Some (p, w)
      | msg # msgs \<Rightarrow>
          (case psb_handleMessage handle msg p (w\<lparr>w_queues := (w_queues w)(own := msgs)\<rparr>) of
             None \<Rightarrow> None
           | Some (p, w) \<Rightarrow> psb_requestLoop handle own n p w))"

definition handleRequestQueue ::
  "'s request_handler \<Rightarrow> queue_id \<Rightarrow> 's psb \<Rightarrow> tc_world \<Rightarrow> ('s psb \<times> tc_world) option" where
  "handleRequestQueue handle own p w = psb_requestLoop handle own PUS_SERVICE_MAX_RECEPTION p w"

definition psb_performOperation ::
  "'s request_handler \<Rightarrow> ('s psb \<Rightarrow> tc_world \<Rightarrow> retval \<times> 's psb \<times> tc_world) \<Rightarrow>
   queue_id \<Rightarrow> 's psb \<Rightarrow> tc_world \<Rightarrow> (retval \<times> 's psb \<times> tc_world) option" where
  "psb_performOperation handle service own p w =
     map_option (\<lambda>(p, w). case service p w of (result, p, w) \<Rightarrow> (if result \<noteq> OK then FAILED else OK, p, w))
       (handleRequestQueue handle own p w)"

section \<open>The schedule\<close>

abbreviation INVALID_SUBSERVICE :: retval where "INVALID_SUBSERVICE \<equiv> RC 29 2"
abbreviation INVALID_TYPE_TIME_WINDOW :: retval where "INVALID_TYPE_TIME_WINDOW \<equiv> RC 66 1"
abbreviation INVALID_TIME_WINDOW :: retval where "INVALID_TIME_WINDOW \<equiv> RC 66 2"
abbreviation TIMESHIFTING_NOT_POSSIBLE :: retval where "TIMESHIFTING_NOT_POSSIBLE \<equiv> RC 66 3"
abbreviation INVALID_RELATIVE_TIME :: retval where "INVALID_RELATIVE_TIME \<equiv> RC 66 4"
abbreviation CONTAINED_TC_TOO_SMALL :: retval where "CONTAINED_TC_TOO_SMALL \<equiv> RC 66 5"
abbreviation CONTAINED_TC_CRC_MISSMATCH :: retval where "CONTAINED_TC_CRC_MISSMATCH \<equiv> RC 66 6"

abbreviation (input) PUS_TC_MIN_SIZE :: nat where "PUS_TC_MIN_SIZE \<equiv> 13"

record TelecommandStruct =
  ts_requestId :: u64
  ts_seconds :: u32
  ts_storeAddr :: store_address

type_synonym tc_schedule = "(u32 \<times> TelecommandStruct) list"
type_synonym mm_position = "u32 \<Rightarrow> u32 list \<Rightarrow> nat option"

definition insert_at :: "nat \<Rightarrow> 'a \<Rightarrow> 'a list \<Rightarrow> 'a list" where
  "insert_at i x xs = take i xs @ x # drop i xs"

definition erase_at :: "nat \<Rightarrow> 'a list \<Rightarrow> 'a list" where
  "erase_at i xs = take i xs @ drop (Suc i) xs"

text \<open>\<open>sv_events\<close> are the events \<open>TC_DELETION_FAILED\<close> with the two halves of the request identifier.\<close>

record scheduling =
  sv_releaseTimeMargin :: u16
  sv_schedulingEnabled :: bool
  sv_deleteExpiredTcWhenDisabled :: bool
  sv_recipientMsgQueueId :: queue_id
  sv_telecommandMap :: tc_schedule
  sv_events :: "(u64 \<times> u64) list"

definition sv_new :: "queue_id \<Rightarrow> u16 \<Rightarrow> scheduling" where
  "sv_new recipient margin =
     \<lparr>sv_releaseTimeMargin = margin, sv_schedulingEnabled = False, sv_deleteExpiredTcWhenDisabled = True,
      sv_recipientMsgQueueId = recipient, sv_telecommandMap = [], sv_events = []\<rparr>"

definition setExpiredTcDeletion :: "bool \<Rightarrow> scheduling \<Rightarrow> scheduling" where
  "setExpiredTcDeletion b s = s\<lparr>sv_deleteExpiredTcWhenDisabled := b\<rparr>"

definition buildRequestId :: "u32 \<Rightarrow> u16 \<Rightarrow> u16 \<Rightarrow> u64" where
  "buildRequestId sourceId ap ssc = push_bit 32 (ucast sourceId) OR push_bit 16 (ucast ap) OR ucast ssc"

text \<open>The identifier is taken from the current packet, the command of service 11 itself.\<close>

definition getRequestIdFromTc :: "tc_reader \<Rightarrow> u64" where
  "getRequestIdFromTc rd =
     buildRequestId (ucast (tcr_getSourceId rd)) (sp_getApid (spr_getPacketIdRaw (tcr_sp rd)))
       (sp_getSequenceCount (spr_getPacketSeqCtrlRaw (tcr_sp rd)))"

definition getRequestIdFromData :: "source \<Rightarrow> retval \<times> u64 \<times> source" where
  "getRequestIdFromData src =
     (case deser_word BIG src of (result, srcId, src) \<Rightarrow>
        if result \<noteq> OK then (result, 0, src)
        else
          (case deser_word BIG src of (result, ap, src) \<Rightarrow>
             if result \<noteq> OK then (result, 0, src)
             else
               (case deser_word BIG src of (result, ssc, src) \<Rightarrow>
                  if result \<noteq> OK then (result, 0, src)
                  else (OK, buildRequestId (the srcId) (the ap) (the ssc), src))))"

text \<open>
  The loops that move an iterator while the keys satisfy \<open>P\<close> read the key before they compare the iterator with
  \<open>end()\<close>: a loop that comes to the end of the map dereferences it, which is undefined. \<open>None\<close> stands for this.
\<close>

definition skip_while :: "(u32 \<Rightarrow> bool) \<Rightarrow> nat \<Rightarrow> tc_schedule \<Rightarrow> nat option" where
  "skip_while P i m =
     (let n = i + length (takeWhile (\<lambda>e. P (fst e)) (drop i m)) in if n < length m then Some n else None)"

definition getMapFilterFromData :: "source \<Rightarrow> tc_schedule \<Rightarrow> (retval \<times> nat \<times> nat) option" where
  "getMapFilterFromData src m =
     (case deser_word BIG src of (result, typeRaw, src) \<Rightarrow>
        if result \<noteq> OK then Some (result, 0, 0)
        else if (the typeRaw :: u32) > 3 then Some (INVALID_TYPE_TIME_WINDOW, 0, 0)
        else if the typeRaw = 0 then Some (OK, 0, length m)
        else if the typeRaw = 2 then
          (case deser_word BIG src of (result, from, src) \<Rightarrow>
             if result \<noteq> OK then Some (result, 0, 0)
             else map_option (\<lambda>itBegin. (OK, itBegin, length m)) (skip_while (\<lambda>k. k < the from) 0 m))
        else if the typeRaw = 3 then
          (case deser_word BIG src of (result, to, src) \<Rightarrow>
             if result \<noteq> OK then Some (result, 0, 0)
             else map_option (\<lambda>itEnd. (OK, 0, itEnd)) (skip_while (\<lambda>k. k \<le> the to) 0 m))
        else
          (case deser_word BIG src of (result, from, src) \<Rightarrow>
             if result \<noteq> OK then Some (result, 0, 0)
             else
               (case deser_word BIG src of (result, to, src) \<Rightarrow>
                  if result \<noteq> OK then Some (result, 0, 0)
                  else if (the from :: u32) > the to then Some (INVALID_TIME_WINDOW, 0, 0)
                  else
                    (case skip_while (\<lambda>k. k < the from) 0 m of
                       None \<Rightarrow> None
                     | Some itBegin \<Rightarrow>
                         map_option (\<lambda>itEnd. (OK, itBegin, itEnd)) (skip_while (\<lambda>k. k \<le> the to) itBegin m)))))"

section \<open>The operations on the schedule\<close>

fun reset_loop :: "tc_schedule \<Rightarrow> scheduling \<Rightarrow> tc_world \<Rightarrow> scheduling \<times> tc_world" where
  "reset_loop [] s w = (s, w)"
| "reset_loop ((k, tc) # m) s w =
     (case pool_deleteData (ts_storeAddr tc) (w_store w) of (result, store) \<Rightarrow>
        reset_loop m
          (if result \<noteq> OK then s\<lparr>sv_events := sv_events s @
               [(drop_bit 32 (ts_requestId tc) AND 0xffffffff, ts_requestId tc AND 0xffffffff)]\<rparr>
           else s)
          (w\<lparr>w_store := store\<rparr>))"

definition handleResetCommand :: "scheduling \<Rightarrow> tc_world \<Rightarrow> retval \<times> scheduling \<times> tc_world" where
  "handleResetCommand s w =
     (case reset_loop (sv_telecommandMap s) s w of (s, w) \<Rightarrow> (OK, s\<lparr>sv_telecommandMap := []\<rparr>, w))"

definition doInsertActivity ::
  "mm_position \<Rightarrow> int \<Rightarrow> tc_reader \<Rightarrow> source \<Rightarrow> scheduling \<Rightarrow> tc_world \<Rightarrow> retval \<times> scheduling \<times> tc_world" where
  "doInsertActivity pos now currentPacket src s w =
     (case deser_word BIG src of (result, timestamp, data, n) \<Rightarrow>
        if result \<noteq> OK then (result, s, w)
        else if uint (the timestamp :: u32) - now \<le> uint (sv_releaseTimeMargin s) then (FAILED, s, w)
        else if n < PUS_TC_MIN_SIZE then (CONTAINED_TC_TOO_SMALL, s, w)
        else if crc16ccitt (take n data) \<noteq> 0 then (CONTAINED_TC_CRC_MISSMATCH, s, w)
        else
          (case pool_addData invalid_address (take n data) (w_store w) of (result, addr, store) \<Rightarrow>
             let w = w\<lparr>w_store := store\<rparr> in
             if result \<noteq> OK \<or> addr = invalid_address then (FAILED, s, w)
             else
               (let tc = \<lparr>ts_requestId = getRequestIdFromTc currentPacket, ts_seconds = the timestamp, ts_storeAddr = addr\<rparr>
                in case pos (the timestamp) (map fst (sv_telecommandMap s)) of
                     None \<Rightarrow> (FAILED, s, w)
                   | Some i \<Rightarrow>
                       (OK, s\<lparr>sv_telecommandMap := insert_at i (the timestamp, tc) (sv_telecommandMap s)\<rparr>, w))))"

text \<open>The indices of the activities with a request identifier.\<close>

definition find_requests :: "u64 \<Rightarrow> tc_schedule \<Rightarrow> nat list" where
  "find_requests requestId m = filter (\<lambda>i. ts_requestId (snd (m ! i)) = requestId) [0..<length m]"

definition doDeleteActivity :: "source \<Rightarrow> scheduling \<Rightarrow> tc_world \<Rightarrow> retval \<times> scheduling \<times> tc_world" where
  "doDeleteActivity src s w =
     (case getRequestIdFromData src of (result, requestId, src) \<Rightarrow>
        if result \<noteq> OK then (result, s, w)
        else
          (case find_requests requestId (sv_telecommandMap s) of
             [i] \<Rightarrow>
               (case pool_deleteData (ts_storeAddr (snd (sv_telecommandMap s ! i))) (w_store w) of (result, store) \<Rightarrow>
                  let w = w\<lparr>w_store := store\<rparr> in
                  if result \<noteq> OK then (FAILED, s, w)
                  else (OK, s\<lparr>sv_telecommandMap := erase_at i (sv_telecommandMap s)\<rparr>, w))
           | _ \<Rightarrow> (FAILED, s, w)))"

text \<open>An error of the store is printed only; the loop goes on.\<close>

definition delete_range :: "tc_schedule \<Rightarrow> tc_world \<Rightarrow> tc_world" where
  "delete_range m w = foldl (\<lambda>w e. deletePacket (ts_storeAddr (snd e)) w) w m"

text \<open>The end of the window is moved by one more before the range is erased.\<close>

definition doFilterDeleteActivity :: "source \<Rightarrow> scheduling \<Rightarrow> tc_world \<Rightarrow> (retval \<times> scheduling \<times> tc_world) option" where
  "doFilterDeleteActivity src s w =
     (let m = sv_telecommandMap s in
      case getMapFilterFromData src m of
        None \<Rightarrow> None
      | Some (result, itBegin, itEnd) \<Rightarrow>
          if result \<noteq> OK then Some (result, s, w)
          else
            (let w = delete_range (take (itEnd - itBegin) (drop itBegin m)) w;
                 itEnd = (if itEnd \<noteq> length m then itEnd + 1 else itEnd)
             in Some (OK, s\<lparr>sv_telecommandMap := take itBegin m @ drop itEnd m\<rparr>, w)))"

text \<open>A map that has just lost an entry is not full; \<open>None\<close> would lose the activity.\<close>

definition doTimeshiftActivity ::
  "mm_position \<Rightarrow> source \<Rightarrow> scheduling \<Rightarrow> retval \<times> scheduling" where
  "doTimeshiftActivity pos src s =
     (case deser_word BIG src of (result, relativeTime, src) \<Rightarrow>
        if result \<noteq> OK then (result, s)
        else if (the relativeTime :: u32) = 0 then (INVALID_RELATIVE_TIME, s)
        else
          (case getRequestIdFromData src of (result, requestId, src) \<Rightarrow>
             if result \<noteq> OK then (result, s)
             else
               (case find_requests requestId (sv_telecommandMap s) of
                  [it] \<Rightarrow>
                    (let tempTc = snd (sv_telecommandMap s ! it);
                         tempKey = fst (sv_telecommandMap s ! it) + the relativeTime;
                         m = erase_at it (sv_telecommandMap s)
                     in (OK, s\<lparr>sv_telecommandMap :=
                          (case pos tempKey (map fst m) of
                             None \<Rightarrow> m | Some i \<Rightarrow> insert_at i (tempKey, tempTc) m)\<rparr>))
                | _ \<Rightarrow> (TIMESHIFTING_NOT_POSSIBLE, s))))"

text \<open>
  The loop of \<open>doFilterTimeshiftActivity\<close>: iterators stay on their entries when others are
  erased or inserted, so that their indices move. \<open>None\<close> is a loop that does not end.
\<close>

partial_function (option) shift_loop ::
  "mm_position \<Rightarrow> u32 \<Rightarrow> nat \<Rightarrow> nat \<Rightarrow> nat \<Rightarrow> tc_schedule \<Rightarrow> (nat \<times> tc_schedule) option" where
  "shift_loop pos relativeTime it itEnd shifted m =
     (if it = itEnd then Some (shifted, m)
      else
        (let tempTc = snd (m ! it);
             tempKey = fst (m ! it) + relativeTime;
             m = erase_at it m;
             itEnd = itEnd - 1
         in case pos tempKey (map fst m) of
              None \<Rightarrow> shift_loop pos relativeTime it itEnd (shifted + 1) m
            | Some i \<Rightarrow>
                shift_loop pos relativeTime (if i \<le> it then it + 1 else it) (if i \<le> itEnd then itEnd + 1 else itEnd)
                  (shifted + 1) (insert_at i (tempKey, tempTc) m)))"

definition doFilterTimeshiftActivity ::
  "mm_position \<Rightarrow> source \<Rightarrow> scheduling \<Rightarrow> (retval \<times> scheduling) option" where
  "doFilterTimeshiftActivity pos src s =
     (case deser_word BIG src of (result, relativeTime, src) \<Rightarrow>
        if result \<noteq> OK then Some (result, s)
        else if (the relativeTime :: u32) = 0 then Some (INVALID_RELATIVE_TIME, s)
        else
          (case getMapFilterFromData src (sv_telecommandMap s) of
             None \<Rightarrow> None
           | Some (result, itBegin, itEnd) \<Rightarrow>
             if result \<noteq> OK then Some (result, s)
             else
               map_option (\<lambda>(shifted, m).
                   (if shifted > 0 then OK else FAILED, s\<lparr>sv_telecommandMap := m\<rparr>))
                 (shift_loop pos (the relativeTime) itBegin itEnd 0 (sv_telecommandMap s))))"

text \<open>\<open>handleRequest\<close>; the user data of a packet without any is a null pointer of size zero.\<close>

definition sv_handleRequest ::
  "mm_position \<Rightarrow> int \<Rightarrow> u8 \<Rightarrow> tc_reader \<Rightarrow> scheduling \<Rightarrow> tc_world \<Rightarrow> (retval \<times> scheduling \<times> tc_world) option" where
  "sv_handleRequest pos now subservice currentPacket s w =
     (let src = (case tcr_userDataStart currentPacket of None \<Rightarrow> [] | Some d \<Rightarrow> d, tcr_getUserDataLen currentPacket) in
      if subservice = 1 then Some (OK, s\<lparr>sv_schedulingEnabled := True\<rparr>, w)
      else if subservice = 2 then Some (OK, s\<lparr>sv_schedulingEnabled := False\<rparr>, w)
      else if subservice = 3 then Some (handleResetCommand s w)
      else if subservice = 4 then Some (doInsertActivity pos now currentPacket src s w)
      else if subservice = 5 then Some (doDeleteActivity src s w)
      else if subservice = 6 then doFilterDeleteActivity src s w
      else if subservice = 7 then (case doTimeshiftActivity pos src s of (r, s) \<Rightarrow> Some (r, s, w))
      else if subservice = 8 then map_option (\<lambda>(r, s). (r, s, w)) (doFilterTimeshiftActivity pos src s)
      else Some (INVALID_SUBSERVICE, s, w))"

text \<open>
  The release loop. Scheduling stays enabled during the loop, so that its branch for disabled
  scheduling is never taken.
\<close>

fun release_loop ::
  "queue_status \<Rightarrow> queue_id \<Rightarrow> int \<Rightarrow> tc_schedule \<Rightarrow> tc_world \<Rightarrow> retval \<times> tc_schedule \<times> tc_world" where
  "release_loop qstat recipient now [] w = (OK, [], w)"
| "release_loop qstat recipient now ((k, tc) # m) w =
     (if uint k \<le> now then
        (case sendMessage qstat recipient (ts_storeAddr tc) w of (sendRet, w) \<Rightarrow>
           if sendRet \<noteq> OK then (sendRet, (k, tc) # m, w) else release_loop qstat recipient now m w)
      else
        (case release_loop qstat recipient now m w of (result, m, w) \<Rightarrow> (result, (k, tc) # m, w)))"

definition performService :: "queue_status \<Rightarrow> int \<Rightarrow> scheduling \<Rightarrow> tc_world \<Rightarrow> retval \<times> scheduling \<times> tc_world" where
  "performService qstat now s w =
     (if \<not> sv_schedulingEnabled s then (OK, s, w)
      else
        (case release_loop qstat (sv_recipientMsgQueueId s) now (sv_telecommandMap s) w of (result, m, w) \<Rightarrow>
           (result, s\<lparr>sv_telecommandMap := m\<rparr>, w)))"

text \<open>Service 11 as a service of the base class.\<close>

definition sv_handle :: "mm_position \<Rightarrow> int \<Rightarrow> scheduling request_handler" where
  "sv_handle pos now subservice p w =
     map_option (\<lambda>(r, s, w). (r, p\<lparr>psb_service := s\<rparr>, w))
       (sv_handleRequest pos now subservice (psb_currentPacket p) (psb_service p) w)"

definition sv_performOperation ::
  "mm_position \<Rightarrow> queue_status \<Rightarrow> int \<Rightarrow> queue_id \<Rightarrow> scheduling psb \<Rightarrow> tc_world \<Rightarrow>
   (retval \<times> scheduling psb \<times> tc_world) option" where
  "sv_performOperation pos qstat now =
     psb_performOperation (sv_handle pos now)
       (\<lambda>p w. case performService qstat now (psb_service p) w of (r, s, w) \<Rightarrow> (r, p\<lparr>psb_service := s\<rparr>, w))"

section \<open>The library's multimap\<close>

text \<open>
  What is documented of \<open>etl::multimap\<close> with capacity \<open>cap\<close>: entries are kept in the order of
  their keys, and insertion fails only when the map is full.
\<close>

definition etl_multimap :: "nat \<Rightarrow> mm_position \<Rightarrow> bool" where
  "etl_multimap cap pos \<longleftrightarrow>
     (\<forall>k ks. sorted ks \<longrightarrow>
        (case pos k ks of
           None \<Rightarrow> cap \<le> length ks
         | Some i \<Rightarrow> i \<le> length ks \<and> length ks < cap \<and>
             (\<forall>x \<in> set (take i ks). x \<le> k) \<and> (\<forall>x \<in> set (drop i ks). k \<le> x)))"

text \<open>An instance: after all entries with the same key.\<close>

definition upper_bound :: "nat \<Rightarrow> mm_position" where
  "upper_bound cap k ks = (if length ks < cap then Some (length (takeWhile (\<lambda>x. x \<le> k) ks)) else None)"

lemma takeWhile_split:
  fixes k :: "'a::linorder"
  assumes "sorted ks"
  defines "n \<equiv> length (takeWhile (\<lambda>x. x \<le> k) ks)"
  shows "\<forall>x \<in> set (take n ks). x \<le> k" and "\<forall>x \<in> set (drop n ks). k \<le> x" and "n \<le> length ks"
proof -
  show "\<forall>x \<in> set (take n ks). x \<le> k"
    unfolding n_def takeWhile_eq_take [symmetric] by (auto dest: set_takeWhileD)
  show "n \<le> length ks" unfolding n_def by (rule length_takeWhile_le)
  show "\<forall>x \<in> set (drop n ks). k \<le> x"
  proof (cases "dropWhile (\<lambda>x. x \<le> k) ks")
    case (Cons y ys)
    then have "sorted (y # ys)" using sorted_dropWhile [OF assms(1), of "\<lambda>x. x \<le> k"] by simp
    moreover have "\<not> y \<le> k" using Cons by (metis hd_dropWhile list.discI list.sel(1))
    ultimately show ?thesis using Cons unfolding n_def dropWhile_eq_drop [symmetric] by auto
  qed (simp only: n_def dropWhile_eq_drop [symmetric] list.set ball_empty)
qed

lemma etl_upper_bound: "etl_multimap cap (upper_bound cap)"
  unfolding etl_multimap_def
proof (intro allI impI)
  fix k :: u32 and ks :: "u32 list"
  assume "sorted ks"
  note s = takeWhile_split [OF this, of k]
  show "case upper_bound cap k ks of None \<Rightarrow> cap \<le> length ks
    | Some i \<Rightarrow> i \<le> length ks \<and> length ks < cap \<and> (\<forall>x \<in> set (take i ks). x \<le> k) \<and> (\<forall>x \<in> set (drop i ks). k \<le> x)"
  proof (cases "length ks < cap")
    case True
    then show ?thesis using s unfolding upper_bound_def by (simp only: if_True option.case simp_thms)
  qed (simp add: upper_bound_def)
qed

lemma etl_insertD:
  assumes "etl_multimap cap pos" and "sorted (map fst m)" and "pos k (map fst m) = Some i"
  shows "i \<le> length m" and "length m < cap" and "sorted (map fst (insert_at i (k, tc) m))"
    and "\<And>j. j < i \<Longrightarrow> fst (m ! j) \<le> k" and "\<And>j. i \<le> j \<Longrightarrow> j < length m \<Longrightarrow> k \<le> fst (m ! j)"
proof -
  from assms have *: "i \<le> length m" "length m < cap" "\<forall>x \<in> set (take i (map fst m)). x \<le> k"
      "\<forall>x \<in> set (drop i (map fst m)). k \<le> x"
    unfolding etl_multimap_def by (metis (no_types, lifting) length_map option.simps(5))+
  then show "i \<le> length m" "length m < cap" by simp_all
  have s: "sorted (take i (map fst m) @ drop i (map fst m))" using assms(2) by simp
  show "sorted (map fst (insert_at i (k, tc) m))"
    using s *(3,4) unfolding insert_at_def by (auto simp: take_map drop_map sorted_append)
  show "fst (m ! j) \<le> k" if "j < i" for j
    using that *(1,3) by (force simp: in_set_conv_nth)
  show "k \<le> fst (m ! j)" if "i \<le> j" "j < length m" for j
  proof -
    have "fst (m ! j) = drop i (map fst m) ! (j - i)" "j - i < length (drop i (map fst m))" using that by auto
    then show ?thesis using *(4) nth_mem by metis
  qed
qed

lemma etl_not_full:
  assumes "etl_multimap cap pos" and "sorted (map fst m)" and "length m < cap"
  obtains i where "pos k (map fst m) = Some i"
proof (cases "pos k (map fst m)")
  case None
  with assms(1) [unfolded etl_multimap_def, rule_format, OF assms(2), of k] assms(3) show thesis by simp
qed

lemma mset_insert_at [simp]: "mset (insert_at i x xs) = add_mset x (mset xs)"
  by (metis append_take_drop_id insert_at_def mset.simps(2) mset_append union_mset_add_mset_right)

lemma length_insert_at [simp]: "length (insert_at i x xs) = Suc (length xs)"
  by (simp add: insert_at_def)

lemma mset_erase_at: "i < length xs \<Longrightarrow> add_mset (xs ! i) (mset (erase_at i xs)) = mset xs"
  by (metis erase_at_def id_take_nth_drop mset.simps(2) mset_append union_mset_add_mset_right)

lemma length_erase_at [simp]: "i < length xs \<Longrightarrow> length (erase_at i xs) = length xs - 1"
  by (simp add: erase_at_def)

lemma sorted_erase_at:
  assumes "sorted (map f xs)"
  shows "sorted (map f (erase_at i xs))"
proof -
  have "sorted (map f (take i xs) @ map f (drop i xs))" using assms by (simp flip: map_append)
  moreover have "sorted (map f (drop (Suc i) xs))" using sorted_wrt_drop [OF assms, of "Suc i"] by (simp add: drop_map)
  moreover have "set (drop (Suc i) xs) \<subseteq> set (drop i xs)" by (simp add: set_drop_subset_set_drop)
  ultimately show ?thesis unfolding erase_at_def by (auto simp: sorted_append)
qed

section \<open>Shifting a window ends\<close>

text \<open>How often an entry can still be shifted before its release time wraps around.\<close>

definition shift_room :: "tc_schedule \<Rightarrow> nat" where
  "shift_room m = sum_list (map (\<lambda>e. 2 ^ 32 - unat (fst e)) m)"

lemma shift_room_simps [simp]:
  "shift_room [] = 0" "shift_room (e # m) = (2 ^ 32 - unat (fst e)) + shift_room m"
  "shift_room (m @ m') = shift_room m + shift_room m'"
  by (simp_all add: shift_room_def)

lemma insert_at_append:
  "insert_at i x (xs @ ys) = (if i \<le> length xs then insert_at i x xs @ ys else xs @ insert_at (i - length xs) x ys)"
  by (simp add: insert_at_def)

lemma shift_room_insert_at [simp]: "shift_room (insert_at i e m) = (2 ^ 32 - unat (fst e)) + shift_room m"
proof -
  have "shift_room (insert_at i e m) = (2 ^ 32 - unat (fst e)) + shift_room (take i m @ drop i m)"
    unfolding insert_at_def shift_room_simps by simp
  then show ?thesis by simp
qed

lemma shift_loop_returns:
  assumes etl: "etl_multimap cap pos" and rel: "rel \<noteq> 0"
  shows "sorted (map fst (pre @ mid @ post)) \<Longrightarrow> length (pre @ mid @ post) \<le> cap \<Longrightarrow>
    \<exists>n' m'. shift_loop pos rel (length pre) (length pre + length mid) n (pre @ mid @ post) = Some (n', m') \<and>
      sorted (map fst m') \<and> mset (map snd m') = mset (map snd (pre @ mid @ post)) \<and> n' \<ge> n + length mid"
proof (induction "shift_room mid" arbitrary: pre mid post n rule: less_induct)
  case less
  show ?case
  proof (cases mid)
    case Nil
    then show ?thesis using less.prems by (subst shift_loop.simps) simp
  next
    case (Cons e mid')
    obtain k tc where e: "e = (k, tc)" by (cases e)
    let ?m = "pre @ mid' @ post"
    have er: "erase_at (length pre) (pre @ (k, tc) # mid' @ post) = ?m" by (simp add: erase_at_def)
    have so: "sorted (map fst ?m)" using less.prems(1) Cons by (auto simp: sorted_append)
    have lc: "length ?m < cap" using less.prems(2) Cons by simp
    obtain i where i: "pos (k + rel) (map fst ?m) = Some i" using etl_not_full [OF etl so lc] .
    note ins = etl_insertD [OF etl so i]
    let ?x = "(k + rel, tc)"
    have step: "shift_loop pos rel (length pre) (length pre + length mid) n (pre @ mid @ post) =
        shift_loop pos rel (if i \<le> length pre then length pre + 1 else length pre)
          (if i \<le> length pre + length mid' then length pre + length mid' + 1 else length pre + length mid')
          (n + 1) (insert_at i ?x ?m)"
      using i by (subst shift_loop.simps) (simp add: er Cons e Let_def)
    have room: "shift_room mid' < shift_room mid"
      using unsigned_less [of k, where ?'a = nat] by (simp add: Cons e)
    have ms: "mset (map snd (insert_at i ?x ?m)) = mset (map snd (pre @ mid @ post))"
      by (simp add: Cons e)
    consider (before) "i \<le> length pre" | (inside) "length pre < i" "i \<le> length pre + length mid'"
      | (after) "length pre + length mid' < i" by linarith
    then show ?thesis
    proof cases
      case before
      have eq: "insert_at i ?x ?m = insert_at i ?x pre @ mid' @ post" using before by (simp add: insert_at_append)
      from less.hyps [OF room, of "insert_at i ?x pre" post "n + 1"] ins(3) [of tc] less.prems(2) before
      show ?thesis unfolding step by (auto simp: eq Cons e)
    next
      case inside
      let ?mid = "insert_at (i - length pre) ?x mid'"
      have eq: "insert_at i ?x ?m = pre @ ?mid @ post" using inside by (auto simp: insert_at_append)
      have "k \<le> fst (?m ! length pre)"
        using less.prems(1) inside Cons e by (cases mid') (auto simp: sorted_append nth_append)
      also have "\<dots> \<le> k + rel" using ins(4) inside by simp
      finally have "k < k + rel" using rel by (simp add: less_le)
      then have "unat k < unat (k + rel)" by (simp add: word_less_nat_alt)
      then have "shift_room ?mid < shift_room mid"
        using unsigned_less [of k, where ?'a = nat] unsigned_less [of "k + rel", where ?'a = nat] by (simp add: Cons e)
      from less.hyps [OF this, of pre post "n + 1"] ins(3) [of tc] less.prems(2) inside
      show ?thesis unfolding step by (auto simp: eq Cons e)
    next
      case after
      have eq: "insert_at i ?x ?m = pre @ mid' @ insert_at (i - length pre - length mid') ?x post"
        using after by (auto simp: insert_at_append)
      from less.hyps [OF room, of pre "insert_at (i - length pre - length mid') ?x post" "n + 1"] ins(3) [of tc] less.prems(2) after
      show ?thesis unfolding step by (auto simp: eq Cons e)
    qed
  qed
qed

section \<open>The invariant of the schedule\<close>

abbreviation addresses :: "tc_schedule \<Rightarrow> store_address list" where
  "addresses m \<equiv> map (\<lambda>e. ts_storeAddr (snd e)) m"

text \<open>A complete telecommand with a correct checksum.\<close>

definition holds_tc :: "tc_world \<Rightarrow> store_address \<Rightarrow> bool" where
  "holds_tc w a \<longleftrightarrow>
     (case w_held w a of None \<Rightarrow> False | Some d \<Rightarrow> PUS_TC_MIN_SIZE \<le> length d \<and> crc16ccitt d = 0)"

definition schedule_ok :: "nat \<Rightarrow> tc_schedule \<Rightarrow> tc_world \<Rightarrow> bool" where
  "schedule_ok cap m w \<longleftrightarrow> w_ok w \<and> sorted (map fst m) \<and> length m \<le> cap \<and> distinct (addresses m) \<and>
     (\<forall>a \<in> set (addresses m). holds_tc w a)"

lemma holds_tc_cong: "w_held w' a = w_held w a \<Longrightarrow> holds_tc w' a = holds_tc w a"
  by (simp add: holds_tc_def)

lemma deletePacket_effect:
  assumes "w_ok w" and "holds_tc w a"
  shows "w_ok (deletePacket a w)" and "w_held (deletePacket a w) = (w_held w)(a := None)"
    and "fst (pool_deleteData a (w_store w)) = OK"
proof -
  obtain d where d: "w_held w a = Some d" "d \<noteq> []" using assms(2) by (fastforce simp: holds_tc_def split: option.splits)
  show "w_ok (deletePacket a w)" "w_held (deletePacket a w) = (w_held w)(a := None)"
    using deletePacket_held [OF assms(1) d] by simp_all
  show "fst (pool_deleteData a (w_store w)) = OK" using local_pool.delete_OK [OF assms(1) d] .
qed

text \<open>Entries that go away and whose packets are deleted leave the others untouched.\<close>

lemma delete_range_effect:
  "w_ok w \<Longrightarrow> distinct (addresses m) \<Longrightarrow> \<forall>a \<in> set (addresses m). holds_tc w a \<Longrightarrow>
     w_ok (delete_range m w) \<and>
     w_held (delete_range m w) = (\<lambda>a. if a \<in> set (addresses m) then None else w_held w a)"
proof (induction m arbitrary: w)
  case Nil
  then show ?case by (simp add: delete_range_def)
next
  case (Cons e m)
  let ?a = "ts_storeAddr (snd e)"
  have h: "holds_tc w ?a" using Cons.prems(3) by simp
  note d = deletePacket_effect [OF Cons.prems(1) h]
  have "\<forall>a \<in> set (addresses m). holds_tc (deletePacket ?a w) a"
  proof
    fix a
    assume a: "a \<in> set (addresses m)"
    then have "a \<noteq> ?a" using Cons.prems(2) by (metis (no_types, lifting) distinct.simps(2) list.map(2))
    then show "holds_tc (deletePacket ?a w) a"
      using d(2) a Cons.prems(3) holds_tc_cong [of "deletePacket ?a w" a w] by auto
  qed
  from Cons.IH [OF d(1) _ this] Cons.prems(2) d(2) show ?case
    by (auto simp: delete_range_def fun_eq_iff)
qed

lemma schedule_ok_remove:
  assumes "schedule_ok cap (xs @ ys @ zs) w"
  shows "schedule_ok cap (xs @ zs) w" and "schedule_ok cap (xs @ zs) (delete_range ys w)"
proof -
  note a = assms [unfolded schedule_ok_def]
  show "schedule_ok cap (xs @ zs) w" using a by (auto simp: schedule_ok_def sorted_append)
  have "distinct (addresses ys)" "\<forall>a \<in> set (addresses ys). holds_tc w a" using a by auto
  note d = delete_range_effect [OF _ this]
  have "holds_tc (delete_range ys w) a" if "a \<in> set (addresses (xs @ zs))" for a
  proof -
    have "a \<notin> set (addresses ys)" using that a by auto
    then show ?thesis using d a that holds_tc_cong [of "delete_range ys w" a w] by auto
  qed
  then show "schedule_ok cap (xs @ zs) (delete_range ys w)" using a d by (auto simp: schedule_ok_def sorted_append)
qed

text \<open>Sending a message leaves the store alone.\<close>

lemma schedule_ok_store:
  "w_store w' = w_store w \<Longrightarrow> schedule_ok cap m w' = schedule_ok cap m w"
  by (simp add: schedule_ok_def holds_tc_def)

lemma schedule_ok_mset:
  assumes "schedule_ok cap m w" and "sorted (map fst m')" and "mset (map snd m') = mset (map snd m)"
  shows "schedule_ok cap m' w"
proof -
  have "mset (addresses l) = image_mset ts_storeAddr (mset (map snd l))" for l :: tc_schedule
    by (simp add: image_mset.compositionality comp_def)
  then have "mset (addresses m') = mset (addresses m)" using assms(3) by metis
  moreover have "length m' = length m" using assms(3) by (metis length_map size_mset)
  ultimately show ?thesis
    using assms(1,2) mset_eq_imp_distinct_iff mset_eq_setD unfolding schedule_ok_def by metis
qed

section \<open>Every operation keeps the invariant\<close>

lemma skip_while_bounds: "skip_while P i m = Some n \<Longrightarrow> i \<le> n \<and> n < length m"
  by (auto simp: skip_while_def Let_def split: if_splits)

lemma getMapFilter_bounds:
  assumes "getMapFilterFromData src m = Some (r, b, e)"
  shows "b \<le> e \<and> e \<le> length m"
  using assms
  by (auto simp: getMapFilterFromData_def dest!: skip_while_bounds split: prod.splits if_splits option.splits)

text \<open>
  When a window is undefined: its upper bound, or the lower bound of a window without an upper one, lies behind
  every activity of the schedule. On an empty schedule this is so for every window with a bound.
\<close>

definition window_bound :: "source \<Rightarrow> (u32 \<Rightarrow> bool) option" where
  "window_bound src =
     (case deser_word BIG src of (result, typeRaw :: u32 option, src) \<Rightarrow>
        if result \<noteq> OK \<or> the typeRaw = 0 \<or> the typeRaw > 3 then None
        else
          (case deser_word BIG src of (result, x, src) \<Rightarrow>
             if result \<noteq> OK then None
             else if the typeRaw = 2 then Some (\<lambda>k. k < the x)
             else if the typeRaw = 3 then Some (\<lambda>k. k \<le> the x)
             else
               (case deser_word BIG src of (result, y, src) \<Rightarrow>
                  if result \<noteq> OK \<or> the x > the y then None else Some (\<lambda>k. k \<le> the y))))"

definition reads_end :: "source \<Rightarrow> tc_schedule \<Rightarrow> bool" where
  "reads_end src m \<longleftrightarrow> (case window_bound src of None \<Rightarrow> False | Some before \<Rightarrow> \<forall>e \<in> set m. before (fst e))"

lemma length_takeWhile_all: "length (takeWhile P xs) = length xs \<longleftrightarrow> (\<forall>x \<in> set xs. P x)"
  by (induction xs) auto

lemma skip_while_None: "skip_while P i m = None \<longleftrightarrow> length m \<le> i \<or> (\<forall>e \<in> set (drop i m). P (fst e))"
  using length_takeWhile_le [of "\<lambda>e. P (fst e)" "drop i m"] length_takeWhile_all [of "\<lambda>e. P (fst e)" "drop i m"]
  by (cases "i < length m") (auto simp: skip_while_def Let_def)

lemma skip_while_Some:
  assumes "skip_while P 0 m = Some n"
  shows "\<forall>e \<in> set (take n m). P (fst e)"
proof -
  from assms have "n = length (takeWhile (\<lambda>e. P (fst e)) m)" by (auto simp: skip_while_def Let_def split: if_splits)
  then show ?thesis by (metis takeWhile_eq_take set_takeWhileD)
qed

lemma window_end:
  assumes "from \<le> to"
  shows "(case skip_while (\<lambda>k. k < from) 0 m of None \<Rightarrow> None | Some b \<Rightarrow> map_option (f b) (skip_while (\<lambda>k. k \<le> to) b m)) = None \<longleftrightarrow>
    (\<forall>e \<in> set m. fst e \<le> (to :: u32))"
proof (cases "skip_while (\<lambda>k. k < from) 0 m")
  case None
  then have "\<forall>e \<in> set m. fst e < from" by (auto simp: skip_while_None)
  then have "\<forall>e \<in> set m. fst e \<le> to" using assms by fastforce
  then show ?thesis using None by simp
next
  case (Some b)
  from skip_while_Some [OF Some] assms have "\<forall>e \<in> set (take b m). fst e \<le> to" by (auto dest: less_imp_le intro: order_trans)
  then have "(\<forall>e \<in> set m. fst e \<le> to) \<longleftrightarrow> (\<forall>e \<in> set (drop b m). fst e \<le> to)"
    by (metis Un_iff append_take_drop_id set_append)
  then show ?thesis using Some skip_while_bounds [OF Some] by (simp add: skip_while_None)
qed

lemma filter_undefined_iff: "getMapFilterFromData src m = None \<longleftrightarrow> reads_end src m"
  by (auto simp: getMapFilterFromData_def reads_end_def window_bound_def skip_while_None window_end
      split: prod.splits)

lemma window_split: "b \<le> e \<Longrightarrow> e \<le> length m \<Longrightarrow> m = take b m @ take (e - b) (drop b m) @ drop e m"
  by (metis append_take_drop_id drop_drop le_add_diff_inverse2)

lemma find_requests_index: "find_requests rid m = [i] \<Longrightarrow> i < length m"
  unfolding find_requests_def by (drule arg_cong [of _ _ set]) auto

lemma erase_split: "i < length m \<Longrightarrow> m = take i m @ [m ! i] @ drop (Suc i) m"
  by (simp add: id_take_nth_drop)

lemma deletePacket_store: "pool_deleteData a (w_store w) = (r, st) \<Longrightarrow> w\<lparr>w_store := st\<rparr> = deletePacket a w"
  by (simp add: deletePacket_def)

lemma reset_loop_world: "snd (reset_loop m s w) = delete_range m w"
  by (induction m s w rule: reset_loop.induct)
     (auto simp: delete_range_def deletePacket_def split: prod.splits)

lemma insert_keeps:
  assumes etl: "etl_multimap cap pos" and ok: "schedule_ok cap (sv_telecommandMap s) w"
    and src: "snd src \<le> length (fst src)" and r: "doInsertActivity pos now rd src s w = (r, s', w')"
  shows "schedule_ok cap (sv_telecommandMap s') w'"
proof -
  let ?m = "sv_telecommandMap s"
  note o = ok [unfolded schedule_ok_def]
  obtain res0 ts data n where d: "deser_word BIG src = (res0, ts :: u32 option, data, n)"
    by (cases "deser_word BIG src :: retval \<times> u32 option \<times> source") auto
  obtain st a store where p: "pool_addData invalid_address (take n data) (w_store w) = (st, a, store)"
    by (cases "pool_addData invalid_address (take n data) (w_store w)")
  let ?w = "w\<lparr>w_store := store\<rparr>"
  have add: "w_ok ?w" "if st = OK then w_held w a = None \<and> w_held ?w = (w_held w)(a \<mapsto> take n data) else w_held ?w = w_held w"
    using local_pool.add_OK [of "w_store w" invalid_address "take n data" a store]
      local_pool.add_fail [of "w_store w" invalid_address "take n data" st a store] p o by (cases "st = OK"; simp)+
  have keep: "holds_tc ?w b" if "b \<in> set (addresses ?m)" for b
  proof -
    have h: "holds_tc w b" using that o by blast
    then have "w_held w b \<noteq> None" by (auto simp: holds_tc_def split: option.splits)
    then have "w_held ?w b = w_held w b" using add(2) by (auto split: if_splits)
    with h holds_tc_cong show ?thesis by blast
  qed
  then have same: "schedule_ok cap ?m ?w" using o add(1) by (simp add: schedule_ok_def)
  show ?thesis
  proof (cases "s' = s")
    case True
    then show ?thesis using r d p ok same
      by (auto simp: doInsertActivity_def Let_def split: if_splits option.splits)
  next
    case False
    then obtain i tc where i: "pos (the ts) (map fst ?m) = Some i" and st: "st = OK" and w': "w' = ?w"
      and m': "sv_telecommandMap s' = insert_at i (the ts, tc) ?m" and tc: "ts_storeAddr tc = a"
      and n: "13 \<le> n" "crc16ccitt (take n data) = 0"
      using r d p by (auto simp: doInsertActivity_def Let_def split: if_splits option.splits)
    have srt: "sorted (map fst ?m)" using o by blast
    note e = etl_insertD [OF etl srt i]
    have fresh: "a \<notin> set (addresses ?m)" using add(2) st o by (auto simp: holds_tc_def)
    have ms: "mset (addresses (insert_at i (the ts, tc) ?m)) = add_mset a (mset (addresses ?m))" by (simp add: tc)
    then have dist: "distinct (addresses (insert_at i (the ts, tc) ?m))"
      using fresh o by (metis distinct.simps(2) mset.simps(2) mset_eq_imp_distinct_iff)
    have ad: "set (addresses (insert_at i (the ts, tc) ?m)) = insert a (set (addresses ?m))"
      using ms by (metis set_mset_add_mset_insert set_mset_mset)
    have "length (take n data) = n" using src d by (auto simp: deser_word_def Let_def sizeof_def split: if_splits)
    then have "holds_tc ?w a" using add(2) st n by (simp add: holds_tc_def)
    then show ?thesis
      using e(2,3) dist ad keep add(1) unfolding schedule_ok_def m' w' by auto
  qed
qed

lemma activity_delete_keeps:
  assumes ok: "schedule_ok cap (sv_telecommandMap s) w" and r: "doDeleteActivity src s w = (r, s', w')"
  shows "schedule_ok cap (sv_telecommandMap s') w'"
proof -
  let ?m = "sv_telecommandMap s"
  obtain res rid src' where g: "getRequestIdFromData src = (res, rid, src')" by (cases "getRequestIdFromData src") auto
  show ?thesis
  proof (cases "res = OK \<and> (\<exists>i. find_requests rid ?m = [i])")
    case False
    then show ?thesis using r g ok by (auto simp: doDeleteActivity_def split: if_splits list.splits)
  next
    case True
    then obtain i where i: "find_requests rid ?m = [i]" and res: "res = OK" by blast
    have l: "i < length ?m" using find_requests_index [OF i] .
    let ?a = "ts_storeAddr (snd (?m ! i))"
    have h: "holds_tc w ?a" using ok l by (auto simp: schedule_ok_def)
    obtain st store where p: "pool_deleteData ?a (w_store w) = (st, store)" by (cases "pool_deleteData ?a (w_store w)")
    have "st = OK" using deletePacket_effect(3) [OF _ h] ok p by (simp add: schedule_ok_def)
    then have s': "sv_telecommandMap s' = erase_at i ?m" "w' = delete_range [?m ! i] w"
      using r g res i p deletePacket_store [OF p] by (auto simp: doDeleteActivity_def delete_range_def Let_def)
    from ok erase_split [OF l] have "schedule_ok cap (take i ?m @ [?m ! i] @ drop (Suc i) ?m) w" by simp
    from schedule_ok_remove(2) [OF this] show ?thesis by (simp add: s' erase_at_def)
  qed
qed

lemma filter_delete_keeps:
  assumes ok: "schedule_ok cap (sv_telecommandMap s) w" and r: "doFilterDeleteActivity src s w = Some (r, s', w')"
  shows "schedule_ok cap (sv_telecommandMap s') w'"
proof -
  let ?m = "sv_telecommandMap s"
  obtain res b e where g: "getMapFilterFromData src ?m = Some (res, b, e)"
    using r by (auto simp: doFilterDeleteActivity_def Let_def split: option.splits)
  have be: "b \<le> e" "e \<le> length ?m" using getMapFilter_bounds [OF g] by simp_all
  show ?thesis
  proof (cases "res = OK")
    case False
    then show ?thesis using r g ok by (simp add: doFilterDeleteActivity_def Let_def)
  next
    case True
    from ok window_split [OF be] have "schedule_ok cap (take b ?m @ take (e - b) (drop b ?m) @ drop e ?m) w" by simp
    note k = schedule_ok_remove(2) [OF this]
    have "schedule_ok cap (take b ?m @ drop (Suc e) ?m) (delete_range (take (e - b) (drop b ?m)) w)" if "e < length ?m"
    proof -
      have "drop e ?m = [?m ! e] @ drop (Suc e) ?m" using that by (simp add: Cons_nth_drop_Suc)
      with k schedule_ok_remove(1) [of cap "take b ?m" "[?m ! e]" "drop (Suc e) ?m"] show ?thesis by simp
    qed
    with k be(2) r g True show ?thesis
      by (auto simp: doFilterDeleteActivity_def Let_def split: if_splits)
  qed
qed

lemma timeshift_keeps:
  assumes etl: "etl_multimap cap pos" and ok: "schedule_ok cap (sv_telecommandMap s) w"
    and r: "doTimeshiftActivity pos src s = (r, s')"
  shows "schedule_ok cap (sv_telecommandMap s') w"
proof (cases "s' = s")
  case True
  then show ?thesis using ok by simp
next
  case False
  let ?m = "sv_telecommandMap s"
  obtain i rel where i: "find_requests (fst (snd (getRequestIdFromData (snd (snd (deser_word BIG src :: retval \<times> u32 option \<times> source)))))) ?m = [i]"
    and s': "sv_telecommandMap s' = (let k = fst (?m ! i) + rel; m = erase_at i ?m in
      case pos k (map fst m) of None \<Rightarrow> m | Some j \<Rightarrow> insert_at j (k, snd (?m ! i)) m)"
    using r False by (auto simp: doTimeshiftActivity_def Let_def split: prod.splits if_splits list.splits)
  have l: "i < length ?m" using find_requests_index [OF i] .
  have so: "sorted (map fst (erase_at i ?m))" using ok sorted_erase_at by (auto simp: schedule_ok_def)
  have "length (erase_at i ?m) < cap" using ok l by (auto simp: schedule_ok_def)
  from etl_not_full [OF etl so this] obtain j where j: "pos (fst (?m ! i) + rel) (map fst (erase_at i ?m)) = Some j" .
  have "mset (map snd (insert_at j (fst (?m ! i) + rel, snd (?m ! i)) (erase_at i ?m))) =
      image_mset snd (add_mset (?m ! i) (mset (erase_at i ?m)))" by simp
  also have "\<dots> = mset (map snd ?m)" using mset_erase_at [OF l] by simp
  finally show ?thesis
    using schedule_ok_mset [OF ok] etl_insertD(3) [OF etl so j] by (simp add: s' j Let_def)
qed

lemma release_loop_spec:
  "release_loop qstat q now m w = (r, m', w') \<Longrightarrow> sorted (map fst m) \<Longrightarrow>
    w_store w' = w_store w \<and> (\<exists>gone. m = gone @ m' \<and> (\<forall>e \<in> set gone. uint (fst e) \<le> now) \<and>
      w_queues w' = (w_queues w)(q := w_queues w q @ addresses gone) \<and>
      (r = OK \<longrightarrow> (\<forall>e \<in> set m'. now < uint (fst e))))"
proof (induction m arbitrary: r m' w' w)
  case (Cons e m)
  obtain k tc where e: "e = (k, tc)" by (cases e)
  have so: "sorted (map fst m)" using Cons.prems(2) by simp
  show ?case
  proof (cases "uint k \<le> now")
    case True
    obtain st w1 where s: "sendMessage qstat q (ts_storeAddr tc) w = (st, w1)"
      by (cases "sendMessage qstat q (ts_storeAddr tc) w")
    show ?thesis
    proof (cases "st = OK")
      case ok: True
      have w1: "w_store w1 = w_store w" "w_queues w1 = (w_queues w)(q := w_queues w q @ [ts_storeAddr tc])"
        using s ok by (auto simp: sendMessage_def Let_def split: if_splits)
      have "release_loop qstat q now m w1 = (r, m', w')" using Cons.prems(1) e True s ok by simp
      from Cons.IH [OF this so] obtain gone where g: "w_store w' = w_store w1" "m = gone @ m'"
        "\<forall>e \<in> set gone. uint (fst e) \<le> now" "w_queues w' = (w_queues w1)(q := w_queues w1 q @ addresses gone)"
        "r = OK \<longrightarrow> (\<forall>e \<in> set m'. now < uint (fst e))" by blast
      then show ?thesis using w1 e True by (intro conjI exI [of _ "e # gone"]) auto
    next
      case False
      then have "r \<noteq> OK" "m' = e # m" "w' = w" using Cons.prems(1) e True s
        by (auto simp: sendMessage_def Let_def split: if_splits)
      then show ?thesis by (intro conjI exI [of _ "[]"]) auto
    qed
  next
    case False
    obtain r1 m1 w1 where i: "release_loop qstat q now m w = (r1, m1, w1)" by (cases "release_loop qstat q now m w")
    from Cons.IH [OF i so] obtain gone where g: "w_store w1 = w_store w" "m = gone @ m1"
      "\<forall>e \<in> set gone. uint (fst e) \<le> now" "w_queues w1 = (w_queues w)(q := w_queues w q @ addresses gone)"
      "r1 = OK \<longrightarrow> (\<forall>e \<in> set m1. now < uint (fst e))" by blast
    have "gone = []"
    proof (rule ccontr)
      assume "gone \<noteq> []"
      then obtain e' where e': "e' \<in> set gone" by (meson list.set_sel(1))
      then have "k \<le> fst e'" using Cons.prems(2) e g(2) by auto
      then have "uint k \<le> uint (fst e')" by (simp add: word_le_def)
      with g(3) e' False show False by auto
    qed
    moreover have "r = r1" "m' = e # m1" "w' = w1" using Cons.prems(1) e False i by simp_all
    ultimately show ?thesis using g e False by (intro conjI exI [of _ "[]"]) auto
  qed
qed simp

section \<open>The contract of a service\<close>

text \<open>
  A handler of requests returns, as long as an invariant of the service holds, unless the request is one that gets
  \<open>stuck\<close>; it keeps the invariant, and neither takes messages from the request queue nor reports by itself. Then
  each message is answered by exactly one report, up to the first that gets stuck.
\<close>

locale pus_service =
  fixes handle :: "'s request_handler" and own :: queue_id and good :: "'s psb \<Rightarrow> bool" and stuck :: "u8 \<Rightarrow> 's psb \<Rightarrow> bool"
  assumes handles: "good p \<Longrightarrow>
      (case handle sub p w of
         None \<Rightarrow> stuck sub p
       | Some (r, p', w') \<Rightarrow> good p' \<and> psb_reports p' = psb_reports p \<and> w_queues w' own = w_queues w own)"
    and good_frame: "psb_service p' = psb_service p \<Longrightarrow> good p' = good p"
begin

definition stuck_message :: "store_address \<Rightarrow> 's psb \<Rightarrow> tc_world \<Rightarrow> bool" where
  "stuck_message msg p w \<longleftrightarrow>
     (\<exists>rd. prepareTcReader (w_store w) msg (psb_currentPacket p) = (OK, rd) \<and>
        stuck (tcr_getSubService rd) (p\<lparr>psb_currentPacket := rd\<rparr>))"

lemma message_reported:
  assumes "good p"
  shows "case psb_handleMessage handle msg p w of
      None \<Rightarrow> stuck_message msg p w
    | Some (p', w') \<Rightarrow> good p' \<and> (\<exists>rep. psb_reports p' = psb_reports p @ [rep]) \<and> w_queues w' own = w_queues w own"
proof -
  obtain st rd where t: "prepareTcReader (w_store w) msg (psb_currentPacket p) = (st, rd)"
    by (cases "prepareTcReader (w_store w) msg (psb_currentPacket p)")
  have g: "good (p\<lparr>psb_currentPacket := rd\<rparr>)" using assms good_frame [of "p\<lparr>psb_currentPacket := rd\<rparr>" p] by simp
  have f: "good (p1\<lparr>psb_reports := a, psb_errorParameter1 := b, psb_errorParameter2 := c\<rparr>)" if "good p1" for p1 a b c
    using that good_frame [of "p1\<lparr>psb_reports := a, psb_errorParameter1 := b, psb_errorParameter2 := c\<rparr>" p1] by simp
  have f': "good (p\<lparr>psb_currentPacket := rd, psb_reports := a\<rparr>)" for a
    using assms good_frame [of "p\<lparr>psb_currentPacket := rd, psb_reports := a\<rparr>" p] by simp
  show ?thesis
    using f f' handles [OF g, of "tcr_getSubService rd" w]
    by (auto simp: psb_handleMessage_def stuck_message_def t Let_def split: option.splits)
qed

lemma requests_reported:
  "good p \<Longrightarrow> case psb_requestLoop handle own n p w of
      None \<Rightarrow> (\<exists>k < min n (length (w_queues w own)). \<exists>p' w'. psb_requestLoop handle own k p w = Some (p', w') \<and>
        stuck_message (w_queues w own ! k) p' w')
    | Some (p', w') \<Rightarrow> good p' \<and> length (psb_reports p') = length (psb_reports p) + min n (length (w_queues w own)) \<and>
        w_queues w' own = drop n (w_queues w own)"
proof (induction n arbitrary: p w)
  case (Suc n)
  show ?case
  proof (cases "w_queues w own")
    case (Cons msg msgs)
    let ?w = "w\<lparr>w_queues := (w_queues w)(own := msgs)\<rparr>"
    note m = message_reported [OF Suc.prems, of msg ?w]
    show ?thesis
    proof (cases "psb_handleMessage handle msg p ?w")
      case None
      then have "stuck_message msg p w" using m by (simp add: stuck_message_def)
      then show ?thesis using None Cons by (auto intro!: exI [of _ 0])
    next
      case (Some pw)
      obtain p1 w1 where pw: "pw = (p1, w1)" by (cases pw)
      have g: "good p1" "\<exists>rep. psb_reports p1 = psb_reports p @ [rep]" "w_queues w1 own = msgs" using m Some pw by auto
      have step: "psb_requestLoop handle own (Suc k) p w = psb_requestLoop handle own k p1 w1" for k
        using Some pw Cons by simp
      show ?thesis
      proof (cases "psb_requestLoop handle own n p1 w1")
        case None
        with Suc.IH [OF g(1), of w1] obtain k p' w' where k: "k < min n (length msgs)"
          "psb_requestLoop handle own k p1 w1 = Some (p', w')" "stuck_message (msgs ! k) p' w'" using g(3) by auto
        have "psb_requestLoop handle own (Suc n) p w = None" using step None by simp
        moreover have "\<exists>k < min (Suc n) (length (w_queues w own)). \<exists>p' w'. psb_requestLoop handle own k p w = Some (p', w') \<and>
            stuck_message (w_queues w own ! k) p' w'"
          using k Cons step by (intro exI [of _ "Suc k"]) simp
        ultimately show ?thesis by (simp only: option.case)
      next
        case (Some z)
        with Suc.IH [OF g(1), of w1] step Cons g show ?thesis by (auto simp: split_beta)
      qed
    qed
  qed (use Suc.prems in simp)
qed simp

end

text \<open>The order of the schedule is enough for service 11 to return.\<close>

definition order_ok :: "nat \<Rightarrow> tc_schedule \<Rightarrow> bool" where
  "order_ok cap m \<longleftrightarrow> sorted (map fst m) \<and> length m \<le> cap"

lemma order_ok_cut: "order_ok cap m \<Longrightarrow> i \<le> j \<Longrightarrow> order_ok cap (take i m @ drop j m)"
proof -
  assume o: "order_ok cap m" and ij: "i \<le> j"
  have "m = take i m @ take (j - i) (drop i m) @ drop j m"
    using ij by (metis append_take_drop_id drop_drop le_add_diff_inverse2)
  with o have "sorted (map fst (take i m @ take (j - i) (drop i m) @ drop j m))" by (simp add: order_ok_def)
  then have "sorted (map fst (take i m @ drop j m))" by (auto simp: sorted_append)
  with o ij show ?thesis by (auto simp: order_ok_def)
qed

lemma order_ok_take: "order_ok cap m \<Longrightarrow> order_ok cap (take i m)"
  using order_ok_cut [of cap m i "max i (length m)"] by simp

lemma reset_loop_frame: "sv_telecommandMap (fst (reset_loop m s w)) = sv_telecommandMap s \<and>
    w_queues (snd (reset_loop m s w)) = w_queues w"
  by (induction m s w rule: reset_loop.induct) (auto split: prod.splits)

lemma delete_range_queues [simp]: "w_queues (delete_range m w) = w_queues w"
  unfolding delete_range_def by (induction m arbitrary: w) simp_all

lemma insert_order:
  assumes "etl_multimap cap pos" and "order_ok cap (sv_telecommandMap s)"
    and "doInsertActivity pos now rd src s w = (r, s', w')"
  shows "order_ok cap (sv_telecommandMap s') \<and> w_queues w' = w_queues w"
  using assms(3) assms(2) etl_insertD(2,3) [OF assms(1)]
  by (auto simp: doInsertActivity_def order_ok_def Let_def Suc_le_eq split: prod.splits if_splits option.splits)

lemma delete_order:
  assumes "order_ok cap (sv_telecommandMap s)" and "doDeleteActivity src s w = (r, s', w')"
  shows "order_ok cap (sv_telecommandMap s') \<and> w_queues w' = w_queues w"
  using assms(2) assms(1) order_ok_cut [OF assms(1)]
  by (auto simp: doDeleteActivity_def erase_at_def Let_def split: prod.splits if_splits list.splits)

lemma filter_delete_order:
  assumes "order_ok cap (sv_telecommandMap s)" and "doFilterDeleteActivity src s w = Some (r, s', w')"
  shows "order_ok cap (sv_telecommandMap s') \<and> w_queues w' = w_queues w"
  using assms(2) assms(1) order_ok_cut [OF assms(1)] order_ok_take [OF assms(1)] getMapFilter_bounds [of src "sv_telecommandMap s"]
  by (auto simp: doFilterDeleteActivity_def Let_def le_SucI split: prod.splits if_splits option.splits)

lemma filter_delete_None: "doFilterDeleteActivity src s w = None \<longleftrightarrow> reads_end src (sv_telecommandMap s)"
  unfolding filter_undefined_iff [symmetric] by (auto simp: doFilterDeleteActivity_def Let_def split: option.splits)

lemma timeshift_order:
  assumes "etl_multimap cap pos" and "order_ok cap (sv_telecommandMap s)" and "doTimeshiftActivity pos src s = (r, s')"
  shows "order_ok cap (sv_telecommandMap s')"
proof -
  have e: "order_ok cap (erase_at i (sv_telecommandMap s))" for i
    using order_ok_cut [OF assms(2), of i "Suc i"] by (simp add: erase_at_def)
  have "order_ok cap (insert_at j (k, tc) (erase_at i (sv_telecommandMap s)))"
    if "pos k (map fst (erase_at i (sv_telecommandMap s))) = Some j" for i j k tc
    using etl_insertD(2,3) [OF assms(1) _ that] e [of i] by (auto simp: order_ok_def Suc_le_eq)
  with assms(2,3) e show ?thesis
    by (auto simp: doTimeshiftActivity_def Let_def split: prod.splits if_splits list.splits option.splits)
qed

text \<open>The requests of service 11 on which an iterator is dereferenced at the end of the map.\<close>

definition derefs_end :: "u8 \<Rightarrow> tc_reader \<Rightarrow> tc_schedule \<Rightarrow> bool" where
  "derefs_end subservice rd m \<longleftrightarrow>
     (let src = (case tcr_userDataStart rd of None \<Rightarrow> [] | Some d \<Rightarrow> d, tcr_getUserDataLen rd) in
      subservice = 6 \<and> reads_end src m \<or>
      subservice = 8 \<and> (case deser_word BIG src of (result, relativeTime :: u32 option, src) \<Rightarrow>
        result = OK \<and> the relativeTime \<noteq> 0 \<and> reads_end src m))"

lemma filter_timeshift_order:
  assumes etl: "etl_multimap cap pos" and ok: "order_ok cap (sv_telecommandMap s)"
  shows "case doFilterTimeshiftActivity pos src s of
      None \<Rightarrow> (case deser_word BIG src of (result, relativeTime :: u32 option, src) \<Rightarrow>
        result = OK \<and> the relativeTime \<noteq> 0 \<and> reads_end src (sv_telecommandMap s))
    | Some (r, s') \<Rightarrow> order_ok cap (sv_telecommandMap s') \<and>
        mset (map snd (sv_telecommandMap s')) = mset (map snd (sv_telecommandMap s))"
proof -
  let ?m = "sv_telecommandMap s"
  obtain res rel src' where d: "deser_word BIG src = (res, rel :: u32 option, src')"
    by (cases "deser_word BIG src :: retval \<times> u32 option \<times> source") auto
  show ?thesis
  proof (cases "getMapFilterFromData src' ?m")
    case None
    then show ?thesis using d ok filter_undefined_iff [of src' ?m] by (auto simp: doFilterTimeshiftActivity_def)
  next
    case (Some x)
    obtain res' b e where "x = (res', b, e)" by (cases x)
    with Some have g: "getMapFilterFromData src' ?m = Some (res', b, e)" by simp
    have be: "b \<le> e" "e \<le> length ?m" using getMapFilter_bounds [OF g] by simp_all
    note w = window_split [OF be]
    have sl: "\<exists>n' m'. shift_loop pos (the rel) b e 0 ?m = Some (n', m') \<and> sorted (map fst m') \<and> mset (map snd m') = mset (map snd ?m)"
      if "the rel \<noteq> 0"
      using shift_loop_returns [OF etl that, of "take b ?m" "take (e - b) (drop b ?m)" "drop e ?m" 0] ok be
      unfolding w [symmetric] order_ok_def by auto
    show ?thesis
    proof (cases "res = OK \<and> the rel \<noteq> 0 \<and> res' = OK")
      case True
      with sl obtain n' m' where m': "shift_loop pos (the rel) b e 0 ?m = Some (n', m')" "sorted (map fst m')"
        "mset (map snd m') = mset (map snd ?m)" by blast
      have "length m' = length ?m" using m'(3) by (metis length_map size_mset)
      with m' show ?thesis using ok True d g by (simp add: doFilterTimeshiftActivity_def order_ok_def)
    next
      case False
      then show ?thesis using ok d g by (auto simp: doFilterTimeshiftActivity_def)
    qed
  qed
qed

lemma filter_timeshift_None:
  assumes "etl_multimap cap pos" and "order_ok cap (sv_telecommandMap s)"
  shows "doFilterTimeshiftActivity pos src s = None \<longleftrightarrow>
    (case deser_word BIG src of (result, relativeTime :: u32 option, src) \<Rightarrow>
      result = OK \<and> the relativeTime \<noteq> 0 \<and> reads_end src (sv_telecommandMap s))"
proof
  assume "case deser_word BIG src of (result, relativeTime :: u32 option, src) \<Rightarrow>
      result = OK \<and> the relativeTime \<noteq> 0 \<and> reads_end src (sv_telecommandMap s)"
  then show "doFilterTimeshiftActivity pos src s = None"
    unfolding filter_undefined_iff [symmetric] by (auto simp: doFilterTimeshiftActivity_def)
qed (use filter_timeshift_order [OF assms, of src] in simp)

lemma sched_pus_service:
  assumes etl: "etl_multimap cap pos"
  shows "pus_service (sv_handle pos now) own (\<lambda>p. order_ok cap (sv_telecommandMap (psb_service p)))
    (\<lambda>sub p. derefs_end sub (psb_currentPacket p) (sv_telecommandMap (psb_service p)))"
proof
  fix p :: "scheduling psb" and sub w
  assume ok: "order_ok cap (sv_telecommandMap (psb_service p))"
  let ?s = "psb_service p" and ?rd = "psb_currentPacket p"
  let ?src = "(case tcr_userDataStart ?rd of None \<Rightarrow> [] | Some d \<Rightarrow> d, tcr_getUserDataLen ?rd)"
  obtain r3 s3 w3 where h3: "handleResetCommand ?s w = (r3, s3, w3)" by (cases "handleResetCommand ?s w")
  then have k3: "order_ok cap (sv_telecommandMap s3) \<and> w_queues w3 = w_queues w"
    using reset_loop_frame [of "sv_telecommandMap ?s" ?s w] by (auto simp: handleResetCommand_def order_ok_def split: prod.splits)
  obtain r4 s4 w4 where h4: "doInsertActivity pos now ?rd ?src ?s w = (r4, s4, w4)" by (cases "doInsertActivity pos now ?rd ?src ?s w")
  obtain r5 s5 w5 where h5: "doDeleteActivity ?src ?s w = (r5, s5, w5)" by (cases "doDeleteActivity ?src ?s w")
  obtain r7 s7 where h7: "doTimeshiftActivity pos ?src ?s = (r7, s7)" by (cases "doTimeshiftActivity pos ?src ?s")
  have k6: "case doFilterDeleteActivity ?src ?s w of
      None \<Rightarrow> derefs_end 6 ?rd (sv_telecommandMap ?s)
    | Some (r, s', w') \<Rightarrow> order_ok cap (sv_telecommandMap s') \<and> w_queues w' = w_queues w"
    using filter_delete_order [OF ok, of ?src w] filter_delete_None [of ?src ?s w]
    by (auto simp: derefs_end_def split: option.split)
  have k8: "case doFilterTimeshiftActivity pos ?src ?s of
      None \<Rightarrow> derefs_end 8 ?rd (sv_telecommandMap ?s)
    | Some (r, s') \<Rightarrow> order_ok cap (sv_telecommandMap s')"
    using filter_timeshift_order [OF etl ok, of ?src] by (auto simp: derefs_end_def split: option.splits)
  show "case sv_handle pos now sub p w of
      None \<Rightarrow> derefs_end sub ?rd (sv_telecommandMap ?s)
    | Some (r, p', w') \<Rightarrow> order_ok cap (sv_telecommandMap (psb_service p')) \<and>
        psb_reports p' = psb_reports p \<and> w_queues w' own = w_queues w own"
    using ok k3 insert_order [OF etl ok h4] delete_order [OF ok h5] timeshift_order [OF etl ok h7] k6 k8
    unfolding sv_handle_def sv_handleRequest_def Let_def h3 h4 h5 h7 by (auto split: option.splits)
qed simp

interpretation tc_scheduling: pus_service "sv_handle (upper_bound cap) now" own
  "\<lambda>p. order_ok cap (sv_telecommandMap (psb_service p))"
  "\<lambda>sub p. derefs_end sub (psb_currentPacket p) (sv_telecommandMap (psb_service p))" for cap now own
  by (rule sched_pus_service [OF etl_upper_bound])

section \<open>Properties\<close>

lemma filter_timeshift_keeps:
  assumes "etl_multimap cap pos" and "schedule_ok cap (sv_telecommandMap s) w"
    and "doFilterTimeshiftActivity pos src s = Some (r, s')"
  shows "schedule_ok cap (sv_telecommandMap s') w"
proof -
  have "order_ok cap (sv_telecommandMap s)" using assms(2) by (simp add: schedule_ok_def order_ok_def)
  from filter_timeshift_order [OF assms(1) this, of src] schedule_ok_mset [OF assms(2)] assms(3) show ?thesis
    by (auto simp: order_ok_def)
qed

text \<open>The user data of a packet lies within the packet.\<close>

definition user_data_ok :: "tc_reader \<Rightarrow> bool" where
  "user_data_ok rd \<longleftrightarrow>
     tcr_getUserDataLen rd \<le> (case tcr_userDataStart rd of None \<Rightarrow> 0 | Some d \<Rightarrow> length d)"

text \<open>
  C11: the schedule stays sound: whatever subservice is called with whatever data, the request is
  handled to its end (also the loop that shifts a window of activities), and after it the activities
  are still ordered by release time, not more than the map can hold, stored at different addresses, and at
  each address there is a complete telecommand with a correct checksum. The only exception are requests to
  delete or shift a window whose upper bound, or whose lower bound if it has no upper one, lies behind every activity
  of the schedule (\<open>derefs_end\<close>; every such request on an empty schedule): there the code dereferences the end of the map,
  which is undefined. The user data lies within the packet, the store has subpools of at most 65536 bytes, and the
  multimap of the library keeps its order and refuses an entry only when it is full.
\<close>
theorem schedule_invariant:
  assumes "etl_multimap cap pos" and "schedule_ok cap (sv_telecommandMap s) w" and "user_data_ok rd"
  shows "if derefs_end subservice rd (sv_telecommandMap s) then sv_handleRequest pos now subservice rd s w = None
    else \<exists>r s' w'. sv_handleRequest pos now subservice rd s w = Some (r, s', w') \<and> schedule_ok cap (sv_telecommandMap s') w'"
proof -
  let ?src = "(case tcr_userDataStart rd of None \<Rightarrow> [] | Some d \<Rightarrow> d, tcr_getUserDataLen rd)"
  have src: "snd ?src \<le> length (fst ?src)" using assms(3) by (auto simp: user_data_ok_def split: option.splits)
  have reset: "schedule_ok cap (sv_telecommandMap s') w'" if "handleResetCommand s w = (r, s', w')" for r s' w'
  proof -
    have "sv_telecommandMap s' = []" "w' = delete_range (sv_telecommandMap s) w"
      using that reset_loop_world [of "sv_telecommandMap s" s w] by (auto simp: handleResetCommand_def split: prod.splits)
    with schedule_ok_remove(2) [of cap "[]" "sv_telecommandMap s" "[]" w] assms(2) show ?thesis by simp
  qed
  obtain r3 s3 w3 where h3: "handleResetCommand s w = (r3, s3, w3)" by (cases "handleResetCommand s w")
  obtain r4 s4 w4 where h4: "doInsertActivity pos now rd ?src s w = (r4, s4, w4)" by (cases "doInsertActivity pos now rd ?src s w")
  obtain r5 s5 w5 where h5: "doDeleteActivity ?src s w = (r5, s5, w5)" by (cases "doDeleteActivity ?src s w")
  obtain r7 s7 where h7: "doTimeshiftActivity pos ?src s = (r7, s7)" by (cases "doTimeshiftActivity pos ?src s")
  have n8: "doFilterTimeshiftActivity pos ?src s = None \<longleftrightarrow> derefs_end 8 rd (sv_telecommandMap s)"
    using filter_timeshift_None [OF assms(1), of s ?src] assms(2) by (simp add: derefs_end_def schedule_ok_def order_ok_def)
  have n6: "doFilterDeleteActivity ?src s w = None \<longleftrightarrow> derefs_end 6 rd (sv_telecommandMap s)"
    by (simp add: filter_delete_None derefs_end_def)
  have no: "\<not> derefs_end subservice rd (sv_telecommandMap s)" if "subservice \<noteq> 6" "subservice \<noteq> 8"
    using that by (simp add: derefs_end_def Let_def)
  show ?thesis
    using assms(2) reset [OF h3] insert_keeps [OF assms(1,2) src h4] activity_delete_keeps [OF assms(2) h5]
      filter_delete_keeps [OF assms(2), of ?src] timeshift_keeps [OF assms(1,2) h7]
      filter_timeshift_keeps [OF assms(1,2), of ?src] n6 n8 no
    unfolding sv_handleRequest_def Let_def h3 h4 h5 h7
    by (cases "doFilterDeleteActivity ?src s w"; cases "doFilterTimeshiftActivity pos ?src s") auto
qed

theorem schedule_invariant_witness:
  "\<exists>r s' w'. sv_handleRequest (upper_bound 5) 0 4 tcr_new (sv_new 1 5)
     \<lparr>w_store = pool_init [(2, 16)] False, w_queues = (\<lambda>_. []), w_failed = []\<rparr> = Some (r, s', w') \<and>
     schedule_ok 5 (sv_telecommandMap s') w'"
proof -
  let ?w = "\<lparr>w_store = pool_init [(2, 16)] False, w_queues = (\<lambda>_. []), w_failed = []\<rparr>"
  have "pool_inv (pool_init [(2, 16)] False)" by (rule pool_init_inv) (simp_all add: STORAGE_FREE_def)
  then have "small_pool (pool_init [(2, 16)] False)"
    by (simp add: small_pool_def, simp add: pool_init_def config_order_def Let_def)
  then have ok: "schedule_ok 5 (sv_telecommandMap (sv_new 1 5)) ?w" by (simp add: schedule_ok_def sv_new_def)
  have "user_data_ok tcr_new" by (simp add: user_data_ok_def tcr_new_def tcr_getUserDataLen_def)
  from schedule_invariant [OF etl_upper_bound ok this, of 4 0] show ?thesis by (simp add: derefs_end_def)
qed

text \<open>
  C20: activities are released in time and in order: when scheduling is enabled, one call of
  \<open>performService\<close> sends the addresses of activities that are due, oldest release time first, and removes
  exactly these from the schedule; the packets stay in the store for the recipient. If sending
  succeeds, no activity that is due is left.
\<close>
theorem due_activities_are_released:
  assumes "schedule_ok cap (sv_telecommandMap s) w" and "sv_schedulingEnabled s"
    and "performService qstat now s w = (r, s', w')"
  shows "w_store w' = w_store w \<and> schedule_ok cap (sv_telecommandMap s') w' \<and>
    (\<exists>gone. sv_telecommandMap s = gone @ sv_telecommandMap s' \<and> (\<forall>e \<in> set gone. uint (fst e) \<le> now) \<and>
      w_queues w' = (w_queues w)(sv_recipientMsgQueueId s := w_queues w (sv_recipientMsgQueueId s) @ addresses gone) \<and>
      (r = OK \<longrightarrow> (\<forall>e \<in> set (sv_telecommandMap s'). now < uint (fst e))))"
proof -
  obtain m' where rel: "release_loop qstat (sv_recipientMsgQueueId s) now (sv_telecommandMap s) w = (r, m', w')"
    and s': "sv_telecommandMap s' = m'"
    using assms(2,3) by (auto simp: performService_def split: prod.splits)
  have "sorted (map fst (sv_telecommandMap s))" using assms(1) by (simp add: schedule_ok_def)
  note spec = release_loop_spec [OF rel this]
  then obtain gone where g: "sv_telecommandMap s = gone @ m'" by blast
  have "schedule_ok cap ([] @ gone @ m') w" using assms(1) g by simp
  from schedule_ok_remove(1) [OF this] spec have "schedule_ok cap m' w'"
    using schedule_ok_store [of w' w cap m'] by simp
  with spec show ?thesis by (simp only: s' simp_thms)
qed

text \<open>An example: one stored telecommand that is to be released at the time 10.\<close>

definition example_tc :: bytes where
  "example_tc = fst (snd (tcc_serialize BIG (snd (tcc_setRawUserData (Some [7, 8]) (length [7 :: u8, 8])
     (tcc_new (spc_params (spc_new_fields TC True 0x123 UNSEGMENTED 77 1 0)) (tc_params_new 17 1)))) ([], 0) 15))"

definition one_activity :: scheduling where
  "one_activity = (sv_new 7 5)\<lparr>sv_schedulingEnabled := True, sv_telecommandMap :=
     [(10, \<lparr>ts_requestId = 1, ts_seconds = 10, ts_storeAddr = \<lparr>poolIndex = 0, packetIndex = 0\<rparr>\<rparr>)]\<rparr>"

lemma one_activity_ok: "schedule_ok 5 (sv_telecommandMap one_activity) (world_with example_tc)"
proof -
  let ?sp = "spc_params (spc_new_fields TC True 0x123 UNSEGMENTED 77 1 0)" and ?pus = "tc_params_new 17 1"
  have f: "\<not> ba_serializeLength (tc_bufAdapter ?pus)" "length [7 :: u8, 8] < 256"
      "apid (sp_packetId ?sp) < LIMIT_APID" "seqCount (sp_packetSeqCtrl ?sp) < LIMIT_SEQUENCE_COUNT"
      "tc_ackFlags ?pus < 16" "tc_pusVersion ?pus = PUS_C" "13 + length [7 :: u8, 8] \<le> 15"
    by (simp_all add: tc_params_new_def ba_default_def spc_new_fields_def spc_new_def checkFieldValidity_def)
  from tc_roundtrip_aux [OF f] obtain pkt where "tcc_serialize BIG (snd (tcc_setRawUserData (Some [7, 8])
      (length [7 :: u8, 8]) (tcc_new ?sp ?pus))) ([], 0) 15 = (OK, pkt, 13 + length [7 :: u8, 8])"
    "length pkt = 13 + length [7 :: u8, 8]" "crc16ccitt pkt = 0" by blast
  then have l: "length example_tc = 15" "crc16ccitt example_tc = 0" by (simp_all add: example_tc_def)
  with world_with [of example_tc] show ?thesis
    by (simp add: schedule_ok_def one_activity_def holds_tc_def)
qed

theorem due_activities_are_released_witness:
  "let (r, s', w') = performService (\<lambda>_ _. OK) 15 one_activity (world_with example_tc) in
     w_queues w' 7 = [\<lparr>poolIndex = 0, packetIndex = 0\<rparr>] \<and> sv_telecommandMap s' = []"
proof -
  obtain r s' w' where p: "performService (\<lambda>_ _. OK) 15 one_activity (world_with example_tc) = (r, s', w')"
    by (cases "performService (\<lambda>_ _. OK) 15 one_activity (world_with example_tc)")
  have "r = OK" using p
    by (simp add: performService_def one_activity_def sv_new_def sendMessage_def Let_def)
  have en: "sv_schedulingEnabled one_activity" by (simp add: one_activity_def)
  have m: "sv_telecommandMap one_activity =
      [(10, \<lparr>ts_requestId = 1, ts_seconds = 10, ts_storeAddr = \<lparr>poolIndex = 0, packetIndex = 0\<rparr>\<rparr>)]"
    "sv_recipientMsgQueueId one_activity = 7" "w_queues (world_with example_tc) = (\<lambda>_. [])"
    by (simp_all add: one_activity_def sv_new_def world_with_def)
  from due_activities_are_released [OF one_activity_ok en p, unfolded m] obtain gone where
    g: "[(10, \<lparr>ts_requestId = 1, ts_seconds = 10, ts_storeAddr = \<lparr>poolIndex = 0, packetIndex = 0\<rparr>\<rparr>)] =
        gone @ sv_telecommandMap s'" "w_queues w' = (\<lambda>_. [])(7 := addresses gone)"
      "\<forall>e \<in> set (sv_telecommandMap s'). 15 < uint (fst e)" using \<open>r = OK\<close> by auto
  have "gone \<noteq> []"
  proof
    assume "gone = []"
    then have "sv_telecommandMap s' =
      [(10, \<lparr>ts_requestId = 1, ts_seconds = 10, ts_storeAddr = \<lparr>poolIndex = 0, packetIndex = 0\<rparr>\<rparr>)]" using g(1) by simp
    with g(3) show False by simp
  qed
  with g(1) have "gone = [(10, \<lparr>ts_requestId = 1, ts_seconds = 10, ts_storeAddr = \<lparr>poolIndex = 0, packetIndex = 0\<rparr>\<rparr>)]"
    "sv_telecommandMap s' = []" by (cases gone; simp)+
  with g(2) p show ?thesis by simp
qed

text \<open>
  Shifting a window of activities is exact if no shifted activity reaches the next one: if in the
  window each release time plus the relative time stays, without wrap-around, below all later
  ones, every activity of the window is shifted exactly once, and the others are left alone.
\<close>
theorem window_shifted_exactly:
  assumes "etl_multimap cap pos" and "rel \<noteq> 0"
    and "sorted (map fst (pre @ mid @ post))" and "length (pre @ mid @ post) \<le> cap"
    and "sorted_wrt (\<lambda>d e. fst d + rel < fst e) mid"
  shows "\<exists>m'. shift_loop pos rel (length pre) (length pre + length mid) n (pre @ mid @ post) = Some (n + length mid, m') \<and>
    mset m' = mset pre + mset (map (\<lambda>(k, tc). (k + rel, tc)) mid) + mset post"
  using assms(3-5)
proof (induction mid arbitrary: pre n post)
  case Nil
  then show ?case by (subst shift_loop.simps) simp
next
  case (Cons e mid)
  obtain k tc where e: "e = (k, tc)" by (cases e)
  let ?m = "pre @ mid @ post" and ?x = "(k + rel, tc)"
  have er: "erase_at (length pre) (pre @ (k, tc) # mid @ post) = ?m" by (simp add: erase_at_def)
  have so: "sorted (map fst ?m)" using Cons.prems(1) by (auto simp: sorted_append)
  have lc: "length ?m < cap" using Cons.prems(2) by simp
  obtain i where i: "pos (k + rel) (map fst ?m) = Some i" using etl_not_full [OF assms(1) so lc] .
  note ins = etl_insertD [OF assms(1) so i]
  have step: "shift_loop pos rel (length pre) (length pre + length (e # mid)) n (pre @ (e # mid) @ post) =
      shift_loop pos rel (if i \<le> length pre then length pre + 1 else length pre)
        (if i \<le> length pre + length mid then length pre + length mid + 1 else length pre + length mid)
        (n + 1) (insert_at i ?x ?m)"
    using i by (subst shift_loop.simps) (simp add: er e Let_def)
  show ?case
  proof (cases "i \<le> length pre")
    case True
    have eq: "insert_at i ?x ?m = insert_at i ?x pre @ mid @ post" using True by (simp add: insert_at_append)
    have "sorted (map fst (insert_at i ?x pre @ mid @ post))" "length (insert_at i ?x pre @ mid @ post) \<le> cap"
      using ins(3) [of tc] Cons.prems(2) by (simp_all add: eq)
    from Cons.IH [OF this, of "n + 1"] Cons.prems(3) True show ?thesis
      unfolding step by (auto simp: eq e)
  next
    case False
    have "mid = []"
    proof (cases mid)
      case (Cons d ds)
      then have "fst (?m ! length pre) = fst d" by (simp add: nth_append)
      moreover have "fst (?m ! length pre) \<le> k + rel" using ins(4) False by simp
      moreover have "k + rel < fst d" using Cons.prems(3) Cons e by simp
      ultimately show ?thesis by simp
    qed simp
    then show ?thesis unfolding step using False by (subst shift_loop.simps) (simp add: e)
  qed
qed

theorem window_shifted_exactly_witness:
  "\<exists>m'. shift_loop (upper_bound 5) 5 (length ([] :: tc_schedule)) (length ([] :: tc_schedule) + length (sv_telecommandMap one_activity)) 0
      ([] @ sv_telecommandMap one_activity @ []) = Some (0 + length (sv_telecommandMap one_activity), m') \<and>
    mset m' = mset [] + mset (map (\<lambda>(k, tc). (k + 5, tc)) (sv_telecommandMap one_activity)) + mset []"
  by (rule window_shifted_exactly [OF etl_upper_bound]) (simp_all add: one_activity_def)

text \<open>
  Outside of this condition the loop meets shifted activities again: of two activities at the times 0
  and 1 that are both to be shifted by \<open>2^31\<close> seconds, each is shifted twice and ends where it was.
\<close>
theorem window_shifted_twice:
  "shift_loop (upper_bound 5) 0x80000000 0 2 0 [(0, a), (1, b)] = Some (4, [(0, a), (1, b)])"
  by (subst shift_loop.simps, simp add: Let_def erase_at_def insert_at_def upper_bound_def)+

text \<open>
  Deleting a window removes one activity too many: the first activity behind the window
  disappears from the schedule although it is not in the window and its packet stays in the store.
\<close>
theorem filter_delete_drops_next_activity:
  assumes f: "getMapFilterFromData src (sv_telecommandMap s) = Some (OK, b, e)" and e: "e < length (sv_telecommandMap s)"
    and ok: "schedule_ok cap (sv_telecommandMap s) w" and r: "doFilterDeleteActivity src s w = Some (r, s', w')"
  shows "sv_telecommandMap s' = take b (sv_telecommandMap s) @ drop (Suc e) (sv_telecommandMap s) \<and>
    holds_tc w' (ts_storeAddr (snd (sv_telecommandMap s ! e)))"
proof -
  let ?m = "sv_telecommandMap s"
  have be: "b \<le> e" "e \<le> length ?m" using getMapFilter_bounds [OF f] by simp_all
  have s': "sv_telecommandMap s' = take b ?m @ drop (Suc e) ?m" "w' = delete_range (take (e - b) (drop b ?m)) w"
    using r f e by (auto simp: doFilterDeleteActivity_def Let_def)
  from ok window_split [OF be] have "schedule_ok cap (take b ?m @ take (e - b) (drop b ?m) @ drop e ?m) w" by simp
  from schedule_ok_remove(2) [OF this] have "schedule_ok cap (take b ?m @ drop e ?m) w'" by (simp add: s')
  moreover have "?m ! e \<in> set (drop e ?m)" using e by (metis Cons_nth_drop_Suc list.set_intros(1))
  ultimately show ?thesis using s' by (auto simp: schedule_ok_def)
qed

text \<open>
  C21: every request is answered: \<open>handleRequestQueue\<close> of the scheduling service takes the first ten messages
  of its queue (or all, if there are less), whatever packets they name, and sends exactly one
  verification report for each of them. It fails to do so only if it comes to a request that deletes or shifts a window
  of activities and dereferences the end of the schedule (\<open>derefs_end\<close>) in the state that the requests before it have
  led to, which is undefined behaviour.
\<close>
theorem requests_are_reported:
  assumes "etl_multimap cap pos" and "order_ok cap (sv_telecommandMap (psb_service p))"
  shows "case handleRequestQueue (sv_handle pos now) own p w of
      Some (p', w') \<Rightarrow> length (psb_reports p') = length (psb_reports p) + min 10 (length (w_queues w own)) \<and>
        w_queues w' own = drop 10 (w_queues w own)
    | None \<Rightarrow> \<exists>k < min 10 (length (w_queues w own)). \<exists>p1 w1 rd. psb_requestLoop (sv_handle pos now) own k p w = Some (p1, w1) \<and>
        prepareTcReader (w_store w1) (w_queues w own ! k) (psb_currentPacket p1) = (OK, rd) \<and>
        derefs_end (tcr_getSubService rd) rd (sv_telecommandMap (psb_service p1))"
  using pus_service.requests_reported [OF sched_pus_service [OF assms(1), of now own], where p = p and n = 10 and w = w] assms(2)
  unfolding handleRequestQueue_def pus_service.stuck_message_def [OF sched_pus_service [OF assms(1)]]
  by (cases "psb_requestLoop (sv_handle pos now) own 10 p w") (auto simp del: psb_requestLoop.simps)

theorem requests_are_reported_witness:
  "\<exists>p' w'. handleRequestQueue (sv_handle (upper_bound 5) 0) 3
      \<lparr>psb_service = sv_new 1 5, psb_currentPacket = tcr_new, psb_errorParameter1 = 0, psb_errorParameter2 = 0, psb_reports = []\<rparr>
      \<lparr>w_store = pool_init [(2, 16)] False, w_queues = (\<lambda>_. [invalid_address]), w_failed = []\<rparr> = Some (p', w') \<and>
    length (psb_reports p') = 1 \<and> w_queues w' 3 = []"
proof -
  let ?p = "\<lparr>psb_service = sv_new 1 5, psb_currentPacket = tcr_new, psb_errorParameter1 = 0, psb_errorParameter2 = 0, psb_reports = []\<rparr>"
  let ?w = "\<lparr>w_store = pool_init [(2, 16)] False, w_queues = (\<lambda>_. [invalid_address]), w_failed = []\<rparr>"
  have "fst (prepareTcReader (pool_init [(2, 16)] False) invalid_address rd) \<noteq> OK" for rd
    by (simp add: prepareTcReader_def pool_getData_def pool_modifyData_def pool_init_def config_order_def invalid_address_def Let_def)
  then have "prepareTcReader (pool_init [(2, 16)] False) invalid_address rd \<noteq> (OK, rd')" for rd rd' by (metis fst_conv)
  moreover have "order_ok 5 (sv_telecommandMap (psb_service ?p))" by (simp add: order_ok_def sv_new_def)
  ultimately show ?thesis
    using requests_are_reported [OF etl_upper_bound [of 5], where p = ?p and w = ?w and own = 3 and now = 0] by (auto split: option.splits)
qed

end
