(* ===== verification/Health_Table.thy ===== *)
theory Health_Table
  imports Tc_Distribution
begin

text \<open>
  Command messages (\<open>src/src/fsfw/ipc/CommandMessage.cpp\<close>, \<open>src/src/fsfw/modes/ModeMessage.cpp\<close>,
  \<open>src/src/fsfw/health/HealthMessage.cpp\<close>, \<open>src/src/fsfw/subsystem/modes/ModeSequenceMessage.cpp\<close>) and
  the table of the health states of all objects (\<open>src/src/fsfw/health/HealthTable.cpp\<close>,
  \<open>ManagesHealthIF.h\<close>).
\<close>

section \<open>Command messages\<close>

text \<open>
  A message is the command identifier and the parameters at their places in its buffer, with the queue
  it was sent from. A fresh message has a zeroed buffer, which is the command \<open>CMD_NONE\<close>.
\<close>

record CommandMessage =
  cm_command :: u16
  cm_parameter :: u32
  cm_parameter2 :: u32
  cm_parameter3 :: u32
  cm_sender :: queue_id

abbreviation NO_QUEUE :: queue_id where "NO_QUEUE \<equiv> 0"

definition MAKE_COMMAND_ID :: "u16 \<Rightarrow> u16 \<Rightarrow> u16" where
  "MAKE_COMMAND_ID messageId number = push_bit 8 messageId + number"

abbreviation (input) "COMMAND_ID \<equiv> 0"
abbreviation (input) "MODE_COMMAND_ID \<equiv> 1"
abbreviation (input) "HEALTH_COMMAND_ID \<equiv> 2"
abbreviation (input) "MODE_SEQUENCE_ID \<equiv> 3"

definition CMD_NONE :: u16 where [codes]: "CMD_NONE = MAKE_COMMAND_ID COMMAND_ID 0"
definition REPLY_COMMAND_OK :: u16 where [codes]: "REPLY_COMMAND_OK = MAKE_COMMAND_ID COMMAND_ID 1"
definition REPLY_REJECTED :: u16 where [codes]: "REPLY_REJECTED = MAKE_COMMAND_ID COMMAND_ID 2"

definition CMD_MODE_COMMAND :: u16 where [codes]: "CMD_MODE_COMMAND = MAKE_COMMAND_ID MODE_COMMAND_ID 0x01"
definition CMD_MODE_COMMAND_FORCED :: u16 where
  [codes]: "CMD_MODE_COMMAND_FORCED = MAKE_COMMAND_ID MODE_COMMAND_ID 0xF1"
definition REPLY_MODE_REPLY :: u16 where [codes]: "REPLY_MODE_REPLY = MAKE_COMMAND_ID MODE_COMMAND_ID 0x02"
definition REPLY_MODE_INFO :: u16 where [codes]: "REPLY_MODE_INFO = MAKE_COMMAND_ID MODE_COMMAND_ID 0x03"
definition REPLY_CANT_REACH_MODE :: u16 where
  [codes]: "REPLY_CANT_REACH_MODE = MAKE_COMMAND_ID MODE_COMMAND_ID 0x04"
definition REPLY_WRONG_MODE_REPLY :: u16 where
  [codes]: "REPLY_WRONG_MODE_REPLY = MAKE_COMMAND_ID MODE_COMMAND_ID 0x05"
definition CMD_MODE_READ :: u16 where [codes]: "CMD_MODE_READ = MAKE_COMMAND_ID MODE_COMMAND_ID 0x06"
definition CMD_MODE_ANNOUNCE :: u16 where [codes]: "CMD_MODE_ANNOUNCE = MAKE_COMMAND_ID MODE_COMMAND_ID 0x07"
definition CMD_MODE_ANNOUNCE_RECURSIVELY :: u16 where
  [codes]: "CMD_MODE_ANNOUNCE_RECURSIVELY = MAKE_COMMAND_ID MODE_COMMAND_ID 0x08"

definition HEALTH_SET :: u16 where [codes]: "HEALTH_SET = MAKE_COMMAND_ID HEALTH_COMMAND_ID 1"
definition HEALTH_ANNOUNCE :: u16 where [codes]: "HEALTH_ANNOUNCE = MAKE_COMMAND_ID HEALTH_COMMAND_ID 2"
definition HEALTH_INFO :: u16 where [codes]: "HEALTH_INFO = MAKE_COMMAND_ID HEALTH_COMMAND_ID 5"
definition REPLY_HEALTH_SET :: u16 where [codes]: "REPLY_HEALTH_SET = MAKE_COMMAND_ID HEALTH_COMMAND_ID 6"

definition ADD_SEQUENCE :: u16 where [codes]: "ADD_SEQUENCE = MAKE_COMMAND_ID MODE_SEQUENCE_ID 0x01"
definition ADD_TABLE :: u16 where [codes]: "ADD_TABLE = MAKE_COMMAND_ID MODE_SEQUENCE_ID 0x02"
definition DELETE_SEQUENCE :: u16 where [codes]: "DELETE_SEQUENCE = MAKE_COMMAND_ID MODE_SEQUENCE_ID 0x03"
definition DELETE_TABLE :: u16 where [codes]: "DELETE_TABLE = MAKE_COMMAND_ID MODE_SEQUENCE_ID 0x04"
definition READ_SEQUENCE :: u16 where [codes]: "READ_SEQUENCE = MAKE_COMMAND_ID MODE_SEQUENCE_ID 0x05"
definition READ_TABLE :: u16 where [codes]: "READ_TABLE = MAKE_COMMAND_ID MODE_SEQUENCE_ID 0x06"
definition LIST_SEQUENCES :: u16 where [codes]: "LIST_SEQUENCES = MAKE_COMMAND_ID MODE_SEQUENCE_ID 0x07"
definition LIST_TABLES :: u16 where [codes]: "LIST_TABLES = MAKE_COMMAND_ID MODE_SEQUENCE_ID 0x08"
definition SEQUENCE_LIST :: u16 where [codes]: "SEQUENCE_LIST = MAKE_COMMAND_ID MODE_SEQUENCE_ID 0x09"
definition TABLE_LIST :: u16 where [codes]: "TABLE_LIST = MAKE_COMMAND_ID MODE_SEQUENCE_ID 0x0A"
definition TABLE :: u16 where [codes]: "TABLE = MAKE_COMMAND_ID MODE_SEQUENCE_ID 0x0B"
definition SEQUENCE :: u16 where [codes]: "SEQUENCE = MAKE_COMMAND_ID MODE_SEQUENCE_ID 0x0C"
definition READ_FREE_SEQUENCE_SLOTS :: u16 where
  [codes]: "READ_FREE_SEQUENCE_SLOTS = MAKE_COMMAND_ID MODE_SEQUENCE_ID 0x0D"
definition FREE_SEQUENCE_SLOTS :: u16 where
  [codes]: "FREE_SEQUENCE_SLOTS = MAKE_COMMAND_ID MODE_SEQUENCE_ID 0x0E"
definition READ_FREE_TABLE_SLOTS :: u16 where
  [codes]: "READ_FREE_TABLE_SLOTS = MAKE_COMMAND_ID MODE_SEQUENCE_ID 0x0F"
definition FREE_TABLE_SLOTS :: u16 where [codes]: "FREE_TABLE_SLOTS = MAKE_COMMAND_ID MODE_SEQUENCE_ID 0x10"

declare MAKE_COMMAND_ID_def [codes]

definition cm_new :: "u16 \<Rightarrow> u32 \<Rightarrow> u32 \<Rightarrow> CommandMessage" where
  "cm_new command p1 p2 = \<lparr>cm_command = command, cm_parameter = p1, cm_parameter2 = p2, cm_parameter3 = 0, cm_sender = NO_QUEUE\<rparr>"

definition getMessageType :: "CommandMessage \<Rightarrow> u8" where
  "getMessageType m = ucast (drop_bit 8 (cm_command m) AND 0xff)"

definition rv_param :: "retval \<Rightarrow> u32" where
  "rv_param r = ucast (rv_code r)"

definition setReplyRejected :: "retval \<Rightarrow> u16 \<Rightarrow> CommandMessage" where
  "setReplyRejected reason initialCommand = cm_new REPLY_REJECTED (rv_param reason) (ucast initialCommand)"

abbreviation UNKNOWN_COMMAND :: retval where "UNKNOWN_COMMAND \<equiv> RC 15 1"

definition mm_getMode :: "CommandMessage \<Rightarrow> u32" where
  "mm_getMode m = cm_parameter m"

definition mm_getSubmode :: "CommandMessage \<Rightarrow> u8" where
  "mm_getSubmode m = ucast (cm_parameter2 m)"

definition setModeMessage :: "u16 \<Rightarrow> u32 \<Rightarrow> u8 \<Rightarrow> CommandMessage" where
  "setModeMessage command mode submode = cm_new command mode (ucast submode)"

definition setCantReachMode :: "retval \<Rightarrow> CommandMessage" where
  "setCantReachMode reason = cm_new REPLY_CANT_REACH_MODE (rv_param reason) 0"

definition setHealthMessage :: "u16 \<Rightarrow> u8 \<Rightarrow> u8 \<Rightarrow> CommandMessage" where
  "setHealthMessage command health oldHealth = cm_new command (ucast health) (ucast oldHealth)"

definition hm_getHealth :: "CommandMessage \<Rightarrow> u8" where
  "hm_getHealth m = ucast (cm_parameter m)"

text \<open>The raw form of a store address overlays the two indices, on a little-endian machine.\<close>

definition addr_of_raw :: "u32 \<Rightarrow> store_address" where
  "addr_of_raw raw = \<lparr>poolIndex = unat (raw AND 0xFFFF), packetIndex = unat (drop_bit 16 raw)\<rparr>"

definition raw_of_addr :: "store_address \<Rightarrow> u32" where
  "raw_of_addr a = of_nat (poolIndex a) OR push_bit 16 (of_nat (packetIndex a))"

definition getStoreAddress :: "CommandMessage \<Rightarrow> store_address" where
  "getStoreAddress m = addr_of_raw (cm_parameter m)"

definition getSequenceId :: "CommandMessage \<Rightarrow> u32" where
  "getSequenceId m = cm_parameter2 m"

lemma mode_message_roundtrip [simp]:
  "mm_getMode (setModeMessage c m s) = m" "mm_getSubmode (setModeMessage c m s) = s"
  "cm_command (setModeMessage c m s) = c"
  by (simp_all add: setModeMessage_def mm_getMode_def mm_getSubmode_def cm_new_def ucast_up_ucast_id is_up)

lemma health_message_roundtrip [simp]:
  "hm_getHealth (setHealthMessage c h h') = h" "cm_command (setHealthMessage c h h') = c"
  by (simp_all add: setHealthMessage_def hm_getHealth_def cm_new_def ucast_up_ucast_id is_up)

section \<open>Health states\<close>

abbreviation FAULTY :: u8 where "FAULTY \<equiv> 0"
abbreviation HEALTHY :: u8 where "HEALTHY \<equiv> 1"
abbreviation EXTERNAL_CONTROL :: u8 where "EXTERNAL_CONTROL \<equiv> 2"
abbreviation NEEDS_RECOVERY :: u8 where "NEEDS_RECOVERY \<equiv> 3"
abbreviation PERMANENT_FAULTY :: u8 where "PERMANENT_FAULTY \<equiv> 4"
abbreviation INVALID_HEALTH_STATE :: retval where "INVALID_HEALTH_STATE \<equiv> RC 23 2"

definition is_faulty_state :: "u8 \<Rightarrow> bool" where
  "is_faulty_state health \<longleftrightarrow> health = FAULTY \<or> health = PERMANENT_FAULTY \<or> health = NEEDS_RECOVERY"

section \<open>The health table\<close>

text \<open>
  \<open>healthMap\<close> is a \<open>std::map\<close>; its iterator designates an entry by the key (the nodes of a \<open>std::map\<close> do
  not move), the end of the map, or an entry that has been erased.
\<close>

datatype map_iterator = At u32 | At_End | Dangling

record HealthTable =
  healthMap :: "(u32, u8) std_map"
  mapIterator :: map_iterator

definition ht_new :: HealthTable where
  "ht_new = \<lparr>healthMap = [], mapIterator = At_End\<rparr>"

definition registerObject :: "u32 \<Rightarrow> u8 \<Rightarrow> HealthTable \<Rightarrow> retval \<times> HealthTable" where
  "registerObject object initialState t =
     (if map_of (healthMap t) object \<noteq> None then (FAILED, t)
      else (OK, t\<lparr>healthMap := snd (map_insert object initialState (healthMap t))\<rparr>))"

definition removeObject :: "u32 \<Rightarrow> HealthTable \<Rightarrow> retval \<times> HealthTable" where
  "removeObject object t =
     (if map_of (healthMap t) object = None then (FAILED, t\<lparr>mapIterator := At_End\<rparr>)
      else (OK, \<lparr>healthMap = map_erase object (healthMap t), mapIterator = Dangling\<rparr>))"

definition ht_setHealth :: "u32 \<Rightarrow> u8 \<Rightarrow> HealthTable \<Rightarrow> HealthTable" where
  "ht_setHealth object newState t = t\<lparr>healthMap := map_assign object newState (healthMap t)\<rparr>"

definition ht_getHealth :: "u32 \<Rightarrow> HealthTable \<Rightarrow> u8" where
  "ht_getHealth object t = (case map_of (healthMap t) object of Some state \<Rightarrow> state | None \<Rightarrow> HEALTHY)"

definition hasHealth :: "u32 \<Rightarrow> HealthTable \<Rightarrow> bool" where
  "hasHealth object t = (case map_of (healthMap t) object of Some _ \<Rightarrow> True | None \<Rightarrow> False)"

definition isFaulty :: "u32 \<Rightarrow> HealthTable \<Rightarrow> bool" where
  "isFaulty object t = is_faulty_state (ht_getHealth object t)"

definition isCommandable :: "u32 \<Rightarrow> HealthTable \<Rightarrow> bool" where
  "isCommandable object t \<longleftrightarrow> ht_getHealth object t \<noteq> EXTERNAL_CONTROL"

text \<open>The size of the printed table, computed in \<open>uint32_t\<close>.\<close>

definition getPrintSize :: "HealthTable \<Rightarrow> nat" where
  "getPrintSize t = (length (healthMap t) * 4 + 1 + 2) mod 2 ^ 32"

fun printLoop :: "(u32 \<times> u8) list \<Rightarrow> sink \<Rightarrow> nat \<Rightarrow> sink" where
  "printLoop [] snk maxSize = snk"
| "printLoop ((object, health) # hs) snk maxSize =
     (case ser_word BIG object snk maxSize of (result, snk) \<Rightarrow>
        if result \<noteq> OK then snk
        else
          (case ser_word BIG health snk maxSize of (result, snk) \<Rightarrow>
             if result \<noteq> OK then snk else printLoop hs snk maxSize))"

definition printAll :: "HealthTable \<Rightarrow> nat \<Rightarrow> bytes" where
  "printAll t maxSize =
     (case ser_word BIG (of_nat (length (healthMap t)) :: u16) ([], 0) maxSize of (result, snk) \<Rightarrow>
        if result \<noteq> OK then fst snk else fst (printLoop (healthMap t) snk maxSize))"

definition map_begin :: "(u32, u8) std_map \<Rightarrow> map_iterator" where
  "map_begin m = (case m of [] \<Rightarrow> At_End | (k, v) # _ \<Rightarrow> At k)"

definition map_next :: "u32 \<Rightarrow> (u32, u8) std_map \<Rightarrow> map_iterator" where
  "map_next k m = map_begin (drop 1 (dropWhile (\<lambda>e. fst e \<noteq> k) m))"

text \<open>\<open>None\<close> is the use of an iterator to an erased entry, which is undefined.\<close>

definition ht_iterate :: "bool \<Rightarrow> HealthTable \<Rightarrow> (retval \<times> (u32 \<times> u8) option \<times> HealthTable) option" where
  "ht_iterate reset t =
     (let t = (if reset then t\<lparr>mapIterator := map_begin (healthMap t)\<rparr> else t) in
      case mapIterator t of
        At_End \<Rightarrow> Some (FAILED, None, t)
      | Dangling \<Rightarrow> None
      | At k \<Rightarrow> Some (OK, Some (k, the (map_of (healthMap t) k)), t\<lparr>mapIterator := map_next k (healthMap t)\<rparr>))"

section \<open>The contract of the table\<close>

text \<open>
  What \<open>ManagesHealthIF\<close> promises its clients: a registered object has the state that was set last, an
  object that is not registered is healthy, and the states of the objects do not depend on each other.
\<close>

locale manages_health =
  fixes has :: "'o \<Rightarrow> 't \<Rightarrow> bool"
    and get :: "'o \<Rightarrow> 't \<Rightarrow> u8"
    and set :: "'o \<Rightarrow> u8 \<Rightarrow> 't \<Rightarrow> 't"
  assumes has_set: "has o1 (set o2 h t) = has o1 t"
    and get_set: "get o1 (set o2 h t) = (if o1 = o2 \<and> has o1 t then h else get o1 t)"
    and get_unknown: "\<not> has o1 t \<Longrightarrow> get o1 t = HEALTHY"
begin

lemma runs_keep_objects: "has o1 (fold (\<lambda>(x, h). set x h) ops t) = has o1 t"
proof (induction ops arbitrary: t)
  case (Cons op ops)
  then show ?case by (cases op) (simp add: has_set)
qed simp

lemma last_set_wins:
  assumes "has o1 t" and "\<forall>(x, h) \<in> List.set ops. x \<noteq> o1"
  shows "get o1 (fold (\<lambda>(x, h). set x h) ((o1, h) # ops) t) = h"
proof -
  have "get o1 (fold (\<lambda>(x, h). set x h) ops u) = get o1 u" for u
    using assms(2)
  proof (induction ops arbitrary: u)
    case (Cons op ops)
    then show ?case by (cases op) (auto simp: get_set)
  qed simp
  then show ?thesis using assms(1) by (simp add: get_set)
qed

end

lemma ht_has_set: "hasHealth o1 (ht_setHealth o2 h t) = hasHealth o1 t"
  by (auto simp: hasHealth_def ht_setHealth_def split: option.splits)

lemma ht_get_set:
  "ht_getHealth o1 (ht_setHealth o2 h t) = (if o1 = o2 \<and> hasHealth o1 t then h else ht_getHealth o1 t)"
  by (auto simp: hasHealth_def ht_getHealth_def ht_setHealth_def split: option.splits)

lemma ht_get_unknown: "\<not> hasHealth o1 t \<Longrightarrow> ht_getHealth o1 t = HEALTHY"
  by (auto simp: hasHealth_def ht_getHealth_def split: option.splits)

interpretation health_table: manages_health hasHealth ht_getHealth ht_setHealth
  by unfold_locales (simp_all add: ht_has_set ht_get_set ht_get_unknown)

section \<open>Printing and iterating\<close>

definition health_image :: "(u32, u8) std_map \<Rightarrow> bytes" where
  "health_image m = concat (map (\<lambda>(k, h). enc_word BIG k @ [h]) m)"

lemma length_health_image [simp]: "length (health_image m) = 5 * length m"
  by (induction m) (auto simp: health_image_def convertBigEndian_def mem_image_def sizeof_def)


lemma printLoop_fits:
  "n + 5 * length hs \<le> maxSize \<Longrightarrow>
   printLoop hs (bs, n) maxSize = (bs @ health_image hs, n + 5 * length hs)"
proof (induction hs arbitrary: bs n)
  case (Cons h hs)
  obtain k v where h: "h = (k, v)" by (cases h)
  have "enc_word BIG v = [v]" by (simp add: convertBigEndian_def mem_image_def sizeof_def)
  then show ?case
    using Cons.prems Cons.IH [of "5 + n"]
    by (simp add: h ser_word_def sizeof_def health_image_def add.commute add.left_commute)
qed (simp add: health_image_def)

lemma ser_word_bounded:
  "ser_word e w snk m = (r, snk') \<Longrightarrow> length (fst snk) = snd snk \<Longrightarrow> snd snk \<le> m \<Longrightarrow>
   length (fst snk') = snd snk' \<and> snd snk' \<le> m"
  by (cases e) (auto simp: ser_word_def Let_def convertBigEndian_def convertLittleEndian_def mem_image_def
    split: if_splits)

lemma printLoop_bounded:
  "length (fst snk) = snd snk \<Longrightarrow> snd snk \<le> maxSize \<Longrightarrow>
   length (fst (printLoop hs snk maxSize)) \<le> maxSize"
proof (induction hs snk maxSize rule: printLoop.induct)
  case (2 object health hs snk maxSize)
  obtain r s where 1: "ser_word BIG object snk maxSize = (r, s)" by (metis surj_pair)
  obtain r' s' where 3: "ser_word BIG health s maxSize = (r', s')" by (metis surj_pair)
  note b1 = ser_word_bounded [OF 1 "2.prems"]
  then have "length (fst s') = snd s' \<and> snd s' \<le> maxSize" using ser_word_bounded [OF 3] by simp
  then show ?case using b1 "2.IH" [OF 1 [symmetric] _ 3 [symmetric]] by (simp add: 1 3)
qed simp

lemma printAll_fits:
  assumes "2 + 5 * length (healthMap t) \<le> maxSize"
  shows "printAll t maxSize =
     enc_word BIG (of_nat (length (healthMap t)) :: u16) @ health_image (healthMap t)"
  using assms by (simp add: printAll_def ser_word_def sizeof_def printLoop_fits)

lemma printAll_bounded: "length (printAll t maxSize) \<le> maxSize"
proof -
  obtain r s where 1: "ser_word BIG (of_nat (length (healthMap t)) :: u16) ([], 0) maxSize = (r, s)"
    by (metis surj_pair)
  show ?thesis
    using ser_word_bounded [OF 1] printLoop_bounded [of s maxSize] by (simp add: printAll_def 1)
qed

text \<open>
  The size that the table announces counts the bytes of the identifiers and one single state: a buffer of
  that size cannot hold the table as soon as it has two entries.
\<close>

lemma print_size_too_small:
  assumes "2 \<le> length (healthMap t)" and "length (healthMap t) < 2 ^ 29"
  shows "printAll t (getPrintSize t) \<noteq>
     enc_word BIG (of_nat (length (healthMap t)) :: u16) @ health_image (healthMap t)"
proof
  assume "printAll t (getPrintSize t) =
     enc_word BIG (of_nat (length (healthMap t)) :: u16) @ health_image (healthMap t)"
  then have "length (printAll t (getPrintSize t)) = 2 + 5 * length (healthMap t)"
    by (simp add: convertBigEndian_def mem_image_def sizeof_def)
  moreover have "getPrintSize t = length (healthMap t) * 4 + 3"
    using assms(2) by (simp add: getPrintSize_def)
  ultimately show False using printAll_bounded [of t "getPrintSize t"] assms(1) by simp
qed

text \<open>Iterating: from an entry to the one with the next key; undefined once an object has been removed.\<close>

lemma iterate_step:
  assumes "healthMap t = xs @ (k, v) # ys" and "distinct (map fst (healthMap t))"
    and "mapIterator t = At k"
  shows "ht_iterate False t = Some (OK, Some (k, v), t\<lparr>mapIterator := map_begin ys\<rparr>)"
proof -
  have "dropWhile (\<lambda>e. fst e \<noteq> k) (xs @ (k, v) # ys) = (k, v) # ys"
    using assms(1,2) by (subst dropWhile_append2) (auto simp: image_iff)
  moreover have "map_of (healthMap t) k = Some v"
    using assms(1,2) by (intro map_of_is_SomeI) auto
  ultimately show ?thesis using assms by (simp add: ht_iterate_def map_next_def)
qed

lemma iterate_after_removal_is_undefined:
  assumes "map_of (healthMap t) object = Some h"
  shows "ht_iterate False (snd (removeObject object t)) = None"
  using assms by (simp add: removeObject_def ht_iterate_def)

end
