(* ===== verification/Mode_Helper.thy ===== *)
theory Mode_Helper
  imports Health_Table
begin

text \<open>
  What every commandable object of the framework has: a queue, the health helper
  (\<open>src/src/fsfw/health/HealthHelper.cpp\<close>) and the mode helper (\<open>src/src/fsfw/modes/ModeHelper.cpp\<close>). Both
  helpers are members of their owner and work on its state; the owner's virtual operations are arguments.
\<close>

section \<open>State\<close>

text \<open>The events that the modelled objects raise.\<close>

datatype Event =
    CHANGING_MODE | MODE_INFO | FALLBACK_FAILED | MODE_TRANSITION_FAILED | CANT_KEEP_MODE | OBJECT_IN_INVALID_MODE
  | FORCING_MODE | MODE_CMD_REJECTED | HEALTH_INFO_EVENT | CHILD_CHANGED_HEALTH
  | DEVICE_BUILDING_COMMAND_FAILED | DEVICE_SENDING_COMMAND_FAILED | DEVICE_REQUESTING_REPLY_FAILED
  | DEVICE_READING_REPLY_FAILED | DEVICE_INTERPRETING_REPLY_FAILED | DEVICE_MISSED_REPLY | DEVICE_UNKNOWN_REPLY
  | DEVICE_UNREQUESTED_REPLY | INVALID_DEVICE_COMMAND | SWITCH_WENT_OFF | TEMP_NOT_IN_OP_RANGE
  | GET_DATA_FAILED | STORE_DATA_FAILED

text \<open>
  An owner with its two helpers (prefixes \<open>hh_\<close> and \<open>mh_\<close>), its queue (own identifier and last partner), its
  mode, and what it shares with the system: the health table, the messages sent and the events raised. The
  argument \<open>st\<close> of the operations is the status with which the operating system answers a send, from the
  receiver and the messages sent before.
\<close>

record ModeOwner =
  sb_objectId :: u32
  sb_queue :: queue_id
  sb_last :: queue_id
  sb_sent :: "(queue_id \<times> CommandMessage) list"
  sb_events :: "(Event \<times> u32 \<times> u32) list"
  sb_healthTable :: HealthTable
  hh_parentQueue :: queue_id
  mh_theOneWhoCommandedAMode :: queue_id
  mh_commandedMode :: u32
  mh_commandedSubmode :: u8
  mh_forced :: bool
  mh_parentQueueId :: queue_id
  sb_mode :: u32
  sb_submode :: u8

type_synonym send_status = "queue_id \<Rightarrow> (queue_id \<times> CommandMessage) list \<Rightarrow> retval"

abbreviation MODE_OFF :: u32 where "MODE_OFF \<equiv> 0"
abbreviation SUBMODE_NONE :: u8 where "SUBMODE_NONE \<equiv> 0"
abbreviation IN_TRANSITION :: retval where "IN_TRANSITION \<equiv> RC 14 3"
abbreviation NO_REPLY_PARTNER :: retval where "NO_REPLY_PARTNER \<equiv> RC 58 3"

definition sendMessageFrom ::
  "send_status \<Rightarrow> queue_id \<Rightarrow> CommandMessage \<Rightarrow> 'a ModeOwner_scheme \<Rightarrow> retval \<times> 'a ModeOwner_scheme" where
  "sendMessageFrom st dest message s =
     (let result = st dest (sb_sent s) in
      (result, if result = OK then s\<lparr>sb_sent := sb_sent s @ [(dest, message\<lparr>cm_sender := sb_queue s\<rparr>)]\<rparr> else s))"

definition mq_reply ::
  "send_status \<Rightarrow> CommandMessage \<Rightarrow> 'a ModeOwner_scheme \<Rightarrow> retval \<times> 'a ModeOwner_scheme" where
  "mq_reply st message s =
     (if sb_last s \<noteq> NO_QUEUE then sendMessageFrom st (sb_last s) message s else (NO_REPLY_PARTNER, s))"

definition triggerEvent ::
  "Event \<Rightarrow> u32 \<Rightarrow> u32 \<Rightarrow> 'a ModeOwner_scheme \<Rightarrow> 'a ModeOwner_scheme" where
  "triggerEvent event p1 p2 s = s\<lparr>sb_events := sb_events s @ [(event, p1, p2)]\<rparr>"

section \<open>HealthHelper\<close>

definition hh_getHealth :: "'a ModeOwner_scheme \<Rightarrow> u8" where
  "hh_getHealth s = ht_getHealth (sb_objectId s) (sb_healthTable s)"

definition informParent ::
  "send_status \<Rightarrow> u8 \<Rightarrow> u8 \<Rightarrow> 'a ModeOwner_scheme \<Rightarrow> 'a ModeOwner_scheme" where
  "informParent st health oldHealth s =
     (if hh_parentQueue s = NO_QUEUE then s
      else snd (sendMessageFrom st (hh_parentQueue s) (setHealthMessage HEALTH_INFO health oldHealth) s))"

definition hh_setHealth :: "send_status \<Rightarrow> u8 \<Rightarrow> 'a ModeOwner_scheme \<Rightarrow> 'a ModeOwner_scheme" where
  "hh_setHealth st health s =
     (let oldHealth = hh_getHealth s;
          s = triggerEvent HEALTH_INFO_EVENT (ucast health) (ucast oldHealth) s
      in if health \<noteq> oldHealth then
           informParent st health oldHealth
             (s\<lparr>sb_healthTable := ht_setHealth (sb_objectId s) health (sb_healthTable s)\<rparr>)
         else s)"

text \<open>\<open>setHealth\<close> is the owner's virtual operation.\<close>

definition handleSetHealthCommand ::
  "(send_status \<Rightarrow> u8 \<Rightarrow> 'a ModeOwner_scheme \<Rightarrow> retval \<times> 'a ModeOwner_scheme) \<Rightarrow>
   send_status \<Rightarrow> CommandMessage \<Rightarrow> 'a ModeOwner_scheme \<Rightarrow> 'a ModeOwner_scheme" where
  "handleSetHealthCommand setHealth st command s =
     (case setHealth st (hm_getHealth command) s of (result, s) \<Rightarrow>
        if cm_sender command = NO_QUEUE then s
        else snd (sendMessageFrom st (cm_sender command)
               (if result = OK then cm_new REPLY_HEALTH_SET 0 0
                else setReplyRejected result (cm_command command)) s))"

definition handleHealthCommand ::
  "(send_status \<Rightarrow> u8 \<Rightarrow> 'a ModeOwner_scheme \<Rightarrow> retval \<times> 'a ModeOwner_scheme) \<Rightarrow>
   send_status \<Rightarrow> CommandMessage \<Rightarrow> 'a ModeOwner_scheme \<Rightarrow> retval \<times> 'a ModeOwner_scheme" where
  "handleHealthCommand setHealth st message s =
     (if cm_command message = HEALTH_SET then (OK, handleSetHealthCommand setHealth st message s)
      else if cm_command message = HEALTH_ANNOUNCE then
        (OK, triggerEvent HEALTH_INFO_EVENT (ucast (hh_getHealth s)) (ucast (hh_getHealth s)) s)
      else (FAILED, s))"

section \<open>ModeHelper\<close>

definition sendModeReplyMessage ::
  "send_status \<Rightarrow> u32 \<Rightarrow> u8 \<Rightarrow> 'a ModeOwner_scheme \<Rightarrow> 'a ModeOwner_scheme" where
  "sendModeReplyMessage st ownerMode ownerSubmode s =
     (if mh_theOneWhoCommandedAMode s \<noteq> NO_QUEUE then
        snd (sendMessageFrom st (mh_theOneWhoCommandedAMode s)
          (setModeMessage
             (if ownerMode \<noteq> mh_commandedMode s \<or> ownerSubmode \<noteq> mh_commandedSubmode s
              then REPLY_WRONG_MODE_REPLY else REPLY_MODE_REPLY) ownerMode ownerSubmode) s)
      else s)"

definition sendModeInfoMessage ::
  "send_status \<Rightarrow> u32 \<Rightarrow> u8 \<Rightarrow> 'a ModeOwner_scheme \<Rightarrow> 'a ModeOwner_scheme" where
  "sendModeInfoMessage st ownerMode ownerSubmode s =
     (if mh_theOneWhoCommandedAMode s \<noteq> mh_parentQueueId s \<and> mh_parentQueueId s \<noteq> NO_QUEUE then
        snd (sendMessageFrom st (mh_parentQueueId s) (setModeMessage REPLY_MODE_INFO ownerMode ownerSubmode) s)
      else s)"

definition mh_modeChanged ::
  "send_status \<Rightarrow> u32 \<Rightarrow> u8 \<Rightarrow> 'a ModeOwner_scheme \<Rightarrow> 'a ModeOwner_scheme" where
  "mh_modeChanged st ownerMode ownerSubmode s =
     (sendModeInfoMessage st ownerMode ownerSubmode
        (sendModeReplyMessage st ownerMode ownerSubmode (s\<lparr>mh_forced := False\<rparr>)))
       \<lparr>mh_theOneWhoCommandedAMode := NO_QUEUE\<rparr>"

text \<open>
  The owner of a mode helper is an object with modes (\<open>HasModesIF\<close>): \<open>check\<close>, \<open>start\<close>, \<open>ext\<close> and \<open>announce\<close>
  are its \<open>checkModeCommand\<close>, \<open>startTransition\<close>, \<open>setToExternalControl\<close> and \<open>announceMode\<close>.
\<close>

definition handleModeCommand ::
  "(u32 \<Rightarrow> u8 \<Rightarrow> 'a ModeOwner_scheme \<Rightarrow> retval \<times> 'a ModeOwner_scheme) \<Rightarrow>
   (u32 \<Rightarrow> u8 \<Rightarrow> 'a ModeOwner_scheme \<Rightarrow> 'a ModeOwner_scheme option) \<Rightarrow>
   ('a ModeOwner_scheme \<Rightarrow> 'a ModeOwner_scheme) \<Rightarrow>
   (bool \<Rightarrow> 'a ModeOwner_scheme \<Rightarrow> 'a ModeOwner_scheme) \<Rightarrow>
   send_status \<Rightarrow> CommandMessage \<Rightarrow> 'a ModeOwner_scheme \<Rightarrow> (retval \<times> 'a ModeOwner_scheme) option" where
  "handleModeCommand check start ext announce st command s =
     (let c = cm_command command in
      if c = CMD_MODE_COMMAND_FORCED \<or> c = CMD_MODE_COMMAND then
        (let s = (if c = CMD_MODE_COMMAND_FORCED then s\<lparr>mh_forced := True\<rparr> else s);
             mode = mm_getMode command; submode = mm_getSubmode command;
             (result, s) = check mode submode s
         in if result \<noteq> OK then
              Some (OK, snd (sendMessageFrom st (cm_sender command) (setCantReachMode result) s))
            else
              (let s = s\<lparr>mh_theOneWhoCommandedAMode := cm_sender command,
                         mh_commandedMode := mode, mh_commandedSubmode := submode\<rparr>;
                   s = (if mh_parentQueueId s \<noteq> NO_QUEUE \<and> mh_theOneWhoCommandedAMode s \<noteq> mh_parentQueueId s
                        then ext s else s)
               in map_option (\<lambda>s. (OK, s)) (start mode submode s)))
      else if c = CMD_MODE_READ then
        Some (OK, snd (sendMessageFrom st (cm_sender command)
                         (setModeMessage REPLY_MODE_REPLY (sb_mode s) (sb_submode s)) s))
      else if c = CMD_MODE_ANNOUNCE then Some (OK, announce False s)
      else if c = CMD_MODE_ANNOUNCE_RECURSIVELY then Some (OK, announce True s)
      else Some (FAILED, s))"

section \<open>The owner of a mode helper\<close>

text \<open>
  What the mode helper needs of its owner (\<open>HasModesIF\<close>): checking a command and going to external
  control leave alone what the helper has noted about the command, and starting a transition at most reports a
  mode, which clears the commander. Then an accepted command is on record until the owner reports a mode, and the
  report goes to the one who commanded.
\<close>

definition mh_record :: "'a ModeOwner_scheme \<Rightarrow> queue_id \<times> u32 \<times> u8" where
  "mh_record s = (mh_theOneWhoCommandedAMode s, mh_commandedMode s, mh_commandedSubmode s)"

locale has_modes =
  fixes check :: "u32 \<Rightarrow> u8 \<Rightarrow> 'a ModeOwner_scheme \<Rightarrow> retval \<times> 'a ModeOwner_scheme"
    and start :: "u32 \<Rightarrow> u8 \<Rightarrow> 'a ModeOwner_scheme \<Rightarrow> 'a ModeOwner_scheme option"
    and ext :: "'a ModeOwner_scheme \<Rightarrow> 'a ModeOwner_scheme"
    and announce :: "bool \<Rightarrow> 'a ModeOwner_scheme \<Rightarrow> 'a ModeOwner_scheme"
  assumes check_record: "mh_record (snd (check m sm s)) = mh_record s"
    and start_keeps: "start m sm s = Some s' \<Longrightarrow> mh_record s' = mh_record s \<or> mh_record s' = (NO_QUEUE, snd (mh_record s))"
    and ext_record: "mh_record (ext s) = mh_record s"
begin

lemma accepted_command_starts:
  assumes h: "handleModeCommand check start ext announce st msg s = Some (OK, s')"
    and c: "cm_command msg = CMD_MODE_COMMAND" and a: "fst (check (mm_getMode msg) (mm_getSubmode msg) s) = OK"
  shows "\<exists>t. mh_record t = (cm_sender msg, mm_getMode msg, mm_getSubmode msg) \<and>
    start (mm_getMode msg) (mm_getSubmode msg) t = Some s'"
proof -
  have ne: "CMD_MODE_COMMAND \<noteq> CMD_MODE_COMMAND_FORCED" by (simp add: codes)
  let ?s = "(snd (check (mm_getMode msg) (mm_getSubmode msg) s))\<lparr>mh_theOneWhoCommandedAMode := cm_sender msg,
    mh_commandedMode := mm_getMode msg, mh_commandedSubmode := mm_getSubmode msg\<rparr>"
  have r: "mh_record ?s = (cm_sender msg, mm_getMode msg, mm_getSubmode msg)" by (simp add: mh_record_def)
  have "start (mm_getMode msg) (mm_getSubmode msg) ?s = Some s' \<or> start (mm_getMode msg) (mm_getSubmode msg) (ext ?s) = Some s'"
    using h c a ne by (auto simp: handleModeCommand_def Let_def case_prod_unfold split: if_splits)
  then show ?thesis using r ext_record [of ?s] by metis
qed

lemma accepted_command_answered_or_recorded:
  assumes h: "handleModeCommand check start ext announce st msg s = Some (OK, s')"
    and c: "cm_command msg = CMD_MODE_COMMAND" and a: "fst (check (mm_getMode msg) (mm_getSubmode msg) s) = OK"
  shows "mh_record s' = (cm_sender msg, mm_getMode msg, mm_getSubmode msg) \<or>
    mh_record s' = (NO_QUEUE, mm_getMode msg, mm_getSubmode msg)"
  using accepted_command_starts [OF assms] start_keeps by fastforce

lemma refused_command_answered:
  assumes c: "cm_command msg = CMD_MODE_COMMAND" and r: "fst (check (mm_getMode msg) (mm_getSubmode msg) s) = r" "r \<noteq> OK"
  shows "handleModeCommand check start ext announce st msg s =
    Some (OK, snd (sendMessageFrom st (cm_sender msg) (setCantReachMode r)
      (snd (check (mm_getMode msg) (mm_getSubmode msg) s))))"
proof -
  have ne: "CMD_MODE_COMMAND \<noteq> CMD_MODE_COMMAND_FORCED" by (simp add: codes)
  then show ?thesis using c r by (simp add: handleModeCommand_def Let_def case_prod_unfold)
qed

end

text \<open>An owner that never reports a mode while it starts a transition.\<close>

locale has_slow_modes = has_modes +
  assumes start_record: "start m sm s = Some s' \<Longrightarrow> mh_record s' = mh_record s"
begin

lemma accepted_command_recorded:
  assumes h: "handleModeCommand check start ext announce st msg s = Some (OK, s')"
    and c: "cm_command msg = CMD_MODE_COMMAND" and a: "fst (check (mm_getMode msg) (mm_getSubmode msg) s) = OK"
  shows "mh_record s' = (cm_sender msg, mm_getMode msg, mm_getSubmode msg)"
  using accepted_command_starts [OF assms] start_record by metis

end

end
