(* ===== verification/Subsystems.thy ===== *)
theory Subsystems
  imports Mode_Helper Fixed_Maps
begin

text \<open>
  The mode machine of a subsystem: the base class and \<open>Subsystem\<close>
  (\<open>src/src/fsfw/subsystem/SubsystemBase.cpp\<close>, \<open>src/src/fsfw/subsystem/Subsystem.cpp\<close>), built without a mode
  store (\<open>FSFW_USE_MODESTORE\<close> is 0, the default). A subsystem reaches a mode by commanding its children
  through the tables of a sequence and by checking their replies against the first table of the sequence.

  The class hierarchy is an extension of records. Operations that may touch memory they must not (an absent
  entry of a map, the entry of an exhausted iterator) return an option, \<open>None\<close> being undefined behaviour.
\<close>

section \<open>Mode lists\<close>

record ModeListEntry =
  value1 :: u32
  value2 :: u32
  value3 :: u8
  value4 :: u8

definition mle_new :: ModeListEntry where
  "mle_new = \<lparr>value1 = 0, value2 = 0, value3 = 0, value4 = 0\<rparr>"

definition getTableId :: "ModeListEntry \<Rightarrow> u32" where "getTableId e = value1 e"
definition getWaitSeconds :: "ModeListEntry \<Rightarrow> u8" where "getWaitSeconds e = ucast (value2 e)"
definition checkSuccess :: "ModeListEntry \<Rightarrow> bool" where "checkSuccess e \<longleftrightarrow> value3 e = 1"
definition getObject :: "ModeListEntry \<Rightarrow> u32" where "getObject e = value1 e"
definition mle_getMode :: "ModeListEntry \<Rightarrow> u32" where "mle_getMode e = value2 e"
definition mle_getSubmode :: "ModeListEntry \<Rightarrow> u8" where "mle_getSubmode e = value3 e"
definition inheritSubmode :: "ModeListEntry \<Rightarrow> bool" where "inheritSubmode e \<longleftrightarrow> value4 e = 1"

definition mle_serialize :: "ModeListEntry \<Rightarrow> sink \<Rightarrow> nat \<Rightarrow> retval \<times> sink" where
  "mle_serialize e snk maxSize =
     (case ser_word BIG (value1 e) snk maxSize of (result, snk) \<Rightarrow>
        if result \<noteq> OK then (result, snk)
        else (case ser_word BIG (value2 e) snk maxSize of (result, snk) \<Rightarrow>
          if result \<noteq> OK then (result, snk)
          else (case ser_word BIG (value3 e) snk maxSize of (result, snk) \<Rightarrow>
            if result \<noteq> OK then (result, snk) else ser_word BIG (value4 e) snk maxSize)))"

definition mle_getSerializedSize :: "ModeListEntry \<Rightarrow> nat" where
  "mle_getSerializedSize e = sizeof (value1 e) + sizeof (value2 e) + sizeof (value3 e) + sizeof (value4 e)"

definition mle_deSerialize :: "source \<Rightarrow> retval \<times> ModeListEntry option \<times> source" where
  "mle_deSerialize src =
     (case deser_word BIG src of (result, v1, src) \<Rightarrow>
        if result \<noteq> OK then (result, None, src)
        else (case deser_word BIG src of (result, v2, src) \<Rightarrow>
          if result \<noteq> OK then (result, None, src)
          else (case deser_word BIG src of (result, v3, src) \<Rightarrow>
            if result \<noteq> OK then (result, None, src)
            else (case deser_word BIG src of (result, v4, src) \<Rightarrow>
              if result \<noteq> OK then (result, None, src)
              else (OK, Some \<lparr>value1 = the v1, value2 = the v2, value3 = the v3, value4 = the v4\<rparr>, src)))))"

text \<open>
  A hybrid iterator is the list of the entries from the one it designates to the end; the null pointer at
  the end is the empty list.
\<close>

type_synonym mode_iter = "ModeListEntry list"

section \<open>State\<close>

record ChildInfo =
  ci_commandQueue :: queue_id
  ci_mode :: u32
  ci_submode :: u8
  ci_healthChanged :: bool

record SubsystemBase = ModeOwner +
  childrenChangedMode :: bool
  commandsOutstanding :: int
  childrenMap :: "(u32, ChildInfo) std_map"

abbreviation CHILD_NOT_FOUND :: retval where "CHILD_NOT_FOUND \<equiv> RC 11 1"
abbreviation CHILD_DOESNT_HAVE_MODES :: retval where "CHILD_DOESNT_HAVE_MODES \<equiv> RC 11 3"
abbreviation COULD_NOT_INSERT_CHILD :: retval where "COULD_NOT_INSERT_CHILD \<equiv> RC 11 4"
abbreviation TABLE_CONTAINS_INVALID_OBJECT_ID :: retval where "TABLE_CONTAINS_INVALID_OBJECT_ID \<equiv> RC 11 5"

section \<open>SubsystemBase\<close>

definition sb_setHealth :: "send_status \<Rightarrow> u8 \<Rightarrow> 'a SubsystemBase_scheme \<Rightarrow> retval \<times> 'a SubsystemBase_scheme" where
  "sb_setHealth st health s =
     (if health = HEALTHY \<or> health = EXTERNAL_CONTROL then (OK, hh_setHealth st health s)
      else (INVALID_HEALTH_STATE, s))"

text \<open>
  The object manager is the pair of arguments \<open>modesIF\<close> and \<open>healthIF\<close>: the command queue of the object
  with an identifier, if it implements the interface.
\<close>

definition registerChild ::
  "(u32 \<Rightarrow> queue_id option) \<Rightarrow> (u32 \<Rightarrow> queue_id option) \<Rightarrow> u32 \<Rightarrow> 'a SubsystemBase_scheme \<Rightarrow>
   retval \<times> 'a SubsystemBase_scheme" where
  "registerChild modesIF healthIF objectId s =
     (let add = (\<lambda>q m.
            (case map_insert objectId \<lparr>ci_commandQueue = q, ci_mode = m, ci_submode = SUBMODE_NONE,
                                       ci_healthChanged = False\<rparr> (childrenMap s) of (inserted, c) \<Rightarrow>
               if \<not> inserted then (COULD_NOT_INSERT_CHILD, s) else (OK, s\<lparr>childrenMap := c\<rparr>)))
      in case modesIF objectId of
           None \<Rightarrow> (case healthIF objectId of
             None \<Rightarrow> (CHILD_DOESNT_HAVE_MODES, s)
           | Some q \<Rightarrow> add q MODE_OFF)
         | Some q \<Rightarrow> add q (- 1))"

fun checkStateAgainstTable :: "mode_iter \<Rightarrow> u8 \<Rightarrow> 'a SubsystemBase_scheme \<Rightarrow> retval" where
  "checkStateAgainstTable [] targetSubmode s = OK"
| "checkStateAgainstTable (e # tableIter) targetSubmode s =
     (case map_of (childrenMap s) (getObject e) of
        None \<Rightarrow> FAILED
      | Some child \<Rightarrow>
          if ci_mode child \<noteq> mle_getMode e then FAILED
          else if ci_submode child \<noteq> (if inheritSubmode e then targetSubmode else mle_getSubmode e) then FAILED
          else checkStateAgainstTable tableIter targetSubmode s)"

text \<open>The command that \<open>executeTable\<close> prepares for an entry; \<open>None\<close> is the \<open>continue\<close> of the loop.\<close>

definition table_command :: "ModeListEntry \<Rightarrow> u8 \<Rightarrow> 'a SubsystemBase_scheme \<Rightarrow> CommandMessage option" where
  "table_command e targetSubmode s =
     (let object = getObject e;
          submodeToCommand = (if inheritSubmode e then targetSubmode else mle_getSubmode e)
      in if hasHealth object (sb_healthTable s) then
           if isFaulty object (sb_healthTable s) then
             Some (setModeMessage CMD_MODE_COMMAND MODE_OFF SUBMODE_NONE)
           else if mh_forced s then
             Some (setModeMessage CMD_MODE_COMMAND_FORCED (mle_getMode e) submodeToCommand)
           else if isCommandable object (sb_healthTable s) then
             Some (setModeMessage CMD_MODE_COMMAND (mle_getMode e) submodeToCommand)
           else None
         else Some (setModeMessage CMD_MODE_COMMAND (mle_getMode e) submodeToCommand))"

definition execute_entry ::
  "send_status \<Rightarrow> u8 \<Rightarrow> ModeListEntry \<Rightarrow> 'a SubsystemBase_scheme \<Rightarrow> 'a SubsystemBase_scheme" where
  "execute_entry st targetSubmode e s =
     (case map_of (childrenMap s) (getObject e) of
        None \<Rightarrow> s
      | Some child \<Rightarrow>
          (case table_command e targetSubmode s of
             None \<Rightarrow> s
           | Some command \<Rightarrow>
               if ci_mode child = mm_getMode command \<and> ci_submode child = mm_getSubmode command \<and> \<not> mh_forced s
               then s
               else (case sendMessageFrom st (ci_commandQueue child) command s of (result, s) \<Rightarrow>
                 if result = OK then s\<lparr>commandsOutstanding := commandsOutstanding s + 1\<rparr> else s)))"

definition executeTable ::
  "send_status \<Rightarrow> mode_iter \<Rightarrow> u8 \<Rightarrow> 'a SubsystemBase_scheme \<Rightarrow> 'a SubsystemBase_scheme" where
  "executeTable st tableIter targetSubmode s =
     fold (execute_entry st targetSubmode) tableIter (s\<lparr>commandsOutstanding := 0\<rparr>)"

fun update_child ::
  "queue_id \<Rightarrow> (ChildInfo \<Rightarrow> ChildInfo) \<Rightarrow> (u32, ChildInfo) std_map \<Rightarrow> (u32, ChildInfo) std_map option" where
  "update_child queue f [] = None"
| "update_child queue f ((k, c) # m) =
     (if ci_commandQueue c = queue then Some ((k, f c) # m)
      else map_option (\<lambda>m. (k, c) # m) (update_child queue f m))"

definition updateChildMode ::
  "queue_id \<Rightarrow> u32 \<Rightarrow> u8 \<Rightarrow> 'a SubsystemBase_scheme \<Rightarrow> retval \<times> 'a SubsystemBase_scheme" where
  "updateChildMode queue mode submode s =
     (case update_child queue (\<lambda>c. c\<lparr>ci_mode := mode, ci_submode := submode\<rparr>) (childrenMap s) of
        Some m \<Rightarrow> (OK, s\<lparr>childrenMap := m\<rparr>)
      | None \<Rightarrow> (CHILD_NOT_FOUND, s))"

definition updateChildChangedHealth ::
  "queue_id \<Rightarrow> bool \<Rightarrow> 'a SubsystemBase_scheme \<Rightarrow> retval \<times> 'a SubsystemBase_scheme" where
  "updateChildChangedHealth queue changedHealth s =
     (case update_child queue (\<lambda>c. c\<lparr>ci_healthChanged := changedHealth\<rparr>) (childrenMap s) of
        Some m \<Rightarrow> (OK, s\<lparr>childrenMap := m\<rparr>)
      | None \<Rightarrow> (CHILD_NOT_FOUND, s))"

definition handleModeReply ::
  "CommandMessage \<Rightarrow> 'a SubsystemBase_scheme \<Rightarrow> retval \<times> 'a SubsystemBase_scheme" where
  "handleModeReply message s =
     (let c = cm_command message;
          updated = (snd (updateChildMode (cm_sender message) (mm_getMode message) (mm_getSubmode message) s))
                      \<lparr>childrenChangedMode := True\<rparr>
      in if c = REPLY_MODE_INFO then (OK, updated)
         else if c = REPLY_MODE_REPLY \<or> c = REPLY_WRONG_MODE_REPLY then
           (OK, updated\<lparr>commandsOutstanding := commandsOutstanding updated - 1\<rparr>)
         else if c = REPLY_CANT_REACH_MODE then
           (OK, fold (\<lambda>(object, child) s. if ci_commandQueue child = cm_sender message
                        then triggerEvent MODE_CMD_REJECTED object (cm_parameter message) s else s)
                  (childrenMap s) (s\<lparr>commandsOutstanding := commandsOutstanding s - 1\<rparr>))
         else (FAILED, s))"

fun checkTable :: "mode_iter \<Rightarrow> 'a SubsystemBase_scheme \<Rightarrow> retval" where
  "checkTable [] s = OK"
| "checkTable (e # tableIter) s =
     (if map_of (childrenMap s) (getObject e) = None then TABLE_CONTAINS_INVALID_OBJECT_ID
      else checkTable tableIter s)"

definition commandAllChildren ::
  "send_status \<Rightarrow> CommandMessage \<Rightarrow> 'a SubsystemBase_scheme \<Rightarrow> 'a SubsystemBase_scheme" where
  "commandAllChildren st message s =
     fold (\<lambda>(object, child) s. snd (sendMessageFrom st (ci_commandQueue child) message s)) (childrenMap s) s"

definition announceMode :: "send_status \<Rightarrow> bool \<Rightarrow> 'a SubsystemBase_scheme \<Rightarrow> 'a SubsystemBase_scheme" where
  "announceMode st recursive s =
     (let s = triggerEvent MODE_INFO (sb_mode s) (ucast (sb_submode s)) s in
      if recursive then commandAllChildren st (setModeMessage CMD_MODE_ANNOUNCE_RECURSIVELY 0 0) s else s)"

definition sb_setMode :: "send_status \<Rightarrow> u32 \<Rightarrow> u8 \<Rightarrow> 'a SubsystemBase_scheme \<Rightarrow> 'a SubsystemBase_scheme" where
  "sb_setMode st newMode newSubmode s =
     announceMode st False ((mh_modeChanged st newMode newSubmode s)\<lparr>sb_mode := newMode, sb_submode := newSubmode\<rparr>)"

definition setToExternalControl :: "send_status \<Rightarrow> 'a SubsystemBase_scheme \<Rightarrow> 'a SubsystemBase_scheme" where
  "setToExternalControl st s = hh_setHealth st EXTERNAL_CONTROL s"

text \<open>
  The loop of \<open>checkCommandQueue\<close> over the messages that wait in the queue; \<open>modes\<close> is the mode helper's
  handler for this owner, \<open>handle\<close> the virtual \<open>handleCommandMessage\<close>.
\<close>

fun checkCommandQueue ::
  "(CommandMessage \<Rightarrow> 'a SubsystemBase_scheme \<Rightarrow> (retval \<times> 'a SubsystemBase_scheme) option) \<Rightarrow>
   (CommandMessage \<Rightarrow> 'a SubsystemBase_scheme \<Rightarrow> (retval \<times> 'a SubsystemBase_scheme) option) \<Rightarrow>
   send_status \<Rightarrow> CommandMessage list \<Rightarrow> 'a SubsystemBase_scheme \<Rightarrow> 'a SubsystemBase_scheme option" where
  "checkCommandQueue modes handle st [] s = Some s"
| "checkCommandQueue modes handle st (command # msgs) s =
     (case handleHealthCommand sb_setHealth st command (s\<lparr>sb_last := cm_sender command\<rparr>) of (result, s) \<Rightarrow>
        if result = OK then checkCommandQueue modes handle st msgs s
        else (case modes command s of None \<Rightarrow> None | Some (result, s) \<Rightarrow>
          if result = OK then checkCommandQueue modes handle st msgs s
          else (case handleModeReply command s of (result, s) \<Rightarrow>
            if result = OK then checkCommandQueue modes handle st msgs s
            else (case handle command s of None \<Rightarrow> None | Some (result, s) \<Rightarrow>
              checkCommandQueue modes handle st msgs
                (if result \<noteq> OK
                 then snd (mq_reply st (setReplyRejected UNKNOWN_COMMAND (cm_command command)) s)
                 else s)))))"

section \<open>Subsystem\<close>

text \<open>
  An entry pointer designates a mode list: the application's array, or a linked list in the mode store
  (\<open>islinked\<close>). The arrays are not changed while the subsystem uses them.
\<close>

record EntryPointer =
  islinked :: bool
  ep_entries :: "ModeListEntry list"

record SequenceInfo =
  fallbackSequence :: u32
  si_entries :: EntryPointer

record Subsystem = SubsystemBase +
  isInTransition :: bool
  childrenChangedHealth :: bool
  uptimeStartTable :: u32
  currentTargetTable :: mode_iter
  targetMode :: u32
  targetSubmode :: u8
  initialMode :: u32
  initSubmode :: u8
  currentSequenceIterator :: mode_iter
  modeTables :: "(u32, EntryPointer) fixed_map"
  modeSequences :: "(u32, SequenceInfo) fixed_map"
  IPCStore :: pool

abbreviation TABLE_DOES_NOT_EXIST :: retval where "TABLE_DOES_NOT_EXIST \<equiv> RC 13 3"
abbreviation TABLE_OR_SEQUENCE_LENGTH_INVALID :: retval where "TABLE_OR_SEQUENCE_LENGTH_INVALID \<equiv> RC 13 4"
abbreviation SEQUENCE_DOES_NOT_EXIST :: retval where "SEQUENCE_DOES_NOT_EXIST \<equiv> RC 13 5"
abbreviation FALLBACK_SEQUENCE_DOES_NOT_EXIST :: retval where "FALLBACK_SEQUENCE_DOES_NOT_EXIST \<equiv> RC 13 7"
abbreviation NO_TARGET_TABLE :: retval where "NO_TARGET_TABLE \<equiv> RC 13 8"
abbreviation IS_FALLBACK_SEQUENCE :: retval where "IS_FALLBACK_SEQUENCE \<equiv> RC 13 11"
abbreviation ACCESS_DENIED :: retval where "ACCESS_DENIED \<equiv> RC 13 12"
abbreviation TABLE_IN_USE :: retval where "TABLE_IN_USE \<equiv> RC 13 14"
abbreviation TARGET_TABLE_NOT_REACHED :: retval where "TARGET_TABLE_NOT_REACHED \<equiv> RC 13 161"
abbreviation TABLE_CHECK_FAILED :: retval where "TABLE_CHECK_FAILED \<equiv> RC 13 162"

abbreviation (input) MAX_NUMBER_OF_TABLES_OR_SEQUENCES :: nat where "MAX_NUMBER_OF_TABLES_OR_SEQUENCES \<equiv> 70"
abbreviation (input) MAX_LENGTH_OF_TABLE_OR_SEQUENCE :: nat where "MAX_LENGTH_OF_TABLE_OR_SEQUENCE \<equiv> 20"

definition existsModeSequence :: "u32 \<Rightarrow> Subsystem \<Rightarrow> bool" where
  "existsModeSequence i s \<longleftrightarrow> fm_exists i (modeSequences s) = OK"

definition existsModeTable :: "u32 \<Rightarrow> Subsystem \<Rightarrow> bool" where
  "existsModeTable i s \<longleftrightarrow> fm_exists i (modeTables s) = OK"

text \<open>\<open>findValue\<close> reads past the entries in use when the key is absent.\<close>

definition fm_findValue :: "'k \<Rightarrow> ('k, 'v) fixed_map \<Rightarrow> 'v option" where
  "fm_findValue key m =
     (let i = fm_findIndex key m in if i < fm_size m then Some (snd (fm_map m ! i)) else None)"

definition getSequence :: "u32 \<Rightarrow> Subsystem \<Rightarrow> mode_iter option" where
  "getSequence i s = map_option (\<lambda>info. ep_entries (si_entries info)) (fm_findValue i (modeSequences s))"

definition getTable :: "u32 \<Rightarrow> Subsystem \<Rightarrow> mode_iter option" where
  "getTable i s = map_option ep_entries (fm_findValue i (modeTables s))"

fun getFallback_loop :: "u32 \<Rightarrow> (u32 \<times> SequenceInfo) list \<Rightarrow> u32" where
  "getFallback_loop sequence [] = - 1"
| "getFallback_loop sequence ((k, info) # iter) =
     (if k = sequence then fallbackSequence info else getFallback_loop sequence iter)"

definition getFallbackSequence :: "u32 \<Rightarrow> Subsystem \<Rightarrow> u32" where
  "getFallbackSequence sequence s = getFallback_loop sequence (fm_entries (modeSequences s))"

fun check_tables :: "mode_iter \<Rightarrow> Subsystem \<Rightarrow> retval" where
  "check_tables [] s = OK"
| "check_tables (e # iter) s =
     (if \<not> existsModeTable (getTableId e) s then TABLE_DOES_NOT_EXIST
      else
        (let result = checkTable (the (getTable (getTableId e) s)) s in
         if result \<noteq> OK then result else check_tables iter s))"

definition checkSequence_iter :: "mode_iter \<Rightarrow> u32 \<Rightarrow> Subsystem \<Rightarrow> retval" where
  "checkSequence_iter iter fallback s =
     (if \<not> existsModeSequence fallback s then FALLBACK_SEQUENCE_DOES_NOT_EXIST
      else if iter = [] then NO_TARGET_TABLE
      else check_tables iter s)"

definition checkSequence :: "u32 \<Rightarrow> Subsystem \<Rightarrow> retval" where
  "checkSequence sequence s =
     (if \<not> existsModeSequence sequence s then SEQUENCE_DOES_NOT_EXIST
      else checkSequence_iter (the (getSequence sequence s)) (getFallbackSequence sequence s) s)"

text \<open>The table of the entry that the sequence iterator designates.\<close>

definition getCurrentTable :: "Subsystem \<Rightarrow> mode_iter option" where
  "getCurrentTable s =
     (case currentSequenceIterator s of [] \<Rightarrow> None | e # _ \<Rightarrow> getTable (getTableId e) s)"

definition checkModeCommand :: "u32 \<Rightarrow> u8 \<Rightarrow> Subsystem \<Rightarrow> retval" where
  "checkModeCommand mode submode s =
     (if isInTransition s \<and> mode \<noteq> getFallbackSequence (targetMode s) s then IN_TRANSITION
      else checkSequence mode s)"

definition startTransition :: "send_status \<Rightarrow> u32 \<Rightarrow> u8 \<Rightarrow> Subsystem \<Rightarrow> Subsystem option" where
  "startTransition st sequence submode s =
     (let s = triggerEvent (if mh_forced s then FORCING_MODE else CHANGING_MODE) sequence (ucast submode) s;
          s = s\<lparr>targetMode := sequence, targetSubmode := submode, isInTransition := True,
                commandsOutstanding := 0\<rparr>
      in case getSequence sequence s of
           None \<Rightarrow> None
         | Some [] \<Rightarrow> None
         | Some (e # rest) \<Rightarrow>
             (case getTable (getTableId e) s of
                None \<Rightarrow> None
              | Some target \<Rightarrow>
                  (let s = s\<lparr>currentTargetTable := target, currentSequenceIterator := rest\<rparr> in
                   if rest \<noteq> [] then
                     map_option (\<lambda>table. executeTable st table (targetSubmode s) s) (getCurrentTable s)
                   else Some s)))"

definition transitionFailed :: "send_status \<Rightarrow> retval \<Rightarrow> u32 \<Rightarrow> Subsystem \<Rightarrow> Subsystem option" where
  "transitionFailed st failureCode parameter s =
     (let s = triggerEvent MODE_TRANSITION_FAILED (rv_param failureCode) parameter s in
      if sb_mode s = targetMode s then
        (let s = s\<lparr>mh_forced := True\<rparr>;
             result = checkSequence (getFallbackSequence (sb_mode s) s) s
         in if result \<noteq> OK then
              Some ((triggerEvent FALLBACK_FAILED (rv_param result) (getFallbackSequence (sb_mode s) s) s)
                      \<lparr>isInTransition := False\<rparr>)
            else
              (let s = s\<lparr>sb_mode := getFallbackSequence (sb_mode s) s\<rparr> in
               startTransition st (sb_mode s) (sb_submode s) s))
      else startTransition st (sb_mode s) (sb_submode s) s)"

definition cantKeepMode :: "send_status \<Rightarrow> Subsystem \<Rightarrow> Subsystem option" where
  "cantKeepMode st s =
     (let result = checkSequence (getFallbackSequence (sb_mode s) s) s in
      if result \<noteq> OK then
        Some (triggerEvent FALLBACK_FAILED (rv_param result) (getFallbackSequence (sb_mode s) s) s)
      else
        (let s = s\<lparr>mh_forced := True, sb_mode := getFallbackSequence (sb_mode s) s\<rparr> in
         startTransition st (sb_mode s) SUBMODE_NONE s))"

text \<open>The end of a sequence: the children are checked against the target table.\<close>

definition finish_sequence :: "send_status \<Rightarrow> Subsystem \<Rightarrow> Subsystem option" where
  "finish_sequence st s =
     (if checkStateAgainstTable (currentTargetTable s) (targetSubmode s) s = OK then
        Some ((sb_setMode st (targetMode s) (targetSubmode s) s)\<lparr>isInTransition := False\<rparr>)
      else
        (case getSequence (targetMode s) s of
           None \<Rightarrow> None
         | Some seq \<Rightarrow>
             transitionFailed st TARGET_TABLE_NOT_REACHED
               (case seq of [] \<Rightarrow> 0 | e # _ \<Rightarrow> getTableId e) s))"

text \<open>The next table of the sequence, once the wait time of the current one \<open>e\<close> is over.\<close>

definition next_table :: "send_status \<Rightarrow> u32 \<Rightarrow> ModeListEntry \<Rightarrow> Subsystem \<Rightarrow> Subsystem option" where
  "next_table st now e s =
     (if getWaitSeconds e \<noteq> 0 \<and> uptimeStartTable s = 0 then Some (s\<lparr>uptimeStartTable := now\<rparr>)
      else if getWaitSeconds e \<noteq> 0 \<and> now - uptimeStartTable s < ucast (getWaitSeconds e) * 1000 then Some s
      else
        (let s = s\<lparr>uptimeStartTable := 0, currentSequenceIterator := tl (currentSequenceIterator s)\<rparr> in
         if currentSequenceIterator s \<noteq> [] then
           map_option (\<lambda>table. executeTable st table (targetSubmode s) s) (getCurrentTable s)
         else Some s))"

definition performChildOperation :: "send_status \<Rightarrow> u32 \<Rightarrow> Subsystem \<Rightarrow> Subsystem option" where
  "performChildOperation st now s =
     (if isInTransition s then
        if commandsOutstanding s \<le> 0 then
          (case currentSequenceIterator s of
             [] \<Rightarrow> finish_sequence st s
           | e # _ \<Rightarrow>
               if checkSuccess e then
                 (case getCurrentTable s of
                    None \<Rightarrow> None
                  | Some table \<Rightarrow>
                      if checkStateAgainstTable table (targetSubmode s) s \<noteq> OK
                      then transitionFailed st TABLE_CHECK_FAILED (getTableId e) s
                      else next_table st now e s)
               else next_table st now e s)
        else Some s
      else if childrenChangedHealth s then
        startTransition st (sb_mode s) (sb_submode s)
          ((triggerEvent CHILD_CHANGED_HEALTH 0 0 s)\<lparr>childrenChangedHealth := False\<rparr>)
      else if childrenChangedMode s then
        if checkStateAgainstTable (currentTargetTable s) (sb_submode s) s \<noteq> OK then
          cantKeepMode st (triggerEvent CANT_KEEP_MODE (sb_mode s) (ucast (sb_submode s)) s)
        else Some s
      else Some s)"

section \<open>Mode lists by command\<close>

definition replyToCommand :: "send_status \<Rightarrow> retval \<Rightarrow> Subsystem \<Rightarrow> Subsystem" where
  "replyToCommand st status s =
     snd (mq_reply st (if status = OK then cm_new REPLY_COMMAND_OK 0 0
                       else cm_new REPLY_REJECTED (rv_param status) 0) s)"

text \<open>Without a mode store an entry for the store is erased again and the addition fails.\<close>

definition addSequence ::
  "ModeListEntry list \<Rightarrow> u32 \<Rightarrow> u32 \<Rightarrow> bool \<Rightarrow> bool \<Rightarrow> Subsystem \<Rightarrow> retval \<times> Subsystem" where
  "addSequence sequence i fallback inStore preInit s =
     (let result = (if \<not> preInit then checkSequence_iter sequence fallback s else OK) in
      if result \<noteq> OK then (result, s)
      else
        (case fm_insert i \<lparr>fallbackSequence = fallback,
                           si_entries = \<lparr>islinked = inStore, ep_entries = sequence\<rparr>\<rparr> (modeSequences s) of
           (result, m) \<Rightarrow>
             let s = s\<lparr>modeSequences := m\<rparr> in
             if result \<noteq> OK then (result, s)
             else if inStore then (FAILED, s\<lparr>modeSequences := snd (fm_erase i (modeSequences s))\<rparr>)
             else (result, s)))"

definition addTable ::
  "ModeListEntry list \<Rightarrow> u32 \<Rightarrow> bool \<Rightarrow> bool \<Rightarrow> Subsystem \<Rightarrow> retval \<times> Subsystem" where
  "addTable table i inStore preInit s =
     (let result = (if \<not> preInit then checkTable table s else OK) in
      if result \<noteq> OK then (result, s)
      else
        (case fm_insert i \<lparr>islinked = inStore, ep_entries = table\<rparr> (modeTables s) of
           (result, m) \<Rightarrow>
             let s = s\<lparr>modeTables := m\<rparr> in
             if result \<noteq> OK then (result, s)
             else if inStore then (FAILED, s\<lparr>modeTables := snd (fm_erase i (modeTables s))\<rparr>)
             else (result, s)))"

definition isFallbackSequence :: "u32 \<Rightarrow> Subsystem \<Rightarrow> bool" where
  "isFallbackSequence sequenceId s =
     list_ex (\<lambda>(k, info). fallbackSequence info = sequenceId) (fm_entries (modeSequences s))"

definition isTableUsed :: "u32 \<Rightarrow> Subsystem \<Rightarrow> bool" where
  "isTableUsed tableId s =
     list_ex (\<lambda>(k, info). list_ex (\<lambda>e. getTableId e = tableId) (the (getSequence k s)))
       (fm_entries (modeSequences s))"

definition deleteSequence :: "u32 \<Rightarrow> Subsystem \<Rightarrow> retval \<times> Subsystem" where
  "deleteSequence i s =
     (if isFallbackSequence i s then (IS_FALLBACK_SEQUENCE, s)
      else
        (case fm_find i (modeSequences s) of (result, info) \<Rightarrow>
           if result \<noteq> OK then (result, s)
           else if \<not> islinked (si_entries (the info)) then (ACCESS_DENIED, s)
           else (OK, s\<lparr>modeSequences := snd (fm_erase i (modeSequences s))\<rparr>)))"

text \<open>The last step erases from the sequences, as the source does.\<close>

definition deleteTable :: "u32 \<Rightarrow> Subsystem \<Rightarrow> retval \<times> Subsystem" where
  "deleteTable i s =
     (if isTableUsed i s then (TABLE_IN_USE, s)
      else
        (case fm_find i (modeTables s) of (result, p) \<Rightarrow>
           if result \<noteq> OK then (result, s)
           else if \<not> islinked (the p) then (ACCESS_DENIED, s)
           else (OK, s\<lparr>modeSequences := snd (fm_erase i (modeSequences s))\<rparr>)))"

definition checkObjectConnections :: "Subsystem \<Rightarrow> retval" where
  "checkObjectConnections s =
     foldr (\<lambda>(k, info) result. let r = checkSequence k s in if r \<noteq> OK then r else result)
       (fm_entries (modeSequences s)) OK"

definition setInitialMode :: "u32 \<Rightarrow> u8 \<Rightarrow> Subsystem \<Rightarrow> Subsystem" where
  "setInitialMode mode submode s = s\<lparr>initialMode := mode, initSubmode := submode\<rparr>"

text \<open>
  The part of \<open>initialize\<close> after the base class and the IPC store have been set up.
\<close>

definition ss_initialize :: "Subsystem \<Rightarrow> retval \<times> Subsystem" where
  "ss_initialize s =
     (if fm_maxSize (modeSequences s) > MAX_NUMBER_OF_TABLES_OR_SEQUENCES \<or>
         fm_maxSize (modeTables s) > MAX_NUMBER_OF_TABLES_OR_SEQUENCES
      then (TABLE_OR_SEQUENCE_LENGTH_INVALID, s)
      else (OK, s\<lparr>sb_mode := initialMode s, sb_submode := initSubmode s\<rparr>))"

text \<open>
  A serializable element is its size and its serialization; the results of the serializations are
  ignored. The bytes go to the page of the store that \<open>getFreeElement\<close> has reserved.
\<close>

type_synonym serializable = "nat \<times> (sink \<Rightarrow> nat \<Rightarrow> retval \<times> sink)"

definition sendSerializablesAsCommandMessage ::
  "send_status \<Rightarrow> u16 \<Rightarrow> serializable list \<Rightarrow> Subsystem \<Rightarrow> Subsystem" where
  "sendSerializablesAsCommandMessage st command elements s =
     (let maxSize = sum_list (map fst elements) in
      case pool_getFreeElement invalid_address maxSize (IPCStore s) of (result, pos, address, p) \<Rightarrow>
        let s = s\<lparr>IPCStore := p\<rparr> in
        if result \<noteq> OK then replyToCommand st result s
        else
          (let (buf, size) = fold (\<lambda>(n, ser) snk. snd (ser snk maxSize)) elements ([], 0);
               s = s\<lparr>IPCStore := page_write address buf (IPCStore s)\<rparr>
           in case mq_reply st (cm_new command (raw_of_addr address) 0) s of (result, s) \<Rightarrow>
                if result \<noteq> OK then s\<lparr>IPCStore := snd (pool_deleteData address (IPCStore s))\<rparr> else s))"

definition ser_element :: "'a::len word \<Rightarrow> serializable" where
  "ser_element w = (sizeof w, \<lambda>snk maxSize. ser_word BIG w snk maxSize)"

text \<open>An array list with a count of one byte.\<close>

definition al_of :: "'a list \<Rightarrow> 'a array_list" where
  "al_of xs = \<lparr>al_entries = xs, al_size = length xs, al_maxSize = length xs\<rparr>"

definition ser_mode_list :: "ModeListEntry list \<Rightarrow> serializable" where
  "ser_mode_list es =
     (al_getSerializedSize TYPE(8) mle_getSerializedSize (al_of es),
      \<lambda>snk maxSize. al_serialize TYPE(8) BIG mle_serialize (al_of es) snk maxSize)"

text \<open>The adapter of the identifiers takes at most \<open>MAX_NUMBER_OF_TABLES_OR_SEQUENCES\<close> of them.\<close>

definition ser_ids :: "u32 list \<Rightarrow> serializable" where
  "ser_ids ks =
     (let l = al_of (take MAX_NUMBER_OF_TABLES_OR_SEQUENCES ks) in
      (al_getSerializedSize TYPE(8) sizeof l, \<lambda>snk maxSize. al_serialize TYPE(8) BIG (ser_word BIG) l snk maxSize))"

definition empty_mode_list :: "ModeListEntry array_list" where
  "empty_mode_list = \<lparr>al_entries = replicate MAX_LENGTH_OF_TABLE_OR_SEQUENCE mle_new, al_size = 0,
                      al_maxSize = MAX_LENGTH_OF_TABLE_OR_SEQUENCE\<rparr>"

definition deser_mode_list :: "source \<Rightarrow> retval \<times> ModeListEntry list" where
  "deser_mode_list src =
     (case al_deSerialize TYPE(8) BIG mle_deSerialize empty_mode_list src of (result, list, src) \<Rightarrow>
        (result, take (al_size list) (al_entries list)))"

definition handle_add_sequence :: "CommandMessage \<Rightarrow> Subsystem \<Rightarrow> retval \<times> Subsystem" where
  "handle_add_sequence message s =
     (case pool_getData (getStoreAddress message) (IPCStore s) of (result, data) \<Rightarrow>
        if result \<noteq> OK then (result, s)
        else
          (case (case deser_word BIG (the data, length (the data)) of (result, fallbackId :: u32 option, src) \<Rightarrow>
                   if result \<noteq> OK then (result, s)
                   else (case deser_mode_list src of (result, sequence) \<Rightarrow>
                     if result \<noteq> OK then (result, s)
                     else addSequence sequence (getSequenceId message) (the fallbackId) True True s)) of
             (result, s) \<Rightarrow>
               (result, s\<lparr>IPCStore := snd (pool_deleteData (getStoreAddress message) (IPCStore s))\<rparr>)))"

definition handle_add_table :: "CommandMessage \<Rightarrow> Subsystem \<Rightarrow> retval \<times> Subsystem" where
  "handle_add_table message s =
     (case pool_getData (getStoreAddress message) (IPCStore s) of (result, data) \<Rightarrow>
        if result \<noteq> OK then (result, s)
        else
          (case (case deser_mode_list (the data, length (the data)) of (result, table) \<Rightarrow>
                   if result \<noteq> OK then (result, s)
                   else addTable table (getSequenceId message) True True s) of
             (result, s) \<Rightarrow>
               (result, s\<lparr>IPCStore := snd (pool_deleteData (getStoreAddress message) (IPCStore s))\<rparr>)))"

text \<open>Reading a sequence that does not exist goes on with a null pointer after the reply.\<close>

definition handle_read_sequence :: "send_status \<Rightarrow> CommandMessage \<Rightarrow> Subsystem \<Rightarrow> Subsystem option" where
  "handle_read_sequence st message s =
     (let sequence = getSequenceId message in
      case fm_find sequence (modeSequences s) of
        (result, None) \<Rightarrow> None
      | (result, Some info) \<Rightarrow>
          Some (sendSerializablesAsCommandMessage st SEQUENCE
                  [ser_element sequence, ser_element (getFallbackSequence sequence s),
                   ser_mode_list (ep_entries (si_entries info))] s))"

definition handle_read_table :: "send_status \<Rightarrow> CommandMessage \<Rightarrow> Subsystem \<Rightarrow> retval \<times> Subsystem" where
  "handle_read_table st message s =
     (let table = getSequenceId message in
      case fm_find table (modeTables s) of
        (result, None) \<Rightarrow> (result, replyToCommand st result s)
      | (result, Some entry) \<Rightarrow>
          (OK, sendSerializablesAsCommandMessage st TABLE
                 [ser_element table, ser_mode_list (ep_entries entry)] s))"

definition handleCommandMessage ::
  "send_status \<Rightarrow> CommandMessage \<Rightarrow> Subsystem \<Rightarrow> (retval \<times> Subsystem) option" where
  "handleCommandMessage st message s =
     (let c = cm_command message; answer = (\<lambda>(result, s). Some (OK, replyToCommand st result s)) in
      if c = HEALTH_INFO then
        Some (OK, if hm_getHealth message \<noteq> EXTERNAL_CONTROL then s\<lparr>childrenChangedHealth := True\<rparr> else s)
      else if c = ADD_SEQUENCE then answer (handle_add_sequence message s)
      else if c = ADD_TABLE then answer (handle_add_table message s)
      else if c = DELETE_SEQUENCE then
        answer (if isInTransition s then (IN_TRANSITION, s) else deleteSequence (getSequenceId message) s)
      else if c = DELETE_TABLE then
        answer (if isInTransition s then (IN_TRANSITION, s) else deleteTable (getSequenceId message) s)
      else if c = LIST_SEQUENCES then
        Some (OK, sendSerializablesAsCommandMessage st SEQUENCE_LIST
                    [ser_ids (map fst (fm_entries (modeSequences s)))] s)
      else if c = LIST_TABLES then
        Some (OK, sendSerializablesAsCommandMessage st TABLE_LIST
                    [ser_ids (map fst (fm_entries (modeTables s)))] s)
      else if c = READ_SEQUENCE then map_option (\<lambda>s. (OK, s)) (handle_read_sequence st message s)
      else if c = READ_TABLE then Some (handle_read_table st message s)
      else if c = READ_FREE_SEQUENCE_SLOTS then
        Some (OK, snd (mq_reply st (cm_new FREE_SEQUENCE_SLOTS 0
                         (of_nat (fm_maxSize (modeSequences s) - fm_size (modeSequences s)))) s))
      else if c = READ_FREE_TABLE_SLOTS then
        Some (OK, snd (mq_reply st (cm_new FREE_TABLE_SLOTS 0
                         (of_nat (fm_maxSize (modeTables s) - fm_size (modeTables s)))) s))
      else Some (FAILED, s))"

section \<open>A cycle of the subsystem\<close>

definition ss_handleModeCommand ::
  "send_status \<Rightarrow> CommandMessage \<Rightarrow> Subsystem \<Rightarrow> (retval \<times> Subsystem) option" where
  "ss_handleModeCommand st =
     handleModeCommand (\<lambda>mode submode s. (checkModeCommand mode submode s, s)) (startTransition st) (setToExternalControl st) (announceMode st) st"

definition ss_performOperation ::
  "send_status \<Rightarrow> u32 \<Rightarrow> CommandMessage list \<Rightarrow> Subsystem \<Rightarrow> Subsystem option" where
  "ss_performOperation st now msgs s =
     (case checkCommandQueue (ss_handleModeCommand st) (handleCommandMessage st) st msgs
             (s\<lparr>childrenChangedMode := False\<rparr>) of
        None \<Rightarrow> None
      | Some s \<Rightarrow> performChildOperation st now s)"

end
