(* ===== verification/Mode_Transitions.thy ===== *)
theory Mode_Transitions
  imports Subsystems
begin

text \<open>
  Properties of the mode machine of \<open>Subsystems\<close>: its invariant, that no cycle of a subsystem with a
  checked configuration is undefined, which commands a table sends, what a mode reply means, and that
  transitions end.
\<close>

section \<open>The configuration\<close>

abbreviation tables :: "Subsystem \<Rightarrow> u32 \<Rightarrow> EntryPointer option" where
  "tables s \<equiv> map_of (fm_entries (modeTables s))"

abbreviation sequences :: "Subsystem \<Rightarrow> u32 \<Rightarrow> SequenceInfo option" where
  "sequences s \<equiv> map_of (fm_entries (modeSequences s))"

definition maps_ok :: "Subsystem \<Rightarrow> bool" where
  "maps_ok s \<longleftrightarrow> fm_inv (modeTables s) \<and> fm_inv (modeSequences s)"

lemma fm_findValue_spec:
  assumes "fm_inv m"
  shows "fm_findValue k m = map_of (fm_entries m) k"
  by (rule fm_findIndex_cases [OF assms, of k]) (auto simp: fm_findValue_def Let_def)

lemma getFallback_loop_spec:
  "getFallback_loop k es = (case map_of es k of None \<Rightarrow> - 1 | Some info \<Rightarrow> fallbackSequence info)"
  by (induction k es rule: getFallback_loop.induct) auto

lemma lookup_spec:
  assumes "maps_ok s"
  shows "existsModeSequence k s \<longleftrightarrow> sequences s k \<noteq> None"
    and "existsModeTable k s \<longleftrightarrow> tables s k \<noteq> None"
    and "getSequence k s = map_option (\<lambda>info. ep_entries (si_entries info)) (sequences s k)"
    and "getTable k s = map_option ep_entries (tables s k)"
    and "getFallbackSequence k s = (case sequences s k of None \<Rightarrow> - 1 | Some i \<Rightarrow> fallbackSequence i)"
  using assms
  by (auto simp: maps_ok_def existsModeSequence_def existsModeTable_def fm_exists_spec getSequence_def
    getTable_def fm_findValue_spec getFallbackSequence_def getFallback_loop_spec)

lemma checkTable_OK: "checkTable es s = OK \<longleftrightarrow> (\<forall>e \<in> set es. getObject e \<in> fst ` set (childrenMap s))"
  by (induction es s rule: checkTable.induct) (auto simp: map_of_eq_None_iff)

lemma check_tables_OK:
  assumes "maps_ok s"
  shows "check_tables es s = OK \<longleftrightarrow>
    (\<forall>e \<in> set es. \<exists>p. tables s (getTableId e) = Some p \<and> checkTable (ep_entries p) s = OK)"
  using assms
  by (induction es s rule: check_tables.induct) (auto simp: lookup_spec Let_def)

lemma checkSequence_OK:
  assumes "maps_ok s"
  shows "checkSequence k s = OK \<longleftrightarrow>
    (\<exists>info. sequences s k = Some info \<and> sequences s (fallbackSequence info) \<noteq> None \<and>
       ep_entries (si_entries info) \<noteq> [] \<and> check_tables (ep_entries (si_entries info)) s = OK)"
  using assms by (auto simp: checkSequence_def checkSequence_iter_def lookup_spec)

lemma checkObjectConnections_OK:
  "checkObjectConnections s = OK \<longleftrightarrow> (\<forall>(k, info) \<in> set (fm_entries (modeSequences s)). checkSequence k s = OK)"
proof -
  have "foldr (\<lambda>(k, info) result. let r = checkSequence k s in if r \<noteq> OK then r else result) es OK = OK
    \<longleftrightarrow> (\<forall>(k, info) \<in> set es. checkSequence k s = OK)" for es :: "(u32 \<times> SequenceInfo) list"
    by (induction es) (auto simp: Let_def split: if_splits)
  then show ?thesis by (simp add: checkObjectConnections_def)
qed

section \<open>What the operations leave alone\<close>

text \<open>
  The core of the state: the configuration, the objects registered as children, and the position in the
  transition. Sending, raising events and noting the modes of children leave it alone.
\<close>

definition config where
  "config s = (fm_entries (modeTables s), fm_entries (modeSequences s), maps_ok s, map fst (childrenMap s))"

definition core where
  "core s = (config s, sb_mode s, isInTransition s, targetMode s, currentSequenceIterator s, currentTargetTable s)"

named_theorems core_simps \<open>operations that keep the core\<close>

lemma core_simps_update [core_simps]:
  "core (s\<lparr>sb_sent := x1\<rparr>) = core s" "core (s\<lparr>sb_events := x2\<rparr>) = core s" "core (s\<lparr>sb_last := x3\<rparr>) = core s"
  "core (s\<lparr>sb_healthTable := x4\<rparr>) = core s" "core (s\<lparr>mh_forced := b\<rparr>) = core s"
  "core (s\<lparr>mh_theOneWhoCommandedAMode := x5\<rparr>) = core s" "core (s\<lparr>mh_commandedMode := x6\<rparr>) = core s"
  "core (s\<lparr>mh_commandedSubmode := x7\<rparr>) = core s" "core (s\<lparr>commandsOutstanding := x8\<rparr>) = core s"
  "core (s\<lparr>childrenChangedMode := b\<rparr>) = core s" "core (s\<lparr>childrenChangedHealth := b\<rparr>) = core s"
  "core (s\<lparr>IPCStore := p\<rparr>) = core s" "core (s\<lparr>sb_submode := x9\<rparr>) = core s"
  "core (s\<lparr>uptimeStartTable := x10\<rparr>) = core s" "core (s\<lparr>targetSubmode := x11\<rparr>) = core s"
  by (simp_all add: core_def config_def maps_ok_def)

lemma core_sendMessageFrom [core_simps]: "core (snd (sendMessageFrom st d m s)) = core s"
  by (simp add: sendMessageFrom_def Let_def core_simps)

lemma core_mq_reply [core_simps]: "core (snd (mq_reply st m s)) = core s"
  by (simp add: mq_reply_def core_simps)

lemma core_triggerEvent [core_simps]: "core (triggerEvent e a b s) = core s"
  by (simp add: triggerEvent_def core_simps)

lemma core_hh_setHealth [core_simps]: "core (hh_setHealth st h s) = core s"
  by (simp add: hh_setHealth_def informParent_def Let_def core_simps)

lemma core_sb_setHealth [core_simps]: "core (snd (sb_setHealth st h s)) = core s"
  by (simp add: sb_setHealth_def core_simps)

lemma core_handleHealthCommand [core_simps]: "core (snd (handleHealthCommand sb_setHealth st m s)) = core s"
  by (auto simp: handleHealthCommand_def handleSetHealthCommand_def core_simps case_prod_unfold)

lemma core_fold:
  "(\<And>x s. core (f x s) = core s) \<Longrightarrow> core (fold f xs s) = core s"
  by (induction xs arbitrary: s) auto

lemma core_announceMode [core_simps]: "core (announceMode st r s) = core s"
  by (simp add: announceMode_def commandAllChildren_def Let_def core_simps, intro impI, subst core_fold)
    (auto simp: core_simps)

lemma core_execute_entry [core_simps]: "core (execute_entry st sm e s) = core s"
  by (auto simp: execute_entry_def core_simps case_prod_unfold split: option.splits)

lemma core_executeTable [core_simps]: "core (executeTable st t sm s) = core s"
  by (simp add: executeTable_def core_fold core_simps)

lemma core_mh_modeChanged [core_simps]: "core (mh_modeChanged st m sm s) = core s"
  by (simp add: mh_modeChanged_def sendModeInfoMessage_def sendModeReplyMessage_def core_simps)

lemma update_child_keys: "update_child q f m = Some m' \<Longrightarrow> map fst m' = map fst m"
  by (induction q f m arbitrary: m' rule: update_child.induct) (auto split: if_splits)

lemma core_childrenMap: "map fst m = map fst (childrenMap s) \<Longrightarrow> core (s\<lparr>childrenMap := m\<rparr>) = core s"
  by (simp add: core_def config_def maps_ok_def)

lemma core_handleModeReply [core_simps]: "core (snd (handleModeReply m s)) = core s"
proof -
  have "core (snd (updateChildMode q a b s)) = core s" for q a b
    by (auto simp: updateChildMode_def core_childrenMap update_child_keys split: option.splits)
  then show ?thesis
    by (simp add: handleModeReply_def Let_def core_simps, intro impI, subst core_fold) (auto simp: core_simps)
qed

lemma core_sendSerializables [core_simps]: "core (sendSerializablesAsCommandMessage st c es s) = core s"
  by (auto simp: sendSerializablesAsCommandMessage_def replyToCommand_def core_simps case_prod_unfold Let_def)

section \<open>The invariant\<close>

text \<open>
  The configuration has passed \<open>checkObjectConnections\<close>, no entry claims to be in the mode store, the
  current mode has a sequence, and during a transition the target table is the first one of the target
  sequence and the remaining tables exist.
\<close>

definition no_linked :: "Subsystem \<Rightarrow> bool" where
  "no_linked s \<longleftrightarrow> (\<forall>(k, p) \<in> set (fm_entries (modeTables s)). \<not> islinked p) \<and>
     (\<forall>(k, i) \<in> set (fm_entries (modeSequences s)). \<not> islinked (si_entries i))"

definition config_ok :: "Subsystem \<Rightarrow> bool" where
  "config_ok s \<longleftrightarrow> maps_ok s \<and> no_linked s \<and> checkObjectConnections s = OK \<and> existsModeSequence (sb_mode s) s"

definition transition_ok :: "Subsystem \<Rightarrow> bool" where
  "transition_ok s \<longleftrightarrow>
     existsModeSequence (targetMode s) s \<and>
     (\<exists>e rest. getSequence (targetMode s) s = Some (e # rest) \<and>
        getTable (getTableId e) s = Some (currentTargetTable s)) \<and>
     (\<forall>e \<in> set (currentSequenceIterator s). existsModeTable (getTableId e) s)"

definition ss_ok :: "Subsystem \<Rightarrow> bool" where
  "ss_ok s \<longleftrightarrow> config_ok s \<and> (isInTransition s \<longrightarrow> transition_ok s)"

lemma config_update [simp]:
  "config (s\<lparr>targetMode := m\<rparr>) = config s" "config (s\<lparr>isInTransition := b\<rparr>) = config s"
  "config (s\<lparr>currentTargetTable := t\<rparr>) = config s" "config (s\<lparr>currentSequenceIterator := t\<rparr>) = config s"
  "config (s\<lparr>sb_mode := m\<rparr>) = config s"
  by (simp_all add: config_def maps_ok_def)

lemma config_lookups:
  assumes "config s = config t" and "maps_ok t"
  shows "existsModeSequence k s = existsModeSequence k t" and "existsModeTable k s = existsModeTable k t"
    and "getSequence k s = getSequence k t" and "getTable k s = getTable k t"
    and "getFallbackSequence k s = getFallbackSequence k t" and "checkSequence k s = checkSequence k t"
    and "checkTable es s = checkTable es t" and "checkObjectConnections s = checkObjectConnections t"
proof -
  have m: "maps_ok s" and f: "fm_entries (modeSequences s) = fm_entries (modeSequences t)"
    and e: "sequences s = sequences t" "tables s = tables t"
    and k: "map fst (childrenMap s) = map fst (childrenMap t)"
    using assms by (auto simp: config_def)
  note l = lookup_spec [OF m] lookup_spec [OF assms(2)] e
  show "existsModeSequence k s = existsModeSequence k t" "existsModeTable k s = existsModeTable k t"
    "getSequence k s = getSequence k t" "getTable k s = getTable k t"
    "getFallbackSequence k s = getFallbackSequence k t"
    by (simp_all add: l)
  have ct: "checkTable es s = checkTable es t" for es
  proof (induction es)
    case (Cons a es)
    have "map_of (childrenMap s) x = None \<longleftrightarrow> map_of (childrenMap t) x = None" for x
      using k by (metis list.set_map map_of_eq_None_iff)
    with Cons show ?case by simp
  qed simp
  then show "checkTable es s = checkTable es t" .
  have "check_tables es s = check_tables es t" for es
    by (induction es) (simp_all add: l ct Let_def)
  then have cs: "checkSequence k s = checkSequence k t" for k
    by (simp add: checkSequence_def checkSequence_iter_def l)
  then show "checkSequence k s = checkSequence k t" .
  show "checkObjectConnections s = checkObjectConnections t"
    by (simp add: checkObjectConnections_def cs f)
qed

lemma config_ok_cong:
  assumes c: "config s = config t" and m: "existsModeSequence (sb_mode s) t = existsModeSequence (sb_mode t) t"
  shows "config_ok s = config_ok t"
proof (cases "maps_ok t")
  case True
  then show ?thesis
    using c m config_lookups [OF c True] by (auto simp: config_ok_def config_def no_linked_def)
next
  case False
  then show ?thesis using c by (simp add: config_ok_def config_def)
qed

lemma core_ok:
  assumes "core s = core t"
  shows "config_ok s = config_ok t" and "ss_ok s = ss_ok t" and "maps_ok s = maps_ok t"
proof -
  from assms have c: "config s = config t" and m: "sb_mode s = sb_mode t" by (simp_all add: core_def)
  show "maps_ok s = maps_ok t" using c by (simp add: config_def)
  show e: "config_ok s = config_ok t" using config_ok_cong [OF c] m by simp
  have "transition_ok s = transition_ok t" if "maps_ok t"
    using assms config_lookups [OF c that] by (simp add: transition_ok_def core_def)
  then show "ss_ok s = ss_ok t" using e assms by (auto simp: ss_ok_def config_ok_def core_def)
qed

lemma ss_ok_maps: "ss_ok s \<Longrightarrow> maps_ok s" "config_ok s \<Longrightarrow> maps_ok s"
  by (simp_all add: ss_ok_def config_ok_def)

section \<open>Commands on the mode lists\<close>

lemma fm_insert_erase:
  assumes inv: "fm_inv m" and ok: "fst (fm_insert k v m) = OK"
  shows "fm_entries (snd (fm_erase k (snd (fm_insert k v m)))) = fm_entries m"
    and "fm_inv (snd (fm_erase k (snd (fm_insert k v m))))"
proof -
  let ?m = "snd (fm_insert k v m)"
  from ok have free: "map_of (fm_entries m) k = None" "fm_size m < fm_maxSize m"
    using inv by (auto simp: fm_insert_def fm_exists_spec [OF inv] fm_inv_def split: if_splits)
  note e = fm_insert_entries [OF inv free, of v]
  have inv': "fm_inv ?m" by (rule fm_insert_inv [OF inv])
  have k: "map_of (fm_entries ?m) k = Some v" using free e by (simp add: map_add_def)
  show "fm_inv (snd (fm_erase k ?m))" by (rule fm_erase_keeps(1) [OF inv' k])
  obtain i where i: "fm_findIndex k ?m = i" "i < fm_size ?m" "fst (fm_map ?m ! i) = k"
    by (rule fm_findIndex_cases [OF inv', of k]) (use k in auto)
  have sz: "fm_size ?m = Suc (fm_size m)" using ok by (auto simp: fm_insert_def split: if_splits)
  have "i = fm_size m"
  proof (rule ccontr)
    assume "i \<noteq> fm_size m"
    with i sz have lt: "i < fm_size m" by simp
    then have "fm_map ?m ! i = fm_entries m ! i"
      using ok by (auto simp: fm_insert_def fm_entries_nth split: if_splits)
    moreover have "fm_entries m ! i \<in> set (fm_entries m)" using lt inv by (simp add: nth_mem)
    ultimately have "k \<in> fst ` set (fm_entries m)" using i(3) by force
    then show False using free by (simp add: map_of_eq_None_iff)
  qed
  then show "fm_entries (snd (fm_erase k ?m)) = fm_entries m"
    using i(1) sz ok inv
    by (auto simp: fm_erase_def Let_def fm_entries_def fm_insert_def fm_inv_def split: if_splits)
qed

lemma core_addSequence: "maps_ok s \<Longrightarrow> core (snd (addSequence es i f True b s)) = core s"
  using fm_insert_erase [of "modeSequences s" i "\<lparr>fallbackSequence = f, si_entries = \<lparr>islinked = True, ep_entries = es\<rparr>\<rparr>"]
  by (auto simp: addSequence_def Let_def case_prod_unfold core_def config_def maps_ok_def fm_insert_inv fm_insert_def)

lemma core_addTable: "maps_ok s \<Longrightarrow> core (snd (addTable es i True b s)) = core s"
  using fm_insert_erase [of "modeTables s" i "\<lparr>islinked = True, ep_entries = es\<rparr>"]
  by (auto simp: addTable_def Let_def case_prod_unfold core_def config_def maps_ok_def fm_insert_inv fm_insert_def)

lemma not_linked:
  assumes "no_linked s"
  shows "sequences s k = Some i \<Longrightarrow> \<not> islinked (si_entries i)" and "tables s k = Some p \<Longrightarrow> \<not> islinked p"
  using assms by (auto simp: no_linked_def dest!: map_of_SomeD)

lemma delete_leaves_state:
  assumes "maps_ok s" and "no_linked s"
  shows "snd (deleteSequence i s) = s" and "snd (deleteTable i s) = s"
  using assms not_linked [OF assms(2)]
  by (auto simp: deleteSequence_def deleteTable_def maps_ok_def fm_find_spec split: option.splits)

lemma core_replyToCommand [core_simps]: "core (replyToCommand st r s) = core s"
  by (simp add: replyToCommand_def core_simps)

lemma core_handle_add:
  assumes "maps_ok s"
  shows "core (snd (handle_add_sequence m s)) = core s" and "core (snd (handle_add_table m s)) = core s"
  using assms core_addSequence [OF assms] core_addTable [OF assms]
  by (auto simp: handle_add_sequence_def handle_add_table_def case_prod_unfold core_simps)

text \<open>The one message that must not come: a request for a sequence that does not exist.\<close>

definition answerable :: "Subsystem \<Rightarrow> CommandMessage \<Rightarrow> bool" where
  "answerable s m \<longleftrightarrow> (cm_command m = READ_SEQUENCE \<longrightarrow> existsModeSequence (getSequenceId m) s)"

definition keeps_core :: "Subsystem \<Rightarrow> (retval \<times> Subsystem) option \<Rightarrow> bool" where
  "keeps_core s x \<longleftrightarrow> (\<exists>r s'. x = Some (r, s') \<and> core s' = core s)"

lemma keeps_core_if: "(b \<Longrightarrow> keeps_core s x) \<Longrightarrow> (\<not> b \<Longrightarrow> keeps_core s y) \<Longrightarrow> keeps_core s (if b then x else y)"
  by simp

lemma keeps_core_Some: "core (snd r) = core s \<Longrightarrow> keeps_core s (Some r)"
  by (cases r) (simp add: keeps_core_def)

lemma handleCommandMessage_core:
  assumes ok: "ss_ok s" and ans: "answerable s m"
  shows "keeps_core s (handleCommandMessage st m s)"
proof -
  have m: "maps_ok s" and n: "no_linked s" using ok by (auto simp: ss_ok_def config_ok_def)
  have "\<exists>i. fm_find (getSequenceId m) (modeSequences s) = (OK, Some i)" if "cm_command m = READ_SEQUENCE"
    using ans that m
    by (auto simp: answerable_def lookup_spec fm_find_spec maps_ok_def split: option.splits)
  then have rd: "keeps_core s (map_option (\<lambda>s. (OK, s)) (handle_read_sequence st m s))"
    if "cm_command m = READ_SEQUENCE"
    using that by (auto simp: handle_read_sequence_def Let_def keeps_core_def core_simps)
  have rt: "core (snd (handle_read_table st m s)) = core s"
    by (auto simp: handle_read_table_def Let_def core_simps split: prod.split option.split)
  show ?thesis
    unfolding handleCommandMessage_def Let_def case_prod_unfold
    by (intro keeps_core_if keeps_core_Some rd)
      (simp_all add: core_simps rt core_handle_add [OF m] delete_leaves_state [OF m n] split: if_split)
qed

section \<open>Transitions\<close>

lemma config_of_core: "core s = core t \<Longrightarrow> config s = config t"
  by (simp add: core_def)

lemma sequence_usable:
  assumes c: "config_ok s" and e: "existsModeSequence m s"
  obtains e rest target where "getSequence m s = Some (e # rest)" "getTable (getTableId e) s = Some target"
    "\<forall>e' \<in> set rest. existsModeTable (getTableId e') s"
proof -
  have m: "maps_ok s" and cc: "checkObjectConnections s = OK" using c by (simp_all add: config_ok_def)
  obtain info where i: "sequences s m = Some info" using e by (auto simp: lookup_spec [OF m])
  then have "(m, info) \<in> set (fm_entries (modeSequences s))" by (rule map_of_SomeD)
  then have "checkSequence m s = OK" using cc by (auto simp: checkObjectConnections_OK)
  then obtain e rest where es: "ep_entries (si_entries info) = e # rest"
    and t: "check_tables (e # rest) s = OK"
    using i by (auto simp: checkSequence_OK [OF m] neq_Nil_conv)
  note t' = t [unfolded check_tables_OK [OF m]]
  then obtain p where "tables s (getTableId e) = Some p" by auto
  moreover have "\<forall>e' \<in> set rest. existsModeTable (getTableId e') s"
    using t' by (auto simp: lookup_spec [OF m])
  ultimately show thesis using that [of e rest "ep_entries p"] i es by (simp add: lookup_spec [OF m])
qed

lemma startTransition_defined:
  assumes c: "config_ok s" and e: "existsModeSequence m s"
  shows "\<exists>s'. startTransition st m sm s = Some s' \<and> config_ok s' \<and> isInTransition s' \<and> transition_ok s' \<and>
    targetMode s' = m \<and> sb_mode s' = sb_mode s"
proof -
  obtain e rest target where g: "getSequence m s = Some (e # rest)"
    "getTable (getTableId e) s = Some target" "\<forall>e' \<in> set rest. existsModeTable (getTableId e') s"
    by (rule sequence_usable [OF c e])
  have mo: "maps_ok s" using c by (rule ss_ok_maps)
  define s1 where "s1 = (triggerEvent (if mh_forced s then FORCING_MODE else CHANGING_MODE) m (ucast sm) s)
    \<lparr>targetMode := m, targetSubmode := sm, isInTransition := True, commandsOutstanding := 0\<rparr>"
  define s2 where "s2 = s1\<lparr>currentTargetTable := target, currentSequenceIterator := rest\<rparr>"
  have "config s1 = config s" by (simp add: s1_def triggerEvent_def config_def maps_ok_def)
  then have c1: "config s1 = config s" "config s2 = config s" by (simp_all add: s2_def)
  note l1 = config_lookups [OF c1(1) mo] and l2 = config_lookups [OF c1(2) mo]
  have f: "sb_mode s2 = sb_mode s" "isInTransition s2" "targetMode s2 = m" "currentTargetTable s2 = target"
    "currentSequenceIterator s2 = rest" "targetSubmode s2 = sm"
    by (simp_all add: s2_def s1_def triggerEvent_def)
  have ok2: "config_ok s2" using c config_ok_cong [OF c1(2)] by (simp add: f)
  have tr2: "transition_ok s2" using g e by (auto simp: transition_ok_def f l2)
  have st: "startTransition st m sm s =
    (if rest \<noteq> [] then map_option (\<lambda>table. executeTable st table sm s2) (getCurrentTable s2) else Some s2)"
    by (simp add: startTransition_def s1_def [symmetric] l1 g s2_def [symmetric] f)
  show ?thesis
  proof (cases rest)
    case Nil
    then show ?thesis using st ok2 tr2 f by simp
  next
    case (Cons e2 rest2)
    then obtain t2 where t2: "getTable (getTableId e2) s = Some t2"
      using g(3) by (auto simp: lookup_spec [OF mo])
    then have "getCurrentTable s2 = Some t2" by (simp add: getCurrentTable_def f Cons l2)
    then have st': "startTransition st m sm s = Some (executeTable st t2 sm s2)"
      using st by (simp add: Cons)
    have core: "core (executeTable st t2 sm s2) = core s2" by (simp add: core_simps)
    then have "config_ok (executeTable st t2 sm s2)" "ss_ok (executeTable st t2 sm s2)"
      using core_ok [OF core] ok2 tr2 by (simp_all add: ss_ok_def)
    then show ?thesis using st' core f by (auto simp: core_def ss_ok_def)
  qed
qed

lemma startTransition_config:
  assumes "startTransition st m sm s = Some s'"
  shows "config s' = config s"
proof -
  have "config (triggerEvent e a b s) = config s" "config (s\<lparr>commandsOutstanding := x\<rparr>) = config s"
    "config (s\<lparr>targetSubmode := y\<rparr>) = config s" for e a b x y s
    by (simp_all add: triggerEvent_def config_def maps_ok_def)
  moreover have "config (executeTable st t sm' s) = config s" for t sm' s
    using config_of_core core_executeTable by blast
  ultimately show ?thesis
    using assms by (auto simp: startTransition_def Let_def split: option.splits list.splits if_splits)
qed

text \<open>A step that is defined and leads to a good state.\<close>

definition good :: "Subsystem option \<Rightarrow> bool" where
  "good x \<longleftrightarrow> (\<exists>s'. x = Some s' \<and> ss_ok s')"

lemma good_startTransition: "config_ok s \<Longrightarrow> existsModeSequence m s \<Longrightarrow> good (startTransition st m sm s)"
  using startTransition_defined [of s m st sm] by (auto simp: good_def ss_ok_def)

lemma config_ok_core: "config_ok s \<Longrightarrow> core s' = core s \<Longrightarrow> config_ok s'"
  using core_ok(1) by blast

lemma config_ok_mode: "config_ok s \<Longrightarrow> sb_mode s = m \<Longrightarrow> existsModeSequence m s"
  by (auto simp: config_ok_def)

lemma config_ok_set_mode:
  assumes c: "config_ok s" and e: "existsModeSequence m s"
  shows "config_ok (s\<lparr>sb_mode := m\<rparr>)" and "existsModeSequence m (s\<lparr>sb_mode := m\<rparr>)"
proof -
  have cf: "config (s\<lparr>sb_mode := m\<rparr>) = config s" by simp
  show "config_ok (s\<lparr>sb_mode := m\<rparr>)"
    using config_ok_cong [OF cf] c e by (simp add: config_ok_def)
  then show "existsModeSequence m (s\<lparr>sb_mode := m\<rparr>)" by (simp add: config_ok_def)
qed

lemma checkSequence_exists: "checkSequence k s = OK \<Longrightarrow> existsModeSequence k s"
  by (auto simp: checkSequence_def split: if_splits)

lemma config_ok_leave:
  assumes "config_ok s"
  shows "ss_ok (s\<lparr>isInTransition := False\<rparr>)"
proof -
  have "config (s\<lparr>isInTransition := False\<rparr>) = config s" by simp
  from config_ok_cong [OF this] assms show ?thesis by (simp add: ss_ok_def)
qed

lemma good_fallback:
  assumes c: "config_ok s" and f: "checkSequence f s = OK"
  shows "good (startTransition st f sm (s\<lparr>sb_mode := f\<rparr>))"
  using config_ok_set_mode [OF c checkSequence_exists [OF f]] by (rule good_startTransition)

lemma good_transitionFailed:
  assumes c: "config_ok s"
  shows "good (transitionFailed st r p s)"
proof -
  let ?s = "triggerEvent MODE_TRANSITION_FAILED (rv_param r) p s"
  let ?f = "?s\<lparr>mh_forced := True\<rparr>"
  have c1: "config_ok ?s" "config_ok ?f"
    by (rule config_ok_core [OF c], simp add: core_simps)+
  have m: "sb_mode ?s = sb_mode s" "sb_mode ?f = sb_mode s" by (simp_all add: triggerEvent_def)
  have leave: "ss_ok ((triggerEvent FALLBACK_FAILED a b ?f)\<lparr>isInTransition := False\<rparr>)" for a b
    by (rule config_ok_leave, rule config_ok_core [OF c1(2)], simp add: core_simps)
  have retry: "good (startTransition st (sb_mode s) (sb_submode ?s) ?s)"
    by (rule good_startTransition [OF c1(1) config_ok_mode [OF c1(1) m(1)]])
  show ?thesis
    using leave retry good_fallback [OF c1(2)] m
    by (auto simp: transitionFailed_def Let_def) (simp_all add: good_def)
qed

lemma good_cantKeepMode:
  assumes c: "ss_ok s"
  shows "good (cantKeepMode st s)"
proof -
  have cs: "config_ok s" using c by (simp add: ss_ok_def)
  let ?f = "s\<lparr>mh_forced := True\<rparr>"
  have c1: "config_ok ?f" by (rule config_ok_core [OF cs]) (simp add: core_simps)
  have "core (triggerEvent FALLBACK_FAILED a b s) = core s" for a b by (simp add: core_simps)
  then have leave: "ss_ok (triggerEvent FALLBACK_FAILED a b s)" for a b using core_ok(2) c by blast
  have e: "checkSequence k ?f = checkSequence k s" for k
    using config_lookups(6) [of ?f s k] ss_ok_maps(1) [OF c] by (simp add: config_def maps_ok_def)
  show ?thesis
    using leave good_fallback [OF c1, of _ st SUBMODE_NONE] e
    by (auto simp: cantKeepMode_def Let_def) (simp_all add: good_def)
qed

lemma good_finish:
  assumes ok: "ss_ok s" and t: "isInTransition s"
  shows "good (finish_sequence st s)"
proof -
  have tr: "transition_ok s" and c: "config_ok s" using ok t by (simp_all add: ss_ok_def)
  let ?s = "mh_modeChanged st (targetMode s) (targetSubmode s) s"
  have core: "core ?s = core s" by (simp add: core_simps)
  have c1: "config_ok ?s" by (rule config_ok_core [OF c core])
  have e: "existsModeSequence (targetMode s) ?s"
    using tr config_lookups(1) [OF config_of_core [OF core]] ss_ok_maps(1) [OF ok] by (simp add: transition_ok_def)
  have "config_ok ((?s\<lparr>sb_mode := targetMode s\<rparr>)\<lparr>sb_submode := targetSubmode s\<rparr>)"
    by (rule config_ok_core [OF config_ok_set_mode(1) [OF c1 e]]) (simp add: core_simps)
  then have "ss_ok ((sb_setMode st (targetMode s) (targetSubmode s) s)\<lparr>isInTransition := False\<rparr>)"
    by (intro config_ok_leave) (erule config_ok_core, simp add: sb_setMode_def core_simps)
  then show ?thesis
    using tr good_transitionFailed [OF c]
    by (auto simp: finish_sequence_def transition_ok_def split: option.splits) (simp_all add: good_def)
qed

lemma in_set_tlD: "x \<in> set (tl xs) \<Longrightarrow> x \<in> set xs"
  by (cases xs) auto

lemma good_next_table:
  assumes ok: "ss_ok s" and t: "isInTransition s"
  shows "good (next_table st now e s)"
proof -
  have up: "ss_ok (s\<lparr>uptimeStartTable := u\<rparr>)" for u
    using core_ok(2) [of "s\<lparr>uptimeStartTable := u\<rparr>" s] ok by (simp add: core_simps)
  let ?s = "s\<lparr>uptimeStartTable := 0, currentSequenceIterator := tl (currentSequenceIterator s)\<rparr>"
  have cf: "config ?s = config s" by (simp add: config_def maps_ok_def)
  note l = config_lookups [OF cf ss_ok_maps(1) [OF ok]]
  have "config_ok ?s" "transition_ok ?s"
    using ok t config_ok_cong [OF cf] l
    by (auto simp: ss_ok_def transition_ok_def dest: in_set_tlD)
  then have s': "ss_ok ?s" by (simp add: ss_ok_def)
  have ex: "ss_ok (executeTable st tb sm ?s)" for tb sm
    using core_ok(2) [of "executeTable st tb sm ?s" ?s] s' by (simp add: core_simps)
  have ct: "\<exists>tb. getCurrentTable ?s = Some tb" if ne: "tl (currentSequenceIterator s) \<noteq> []"
  proof -
    obtain a as where a: "tl (currentSequenceIterator s) = a # as"
      using ne by (cases "tl (currentSequenceIterator s)") auto
    then have "a \<in> set (currentSequenceIterator s)" using in_set_tlD by (metis list.set_intros(1))
    then have "existsModeTable (getTableId a) s" using ok t by (simp add: ss_ok_def transition_ok_def)
    then show ?thesis using a l lookup_spec [OF ss_ok_maps(1) [OF ok]] by (auto simp: getCurrentTable_def)
  qed
  show ?thesis
    using ok up s' ex ct by (auto simp: next_table_def Let_def good_def)
qed

lemma good_performChildOperation:
  assumes ok: "ss_ok s"
  shows "good (performChildOperation st now s)"
proof (cases "isInTransition s")
  case True
  have c: "config_ok s" and mo: "maps_ok s" using ok by (simp_all add: ss_ok_def config_ok_def)
  note parts = good_finish [OF ok True] good_next_table [OF ok True] good_transitionFailed [OF c]
  have sm: "good (Some s)" using ok by (simp add: good_def)
  show ?thesis
  proof (cases "currentSequenceIterator s")
    case Nil
    then show ?thesis using True parts sm by (simp add: performChildOperation_def)
  next
    case (Cons e es)
    then have "existsModeTable (getTableId e) s" using ok True by (simp add: ss_ok_def transition_ok_def)
    then obtain tb where "getCurrentTable s = Some tb"
      using Cons lookup_spec [OF mo] by (auto simp: getCurrentTable_def)
    then show ?thesis using Cons True parts sm by (simp add: performChildOperation_def)
  qed
next
  case False
  have k: "core (triggerEvent a b c s) = core s" for a b c by (simp add: core_simps)
  have ok': "ss_ok (triggerEvent a b c s)" for a b c using core_ok(2) [OF k [of a b c]] ok by simp
  have sm: "good (Some s)" using ok by (simp add: good_def)
  let ?s = "(triggerEvent CHILD_CHANGED_HEALTH 0 0 s)\<lparr>childrenChangedHealth := False\<rparr>"
  have "core ?s = core s" by (simp add: core_simps)
  from core_ok(1) [OF this] have "config_ok ?s" using ok by (simp add: ss_ok_def)
  moreover have "sb_mode ?s = sb_mode s" by (simp add: triggerEvent_def)
  ultimately have "good (startTransition st (sb_mode s) (sb_submode s) ?s)"
    by (simp add: good_startTransition config_ok_mode)
  then show ?thesis
    using False sm good_cantKeepMode [OF ok'] by (simp add: performChildOperation_def)
qed

section \<open>The command queue\<close>

lemma ss_ok_core: "ss_ok s \<Longrightarrow> core s' = core s \<Longrightarrow> ss_ok s'"
  using core_ok(2) by blast

lemma good_handleModeCommand:
  assumes ok: "ss_ok s"
  shows "\<exists>r s'. ss_handleModeCommand st m s = Some (r, s') \<and> ss_ok s' \<and> config s' = config s"
proof -
  define s1 where "s1 = (if cm_command m = CMD_MODE_COMMAND_FORCED then s\<lparr>mh_forced := True\<rparr> else s)"
  have k1: "core s1 = core s" by (simp add: s1_def core_simps)
  define s2 where "s2 = s1\<lparr>mh_theOneWhoCommandedAMode := cm_sender m,
    mh_commandedMode := mm_getMode m, mh_commandedSubmode := mm_getSubmode m\<rparr>"
  define s3 where "s3 = (if mh_parentQueueId s2 \<noteq> NO_QUEUE \<and> mh_theOneWhoCommandedAMode s2 \<noteq> mh_parentQueueId s2
    then setToExternalControl st s2 else s2)"
  have k3: "core s3 = core s" by (simp add: s3_def s2_def setToExternalControl_def core_simps k1)
  have c3: "config_ok s3" using ss_ok_core [OF ok k3] by (simp add: ss_ok_def)
  have ex: "existsModeSequence (mm_getMode m) s3" if "checkModeCommand (mm_getMode m) (mm_getSubmode m) s1 = OK"
    using that checkSequence_exists [of "mm_getMode m" s1] k1 k3
      config_lookups(1) [OF config_of_core [OF k3] ss_ok_maps(1) [OF ok]]
      config_lookups(1) [OF config_of_core [OF k1] ss_ok_maps(1) [OF ok]]
    by (auto simp: checkModeCommand_def split: if_splits)
  have start: "\<exists>s'. startTransition st (mm_getMode m) (mm_getSubmode m) s3 = Some s' \<and> ss_ok s' \<and> config s' = config s"
    if "checkModeCommand (mm_getMode m) (mm_getSubmode m) s1 = OK"
    using startTransition_defined [OF c3 ex [OF that], of st "mm_getSubmode m"]
      startTransition_config [of st "mm_getMode m" "mm_getSubmode m" s3] config_of_core [OF k3]
    by (auto simp: ss_ok_def)
  have keep: "ss_ok s' \<and> config s' = config s" if "core s' = core s" for s'
    using ss_ok_core [OF ok that] config_of_core [OF that] by simp
  have eq: "ss_handleModeCommand st m s =
    (if cm_command m = CMD_MODE_COMMAND_FORCED \<or> cm_command m = CMD_MODE_COMMAND then
       (let result = checkModeCommand (mm_getMode m) (mm_getSubmode m) s1 in
        if result \<noteq> OK then Some (OK, snd (sendMessageFrom st (cm_sender m) (setCantReachMode result) s1))
        else map_option (\<lambda>s. (OK, s)) (startTransition st (mm_getMode m) (mm_getSubmode m) s3))
     else ss_handleModeCommand st m s)"
    by (simp add: ss_handleModeCommand_def handleModeCommand_def Let_def s1_def [symmetric] s2_def [symmetric]
      s3_def [symmetric])
  have other: "\<exists>r s'. ss_handleModeCommand st m s = Some (r, s') \<and> core s' = core s"
    if "\<not> (cm_command m = CMD_MODE_COMMAND_FORCED \<or> cm_command m = CMD_MODE_COMMAND)"
    using that by (simp add: ss_handleModeCommand_def handleModeCommand_def Let_def core_simps)
  show ?thesis
  proof (cases "cm_command m = CMD_MODE_COMMAND_FORCED \<or> cm_command m = CMD_MODE_COMMAND")
    case True
    let ?r = "checkModeCommand (mm_getMode m) (mm_getSubmode m) s1"
    have e: "ss_handleModeCommand st m s =
      (if ?r \<noteq> OK then Some (OK, snd (sendMessageFrom st (cm_sender m) (setCantReachMode ?r) s1))
       else map_option (\<lambda>s. (OK, s)) (startTransition st (mm_getMode m) (mm_getSubmode m) s3))"
      using eq True by (simp add: Let_def)
    show ?thesis
    proof (cases "?r = OK")
      case True
      then show ?thesis using e start by auto
    next
      case False
      then show ?thesis using e keep [of "snd (sendMessageFrom st (cm_sender m) (setCantReachMode ?r) s1)"]
        by (simp add: core_simps k1)
    qed
  next
    case False
    then show ?thesis using other keep by blast
  qed
qed

lemma good_queue:
  assumes "ss_ok s" and "\<forall>m \<in> set msgs. answerable s m"
  shows "\<exists>s'. checkCommandQueue (ss_handleModeCommand st) (handleCommandMessage st) st msgs s = Some s' \<and>
    ss_ok s' \<and> config s' = config s"
  using assms
proof (induction msgs arbitrary: s)
  case (Cons m msgs)
  have ans: "answerable s' m'" if "config s' = config s" "m' \<in> set (m # msgs)" for s' m'
    using Cons.prems(2) config_lookups(1) [OF that(1) ss_ok_maps(1) [OF Cons.prems(1)]] that(2)
    by (auto simp: answerable_def)
  have go: "\<exists>s''. checkCommandQueue (ss_handleModeCommand st) (handleCommandMessage st) st msgs s' = Some s'' \<and>
      ss_ok s'' \<and> config s'' = config s"
    if "ss_ok s'" "config s' = config s" for s'
    using Cons.IH [OF that(1)] ans [OF that(2)] that(2) by auto
  obtain r1 s1 where 1: "handleHealthCommand sb_setHealth st m (s\<lparr>sb_last := cm_sender m\<rparr>) = (r1, s1)" by (metis surj_pair)
  then have "core s1 = core (s\<lparr>sb_last := cm_sender m\<rparr>)" by (metis core_handleHealthCommand snd_conv)
  then have k1: "core s1 = core s" by (simp add: core_simps)
  have ok1: "ss_ok s1" "config s1 = config s"
    using ss_ok_core [OF Cons.prems(1) k1] config_of_core [OF k1] by auto
  obtain r2 s2 where 2: "ss_handleModeCommand st m s1 = Some (r2, s2)" "ss_ok s2" "config s2 = config s"
    using good_handleModeCommand [OF ok1(1), of st m] ok1(2) by auto
  obtain r3 s3 where 3: "handleModeReply m s2 = (r3, s3)" by (metis surj_pair)
  then have k3: "core s3 = core s2" by (metis core_handleModeReply snd_conv)
  have ok3: "ss_ok s3" "config s3 = config s"
    using ss_ok_core [OF 2(2) k3] config_of_core [OF k3] 2(3) by auto
  obtain r4 s4 where 4: "handleCommandMessage st m s3 = Some (r4, s4)" "core s4 = core s3"
    using handleCommandMessage_core [OF ok3(1) ans [OF ok3(2)], of m st] by (auto simp: keeps_core_def)
  have ok4: "ss_ok s4" "config s4 = config s"
    using ss_ok_core [OF ok3(1) 4(2)] config_of_core [OF 4(2)] ok3(2) by auto
  let ?s5 = "snd (mq_reply st (setReplyRejected UNKNOWN_COMMAND (cm_command m)) s4)"
  have k5: "core ?s5 = core s4" by (simp add: core_simps)
  have ok5: "ss_ok ?s5" "config ?s5 = config s"
    using ss_ok_core [OF ok4(1) k5] config_of_core [OF k5] ok4(2) by auto
  show ?case
    using go [OF ok1] go [OF 2(2,3)] go [OF ok3] go [OF ok4] go [OF ok5] by (simp add: 1 2 3 4)
qed simp

lemma config_performChildOperation:
  assumes "performChildOperation st now s = Some s'"
  shows "config s' = config s"
proof -
  have c: "config (triggerEvent e a b s) = config s" "config (s\<lparr>uptimeStartTable := y\<rparr>) = config s"
    "config (s\<lparr>mh_forced := f\<rparr>) = config s" "config (s\<lparr>childrenChangedHealth := f\<rparr>) = config s"
    "config (s\<lparr>sb_submode := sm\<rparr>) = config s" for e a b y f s sm
    by (simp_all add: triggerEvent_def config_def maps_ok_def)
  have x: "config (executeTable st t sm' s) = config s" "config (mh_modeChanged st m sm s) = config s"
    "config (announceMode st r s) = config s" for t sm' m sm r s
    by (rule config_of_core, simp add: core_simps)+
  have f: "transitionFailed st r p s = Some s' \<Longrightarrow> config s' = config s" for r p s s'
    unfolding transitionFailed_def Let_def
    by (split if_split_asm, split if_split_asm) (auto simp: c dest: startTransition_config)
  have k: "cantKeepMode st s = Some s' \<Longrightarrow> config s' = config s" for s s'
    unfolding cantKeepMode_def Let_def
    by (split if_split_asm) (auto simp: c dest: startTransition_config)
  have n: "next_table st now e s = Some s' \<Longrightarrow> config s' = config s" for e s s'
    by (auto simp: next_table_def Let_def c x split: if_splits)
  have h: "finish_sequence st s = Some s' \<Longrightarrow> config s' = config s" for s s'
    by (auto simp: finish_sequence_def sb_setMode_def c x dest!: f split: if_splits option.splits)
  show ?thesis
    using assms
    by (auto simp: performChildOperation_def c dest!: f k n h startTransition_config
      split: if_splits option.splits list.splits)
qed

text \<open>Several cycles, each with the uptime and the messages that have come.\<close>

fun ss_cycles :: "send_status \<Rightarrow> (u32 \<times> CommandMessage list) list \<Rightarrow> Subsystem \<Rightarrow> Subsystem option" where
  "ss_cycles st [] s = Some s"
| "ss_cycles st ((now, msgs) # cycles) s =
     (case ss_performOperation st now msgs s of None \<Rightarrow> None | Some s' \<Rightarrow> ss_cycles st cycles s')"

lemma cycle_good:
  assumes "ss_ok s" and "\<forall>m \<in> set msgs. answerable s m"
  shows "\<exists>s'. ss_performOperation st now msgs s = Some s' \<and> ss_ok s' \<and> config s' = config s"
proof -
  let ?s = "s\<lparr>childrenChangedMode := False\<rparr>"
  have k: "core ?s = core s" by (simp add: core_simps)
  have "\<forall>m \<in> set msgs. answerable ?s m" using assms(2) by (simp add: answerable_def existsModeSequence_def)
  then obtain s1 where s1: "checkCommandQueue (ss_handleModeCommand st) (handleCommandMessage st) st msgs ?s = Some s1"
    "ss_ok s1" "config s1 = config s"
    using good_queue [OF ss_ok_core [OF assms(1) k], of msgs st] config_of_core [OF k] by auto
  obtain s2 where "performChildOperation st now s1 = Some s2" "ss_ok s2"
    using good_performChildOperation [OF s1(2), of st now] by (auto simp: good_def)
  then show ?thesis using s1 config_performChildOperation by (fastforce simp: ss_performOperation_def)
qed

lemma cycles_keep_invariant:
  assumes "ss_ok s" and "\<forall>(now, msgs) \<in> set cycles. \<forall>m \<in> set msgs. answerable s m"
  shows "\<exists>s'. ss_cycles st cycles s = Some s' \<and> ss_ok s' \<and> config s' = config s"
  using assms
proof (induction cycles arbitrary: s)
  case (Cons c cycles)
  obtain now msgs where c: "c = (now, msgs)" by (cases c)
  obtain s1 where s1: "ss_performOperation st now msgs s = Some s1" "ss_ok s1" "config s1 = config s"
    using cycle_good [OF Cons.prems(1), of msgs st now] Cons.prems(2) c by auto
  have "\<forall>(now, msgs) \<in> set cycles. \<forall>m \<in> set msgs. answerable s1 m"
    using Cons.prems(2) config_lookups(1) [OF s1(3) ss_ok_maps(1) [OF Cons.prems(1)]]
    by (auto simp: answerable_def)
  from Cons.IH [OF s1(2) this] show ?case using s1 c by auto
qed simp

section \<open>What a table commands\<close>

text \<open>A command that a table may send: the entry it is for, and what the health of the object demands.\<close>

definition commanded_by :: "'a SubsystemBase_scheme \<Rightarrow> u8 \<Rightarrow> ModeListEntry \<Rightarrow> queue_id \<times> CommandMessage \<Rightarrow> bool" where
  "commanded_by s sm e qm \<longleftrightarrow>
     (let object = getObject e; h = ht_getHealth object (sb_healthTable s) in
      (\<exists>child. map_of (childrenMap s) object = Some child \<and> fst qm = ci_commandQueue child) \<and>
      (if hasHealth object (sb_healthTable s) \<and> is_faulty_state h
       then cm_command (snd qm) = CMD_MODE_COMMAND \<and> mm_getMode (snd qm) = MODE_OFF \<and> mm_getSubmode (snd qm) = SUBMODE_NONE
       else mm_getMode (snd qm) = mle_getMode e \<and>
            mm_getSubmode (snd qm) = (if inheritSubmode e then sm else mle_getSubmode e)) \<and>
      (hasHealth object (sb_healthTable s) \<and> h = EXTERNAL_CONTROL \<longrightarrow>
         mh_forced s \<and> cm_command (snd qm) = CMD_MODE_COMMAND_FORCED))"

lemma cm_sender_update [simp]:
  "mm_getMode (m\<lparr>cm_sender := q\<rparr>) = mm_getMode m" "mm_getSubmode (m\<lparr>cm_sender := q\<rparr>) = mm_getSubmode m"
  by (simp_all add: mm_getMode_def mm_getSubmode_def)

lemma table_command_respects:
  assumes "table_command e sm s = Some m" and "map_of (childrenMap s) (getObject e) = Some child"
  shows "commanded_by s sm e (ci_commandQueue child, m\<lparr>cm_sender := q\<rparr>)"
  using assms
  by (auto simp: table_command_def commanded_by_def Let_def isFaulty_def isCommandable_def is_faulty_state_def
    split: if_splits)

lemma execute_entry_step:
  "\<exists>msgs. sb_sent (execute_entry st sm e s) = sb_sent s @ msgs \<and>
     commandsOutstanding (execute_entry st sm e s) = commandsOutstanding s + int (length msgs) \<and>
     (\<forall>qm \<in> set msgs. commanded_by s sm e qm) \<and>
     childrenMap (execute_entry st sm e s) = childrenMap s \<and>
     sb_healthTable (execute_entry st sm e s) = sb_healthTable s \<and>
     mh_forced (execute_entry st sm e s) = mh_forced s"
proof (cases "map_of (childrenMap s) (getObject e)")
  case (Some child)
  show ?thesis
  proof (cases "table_command e sm s")
    case (Some m)
    note c = \<open>map_of (childrenMap s) (getObject e) = Some child\<close>
    show ?thesis
      using table_command_respects [OF Some c, of "sb_queue s"]
      by (auto simp: execute_entry_def c Some sendMessageFrom_def Let_def
        intro!: exI [of _ "[(ci_commandQueue child, m\<lparr>cm_sender := sb_queue s\<rparr>)]"] exI [of _ "[]"])
  qed (simp add: execute_entry_def Some)
qed (simp add: execute_entry_def)

lemma fold_execute_entry:
  "\<exists>msgs. sb_sent (fold (execute_entry st sm) es s) = sb_sent s @ msgs \<and>
     commandsOutstanding (fold (execute_entry st sm) es s) = commandsOutstanding s + int (length msgs) \<and>
     (\<forall>qm \<in> set msgs. \<exists>e \<in> set es. commanded_by s sm e qm)"
proof (induction es arbitrary: s)
  case (Cons e es)
  let ?s = "execute_entry st sm e s"
  obtain m1 where 1: "sb_sent ?s = sb_sent s @ m1" "commandsOutstanding ?s = commandsOutstanding s + int (length m1)"
    "\<forall>qm \<in> set m1. commanded_by s sm e qm"
    and eq: "childrenMap ?s = childrenMap s" "sb_healthTable ?s = sb_healthTable s" "mh_forced ?s = mh_forced s"
    using execute_entry_step [of st sm e s] by blast
  obtain m2 where 2: "sb_sent (fold (execute_entry st sm) es ?s) = sb_sent ?s @ m2"
    "commandsOutstanding (fold (execute_entry st sm) es ?s) = commandsOutstanding ?s + int (length m2)"
    "\<forall>qm \<in> set m2. \<exists>e \<in> set es. commanded_by ?s sm e qm"
    using Cons.IH [of ?s] by blast
  have "commanded_by ?s sm e' qm = commanded_by s sm e' qm" for e' qm
    by (simp add: commanded_by_def eq)
  then show ?case using 1 2 by (intro exI [of _ "m1 @ m2"]) auto
qed simp

text \<open>
  C39: whatever table is executed, the commands sent go to children named by the table and count exactly
  the outstanding replies; a faulty child is only ever commanded off, every other child gets the mode and
  the (possibly inherited) submode of its entry, and a child under external control is commanded in forced
  mode only.
\<close>

theorem table_commands_respect_health:
  "\<exists>msgs. sb_sent (executeTable st table sm s) = sb_sent s @ msgs \<and>
     commandsOutstanding (executeTable st table sm s) = int (length msgs) \<and>
     (\<forall>qm \<in> set msgs. \<exists>e \<in> set table. commanded_by s sm e qm)"
  using fold_execute_entry [of st sm table "s\<lparr>commandsOutstanding := 0\<rparr>"]
  by (simp add: executeTable_def commanded_by_def)

section \<open>What a mode reply means\<close>



definition new_messages :: "'a SubsystemBase_scheme \<Rightarrow> 'a SubsystemBase_scheme \<Rightarrow> (queue_id \<times> CommandMessage) list" where
  "new_messages s s' = drop (length (sb_sent s)) (sb_sent s')"

definition only_commands :: "'a SubsystemBase_scheme \<Rightarrow> 'a SubsystemBase_scheme \<Rightarrow> bool" where
  "only_commands s s' \<longleftrightarrow> (\<exists>msgs. sb_sent s' = sb_sent s @ msgs \<and>
     (\<forall>qm \<in> set msgs. cm_command (snd qm) \<in> {CMD_MODE_COMMAND, CMD_MODE_COMMAND_FORCED}))"

lemma only_commands_refl [simp]: "sb_sent s' = sb_sent s \<Longrightarrow> only_commands s s'"
  by (simp add: only_commands_def)




lemma only_commands_event [simp]:
  "only_commands (triggerEvent e a b s) s' = only_commands s s'"
  "only_commands (s\<lparr>mh_forced := f\<rparr>) s' = only_commands s s'" "only_commands (s\<lparr>sb_mode := m\<rparr>) s' = only_commands s s'"
  by (simp_all add: only_commands_def triggerEvent_def)







lemma setMode_state [simp]:
  "sb_mode (sb_setMode st mode sm s) = mode" "sb_submode (sb_setMode st mode sm s) = sm"
  "childrenMap (sb_setMode st mode sm s) = childrenMap s"
  by (simp_all add: sb_setMode_def announceMode_def triggerEvent_def mh_modeChanged_def sendModeInfoMessage_def
    sendModeReplyMessage_def sendMessageFrom_def Let_def)


text \<open>
  C40: during a transition the only mode a subsystem accepts is the fallback mode of the target: any other
  mode command is answered with \<open>IN_TRANSITION\<close> to its sender, and apart from the forced flag and that
  answer the state of the subsystem is unchanged.
\<close>

theorem mode_command_refused_in_transition:
  assumes t: "isInTransition s" and m: "mm_getMode m \<noteq> getFallbackSequence (targetMode s) s"
    and c: "cm_command m \<in> {CMD_MODE_COMMAND, CMD_MODE_COMMAND_FORCED}" and st: "st (cm_sender m) (sb_sent s) = OK"
  shows "ss_handleModeCommand st m s = Some (OK, s\<lparr>mh_forced := (cm_command m = CMD_MODE_COMMAND_FORCED \<or> mh_forced s),
    sb_sent := sb_sent s @ [(cm_sender m, (setCantReachMode IN_TRANSITION)\<lparr>cm_sender := sb_queue s\<rparr>)]\<rparr>)"
proof -
  have "getFallbackSequence k (s\<lparr>mh_forced := f\<rparr>) = getFallbackSequence k s" for k f
    by (simp add: getFallbackSequence_def)
  then show ?thesis
    using assms
    by (auto simp: ss_handleModeCommand_def handleModeCommand_def checkModeCommand_def Let_def sendMessageFrom_def
      codes)
qed

section \<open>Transitions end\<close>

text \<open>
  Cycles in which the messages are those with which the children answer (\<open>env\<close>, from the state in which the
  cycle begins).
\<close>

fun run_env :: "send_status \<Rightarrow> u32 \<Rightarrow> (Subsystem \<Rightarrow> CommandMessage list) \<Rightarrow> nat \<Rightarrow> Subsystem \<Rightarrow> Subsystem option" where
  "run_env st now env 0 s = Some s"
| "run_env st now env (Suc n) s =
     (case ss_performOperation st now (env s) s of None \<Rightarrow> None | Some s' \<Rightarrow> run_env st now env n s')"

text \<open>
  A child answers a mode command with a mode reply, with the reply that it came to a wrong mode, or with the
  reply that it cannot reach the mode. Besides, it may inform about a change of its mode.
\<close>

definition is_answer :: "CommandMessage \<Rightarrow> bool" where
  "is_answer m \<longleftrightarrow> cm_command m \<in> {REPLY_MODE_REPLY, REPLY_WRONG_MODE_REPLY, REPLY_CANT_REACH_MODE}"

definition from_child :: "CommandMessage \<Rightarrow> bool" where
  "from_child m \<longleftrightarrow> is_answer m \<or> cm_command m = REPLY_MODE_INFO"

definition children_answer :: "(Subsystem \<Rightarrow> CommandMessage list) \<Rightarrow> bool" where
  "children_answer env \<longleftrightarrow> (\<forall>s. list_all from_child (env s) \<and>
     commandsOutstanding s \<le> int (length (filter is_answer (env s))))"

text \<open>The events since a state, and those with which a transition ends.\<close>

definition new_events :: "'a SubsystemBase_scheme \<Rightarrow> 'a SubsystemBase_scheme \<Rightarrow> (Event \<times> u32 \<times> u32) list" where
  "new_events s s' = drop (length (sb_events s)) (sb_events s')"

definition transition_ended :: "Subsystem \<Rightarrow> Subsystem \<Rightarrow> bool" where
  "transition_ended s s' \<longleftrightarrow>
     (\<not> isInTransition s' \<and> sb_mode s' = targetMode s \<and> sb_submode s' = targetSubmode s \<and>
      (MODE_INFO, targetMode s, ucast (targetSubmode s)) \<in> set (new_events s s')) \<or>
     (\<exists>r p. (MODE_TRANSITION_FAILED, r, p) \<in> set (new_events s s'))"

text \<open>Events are appended only.\<close>

definition grows :: "'a SubsystemBase_scheme \<Rightarrow> 'a SubsystemBase_scheme \<Rightarrow> bool" where
  "grows s s' \<longleftrightarrow> (\<exists>ev. sb_events s' = sb_events s @ ev)"

lemma grows_refl [simp]: "sb_events s' = sb_events s \<Longrightarrow> grows s s'"
  by (simp add: grows_def)

lemma grows_trans: "grows s s1 \<Longrightarrow> grows s1 s2 \<Longrightarrow> grows s s2"
  by (auto simp: grows_def)

lemma grows_new_events: "grows s s1 \<Longrightarrow> e \<in> set (new_events s1 s') \<Longrightarrow> e \<in> set (new_events s s')"
  using set_drop_subset_set_drop [of "length (sb_events s)" "length (sb_events s1)" "sb_events s'"]
  by (auto simp: grows_def new_events_def)

text \<open>What the rejection of a command by a child does.\<close>

lemma rejected_events:
  fixes s :: Subsystem and q p :: u32
  defines "f \<equiv> \<lambda>(object, child) s. if ci_commandQueue child = q then triggerEvent MODE_CMD_REJECTED object p s else s"
  shows "commandsOutstanding (fold f cs s) = commandsOutstanding s" "grows s (fold f cs s)"
    "targetSubmode (fold f cs s) = targetSubmode s"
proof -
  have step: "commandsOutstanding (f c t) = commandsOutstanding t" "grows t (f c t)"
    "targetSubmode (f c t) = targetSubmode t" for c and t :: Subsystem
    by (auto simp: f_def grows_def triggerEvent_def split: prod.splits)
  show "commandsOutstanding (fold f cs s) = commandsOutstanding s"
    "targetSubmode (fold f cs s) = targetSubmode s"
    by (induction cs arbitrary: s) (simp_all add: step)
  show "grows s (fold f cs s)"
    by (induction cs arbitrary: s) (auto intro: grows_trans step)
qed

lemma reply_step:
  assumes "from_child m"
  shows "handleHealthCommand sb_setHealth st m s = (FAILED, s)" and "ss_handleModeCommand st m s = Some (FAILED, s)"
    and "fst (handleModeReply m s) = OK"
    and "commandsOutstanding (snd (handleModeReply m s)) = commandsOutstanding s - of_bool (is_answer m)"
    and "grows s (snd (handleModeReply m s))"
    and "targetSubmode (snd (handleModeReply m s)) = targetSubmode s"
  using assms rejected_events [where s = "s\<lparr>commandsOutstanding := commandsOutstanding s - 1\<rparr>"]
  by (auto simp: from_child_def is_answer_def handleHealthCommand_def ss_handleModeCommand_def handleModeCommand_def
    handleModeReply_def updateChildMode_def Let_def codes grows_def split: option.splits)

lemma replies_handled:
  assumes "list_all from_child msgs"
  shows "\<exists>s'. checkCommandQueue (ss_handleModeCommand st) handle st msgs s = Some s' \<and> core s' = core s \<and>
    commandsOutstanding s' = commandsOutstanding s - int (length (filter is_answer msgs)) \<and> grows s s' \<and>
    targetSubmode s' = targetSubmode s"
  using assms
proof (induction msgs arbitrary: s)
  case (Cons m msgs)
  have c: "from_child m" using Cons.prems by simp
  let ?s = "s\<lparr>sb_last := cm_sender m\<rparr>"
  let ?s' = "snd (handleModeReply m ?s)"
  have e: "checkCommandQueue (ss_handleModeCommand st) handle st (m # msgs) s =
      checkCommandQueue (ss_handleModeCommand st) handle st msgs ?s'"
    by (simp add: case_prod_unfold reply_step [OF c])
  obtain s2 where s2: "checkCommandQueue (ss_handleModeCommand st) handle st msgs ?s' = Some s2" "core s2 = core ?s'"
    "commandsOutstanding s2 = commandsOutstanding ?s' - int (length (filter is_answer msgs))" "grows ?s' s2"
    "targetSubmode s2 = targetSubmode ?s'"
    using Cons.IH [of ?s'] Cons.prems by auto
  have "grows s s2" using reply_step(5) [OF c, of ?s] s2(4) by (auto simp: grows_def)
  then show ?case
    unfolding e using s2 reply_step(4,6) [OF c, of ?s] by (auto simp: core_simps)
qed simp

lemma events_executeTable [simp]:
  "sb_events (executeTable st table sm s) = sb_events s"
  "targetSubmode (executeTable st table sm (t :: Subsystem)) = targetSubmode t"
proof -
  have 1: "sb_events (execute_entry st sm e s) = sb_events s" for e and s :: "'a SubsystemBase_scheme"
    by (auto simp: execute_entry_def sendMessageFrom_def Let_def split: option.split)
  have 2: "targetSubmode (execute_entry st sm e s) = targetSubmode s" for e and s :: Subsystem
    by (auto simp: execute_entry_def sendMessageFrom_def Let_def split: option.split)
  have "sb_events (fold (execute_entry st sm) table s) = sb_events s" for s :: "'a SubsystemBase_scheme"
    by (induction table arbitrary: s) (simp_all add: 1)
  then show "sb_events (executeTable st table sm s) = sb_events s" by (simp add: executeTable_def)
  have "targetSubmode (fold (execute_entry st sm) table t) = targetSubmode t" for t :: Subsystem
    by (induction table arbitrary: t) (simp_all add: 2)
  then show "targetSubmode (executeTable st table sm t) = targetSubmode t" by (simp add: executeTable_def)
qed

lemma events_startTransition:
  assumes "startTransition st m sm s = Some s'"
  shows "\<exists>ev. sb_events s' = sb_events s @ ev"
  using assms
  by (auto simp: startTransition_def Let_def triggerEvent_def split: option.splits list.splits if_splits)

lemma transitionFailed_events:
  assumes "transitionFailed st c p s = Some s'"
  shows "(MODE_TRANSITION_FAILED, rv_param c, p) \<in> set (new_events s s')"
proof -
  let ?e = "(MODE_TRANSITION_FAILED, rv_param c, p)"
  have "\<exists>ev. sb_events s' = sb_events s @ ?e # ev"
    using assms unfolding transitionFailed_def Let_def
    by (split if_split_asm, split if_split_asm)
      (auto simp: triggerEvent_def dest!: events_startTransition)
  then show ?thesis by (auto simp: new_events_def)
qed

lemma transition_step:
  assumes ok: "ss_ok s" and t: "isInTransition s" and it: "currentSequenceIterator s = e # rest"
    and w: "getWaitSeconds e = 0" and o: "commandsOutstanding s \<le> 0"
  shows "\<exists>s'. performChildOperation st now s = Some s' \<and> ss_ok s' \<and>
    ((\<exists>r p. (MODE_TRANSITION_FAILED, r, p) \<in> set (new_events s s')) \<or>
     isInTransition s' \<and> currentSequenceIterator s' = rest \<and> targetMode s' = targetMode s \<and>
     targetSubmode s' = targetSubmode s \<and> sb_events s' = sb_events s)"
proof -
  obtain s' where s': "performChildOperation st now s = Some s'" "ss_ok s'"
    using good_performChildOperation [OF ok, of st now] by (auto simp: good_def)
  have f: "\<exists>r p. (MODE_TRANSITION_FAILED, r, p) \<in> set (new_events s s')"
    if "transitionFailed st c p s = Some s'" for c p
    using transitionFailed_events [OF that] by blast
  let ?s = "s\<lparr>uptimeStartTable := 0, currentSequenceIterator := rest\<rparr>"
  have n: "isInTransition s' \<and> currentSequenceIterator s' = rest \<and> targetMode s' = targetMode s \<and>
     targetSubmode s' = targetSubmode s \<and> sb_events s' = sb_events s"
    if "next_table st now e s = Some s'"
  proof -
    have "s' = ?s \<or> (\<exists>tb. s' = executeTable st tb (targetSubmode s) ?s)"
      using that w it by (auto simp: next_table_def Let_def split: if_splits)
    moreover have "core (executeTable st tb sm ?s) = core ?s" for tb sm by (simp add: core_simps)
    ultimately show ?thesis using t by (auto simp: core_def)
  qed
  show ?thesis
    using s' f n it t o
    by (auto simp: performChildOperation_def split: if_splits option.splits)
qed

lemma finish_step:
  assumes ok: "ss_ok s" and t: "isInTransition s" and it: "currentSequenceIterator s = []"
    and o: "commandsOutstanding s \<le> 0"
  shows "\<exists>s'. performChildOperation st now s = Some s' \<and> transition_ended s s'"
proof -
  obtain s' where s': "performChildOperation st now s = Some s'"
    using good_performChildOperation [OF ok, of st now] by (auto simp: good_def)
  then have f: "finish_sequence st s = Some s'" using t it o by (simp add: performChildOperation_def)
  have "transition_ended s s'"
  proof (cases "checkStateAgainstTable (currentTargetTable s) (targetSubmode s) s = OK")
    case True
    then have s'': "s' = (sb_setMode st (targetMode s) (targetSubmode s) s)\<lparr>isInTransition := False\<rparr>"
      using f by (simp add: finish_sequence_def)
    have "sb_events (sb_setMode st m sm s) = sb_events s @ [(MODE_INFO, m, ucast sm)]" for m sm
      by (simp add: sb_setMode_def announceMode_def triggerEvent_def mh_modeChanged_def sendModeInfoMessage_def
        sendModeReplyMessage_def sendMessageFrom_def Let_def)
    then show ?thesis by (simp add: transition_ended_def new_events_def s'')
  next
    case False
    then obtain p where "transitionFailed st TARGET_TABLE_NOT_REACHED p s = Some s'"
      using f by (auto simp: finish_sequence_def split: option.splits)
    then show ?thesis using transitionFailed_events by (fastforce simp: transition_ended_def)
  qed
  then show ?thesis using s' by blast
qed

lemma replies_then_operation:
  assumes a: "children_answer env" and ok: "ss_ok s"
  obtains s1 where "ss_performOperation st now (env s) s = performChildOperation st now s1" "ss_ok s1"
    "core s1 = core s" "commandsOutstanding s1 \<le> 0" "grows s s1" "targetSubmode s1 = targetSubmode s"
proof -
  let ?s = "s\<lparr>childrenChangedMode := False\<rparr>"
  have r: "list_all from_child (env s)" and n: "commandsOutstanding s \<le> int (length (filter is_answer (env s)))"
    using a by (simp_all add: children_answer_def)
  obtain s1 where s1: "checkCommandQueue (ss_handleModeCommand st) (handleCommandMessage st) st (env s) ?s = Some s1"
    "core s1 = core ?s" "commandsOutstanding s1 = commandsOutstanding s - int (length (filter is_answer (env s)))"
    "grows s s1" "targetSubmode s1 = targetSubmode s"
    using replies_handled [OF r, of st "handleCommandMessage st" ?s] by (auto simp: grows_def)
  have k: "core s1 = core s" using s1(2) by (simp add: core_simps)
  then show thesis
    using that [of s1] s1 n ss_ok_core [OF ok k] by (simp add: ss_performOperation_def)
qed

text \<open>
  C14: transitions end. From a consistent state in which a transition is under way, if the tables of the sequence ask for no waiting time and in every cycle the children
  answer all outstanding commands, each with a mode reply, a wrong mode reply or a rejection, and send nothing else
  but such answers and mode informations, then after at most one cycle more than there are tables left the transition
  is over: the subsystem is in the target mode and has announced it, or the failure of the transition has been
  reported.
\<close>

theorem transitions_end:
  assumes "ss_ok s" and "isInTransition s" and "children_answer env"
    and "\<forall>e \<in> set (currentSequenceIterator s). getWaitSeconds e = 0"
  shows "\<exists>k s'. k \<le> Suc (length (currentSequenceIterator s)) \<and> run_env st now env k s = Some s' \<and>
    transition_ended s s'"
  using assms
proof (induction "currentSequenceIterator s" arbitrary: s)
  case Nil
  obtain s1 where s1: "ss_performOperation st now (env s) s = performChildOperation st now s1" "ss_ok s1"
    "core s1 = core s" "commandsOutstanding s1 \<le> 0" "grows s s1" "targetSubmode s1 = targetSubmode s"
    using replies_then_operation [OF Nil.prems(3,1)] by blast
  then obtain s' where "performChildOperation st now s1 = Some s'" "transition_ended s1 s'"
    using finish_step [OF s1(2), of st now] Nil by (auto simp: core_def)
  moreover from this(2) have "transition_ended s s'"
    using s1 by (auto simp: transition_ended_def core_def dest: grows_new_events)
  ultimately show ?case using s1(1) by (intro exI [of _ "Suc 0"] exI [of _ s']) simp
next
  case (Cons e rest)
  obtain s1 where s1: "ss_performOperation st now (env s) s = performChildOperation st now s1" "ss_ok s1"
    "core s1 = core s" "commandsOutstanding s1 \<le> 0" "grows s s1" "targetSubmode s1 = targetSubmode s"
    using replies_then_operation [OF Cons.prems(3,1)] by blast
  have it: "currentSequenceIterator s1 = e # rest" and t1: "isInTransition s1" and tm: "targetMode s1 = targetMode s"
    using s1(3) Cons.hyps(2) Cons.prems(2) by (simp_all add: core_def)
  have w: "getWaitSeconds e = 0" using Cons.prems(4) Cons.hyps(2) by (metis list.set_intros(1))
  obtain s2 where s2: "performChildOperation st now s1 = Some s2" "ss_ok s2" and
    c: "(\<exists>r p. (MODE_TRANSITION_FAILED, r, p) \<in> set (new_events s1 s2)) \<or>
     isInTransition s2 \<and> currentSequenceIterator s2 = rest \<and> targetMode s2 = targetMode s1 \<and>
     targetSubmode s2 = targetSubmode s1 \<and> sb_events s2 = sb_events s1"
    using transition_step [OF s1(2) t1 it w s1(4), of st now] by blast
  have one: "run_env st now env (Suc n) s = run_env st now env n s2" for n using s1(1) s2(1) by simp
  from c show ?case
  proof
    assume "\<exists>r p. (MODE_TRANSITION_FAILED, r, p) \<in> set (new_events s1 s2)"
    then have "transition_ended s s2" using s1(5) by (auto simp: transition_ended_def dest: grows_new_events)
    then show ?thesis using one [of 0] by (intro exI [of _ "Suc 0"] exI [of _ s2]) simp
  next
    assume n: "isInTransition s2 \<and> currentSequenceIterator s2 = rest \<and> targetMode s2 = targetMode s1 \<and>
     targetSubmode s2 = targetSubmode s1 \<and> sb_events s2 = sb_events s1"
    have "\<forall>e \<in> set (currentSequenceIterator s2). getWaitSeconds e = 0"
      using n Cons.prems(4) Cons.hyps(2) by (metis list.set_intros(2))
    then obtain k s' where k: "k \<le> Suc (length rest)" "run_env st now env k s2 = Some s'" "transition_ended s2 s'"
      using Cons.hyps(1) [of s2] n s2(2) Cons.prems(3) by auto
    moreover have "grows s s2" using n s1(5) by (simp add: grows_def)
    ultimately have "transition_ended s s'"
      using n s1(6) tm by (auto simp: transition_ended_def dest: grows_new_events)
    then show ?thesis
      using k one [of k] Cons.hyps(2) [symmetric] by (intro exI [of _ "Suc k"] exI [of _ s']) simp
  qed
qed

section \<open>The subsystem as the owner of a mode helper\<close>

lemma mh_record_executeTable: "mh_record (executeTable st t sm s) = mh_record s"
proof -
  have e: "mh_record (execute_entry st sm x s) = mh_record s" for x and s :: "'a SubsystemBase_scheme"
    by (auto simp: execute_entry_def sendMessageFrom_def Let_def mh_record_def split: option.split)
  have "mh_record (fold (execute_entry st sm) t s) = mh_record s" for s :: "'a SubsystemBase_scheme"
    by (induction t arbitrary: s) (simp_all add: e)
  then show ?thesis by (simp add: executeTable_def) (simp add: mh_record_def)
qed

lemma mh_record_startTransition: "startTransition st m sm s = Some s' \<Longrightarrow> mh_record s' = mh_record s"
  by (auto simp: startTransition_def Let_def triggerEvent_def mh_record_executeTable split: option.splits list.splits if_splits)
    (simp_all add: mh_record_def)

interpretation subsystem_modes: has_slow_modes "\<lambda>mode submode s. (checkModeCommand mode submode s, s)" "startTransition st" "setToExternalControl st" "announceMode st" for st
  by unfold_locales
    (simp, simp add: mh_record_startTransition, simp add: setToExternalControl_def hh_setHealth_def informParent_def
      sendMessageFrom_def triggerEvent_def Let_def mh_record_def, erule mh_record_startTransition)

lemmas subsystem_command_recorded = subsystem_modes.accepted_command_recorded [folded ss_handleModeCommand_def]

section \<open>Examples\<close>

text \<open>
  A subsystem with one child, the mode 7 with the target table 1 and the table 2 to execute (both demand mode
  2 of the child), commanded to mode 7 by the queue 9.
\<close>

definition demo_table :: "ModeListEntry list" where
  "demo_table = [\<lparr>value1 = 10, value2 = 2, value3 = 0, value4 = 0\<rparr>]"

definition demo_sequence :: "ModeListEntry list" where
  "demo_sequence = [mle_new\<lparr>value1 := 1\<rparr>, mle_new\<lparr>value1 := 2\<rparr>]"

definition demo :: "u32 \<Rightarrow> mode_iter \<Rightarrow> Subsystem" where
  "demo childMode iter =
     \<lparr>sb_objectId = 100, sb_queue = 1, sb_last = 9, sb_sent = [], sb_events = [], sb_healthTable = ht_new,
      hh_parentQueue = NO_QUEUE, mh_theOneWhoCommandedAMode = 9, mh_commandedMode = 7, mh_commandedSubmode = 0,
      mh_forced = False, mh_parentQueueId = NO_QUEUE, sb_mode = 7, sb_submode = 0, childrenChangedMode = False,
      commandsOutstanding = 0,
      childrenMap = [(10, \<lparr>ci_commandQueue = 5, ci_mode = childMode, ci_submode = 0, ci_healthChanged = False\<rparr>)],
      isInTransition = True, childrenChangedHealth = False, uptimeStartTable = 0, currentTargetTable = demo_table,
      targetMode = 7, targetSubmode = 0, initialMode = 7, initSubmode = 0, currentSequenceIterator = iter,
      modeTables = \<lparr>fm_map = [(1, \<lparr>islinked = False, ep_entries = demo_table\<rparr>),
                            (2, \<lparr>islinked = False, ep_entries = demo_table\<rparr>)], fm_size = length [1 :: nat, 2]\<rparr>,
      modeSequences = \<lparr>fm_map = [(7, \<lparr>fallbackSequence = 7,
          si_entries = \<lparr>islinked = False, ep_entries = demo_sequence\<rparr>\<rparr>)], fm_size = length [1 :: nat]\<rparr>,
      IPCStore = pool_init [] False\<rparr>"

lemma demo_maps: "maps_ok (demo m it)"
  by (simp add: maps_ok_def fm_inv_def fm_entries_def demo_def)

lemma demo_ok:
  assumes "set it \<subseteq> set demo_sequence"
  shows "ss_ok (demo m it)"
proof -
  note l = lookup_spec [OF demo_maps [of m it]]
  have e: "sequences (demo m it) 7 = Some \<lparr>fallbackSequence = 7, si_entries = \<lparr>islinked = False, ep_entries = demo_sequence\<rparr>\<rparr>"
    "tables (demo m it) 1 = Some \<lparr>islinked = False, ep_entries = demo_table\<rparr>"
    "tables (demo m it) 2 = Some \<lparr>islinked = False, ep_entries = demo_table\<rparr>"
    by (simp_all add: demo_def fm_entries_def)
  have ids: "\<forall>x \<in> set demo_sequence. getTableId x = 1 \<or> getTableId x = 2"
    by (simp add: demo_sequence_def getTableId_def mle_new_def)
  have t: "checkTable demo_table (demo m it) = OK"
    by (simp add: checkTable_OK demo_table_def demo_def getObject_def)
  then have ct: "check_tables demo_sequence (demo m it) = OK"
    using ids e by (auto simp: check_tables_OK [OF demo_maps])
  have "checkSequence 7 (demo m it) = OK"
    using ct e by (auto simp: checkSequence_OK [OF demo_maps] demo_sequence_def)
  then have "checkObjectConnections (demo m it) = OK"
    by (simp add: checkObjectConnections_OK demo_def fm_entries_def)
  moreover have "no_linked (demo m it)" by (simp add: no_linked_def demo_def fm_entries_def)
  moreover have f: "sb_mode (demo m it) = 7" "targetMode (demo m it) = 7" "currentTargetTable (demo m it) = demo_table"
    "currentSequenceIterator (demo m it) = it" by (simp_all add: demo_def)
  moreover have "\<forall>x \<in> set it. existsModeTable (getTableId x) (demo m it)"
  proof
    fix x assume "x \<in> set it"
    then have "getTableId x = 1 \<or> getTableId x = 2" using assms ids by blast
    then show "existsModeTable (getTableId x) (demo m it)" using e by (auto simp: l)
  qed
  ultimately show ?thesis
    using demo_maps e
    by (simp add: ss_ok_def config_ok_def transition_ok_def l f)
      (simp add: demo_sequence_def getTableId_def mle_new_def)
qed

abbreviation always_sent :: send_status where "always_sent \<equiv> \<lambda>q sent. OK"

definition obedient :: "Subsystem \<Rightarrow> CommandMessage list" where
  "obedient s = replicate (nat (commandsOutstanding s)) ((setModeMessage REPLY_MODE_REPLY 2 0)\<lparr>cm_sender := 5\<rparr>)"

lemma obedient_answers: "children_answer obedient"
  by (simp add: children_answer_def obedient_def list_all_iff from_child_def is_answer_def)

theorem transitions_end_witness:
  "\<exists>k s'. k \<le> Suc (length (drop 1 demo_sequence)) \<and>
     run_env always_sent 0 obedient k (demo 0 (drop 1 demo_sequence)) = Some s' \<and>
     transition_ended (demo 0 (drop 1 demo_sequence)) s'"
proof -
  let ?s = "demo 0 (drop 1 demo_sequence)"
  have ok: "ss_ok ?s" by (rule demo_ok) (auto dest: in_set_dropD)
  have t: "isInTransition ?s" and it: "currentSequenceIterator ?s = drop 1 demo_sequence"
    by (simp_all add: demo_def)
  have w: "\<forall>e \<in> set (currentSequenceIterator ?s). getWaitSeconds e = 0"
    unfolding it by (simp add: demo_sequence_def mle_new_def getWaitSeconds_def)
  show ?thesis
    using transitions_end [OF ok t obedient_answers w, of always_sent 0] unfolding it .
qed


theorem mode_command_refused_in_transition_witness:
  "ss_handleModeCommand always_sent ((setModeMessage CMD_MODE_COMMAND 3 0)\<lparr>cm_sender := 4\<rparr>) (demo 0 []) =
     Some (OK, (demo 0 [])\<lparr>sb_sent := [(4, (setCantReachMode IN_TRANSITION)\<lparr>cm_sender := 1\<rparr>)]\<rparr>)"
proof -
  let ?m = "(setModeMessage CMD_MODE_COMMAND 3 0)\<lparr>cm_sender := 4\<rparr>"
  have t: "isInTransition (demo 0 [])" by (simp add: demo_def)
  have m: "mm_getMode ?m \<noteq> getFallbackSequence (targetMode (demo 0 [])) (demo 0 [])"
    by (simp add: getFallbackSequence_def demo_def fm_entries_def)
  have c: "cm_command ?m \<in> {CMD_MODE_COMMAND, CMD_MODE_COMMAND_FORCED}" by simp
  show ?thesis
    using mode_command_refused_in_transition [OF t m c, of always_sent] by (simp add: demo_def codes)
qed

theorem table_commands_respect_health_witness:
  "commandsOutstanding (executeTable always_sent demo_table 0 (demo 0 [])) =
     int (length (sb_sent (executeTable always_sent demo_table 0 (demo 0 []))))"
proof -
  have "sb_sent (demo 0 []) = []" by (simp add: demo_def)
  then show ?thesis
    using table_commands_respect_health [of always_sent demo_table 0 "demo 0 []"] by auto
qed

text \<open>
  C1: no cycle of a checked subsystem touches memory it must not: as long as nobody asks for a sequence that
  does not exist, every sequence of cycles, whatever messages come and whatever sends fail, is defined, keeps
  the invariant and leaves the configured tables and sequences and the set of children unchanged.
\<close>

theorem subsystem_cycles_defined:
  assumes "ss_ok s" and "\<forall>(now, msgs) \<in> set cycles. \<forall>m \<in> set msgs. answerable s m"
  shows "\<exists>s'. ss_cycles st cycles s = Some s' \<and> ss_ok s' \<and> config s' = config s"
  using cycles_keep_invariant [OF assms] .

theorem subsystem_cycles_defined_witness:
  "\<exists>s'. ss_cycles always_sent [(0, [setModeMessage CMD_MODE_COMMAND 7 0]), (1, [])] (demo 0 []) = Some s' \<and> ss_ok s'"
proof -
  have "\<forall>(now, msgs) \<in> set [(0 :: u32, [setModeMessage CMD_MODE_COMMAND 7 0]), (1, [])].
      \<forall>m \<in> set msgs. answerable (demo 0 []) m"
    by (simp add: answerable_def codes)
  moreover have "ss_ok (demo 0 [])" by (rule demo_ok) simp
  ultimately show ?thesis
    using subsystem_cycles_defined [of "demo 0 []"
        "[(0, [setModeMessage CMD_MODE_COMMAND 7 0]), (1, [])]" always_sent] by blast
qed

text \<open>
  The invariant holds once the subsystem has been initialized, its configuration has been checked, and the
  initial mode has a sequence. Nothing checks the latter: the initial mode is 0 by default.
\<close>

lemma initialized_ok:
  assumes "maps_ok s" and "no_linked s" and "checkObjectConnections s = OK" and "existsModeSequence (initialMode s) s"
    and "\<not> isInTransition s" and "ss_initialize s = (OK, s')"
  shows "ss_ok s'"
proof -
  have s': "s' = s\<lparr>sb_mode := initialMode s, sb_submode := initSubmode s\<rparr>"
    using assms(6) by (auto simp: ss_initialize_def split: if_splits)
  have c: "config s' = config s" by (simp add: s' config_def maps_ok_def)
  show ?thesis
    using assms config_lookups [OF c assms(1)] c
    by (simp add: ss_ok_def config_ok_def s' no_linked_def config_def)
qed

section \<open>Divergences\<close>

text \<open>A request for a sequence that does not exist is undefined, it goes on with a null pointer.\<close>

lemma read_of_absent_sequence_undefined:
  assumes "maps_ok s" and "\<not> existsModeSequence (getSequenceId m) s" and "cm_command m = READ_SEQUENCE"
  shows "handleCommandMessage st m s = None"
  using assms
  by (simp add: handleCommandMessage_def handle_read_sequence_def Let_def lookup_spec maps_ok_def fm_find_spec codes)

text \<open>A request for a table that does not exist is answered twice.\<close>

lemma read_of_absent_table_answered_twice:
  assumes "maps_ok s" and "\<not> existsModeTable (getSequenceId m) s" and "cm_command m = READ_TABLE"
    and "cm_sender m \<noteq> NO_QUEUE"
  shows "\<exists>s'. checkCommandQueue (ss_handleModeCommand always_sent) (handleCommandMessage always_sent) always_sent [m] s = Some s' \<and>
    length (new_messages s s') = 2"
  using assms
  by (simp add: handleHealthCommand_def ss_handleModeCommand_def handleModeCommand_def handleModeReply_def
    handleCommandMessage_def handle_read_table_def Let_def lookup_spec maps_ok_def fm_find_spec replyToCommand_def
    mq_reply_def sendMessageFrom_def new_messages_def codes)

text \<open>Deleting a table erases the sequence with the same identifier and keeps the table.\<close>

lemma deleteTable_keeps_table:
  assumes "deleteTable i s = (OK, s')" and "fm_inv (modeSequences s)" and "sequences s i = Some info"
  shows "modeTables s' = modeTables s" and "sequences s' i = None"
  using assms fm_erase_keeps(2) [OF assms(2,3)]
  by (auto simp: deleteTable_def split: if_splits prod.splits)

text \<open>A refused forced command leaves the subsystem in forced mode.\<close>

lemma refused_command_leaves_forced:
  assumes "isInTransition s" and "mm_getMode m \<noteq> getFallbackSequence (targetMode s) s"
    and "cm_command m = CMD_MODE_COMMAND_FORCED"
  shows "\<exists>s'. ss_handleModeCommand always_sent m s = Some (OK, s') \<and> mh_forced s' \<and> sb_mode s' = sb_mode s"
  using assms
  by (simp add: ss_handleModeCommand_def handleModeCommand_def checkModeCommand_def getFallbackSequence_def Let_def
    sendMessageFrom_def)

text \<open>A new transition does not reset the start of the waiting time of an interrupted one.\<close>

lemma waiting_time_not_reset:
  assumes "startTransition st m sm s = Some s'"
  shows "uptimeStartTable s' = uptimeStartTable s"
proof -
  have e: "uptimeStartTable (execute_entry st sm' x s) = uptimeStartTable s" for sm' x and s :: Subsystem
    by (auto simp: execute_entry_def sendMessageFrom_def Let_def split: option.split)
  have "uptimeStartTable (fold (execute_entry st sm') t s) = uptimeStartTable s" for t sm' and s :: Subsystem
    by (induction t arbitrary: s) (simp_all add: e)
  then show ?thesis
    using assms
    by (auto simp: startTransition_def Let_def triggerEvent_def executeTable_def
      split: option.splits list.splits if_splits)
qed

end
