(* ===== verification/Device_Handler.thy ===== *)
theory Device_Handler
  imports Mode_Helper Ccsds_Time
begin

text \<open>
  The base class of the device handlers (\<open>src/src/fsfw/devicehandlers/DeviceHandlerBase.cpp\<close>) with the action
  helper (\<open>src/src/fsfw/action/ActionHelper.cpp\<close>, \<open>ActionMessage.cpp\<close>): the mode machine from power on to power
  off, and the bookkeeping of commands and replies between the commander, the handler and the device.

  A record \<open>device\<close> holds what is outside of the base class: the child class's virtual operations, the
  communication interface, the power switcher, the helpers that are modelled elsewhere or not at all, the
  uptime and the status of sends. The iterators into the command map are keys; the map never loses an entry.
\<close>

section \<open>Constants\<close>

abbreviation MODE_ON :: u32 where "MODE_ON \<equiv> 1"
abbreviation MODE_NORMAL :: u32 where "MODE_NORMAL \<equiv> 2"
abbreviation MODE_RAW :: u32 where "MODE_RAW \<equiv> 3"
abbreviation MODE_ERROR_ON :: u32 where "MODE_ERROR_ON \<equiv> 4"

definition TRANSITION_MODE_CHILD_ACTION_MASK :: u32 where [codes]: "TRANSITION_MODE_CHILD_ACTION_MASK = 0x20"
definition TRANSITION_MODE_BASE_ACTION_MASK :: u32 where [codes]: "TRANSITION_MODE_BASE_ACTION_MASK = 0x10"

definition T_MODE_START_UP :: u32 where [codes]: "T_MODE_START_UP = TRANSITION_MODE_CHILD_ACTION_MASK OR 5"
definition T_MODE_SHUT_DOWN :: u32 where [codes]: "T_MODE_SHUT_DOWN = TRANSITION_MODE_CHILD_ACTION_MASK OR 6"
definition T_MODE_TO_ON :: u32 where [codes]: "T_MODE_TO_ON = TRANSITION_MODE_CHILD_ACTION_MASK OR MODE_ON"
definition T_MODE_TO_RAW :: u32 where [codes]: "T_MODE_TO_RAW = TRANSITION_MODE_CHILD_ACTION_MASK OR MODE_RAW"
definition T_MODE_TO_NORMAL :: u32 where [codes]: "T_MODE_TO_NORMAL = TRANSITION_MODE_CHILD_ACTION_MASK OR MODE_NORMAL"
definition T_MODE_POWER_DOWN :: u32 where [codes]: "T_MODE_POWER_DOWN = TRANSITION_MODE_BASE_ACTION_MASK OR 1"
definition T_MODE_POWER_ON :: u32 where [codes]: "T_MODE_POWER_ON = TRANSITION_MODE_BASE_ACTION_MASK OR 2"
definition T_MODE_WAIT_OFF :: u32 where [codes]: "T_MODE_WAIT_OFF = TRANSITION_MODE_BASE_ACTION_MASK OR 3"
definition T_MODE_WAIT_ON :: u32 where [codes]: "T_MODE_WAIT_ON = TRANSITION_MODE_BASE_ACTION_MASK OR 4"
definition T_MODE_SWITCH_IS_OFF :: u32 where [codes]: "T_MODE_SWITCH_IS_OFF = TRANSITION_MODE_BASE_ACTION_MASK OR 5"

abbreviation RAW_COMMAND_ID :: u32 where "RAW_COMMAND_ID \<equiv> - 1"
abbreviation NO_COMMAND_ID :: u32 where "NO_COMMAND_ID \<equiv> - 2"
abbreviation NO_COMMANDER :: queue_id where "NO_COMMANDER \<equiv> NO_QUEUE"

abbreviation INVALID_MODE :: retval where "INVALID_MODE \<equiv> RC 14 1"
abbreviation TRANS_NOT_ALLOWED :: retval where "TRANS_NOT_ALLOWED \<equiv> RC 14 2"
abbreviation INVALID_SUBMODE :: retval where "INVALID_SUBMODE \<equiv> RC 14 4"
abbreviation SWITCH_OFF :: retval where "SWITCH_OFF \<equiv> RC 5 0"
abbreviation SWITCH_ON :: retval where "SWITCH_ON \<equiv> RC 5 1"
abbreviation SWITCH_TIMEOUT :: retval where "SWITCH_TIMEOUT \<equiv> RC 5 2"
abbreviation APERIODIC_REPLY :: retval where "APERIODIC_REPLY \<equiv> RC 3 0xB0"
abbreviation IGNORE_REPLY_DATA :: retval where "IGNORE_REPLY_DATA \<equiv> RC 3 0xB1"
abbreviation IGNORE_FULL_PACKET :: retval where "IGNORE_FULL_PACKET \<equiv> RC 3 0xB2"
abbreviation NOTHING_TO_SEND :: retval where "NOTHING_TO_SEND \<equiv> RC 3 0xC0"
abbreviation NO_SWITCH :: retval where "NO_SWITCH \<equiv> RC 3 0xD0"
abbreviation CHILD_TIMEOUT :: retval where "CHILD_TIMEOUT \<equiv> RC 3 0xE0"
abbreviation COMMAND_NOT_SUPPORTED :: retval where "COMMAND_NOT_SUPPORTED \<equiv> RC 39 0xA1"
abbreviation COMMAND_ALREADY_SENT :: retval where "COMMAND_ALREADY_SENT \<equiv> RC 39 0xA2"
abbreviation WRONG_MODE_FOR_COMMAND :: retval where "WRONG_MODE_FOR_COMMAND \<equiv> RC 39 0xA5"
abbreviation REPLY_TIMEOUT :: retval where "REPLY_TIMEOUT \<equiv> RC 39 0xA6"
abbreviation BUSY :: retval where "BUSY \<equiv> RC 39 0xA7"
abbreviation NO_REPLY_EXPECTED :: retval where "NO_REPLY_EXPECTED \<equiv> RC 39 0xA8"
abbreviation NON_OP_TEMPERATURE :: retval where "NON_OP_TEMPERATURE \<equiv> RC 39 0xA9"
abbreviation INVALID_COMMAND_PARAMETER :: retval where "INVALID_COMMAND_PARAMETER \<equiv> RC 39 0xD0"
abbreviation NO_REPLY_RECEIVED :: retval where "NO_REPLY_RECEIVED \<equiv> RC 52 1"
abbreviation EXECUTION_FINISHED :: retval where "EXECUTION_FINISHED \<equiv> RC 51 3"

abbreviation (input) "ACTION_ID \<equiv> 4"
abbreviation (input) "DEVICE_HANDLER_COMMAND_ID \<equiv> 7"

definition EXECUTE_ACTION :: u16 where [codes]: "EXECUTE_ACTION = MAKE_COMMAND_ID ACTION_ID 1"
definition STEP_SUCCESS :: u16 where [codes]: "STEP_SUCCESS = MAKE_COMMAND_ID ACTION_ID 2"
definition STEP_FAILED :: u16 where [codes]: "STEP_FAILED = MAKE_COMMAND_ID ACTION_ID 3"
definition ACTION_COMPLETION_SUCCESS :: u16 where [codes]: "ACTION_COMPLETION_SUCCESS = MAKE_COMMAND_ID ACTION_ID 5"
definition ACTION_COMPLETION_FAILED :: u16 where [codes]: "ACTION_COMPLETION_FAILED = MAKE_COMMAND_ID ACTION_ID 6"
definition DATA_REPLY :: u16 where [codes]: "DATA_REPLY = MAKE_COMMAND_ID ACTION_ID 4"
definition CMD_RAW :: u16 where [codes]: "CMD_RAW = MAKE_COMMAND_ID DEVICE_HANDLER_COMMAND_ID 1"
definition CMD_WIRETAPPING :: u16 where [codes]: "CMD_WIRETAPPING = MAKE_COMMAND_ID DEVICE_HANDLER_COMMAND_ID 4"
definition REPLY_RAW_COMMAND :: u16 where [codes]: "REPLY_RAW_COMMAND = MAKE_COMMAND_ID DEVICE_HANDLER_COMMAND_ID 0x11"
definition REPLY_RAW_REPLY :: u16 where [codes]: "REPLY_RAW_REPLY = MAKE_COMMAND_ID DEVICE_HANDLER_COMMAND_ID 0x12"

section \<open>State\<close>

record DeviceCommandInfo =
  isExecuting :: bool
  expectedReplies :: u8
  sendReplyTo :: queue_id
  useAlternativeReplyId :: bool
  alternativeReplyId :: u32

text \<open>
  The data set of a reply is its validity flag. A countdown belongs to one reply.
\<close>

record DeviceReplyInfo =
  maxDelayCycles :: u16
  delayCycles :: u16
  replyLen :: nat
  periodic :: bool
  dataSet :: "bool option"
  dri_command :: "u32 option"
  dri_countdown :: "countdown option"
  active :: bool

datatype CookieState = COOKIE_UNUSED | COOKIE_WRITE_READY | COOKIE_READ_SENT | COOKIE_WRITE_SENT

datatype WiretappingMode = WIRE_OFF | WIRE_RAW | WIRE_TM

text \<open>The thermal state is an \<open>int8_t\<close>.\<close>

record ThermalSet =
  thermalState :: int
  heaterRequest :: u8

abbreviation STATE_REQUEST_IGNORE :: u8 where "STATE_REQUEST_IGNORE \<equiv> 3"
abbreviation STATE_REQUEST_OPERATIONAL :: u8 where "STATE_REQUEST_OPERATIONAL \<equiv> 1"
abbreviation STATE_REQUEST_NON_OPERATIONAL :: u8 where "STATE_REQUEST_NON_OPERATIONAL \<equiv> 0"

definition isOperational :: "int \<Rightarrow> bool" where
  "isOperational state \<longleftrightarrow> state = 0 \<or> state = 10"

record DeviceHandler = ModeOwner +
  rawPacket :: bytes
  wiretappingMode :: WiretappingMode
  defaultRawReceiver :: queue_id
  storedRawData :: store_address
  requestedRawTraffic :: queue_id
  dh_IPCStore :: pool
  deviceCommandMap :: "(u32, DeviceCommandInfo) std_map"
  deviceReplyMap :: "(u32, DeviceReplyInfo) std_map"
  thermalSet :: "ThermalSet option"
  childTransitionFailure :: retval
  ignoreMissedRepliesCount :: u32
  switchOffWasReported :: bool
  cookieState :: CookieState
  pendingCommand :: "u32 option"
  timeoutStart :: u32
  childTransitionDelay :: u32
  transitionSourceMode :: u32
  transitionSourceSubMode :: u8
  switchCommands :: "(u8 \<times> retval) list"
  written :: "bytes list"

text \<open>
  \<open>dv_scanForReply\<close> gets the values that the output parameters have before the call. The power switcher is its
  delay and the state of the switches, \<open>None\<close> when there is none.
\<close>

record device =
  dv_status :: send_status
  dv_now :: u32
  dv_doStartUp :: "DeviceHandler \<Rightarrow> DeviceHandler"
  dv_doShutDown :: "DeviceHandler \<Rightarrow> DeviceHandler"
  dv_doTransition :: "u32 \<Rightarrow> u8 \<Rightarrow> DeviceHandler \<Rightarrow> DeviceHandler"
  dv_getTransitionDelayMs :: "u32 \<Rightarrow> u32 \<Rightarrow> u32"
  dv_getSwitches :: "retval \<times> u8 list"
  dv_powerSwitcher :: "(u32 \<times> (u8 \<Rightarrow> retval)) option"
  dv_buildNormalDeviceCommand :: "DeviceHandler \<Rightarrow> retval \<times> u32 \<times> DeviceHandler"
  dv_buildTransitionDeviceCommand :: "DeviceHandler \<Rightarrow> retval \<times> u32 \<times> DeviceHandler"
  dv_buildCommandFromCommand :: "u32 \<Rightarrow> bytes \<Rightarrow> DeviceHandler \<Rightarrow> retval \<times> DeviceHandler"
  dv_scanForReply :: "bytes \<Rightarrow> u32 \<Rightarrow> nat \<Rightarrow> DeviceHandler \<Rightarrow> retval \<times> u32 \<times> nat \<times> DeviceHandler"
  dv_interpretDeviceReply :: "u32 \<Rightarrow> bytes \<Rightarrow> DeviceHandler \<Rightarrow> retval \<times> DeviceHandler"
  dv_letChildHandleMessage :: "CommandMessage \<Rightarrow> DeviceHandler \<Rightarrow> retval \<times> DeviceHandler"
  dv_modeChanged :: "DeviceHandler \<Rightarrow> DeviceHandler"
  dv_doOffActivity :: "DeviceHandler \<Rightarrow> DeviceHandler"
  dv_doOnActivity :: "DeviceHandler \<Rightarrow> DeviceHandler"
  dv_performOperationHook :: "DeviceHandler \<Rightarrow> DeviceHandler"
  dv_handleParameterMessage :: "CommandMessage \<Rightarrow> DeviceHandler \<Rightarrow> retval \<times> DeviceHandler"
  dv_handleHousekeepingMessage :: "CommandMessage \<Rightarrow> DeviceHandler \<Rightarrow> retval \<times> DeviceHandler"
  dv_performHkOperation :: "DeviceHandler \<Rightarrow> DeviceHandler"
  dv_checkForFailures :: "DeviceHandler \<Rightarrow> DeviceHandler"
  com_sendMessage :: "bytes \<Rightarrow> retval"
  com_getSendSuccess :: retval
  com_requestReceiveMessage :: "nat \<Rightarrow> retval"
  com_readReceivedMessage :: "retval \<times> bytes"

section \<open>The command and reply maps\<close>

definition insertInReplyMap ::
  "u32 \<Rightarrow> u16 \<Rightarrow> bool option \<Rightarrow> nat \<Rightarrow> bool \<Rightarrow> countdown option \<Rightarrow> DeviceHandler \<Rightarrow> retval \<times> DeviceHandler" where
  "insertInReplyMap replyId maxDelay dset len per cnt s =
     (case map_insert replyId \<lparr>maxDelayCycles = maxDelay, delayCycles = 0, replyLen = len, periodic = per,
        dataSet = dset, dri_command = None, dri_countdown = cnt, active = False\<rparr> (deviceReplyMap s) of
        (inserted, m) \<Rightarrow> (if inserted then OK else FAILED, s\<lparr>deviceReplyMap := m\<rparr>))"

definition insertInCommandMap :: "u32 \<Rightarrow> bool \<Rightarrow> u32 \<Rightarrow> DeviceHandler \<Rightarrow> retval \<times> DeviceHandler" where
  "insertInCommandMap deviceCommand useAlt altId s =
     (case map_insert deviceCommand \<lparr>isExecuting = False, expectedReplies = 0, sendReplyTo = NO_COMMANDER,
        useAlternativeReplyId = useAlt, alternativeReplyId = altId\<rparr> (deviceCommandMap s) of
        (inserted, m) \<Rightarrow> (if inserted then OK else FAILED, s\<lparr>deviceCommandMap := m\<rparr>))"

definition insertInCommandAndReplyMap ::
  "u32 \<Rightarrow> u16 \<Rightarrow> bool option \<Rightarrow> nat \<Rightarrow> bool \<Rightarrow> bool \<Rightarrow> u32 \<Rightarrow> countdown option \<Rightarrow> DeviceHandler \<Rightarrow>
   retval \<times> DeviceHandler" where
  "insertInCommandAndReplyMap deviceCommand maxDelay dset len per hasDifferentReplyId replyId cnt s =
     (let s = snd (insertInCommandMap deviceCommand hasDifferentReplyId replyId s) in
      if hasDifferentReplyId then insertInReplyMap replyId maxDelay dset len per cnt s
      else insertInReplyMap deviceCommand maxDelay dset len per cnt s)"

text \<open>The constructor: the raw command is registered and nothing is pending.\<close>

definition dh_new :: "u32 \<Rightarrow> queue_id \<Rightarrow> HealthTable \<Rightarrow> pool \<Rightarrow> DeviceHandler" where
  "dh_new objectId queue table store =
     snd (insertInCommandMap RAW_COMMAND_ID False 0
       \<lparr>sb_objectId = objectId, sb_queue = queue, sb_last = NO_QUEUE, sb_sent = [], sb_events = [], sb_healthTable = table,
        hh_parentQueue = NO_QUEUE, mh_theOneWhoCommandedAMode = NO_QUEUE, mh_commandedMode = MODE_OFF,
        mh_commandedSubmode = SUBMODE_NONE, mh_forced = False, mh_parentQueueId = NO_QUEUE, sb_mode = MODE_OFF,
        sb_submode = SUBMODE_NONE, rawPacket = [], wiretappingMode = WIRE_OFF, defaultRawReceiver = NO_QUEUE,
        storedRawData = invalid_address, requestedRawTraffic = NO_QUEUE, dh_IPCStore = store, deviceCommandMap = [],
        deviceReplyMap = [], thermalSet = None, childTransitionFailure = OK, ignoreMissedRepliesCount = 0,
        switchOffWasReported = False, cookieState = COOKIE_UNUSED, pendingCommand = None, timeoutStart = 0,
        childTransitionDelay = 5000, transitionSourceMode = T_MODE_POWER_DOWN, transitionSourceSubMode = SUBMODE_NONE,
        switchCommands = [], written = []\<rparr>)"

abbreviation cmd_info :: "DeviceHandler \<Rightarrow> u32 \<Rightarrow> DeviceCommandInfo option" where
  "cmd_info s \<equiv> map_of (deviceCommandMap s)"

abbreviation reply_info :: "DeviceHandler \<Rightarrow> u32 \<Rightarrow> DeviceReplyInfo option" where
  "reply_info s \<equiv> map_of (deviceReplyMap s)"

definition put_cmd :: "u32 \<Rightarrow> DeviceCommandInfo \<Rightarrow> DeviceHandler \<Rightarrow> DeviceHandler" where
  "put_cmd k c s = s\<lparr>deviceCommandMap := map_assign k c (deviceCommandMap s)\<rparr>"

definition put_reply :: "u32 \<Rightarrow> DeviceReplyInfo \<Rightarrow> DeviceHandler \<Rightarrow> DeviceHandler" where
  "put_reply k i s = s\<lparr>deviceReplyMap := map_assign k i (deviceReplyMap s)\<rparr>"

text \<open>A reply is awaited: it has cycles left, or a countdown and is active.\<close>

definition awaited :: "DeviceReplyInfo \<Rightarrow> bool" where
  "awaited i \<longleftrightarrow> (delayCycles i \<noteq> 0 \<and> dri_countdown i = None) \<or> (active i \<and> dri_countdown i \<noteq> None)"

definition getNextReplyLength :: "u32 \<Rightarrow> DeviceHandler \<Rightarrow> nat" where
  "getNextReplyLength commandId s =
     (case pendingCommand s of
        None \<Rightarrow> 0
      | Some p \<Rightarrow>
          (let replyId = (case cmd_info s p of
                 Some c \<Rightarrow> if useAlternativeReplyId c then alternativeReplyId c else commandId
               | None \<Rightarrow> commandId)
           in case reply_info s replyId of
                Some i \<Rightarrow> if awaited i then replyLen i else 0
              | None \<Rightarrow> 0))"

definition updateReplyMapEntry ::
  "u32 \<Rightarrow> u16 \<Rightarrow> u16 \<Rightarrow> bool \<Rightarrow> DeviceHandler \<Rightarrow> retval \<times> DeviceHandler" where
  "updateReplyMapEntry deviceReply delay maxDelay per s =
     (case reply_info s deviceReply of
        None \<Rightarrow> (COMMAND_NOT_SUPPORTED, triggerEvent INVALID_DEVICE_COMMAND deviceReply 0 s)
      | Some i \<Rightarrow>
          (OK, put_reply deviceReply
                 (i\<lparr>maxDelayCycles := (if maxDelay \<noteq> 0 then maxDelay else maxDelayCycles i),
                    delayCycles := delay, periodic := per\<rparr>) s))"

definition updatePeriodicReply :: "u32 \<Rightarrow> bool \<Rightarrow> u32 \<Rightarrow> DeviceHandler \<Rightarrow> retval \<times> DeviceHandler" where
  "updatePeriodicReply now enable deviceReply s =
     (case reply_info s deviceReply of
        None \<Rightarrow> (COMMAND_NOT_SUPPORTED, triggerEvent INVALID_DEVICE_COMMAND deviceReply 0 s)
      | Some i \<Rightarrow>
          if \<not> periodic i then (COMMAND_NOT_SUPPORTED, s)
          else
            (let i = i\<lparr>active := enable\<rparr> in
             (OK, put_reply deviceReply
                (case dri_countdown i of
                   Some c \<Rightarrow> i\<lparr>dri_countdown := Some (if enable then cd_resetTimer now c else cd_timeOut now c)\<rparr>
                 | None \<Rightarrow> i\<lparr>delayCycles := (if enable then maxDelayCycles i else 0)\<rparr>) s)))"

definition setReplyDataset :: "u32 \<Rightarrow> bool option \<Rightarrow> DeviceHandler \<Rightarrow> retval \<times> DeviceHandler" where
  "setReplyDataset replyId dset s =
     (case reply_info s replyId of
        None \<Rightarrow> (FAILED, s)
      | Some i \<Rightarrow> (OK, put_reply replyId (i\<lparr>dataSet := dset\<rparr>) s))"

section \<open>The mode machine\<close>

definition isTransitionalMode :: "DeviceHandler \<Rightarrow> bool" where
  "isTransitionalMode s \<longleftrightarrow>
     sb_mode s AND (TRANSITION_MODE_BASE_ACTION_MASK OR TRANSITION_MODE_CHILD_ACTION_MASK) \<noteq> 0"

definition getBaseMode :: "u32 \<Rightarrow> u32" where
  "getBaseMode transitionMode =
     (if transitionMode = T_MODE_START_UP then T_MODE_TO_ON
      else if transitionMode = T_MODE_SHUT_DOWN then T_MODE_POWER_DOWN
      else transitionMode AND NOT (TRANSITION_MODE_BASE_ACTION_MASK OR TRANSITION_MODE_CHILD_ACTION_MASK))"

definition isModeCombinationValid :: "u32 \<Rightarrow> u8 \<Rightarrow> retval" where
  "isModeCombinationValid mode submode =
     (if mode = MODE_OFF \<or> mode = MODE_ON \<or> mode = MODE_NORMAL \<or> mode = MODE_RAW then
        if submode = SUBMODE_NONE then OK else INVALID_SUBMODE
      else INVALID_MODE)"

definition setNormalDatapoolEntriesInvalid :: "DeviceHandler \<Rightarrow> DeviceHandler" where
  "setNormalDatapoolEntriesInvalid s =
     s\<lparr>deviceReplyMap := map (\<lambda>(k, i). (k, i\<lparr>dataSet := map_option (\<lambda>_. False) (dataSet i)\<rparr>)) (deviceReplyMap s)\<rparr>"

definition dh_announceMode :: "bool \<Rightarrow> DeviceHandler \<Rightarrow> DeviceHandler" where
  "dh_announceMode recursive s = triggerEvent MODE_INFO (sb_mode s) (ucast (sb_submode s)) s"

definition dh_setMode :: "device \<Rightarrow> u32 \<Rightarrow> u8 \<Rightarrow> DeviceHandler \<Rightarrow> DeviceHandler" where
  "dh_setMode d newMode newSubmode s =
     (let s = setNormalDatapoolEntriesInvalid (dv_modeChanged d (s\<lparr>sb_submode := newSubmode, sb_mode := newMode\<rparr>));
          s = (if \<not> isTransitionalMode s
               then dh_announceMode False (mh_modeChanged (dv_status d) newMode newSubmode s) else s);
          s = s\<lparr>timeoutStart := dv_now d\<rparr>
      in if sb_mode s = MODE_OFF then
           s\<lparr>thermalSet := map_option (\<lambda>t. if heaterRequest t \<noteq> STATE_REQUEST_IGNORE
               then t\<lparr>heaterRequest := STATE_REQUEST_NON_OPERATIONAL\<rparr> else t) (thermalSet s)\<rparr>
         else s)"

text \<open>\<open>setMode(newMode)\<close>, which keeps the submode.\<close>

definition dh_setMode1 :: "device \<Rightarrow> u32 \<Rightarrow> DeviceHandler \<Rightarrow> DeviceHandler" where
  "dh_setMode1 d newMode s = dh_setMode d newMode (sb_submode s) s"

text \<open>The default implementation of the child's \<open>doTransition\<close>.\<close>

definition default_doTransition :: "device \<Rightarrow> u32 \<Rightarrow> u8 \<Rightarrow> DeviceHandler \<Rightarrow> DeviceHandler" where
  "default_doTransition d modeFrom subModeFrom s = dh_setMode1 d (getBaseMode (sb_mode s)) s"

definition callChildStatemachine :: "device \<Rightarrow> DeviceHandler \<Rightarrow> DeviceHandler" where
  "callChildStatemachine d s =
     (if sb_mode s = T_MODE_START_UP then dv_doStartUp d s
      else if sb_mode s = T_MODE_SHUT_DOWN then dv_doShutDown d s
      else if sb_mode s AND TRANSITION_MODE_CHILD_ACTION_MASK \<noteq> 0
      then dv_doTransition d (transitionSourceMode s) (transitionSourceSubMode s) s
      else s)"

definition setTransition :: "device \<Rightarrow> u32 \<Rightarrow> u8 \<Rightarrow> DeviceHandler \<Rightarrow> DeviceHandler" where
  "setTransition d modeTo submodeTo s =
     (let s = triggerEvent CHANGING_MODE modeTo (ucast submodeTo) s in
      dh_setMode d (modeTo OR TRANSITION_MODE_CHILD_ACTION_MASK) submodeTo
        (s\<lparr>childTransitionDelay := dv_getTransitionDelayMs d (sb_mode s) modeTo,
           transitionSourceMode := sb_mode s, transitionSourceSubMode := sb_submode s,
           childTransitionFailure := CHILD_TIMEOUT\<rparr>))"

definition commandSwitch :: "device \<Rightarrow> retval \<Rightarrow> DeviceHandler \<Rightarrow> DeviceHandler" where
  "commandSwitch d onOff s =
     (case dv_powerSwitcher d of
        None \<Rightarrow> s
      | Some _ \<Rightarrow>
          (case dv_getSwitches d of (result, switches) \<Rightarrow>
             if result = OK then s\<lparr>switchCommands := switchCommands s @ map (\<lambda>sw. (sw, onOff)) (rev switches)\<rparr> else s))"

definition getStateOfSwitches :: "device \<Rightarrow> retval" where
  "getStateOfSwitches d =
     (case dv_powerSwitcher d of
        None \<Rightarrow> NO_SWITCH
      | Some (delay, state) \<Rightarrow>
          (case dv_getSwitches d of (result, switches) \<Rightarrow>
             if result = OK \<and> switches \<noteq> [] then
               if list_ex (\<lambda>sw. state sw = SWITCH_OFF) (rev switches) then SWITCH_OFF else SWITCH_ON
             else NO_SWITCH))"

definition doStateMachine :: "device \<Rightarrow> DeviceHandler \<Rightarrow> DeviceHandler" where
  "doStateMachine d s =
     (let mode = sb_mode s in
      if mode = T_MODE_START_UP \<or> mode = T_MODE_SHUT_DOWN \<or> mode = T_MODE_TO_NORMAL \<or> mode = T_MODE_TO_ON \<or>
         mode = T_MODE_TO_RAW then
        (let s = callChildStatemachine d s in
         if sb_mode s \<noteq> mode then s
         else if dv_now d - timeoutStart s \<ge> childTransitionDelay s then
           dh_setMode d (transitionSourceMode s) (transitionSourceSubMode s)
             (triggerEvent MODE_TRANSITION_FAILED (rv_param (childTransitionFailure s)) 0 s)
         else s)
      else if mode = T_MODE_POWER_DOWN then dh_setMode1 d T_MODE_WAIT_OFF (commandSwitch d SWITCH_OFF s)
      else if mode = T_MODE_POWER_ON then dh_setMode1 d T_MODE_WAIT_ON (commandSwitch d SWITCH_ON s)
      else if mode = T_MODE_WAIT_ON then
        (if (case dv_powerSwitcher d of None \<Rightarrow> False | Some (delay, state) \<Rightarrow> dv_now d - timeoutStart s \<ge> delay) then
           callChildStatemachine d (dh_setMode1 d T_MODE_POWER_DOWN
             (triggerEvent MODE_TRANSITION_FAILED (rv_param SWITCH_TIMEOUT) 0 s))
         else if getStateOfSwitches d = SWITCH_ON \<or> getStateOfSwitches d = NO_SWITCH then
           callChildStatemachine d (dh_setMode1 d T_MODE_START_UP
             (s\<lparr>childTransitionFailure := CHILD_TIMEOUT, transitionSourceMode := T_MODE_SHUT_DOWN,
                transitionSourceSubMode := SUBMODE_NONE\<rparr>))
         else s)
      else if mode = T_MODE_WAIT_OFF then
        (case dv_powerSwitcher d of
           None \<Rightarrow> dh_setMode1 d MODE_OFF s
         | Some (delay, state) \<Rightarrow>
             if dv_now d - timeoutStart s \<ge> delay then
               dh_setMode1 d MODE_ERROR_ON (triggerEvent MODE_TRANSITION_FAILED (rv_param SWITCH_TIMEOUT) 0 s)
             else if getStateOfSwitches d = SWITCH_OFF \<or> getStateOfSwitches d = NO_SWITCH then
               dh_setMode1 d T_MODE_SWITCH_IS_OFF s
             else s)
      else if mode = MODE_OFF then dv_doOffActivity d s
      else if mode = MODE_ON then dv_doOnActivity d s
      else if mode = MODE_RAW \<or> mode = MODE_NORMAL \<or> mode = MODE_ERROR_ON then s
      else if mode = T_MODE_SWITCH_IS_OFF then dh_setMode d MODE_OFF SUBMODE_NONE s
      else dh_setMode d T_MODE_POWER_DOWN 0 (triggerEvent OBJECT_IN_INVALID_MODE mode (ucast (sb_submode s)) s))"

text \<open>A thermal set that forbids to start up; reading the set succeeds.\<close>

definition too_cold_or_hot :: "ThermalSet \<Rightarrow> bool" where
  "too_cold_or_hot t \<longleftrightarrow> heaterRequest t \<noteq> STATE_REQUEST_IGNORE \<and> \<not> isOperational (thermalState t)"

definition dh_checkModeCommand :: "u32 \<Rightarrow> u8 \<Rightarrow> DeviceHandler \<Rightarrow> retval \<times> DeviceHandler" where
  "dh_checkModeCommand commandedMode commandedSubmode s =
     (let valid = (isModeCombinationValid commandedMode commandedSubmode, s) in
      if isTransitionalMode s then (IN_TRANSITION, s)
      else if sb_mode s = MODE_ERROR_ON \<and> commandedMode \<noteq> MODE_OFF then (TRANS_NOT_ALLOWED, s)
      else if commandedMode = MODE_NORMAL \<and> sb_mode s = MODE_OFF then (TRANS_NOT_ALLOWED, s)
      else if commandedMode = MODE_ON \<and> sb_mode s = MODE_OFF then
        (case thermalSet s of
           None \<Rightarrow> valid
         | Some t \<Rightarrow>
             if too_cold_or_hot t
             then (NON_OP_TEMPERATURE, triggerEvent TEMP_NOT_IN_OP_RANGE (word_of_int (thermalState t)) 0 s)
             else valid)
      else valid)"

definition replyReturnvalueToCommand :: "send_status \<Rightarrow> retval \<Rightarrow> u32 \<Rightarrow> DeviceHandler \<Rightarrow> DeviceHandler" where
  "replyReturnvalueToCommand st status parameter s =
     snd (mq_reply st (if status = OK then cm_new REPLY_COMMAND_OK 0 parameter
                       else cm_new REPLY_REJECTED (rv_param status) parameter) s)"

definition handleTransitionToOnMode :: "device \<Rightarrow> u32 \<Rightarrow> u8 \<Rightarrow> DeviceHandler \<Rightarrow> DeviceHandler" where
  "handleTransitionToOnMode d commandedMode commandedSubmode s =
     (if sb_mode s = MODE_OFF then
        (let s = dh_setMode d T_MODE_POWER_ON commandedSubmode
                   (s\<lparr>transitionSourceMode := T_MODE_POWER_DOWN, transitionSourceSubMode := SUBMODE_NONE\<rparr>);
             s = triggerEvent CHANGING_MODE commandedMode (ucast commandedSubmode)
                   (s\<lparr>childTransitionDelay := dv_getTransitionDelayMs d T_MODE_START_UP MODE_ON\<rparr>)
         in s\<lparr>thermalSet := map_option (\<lambda>t. if heaterRequest t \<noteq> STATE_REQUEST_IGNORE
               then t\<lparr>heaterRequest := STATE_REQUEST_OPERATIONAL\<rparr> else t) (thermalSet s)\<rparr>)
      else setTransition d MODE_ON commandedSubmode s)"

definition dh_startTransition :: "device \<Rightarrow> u32 \<Rightarrow> u8 \<Rightarrow> DeviceHandler \<Rightarrow> DeviceHandler" where
  "dh_startTransition d commandedMode commandedSubmode s =
     (if commandedMode = MODE_ON then handleTransitionToOnMode d commandedMode commandedSubmode s
      else if commandedMode = MODE_OFF then
        (if sb_mode s = MODE_OFF then
           dh_setMode d T_MODE_POWER_DOWN commandedSubmode
             (triggerEvent CHANGING_MODE commandedMode (ucast commandedSubmode) s)
         else
           triggerEvent CHANGING_MODE commandedMode (ucast commandedSubmode)
             (dh_setMode d T_MODE_SHUT_DOWN commandedSubmode
               (s\<lparr>childTransitionDelay := dv_getTransitionDelayMs d (sb_mode s) T_MODE_POWER_DOWN,
                  transitionSourceMode := T_MODE_POWER_DOWN, transitionSourceSubMode := commandedSubmode,
                  childTransitionFailure := CHILD_TIMEOUT\<rparr>)))
      else if commandedMode = MODE_RAW then
        (if sb_mode s \<noteq> MODE_OFF then setTransition d MODE_RAW commandedSubmode s
         else dh_setMode d MODE_RAW commandedSubmode s)
      else if commandedMode = MODE_NORMAL then
        (if sb_mode s \<noteq> MODE_OFF then setTransition d MODE_NORMAL commandedSubmode s
         else replyReturnvalueToCommand (dv_status d) TRANS_NOT_ALLOWED 0 s)
      else s)"

definition checkSwitchState :: "device \<Rightarrow> DeviceHandler \<Rightarrow> DeviceHandler" where
  "checkSwitchState d s =
     (if sb_mode s = MODE_ON \<or> sb_mode s = MODE_NORMAL then
        if getStateOfSwitches d = SWITCH_OFF \<and> \<not> switchOffWasReported s
        then (triggerEvent SWITCH_WENT_OFF 0 0 s)\<lparr>switchOffWasReported := True\<rparr> else s
      else s\<lparr>switchOffWasReported := False\<rparr>)"

section \<open>Actions\<close>

definition setStepReply :: "u32 \<Rightarrow> u8 \<Rightarrow> retval \<Rightarrow> CommandMessage" where
  "setStepReply fid step result =
     cm_new (if result = OK then STEP_SUCCESS else STEP_FAILED) fid (push_bit 16 (ucast step) + rv_param result)"

definition setCompletionReply :: "u32 \<Rightarrow> bool \<Rightarrow> retval \<Rightarrow> CommandMessage" where
  "setCompletionReply fid success result =
     cm_new (if success then ACTION_COMPLETION_SUCCESS else ACTION_COMPLETION_FAILED) fid (rv_param result)"

definition ah_step :: "send_status \<Rightarrow> u8 \<Rightarrow> queue_id \<Rightarrow> u32 \<Rightarrow> retval \<Rightarrow> 'a ModeOwner_scheme \<Rightarrow> 'a ModeOwner_scheme" where
  "ah_step st step reportTo commandId result s =
     snd (sendMessageFrom st reportTo (setStepReply commandId (step + 1) result) s)"

definition ah_finish :: "send_status \<Rightarrow> bool \<Rightarrow> queue_id \<Rightarrow> u32 \<Rightarrow> retval \<Rightarrow> 'a ModeOwner_scheme \<Rightarrow> 'a ModeOwner_scheme" where
  "ah_finish st success reportTo commandId result s =
     snd (sendMessageFrom st reportTo (setCompletionReply commandId success result) s)"

definition acceptExternalDeviceCommands :: "DeviceHandler \<Rightarrow> retval" where
  "acceptExternalDeviceCommands s =
     (if sb_mode s \<noteq> MODE_ON \<and> sb_mode s \<noteq> MODE_NORMAL then WRONG_MODE_FOR_COMMAND else OK)"

definition executeAction :: "device \<Rightarrow> u32 \<Rightarrow> queue_id \<Rightarrow> bytes \<Rightarrow> DeviceHandler \<Rightarrow> retval \<times> DeviceHandler" where
  "executeAction d actionId commandedBy data s =
     (let result = acceptExternalDeviceCommands s in
      if result \<noteq> OK then (result, s)
      else
        (case cmd_info s actionId of
           None \<Rightarrow> (COMMAND_NOT_SUPPORTED, s)
         | Some c \<Rightarrow>
             if isExecuting c then (COMMAND_ALREADY_SENT, s)
             else
               (case dv_buildCommandFromCommand d actionId data (put_cmd actionId (c\<lparr>sendReplyTo := commandedBy\<rparr>) s) of
                  (result, s) \<Rightarrow>
                    if result = OK then
                      (OK, (case cmd_info s actionId of
                              None \<Rightarrow> s | Some c \<Rightarrow> put_cmd actionId (c\<lparr>isExecuting := True\<rparr>) s)
                           \<lparr>pendingCommand := Some actionId, cookieState := COOKIE_WRITE_READY\<rparr>)
                    else (result, s))))"

definition prepareExecution :: "device \<Rightarrow> queue_id \<Rightarrow> u32 \<Rightarrow> store_address \<Rightarrow> DeviceHandler \<Rightarrow> DeviceHandler" where
  "prepareExecution d commandedBy actionId dataAddress s =
     (case pool_getData dataAddress (dh_IPCStore s) of (result, data) \<Rightarrow>
        if result \<noteq> OK then snd (sendMessageFrom (dv_status d) commandedBy (setStepReply actionId 0 result) s)
        else
          (case executeAction d actionId commandedBy (the data) s of (result, s) \<Rightarrow>
             let s = s\<lparr>dh_IPCStore := snd (pool_deleteData dataAddress (dh_IPCStore s))\<rparr>;
                 s = (if result = EXECUTION_FINISHED
                      then snd (sendMessageFrom (dv_status d) commandedBy (setCompletionReply actionId True result) s) else s)
             in if result \<noteq> OK
                then snd (sendMessageFrom (dv_status d) commandedBy (setStepReply actionId 0 result) s) else s))"

definition handleActionMessage :: "device \<Rightarrow> CommandMessage \<Rightarrow> DeviceHandler \<Rightarrow> retval \<times> DeviceHandler" where
  "handleActionMessage d command s =
     (if cm_command command = EXECUTE_ACTION then
        (OK, prepareExecution d (cm_sender command) (cm_parameter command) (addr_of_raw (cm_parameter2 command)) s)
      else (UNKNOWN_COMMAND, s))"

section \<open>Replies\<close>

definition replyToReply :: "send_status \<Rightarrow> u32 \<Rightarrow> DeviceReplyInfo \<Rightarrow> retval \<Rightarrow> DeviceHandler \<Rightarrow> DeviceHandler" where
  "replyToReply st command replyInfo status s =
     (case dri_command replyInfo of
        None \<Rightarrow> s
      | Some k \<Rightarrow>
          (case cmd_info s k of
             None \<Rightarrow> s
           | Some c \<Rightarrow>
               (let c = (if expectedReplies c > 0 then c\<lparr>expectedReplies := expectedReplies c - 1\<rparr> else c) in
                if expectedReplies c = 0 then
                  put_cmd k (c\<lparr>isExecuting := False\<rparr>)
                    (if sendReplyTo c \<noteq> NO_COMMANDER
                     then ah_finish st (status = OK) (sendReplyTo c) command status s else s)
                else put_cmd k c s)))"

definition missedReply :: "u32 \<Rightarrow> DeviceHandler \<Rightarrow> DeviceHandler" where
  "missedReply i s =
     (if ignoreMissedRepliesCount s > 0 then s\<lparr>ignoreMissedRepliesCount := ignoreMissedRepliesCount s - 1\<rparr>
      else triggerEvent DEVICE_MISSED_REPLY i 0 s)"

definition resetTimeoutControlledReply :: "u32 \<Rightarrow> DeviceReplyInfo \<Rightarrow> DeviceReplyInfo" where
  "resetTimeoutControlledReply now i =
     (if periodic i then i\<lparr>dri_countdown := map_option (cd_resetTimer now) (dri_countdown i)\<rparr>
      else i\<lparr>active := False, dri_countdown := map_option (cd_timeOut now) (dri_countdown i)\<rparr>)"

definition resetDelayCyclesControlledReply :: "DeviceReplyInfo \<Rightarrow> DeviceReplyInfo" where
  "resetDelayCyclesControlledReply i =
     (if periodic i then i\<lparr>delayCycles := maxDelayCycles i\<rparr> else i\<lparr>delayCycles := 0, active := False\<rparr>)"

text \<open>One entry of the loop of \<open>decrementDeviceReplyMap\<close>: the entry after it, and whether it has timed out.\<close>

definition decrement_reply :: "u32 \<Rightarrow> DeviceReplyInfo \<Rightarrow> bool \<times> DeviceReplyInfo" where
  "decrement_reply now i =
     (let (timedOut, i) =
        (case dri_countdown i of
           Some c \<Rightarrow> if active i \<and> cd_hasTimedOut now c then (True, resetTimeoutControlledReply now i) else (False, i)
         | None \<Rightarrow> (False, i))
      in if delayCycles i \<noteq> 0 \<and> dri_countdown i = None then
           (let i = i\<lparr>delayCycles := delayCycles i - 1\<rparr> in
            if delayCycles i = 0 then (True, resetDelayCyclesControlledReply i) else (timedOut, i))
         else (timedOut, i))"

definition decrement_entry :: "device \<Rightarrow> u32 \<Rightarrow> DeviceHandler \<Rightarrow> DeviceHandler" where
  "decrement_entry d k s =
     (case reply_info s k of
        None \<Rightarrow> s
      | Some i \<Rightarrow>
          (case decrement_reply (dv_now d) i of (timedOut, i) \<Rightarrow>
             let s = put_reply k i s in
             if timedOut then missedReply k (replyToReply (dv_status d) k i REPLY_TIMEOUT s) else s))"

definition decrementDeviceReplyMap :: "device \<Rightarrow> DeviceHandler \<Rightarrow> DeviceHandler" where
  "decrementDeviceReplyMap d s = fold (decrement_entry d) (map fst (deviceReplyMap s)) s"

definition enableReplyInReplyMap :: "u32 \<Rightarrow> u32 \<Rightarrow> u8 \<Rightarrow> bool \<Rightarrow> u32 \<Rightarrow> DeviceHandler \<Rightarrow> retval \<times> DeviceHandler" where
  "enableReplyInReplyMap now command expected useAlternativeId alternativeReply s =
     (let k = (if useAlternativeId then alternativeReply else command) in
      case reply_info s k of
        None \<Rightarrow> (NO_REPLY_EXPECTED, s)
      | Some i \<Rightarrow>
          (OK, (case cmd_info s command of
                  None \<Rightarrow> (\<lambda>s. s) | Some c \<Rightarrow> put_cmd command (c\<lparr>expectedReplies := expected\<rparr>))
               (put_reply k (i\<lparr>delayCycles := maxDelayCycles i, dri_command := Some command,
                  dri_countdown := map_option (cd_resetTimer now) (dri_countdown i), active := True\<rparr>) s)))"

definition isAwaitingReply :: "DeviceHandler \<Rightarrow> bool" where
  "isAwaitingReply s = list_ex (\<lambda>(k, i). awaited i) (deviceReplyMap s)"

definition getReplyDelayCycles :: "u32 \<Rightarrow> DeviceHandler \<Rightarrow> u8" where
  "getReplyDelayCycles deviceCommand s =
     (case reply_info s deviceCommand of
        None \<Rightarrow> 0
      | Some i \<Rightarrow> if dri_countdown i \<noteq> None then (if active i then 1 else 0) else ucast (delayCycles i))"

section \<open>Raw data\<close>

definition replyRawData :: "send_status \<Rightarrow> bytes \<Rightarrow> queue_id \<Rightarrow> bool \<Rightarrow> DeviceHandler \<Rightarrow> DeviceHandler" where
  "replyRawData st data sendTo isCommand s =
     (if data = [] \<or> sendTo = NO_QUEUE then s
      else
        (case pool_addData invalid_address data (dh_IPCStore s) of (result, address, p) \<Rightarrow>
           let s = s\<lparr>dh_IPCStore := p\<rparr> in
           if result \<noteq> OK then triggerEvent STORE_DATA_FAILED (rv_param result) 0 s
           else
             (case sendMessageFrom st sendTo (cm_new (if isCommand then REPLY_RAW_COMMAND else REPLY_RAW_REPLY)
                      (sb_objectId s) (raw_of_addr address)) s of (result, s) \<Rightarrow>
                if result \<noteq> OK then s\<lparr>dh_IPCStore := snd (pool_deleteData address (dh_IPCStore s))\<rparr> else s)))"

definition replyRawReplyIfnotWiretapped :: "send_status \<Rightarrow> bytes \<Rightarrow> DeviceHandler \<Rightarrow> DeviceHandler" where
  "replyRawReplyIfnotWiretapped st data s =
     (if wiretappingMode s = WIRE_RAW \<and> defaultRawReceiver s = requestedRawTraffic s then s
      else replyRawData st data (defaultRawReceiver s) False s)"

text \<open>\<open>getStorageData\<close>, with the bytes that the returned pointer designates.\<close>

definition getStorageData :: "store_address \<Rightarrow> DeviceHandler \<Rightarrow> retval \<times> bytes \<times> DeviceHandler" where
  "getStorageData storageAddress s =
     (case pool_getData storageAddress (dh_IPCStore s) of (result, data) \<Rightarrow>
        if result = OK then (OK, the data, s)
        else (result, [], triggerEvent GET_DATA_FAILED (rv_param result) (raw_of_addr storageAddress) s))"

definition buildRawDeviceCommand :: "send_status \<Rightarrow> CommandMessage \<Rightarrow> DeviceHandler \<Rightarrow> DeviceHandler" where
  "buildRawDeviceCommand st message s =
     (let s = s\<lparr>storedRawData := addr_of_raw (cm_parameter2 message)\<rparr> in
      case getStorageData (storedRawData s) s of (result, data, s) \<Rightarrow>
        let s = s\<lparr>rawPacket := data\<rparr> in
        if result \<noteq> OK then
          (replyReturnvalueToCommand st result RAW_COMMAND_ID s)\<lparr>storedRawData := invalid_address\<rparr>
        else
          (case cmd_info s RAW_COMMAND_ID of
             None \<Rightarrow> s | Some c \<Rightarrow> put_cmd RAW_COMMAND_ID (c\<lparr>isExecuting := True\<rparr>) s)
          \<lparr>pendingCommand := Some RAW_COMMAND_ID, cookieState := COOKIE_WRITE_READY\<rparr>)"

definition handleDeviceHandlerMessage :: "send_status \<Rightarrow> CommandMessage \<Rightarrow> DeviceHandler \<Rightarrow> retval \<times> DeviceHandler" where
  "handleDeviceHandlerMessage st message s =
     (if cm_command message = CMD_WIRETAPPING then
        (let w = (ucast (cm_parameter message) :: u8) in
         if w = 1 then (OK, replyReturnvalueToCommand st OK 0 (s\<lparr>wiretappingMode := WIRE_RAW, requestedRawTraffic := sb_last s\<rparr>))
         else if w = 2 then (OK, replyReturnvalueToCommand st OK 0 (s\<lparr>wiretappingMode := WIRE_TM, requestedRawTraffic := sb_last s\<rparr>))
         else if w = 0 then (OK, replyReturnvalueToCommand st OK 0 (s\<lparr>wiretappingMode := WIRE_OFF\<rparr>))
         else (OK, (replyReturnvalueToCommand st INVALID_COMMAND_PARAMETER 0 s)\<lparr>wiretappingMode := WIRE_OFF\<rparr>))
      else if cm_command message = CMD_RAW then
        (if sb_mode s \<noteq> MODE_RAW then
           (OK, replyReturnvalueToCommand st WRONG_MODE_FOR_COMMAND 0
                  (s\<lparr>dh_IPCStore := snd (pool_deleteData (addr_of_raw (cm_parameter2 message)) (dh_IPCStore s))\<rparr>))
         else (OK, buildRawDeviceCommand st message s))
      else (FAILED, s))"

section \<open>Communication\<close>

definition dh_replyToCommand :: "send_status \<Rightarrow> retval \<Rightarrow> DeviceHandler \<Rightarrow> DeviceHandler" where
  "dh_replyToCommand st status s =
     (case pendingCommand s of
        None \<Rightarrow> s
      | Some k \<Rightarrow>
          if k = RAW_COMMAND_ID then
            (let s = replyReturnvalueToCommand st (if status = NO_REPLY_EXPECTED then OK else status) 0 s in
             s\<lparr>dh_IPCStore := snd (pool_deleteData (storedRawData s) (dh_IPCStore s))\<rparr>)
          else
            (case cmd_info s k of
               None \<Rightarrow> s
             | Some c \<Rightarrow>
                 if sendReplyTo c \<noteq> NO_COMMANDER then
                   if status = NO_REPLY_EXPECTED then ah_finish st True (sendReplyTo c) k OK s
                   else ah_step st 1 (sendReplyTo c) k status s
                 else s))"

definition stop_pending :: "DeviceHandler \<Rightarrow> DeviceHandler" where
  "stop_pending s =
     (case pendingCommand s of
        None \<Rightarrow> s
      | Some k \<Rightarrow> (case cmd_info s k of None \<Rightarrow> s | Some c \<Rightarrow> put_cmd k (c\<lparr>isExecuting := False\<rparr>) s))"

definition doSendWrite :: "device \<Rightarrow> DeviceHandler \<Rightarrow> DeviceHandler" where
  "doSendWrite d s =
     (if cookieState s = COOKIE_WRITE_READY then
        (let result = com_sendMessage d (rawPacket s); s = s\<lparr>written := written s @ [rawPacket s]\<rparr> in
         if result = OK then s\<lparr>cookieState := COOKIE_WRITE_SENT\<rparr>
         else
           stop_pending ((dh_replyToCommand (dv_status d) result
              (triggerEvent DEVICE_SENDING_COMMAND_FAILED (rv_param result) (the (pendingCommand s)) s))
             \<lparr>cookieState := COOKIE_UNUSED\<rparr>))
      else s)"

definition doGetWrite :: "device \<Rightarrow> DeviceHandler \<Rightarrow> DeviceHandler" where
  "doGetWrite d s =
     (if cookieState s \<noteq> COOKIE_WRITE_SENT then s
      else
        (let s = s\<lparr>cookieState := COOKIE_UNUSED\<rparr>; result = com_getSendSuccess d;
             (result, s) =
               (if result = OK then
                  (let s = (if wiretappingMode s = WIRE_RAW
                            then replyRawData (dv_status d) (rawPacket s) (requestedRawTraffic s) True s else s)
                   in case pendingCommand s of
                        None \<Rightarrow> (result, s)
                      | Some k \<Rightarrow>
                          (case cmd_info s k of
                             None \<Rightarrow> (result, s)
                           | Some c \<Rightarrow> enableReplyInReplyMap (dv_now d) k 1 (useAlternativeReplyId c) (alternativeReplyId c) s))
                else (result, triggerEvent DEVICE_SENDING_COMMAND_FAILED (rv_param result) (the (pendingCommand s)) s));
             s = (if result \<noteq> OK then stop_pending s else s)
         in dh_replyToCommand (dv_status d) result s))"

definition doSendRead :: "device \<Rightarrow> DeviceHandler \<Rightarrow> DeviceHandler" where
  "doSendRead d s =
     (let len = (case pendingCommand s of None \<Rightarrow> 0 | Some k \<Rightarrow> getNextReplyLength k s);
          result = com_requestReceiveMessage d len
      in if result = OK then s\<lparr>cookieState := COOKIE_READ_SENT\<rparr>
         else (triggerEvent DEVICE_REQUESTING_REPLY_FAILED (rv_param result) 0 s)
                \<lparr>ignoreMissedRepliesCount := ignoreMissedRepliesCount s + 1, cookieState := COOKIE_UNUSED\<rparr>)"

definition handleReply :: "device \<Rightarrow> bytes \<Rightarrow> u32 \<Rightarrow> nat \<Rightarrow> DeviceHandler \<Rightarrow> DeviceHandler" where
  "handleReply d receivedData foundId foundLen s =
     (case reply_info s foundId of
        None \<Rightarrow> triggerEvent DEVICE_UNKNOWN_REPLY foundId 0
                  (replyRawReplyIfnotWiretapped (dv_status d) (take foundLen receivedData) s)
      | Some i \<Rightarrow>
          if awaited i then
            (case dv_interpretDeviceReply d foundId receivedData s of (result, s) \<Rightarrow>
               if result = IGNORE_REPLY_DATA then s
               else
                 (case reply_info s foundId of
                    None \<Rightarrow> s
                  | Some i \<Rightarrow>
                      (let i = (if active i \<and> dri_countdown i \<noteq> None then resetTimeoutControlledReply (dv_now d) i
                                else if delayCycles i \<noteq> 0 then resetDelayCyclesControlledReply i else i);
                           s = put_reply foundId i s;
                           s = (if result \<noteq> OK then
                                  triggerEvent DEVICE_INTERPRETING_REPLY_FAILED (rv_param result) foundId
                                    (replyRawReplyIfnotWiretapped (dv_status d) (take foundLen receivedData) s)
                                else s)
                       in replyToReply (dv_status d) foundId i result s)))
          else if sb_mode s \<noteq> T_MODE_WAIT_OFF then triggerEvent DEVICE_UNREQUESTED_REPLY foundId 0 s
          else s)"

text \<open>
  The loop of \<open>parseReply\<close>: \<open>n\<close> iterations are left, \<open>data\<close> are the bytes from the read position on, of which
  \<open>remaining\<close> are left; \<open>foundId\<close> and \<open>foundLen\<close> keep their values from one iteration to the next.
\<close>

fun parse_loop :: "device \<Rightarrow> nat \<Rightarrow> bytes \<Rightarrow> nat \<Rightarrow> u32 \<Rightarrow> nat \<Rightarrow> DeviceHandler \<Rightarrow> DeviceHandler" where
  "parse_loop d 0 data remaining foundId foundLen s = s"
| "parse_loop d (Suc n) data remaining foundId foundLen s =
     (case dv_scanForReply d (take remaining data) foundId foundLen s of (result, foundId, foundLen, s) \<Rightarrow>
        if result = IGNORE_REPLY_DATA then parse_loop d n data remaining foundId foundLen s
        else if result = IGNORE_FULL_PACKET then s
        else
          (let s =
             (if result = OK then handleReply d data foundId foundLen s
              else if result = APERIODIC_REPLY then
                (case dv_interpretDeviceReply d foundId data s of (result, s) \<Rightarrow>
                   if result \<noteq> OK then
                     triggerEvent DEVICE_INTERPRETING_REPLY_FAILED (rv_param result) foundId
                       (replyRawReplyIfnotWiretapped (dv_status d) (take foundLen data) s)
                   else s)
              else
                triggerEvent DEVICE_READING_REPLY_FAILED (rv_param result) (of_nat foundLen)
                  (replyRawReplyIfnotWiretapped (dv_status d) (take foundLen data) s))
           in if remaining > foundLen
              then parse_loop d n (drop foundLen data) (remaining - foundLen) foundId foundLen s
              else s))"

definition parseReply :: "device \<Rightarrow> bytes \<Rightarrow> DeviceHandler \<Rightarrow> DeviceHandler" where
  "parseReply d receivedData s =
     parse_loop d (length receivedData) receivedData (length receivedData) NO_COMMAND_ID 0 s"

definition doGetRead :: "device \<Rightarrow> DeviceHandler \<Rightarrow> DeviceHandler" where
  "doGetRead d s =
     (if cookieState s \<noteq> COOKIE_READ_SENT then s\<lparr>cookieState := COOKIE_UNUSED\<rparr>
      else
        (let s = s\<lparr>cookieState := COOKIE_UNUSED\<rparr>; (result, receivedData) = com_readReceivedMessage d in
         if result \<noteq> OK then
           (triggerEvent DEVICE_REQUESTING_REPLY_FAILED (rv_param result) 0 s)
             \<lparr>ignoreMissedRepliesCount := ignoreMissedRepliesCount s + 1\<rparr>
         else if receivedData = [] \<or> result = NO_REPLY_RECEIVED then s
         else
           (let s = (if wiretappingMode s = WIRE_RAW
                     then replyRawData (dv_status d) receivedData (requestedRawTraffic s) False s else s)
            in if sb_mode s = MODE_RAW then
                 (if defaultRawReceiver s \<noteq> NO_QUEUE then replyRawReplyIfnotWiretapped (dv_status d) receivedData s else s)
               else parseReply d receivedData s)))"

definition buildInternalCommand :: "device \<Rightarrow> DeviceHandler \<Rightarrow> DeviceHandler" where
  "buildInternalCommand d s =
     (if sb_mode s = MODE_NORMAL \<or> sb_mode s = MODE_RAW \<or> sb_mode s AND TRANSITION_MODE_CHILD_ACTION_MASK \<noteq> 0 then
        (let (result, deviceCommandId, s) =
           (if sb_mode s = MODE_NORMAL then
              (case dv_buildNormalDeviceCommand d s of (result, i, s) \<Rightarrow> (if result = BUSY then NOTHING_TO_SEND else result, i, s))
            else if sb_mode s = MODE_RAW then (NOTHING_TO_SEND, RAW_COMMAND_ID, s)
            else dv_buildTransitionDeviceCommand d s)
         in if result = NOTHING_TO_SEND then s
            else if result = OK then
              (case cmd_info s deviceCommandId of
                 None \<Rightarrow> triggerEvent DEVICE_BUILDING_COMMAND_FAILED (rv_param COMMAND_NOT_SUPPORTED) deviceCommandId s
               | Some c \<Rightarrow>
                   if isExecuting c then s
                   else (put_cmd deviceCommandId (c\<lparr>sendReplyTo := NO_COMMANDER, isExecuting := True\<rparr>) s)
                          \<lparr>pendingCommand := Some deviceCommandId, cookieState := COOKIE_WRITE_READY\<rparr>)
            else triggerEvent DEVICE_BUILDING_COMMAND_FAILED (rv_param result) deviceCommandId s)
      else s)"

section \<open>The cycle\<close>

definition dh_setHealth :: "send_status \<Rightarrow> u8 \<Rightarrow> DeviceHandler \<Rightarrow> retval \<times> DeviceHandler" where
  "dh_setHealth st health s = (OK, hh_setHealth st health s)"

definition dh_setToExternalControl :: "send_status \<Rightarrow> DeviceHandler \<Rightarrow> DeviceHandler" where
  "dh_setToExternalControl st s = hh_setHealth st EXTERNAL_CONTROL s"

text \<open>The operations of the mode helper on the device handler; \<open>startTransition\<close> never fails.\<close>

definition dh_handleModeCommand :: "device \<Rightarrow> CommandMessage \<Rightarrow> DeviceHandler \<Rightarrow> (retval \<times> DeviceHandler) option" where
  "dh_handleModeCommand d =
     handleModeCommand dh_checkModeCommand (\<lambda>m sm s. Some (dh_startTransition d m sm s))
       (dh_setToExternalControl (dv_status d)) dh_announceMode (dv_status d)"

text \<open>Each helper is tried until one returns \<open>OK\<close>; the message received, if any, is an argument.\<close>

fun first_handler :: "(DeviceHandler \<Rightarrow> retval \<times> DeviceHandler) list \<Rightarrow> (DeviceHandler \<Rightarrow> DeviceHandler) \<Rightarrow> DeviceHandler \<Rightarrow> DeviceHandler" where
  "first_handler [] otherwise s = otherwise s"
| "first_handler (h # hs) otherwise s = (case h s of (result, s) \<Rightarrow> if result = OK then s else first_handler hs otherwise s)"

definition readCommandQueue :: "device \<Rightarrow> CommandMessage option \<Rightarrow> DeviceHandler \<Rightarrow> DeviceHandler" where
  "readCommandQueue d received s =
     (case received of
        None \<Rightarrow> s
      | Some command \<Rightarrow>
          first_handler
            [handleHealthCommand dh_setHealth (dv_status d) command,
             (\<lambda>s. the (dh_handleModeCommand d command s)),
             handleActionMessage d command,
             dv_handleParameterMessage d command,
             dv_handleHousekeepingMessage d command,
             handleDeviceHandlerMessage (dv_status d) command,
             dv_letChildHandleMessage d command]
            (replyReturnvalueToCommand (dv_status d) UNKNOWN_COMMAND 0)
            (s\<lparr>sb_last := cm_sender command\<rparr>))"

datatype CommunicationAction = PERFORM_OPERATION | SEND_WRITE | GET_WRITE | SEND_READ | GET_READ | NOTHING

definition getComAction :: "u8 \<Rightarrow> CommunicationAction" where
  "getComAction pstStep =
     (if pstStep = 0 then PERFORM_OPERATION else if pstStep = 1 then SEND_WRITE else if pstStep = 2 then GET_WRITE
      else if pstStep = 3 then SEND_READ else if pstStep = 4 then GET_READ else NOTHING)"

definition dh_performOperation :: "device \<Rightarrow> u8 \<Rightarrow> CommandMessage option \<Rightarrow> DeviceHandler \<Rightarrow> DeviceHandler" where
  "dh_performOperation d counter received s =
     (let action = getComAction counter in
      if action = NOTHING then s
      else if action = PERFORM_OPERATION then
        dv_performOperationHook d (dv_checkForFailures d (decrementDeviceReplyMap d (checkSwitchState d
          (doStateMachine d (readCommandQueue d received (s\<lparr>cookieState := COOKIE_UNUSED\<rparr>))))))
      else if sb_mode s = MODE_OFF then s
      else if action = SEND_WRITE then
        doSendWrite d (if cookieState s = COOKIE_UNUSED then buildInternalCommand d s else s)
      else if action = GET_WRITE then doGetWrite d s
      else if action = SEND_READ then doSendRead d s
      else dv_performHkOperation d (doGetRead d s))"

section \<open>Data of the replies\<close>

text \<open>
  \<open>ActionHelper::reportData\<close>: an object that is serialised is the bytes of its serialisation, which succeeds.
  A hidden sender is \<open>NO_QUEUE\<close>.
\<close>

definition send_data_reply :: "send_status \<Rightarrow> queue_id \<Rightarrow> u32 \<Rightarrow> store_address \<Rightarrow> bool \<Rightarrow> DeviceHandler \<Rightarrow> retval \<times> DeviceHandler" where
  "send_data_reply st reportTo replyId address hideSender s =
     (let message = cm_new DATA_REPLY replyId (raw_of_addr address); result = st reportTo (sb_sent s) in
      (result,
       if result = OK
       then s\<lparr>sb_sent := sb_sent s @ [(reportTo, message\<lparr>cm_sender := (if hideSender then NO_QUEUE else sb_queue s)\<rparr>)]\<rparr>
       else s\<lparr>dh_IPCStore := snd (pool_deleteData address (dh_IPCStore s))\<rparr>))"

definition reportData :: "send_status \<Rightarrow> queue_id \<Rightarrow> u32 \<Rightarrow> bytes \<Rightarrow> bool \<Rightarrow> DeviceHandler \<Rightarrow> retval \<times> DeviceHandler" where
  "reportData st reportTo replyId data hideSender s =
     (if data = [] then (OK, s)
      else
        (case pool_getFreeElement invalid_address (length data) (dh_IPCStore s) of (result, pos, address, p) \<Rightarrow>
           if result \<noteq> OK then (result, s\<lparr>dh_IPCStore := p\<rparr>)
           else send_data_reply st reportTo replyId address hideSender (s\<lparr>dh_IPCStore := pool_write address data p\<rparr>)))"

definition reportData_raw :: "send_status \<Rightarrow> queue_id \<Rightarrow> u32 \<Rightarrow> bytes \<Rightarrow> bool \<Rightarrow> DeviceHandler \<Rightarrow> retval \<times> DeviceHandler" where
  "reportData_raw st reportTo replyId data hideSender s =
     (case pool_addData invalid_address data (dh_IPCStore s) of (result, address, p) \<Rightarrow>
        if result \<noteq> OK then (result, s\<lparr>dh_IPCStore := p\<rparr>)
        else send_data_reply st reportTo replyId address hideSender (s\<lparr>dh_IPCStore := p\<rparr>))"

definition DeviceTmReportingWrapper :: "u32 \<Rightarrow> u32 \<Rightarrow> bytes \<Rightarrow> bytes" where
  "DeviceTmReportingWrapper objectId actionId data = enc_word BIG objectId @ enc_word BIG actionId @ data"

definition handleDeviceTm :: "send_status \<Rightarrow> bytes \<Rightarrow> u32 \<Rightarrow> bool \<Rightarrow> DeviceHandler \<Rightarrow> DeviceHandler" where
  "handleDeviceTm st data replyId forceDirectTm s =
     (let report = (\<lambda>to x hide s. snd (reportData st to replyId x hide s));
          wrapper = DeviceTmReportingWrapper (sb_objectId s) replyId data
      in case reply_info s replyId of
           None \<Rightarrow> triggerEvent DEVICE_UNKNOWN_REPLY replyId 0 s
         | Some i \<Rightarrow>
             (case Option.bind (dri_command i) (cmd_info s) of
                Some c \<Rightarrow>
                  (let s = (if sendReplyTo c \<noteq> NO_COMMANDER then report (sendReplyTo c) data False s else s) in
                   if wiretappingMode s = WIRE_TM \<and> requestedRawTraffic s \<noteq> sendReplyTo c
                   then report (requestedRawTraffic s) wrapper False s
                   else if forceDirectTm \<and> defaultRawReceiver s \<noteq> sendReplyTo c \<and> defaultRawReceiver s \<noteq> NO_QUEUE
                   then report (defaultRawReceiver s) data True s
                   else s)
              | None \<Rightarrow>
                  (let s = (if wiretappingMode s = WIRE_TM then report (requestedRawTraffic s) wrapper False s else s) in
                   if forceDirectTm \<and> defaultRawReceiver s \<noteq> NO_QUEUE
                   then report (defaultRawReceiver s) wrapper True s else s)))"

definition commandIsExecuting :: "u32 \<Rightarrow> DeviceHandler \<Rightarrow> bool" where
  "commandIsExecuting commandId s = (case cmd_info s commandId of Some c \<Rightarrow> isExecuting c | None \<Rightarrow> False)"

definition getPendingCommand :: "DeviceHandler \<Rightarrow> u32" where
  "getPendingCommand s = (case pendingCommand s of Some k \<Rightarrow> k | None \<Rightarrow> NO_COMMAND_ID)"

definition getCommanderQueueId :: "u32 \<Rightarrow> DeviceHandler \<Rightarrow> queue_id" where
  "getCommanderQueueId replyId s = (case cmd_info s replyId of Some c \<Rightarrow> sendReplyTo c | None \<Rightarrow> NO_QUEUE)"

end
