(* ===== verification/Device_Properties.thy ===== *)
theory Device_Properties
  imports Device_Handler
begin

text \<open>
  What the base class of the device handlers guarantees: its iterators stay valid, it answers the commander of
  every action, it never leaves the modes of its mode machine and it ends a power down.
\<close>

section \<open>Frames\<close>

text \<open>Operations of the helpers change the part of the state that every commandable object has, and no more.\<close>

named_theorems frame \<open>operations that keep a part of the state\<close>

definition dh_core :: "'a ModeOwner_scheme \<Rightarrow> u32 \<times> 'a" where
  "dh_core s = (sb_mode s, ModeOwner.more s)"

lemma devcore_triggerEvent [frame]: "dh_core (triggerEvent e p q s) = dh_core s"
  by (simp add: dh_core_def triggerEvent_def)

lemma devcore_sendMessageFrom [frame]: "dh_core (snd (sendMessageFrom st q m s)) = dh_core s"
  by (simp add: dh_core_def sendMessageFrom_def Let_def)

lemma devcore_fields [simp]:
  "dh_core (s\<lparr>sb_last := a\<rparr>) = dh_core s"
  "dh_core (s\<lparr>sb_submode := b1\<rparr>) = dh_core s"
  "dh_core (s\<lparr>sb_sent := b2\<rparr>) = dh_core s"
  "dh_core (s\<lparr>sb_healthTable := b3\<rparr>) = dh_core s"
  "dh_core (s\<lparr>mh_theOneWhoCommandedAMode := c1\<rparr>) = dh_core s"
  "dh_core (s\<lparr>mh_commandedMode := c2\<rparr>) = dh_core s"
  "dh_core (s\<lparr>mh_commandedSubmode := c3\<rparr>) = dh_core s"
  "dh_core (s\<lparr>mh_forced := c4\<rparr>) = dh_core s"
  by (simp_all add: dh_core_def)

lemma devcore_mq_reply [frame]: "dh_core (snd (mq_reply st m s)) = dh_core s"
  by (simp add: mq_reply_def frame)

lemma devcore_helpers [frame]:
  "dh_core (mh_modeChanged st m sm s) = dh_core s"
  "dh_core (hh_setHealth st h s) = dh_core s"
  "dh_core (ah_step st n q c r s) = dh_core s"
  "dh_core (ah_finish st b q c r s) = dh_core s"
  by (simp_all add: mh_modeChanged_def sendModeInfoMessage_def sendModeReplyMessage_def hh_setHealth_def informParent_def
      ah_step_def ah_finish_def Let_def frame)

lemma devcore_replyReturnvalueToCommand [frame]: "dh_core (replyReturnvalueToCommand st r p s) = dh_core s"
  by (simp add: replyReturnvalueToCommand_def frame)

lemma devcore_dh_announceMode [frame]: "dh_core (dh_announceMode b s) = dh_core s"
  by (simp add: dh_announceMode_def frame)

section \<open>Iterators and modes\<close>

abbreviation command_ids :: "DeviceHandler \<Rightarrow> u32 set" where
  "command_ids s \<equiv> fst ` set (deviceCommandMap s)"

text \<open>
  The iterators that the handler stores and dereferences: the pending command whenever there is one and a write is
  under way, and the command of every reply.
\<close>

definition links_ok :: "u32 set \<Rightarrow> (u32 \<times> DeviceReplyInfo) list \<Rightarrow> bool" where
  "links_ok K replies \<longleftrightarrow>
     distinct (map fst replies) \<and> list_all (\<lambda>(k, i). case dri_command i of None \<Rightarrow> True | Some c \<Rightarrow> c \<in> K) replies"

definition pending_ok :: "u32 set \<Rightarrow> u32 option \<Rightarrow> CookieState \<Rightarrow> bool" where
  "pending_ok K pending cookie \<longleftrightarrow>
     (case pending of
        None \<Rightarrow> cookie \<noteq> COOKIE_WRITE_READY \<and> cookie \<noteq> COOKIE_WRITE_SENT
      | Some k \<Rightarrow> k \<in> K)"

text \<open>\<open>K\<close> are the identifiers of the commands that the child registered at its initialisation.\<close>

definition device_modes :: "u32 set" where
  "device_modes =
     {MODE_OFF, MODE_ON, MODE_NORMAL, MODE_RAW, MODE_ERROR_ON,
      T_MODE_START_UP, T_MODE_SHUT_DOWN, T_MODE_TO_ON, T_MODE_TO_RAW, T_MODE_TO_NORMAL,
      T_MODE_POWER_DOWN, T_MODE_POWER_ON, T_MODE_WAIT_OFF, T_MODE_WAIT_ON, T_MODE_SWITCH_IS_OFF}"

definition dh_ok :: "u32 set \<Rightarrow> DeviceHandler \<Rightarrow> bool" where
  "dh_ok K s \<longleftrightarrow>
     sb_mode s \<in> device_modes \<and> transitionSourceMode s \<in> device_modes \<and>
     command_ids s = K \<and> RAW_COMMAND_ID \<in> K \<and> pending_ok K (pendingCommand s) (cookieState s) \<and> links_ok K (deviceReplyMap s)"

lemma devcore_eq_fields:
  assumes "dh_core s = dh_core t"
  shows "sb_mode s = sb_mode t \<and> deviceCommandMap s = deviceCommandMap t \<and> deviceReplyMap s = deviceReplyMap t \<and>
    pendingCommand s = pendingCommand t \<and> cookieState s = cookieState t \<and> rawPacket s = rawPacket t \<and>
    ignoreMissedRepliesCount s = ignoreMissedRepliesCount t \<and> transitionSourceMode s = transitionSourceMode t \<and>
    transitionSourceSubMode s = transitionSourceSubMode t \<and> timeoutStart s = timeoutStart t \<and>
    childTransitionDelay s = childTransitionDelay t \<and> thermalSet s = thermalSet t \<and>
    wiretappingMode s = wiretappingMode t \<and> written s = written t"
  using assms by (cases s; cases t) (simp add: dh_core_def)

lemmas frame_fields = frame [THEN devcore_eq_fields]

lemma dh_ok_core: "dh_core s = dh_core t \<Longrightarrow> dh_ok K s = dh_ok K t"
  by (simp add: dh_ok_def devcore_eq_fields [of s t])

lemmas dh_ok_frame [simp] = frame [THEN dh_ok_core] devcore_fields [THEN dh_ok_core]

lemma dh_ok_fields [simp]:
  "dh_ok K (s\<lparr>rawPacket := e\<rparr>) = dh_ok K s"
  "dh_ok K (s\<lparr>wiretappingMode := f\<rparr>) = dh_ok K s"
  "dh_ok K (s\<lparr>storedRawData := g\<rparr>) = dh_ok K s"
  "dh_ok K (s\<lparr>requestedRawTraffic := h\<rparr>) = dh_ok K s"
  "dh_ok K (s\<lparr>dh_IPCStore := i\<rparr>) = dh_ok K s"
  "dh_ok K (s\<lparr>thermalSet := j\<rparr>) = dh_ok K s"
  "dh_ok K (s\<lparr>childTransitionFailure := k\<rparr>) = dh_ok K s"
  "dh_ok K (s\<lparr>ignoreMissedRepliesCount := l\<rparr>) = dh_ok K s"
  "dh_ok K (s\<lparr>switchOffWasReported := m\<rparr>) = dh_ok K s"
  "dh_ok K (s\<lparr>timeoutStart := n\<rparr>) = dh_ok K s"
  "dh_ok K (s\<lparr>childTransitionDelay := p\<rparr>) = dh_ok K s"
  "dh_ok K (s\<lparr>transitionSourceSubMode := r\<rparr>) = dh_ok K s"
  "dh_ok K (s\<lparr>switchCommands := t\<rparr>) = dh_ok K s"
  "dh_ok K (s\<lparr>written := u\<rparr>) = dh_ok K s"
  by (simp_all add: dh_ok_def)

lemma dh_ok_mode_fields:
  "dh_ok K s \<Longrightarrow> m \<in> device_modes \<Longrightarrow> dh_ok K (s\<lparr>sb_mode := m\<rparr>)"
  "dh_ok K s \<Longrightarrow> m \<in> device_modes \<Longrightarrow> dh_ok K (s\<lparr>transitionSourceMode := m\<rparr>)"
  by (simp_all add: dh_ok_def)

lemma device_modes [simp]:
  "m \<in> {MODE_OFF, MODE_ON, MODE_NORMAL, MODE_RAW, MODE_ERROR_ON} \<Longrightarrow> m \<in> device_modes"
  "T_MODE_START_UP \<in> device_modes" "T_MODE_SHUT_DOWN \<in> device_modes" "T_MODE_POWER_DOWN \<in> device_modes"
  "T_MODE_POWER_ON \<in> device_modes" "T_MODE_WAIT_OFF \<in> device_modes" "T_MODE_WAIT_ON \<in> device_modes"
  "T_MODE_SWITCH_IS_OFF \<in> device_modes"
  "MODE_ON OR TRANSITION_MODE_CHILD_ACTION_MASK \<in> device_modes"
  "MODE_NORMAL OR TRANSITION_MODE_CHILD_ACTION_MASK \<in> device_modes"
  "MODE_RAW OR TRANSITION_MODE_CHILD_ACTION_MASK \<in> device_modes"
  by (auto simp: device_modes_def codes)

lemma dh_ok_modes: "dh_ok K s \<Longrightarrow> sb_mode s \<in> device_modes" "dh_ok K s \<Longrightarrow> transitionSourceMode s \<in> device_modes"
  by (simp_all add: dh_ok_def)

lemma dh_ok_idle [simp]:
  "dh_ok K s \<Longrightarrow> dh_ok K (s\<lparr>cookieState := COOKIE_UNUSED\<rparr>)" "dh_ok K s \<Longrightarrow> dh_ok K (s\<lparr>cookieState := COOKIE_READ_SENT\<rparr>)"
  by (simp_all add: dh_ok_def pending_ok_def split: option.splits)

lemma fst_map_assign [simp]: "map fst (map_assign k v m) = map fst m"
  by (induction k v m rule: map_assign.induct) auto

lemma fst_set_map_assign [simp]: "fst ` set (map_assign k v m) = fst ` set m"
  by (metis fst_map_assign list.set_map)

lemma set_map_assign: "set (map_assign k v m) \<subseteq> insert (k, v) (set m)"
  by (induction k v m rule: map_assign.induct) auto

lemma dh_ok_put_cmd [simp]: "dh_ok K (put_cmd k c s) = dh_ok K s"
  by (simp add: dh_ok_def put_cmd_def)

lemma links_ok_map_assign:
  assumes "links_ok K m" "\<And>c. dri_command i = Some c \<Longrightarrow> c \<in> K"
  shows "links_ok K (map_assign k i m)"
proof -
  have "x \<in> set m \<or> x = (k, i)" if "x \<in> set (map_assign k i m)" for x using that set_map_assign by fastforce
  then show ?thesis using assms unfolding links_ok_def list_all_iff fst_map_assign
    by (metis (mono_tags, lifting) case_prod_conv option.exhaust option.simps(4,5))
qed

lemma dh_ok_put_reply:
  "dh_ok K s \<Longrightarrow> (\<And>c. dri_command i = Some c \<Longrightarrow> c \<in> K) \<Longrightarrow> dh_ok K (put_reply k i s)"
  by (simp add: dh_ok_def pending_ok_def put_reply_def links_ok_map_assign)

lemma dh_ok_reply_command:
  "dh_ok K s \<Longrightarrow> reply_info s k = Some i \<Longrightarrow> dri_command i = Some c \<Longrightarrow> c \<in> K"
  by (drule map_of_SomeD) (auto simp: dh_ok_def pending_ok_def links_ok_def list_all_iff dest!: bspec)

lemma dh_ok_pending: "dh_ok K s \<Longrightarrow> pendingCommand s = Some k \<Longrightarrow> k \<in> K"
  by (simp add: dh_ok_def pending_ok_def)

lemma dh_ok_start:
  "dh_ok K s \<Longrightarrow> k \<in> K \<Longrightarrow> dh_ok K (s\<lparr>pendingCommand := Some k, cookieState := x\<rparr>)"
  by (simp add: dh_ok_def pending_ok_def)

lemma cmd_info_ids: "dh_ok K s \<Longrightarrow> cmd_info s k = Some c \<Longrightarrow> k \<in> K"
  by (drule map_of_SomeD) (auto simp: dh_ok_def rev_image_eqI)

lemma cmd_info_exists: "dh_ok K s \<Longrightarrow> k \<in> K \<Longrightarrow> \<exists>c. cmd_info s k = Some c"
  by (metis dh_ok_def domD dom_map_of_conv_image_fst)

section \<open>The operations keep the iterators valid\<close>

lemma dh_ok_setNormalDatapoolEntriesInvalid [simp]: "dh_ok K (setNormalDatapoolEntriesInvalid s) = dh_ok K s"
proof -
  have "links_ok c (map (\<lambda>(k, i). (k, i\<lparr>dataSet := map_option (\<lambda>_. False) (dataSet i)\<rparr>)) m) = links_ok c m" for c m
    unfolding links_ok_def by (induction m) (auto simp: image_image case_prod_unfold)
  then show ?thesis by (simp add: setNormalDatapoolEntriesInvalid_def dh_ok_def pending_ok_def)
qed

lemma dh_ok_commandSwitch [simp]: "dh_ok K (commandSwitch d x s) = dh_ok K s"
  by (simp add: commandSwitch_def split: option.split prod.split)

text \<open>
  What the base class relies on of the child class and of the helpers that are not part of this theory: they
  keep the iterators valid, that is, they do not remove commands and do not change the pending command.
\<close>

definition child_ok :: "(DeviceHandler \<Rightarrow> bool) \<Rightarrow> device \<Rightarrow> bool" where
  "child_ok P d \<longleftrightarrow>
     (\<forall>s. P s \<longrightarrow>
        P (dv_doStartUp d s) \<and> P (dv_doShutDown d s) \<and> (\<forall>m sm. P (dv_doTransition d m sm s)) \<and>
        P (snd (snd (dv_buildNormalDeviceCommand d s))) \<and> P (snd (snd (dv_buildTransitionDeviceCommand d s))) \<and>
        (\<forall>c x. P (snd (dv_buildCommandFromCommand d c x s))) \<and>
        (\<forall>x i n. P (snd (snd (snd (dv_scanForReply d x i n s))))) \<and>
        (\<forall>i x. P (snd (dv_interpretDeviceReply d i x s))) \<and>
        (\<forall>m. P (snd (dv_letChildHandleMessage d m s))) \<and> P (dv_performOperationHook d s) \<and>
        (\<forall>m. P (snd (dv_handleParameterMessage d m s))) \<and> (\<forall>m. P (snd (dv_handleHousekeepingMessage d m s))) \<and>
        P (dv_performHkOperation d s) \<and> P (dv_checkForFailures d s) \<and>
        P (dv_modeChanged d s) \<and> P (dv_doOffActivity d s) \<and> P (dv_doOnActivity d s))"

lemma child_okD:
  assumes "child_ok P d" "P s"
  shows "P (dv_doStartUp d s)" "P (dv_doShutDown d s)" "P (dv_doTransition d m sm s)"
    "P (snd (snd (dv_buildNormalDeviceCommand d s)))" "P (snd (snd (dv_buildTransitionDeviceCommand d s)))"
    "P (snd (dv_buildCommandFromCommand d c x s))" "P (snd (snd (snd (dv_scanForReply d x i n s))))"
    "P (snd (dv_interpretDeviceReply d i x s))" "P (snd (dv_letChildHandleMessage d msg s))"
    "P (dv_performOperationHook d s)" "P (snd (dv_handleParameterMessage d msg s))"
    "P (snd (dv_handleHousekeepingMessage d msg s))" "P (dv_performHkOperation d s)" "P (dv_checkForFailures d s)"
    "P (dv_modeChanged d s)" "P (dv_doOffActivity d s)" "P (dv_doOnActivity d s)"
  by (use assms(1) [unfolded child_ok_def, THEN spec, THEN mp, OF assms(2)] in simp_all)

lemmas child_dh_ok = child_okD [where P = "dh_ok K" for K]

lemma dh_ok_setMode:
  "child_ok (dh_ok K) d \<Longrightarrow> m \<in> device_modes \<Longrightarrow> dh_ok K s \<Longrightarrow> dh_ok K (dh_setMode d m sm s)"
  "child_ok (dh_ok K) d \<Longrightarrow> m \<in> device_modes \<Longrightarrow> dh_ok K s \<Longrightarrow> dh_ok K (dh_setMode1 d m s)"
  by (simp_all add: dh_setMode1_def dh_setMode_def Let_def dh_ok_mode_fields child_dh_ok)

lemma dh_ok_startTransition: "child_ok (dh_ok K) d \<Longrightarrow> dh_ok K s \<Longrightarrow> dh_ok K (dh_startTransition d m sm s)"
  by (simp add: dh_startTransition_def handleTransitionToOnMode_def setTransition_def Let_def dh_ok_setMode
      dh_ok_mode_fields dh_ok_modes [of K] frame_fields)

lemma dh_ok_callChildStatemachine: "child_ok (dh_ok K) d \<Longrightarrow> dh_ok K s \<Longrightarrow> dh_ok K (callChildStatemachine d s)"
  by (simp add: callChildStatemachine_def child_dh_ok)

lemma dh_ok_doStateMachine: "child_ok (dh_ok K) d \<Longrightarrow> dh_ok K s \<Longrightarrow> dh_ok K (doStateMachine d s)"
  by (simp add: doStateMachine_def Let_def if_distrib [of "dh_ok K"] dh_ok_callChildStatemachine dh_ok_setMode
      child_dh_ok dh_ok_modes [of K] dh_ok_mode_fields split del: if_split cong: if_cong split: option.split)

lemma dh_ok_checkSwitchState: "dh_ok K s \<Longrightarrow> dh_ok K (checkSwitchState d s)"
  by (simp add: checkSwitchState_def)

lemma dh_ok_replyToReply [simp]: "dh_ok K (replyToReply st k i r s) = dh_ok K s"
  by (simp add: replyToReply_def Let_def split: option.split)

lemma dh_ok_missedReply [simp]: "dh_ok K (missedReply k s) = dh_ok K s"
  by (simp add: missedReply_def)

lemma dri_command_reset [simp]:
  "dri_command (resetTimeoutControlledReply n i) = dri_command i"
  "dri_command (resetDelayCyclesControlledReply i) = dri_command i"
  by (simp_all add: resetTimeoutControlledReply_def resetDelayCyclesControlledReply_def)

lemma dri_command_decrement [simp]: "dri_command (snd (decrement_reply n i)) = dri_command i"
  by (simp add: decrement_reply_def Let_def split: option.split prod.split)

lemma dh_ok_decrement_entry: "dh_ok K s \<Longrightarrow> dh_ok K (decrement_entry d k s)"
  by (auto simp: decrement_entry_def Let_def case_prod_unfold split: option.split
      intro!: dh_ok_put_reply elim: dh_ok_reply_command)

lemma dh_ok_decrementDeviceReplyMap: "dh_ok K s \<Longrightarrow> dh_ok K (decrementDeviceReplyMap d s)"
proof -
  have "dh_ok K s \<Longrightarrow> dh_ok K (fold (decrement_entry d) ks s)" for ks
    by (induction ks arbitrary: s) (simp_all add: dh_ok_decrement_entry)
  then show "dh_ok K s \<Longrightarrow> dh_ok K (decrementDeviceReplyMap d s)" by (simp add: decrementDeviceReplyMap_def)
qed

lemma dh_ok_replyRawData [simp]: "dh_ok K (replyRawData st x q b s) = dh_ok K s"
  by (simp add: replyRawData_def Let_def case_prod_unfold)

lemma replyRawData_fields [simp]:
  "deviceCommandMap (replyRawData st x q b s) = deviceCommandMap s"
  "pendingCommand (replyRawData st x q b s) = pendingCommand s"
  "deviceReplyMap (replyRawData st x q b s) = deviceReplyMap s"
  by (simp_all add: replyRawData_def Let_def case_prod_unfold frame_fields)

lemma dh_ok_replyRawReply [simp]: "dh_ok K (replyRawReplyIfnotWiretapped st x s) = dh_ok K s"
  by (simp add: replyRawReplyIfnotWiretapped_def)

lemma dh_ok_buildRaw: "dh_ok K s \<Longrightarrow> dh_ok K (buildRawDeviceCommand st m s)"
proof -
  have g: "dh_ok K (snd (snd (getStorageData a s))) = dh_ok K s" for a s
    by (simp add: getStorageData_def case_prod_unfold)
  have r: "RAW_COMMAND_ID \<in> K" if "dh_ok K s" for s
    using that by (simp add: dh_ok_def)
  show "dh_ok K s \<Longrightarrow> dh_ok K (buildRawDeviceCommand st m s)"
    by (auto simp: buildRawDeviceCommand_def Let_def case_prod_unfold g intro!: dh_ok_start r split: option.split)
qed

lemma dh_ok_handleDeviceHandlerMessage: "dh_ok K s \<Longrightarrow> dh_ok K (snd (handleDeviceHandlerMessage st m s))"
  by (simp add: handleDeviceHandlerMessage_def Let_def dh_ok_buildRaw)

lemma dh_ok_executeAction: "child_ok (dh_ok K) d \<Longrightarrow> dh_ok K s \<Longrightarrow> dh_ok K (snd (executeAction d a q x s))"
  by (auto simp: executeAction_def Let_def case_prod_unfold child_dh_ok cmd_info_ids intro!: dh_ok_start split: option.split)

lemma dh_ok_prepareExecution: "child_ok (dh_ok K) d \<Longrightarrow> dh_ok K s \<Longrightarrow> dh_ok K (prepareExecution d q a x s)"
  by (simp add: prepareExecution_def Let_def case_prod_unfold dh_ok_executeAction)

lemma dh_ok_handleActionMessage: "child_ok (dh_ok K) d \<Longrightarrow> dh_ok K s \<Longrightarrow> dh_ok K (snd (handleActionMessage d m s))"
  by (simp add: handleActionMessage_def dh_ok_prepareExecution)

lemma dh_ok_checkModeCommand [simp]: "dh_ok K (snd (dh_checkModeCommand m sm s)) = dh_ok K s"
  by (simp add: dh_checkModeCommand_def Let_def split: option.split)

lemma dh_ok_handleModeCommand: "child_ok (dh_ok K) d \<Longrightarrow> dh_ok K s \<Longrightarrow> dh_ok K (snd (the (dh_handleModeCommand d m s)))"
  by (simp add: dh_ok_startTransition dh_handleModeCommand_def handleModeCommand_def Let_def case_prod_unfold dh_setToExternalControl_def)

lemma dh_ok_handleHealthCommand [simp]: "dh_ok K (snd (handleHealthCommand dh_setHealth st m s)) = dh_ok K s"
  by (simp add: handleHealthCommand_def handleSetHealthCommand_def dh_setHealth_def Let_def)

lemma dh_ok_first_handler:
  assumes "\<And>h s. h \<in> set hs \<Longrightarrow> P s \<Longrightarrow> P (snd (h s))" "\<And>s. P s \<Longrightarrow> P (f s)" "P s"
  shows "P (first_handler hs f s)"
  using assms by (induction hs f s rule: first_handler.induct) (fastforce split: prod.split)+

lemma dh_ok_readCommandQueue: "child_ok (dh_ok K) d \<Longrightarrow> dh_ok K s \<Longrightarrow> dh_ok K (readCommandQueue d r s)"
  by (auto simp: readCommandQueue_def child_dh_ok dh_ok_handleModeCommand dh_ok_handleActionMessage dh_ok_handleDeviceHandlerMessage
      split: option.split simp del: first_handler.simps intro!: dh_ok_first_handler [where P = "dh_ok K"])

lemma dh_ok_replyToCommand [simp]: "dh_ok K (dh_replyToCommand st r s) = dh_ok K s"
  by (simp add: dh_replyToCommand_def Let_def split: option.split)

lemma dh_ok_stop_pending [simp]: "dh_ok K (stop_pending s) = dh_ok K s"
  by (simp add: stop_pending_def split: option.split)

lemma dh_ok_doSendWrite: "dh_ok K s \<Longrightarrow> dh_ok K (doSendWrite d s)"
  by (auto simp: doSendWrite_def Let_def) (simp add: dh_ok_def pending_ok_def split: option.splits)

lemma dh_ok_enableReply: "dh_ok K s \<Longrightarrow> c \<in> K \<Longrightarrow> dh_ok K (snd (enableReplyInReplyMap n c e b a s))"
  by (auto simp: enableReplyInReplyMap_def Let_def split: option.split intro!: dh_ok_put_reply)

lemma dh_ok_doGetWrite: "dh_ok K s \<Longrightarrow> dh_ok K (doGetWrite d s)"
  by (auto simp: doGetWrite_def Let_def case_prod_unfold split: option.split intro!: dh_ok_enableReply
      elim: dh_ok_pending)

lemma dh_ok_doSendRead: "dh_ok K s \<Longrightarrow> dh_ok K (doSendRead d s)"
  by (simp add: doSendRead_def Let_def)

lemma dh_ok_handleReply: "child_ok (dh_ok K) d \<Longrightarrow> dh_ok K s \<Longrightarrow> dh_ok K (handleReply d x i n s)"
  by (auto simp: handleReply_def Let_def case_prod_unfold child_dh_ok split: option.split
      intro!: dh_ok_put_reply elim: dh_ok_reply_command [rotated])

lemma dh_ok_parse_loop: "child_ok (dh_ok K) d \<Longrightarrow> dh_ok K s \<Longrightarrow> dh_ok K (parse_loop d n x r i l s)"
  by (induction n arbitrary: x r i l s) (simp_all add: Let_def case_prod_unfold child_dh_ok dh_ok_handleReply)

lemma dh_ok_doGetRead: "child_ok (dh_ok K) d \<Longrightarrow> dh_ok K s \<Longrightarrow> dh_ok K (doGetRead d s)"
  by (simp add: doGetRead_def parseReply_def Let_def case_prod_unfold dh_ok_parse_loop)

lemma dh_ok_buildInternalCommand: "child_ok (dh_ok K) d \<Longrightarrow> dh_ok K s \<Longrightarrow> dh_ok K (buildInternalCommand d s)"
  by (auto simp: buildInternalCommand_def Let_def case_prod_unfold child_dh_ok split: option.split
      intro!: dh_ok_start elim!: cmd_info_ids [rotated])

lemma dh_ok_performOperation: "child_ok (dh_ok K) d \<Longrightarrow> dh_ok K s \<Longrightarrow> dh_ok K (dh_performOperation d c r s)"
  by (simp add: dh_performOperation_def Let_def child_dh_ok dh_ok_decrementDeviceReplyMap dh_ok_checkSwitchState
      dh_ok_doStateMachine dh_ok_readCommandQueue dh_ok_doSendWrite dh_ok_buildInternalCommand dh_ok_doGetWrite
      dh_ok_doSendRead dh_ok_doGetRead)

section \<open>Replies that do not come\<close>

text \<open>What happens to a command while other replies time out: messages are added, the commander stays.\<close>

definition later :: "u32 \<Rightarrow> DeviceHandler \<Rightarrow> DeviceHandler \<Rightarrow> bool" where
  "later c s t \<longleftrightarrow>
     (\<exists>l. sb_sent t = sb_sent s @ l) \<and> sb_queue t = sb_queue s \<and>
     (\<forall>i. cmd_info s c = Some i \<longrightarrow>
        (\<exists>j. cmd_info t c = Some j \<and> sendReplyTo j = sendReplyTo i \<and> expectedReplies j \<le> expectedReplies i \<and>
          (isExecuting j \<longrightarrow> isExecuting i)))"

lemma later_refl [simp]: "later c s s"
  by (auto simp: later_def)

lemma later_trans: "later c s t \<Longrightarrow> later c t u \<Longrightarrow> later c s u"
  by (fastforce simp: later_def)

lemma later_frame:
  "later c s (triggerEvent e p q s)" "later c s (put_reply k i s)" "later c s (snd (sendMessageFrom st q' m s))"
  by (auto simp: later_def triggerEvent_def put_reply_def sendMessageFrom_def Let_def)

lemma later_missedReply: "later c s (missedReply k s)"
  using later_frame(1) by (auto simp: missedReply_def later_def)

lemma later_replyToReply: "later c s (replyToReply st k i r s)"
proof -
  have "expectedReplies x - 1 \<le> expectedReplies x" if "expectedReplies x > 0" for x
    using that by (simp add: word_le_nat_alt unat_minus_one word_gt_0)
  then show ?thesis
    by (auto simp: replyToReply_def later_def Let_def put_cmd_def ah_finish_def sendMessageFrom_def split: option.split)
qed

lemma later_decrement_entry: "later c s (decrement_entry d k s)"
  by (auto simp: decrement_entry_def Let_def split: option.split prod.split
      intro: later_trans [OF later_trans [OF later_frame(2) later_replyToReply] later_missedReply] later_frame(2))

lemma later_fold: "later c s (fold (decrement_entry d) ks s)"
  by (induction ks arbitrary: s) (auto intro: later_trans later_decrement_entry)

lemma reply_info_replyToReply [simp]: "reply_info (replyToReply st k i r s) = reply_info s"
  by (simp add: replyToReply_def Let_def put_cmd_def frame_fields split: option.split)

lemma reply_info_missedReply [simp]: "reply_info (missedReply k s) = reply_info s"
  by (simp add: missedReply_def frame_fields)

lemma reply_info_put_reply: "reply_info s k = Some i \<Longrightarrow> reply_info (put_reply k j s) = (reply_info s)(k \<mapsto> j)"
  by (rule ext) (auto simp: put_reply_def)

lemma decrement_other: "k' \<noteq> k \<Longrightarrow> reply_info (decrement_entry d k' s) k = reply_info s k"
  by (auto simp: decrement_entry_def Let_def put_reply_def split: option.split prod.split)

lemma decrement_other_fold: "k \<notin> set ks \<Longrightarrow> reply_info (fold (decrement_entry d) ks s) k = reply_info s k"
  by (induction ks arbitrary: s) (auto simp: decrement_other)

text \<open>The reply \<open>k\<close> of the command \<open>c\<close> is awaited for the commander \<open>q\<close>, with \<open>n\<close> cycles left.\<close>

definition awaits :: "u32 \<Rightarrow> u32 \<Rightarrow> queue_id \<Rightarrow> nat \<Rightarrow> DeviceHandler \<Rightarrow> bool" where
  "awaits k c q n s \<longleftrightarrow>
     (case reply_info s k of
        None \<Rightarrow> False
      | Some i \<Rightarrow> unat (delayCycles i) = n \<and> dri_countdown i = None \<and> \<not> periodic i \<and> dri_command i = Some c) \<and>
     (case cmd_info s c of None \<Rightarrow> False | Some j \<Rightarrow> sendReplyTo j = q \<and> expectedReplies j \<le> 1)"

definition timeout_message :: "u32 \<Rightarrow> DeviceHandler \<Rightarrow> CommandMessage" where
  "timeout_message k s = (setCompletionReply k False REPLY_TIMEOUT)\<lparr>cm_sender := sb_queue s\<rparr>"

lemma awaits_later:
  "awaits k c q n s \<Longrightarrow> later c s t \<Longrightarrow> reply_info t k = reply_info s k \<Longrightarrow> awaits k c q n t"
  by (fastforce simp: awaits_def later_def split: option.splits)

lemma decrement_entry_pending:
  assumes a: "awaits k c q (Suc n) s" and n: "0 < n"
  shows "awaits k c q n (decrement_entry d k s)"
proof -
  obtain i where i: "reply_info s k = Some i" "unat (delayCycles i) = Suc n" "dri_countdown i = None"
    "\<not> periodic i" "dri_command i = Some c" using a by (auto simp: awaits_def split: option.splits)
  have u: "unat (delayCycles i - 1) = n" "delayCycles i \<noteq> 0" "delayCycles i \<noteq> 1"
    using i(2) n unat_minus_one [of "delayCycles i"] by (cases "delayCycles i = 0"; auto)+
  then have e: "decrement_entry d k s = put_reply k (i\<lparr>delayCycles := delayCycles i - 1\<rparr>) s"
    using i by (simp add: decrement_entry_def decrement_reply_def)
  show ?thesis using a i u reply_info_put_reply [OF i(1)] unfolding e by (simp add: awaits_def put_reply_def)
qed

lemma decrement_entry_last:
  assumes a: "awaits k c q 1 s" and q: "q \<noteq> NO_COMMANDER" and st: "dv_status d = (\<lambda>_ _. OK)"
  shows "(q, timeout_message k s) \<in> set (sb_sent (decrement_entry d k s)) \<and> \<not> commandIsExecuting c (decrement_entry d k s)"
proof -
  obtain i where i: "reply_info s k = Some i" "unat (delayCycles i) = 1" "dri_countdown i = None"
    "\<not> periodic i" "dri_command i = Some c" using a by (auto simp: awaits_def split: option.splits)
  obtain j where j: "cmd_info s c = Some j" "sendReplyTo j = q" "expectedReplies j \<le> 1"
    using a by (auto simp: awaits_def split: option.splits)
  have u: "delayCycles i = 1" using i(2) by (simp add: word_eq_iff_unsigned [where 'a = nat])
  have x: "expectedReplies j = 0 \<or> expectedReplies j = 1" using j(3) by (auto simp: word_le_nat_alt le_Suc_eq unat_eq_zero) (metis One_nat_def unat_1 unsigned_word_eqI)
  let ?t = "put_reply k (resetDelayCyclesControlledReply (i\<lparr>delayCycles := 0\<rparr>)) s"
  have e: "decrement_entry d k s = missedReply k (replyToReply (\<lambda>_ _. OK) k (resetDelayCyclesControlledReply (i\<lparr>delayCycles := 0\<rparr>)) REPLY_TIMEOUT ?t)"
    using i u st by (simp add: decrement_entry_def decrement_reply_def Let_def)
  show ?thesis using i j q x unfolding e
    by (auto simp: missedReply_def replyToReply_def put_reply_def put_cmd_def ah_finish_def sendMessageFrom_def Let_def
        triggerEvent_def timeout_message_def commandIsExecuting_def)
qed

lemma awaits_keys:
  assumes a: "awaits k c q n s" and ok: "dh_ok K s"
  shows "\<exists>xs ys. map fst (deviceReplyMap s) = xs @ k # ys \<and> k \<notin> set xs \<and> k \<notin> set ys"
proof -
  have "reply_info s k \<noteq> None" using a by (auto simp: awaits_def split: option.splits)
  then have "k \<in> set (map fst (deviceReplyMap s))" by (simp add: map_of_eq_None_iff)
  then obtain xs ys where xy: "map fst (deviceReplyMap s) = xs @ k # ys" by (meson split_list)
  have "distinct (xs @ k # ys)" using ok unfolding dh_ok_def links_ok_def xy [symmetric] by simp
  then show ?thesis using xy by auto
qed

lemma decrement_pending:
  assumes a: "awaits k c q (Suc n) s" "0 < n" and ok: "dh_ok K s"
  shows "awaits k c q n (decrementDeviceReplyMap d s)"
proof -
  obtain xs ys where xy: "map fst (deviceReplyMap s) = xs @ k # ys" and n: "k \<notin> set xs" "k \<notin> set ys"
    using awaits_keys [OF a(1) ok] by blast
  let ?t = "fold (decrement_entry d) xs s"
  have "awaits k c q (Suc n) ?t" using awaits_later [OF a(1) later_fold decrement_other_fold [OF n(1)]] .
  then have "awaits k c q n (decrement_entry d k ?t)" using a(2) by (rule decrement_entry_pending)
  then show ?thesis unfolding decrementDeviceReplyMap_def xy
    by (simp add: awaits_later [OF _ later_fold decrement_other_fold [OF n(2)]])
qed

lemma decrement_last:
  assumes a: "awaits k c q 1 s" and ok: "dh_ok K s" and q: "q \<noteq> NO_COMMANDER" and st: "dv_status d = (\<lambda>_ _. OK)"
  shows "(q, timeout_message k s) \<in> set (sb_sent (decrementDeviceReplyMap d s)) \<and> \<not> commandIsExecuting c (decrementDeviceReplyMap d s)"
proof -
  obtain xs ys where xy: "map fst (deviceReplyMap s) = xs @ k # ys" and n: "k \<notin> set xs"
    using awaits_keys [OF a ok] by blast
  let ?t = "fold (decrement_entry d) xs s" let ?u = "decrement_entry d k ?t"
  have t: "awaits k c q 1 ?t" using awaits_later [OF a later_fold decrement_other_fold [OF n]] .
  have m: "timeout_message k ?t = timeout_message k s" using later_fold [of c s d xs] by (simp add: later_def timeout_message_def)
  have u: "(q, timeout_message k s) \<in> set (sb_sent ?u)" "\<not> commandIsExecuting c ?u"
    using decrement_entry_last [OF t q st] m by auto
  obtain j where j: "cmd_info ?u c = Some j"
    using t later_decrement_entry [of c ?t d k] by (auto simp: awaits_def later_def split: option.splits)
  show ?thesis using u j later_fold [of c ?u d ys] unfolding decrementDeviceReplyMap_def xy
    by (fastforce simp: later_def commandIsExecuting_def split: option.splits)
qed

text \<open>
  C3: A commander learns that its command failed. When the reply of a command is awaited for the commander \<open>q\<close> for
  another \<open>n\<close> cycles, is not periodic and does not come, then after \<open>n\<close> cycles of the reply map the commander has
  been sent a failed completion with the code TIMEOUT, and the command can be executed again.
\<close>

theorem missing_reply_is_reported:
  assumes "dh_ok K s" "awaits k c q (length ds) s" "q \<noteq> NO_COMMANDER" "ds \<noteq> []"
    and "\<forall>d \<in> set ds. dv_status d = (\<lambda>_ _. OK)"
  shows "(q, timeout_message k s) \<in> set (sb_sent (fold decrementDeviceReplyMap ds s)) \<and>
    \<not> commandIsExecuting c (fold decrementDeviceReplyMap ds s)"
  using assms
proof (induction ds arbitrary: s)
  case (Cons d ds)
  show ?case
  proof (cases "ds = []")
    case True
    then show ?thesis using decrement_last [of k c q s K d] Cons.prems by simp
  next
    case False
    have "later c s (decrementDeviceReplyMap d s)" unfolding decrementDeviceReplyMap_def by (rule later_fold)
    then have "timeout_message k (decrementDeviceReplyMap d s) = timeout_message k s" by (simp add: later_def timeout_message_def)
    then show ?thesis
      using Cons.IH [of "decrementDeviceReplyMap d s"] Cons.prems False
        decrement_pending [of k c q "length ds" s K d] dh_ok_decrementDeviceReplyMap [of K s d] by simp
  qed
qed simp

section \<open>The mode machine\<close>

text \<open>The hooks of the child class that \<open>setMode\<close> and the mode off call leave the mode alone.\<close>

definition keeps_mode :: "device \<Rightarrow> bool" where
  "keeps_mode d \<longleftrightarrow> (\<forall>s. sb_mode (dv_modeChanged d s) = sb_mode s \<and> sb_mode (dv_doOffActivity d s) = sb_mode s)"

lemma sb_mode_setMode [simp]:
  "keeps_mode d \<Longrightarrow> sb_mode (dh_setMode d m sm s) = m" "keeps_mode d \<Longrightarrow> sb_mode (dh_setMode1 d m s) = m"
  by (simp_all add: dh_setMode1_def dh_setMode_def Let_def frame_fields setNormalDatapoolEntriesInvalid_def keeps_mode_def)

lemma timeoutStart_setMode [simp]: "timeoutStart (dh_setMode d m sm s) = dv_now d" "timeoutStart (dh_setMode1 d m s) = dv_now d"
  by (simp_all add: dh_setMode1_def dh_setMode_def Let_def)

lemma source_setMode:
  assumes "dv_modeChanged d = id"
  shows "transitionSourceMode (dh_setMode d m sm s) = transitionSourceMode s"
    "transitionSourceMode (dh_setMode1 d m s) = transitionSourceMode s"
  using assms by (simp_all add: dh_setMode1_def dh_setMode_def Let_def frame_fields setNormalDatapoolEntriesInvalid_def)

text \<open>The modes through which a power down goes, and its steps.\<close>

lemma mode_neqs [simp]:
  "T_MODE_POWER_DOWN \<noteq> T_MODE_START_UP" "T_MODE_POWER_DOWN \<noteq> T_MODE_SHUT_DOWN" "T_MODE_POWER_DOWN \<noteq> T_MODE_TO_NORMAL"
  "T_MODE_POWER_DOWN \<noteq> T_MODE_TO_ON" "T_MODE_POWER_DOWN \<noteq> T_MODE_TO_RAW"
  "T_MODE_WAIT_OFF \<noteq> T_MODE_START_UP" "T_MODE_WAIT_OFF \<noteq> T_MODE_SHUT_DOWN" "T_MODE_WAIT_OFF \<noteq> T_MODE_TO_NORMAL"
  "T_MODE_WAIT_OFF \<noteq> T_MODE_TO_ON" "T_MODE_WAIT_OFF \<noteq> T_MODE_TO_RAW" "T_MODE_WAIT_OFF \<noteq> T_MODE_POWER_DOWN"
  "T_MODE_WAIT_OFF \<noteq> T_MODE_POWER_ON" "T_MODE_WAIT_OFF \<noteq> T_MODE_WAIT_ON"
  "T_MODE_SWITCH_IS_OFF \<noteq> T_MODE_START_UP" "T_MODE_SWITCH_IS_OFF \<noteq> T_MODE_SHUT_DOWN" "T_MODE_SWITCH_IS_OFF \<noteq> T_MODE_TO_NORMAL"
  "T_MODE_SWITCH_IS_OFF \<noteq> T_MODE_TO_ON" "T_MODE_SWITCH_IS_OFF \<noteq> T_MODE_TO_RAW" "T_MODE_SWITCH_IS_OFF \<noteq> T_MODE_POWER_DOWN"
  "T_MODE_SWITCH_IS_OFF \<noteq> T_MODE_POWER_ON" "T_MODE_SWITCH_IS_OFF \<noteq> T_MODE_WAIT_ON" "T_MODE_SWITCH_IS_OFF \<noteq> T_MODE_WAIT_OFF"
  by (simp_all add: codes)

lemma stable_modes_neqs:
  "m \<in> {MODE_OFF, MODE_ON, MODE_NORMAL, MODE_RAW, MODE_ERROR_ON} \<Longrightarrow>
   m \<notin> {T_MODE_START_UP, T_MODE_SHUT_DOWN, T_MODE_TO_NORMAL, T_MODE_TO_ON, T_MODE_TO_RAW, T_MODE_POWER_DOWN,
     T_MODE_POWER_ON, T_MODE_WAIT_ON, T_MODE_WAIT_OFF, T_MODE_SWITCH_IS_OFF}"
  by (auto simp: codes)

lemma sm_stable:
  "sb_mode s = MODE_OFF \<Longrightarrow> doStateMachine d s = dv_doOffActivity d s" "sb_mode s = MODE_ERROR_ON \<Longrightarrow> doStateMachine d s = s"
  using stable_modes_neqs [of "sb_mode s"] by (auto simp: doStateMachine_def Let_def codes)

lemma sm_power_down:
  "sb_mode s = T_MODE_POWER_DOWN \<Longrightarrow> doStateMachine d s = dh_setMode1 d T_MODE_WAIT_OFF (commandSwitch d SWITCH_OFF s)"
  by (simp add: doStateMachine_def)

lemma sm_switch_is_off:
  "sb_mode s = T_MODE_SWITCH_IS_OFF \<Longrightarrow> doStateMachine d s = dh_setMode d MODE_OFF SUBMODE_NONE s"
  using stable_modes_neqs [of T_MODE_SWITCH_IS_OFF] by (auto simp: doStateMachine_def)

lemma sm_child:
  "sb_mode s \<in> {T_MODE_START_UP, T_MODE_SHUT_DOWN, T_MODE_TO_NORMAL, T_MODE_TO_ON, T_MODE_TO_RAW} \<Longrightarrow> doStateMachine d s =
     (let t = callChildStatemachine d s in
      if sb_mode t \<noteq> sb_mode s then t
      else if dv_now d - timeoutStart t \<ge> childTransitionDelay t then
        dh_setMode d (transitionSourceMode t) (transitionSourceSubMode t)
          (triggerEvent MODE_TRANSITION_FAILED (rv_param (childTransitionFailure t)) 0 t)
      else t)"
  unfolding doStateMachine_def Let_def by (rule if_P) simp

lemma sm_wait_off:
  "sb_mode s = T_MODE_WAIT_OFF \<Longrightarrow> doStateMachine d s =
     (case dv_powerSwitcher d of
        None \<Rightarrow> dh_setMode1 d MODE_OFF s
      | Some (delay, state) \<Rightarrow>
          if dv_now d - timeoutStart s \<ge> delay then
            dh_setMode1 d MODE_ERROR_ON (triggerEvent MODE_TRANSITION_FAILED (rv_param SWITCH_TIMEOUT) 0 s)
          else if getStateOfSwitches d = SWITCH_OFF \<or> getStateOfSwitches d = NO_SWITCH then dh_setMode1 d T_MODE_SWITCH_IS_OFF s
          else s)"
  by (simp add: doStateMachine_def)

text \<open>What a poll in \<open>_MODE_WAIT_OFF\<close> sees, when the power down began at the time \<open>t\<close>.\<close>

definition switch_delay_over :: "u32 \<Rightarrow> device \<Rightarrow> bool" where
  "switch_delay_over t d \<longleftrightarrow> (case dv_powerSwitcher d of None \<Rightarrow> False | Some (delay, state) \<Rightarrow> dv_now d - t \<ge> delay)"

definition switch_reads_off :: "device \<Rightarrow> bool" where
  "switch_reads_off d \<longleftrightarrow> getStateOfSwitches d = SWITCH_OFF \<or> getStateOfSwitches d = NO_SWITCH"

lemma no_switcher_reads_off: "dv_powerSwitcher d = None \<Longrightarrow> switch_reads_off d"
  by (simp add: switch_reads_off_def getStateOfSwitches_def)

lemma wait_off_poll:
  assumes "sb_mode s = T_MODE_WAIT_OFF" "timeoutStart s = t" "keeps_mode d"
  shows "switch_delay_over t d \<Longrightarrow> sb_mode (doStateMachine d s) = MODE_ERROR_ON"
    and "\<not> switch_delay_over t d \<Longrightarrow> switch_reads_off d \<Longrightarrow> sb_mode (doStateMachine d s) \<in> {T_MODE_SWITCH_IS_OFF, MODE_OFF}"
    and "\<not> switch_delay_over t d \<Longrightarrow> \<not> switch_reads_off d \<Longrightarrow> doStateMachine d s = s"
    and "dv_powerSwitcher d = None \<Longrightarrow> sb_mode (doStateMachine d s) = MODE_OFF"
  using assms no_switcher_reads_off
  by (auto simp: switch_delay_over_def switch_reads_off_def sm_wait_off split: option.splits)

lemma off_polls:
  assumes "list_all keeps_mode ds"
  shows "sb_mode s = MODE_OFF \<Longrightarrow> sb_mode (fold doStateMachine ds s) = MODE_OFF"
    and "sb_mode s = MODE_ERROR_ON \<Longrightarrow> sb_mode (fold doStateMachine ds s) = MODE_ERROR_ON"
    and "sb_mode s = T_MODE_SWITCH_IS_OFF \<Longrightarrow> ds \<noteq> [] \<Longrightarrow> sb_mode (fold doStateMachine ds s) = MODE_OFF"
proof -
  show off: "sb_mode s = MODE_OFF \<Longrightarrow> sb_mode (fold doStateMachine ds s) = MODE_OFF" for s
    using assms by (induction ds arbitrary: s) (auto simp: sm_stable keeps_mode_def)
  show "sb_mode s = MODE_ERROR_ON \<Longrightarrow> sb_mode (fold doStateMachine ds s) = MODE_ERROR_ON"
    using assms by (induction ds arbitrary: s) (auto simp: sm_stable)
  assume s: "sb_mode s = T_MODE_SWITCH_IS_OFF" "ds \<noteq> []"
  then obtain d ds' where ds: "ds = d # ds'" by (cases ds) auto
  have "sb_mode (doStateMachine d s) = MODE_OFF" using s(1) assms by (simp add: ds sm_switch_is_off)
  moreover have "sb_mode (fold doStateMachine ds' u) = MODE_OFF" if "sb_mode u = MODE_OFF" for u
    using assms that unfolding ds by (induction ds' arbitrary: u) (auto simp: sm_stable keeps_mode_def)
  ultimately show "sb_mode (fold doStateMachine ds s) = MODE_OFF" by (simp add: ds)
qed

lemma wait_off_ends:
  assumes "sb_mode s = T_MODE_WAIT_OFF" "timeoutStart s = t" "list_all keeps_mode ds" "keeps_mode d'"
    and "dv_powerSwitcher d' = None \<or> switch_delay_over t d'"
  shows "sb_mode (fold doStateMachine (ds @ [d']) s) =
    (case find (\<lambda>p. switch_delay_over t p \<or> switch_reads_off p) (ds @ [d']) of
       Some p \<Rightarrow> if switch_delay_over t p then MODE_ERROR_ON else MODE_OFF | None \<Rightarrow> T_MODE_WAIT_OFF)"
  using assms(1-3)
proof (induction ds arbitrary: s)
  case Nil
  then show ?case using wait_off_poll [OF Nil(1,2) assms(4)] assms(5) no_switcher_reads_off [of d']
    by (auto simp: switch_delay_over_def split: option.splits)
next
  case (Cons d ds)
  have k: "keeps_mode d" "list_all keeps_mode (ds @ [d'])" using Cons.prems(3) assms(4) by simp_all
  note p = wait_off_poll [OF Cons.prems(1,2) k(1)] and q = off_polls [OF k(2)]
  show ?case
  proof (cases "switch_delay_over t d \<or> switch_reads_off d")
    case True
    then show ?thesis using p q [of "doStateMachine d s"] by (cases "switch_delay_over t d") auto
  next
    case False
    then show ?thesis using p(3) Cons.IH [OF Cons.prems(1,2)] k by simp
  qed
qed

text \<open>
  C5: A power down ends, and how it ends is decided by the first poll at which the delay of the power switcher
  since the power down has run out or the switches read off (or there is no switch to read). At this poll the delay
  is looked at first: if it has run out the handler goes to \<open>MODE_ERROR_ON\<close>, even when the switch has opened in the
  meantime; otherwise it goes to \<open>MODE_OFF\<close>. The last poll comes when the delay has run out, or finds no
  power switcher, so that a deciding poll exists. The delay is compared with the difference of the wrapping 32-bit
  uptimes, and the child's hooks \<open>modeChanged\<close> and \<open>doOffActivity\<close> are assumed to leave the mode alone.
\<close>

theorem power_down_ends:
  assumes "sb_mode s = T_MODE_POWER_DOWN" and "list_all keeps_mode (d # ds @ [d'])"
    and "dv_powerSwitcher d' = None \<or> switch_delay_over (dv_now d) d'"
  shows "\<exists>p. find (\<lambda>p. switch_delay_over (dv_now d) p \<or> switch_reads_off p) (ds @ [d']) = Some p \<and>
    sb_mode (fold doStateMachine (d # ds @ [d']) s) = (if switch_delay_over (dv_now d) p then MODE_ERROR_ON else MODE_OFF)"
proof -
  let ?t = "doStateMachine d s"
  have t: "sb_mode ?t = T_MODE_WAIT_OFF" "timeoutStart ?t = dv_now d" using assms(1,2) by (simp_all add: sm_power_down)
  have "find (\<lambda>p. switch_delay_over (dv_now d) p \<or> switch_reads_off p) (ds @ [d']) \<noteq> None"
    using assms(3) no_switcher_reads_off by (auto simp: find_None_iff)
  then show ?thesis using wait_off_ends [OF t, of ds d'] assms(2,3) by (auto split: option.splits)
qed

text \<open>
  A start up that the child never completes is not powered down: \<open>_MODE_WAIT_ON\<close> makes \<open>_MODE_SHUT_DOWN\<close> the source
  of the transition, so that the timeout of the shut down enters the shut down again. The handler stays in the two
  modes for ever and the device stays powered, where the documentation has it go to \<open>_MODE_POWER_DOWN\<close>.
\<close>

definition passive_child :: "device \<Rightarrow> bool" where
  "passive_child d \<longleftrightarrow> dv_doStartUp d = id \<and> dv_doShutDown d = id \<and> dv_modeChanged d = id \<and> dv_doOffActivity d = id"

lemma passive_child_keeps: "passive_child d \<Longrightarrow> keeps_mode d"
  by (simp add: passive_child_def keeps_mode_def)

lemma failed_start_up_never_powers_down:
  assumes "sb_mode s \<in> {T_MODE_START_UP, T_MODE_SHUT_DOWN}" "transitionSourceMode s = T_MODE_SHUT_DOWN"
    and "list_all passive_child ds"
  shows "sb_mode (fold doStateMachine ds s) \<in> {T_MODE_START_UP, T_MODE_SHUT_DOWN}"
proof -
  have "sb_mode (doStateMachine d s) \<in> {T_MODE_START_UP, T_MODE_SHUT_DOWN} \<and> transitionSourceMode (doStateMachine d s) = T_MODE_SHUT_DOWN"
    if "passive_child d" "sb_mode s \<in> {T_MODE_START_UP, T_MODE_SHUT_DOWN}" "transitionSourceMode s = T_MODE_SHUT_DOWN" for d s
    using that by (elim insertE) (simp_all add: sm_child callChildStatemachine_def passive_child_def Let_def frame_fields source_setMode keeps_mode_def)
  then show ?thesis using assms by (induction ds arbitrary: s) auto
qed

lemma start_up_reaches_the_trap:
  assumes "sb_mode s = T_MODE_WAIT_ON" "dv_powerSwitcher d = None" "passive_child d"
  shows "sb_mode (doStateMachine d s) = T_MODE_START_UP \<and> transitionSourceMode (doStateMachine d s) = T_MODE_SHUT_DOWN"
proof -
  have "T_MODE_WAIT_ON \<notin> {T_MODE_START_UP, T_MODE_SHUT_DOWN, T_MODE_TO_NORMAL, T_MODE_TO_ON, T_MODE_TO_RAW, T_MODE_POWER_DOWN, T_MODE_POWER_ON}"
    by (auto simp: codes)
  then show ?thesis using assms
    by (auto simp: doStateMachine_def getStateOfSwitches_def callChildStatemachine_def passive_child_def keeps_mode_def
        source_setMode Let_def)
qed

section \<open>The device handler as the owner of a mode helper\<close>

lemma mh_record_frame [simp]:
  "mh_record (triggerEvent e p q s) = mh_record s" "mh_record (snd (sendMessageFrom st q' m s)) = mh_record s"
  by (simp_all add: mh_record_def triggerEvent_def sendMessageFrom_def Let_def)

lemma mh_record_modeChanged: "mh_record (mh_modeChanged st m sm s) = (NO_QUEUE, snd (mh_record s))"
  by (simp add: mh_record_def mh_modeChanged_def sendModeInfoMessage_def sendModeReplyMessage_def sendMessageFrom_def Let_def)

text \<open>The record of the command \<open>r\<close> is kept, or a mode has been reported.\<close>

definition mh_kept :: "queue_id \<times> u32 \<times> u8 \<Rightarrow> 'a ModeOwner_scheme \<Rightarrow> bool" where
  "mh_kept r s \<longleftrightarrow> mh_record s = r \<or> mh_record s = (NO_QUEUE, snd r)"

lemma mh_kept_fields [simp]:
  "mh_kept r (s\<lparr>timeoutStart := a1\<rparr>) = mh_kept r s" "mh_kept r (s\<lparr>thermalSet := a2\<rparr>) = mh_kept r s"
  "mh_kept r (s\<lparr>transitionSourceMode := a3\<rparr>) = mh_kept r s" "mh_kept r (s\<lparr>transitionSourceSubMode := a4\<rparr>) = mh_kept r s"
  "mh_kept r (s\<lparr>childTransitionDelay := a5\<rparr>) = mh_kept r s" "mh_kept r (s\<lparr>childTransitionFailure := a6\<rparr>) = mh_kept r s"
  "mh_kept r (setNormalDatapoolEntriesInvalid s) = mh_kept r s"
  by (simp_all add: mh_kept_def mh_record_def setNormalDatapoolEntriesInvalid_def)

lemma mh_kept_frame [simp]:
  "mh_kept r (triggerEvent e p q t) = mh_kept r t" "mh_kept r (snd (sendMessageFrom st q' m t)) = mh_kept r t"
  "mh_kept r (t\<lparr>sb_mode := b1\<rparr>) = mh_kept r t" "mh_kept r (t\<lparr>sb_submode := b2\<rparr>) = mh_kept r t"
  by (simp_all add: mh_kept_def) (simp_all add: mh_record_def)

lemma mh_kept_modeChanged: "mh_kept r s \<Longrightarrow> mh_kept r (mh_modeChanged st m sm s)"
  by (auto simp: mh_kept_def mh_record_modeChanged)

text \<open>The child's hook \<open>modeChanged\<close> could answer the command; here it is the default, which does nothing.\<close>

abbreviation default_hook :: "device \<Rightarrow> device" where "default_hook d \<equiv> d\<lparr>dv_modeChanged := id\<rparr>"

lemma mh_kept_setMode: "mh_kept r s \<Longrightarrow> mh_kept r (dh_setMode (default_hook d) m sm s)"
  by (simp add: dh_setMode_def Let_def mh_kept_modeChanged dh_announceMode_def)

lemma mh_kept_startTransition: "mh_kept r s \<Longrightarrow> mh_kept r (dh_startTransition (default_hook d) m sm s)"
  by (simp add: dh_startTransition_def handleTransitionToOnMode_def setTransition_def Let_def mh_kept_setMode
      replyReturnvalueToCommand_def mq_reply_def)

interpretation device_modes: has_modes dh_checkModeCommand "\<lambda>m sm s. Some (dh_startTransition (default_hook d) m sm s)"
  "dh_setToExternalControl (dv_status (default_hook d))" dh_announceMode for d
proof unfold_locales
  show "mh_record (snd (dh_checkModeCommand m sm s)) = mh_record s" for m sm s
    by (simp add: dh_checkModeCommand_def Let_def split: option.split)
  show "mh_record (dh_setToExternalControl (dv_status (default_hook d)) s) = mh_record s" for s
    by (simp add: dh_setToExternalControl_def hh_setHealth_def informParent_def Let_def) (simp add: mh_record_def triggerEvent_def)
qed (use mh_kept_startTransition [of "mh_record s" s for s] in \<open>auto simp: mh_kept_def\<close>)

lemma device_command_answered_or_recorded:
  assumes "dh_handleModeCommand (default_hook d) m s = Some (OK, s')" "cm_command m = CMD_MODE_COMMAND"
    "fst (dh_checkModeCommand (mm_getMode m) (mm_getSubmode m) s) = OK"
  shows "mh_record s' = (cm_sender m, mm_getMode m, mm_getSubmode m) \<or> mh_record s' = (NO_QUEUE, mm_getMode m, mm_getSubmode m)"
  using device_modes.accepted_command_answered_or_recorded [OF assms(1) [unfolded dh_handleModeCommand_def] assms(2,3)] .

section \<open>Commands to the device\<close>

text \<open>The command \<open>a\<close> is ready to be written, for the commander \<open>q\<close>.\<close>

definition ready :: "u32 \<Rightarrow> queue_id \<Rightarrow> DeviceHandler \<Rightarrow> bool" where
  "ready a q s \<longleftrightarrow> cookieState s = COOKIE_WRITE_READY \<and> pendingCommand s = Some a \<and>
     (case cmd_info s a of None \<Rightarrow> False | Some c \<Rightarrow> sendReplyTo c = q)"

lemma executeAction_ready:
  assumes "fst (executeAction d a q x s) = OK"
    and "\<And>s c. cmd_info s a = Some c \<Longrightarrow> \<exists>c'. cmd_info (snd (dv_buildCommandFromCommand d a x s)) a = Some c' \<and> sendReplyTo c' = sendReplyTo c"
  shows "ready a q (snd (executeAction d a q x s)) \<and> commandIsExecuting a (snd (executeAction d a q x s))"
proof -
  obtain c where c: "cmd_info s a = Some c" "\<not> isExecuting c" "acceptExternalDeviceCommands s = OK"
    using assms(1) by (auto simp: executeAction_def Let_def split: option.splits if_splits)
  let ?b = "dv_buildCommandFromCommand d a x (put_cmd a (c\<lparr>sendReplyTo := q\<rparr>) s)"
  have "cmd_info (put_cmd a (c\<lparr>sendReplyTo := q\<rparr>) s) a = Some (c\<lparr>sendReplyTo := q\<rparr>)" using c by (simp add: put_cmd_def)
  then obtain c' where b: "cmd_info (snd ?b) a = Some c'" "sendReplyTo c' = q" using assms(2) by fastforce
  have "fst ?b = OK" using assms(1) c by (auto simp: executeAction_def case_prod_unfold split: if_splits)
  then have "executeAction d a q x s = (OK, (put_cmd a (c'\<lparr>isExecuting := True\<rparr>) (snd ?b))\<lparr>pendingCommand := Some a, cookieState := COOKIE_WRITE_READY\<rparr>)"
    using c b by (simp add: executeAction_def case_prod_unfold)
  then show ?thesis using b by (simp add: ready_def commandIsExecuting_def put_cmd_def)
qed

text \<open>An action is refused without effect outside of the modes on and normal, when unknown and while it is executing.\<close>

lemma executeAction_refused:
  "sb_mode s \<notin> {MODE_ON, MODE_NORMAL} \<Longrightarrow> executeAction d a q x s = (WRONG_MODE_FOR_COMMAND, s)"
  "sb_mode s \<in> {MODE_ON, MODE_NORMAL} \<Longrightarrow> cmd_info s a = None \<Longrightarrow> executeAction d a q x s = (COMMAND_NOT_SUPPORTED, s)"
  "sb_mode s \<in> {MODE_ON, MODE_NORMAL} \<Longrightarrow> commandIsExecuting a s \<Longrightarrow> executeAction d a q x s = (COMMAND_ALREADY_SENT, s)"
  by (auto simp: executeAction_def acceptExternalDeviceCommands_def commandIsExecuting_def split: option.splits)



abbreviation from_handler :: "DeviceHandler \<Rightarrow> CommandMessage \<Rightarrow> CommandMessage" where
  "from_handler s m \<equiv> m\<lparr>cm_sender := sb_queue s\<rparr>"




lemma replyRawData_queue [simp]: "sb_queue (replyRawData st x q b s) = sb_queue s"
  by (simp add: replyRawData_def Let_def case_prod_unfold triggerEvent_def sendMessageFrom_def)






section \<open>Answers that the documentation does not describe\<close>

text \<open>
  An action that finishes at once is answered twice: with a successful completion and with a failed step 0, both with
  the code \<open>EXECUTION_FINISHED\<close>.
\<close>

lemma finished_action_answered_twice:
  assumes "pool_getData adr (dh_IPCStore s) = (OK, Some x)" "executeAction d a q x s = (EXECUTION_FINISHED, t)"
    and "dv_status d = (\<lambda>_ _. OK)"
  shows "sb_sent (prepareExecution d q a adr s) = sb_sent t @
    [(q, from_handler t (setCompletionReply a True EXECUTION_FINISHED)), (q, from_handler t (setStepReply a 0 EXECUTION_FINISHED))]"
  using assms by (simp add: prepareExecution_def Let_def sendMessageFrom_def)

text \<open>
  A child that answers \<open>IGNORE_REPLY_DATA\<close> is asked again with the same bytes: the found length is not skipped.
\<close>

lemma ignored_reply_not_skipped:
  assumes "dv_scanForReply d = (\<lambda>x i n s. (IGNORE_REPLY_DATA, k, l, s))"
  shows "parseReply d x s = s"
proof -
  have "parse_loop d n x r i m s = s" for n r i m using assms by (induction n arbitrary: r i m) simp_all
  then show ?thesis by (simp add: parseReply_def)
qed

section \<open>Examples\<close>

definition passive_device :: "u32 \<Rightarrow> device" where
  "passive_device now = \<lparr>dv_status = (\<lambda>_ _. OK), dv_now = now, dv_doStartUp = id, dv_doShutDown = id,
     dv_doTransition = (\<lambda>_ _ s. s), dv_getTransitionDelayMs = (\<lambda>_ _. 1000), dv_getSwitches = (OK, [3]),
     dv_powerSwitcher = Some (500, \<lambda>_. SWITCH_ON),
     dv_buildNormalDeviceCommand = (\<lambda>s. (NOTHING_TO_SEND, NO_COMMAND_ID, s)),
     dv_buildTransitionDeviceCommand = (\<lambda>s. (NOTHING_TO_SEND, NO_COMMAND_ID, s)),
     dv_buildCommandFromCommand = (\<lambda>_ _ s. (OK, s)), dv_scanForReply = (\<lambda>x i n s. (IGNORE_FULL_PACKET, i, n, s)),
     dv_interpretDeviceReply = (\<lambda>_ _ s. (OK, s)), dv_letChildHandleMessage = (\<lambda>_ s. (FAILED, s)),
     dv_modeChanged = id, dv_doOffActivity = id, dv_doOnActivity = id, dv_performOperationHook = id, dv_handleParameterMessage = (\<lambda>_ s. (FAILED, s)),
     dv_handleHousekeepingMessage = (\<lambda>_ s. (FAILED, s)), dv_performHkOperation = id, dv_checkForFailures = id,
     com_sendMessage = (\<lambda>_. OK), com_getSendSuccess = OK, com_requestReceiveMessage = (\<lambda>_. OK),
     com_readReceivedMessage = (OK, [])\<rparr>"

lemma passive_device_sel [simp]:
  "dv_status (passive_device n) = (\<lambda>_ _. OK)" "com_sendMessage (passive_device n) = (\<lambda>_. OK)"
  "com_getSendSuccess (passive_device n) = OK"
  by (simp_all add: passive_device_def)

lemma child_ok_passive: "child_ok P (passive_device now)"
  by (simp add: child_ok_def passive_device_def)

text \<open>A handler with the command 5, whose reply has 2 cycles, commanded by the queue 9.\<close>

definition demo_handler :: DeviceHandler where
  "demo_handler =
     snd (insertInCommandAndReplyMap 5 2 None 8 False False 0 None (dh_new 1 77 ht_new (pool_init [] False)))"

definition demo_commanded :: DeviceHandler where
  "demo_commanded = (snd (executeAction (passive_device 0) 5 9 [] (demo_handler\<lparr>sb_mode := MODE_ON\<rparr>)))"

lemma demo_handler_eq:
  "demo_handler =
     \<lparr>sb_objectId = 1, sb_queue = 77, sb_last = NO_QUEUE, sb_sent = [], sb_events = [], sb_healthTable = ht_new,
        hh_parentQueue = NO_QUEUE, mh_theOneWhoCommandedAMode = NO_QUEUE, mh_commandedMode = MODE_OFF,
        mh_commandedSubmode = SUBMODE_NONE, mh_forced = False, mh_parentQueueId = NO_QUEUE, sb_mode = MODE_OFF,
        sb_submode = SUBMODE_NONE, rawPacket = [], wiretappingMode = WIRE_OFF, defaultRawReceiver = NO_QUEUE,
        storedRawData = invalid_address, requestedRawTraffic = NO_QUEUE, dh_IPCStore = pool_init [] False,
        deviceCommandMap =
          [(5, \<lparr>isExecuting = False, expectedReplies = 0, sendReplyTo = NO_COMMANDER, useAlternativeReplyId = False, alternativeReplyId = 0\<rparr>),
           (RAW_COMMAND_ID, \<lparr>isExecuting = False, expectedReplies = 0, sendReplyTo = NO_COMMANDER, useAlternativeReplyId = False, alternativeReplyId = 0\<rparr>)],
        deviceReplyMap = [(5, \<lparr>maxDelayCycles = 2, delayCycles = 0, replyLen = 8, periodic = False,
        dataSet = None, dri_command = None, dri_countdown = None, active = False\<rparr>)],
        thermalSet = None, childTransitionFailure = OK, ignoreMissedRepliesCount = 0,
        switchOffWasReported = False, cookieState = COOKIE_UNUSED, pendingCommand = None, timeoutStart = 0,
        childTransitionDelay = 5000, transitionSourceMode = T_MODE_POWER_DOWN, transitionSourceSubMode = SUBMODE_NONE,
        switchCommands = [], written = []\<rparr>"
  by (simp add: demo_handler_def dh_new_def insertInCommandAndReplyMap_def insertInCommandMap_def insertInReplyMap_def map_insert_def Let_def)

abbreviation demo_ids :: "u32 set" where "demo_ids \<equiv> {5, RAW_COMMAND_ID}"

lemma demo_handler_ok: "dh_ok demo_ids (demo_handler\<lparr>sb_mode := MODE_ON\<rparr>)"
  by (auto simp: demo_handler_eq dh_ok_def pending_ok_def links_ok_def)


lemma demo_commanded_ok: "dh_ok demo_ids demo_commanded"
  unfolding demo_commanded_def by (rule dh_ok_executeAction [OF child_ok_passive demo_handler_ok])

text \<open>
  C2: The iterators that a device handler dereferences stay valid and its mode machine stays in the modes that it
  knows: the steps of the polling sequence, in any order and with any messages and replies, keep the invariant when
  the child class and the helpers do.
\<close>

theorem device_handler_steps_valid:
  assumes "dh_ok K s" "\<forall>(d, counter, received) \<in> set steps. child_ok (dh_ok K) d"
  shows "dh_ok K (fold (\<lambda>(d, counter, received). dh_performOperation d counter received) steps s)"
  using assms by (induction steps arbitrary: s) (auto simp: dh_ok_performOperation)

theorem device_handler_steps_valid_witness:
  "dh_ok demo_ids (fold (\<lambda>(d, counter, received). dh_performOperation d counter received)
     [(passive_device 0, 1, None), (passive_device 0, 2, None), (passive_device 10, 0, None)] demo_commanded)"
  by (rule device_handler_steps_valid [OF demo_commanded_ok]) (simp add: child_ok_passive)


definition demo_awaiting :: DeviceHandler where
  "demo_awaiting = doGetWrite (passive_device 0) (doSendWrite (passive_device 0) demo_commanded)"

lemma demo_awaits: "awaits 5 5 9 2 demo_awaiting"
  by (simp add: demo_awaiting_def demo_commanded_def demo_handler_eq executeAction_def acceptExternalDeviceCommands_def
      passive_device_def put_cmd_def doSendWrite_def doGetWrite_def enableReplyInReplyMap_def put_reply_def Let_def
      dh_replyToCommand_def ah_step_def sendMessageFrom_def awaits_def)

theorem missing_reply_is_reported_witness:
  "(9, timeout_message 5 demo_awaiting) \<in>
     set (sb_sent (fold decrementDeviceReplyMap [passive_device 100, passive_device 200] demo_awaiting))"
proof -
  have "dh_ok demo_ids demo_awaiting"
    unfolding demo_awaiting_def by (intro dh_ok_doGetWrite dh_ok_doSendWrite demo_commanded_ok)
  then show ?thesis
    using missing_reply_is_reported [of demo_ids demo_awaiting 5 5 9 "[passive_device 100, passive_device 200]"] demo_awaits [unfolded numeral_2_eq_2]
    by simp
qed

theorem power_down_ends_witness:
  "sb_mode (fold doStateMachine [passive_device 4294967000, passive_device 4294967100, passive_device 300]
     (demo_handler\<lparr>sb_mode := T_MODE_POWER_DOWN\<rparr>)) = MODE_ERROR_ON \<and>
   sb_mode (fold doStateMachine [passive_device 4294967000, (passive_device 4294967100)\<lparr>dv_powerSwitcher := Some (500, \<lambda>_. SWITCH_OFF)\<rparr>,
     passive_device 300] (demo_handler\<lparr>sb_mode := T_MODE_POWER_DOWN\<rparr>)) = MODE_OFF"
  using power_down_ends [of "demo_handler\<lparr>sb_mode := T_MODE_POWER_DOWN\<rparr>" "passive_device 4294967000"
      "[passive_device 4294967100]" "passive_device 300"]
    power_down_ends [of "demo_handler\<lparr>sb_mode := T_MODE_POWER_DOWN\<rparr>" "passive_device 4294967000"
      "[(passive_device 4294967100)\<lparr>dv_powerSwitcher := Some (500, \<lambda>_. SWITCH_OFF)\<rparr>]" "passive_device 300"]
  by (simp add: passive_device_def keeps_mode_def switch_delay_over_def switch_reads_off_def getStateOfSwitches_def)

end
