(* ===== verification/Commanding.thy ===== *)
theory Commanding
  imports Health_Table Tc_Scheduling Fixed_Maps Fifo
begin

text \<open>
  The base class of the services that relay telecommands to objects of the software bus
  (\<open>src/src/fsfw/tmtcservices/CommandingServiceBase.cpp\<close>): one active telecommand per target queue in a fixed map,
  a FIFO of telecommands that wait for the same target, and a verification report for every step.

  A record \<open>methods\<close> holds the virtual operations of the child class, with the status of sends, the uptime and the
  contents of memory that is not initialized. The state of the child, the store of the messages included, is the field
  \<open>cs_child\<close>. An iterator of the map is an index into its array.
\<close>

section \<open>Reports\<close>

text \<open>The parameters of a report, which are also the contents of the message that carries it.\<close>

record VerifParams =
  vp_reportId :: u8
  vp_tcPacketId :: u16
  vp_tcPsc :: u16
  vp_ackFlags :: u8
  vp_step :: u8
  vp_errorCode :: retval
  vp_errorParam1 :: u32
  vp_errorParam2 :: u32

abbreviation RID_START_SUCCESS :: u8 where "RID_START_SUCCESS \<equiv> 3"
abbreviation RID_START_FAILURE :: u8 where "RID_START_FAILURE \<equiv> 4"
abbreviation RID_PROGRESS_SUCCESS :: u8 where "RID_PROGRESS_SUCCESS \<equiv> 5"
abbreviation RID_PROGRESS_FAILURE :: u8 where "RID_PROGRESS_FAILURE \<equiv> 6"
abbreviation RID_COMPLETION_SUCCESS :: u8 where "RID_COMPLETION_SUCCESS \<equiv> 7"
abbreviation RID_COMPLETION_FAILURE :: u8 where "RID_COMPLETION_FAILURE \<equiv> 8"

definition VerifSuccessParams :: "u8 \<Rightarrow> tc_reader \<Rightarrow> VerifParams" where
  "VerifSuccessParams reportId rd =
     \<lparr>vp_reportId = reportId, vp_tcPacketId = spr_getPacketIdRaw (tcr_sp rd), vp_tcPsc = spr_getPacketSeqCtrlRaw (tcr_sp rd),
      vp_ackFlags = ACK_ALL, vp_step = 0, vp_errorCode = OK, vp_errorParam1 = 0, vp_errorParam2 = 0\<rparr>"

definition VerifFailureParams :: "u8 \<Rightarrow> tc_reader \<Rightarrow> retval \<Rightarrow> VerifParams" where
  "VerifFailureParams reportId rd errorCode = (VerifSuccessParams reportId rd)\<lparr>vp_errorCode := errorCode\<rparr>"

definition resetTcFields :: "VerifParams \<Rightarrow> VerifParams" where
  "resetTcFields p = p\<lparr>vp_tcPacketId := 0, vp_tcPsc := 0, vp_ackFlags := 0\<rparr>"

definition resetFailParams :: "VerifParams \<Rightarrow> VerifParams" where
  "resetFailParams p = p\<lparr>vp_errorCode := FAILED, vp_errorParam1 := 0, vp_errorParam2 := 0\<rparr>"

section \<open>State\<close>

record TcInfo =
  ti_ackFlags :: u8
  ti_tcPacketId :: u16
  ti_tcSequenceControl :: u16

record CommandInfo =
  ci_tcInfo :: TcInfo
  ci_uptimeOfStart :: u32
  ci_step :: u8
  ci_subservice :: u8
  ci_state :: u32
  ci_command :: u16
  ci_objectId :: u32
  ci_fifo :: "store_address fifo"

record 'c csb =
  cs_commandQueue :: queue_id
  cs_timeoutSeconds :: u16
  cs_tcReader :: tc_reader
  cs_tcStore :: pool
  cs_commandMap :: "(queue_id, CommandInfo) fixed_map"
  cs_failureParameter1 :: u32
  cs_failureParameter2 :: u32
  cs_failParams :: VerifParams
  cs_successParams :: VerifParams
  cs_sent :: "(queue_id \<times> CommandMessage) list"
  cs_reports :: "VerifParams list"
  cs_child :: 'c

text \<open>
  \<open>m_prepareCommand\<close> returns the message, \<open>m_handleReply\<close> the next command, the step flag and the failure
  parameters; both return the state of the communication. \<open>m_clear\<close> frees what a message holds in the store.
\<close>

record 'c methods =
  m_isValidSubservice :: "u8 \<Rightarrow> retval"
  m_getMessageQueueAndObject :: "u8 \<Rightarrow> bytes \<Rightarrow> retval \<times> queue_id \<times> u32"
  m_prepareCommand :: "u8 \<Rightarrow> bytes \<Rightarrow> u32 \<Rightarrow> u32 \<Rightarrow> 'c \<Rightarrow> retval \<times> CommandMessage \<times> u32 \<times> 'c"
  m_handleReply :: "CommandMessage \<Rightarrow> u16 \<Rightarrow> u32 \<Rightarrow> u32 \<Rightarrow> u32 \<times> u32 \<Rightarrow> 'c \<Rightarrow>
    retval \<times> u32 \<times> CommandMessage \<times> bool \<times> (u32 \<times> u32) \<times> 'c"
  m_handleUnrequestedReply :: "CommandMessage \<Rightarrow> 'c \<Rightarrow> 'c"
  m_doPeriodicOperation :: "'c \<Rightarrow> 'c"
  m_clear :: "CommandMessage \<Rightarrow> 'c \<Rightarrow> 'c"
  m_status :: "queue_id \<Rightarrow> (queue_id \<times> CommandMessage) list \<Rightarrow> retval"
  m_now :: u32
  m_uninitialized :: CommandInfo

abbreviation EXECUTION_COMPLETE :: retval where "EXECUTION_COMPLETE \<equiv> RC 32 1"
abbreviation NO_STEP_MESSAGE :: retval where "NO_STEP_MESSAGE \<equiv> RC 32 2"
abbreviation OBJECT_BUSY :: retval where "OBJECT_BUSY \<equiv> RC 32 3"
abbreviation CSB_BUSY :: retval where "CSB_BUSY \<equiv> RC 32 4"
abbreviation INVALID_TC :: retval where "INVALID_TC \<equiv> RC 32 5"
abbreviation INVALID_REPLY :: retval where "INVALID_REPLY \<equiv> RC 32 7"
abbreviation CSB_TIMEOUT :: retval where "CSB_TIMEOUT \<equiv> RC 29 5"

abbreviation (input) COMMAND_INFO_FIFO_DEPTH :: nat where "COMMAND_INFO_FIFO_DEPTH \<equiv> 6"

definition rv_of_code :: "u16 \<Rightarrow> retval" where
  "rv_of_code c = (if c = 0 then OK else if c = 1 then FAILED else RC (unat (drop_bit 8 c)) (unat (c AND 0xff)))"

definition getReplyRejectedReason :: "CommandMessage \<Rightarrow> retval" where
  "getReplyRejectedReason m = rv_of_code (ucast (cm_parameter m))"

text \<open>The entry at an iterator and its update.\<close>

abbreviation info :: "nat \<Rightarrow> 'c csb \<Rightarrow> CommandInfo" where
  "info i s \<equiv> snd (fm_map (cs_commandMap s) ! i)"

definition upd :: "nat \<Rightarrow> (CommandInfo \<Rightarrow> CommandInfo) \<Rightarrow> 'c csb \<Rightarrow> 'c csb" where
  "upd i f s = s\<lparr>cs_commandMap := (cs_commandMap s)\<lparr>fm_map :=
     (fm_map (cs_commandMap s))[i := apsnd f (fm_map (cs_commandMap s) ! i)]\<rparr>\<rparr>"

section \<open>Reporting\<close>

definition report :: "VerifParams \<Rightarrow> 'c csb \<Rightarrow> 'c csb" where
  "report p s = s\<lparr>cs_reports := cs_reports s @ [p]\<rparr>"

definition deleteTc :: "store_address \<Rightarrow> 'c csb \<Rightarrow> 'c csb" where
  "deleteTc a s = s\<lparr>cs_tcStore := snd (pool_deleteData a (cs_tcStore s))\<rparr>"

definition prepareVerificationFailureWithNoTcInfo :: "u8 \<Rightarrow> retval \<Rightarrow> bool \<Rightarrow> 'c csb \<Rightarrow> 'c csb" where
  "prepareVerificationFailureWithNoTcInfo reportId errorCode setCached s =
     (let p = (resetFailParams (resetTcFields (cs_failParams s)))\<lparr>vp_reportId := reportId, vp_errorCode := errorCode\<rparr> in
      s\<lparr>cs_failParams := (if setCached
          then p\<lparr>vp_errorParam1 := cs_failureParameter1 s, vp_errorParam2 := cs_failureParameter2 s\<rparr> else p)\<rparr>)"

definition prepareVerificationFailureWithFullInfo :: "u8 \<Rightarrow> TcInfo \<Rightarrow> retval \<Rightarrow> bool \<Rightarrow> 'c csb \<Rightarrow> 'c csb" where
  "prepareVerificationFailureWithFullInfo reportId tcInfo errorCode setCached s =
     (let p = (resetFailParams ((cs_failParams s)\<lparr>vp_reportId := reportId, vp_tcPacketId := ti_tcPacketId tcInfo,
            vp_tcPsc := ti_tcSequenceControl tcInfo, vp_ackFlags := ti_ackFlags tcInfo\<rparr>))\<lparr>vp_errorCode := errorCode\<rparr> in
      s\<lparr>cs_failParams := (if setCached
          then p\<lparr>vp_errorParam1 := cs_failureParameter1 s, vp_errorParam2 := cs_failureParameter2 s\<rparr> else p)\<rparr>)"

definition prepareVerificationSuccessWithFullInfo :: "u8 \<Rightarrow> TcInfo \<Rightarrow> 'c csb \<Rightarrow> 'c csb" where
  "prepareVerificationSuccessWithFullInfo reportId tcInfo s =
     s\<lparr>cs_successParams := (cs_successParams s)\<lparr>vp_reportId := reportId, vp_tcPacketId := ti_tcPacketId tcInfo,
         vp_tcPsc := ti_tcSequenceControl tcInfo, vp_ackFlags := ti_ackFlags tcInfo\<rparr>\<rparr>"

definition rejectPacketInvalidTc :: "retval \<Rightarrow> store_address \<Rightarrow> 'c csb \<Rightarrow> 'c csb" where
  "rejectPacketInvalidTc errorCode tcStoreId s =
     (let s = prepareVerificationFailureWithNoTcInfo RID_START_FAILURE errorCode True
                (s\<lparr>cs_failureParameter1 := ucast (rv_code INVALID_TC)\<rparr>);
          s = (if tcStoreId \<noteq> invalid_address then deleteTc tcStoreId s else s)
      in report (cs_failParams s) s)"

definition rejectPacket :: "u8 \<Rightarrow> store_address \<Rightarrow> retval \<Rightarrow> 'c csb \<Rightarrow> 'c csb" where
  "rejectPacket reportId tcStoreId errorCode s =
     deleteTc tcStoreId (report (VerifFailureParams reportId (cs_tcReader s) errorCode) s)"

definition acceptPacket :: "u8 \<Rightarrow> store_address \<Rightarrow> 'c csb \<Rightarrow> 'c csb" where
  "acceptPacket reportId tcStoreId s = deleteTc tcStoreId (report (VerifSuccessParams reportId (cs_tcReader s)) s)"

definition setUpTcReader :: "store_address \<Rightarrow> 'c csb \<Rightarrow> retval \<times> 'c csb" where
  "setUpTcReader storeId s =
     (case prepareTcReader (cs_tcStore s) storeId (cs_tcReader s) of (result, rd) \<Rightarrow> (result, s\<lparr>cs_tcReader := rd\<rparr>))"

definition cs_send :: "'c methods \<Rightarrow> queue_id \<Rightarrow> CommandMessage \<Rightarrow> 'c csb \<Rightarrow> retval \<times> 'c csb" where
  "cs_send v dest message s =
     (let result = m_status v dest (cs_sent s) in
      (result, if result = OK then s\<lparr>cs_sent := cs_sent s @ [(dest, message\<lparr>cm_sender := cs_commandQueue s\<rparr>)]\<rparr> else s))"

definition cs_clear :: "'c methods \<Rightarrow> CommandMessage \<Rightarrow> 'c csb \<Rightarrow> 'c csb" where
  "cs_clear v message s = s\<lparr>cs_child := m_clear v message (cs_child s)\<rparr>"

section \<open>Execution of telecommands\<close>

text \<open>
  \<open>startExecution\<close> up to its call of \<open>checkAndExecuteFifo\<close>: whether it is called, and the state.
\<close>

definition start_step :: "'c methods \<Rightarrow> store_address \<Rightarrow> nat \<Rightarrow> 'c csb \<Rightarrow> bool \<times> 'c csb" where
  "start_step v storeId i s =
     (let rd = cs_tcReader s; sub = tcr_getSubService rd;
          s = upd i (\<lambda>c. c\<lparr>ci_subservice := sub\<rparr>) s;
          (result, command, state, child) =
            m_prepareCommand v sub (tcr_userData rd) (ci_state (info i s)) (ci_objectId (info i s)) (cs_child s);
          s = (upd i (\<lambda>c. c\<lparr>ci_state := state\<rparr>) s)\<lparr>cs_child := child\<rparr>;
          reject = (\<lambda>code s. (True, rejectPacket RID_START_FAILURE storeId code s))
      in if result = OK \<or> result = EXECUTION_COMPLETE then
           (let (sendResult, s) =
              (if cm_command command \<noteq> CMD_NONE then cs_send v (fst (fm_map (cs_commandMap s) ! i)) command s else (OK, s))
            in if sendResult \<noteq> OK then reject sendResult (cs_clear v command s)
               else if result = OK then
                 (False, acceptPacket RID_START_SUCCESS storeId
                    (upd i (\<lambda>c. c\<lparr>ci_uptimeOfStart := m_now v, ci_step := 0, ci_subservice := sub, ci_command := cm_command command,
                       ci_tcInfo := \<lparr>ti_ackFlags = tcr_getAcknowledgeFlags rd, ti_tcPacketId = spr_getPacketIdRaw (tcr_sp rd),
                         ti_tcSequenceControl = spr_getPacketSeqCtrlRaw (tcr_sp rd)\<rparr>\<rparr>) s))
               else
                 (True, acceptPacket RID_COMPLETION_SUCCESS storeId (report (VerifSuccessParams RID_START_SUCCESS (cs_tcReader s)) s)))
         else reject result s)"

text \<open>
  \<open>checkAndExecuteFifo\<close>; \<open>q\<close> is the FIFO of the entry. The iterator after the call is returned; the erasure decrements it.
\<close>

function (sequential) check_fifo :: "'c methods \<Rightarrow> nat \<Rightarrow> store_address fifo \<Rightarrow> 'c csb \<Rightarrow> int \<times> 'c csb" where
  "check_fifo v i q s =
     (case fifo_retrieve False q of (result, address, q') \<Rightarrow>
        if result \<noteq> OK then
          (case fm_erase_iter i (cs_commandMap s) of (r, iter, m) \<Rightarrow> (iter, s\<lparr>cs_commandMap := m\<rparr>))
        else
          (let s = upd i (\<lambda>c. c\<lparr>ci_fifo := q'\<rparr>) s; address = the address in
           case setUpTcReader address s of (result, s) \<Rightarrow>
             if result = OK then
               (case start_step v address i s of (again, s) \<Rightarrow> if again then check_fifo v i q' s else (int i, s))
             else (int i, rejectPacket RID_START_FAILURE address result s)))"
  by pat_completeness auto
termination
  by (relation "measure (\<lambda>(v, i, q, s). currentSize q)") (auto simp: fifo_retrieve_def fifo_empty_def split: if_splits)

definition checkAndExecuteFifo :: "'c methods \<Rightarrow> nat \<Rightarrow> 'c csb \<Rightarrow> int \<times> 'c csb" where
  "checkAndExecuteFifo v i s = check_fifo v i (ci_fifo (info i s)) s"

definition startExecution :: "'c methods \<Rightarrow> store_address \<Rightarrow> nat \<Rightarrow> 'c csb \<Rightarrow> int \<times> 'c csb" where
  "startExecution v storeId i s =
     (case start_step v storeId i s of (again, s) \<Rightarrow> if again then checkAndExecuteFifo v i s else (int i, s))"

section \<open>Requests\<close>

definition handle_request :: "'c methods \<Rightarrow> store_address \<Rightarrow> 'c csb \<Rightarrow> 'c csb" where
  "handle_request v address s =
     (case setUpTcReader address s of (result, s) \<Rightarrow>
        if result \<noteq> OK then rejectPacketInvalidTc result address s
        else
          (let sub = tcr_getSubService (cs_tcReader s) in
           if sub = 0 \<or> m_isValidSubservice v sub \<noteq> OK then rejectPacket RID_START_FAILURE address INVALID_SUBSERVICE s
           else
             (case m_getMessageQueueAndObject v sub (tcr_userData (cs_tcReader s)) of (result, queue, objectId) \<Rightarrow>
                if result \<noteq> OK then rejectPacket RID_START_FAILURE address result s
                else
                  (let i = fm_findIndex queue (cs_commandMap s) in
                   if fm_exists queue (cs_commandMap s) = OK then
                     (case fifo_insert address (ci_fifo (info i s)) of (result, q) \<Rightarrow>
                        if result \<noteq> OK then rejectPacket RID_START_FAILURE address OBJECT_BUSY s
                        else upd i (\<lambda>c. c\<lparr>ci_fifo := q\<rparr>) s)
                   else
                     (case fm_insert queue ((m_uninitialized v)\<lparr>ci_objectId := objectId,
                              ci_fifo := fifo_init (replicate COMMAND_INFO_FIFO_DEPTH invalid_address)\<rparr>) (cs_commandMap s) of (result, m) \<Rightarrow>
                        if result \<noteq> OK then rejectPacket RID_START_FAILURE address CSB_BUSY s
                        else snd (startExecution v address (fm_size (cs_commandMap s)) (s\<lparr>cs_commandMap := m\<rparr>)))))))"

text \<open>The requests that the queue holds.\<close>

definition handleRequests :: "'c methods \<Rightarrow> store_address list \<Rightarrow> 'c csb \<Rightarrow> 'c csb" where
  "handleRequests v requests s = fold (handle_request v) requests s"

section \<open>Replies\<close>

definition handleReplyHandlerResult ::
  "'c methods \<Rightarrow> retval \<Rightarrow> nat \<Rightarrow> CommandMessage \<Rightarrow> CommandMessage \<Rightarrow> bool \<Rightarrow> 'c csb \<Rightarrow> 'c csb" where
  "handleReplyHandlerResult v result i nextCommand reply isStep s =
     (let s = upd i (\<lambda>c. c\<lparr>ci_command := cm_command nextCommand\<rparr>) s;
          (sendResult, s) = (if cm_command nextCommand \<noteq> CMD_NONE then cs_send v (cm_sender reply) nextCommand s else (OK, s))
      in if sendResult = OK then
           if isStep \<and> result \<noteq> NO_STEP_MESSAGE then
             (let s = prepareVerificationSuccessWithFullInfo RID_PROGRESS_SUCCESS (ci_tcInfo (info i s)) s;
                  s = upd i (\<lambda>c. c\<lparr>ci_step := ci_step c + 1\<rparr>) s;
                  s = s\<lparr>cs_successParams := (cs_successParams s)\<lparr>vp_step := ci_step (info i s)\<rparr>\<rparr>
              in report (cs_successParams s) s)
           else
             (let s = prepareVerificationSuccessWithFullInfo RID_COMPLETION_SUCCESS (ci_tcInfo (info i s)) s;
                  s = report (cs_successParams s) s
              in snd (checkAndExecuteFifo v i s))
         else
           (let s = (if isStep then
                  (let s = prepareVerificationFailureWithFullInfo RID_PROGRESS_FAILURE (ci_tcInfo (info i s)) result True s;
                       s = upd i (\<lambda>c. c\<lparr>ci_step := ci_step c + 1\<rparr>) s
                   in s\<lparr>cs_failParams := (cs_failParams s)\<lparr>vp_step := ci_step (info i s)\<rparr>\<rparr>)
                else prepareVerificationFailureWithFullInfo RID_COMPLETION_FAILURE (ci_tcInfo (info i s)) result True s);
                s = cs_clear v nextCommand s;
                s = report (cs_failParams s) s
            in snd (checkAndExecuteFifo v i (s\<lparr>cs_failureParameter1 := 0, cs_failureParameter2 := 0\<rparr>))))"

definition cs_handleUnrequestedReply :: "'c methods \<Rightarrow> CommandMessage \<Rightarrow> 'c csb \<Rightarrow> 'c csb" where
  "cs_handleUnrequestedReply v reply s = s\<lparr>cs_child := m_handleUnrequestedReply v reply (cs_child s)\<rparr>"

definition cs_handleCommandMessage :: "'c methods \<Rightarrow> CommandMessage \<Rightarrow> 'c csb \<Rightarrow> 'c csb" where
  "cs_handleCommandMessage v reply s =
     (let i = fm_findIndex (cm_sender reply) (cs_commandMap s) in
      if cm_sender reply = NO_QUEUE \<or> fm_exists (cm_sender reply) (cs_commandMap s) \<noteq> OK
      then cs_handleUnrequestedReply v reply s
      else
        (case m_handleReply v reply (ci_command (info i s)) (ci_state (info i s)) (ci_objectId (info i s))
                (cs_failureParameter1 s, cs_failureParameter2 s) (cs_child s) of
           (result, state, nextCommand, isStep, (p1, p2), child) \<Rightarrow>
             (let s = (upd i (\<lambda>c. c\<lparr>ci_state := state\<rparr>) s)
                        \<lparr>cs_failureParameter1 := p1, cs_failureParameter2 := p2, cs_child := child\<rparr>;
                  (result, s) =
                    (if cm_command reply = REPLY_REJECTED \<and> (result = FAILED \<or> result = INVALID_REPLY)
                     then (getReplyRejectedReason reply, s\<lparr>cs_failureParameter1 := ucast (ci_command (info i s))\<rparr>)
                     else (result, s))
              in if result = EXECUTION_COMPLETE \<or> result = OK \<or> result = NO_STEP_MESSAGE
                 then handleReplyHandlerResult v result i nextCommand reply isStep s
                 else if result = INVALID_REPLY then cs_handleUnrequestedReply v reply s
                 else
                   (let s = (if isStep then
                          (let s = prepareVerificationFailureWithFullInfo RID_PROGRESS_FAILURE (ci_tcInfo (info i s)) result True s;
                               s = upd i (\<lambda>c. c\<lparr>ci_step := ci_step c + 1\<rparr>) s
                           in s\<lparr>cs_failParams := (cs_failParams s)\<lparr>vp_step := ci_step (info i s)\<rparr>\<rparr>)
                        else prepareVerificationFailureWithFullInfo RID_COMPLETION_FAILURE (ci_tcInfo (info i s)) result True s);
                        s = report (cs_failParams s) s
                    in snd (checkAndExecuteFifo v i (s\<lparr>cs_failureParameter1 := 0, cs_failureParameter2 := 0\<rparr>))))))"

definition handleCommandQueue :: "'c methods \<Rightarrow> CommandMessage list \<Rightarrow> 'c csb \<Rightarrow> 'c csb" where
  "handleCommandQueue v replies s = fold (cs_handleCommandMessage v) replies s"

section \<open>Timeouts and the cycle\<close>

definition cs_expired :: "u32 \<Rightarrow> u16 \<Rightarrow> CommandInfo \<Rightarrow> bool" where
  "cs_expired uptime timeoutSeconds c \<longleftrightarrow> ci_uptimeOfStart c + ucast timeoutSeconds * 1000 < uptime"

text \<open>The loop of \<open>checkTimeout\<close> from index \<open>i\<close> on, with at most \<open>n\<close> iterations.\<close>

fun timeout_loop :: "'c methods \<Rightarrow> nat \<Rightarrow> nat \<Rightarrow> 'c csb \<Rightarrow> 'c csb option" where
  "timeout_loop v n i s =
     (if i = fm_size (cs_commandMap s) then Some s
      else
        (case n of
           0 \<Rightarrow> None
         | Suc n \<Rightarrow>
             if cs_expired (m_now v) (cs_timeoutSeconds s) (info i s) then
               (let s = prepareVerificationFailureWithFullInfo RID_COMPLETION_FAILURE (ci_tcInfo (info i s)) CSB_TIMEOUT False s;
                    s = report (cs_failParams s) s
                in case checkAndExecuteFifo v i s of (iter, s) \<Rightarrow> timeout_loop v n (nat (iter + 1)) s)
             else timeout_loop v n (Suc i) s))"

declare timeout_loop.simps [simp del]

text \<open>Every iteration advances or removes an entry: as many iterations as there are entries are enough.\<close>

definition checkTimeout :: "'c methods \<Rightarrow> 'c csb \<Rightarrow> 'c csb option" where
  "checkTimeout v s = timeout_loop v (fm_size (cs_commandMap s)) 0 s"

definition cs_performOperation :: "'c methods \<Rightarrow> CommandMessage list \<Rightarrow> store_address list \<Rightarrow> 'c csb \<Rightarrow> 'c csb option" where
  "cs_performOperation v replies requests s =
     map_option (\<lambda>s. s\<lparr>cs_child := m_doPeriodicOperation v (cs_child s)\<rparr>)
       (checkTimeout v (handleRequests v requests (handleCommandQueue v replies s)))"

definition cs_new :: "queue_id \<Rightarrow> u16 \<Rightarrow> (queue_id \<times> CommandInfo) list \<Rightarrow> pool \<Rightarrow> 'c \<Rightarrow> 'c csb" where
  "cs_new queue timeout slots store child =
     (let p = \<lparr>vp_reportId = 0, vp_tcPacketId = 0, vp_tcPsc = 0, vp_ackFlags = ACK_ALL, vp_step = 0, vp_errorCode = OK,
                vp_errorParam1 = 0, vp_errorParam2 = 0\<rparr> in
      \<lparr>cs_commandQueue = queue, cs_timeoutSeconds = timeout, cs_tcReader = tcr_new, cs_tcStore = store,
       cs_commandMap = \<lparr>fm_map = slots, fm_size = 0\<rparr>, cs_failureParameter1 = 0, cs_failureParameter2 = 0,
       cs_failParams = p\<lparr>vp_errorCode := FAILED\<rparr>, cs_successParams = p, cs_sent = [], cs_reports = [], cs_child = child\<rparr>)"

section \<open>The map of active commands\<close>

abbreviation entries :: "'c csb \<Rightarrow> (queue_id \<times> CommandInfo) list" where
  "entries s \<equiv> fm_entries (cs_commandMap s)"

abbreviation n_active :: "'c csb \<Rightarrow> nat" where
  "n_active s \<equiv> fm_size (cs_commandMap s)"

definition fifo_ok :: "CommandInfo \<Rightarrow> bool" where
  "fifo_ok c \<longleftrightarrow> fifo_inv (ci_fifo c) \<and> maxCapacity (ci_fifo c) = COMMAND_INFO_FIFO_DEPTH"

definition cs_ok :: "'c csb \<Rightarrow> bool" where
  "cs_ok s \<longleftrightarrow> fm_inv (cs_commandMap s) \<and> list_all (\<lambda>e. fifo_ok (snd e)) (entries s)"

text \<open>The telecommands that wait, and the reports that start or refuse one.\<close>

definition waiting :: "'c csb \<Rightarrow> nat" where
  "waiting s = sum_list (map (\<lambda>e. currentSize (ci_fifo (snd e))) (entries s))"

definition is_start :: "VerifParams \<Rightarrow> bool" where
  "is_start p \<longleftrightarrow> vp_reportId p = RID_START_SUCCESS \<or> vp_reportId p = RID_START_FAILURE"

definition starts :: "'c csb \<Rightarrow> nat" where
  "starts s = length (filter is_start (cs_reports s))"

lemma cs_ok_map: "cs_commandMap s = cs_commandMap t \<Longrightarrow> cs_ok s = cs_ok t" "cs_commandMap s = cs_commandMap t \<Longrightarrow> waiting s = waiting t"
  by (simp_all add: cs_ok_def waiting_def)

lemma entries_nth: "i < n_active s \<Longrightarrow> fm_inv (cs_commandMap s) \<Longrightarrow> fm_map (cs_commandMap s) ! i = entries s ! i"
  by (simp add: fm_entries_nth)

lemma upd_map [simp]:
  "fm_size (cs_commandMap (upd i f s)) = n_active s"
  "cs_reports (upd i f s) = cs_reports s"
  "cs_tcReader (upd i f s) = cs_tcReader s" "cs_tcStore (upd i f s) = cs_tcStore s"
  by (simp_all add: upd_def)

lemma upd_entries:
  assumes "i < n_active s" "fm_inv (cs_commandMap s)"
  shows "entries (upd i f s) = (entries s)[i := apsnd f (entries s ! i)]"
  using assms by (simp add: upd_def fm_entries_def take_update_swap)

lemma upd_fm_inv: "i < n_active s \<Longrightarrow> fm_inv (cs_commandMap s) \<Longrightarrow> fm_inv (cs_commandMap (upd i f s))"
  using upd_entries [of i s f] unfolding fm_inv_def
  by (simp add: map_update list_update_id upd_def) (metis fst_apsnd length_map list_update_id map_update nth_map)

lemma sum_list_map_update:
  fixes f :: "'a \<Rightarrow> nat"
  shows "i < length xs \<Longrightarrow> sum_list (map f (xs[i := x])) + f (xs ! i) = sum_list (map f xs) + f x"
  by (induction xs arbitrary: i) (auto split: nat.splits)

lemma upd_waiting:
  assumes "i < n_active s" "fm_inv (cs_commandMap s)"
  shows "waiting (upd i f s) + currentSize (ci_fifo (info i s)) = waiting s + currentSize (ci_fifo (f (info i s)))"
  using sum_list_map_update [of i "entries s" "\<lambda>e. currentSize (ci_fifo (snd e))" "apsnd f (entries s ! i)"] assms
  by (simp add: waiting_def upd_entries entries_nth)

lemma upd_info: "i < n_active s \<Longrightarrow> fm_inv (cs_commandMap s) \<Longrightarrow> info i (upd i f s) = f (info i s)"
  by (simp add: upd_def fm_inv_def)

lemma upd_cs_ok:
  assumes "i < n_active s" "cs_ok s" "fifo_ok (info i s) \<Longrightarrow> fifo_ok (f (info i s))"
  shows "cs_ok (upd i f s)"
proof -
  have inv: "fm_inv (cs_commandMap s)" using assms by (simp add: cs_ok_def)
  have l: "length (entries s) = n_active s" using inv by simp
  have "fifo_ok (info i s)" using assms inv l by (auto simp: cs_ok_def entries_nth list_all_length)
  then show ?thesis using assms inv l
    by (auto simp: cs_ok_def upd_fm_inv upd_entries list_all_length nth_list_update entries_nth)
qed

text \<open>The erasure through an iterator removes the entry at it.\<close>

lemma erase_iter:
  assumes "fm_inv m" "i < fm_size m"
  shows "fm_erase_iter i m = (OK, int i - 1, snd (fm_erase (fst (fm_map m ! i)) m))"
    and "map_of (fm_entries m) (fst (fm_map m ! i)) = Some (snd (fm_map m ! i))"
proof -
  have e: "fm_map m ! i = fm_entries m ! i" using assms by (simp add: fm_entries_nth)
  show m: "map_of (fm_entries m) (fst (fm_map m ! i)) = Some (snd (fm_map m ! i))"
    using assms unfolding e by (intro map_of_is_SomeI) (auto simp: fm_inv_def)
  show "fm_erase_iter i m = (OK, int i - 1, snd (fm_erase (fst (fm_map m ! i)) m))"
    by (rule fm_findIndex_cases [OF assms(1), of "fst (fm_map m ! i)"])
      (use m in \<open>auto simp: fm_erase_iter_def fm_erase_def Let_def\<close>)
qed

section \<open>Every telecommand is started or refused once\<close>

lemma reports_frame [simp]:
  "cs_reports (deleteTc a s) = cs_reports s" "cs_reports (snd (setUpTcReader a s)) = cs_reports s"
  "cs_reports (snd (cs_send v q m s)) = cs_reports s" "cs_reports (cs_clear v m s) = cs_reports s"
  "cs_reports (prepareVerificationFailureWithNoTcInfo r e b s) = cs_reports s"
  "cs_reports (prepareVerificationFailureWithFullInfo r ti e b s) = cs_reports s"
  "cs_reports (prepareVerificationSuccessWithFullInfo r ti s) = cs_reports s"
  "cs_reports (cs_handleUnrequestedReply v m s) = cs_reports s"
  "cs_reports (report p s) = cs_reports s @ [p]"
  by (simp_all add: deleteTc_def setUpTcReader_def cs_send_def cs_clear_def prepareVerificationFailureWithNoTcInfo_def
      prepareVerificationFailureWithFullInfo_def prepareVerificationSuccessWithFullInfo_def cs_handleUnrequestedReply_def
      report_def Let_def case_prod_unfold)

lemma map_frame [simp]:
  "cs_commandMap (deleteTc a s) = cs_commandMap s" "cs_commandMap (snd (setUpTcReader a s)) = cs_commandMap s"
  "cs_commandMap (snd (cs_send v q m s)) = cs_commandMap s" "cs_commandMap (cs_clear v m s) = cs_commandMap s"
  "cs_commandMap (prepareVerificationFailureWithNoTcInfo r e b s) = cs_commandMap s"
  "cs_commandMap (prepareVerificationFailureWithFullInfo r ti e b s) = cs_commandMap s"
  "cs_commandMap (prepareVerificationSuccessWithFullInfo r ti s) = cs_commandMap s"
  "cs_commandMap (cs_handleUnrequestedReply v m s) = cs_commandMap s"
  "cs_commandMap (report p s) = cs_commandMap s"
  by (simp_all add: deleteTc_def setUpTcReader_def cs_send_def cs_clear_def prepareVerificationFailureWithNoTcInfo_def
      prepareVerificationFailureWithFullInfo_def prepareVerificationSuccessWithFullInfo_def cs_handleUnrequestedReply_def
      report_def Let_def case_prod_unfold)

lemma map_frame_packets [simp]:
  "cs_commandMap (rejectPacket r a e s) = cs_commandMap s" "cs_commandMap (acceptPacket r a s) = cs_commandMap s"
  "cs_commandMap (rejectPacketInvalidTc e a s) = cs_commandMap s"
  by (simp_all add: rejectPacket_def acceptPacket_def rejectPacketInvalidTc_def Let_def)

lemmas ok_frame [simp] = map_frame [THEN cs_ok_map(1)] map_frame_packets [THEN cs_ok_map(1)]
lemmas waiting_frame [simp] = map_frame [THEN cs_ok_map(2)] map_frame_packets [THEN cs_ok_map(2)]

lemma starts_packets [simp]:
  "starts (rejectPacket RID_START_FAILURE a e s) = Suc (starts s)"
  "starts (rejectPacketInvalidTc e a s) = Suc (starts s)"
  "starts (acceptPacket RID_START_SUCCESS a s) = Suc (starts s)"
  "starts (acceptPacket RID_COMPLETION_SUCCESS a s) = starts s"
  "starts (report (VerifSuccessParams RID_START_SUCCESS rd) s) = Suc (starts s)"
  by (simp_all add: starts_def rejectPacket_def acceptPacket_def rejectPacketInvalidTc_def VerifSuccessParams_def
      VerifFailureParams_def is_start_def Let_def prepareVerificationFailureWithNoTcInfo_def deleteTc_def report_def)

text \<open>
  \<open>same i s t\<close>: the entries, the waiting telecommands and the FIFO at the iterator are the same in \<open>t\<close> as in \<open>s\<close>.
\<close>

definition same :: "nat \<Rightarrow> 'c csb \<Rightarrow> 'c csb \<Rightarrow> bool" where
  "same i s t \<longleftrightarrow> cs_ok t \<and> i < n_active t \<and> n_active t = n_active s \<and> waiting t = waiting s \<and> ci_fifo (info i t) = ci_fifo (info i s)"

lemma same_upd:
  assumes "same i s t" "\<And>c. ci_fifo (f c) = ci_fifo c"
  shows "same i s (upd i f t)"
proof -
  have t: "i < n_active t" "cs_ok t" "fm_inv (cs_commandMap t)" using assms(1) by (auto simp: same_def cs_ok_def)
  have w: "waiting (upd i f t) = waiting t" using upd_waiting [OF t(1,3), of f] assms(2) by simp
  have "cs_ok (upd i f t)" by (rule upd_cs_ok [OF t(1,2)]) (simp add: fifo_ok_def assms(2))
  then show ?thesis using assms t w by (simp add: same_def upd_info)
qed

lemma same_map: "cs_commandMap u = cs_commandMap t \<Longrightarrow> same i s u = same i s t"
  by (simp add: same_def cs_ok_def waiting_def)

lemma starts_reports: "cs_reports u = cs_reports t \<Longrightarrow> starts u = starts t"
  by (simp add: starts_def)

lemma same_child [simp]: "same i s (t\<lparr>cs_child := c\<rparr>) = same i s t" "starts (t\<lparr>cs_child := c\<rparr>) = starts t"
  by (rule same_map; simp) (simp add: starts_def)

lemma same_frame [simp]:
  "same i s (rejectPacket r a e t) = same i s t" "same i s (acceptPacket r a t) = same i s t"
  "same i s (report p t) = same i s t" "same i s (cs_clear v m t) = same i s t" "same i s (snd (cs_send v q m t)) = same i s t"
  "starts (cs_clear v m t) = starts t" "starts (snd (cs_send v q m t)) = starts t" "starts (upd i f t) = starts t"
  by (rule same_map starts_reports; simp)+

lemma start_step_same:
  assumes "cs_ok s" "i < n_active s"
  shows "same i s (snd (start_step v a i s)) \<and> starts (snd (start_step v a i s)) = Suc (starts s)"
proof -
  have s: "same i s s" using assms by (simp add: same_def)
  show ?thesis unfolding start_step_def Let_def case_prod_unfold by (simp add: same_upd s)
qed

lemma erase_accounts:
  assumes ok: "cs_ok s" and i: "i < n_active s" and e: "fifo_empty (ci_fifo (info i s))"
    and m: "fm_erase_iter i (cs_commandMap s) = (r, iter, m)"
  shows "cs_ok (s\<lparr>cs_commandMap := m\<rparr>) \<and> waiting (s\<lparr>cs_commandMap := m\<rparr>) = waiting s \<and> Suc (fm_size m) = n_active s \<and> iter = int i - 1"
proof -
  let ?m = "cs_commandMap s" and ?k = "fst (fm_map (cs_commandMap s) ! i)"
  let ?f = "\<lambda>e. currentSize (ci_fifo (snd e))"
  have inv: "fm_inv ?m" using ok by (simp add: cs_ok_def)
  note er = erase_iter [OF inv i]
  have mm: "m = snd (fm_erase ?k ?m)" "iter = int i - 1" using m er(1) by simp_all
  have ms: "mset (fm_entries m) = mset (fm_entries ?m) - {#(?k, info i s)#}"
    using fm_erase_entries(1) [OF inv er(2)] mm by simp
  have mem: "(?k, info i s) \<in># mset (fm_entries ?m)" using er(2) by (auto dest: map_of_SomeD)
  have add: "mset (fm_entries ?m) = add_mset (?k, info i s) (mset (fm_entries m))" using ms mem by simp
  have "sum_mset (image_mset ?f (mset (fm_entries ?m))) = sum_mset (image_mset ?f (mset (fm_entries m)))"
    unfolding add using e by (simp add: fifo_empty_def)
  then have w: "waiting (s\<lparr>cs_commandMap := m\<rparr>) = waiting s"
    by (simp add: waiting_def sum_mset_sum_list flip: mset_map)
  have sz: "Suc (fm_size m) = n_active s" using fm_erase_keeps(3) [OF inv er(2)] mm i by simp
  have "set (fm_entries m) \<subseteq> set (fm_entries ?m)"
    using add by (metis insert_subset set_mset_add_mset_insert set_mset_mset subset_insertI)
  then have "cs_ok (s\<lparr>cs_commandMap := m\<rparr>)" using ok fm_erase_keeps(1) [OF inv er(2)] mm
    by (auto simp: cs_ok_def list_all_iff)
  then show ?thesis using w sz mm by simp
qed

definition accounts :: "nat \<Rightarrow> 'c csb \<Rightarrow> int \<times> 'c csb \<Rightarrow> bool" where
  "accounts i s r \<longleftrightarrow> cs_ok (snd r) \<and> starts (snd r) + waiting (snd r) = starts s + waiting s \<and>
     (fst r = int i \<and> n_active (snd r) = n_active s \<or> fst r = int i - 1 \<and> Suc (n_active (snd r)) = n_active s)"

lemma retrieve_step:
  assumes ok: "cs_ok s" "i < n_active s" "ci_fifo (info i s) = q" and r: "fifo_retrieve False q = (OK, a, q')"
  defines "t \<equiv> upd i (\<lambda>c. c\<lparr>ci_fifo := q'\<rparr>) s"
  shows "cs_ok t \<and> i < n_active t \<and> n_active t = n_active s \<and> starts t = starts s \<and> ci_fifo (info i t) = q' \<and> Suc (waiting t) = waiting s"
proof -
  have inv: "fm_inv (cs_commandMap s)" using ok by (simp add: cs_ok_def)
  have q: "Suc (currentSize q') = currentSize q" "fifo_inv q \<Longrightarrow> fifo_inv q'" "maxCapacity q' = maxCapacity q"
    using r fifo_retrieve_inv [of q False] by (auto simp: fifo_retrieve_def fifo_empty_def split: if_splits)
  have "cs_ok t" unfolding t_def by (rule upd_cs_ok [OF ok(2,1)]) (use q ok(3) in \<open>simp add: fifo_ok_def\<close>)
  moreover have "waiting t + currentSize q = waiting s + currentSize q'"
    using upd_waiting [OF ok(2) inv, of "\<lambda>c. c\<lparr>ci_fifo := q'\<rparr>"] ok(3) by (simp add: t_def)
  ultimately show ?thesis using ok q inv by (simp add: t_def upd_info)
qed

lemma check_fifo_accounts:
  "cs_ok s \<Longrightarrow> i < n_active s \<Longrightarrow> ci_fifo (info i s) = q \<Longrightarrow> accounts i s (check_fifo v i q s)"
proof (induction v i q s rule: check_fifo.induct)
  case (1 v i q s)
  obtain r a q' where r: "fifo_retrieve False q = (r, a, q')" by (metis surj_pair)
  show ?case
  proof (cases "r = OK")
    case False
    then have e: "fifo_empty q" using r by (auto simp: fifo_retrieve_def split: if_splits)
    obtain r' iter m where m: "fm_erase_iter i (cs_commandMap s) = (r', iter, m)" by (metis surj_pair)
    then show ?thesis using erase_accounts [OF 1(2,3) _ m] e 1(4) False r by (simp add: accounts_def starts_def)
  next
    case True
    let ?t = "upd i (\<lambda>c. c\<lparr>ci_fifo := q'\<rparr>) s"
    have t: "cs_ok ?t \<and> i < n_active ?t \<and> n_active ?t = n_active s \<and> starts ?t = starts s \<and> ci_fifo (info i ?t) = q' \<and> Suc (waiting ?t) = waiting s"
      by (rule retrieve_step [OF 1(2-4)]) (use r True in simp)
    obtain res u where u: "setUpTcReader (the a) ?t = (res, u)" by (metis surj_pair)
    have um: "cs_commandMap u = cs_commandMap ?t" "cs_reports u = cs_reports ?t"
      using map_frame(2) [of "the a" ?t] reports_frame(2) [of "the a" ?t] u by simp_all
    have uw: "cs_ok u" "waiting u = waiting ?t" "starts u = starts ?t"
      using cs_ok_map [OF um(1)] t starts_reports [OF um(2)] by simp_all
    obtain again w where w: "start_step v (the a) i u = (again, w)" by (metis surj_pair)
    have ws: "same i u w" "starts w = Suc (starts u)"
      using start_step_same [of u i v "the a"] uw um t w by simp_all
    have wq: "ci_fifo (info i w) = q'" "cs_ok w" "i < n_active w" "waiting w = waiting u" "n_active w = n_active s"
      using ws um t by (simp_all add: same_def)
    show ?thesis
    proof (cases "res = OK")
      case True
      note res = this
      show ?thesis
      proof (cases again)
        case True
        have "accounts i w (check_fifo v i q' w)"
          using "1.IH" [OF r [symmetric] refl _ refl refl u [symmetric] res w [symmetric] True wq(2,3,1)] \<open>r = OK\<close> by simp
        then show ?thesis using r \<open>r = OK\<close> u res w True wq ws uw t by (simp add: accounts_def)
      next
        case False
        then show ?thesis using r \<open>r = OK\<close> u res w wq ws uw t by (simp add: accounts_def)
      qed
    next
      case False
      then show ?thesis using r \<open>r = OK\<close> u uw um t by (simp add: accounts_def)
    qed
  qed
qed

lemma checkAndExecuteFifo_accounts: "cs_ok s \<Longrightarrow> i < n_active s \<Longrightarrow> accounts i s (checkAndExecuteFifo v i s)"
  unfolding checkAndExecuteFifo_def by (rule check_fifo_accounts) simp_all

text \<open>\<open>accounts_by n s t\<close>: \<open>n\<close> telecommands have arrived, and each is reported or waits.\<close>

definition accounts_by :: "nat \<Rightarrow> 'c csb \<Rightarrow> 'c csb \<Rightarrow> bool" where
  "accounts_by n s t \<longleftrightarrow> cs_ok t \<and> starts t + waiting t = starts s + waiting s + n"

lemma accounts_by_refl: "cs_ok s \<Longrightarrow> accounts_by 0 s s"
  by (simp add: accounts_by_def)

lemma accounts_by_trans: "accounts_by m s t \<Longrightarrow> accounts_by n t u \<Longrightarrow> accounts_by (m + n) s u"
  by (simp add: accounts_by_def)

lemma accounts_by_frame:
  "accounts_by n s t \<Longrightarrow> cs_commandMap u = cs_commandMap t \<Longrightarrow> starts u = starts t \<Longrightarrow> accounts_by n s u"
  using cs_ok_map [of u t] by (simp add: accounts_by_def)

lemma startExecution_accounts:
  assumes "cs_ok s" "i < n_active s"
  shows "accounts_by (Suc 0) s (snd (startExecution v a i s))"
proof -
  obtain again t where t: "start_step v a i s = (again, t)" by (metis surj_pair)
  have s: "same i s t" "starts t = Suc (starts s)" using start_step_same [OF assms, of v a] t by simp_all
  then have "accounts i t (checkAndExecuteFifo v i t)"
    by (intro checkAndExecuteFifo_accounts) (simp_all add: same_def)
  then show ?thesis using s t by (simp add: startExecution_def accounts_by_def accounts_def same_def)
qed

lemma found_index:
  assumes "fm_inv m" "fm_exists k m = OK"
  shows "fm_findIndex k m < fm_size m \<and> fst (fm_map m ! fm_findIndex k m) = k"
  by (rule fm_findIndex_cases [OF assms(1), of k]) (use assms(2) in \<open>auto simp: fm_exists_def split: if_splits\<close>)

lemma enqueue_accounts:
  assumes ok: "cs_ok s" "i < n_active s" and q: "fifo_insert a (ci_fifo (info i s)) = (OK, q)"
  shows "accounts_by (Suc 0) s (upd i (\<lambda>c. c\<lparr>ci_fifo := q\<rparr>) s)"
proof -
  have inv: "fm_inv (cs_commandMap s)" using ok by (simp add: cs_ok_def)
  have c: "currentSize q = Suc (currentSize (ci_fifo (info i s)))" "maxCapacity q = maxCapacity (ci_fifo (info i s))"
    "fifo_inv (ci_fifo (info i s)) \<Longrightarrow> fifo_inv q"
    using q fifo_insert_inv [of "ci_fifo (info i s)" a] by (auto simp: fifo_insert_def split: if_splits)
  have "cs_ok (upd i (\<lambda>c. c\<lparr>ci_fifo := q\<rparr>) s)"
    by (rule upd_cs_ok [OF ok(2,1)]) (use c in \<open>simp add: fifo_ok_def\<close>)
  then show ?thesis using upd_waiting [OF ok(2) inv, of "\<lambda>c. c\<lparr>ci_fifo := q\<rparr>"] c by (simp add: accounts_by_def)
qed

lemma insert_accounts:
  assumes ok: "cs_ok s" and i: "fm_insert k c (cs_commandMap s) = (OK, m)" and c: "fifo_ok c" "currentSize (ci_fifo c) = 0"
  shows "cs_ok (s\<lparr>cs_commandMap := m\<rparr>) \<and> waiting (s\<lparr>cs_commandMap := m\<rparr>) = waiting s \<and> fm_size m = Suc (n_active s)"
proof -
  have inv: "fm_inv (cs_commandMap s)" using ok by (simp add: cs_ok_def)
  have n: "map_of (entries s) k = None" "n_active s < fm_maxSize (cs_commandMap s)" "fm_size m = Suc (n_active s)"
    using i inv by (auto simp: fm_insert_def fm_exists_spec [OF inv] fm_inv_def split: if_splits)
  have "fm_entries m = entries s @ [(k, c)]" using fm_insert_entries(1) [OF inv n(1,2), of c] i by simp
  then show ?thesis using ok c n fm_insert_inv [OF inv, of k c] i by (simp add: cs_ok_def waiting_def)
qed

lemma fifo_ok_new: "fifo_ok (u\<lparr>ci_objectId := ob, ci_fifo := fifo_init (replicate COMMAND_INFO_FIFO_DEPTH x)\<rparr>)"
  by (simp add: fifo_ok_def fifo_inv_init) (simp add: fifo_init_def)

lemma handle_request_accounts:
  assumes ok: "cs_ok s"
  shows "accounts_by (Suc 0) s (handle_request v a s)"
proof -
  obtain r t where t: "setUpTcReader a s = (r, t)" by (metis surj_pair)
  have tm: "cs_commandMap t = cs_commandMap s" "cs_reports t = cs_reports s"
    using map_frame(2) [of a s] reports_frame(2) [of a s] t by simp_all
  have t0: "cs_ok t" "starts t + waiting t = starts s + waiting s"
    using cs_ok_map [OF tm(1)] starts_reports [OF tm(2)] ok by simp_all
  then have ti: "fm_inv (cs_commandMap t)" by (simp add: cs_ok_def)
  have st: "accounts_by (Suc 0) s u" if "accounts_by (Suc 0) t u" for u using that t0 by (simp add: accounts_by_def)
  have rej: "accounts_by (Suc 0) t (rejectPacket RID_START_FAILURE a e t)" "accounts_by (Suc 0) t (rejectPacketInvalidTc e a t)" for e
    using t0 by (simp_all add: accounts_by_def)
  let ?new = "\<lambda>ob. (m_uninitialized v)\<lparr>ci_objectId := ob, ci_fifo := fifo_init (replicate COMMAND_INFO_FIFO_DEPTH invalid_address)\<rparr>"
  have enq: "accounts_by (Suc 0) t (upd (fm_findIndex k (cs_commandMap t)) (\<lambda>c. c\<lparr>ci_fifo := q\<rparr>) t)"
    if "fm_exists k (cs_commandMap t) = OK" "fifo_insert a (ci_fifo (info (fm_findIndex k (cs_commandMap t)) t)) = (OK, q)" for k q
    using enqueue_accounts [OF t0(1) _ that(2)] found_index [OF ti that(1)] by simp
  have new: "accounts_by (Suc 0) t (snd (startExecution v a (n_active t) (t\<lparr>cs_commandMap := m\<rparr>)))"
    if "fm_insert k (?new ob) (cs_commandMap t) = (OK, m)" for k ob m
  proof -
    note i = insert_accounts [OF t0(1) that fifo_ok_new]
    have z: "currentSize (ci_fifo (?new ob)) = 0" by (simp add: fifo_init_def)
    show ?thesis
      using startExecution_accounts [of "t\<lparr>cs_commandMap := m\<rparr>" "n_active t" v a] i [OF z]
      by (simp add: accounts_by_def starts_def)
  qed
  show ?thesis unfolding handle_request_def t Let_def
    by (rule st) (auto simp: rej intro: enq new split: prod.split)
qed

lemma handleRequests_accounts: "cs_ok s \<Longrightarrow> accounts_by (length as) s (handleRequests v as s)"
proof (induction as arbitrary: s)
  case (Cons a as)
  have "accounts_by (Suc 0) s (handle_request v a s)" by (rule handle_request_accounts [OF Cons.prems])
  moreover from this have "accounts_by (length as) (handle_request v a s) (handleRequests v as (handle_request v a s))"
    by (intro Cons.IH) (simp add: accounts_by_def)
  ultimately show ?case using accounts_by_trans by (fastforce simp: handleRequests_def)
qed (simp add: handleRequests_def accounts_by_refl)

text \<open>The reports on the progress and the completion of a command are not start reports.\<close>

lemma accounts_report:
  assumes "cs_ok s" "i < n_active s" "same i s t" "starts t = starts s"
  shows "accounts_by 0 s (snd (checkAndExecuteFifo v i t))" "accounts_by 0 s t"
  using assms checkAndExecuteFifo_accounts [of t i v] by (auto simp: accounts_by_def accounts_def same_def)

lemma starts_report: "starts (report p s) = (if is_start p then Suc (starts s) else starts s)"
  by (simp add: starts_def)

lemma reportId_prepared [simp]:
  "vp_reportId (cs_failParams (prepareVerificationFailureWithFullInfo r ti e b s)) = r"
  "vp_reportId (cs_successParams (prepareVerificationSuccessWithFullInfo r ti s)) = r"
  by (simp_all add: prepareVerificationFailureWithFullInfo_def prepareVerificationSuccessWithFullInfo_def resetFailParams_def Let_def)

lemma params_frame [simp]:
  "cs_failParams (upd i f s) = cs_failParams s" "cs_successParams (upd i f s) = cs_successParams s"
  "cs_failParams (cs_clear v m s) = cs_failParams s"
  by (simp_all add: upd_def cs_clear_def)

lemma starts_prepared [simp]:
  "starts (prepareVerificationFailureWithFullInfo r ti e b s) = starts s"
  "starts (prepareVerificationSuccessWithFullInfo r ti s) = starts s"
  by (rule starts_reports; simp)+

lemma same_prepared [simp]:
  "same i s (prepareVerificationFailureWithFullInfo r ti e b t) = same i s t"
  "same i s (prepareVerificationSuccessWithFullInfo r ti t) = same i s t"
  by (rule same_map; simp)+

lemma same_params [simp]:
  "same i s (t\<lparr>cs_failParams := p\<rparr>) = same i s t" "same i s (t\<lparr>cs_successParams := p\<rparr>) = same i s t"
  "same i s (t\<lparr>cs_failureParameter1 := x\<rparr>) = same i s t" "same i s (t\<lparr>cs_failureParameter2 := y\<rparr>) = same i s t"
  "starts (t\<lparr>cs_failParams := p\<rparr>) = starts t" "starts (t\<lparr>cs_successParams := p\<rparr>) = starts t"
  "starts (t\<lparr>cs_failureParameter1 := x\<rparr>) = starts t" "starts (t\<lparr>cs_failureParameter2 := y\<rparr>) = starts t"
  by (simp_all add: starts_def) (rule same_map; simp)+

lemma replyResult_accounts:
  assumes "cs_ok s" "i < n_active s"
  shows "accounts_by 0 s (handleReplyHandlerResult v r i n reply st s)"
proof -
  have s: "same i s s" using assms by (simp add: same_def)
  show ?thesis unfolding handleReplyHandlerResult_def Let_def case_prod_unfold
    by (simp add: same_upd s starts_report is_start_def accounts_report(1) [OF assms] accounts_report(2) [OF assms, of "report p t" for p t])
qed

lemma handleCommandMessage_accounts:
  assumes ok: "cs_ok s"
  shows "accounts_by 0 s (cs_handleCommandMessage v m s)"
proof -
  let ?i = "fm_findIndex (cm_sender m) (cs_commandMap s)"
  have u: "accounts_by 0 s (cs_handleUnrequestedReply v m t)" if "cs_ok t" "starts t + waiting t = starts s + waiting s" for t
    using that starts_reports [OF reports_frame(8) [of v m t]] by (simp add: accounts_by_def)
  show ?thesis
  proof (cases "cm_sender m = NO_QUEUE \<or> fm_exists (cm_sender m) (cs_commandMap s) \<noteq> OK")
    case True
    then show ?thesis using u [OF ok] by (simp add: cs_handleCommandMessage_def)
  next
    case False
    then have i: "?i < n_active s" using found_index [of "cs_commandMap s" "cm_sender m"] ok by (simp add: cs_ok_def)
    have s: "same ?i s s" using ok i by (simp add: same_def)
    have r: "accounts_by 0 s (handleReplyHandlerResult v r ?i n m st t)" if "same ?i s t" "starts t = starts s" for r n st t
      using replyResult_accounts [of t ?i] that by (simp add: same_def accounts_by_def)
    have u': "accounts_by 0 s (cs_handleUnrequestedReply v m t)" if "same ?i s t" "starts t = starts s" for t
      using u that by (simp add: same_def)
    show ?thesis using False
      by (simp add: cs_handleCommandMessage_def Let_def case_prod_unfold same_upd s starts_report is_start_def r u'
          accounts_report(1) [OF ok i])
  qed
qed

lemma handleCommandQueue_accounts: "cs_ok s \<Longrightarrow> accounts_by 0 s (handleCommandQueue v ms s)"
proof (induction ms arbitrary: s)
  case (Cons m ms)
  have m: "accounts_by 0 s (cs_handleCommandMessage v m s)" by (rule handleCommandMessage_accounts [OF Cons.prems])
  then have "accounts_by 0 (cs_handleCommandMessage v m s) (handleCommandQueue v ms (cs_handleCommandMessage v m s))"
    by (intro Cons.IH) (simp add: accounts_by_def)
  then show ?case using accounts_by_trans [OF m] by (simp add: handleCommandQueue_def)
qed (simp add: handleCommandQueue_def accounts_by_refl)

text \<open>The loop over the timeouts ends: an iteration advances the iterator or removes an entry.\<close>

lemma timeout_loop_accounts:
  "cs_ok s \<Longrightarrow> i \<le> n_active s \<Longrightarrow> n_active s \<le> i + n \<Longrightarrow> \<exists>t. timeout_loop v n i s = Some t \<and> accounts_by 0 s t"
proof (induction n arbitrary: i s)
  case 0
  then show ?case by (subst timeout_loop.simps) (simp add: accounts_by_refl)
next
  case (Suc n)
  show ?case
  proof (cases "i = n_active s")
    case True
    then show ?thesis using Suc.prems by (subst timeout_loop.simps) (simp add: accounts_by_refl)
  next
    case False
    then have i: "i < n_active s" using Suc.prems by simp
    let ?p = "prepareVerificationFailureWithFullInfo RID_COMPLETION_FAILURE (ci_tcInfo (info i s)) CSB_TIMEOUT False s"
    let ?t = "report (cs_failParams ?p) ?p"
    have s: "same i s s" using Suc.prems i by (simp add: same_def)
    have t: "same i s ?t" "starts ?t = starts s" using s by (simp_all add: starts_report is_start_def)
    obtain iter u where u: "checkAndExecuteFifo v i ?t = (iter, u)" by (metis surj_pair)
    have a: "accounts i ?t (iter, u)" using checkAndExecuteFifo_accounts [of ?t i v] t u by (simp add: same_def)
    then have u0: "accounts_by 0 s u" using t by (simp add: accounts_def accounts_by_def same_def)
    have c: "nat (iter + 1) \<le> n_active u" "n_active u \<le> nat (iter + 1) + n" "cs_ok u"
      using a i t Suc.prems by (auto simp: accounts_def same_def)
    obtain w where w: "timeout_loop v n (nat (iter + 1)) u = Some w" "accounts_by 0 u w"
      using Suc.IH [OF c(3,1,2)] by blast
    have wa: "accounts_by 0 s w" using accounts_by_trans [OF u0 w(2)] by simp
    obtain x where x: "timeout_loop v n (Suc i) s = Some x" "accounts_by 0 s x"
      using Suc.IH [OF Suc.prems(1), of "Suc i"] i Suc.prems by auto
    show ?thesis using i u w(1) wa x by (subst timeout_loop.simps) (simp add: Let_def)
  qed
qed

lemma cycle_accounts:
  assumes "cs_ok s"
  shows "\<exists>t. cs_performOperation v replies requests s = Some t \<and> cs_ok t \<and>
    starts t + waiting t = starts s + waiting s + length requests"
proof -
  let ?a = "handleCommandQueue v replies s" let ?b = "handleRequests v requests ?a"
  have a: "accounts_by 0 s ?a" by (rule handleCommandQueue_accounts [OF assms])
  have b: "accounts_by (length requests) ?a ?b" using a by (intro handleRequests_accounts) (simp add: accounts_by_def)
  obtain t where t: "timeout_loop v (n_active ?b) 0 ?b = Some t" "accounts_by 0 ?b t"
    using timeout_loop_accounts [of ?b 0 "n_active ?b" v] b by (auto simp: accounts_by_def)
  let ?t = "t\<lparr>cs_child := m_doPeriodicOperation v (cs_child t)\<rparr>"
  have "cs_ok ?t = cs_ok t" "waiting ?t = waiting t" "starts ?t = starts t" by (rule cs_ok_map starts_reports; simp)+
  then show ?thesis using a b t by (simp add: cs_performOperation_def checkTimeout_def accounts_by_def)
qed

text \<open>
  C6: Every telecommand for a commanding service is started or refused exactly once. Over any cycle of the service,
  which always returns, the start reports (successful and failed) that have been sent together with the telecommands
  that wait for their target grow by exactly the number of telecommands that have arrived, whatever the replies, the
  timeouts and the child class do; and the map of active commands with its FIFOs stays well-formed.
\<close>

theorem telecommands_started_once:
  assumes "cs_ok s"
  shows "\<exists>t. cs_performOperation v replies requests s = Some t \<and> cs_ok t \<and>
    starts t + waiting t = starts s + waiting s + length requests"
  by (rule cycle_accounts [OF assms])

section \<open>No started telecommand is forgotten\<close>

definition started :: "'c csb \<Rightarrow> nat" where
  "started s = length (filter (\<lambda>p. vp_reportId p = RID_START_SUCCESS) (cs_reports s))"

definition is_final :: "VerifParams \<Rightarrow> bool" where
  "is_final p \<longleftrightarrow> vp_reportId p \<in> {RID_PROGRESS_FAILURE, RID_COMPLETION_SUCCESS, RID_COMPLETION_FAILURE}"

definition finished :: "'c csb \<Rightarrow> nat" where
  "finished s = length (filter is_final (cs_reports s))"

text \<open>A started telecommand is active or finished; \<open>idle\<close>: an entry of the map has no active telecommand.\<close>

definition tracked :: "'c csb \<Rightarrow> bool" where
  "tracked s \<longleftrightarrow> started s \<le> finished s + n_active s"

definition idle :: "'c csb \<Rightarrow> bool" where
  "idle s \<longleftrightarrow> started s < finished s + n_active s"

lemma idle_tracked: "idle s \<Longrightarrow> tracked s"
  by (simp add: idle_def tracked_def)

lemma tracked_eq:
  assumes "cs_reports s = cs_reports t" "n_active s = n_active t"
  shows "tracked s = tracked t" "idle s = idle t"
  using assms by (simp_all add: tracked_def idle_def started_def finished_def)

lemma tracked_upd [simp]: "tracked (upd i f s) = tracked s" "idle (upd i f s) = idle s"
  by (rule tracked_eq; simp)+

lemma tracked_frame_ops [simp]:
  "tracked (deleteTc a s) = tracked s" "idle (deleteTc a s) = idle s"
  "tracked (snd (setUpTcReader a s)) = tracked s" "idle (snd (setUpTcReader a s)) = idle s"
  "tracked (snd (cs_send v q m s)) = tracked s" "idle (snd (cs_send v q m s)) = idle s"
  "tracked (cs_clear v m s) = tracked s" "idle (cs_clear v m s) = idle s"
  "tracked (prepareVerificationFailureWithNoTcInfo r e b s) = tracked s" "idle (prepareVerificationFailureWithNoTcInfo r e b s) = idle s"
  "tracked (prepareVerificationFailureWithFullInfo r ti e b s) = tracked s" "idle (prepareVerificationFailureWithFullInfo r ti e b s) = idle s"
  "tracked (prepareVerificationSuccessWithFullInfo r ti s) = tracked s" "idle (prepareVerificationSuccessWithFullInfo r ti s) = idle s"
  "tracked (cs_handleUnrequestedReply v m s) = tracked s"
  "tracked (s\<lparr>cs_child := ch\<rparr>) = tracked s" "idle (s\<lparr>cs_child := ch\<rparr>) = idle s"
  "tracked (s\<lparr>cs_failureParameter1 := x1\<rparr>) = tracked s" "idle (s\<lparr>cs_failureParameter1 := x1\<rparr>) = idle s"
  "tracked (s\<lparr>cs_failureParameter2 := x2\<rparr>) = tracked s" "idle (s\<lparr>cs_failureParameter2 := x2\<rparr>) = idle s"
  "tracked (s\<lparr>cs_failParams := x3\<rparr>) = tracked s" "idle (s\<lparr>cs_failParams := x3\<rparr>) = idle s"
  "tracked (s\<lparr>cs_successParams := x4\<rparr>) = tracked s" "idle (s\<lparr>cs_successParams := x4\<rparr>) = idle s"
  by (rule tracked_eq; simp)+

lemma tracked_report:
  "tracked s \<Longrightarrow> vp_reportId p \<noteq> RID_START_SUCCESS \<Longrightarrow> tracked (report p s)"
  "idle s \<Longrightarrow> vp_reportId p \<noteq> RID_START_SUCCESS \<Longrightarrow> idle (report p s)"
  "tracked s \<Longrightarrow> is_final p \<Longrightarrow> idle (report p s)"
  "idle s \<Longrightarrow> vp_reportId p = RID_START_SUCCESS \<Longrightarrow> tracked (report p s)"
  by (auto simp: tracked_def idle_def started_def finished_def is_final_def)

lemma deleteTc_failParams: "cs_failParams (deleteTc a s) = cs_failParams s"
  by (simp add: deleteTc_def)

lemma tracked_packets:
  "idle s \<Longrightarrow> idle (rejectPacket RID_START_FAILURE a e s)" "tracked s \<Longrightarrow> tracked (rejectPacket RID_START_FAILURE a e s)"
  "tracked s \<Longrightarrow> tracked (rejectPacketInvalidTc e a s)"
  "idle s \<Longrightarrow> tracked (acceptPacket RID_START_SUCCESS a s)"
  "tracked s \<Longrightarrow> idle (acceptPacket RID_COMPLETION_SUCCESS a s)"
  "idle s \<Longrightarrow> tracked (report (VerifSuccessParams RID_START_SUCCESS rd) s)"
  by (simp_all add: rejectPacket_def acceptPacket_def rejectPacketInvalidTc_def VerifSuccessParams_def
      VerifFailureParams_def Let_def tracked_report is_final_def)
    (simp add: prepareVerificationFailureWithNoTcInfo_def tracked_report deleteTc_failParams)

lemma start_step_tracked:
  "idle s \<Longrightarrow> (fst (start_step v a i s) \<longrightarrow> idle (snd (start_step v a i s))) \<and> (\<not> fst (start_step v a i s) \<longrightarrow> tracked (snd (start_step v a i s)))"
  unfolding start_step_def Let_def case_prod_unfold by (simp add: tracked_packets)

lemma check_fifo_tracked:
  "cs_ok s \<Longrightarrow> i < n_active s \<Longrightarrow> ci_fifo (info i s) = q \<Longrightarrow> idle s \<Longrightarrow> tracked (snd (check_fifo v i q s))"
proof (induction v i q s rule: check_fifo.induct)
  case (1 v i q s)
  obtain r a q' where r: "fifo_retrieve False q = (r, a, q')" by (metis surj_pair)
  show ?case
  proof (cases "r = OK")
    case False
    then have e: "fifo_empty q" using r by (auto simp: fifo_retrieve_def split: if_splits)
    obtain r' iter m where m: "fm_erase_iter i (cs_commandMap s) = (r', iter, m)" by (metis surj_pair)
    have "Suc (fm_size m) = n_active s" using erase_accounts [OF 1(2,3) _ m] e 1(4) by simp
    then show ?thesis using m False r 1(5) by (simp add: tracked_def idle_def started_def finished_def)
  next
    case True
    let ?t = "upd i (\<lambda>c. c\<lparr>ci_fifo := q'\<rparr>) s"
    have t: "cs_ok ?t \<and> i < n_active ?t \<and> n_active ?t = n_active s \<and> starts ?t = starts s \<and> ci_fifo (info i ?t) = q' \<and> Suc (waiting ?t) = waiting s"
      by (rule retrieve_step [OF 1(2-4)]) (use r True in simp)
    obtain res u where u: "setUpTcReader (the a) ?t = (res, u)" by (metis surj_pair)
    have um: "cs_commandMap u = cs_commandMap ?t" "idle u"
      using map_frame(2) [of "the a" ?t] tracked_frame_ops(4) [of "the a" ?t] u 1(5) by simp_all
    obtain again w where w: "start_step v (the a) i u = (again, w)" by (metis surj_pair)
    have uok: "cs_ok u" "i < n_active u" using cs_ok_map(1) [OF um(1)] t um(1) by simp_all
    have ws: "same i u w" "(again \<longrightarrow> idle w) \<and> (\<not> again \<longrightarrow> tracked w)"
      using start_step_same [OF uok, of v "the a"] start_step_tracked [OF um(2), of v "the a" i] w by simp_all
    have wq: "cs_ok w" "i < n_active w" "ci_fifo (info i w) = q'" using ws um t by (simp_all add: same_def)
    have ih: "tracked (snd (check_fifo v i q' w))" if "res = OK" again
      using "1.IH" [OF r [symmetric] refl _ refl refl u [symmetric] that(1) w [symmetric] that(2) wq] True ws(2) that by simp
    show ?thesis
    proof (cases "res = OK")
      case res: True
      then show ?thesis using r True u w ih ws(2) by (cases again) simp_all
    next
      case False
      then show ?thesis using r True u um by (simp add: idle_tracked tracked_packets)
    qed
  qed
qed

lemma checkFifo_tracked: "same i s t \<Longrightarrow> idle t \<Longrightarrow> tracked (snd (checkAndExecuteFifo v i t))"
  unfolding checkAndExecuteFifo_def by (rule check_fifo_tracked) (simp_all add: same_def)

lemma startExecution_tracked:
  assumes "cs_ok s" "i < n_active s" "idle s"
  shows "tracked (snd (startExecution v a i s))"
proof -
  obtain again t where t: "start_step v a i s = (again, t)" by (metis surj_pair)
  have "same i s t" "(again \<longrightarrow> idle t) \<and> (\<not> again \<longrightarrow> tracked t)"
    using start_step_same [OF assms(1,2), of v a] start_step_tracked [OF assms(3), of v a i] t by simp_all
  then show ?thesis using t by (cases again) (simp_all add: startExecution_def checkFifo_tracked)
qed

lemma handle_request_tracked:
  assumes ok: "cs_ok s" and tr: "tracked s"
  shows "tracked (handle_request v a s)"
proof -
  obtain r t where t: "setUpTcReader a s = (r, t)" by (metis surj_pair)
  have tm: "cs_commandMap t = cs_commandMap s" "tracked t"
    using map_frame(2) [of a s] tracked_frame_ops(3) [of a s] t tr by simp_all
  have t0: "cs_ok t" using cs_ok_map(1) [OF tm(1)] ok by simp
  have new: "tracked (snd (startExecution v a (n_active t) (t\<lparr>cs_commandMap := m\<rparr>)))"
    if "fm_insert k ((m_uninitialized v)\<lparr>ci_objectId := ob, ci_fifo := fifo_init (replicate COMMAND_INFO_FIFO_DEPTH invalid_address)\<rparr>) (cs_commandMap t) = (OK, m)"
    for k ob m
  proof -
    note i = insert_accounts [OF t0 that fifo_ok_new]
    have "cs_ok (t\<lparr>cs_commandMap := m\<rparr>) \<and> fm_size m = Suc (n_active t)" using i by (simp add: fifo_init_def)
    then show ?thesis using tm(2)
      by (intro startExecution_tracked) (simp_all add: tracked_def idle_def started_def finished_def)
  qed
  show ?thesis unfolding handle_request_def t Let_def
    using tm(2) by (auto simp: tracked_packets intro: new split: prod.split)
qed

lemma final_prepared [simp]:
  "is_final (cs_failParams (prepareVerificationFailureWithFullInfo RID_PROGRESS_FAILURE ti e b s))"
  "is_final (cs_failParams (prepareVerificationFailureWithFullInfo RID_COMPLETION_FAILURE ti e b s))"
  "is_final (cs_successParams (prepareVerificationSuccessWithFullInfo RID_COMPLETION_SUCCESS ti s))"
  "is_final (p\<lparr>vp_step := n\<rparr>) = is_final p"
  by (simp_all add: is_final_def)

lemma handleCommandMessage_tracked:
  assumes ok: "cs_ok s" and tr: "tracked s"
  shows "tracked (cs_handleCommandMessage v m s)"
proof (cases "cm_sender m = NO_QUEUE \<or> fm_exists (cm_sender m) (cs_commandMap s) \<noteq> OK")
  case True
  then show ?thesis using tr by (simp add: cs_handleCommandMessage_def)
next
  case False
  let ?i = "fm_findIndex (cm_sender m) (cs_commandMap s)"
  have i: "?i < n_active s" using False found_index [of "cs_commandMap s" "cm_sender m"] ok by (simp add: cs_ok_def)
  have s: "same ?i s s" using ok i by (simp add: same_def)
  have r: "tracked (handleReplyHandlerResult v r ?i n m st t)" if "same ?i s t" "tracked t" for r n st t
    unfolding handleReplyHandlerResult_def Let_def case_prod_unfold
    by (simp add: that same_upd tracked_report checkFifo_tracked [of ?i s])
  show ?thesis using False
    by (simp add: cs_handleCommandMessage_def Let_def case_prod_unfold same_upd s tr r tracked_report checkFifo_tracked [of ?i s])
qed

lemma timeout_loop_tracked:
  "timeout_loop v n i s = Some t \<Longrightarrow> cs_ok s \<Longrightarrow> i \<le> n_active s \<Longrightarrow> n_active s \<le> i + n \<Longrightarrow> tracked s \<Longrightarrow> tracked t"
proof (induction n arbitrary: i s)
  case 0
  then show ?case by (simp add: timeout_loop.simps [of v 0])
next
  case (Suc n)
  show ?case
  proof (cases "i = n_active s")
    case True
    then show ?thesis using Suc.prems by (simp add: timeout_loop.simps [of v "Suc n"])
  next
    case False
    then have i: "i < n_active s" using Suc.prems by simp
    let ?p = "prepareVerificationFailureWithFullInfo RID_COMPLETION_FAILURE (ci_tcInfo (info i s)) CSB_TIMEOUT False s"
    let ?t = "report (cs_failParams ?p) ?p"
    obtain iter u where u: "checkAndExecuteFifo v i ?t = (iter, u)" by (metis surj_pair)
    have t: "same i s ?t" "idle ?t" using Suc.prems i by (simp_all add: same_def tracked_report)
    have ut: "tracked u" using checkFifo_tracked [OF t, of v] u by simp
    have a: "accounts i ?t (iter, u)" using checkAndExecuteFifo_accounts [of ?t i v] t u by (simp add: same_def)
    then have c: "cs_ok u" "nat (iter + 1) \<le> n_active u" "n_active u \<le> nat (iter + 1) + n"
      using i t Suc.prems by (auto simp: accounts_def same_def)
    show ?thesis
      using Suc.prems(1) i u Suc.IH [OF _ c ut] Suc.IH [of "Suc i" s] Suc.prems
      by (auto simp: timeout_loop.simps [of v "Suc n"] Let_def split: if_splits)
  qed
qed

text \<open>
  C7: No telecommand that was started is forgotten. Over any cycle of the service, the telecommands reported as started
  stay covered by those whose final report (success, failure or failed step) has been sent and the commands that are
  still active in the map.
\<close>

theorem started_telecommands_tracked:
  assumes "cs_ok s" "started s \<le> finished s + n_active s" "cs_performOperation v replies requests s = Some t"
  shows "started t \<le> finished t + n_active t"
proof -
  have f: "cs_ok (fold f xs s) \<and> tracked (fold f xs s)"
    if "cs_ok s" "tracked s" "\<And>x s. cs_ok s \<Longrightarrow> cs_ok (f x s)" "\<And>x s. cs_ok s \<Longrightarrow> tracked s \<Longrightarrow> tracked (f x s)"
    for f :: "'x \<Rightarrow> 'a csb \<Rightarrow> 'a csb" and xs s using that by (induction xs arbitrary: s) auto
  let ?a = "handleCommandQueue v replies s" let ?b = "handleRequests v requests ?a"
  have a: "cs_ok ?a \<and> tracked ?a" unfolding handleCommandQueue_def
    using handleCommandMessage_accounts assms(1,2) by (intro f) (auto simp: accounts_by_def tracked_def handleCommandMessage_tracked [unfolded tracked_def])
  have b: "cs_ok ?b \<and> tracked ?b" unfolding handleRequests_def
    using handle_request_accounts a by (intro f) (auto simp: accounts_by_def handle_request_tracked)
  obtain u where u: "timeout_loop v (n_active ?b) 0 ?b = Some u" "t = u\<lparr>cs_child := m_doPeriodicOperation v (cs_child u)\<rparr>"
    using assms(3) by (auto simp: cs_performOperation_def checkTimeout_def)
  have "tracked u" using timeout_loop_tracked [OF u(1)] b by simp
  then show ?thesis using u(2) by (simp add: tracked_def started_def finished_def)
qed

section \<open>Where the reports mislead\<close>

text \<open>
  A telecommand that has become unreadable while it waited is refused, and its entry stays in the map without an
  active command: until the timeout the target counts as busy, and the timeout then reports a second time the failure
  of the telecommand that was finished before.
\<close>

lemma unreadable_telecommand_blocks_target:
  assumes "cs_ok s" "i < n_active s" "fifo_retrieve False (ci_fifo (info i s)) = (OK, Some a, q)"
    and "fst (prepareTcReader (cs_tcStore s) a (cs_tcReader s)) \<noteq> OK"
  shows "n_active (snd (checkAndExecuteFifo v i s)) = n_active s \<and>
    ci_tcInfo (info i (snd (checkAndExecuteFifo v i s))) = ci_tcInfo (info i s)"
proof -
  have "fst (setUpTcReader a (upd i (\<lambda>c. c\<lparr>ci_fifo := q\<rparr>) s)) \<noteq> OK"
    using assms(4) by (simp add: setUpTcReader_def case_prod_unfold)
  then show ?thesis using assms
    by (simp add: checkAndExecuteFifo_def case_prod_unfold Let_def upd_info cs_ok_def)
qed

text \<open>When the next command cannot be sent, the failure is reported with the result of the reply handler instead.\<close>

lemma failed_send_reported_with_wrong_code:
  assumes "cm_command n \<noteq> CMD_NONE" "m_status v (cm_sender reply) (cs_sent s) = e" "e \<noteq> OK" "cs_ok s" "i < n_active s"
  shows "\<exists>u. handleReplyHandlerResult v OK i n reply False s = snd (checkAndExecuteFifo v i u) \<and>
    vp_reportId (last (cs_reports u)) = RID_COMPLETION_FAILURE \<and> vp_errorCode (last (cs_reports u)) = OK"
proof -
  let ?s = "upd i (\<lambda>c. c\<lparr>ci_command := cm_command n\<rparr>) s"
  let ?p = "prepareVerificationFailureWithFullInfo RID_COMPLETION_FAILURE (ci_tcInfo (info i ?s)) OK True ?s"
  let ?u = "(report (cs_failParams ?p) (cs_clear v n ?p))\<lparr>cs_failureParameter1 := 0, cs_failureParameter2 := 0\<rparr>"
  have "cs_sent ?s = cs_sent s" by (simp add: upd_def)
  then have "handleReplyHandlerResult v OK i n reply False s = snd (checkAndExecuteFifo v i ?u)"
    using assms(1-3) by (simp add: handleReplyHandlerResult_def cs_send_def Let_def)
  moreover have "vp_errorCode (cs_failParams ?p) = OK" by (simp add: prepareVerificationFailureWithFullInfo_def resetFailParams_def Let_def)
  ultimately show ?thesis by (intro exI [of _ ?u]) simp
qed

text \<open>A command that has just been started has timed out already when the sum of start and timeout overflows.\<close>

lemma timeout_overflows: "cs_expired 0xFFFFFFF0 10 (c\<lparr>ci_uptimeOfStart := 0xFFFFFFF0\<rparr>)"
  by (simp add: cs_expired_def)

section \<open>Examples\<close>

definition demo_info :: CommandInfo where
  "demo_info = \<lparr>ci_tcInfo = \<lparr>ti_ackFlags = 0, ti_tcPacketId = 0, ti_tcSequenceControl = 0\<rparr>, ci_uptimeOfStart = 0, ci_step = 0,
     ci_subservice = 0, ci_state = 0, ci_command = 0, ci_objectId = 0, ci_fifo = fifo_init []\<rparr>"

definition demo_methods :: "unit methods" where
  "demo_methods = \<lparr>m_isValidSubservice = (\<lambda>_. OK), m_getMessageQueueAndObject = (\<lambda>_ _. (OK, 7, 1)),
     m_prepareCommand = (\<lambda>_ _ state _ c. (OK, cm_new 1 2 3, state, c)),
     m_handleReply = (\<lambda>r _ state _ p c. (EXECUTION_COMPLETE, state, cm_new CMD_NONE 0 0, False, p, c)),
     m_handleUnrequestedReply = (\<lambda>_ c. c), m_doPeriodicOperation = (\<lambda>c. c), m_clear = (\<lambda>_ c. c),
     m_status = (\<lambda>_ _. OK), m_now = 100, m_uninitialized = demo_info\<rparr>"

definition demo_service :: "unit csb" where
  "demo_service = cs_new 5 60 (replicate 2 (0, demo_info)) (pool_init [] False) ()"

lemma demo_service_ok: "cs_ok demo_service" "started demo_service = 0" "starts demo_service = 0" "waiting demo_service = 0"
  by (simp_all add: demo_service_def cs_new_def Let_def cs_ok_def fm_inv_def fm_entries_def started_def starts_def waiting_def)

theorem telecommands_started_once_witness:
  "\<exists>t. cs_performOperation demo_methods [] [invalid_address] demo_service = Some t \<and> starts t + waiting t = 1"
  using telecommands_started_once [OF demo_service_ok(1), of demo_methods "[]" "[invalid_address]"] demo_service_ok(3,4) by auto

theorem started_telecommands_tracked_witness:
  "\<exists>t. cs_performOperation demo_methods [] [invalid_address] demo_service = Some t \<and> started t \<le> finished t + n_active t"
proof -
  obtain t where t: "cs_performOperation demo_methods [] [invalid_address] demo_service = Some t"
    using cycle_accounts [OF demo_service_ok(1)] by blast
  then show ?thesis using started_telecommands_tracked [OF demo_service_ok(1) _ t] demo_service_ok(2) by simp
qed

end
