(* ===== verification/Verification_Reports.thy ===== *)
theory Verification_Reports
  imports Commanding Pus_Tm
begin

text \<open>
  The reports on telecommands on their way to the ground: the message of the reporter
  (\<open>src/src/fsfw/tmtcservices/VerificationReporter.cpp\<close>, \<open>PusVerificationReport.cpp\<close>), the packets of service 1
  (\<open>src/src/fsfw/pus/servicepackets/Service1Packets.h\<close>), the helpers that store and send telemetry
  (\<open>src/src/fsfw/tmtcservices/TmStoreHelper.cpp\<close>, \<open>TmSendHelper.cpp\<close>, \<open>TmStoreAndSendHelper.cpp\<close>, \<open>tmHelpers.h\<close>)
  and service 1 itself (\<open>src/src/fsfw/pus/Service1TelecommandVerification.cpp\<close>).

  The helpers hold references to each other and to the store; the record \<open>tm_helper\<close> is all of them. The status
  of a send is the argument \<open>qstat\<close>. The time stamper of the creator stamps the time of the cycle.
\<close>

section \<open>The message of the reporter\<close>

text \<open>The contents of the message, byte by byte.\<close>

definition PusVerificationMessage ::
  "u8 \<Rightarrow> u8 \<Rightarrow> u16 \<Rightarrow> u16 \<Rightarrow> u16 \<Rightarrow> u8 \<Rightarrow> u32 \<Rightarrow> u32 \<Rightarrow> bytes" where
  "PusVerificationMessage reportId ackFlags tcPacketId tcSequenceControl errorCode step parameter1 parameter2 =
     [reportId, ackFlags] @ mem_image tcPacketId @ mem_image tcSequenceControl @ [step] @ mem_image errorCode @
     mem_image parameter1 @ mem_image parameter2"

definition pvm_getReportId :: "bytes \<Rightarrow> u8" where
  "pvm_getReportId m = m ! 0"

definition pvm_getAckFlags :: "bytes \<Rightarrow> u8" where
  "pvm_getAckFlags m = m ! 1"

definition pvm_getTcPacketId :: "bytes \<Rightarrow> u16" where
  "pvm_getTcPacketId m = from_image (take 2 (drop 2 m))"

definition pvm_getTcSequenceControl :: "bytes \<Rightarrow> u16" where
  "pvm_getTcSequenceControl m = from_image (take 2 (drop 4 m))"

definition pvm_getStep :: "bytes \<Rightarrow> u8" where
  "pvm_getStep m = m ! 6"

definition pvm_getErrorCode :: "bytes \<Rightarrow> u16" where
  "pvm_getErrorCode m = from_image (take 2 (drop 7 m))"

definition pvm_getParameter1 :: "bytes \<Rightarrow> u32" where
  "pvm_getParameter1 m = from_image (take 4 (drop 9 m))"

definition pvm_getParameter2 :: "bytes \<Rightarrow> u32" where
  "pvm_getParameter2 m = from_image (take 4 (drop 13 m))"

text \<open>The reporter; \<open>sent\<close> are the messages sent so far.\<close>

definition vr_send ::
  "(queue_id \<Rightarrow> (queue_id \<times> bytes) list \<Rightarrow> retval) \<Rightarrow> queue_id \<Rightarrow> bytes \<Rightarrow> (queue_id \<times> bytes) list \<Rightarrow> retval \<times> (queue_id \<times> bytes) list" where
  "vr_send qstat q m sent = (let status = qstat q sent in (status, if status = OK then sent @ [(q, m)] else sent))"

definition failure_message :: "VerifParams \<Rightarrow> bytes" where
  "failure_message p = PusVerificationMessage (vp_reportId p) (vp_ackFlags p) (vp_tcPacketId p) (vp_tcPsc p)
     (rv_code (vp_errorCode p)) (vp_step p) (vp_errorParam1 p) (vp_errorParam2 p)"

definition success_message :: "VerifParams \<Rightarrow> bytes" where
  "success_message p = PusVerificationMessage (vp_reportId p) (vp_ackFlags p) (vp_tcPacketId p) (vp_tcPsc p)
     (rv_code OK) (vp_step p) 0 0"

definition sendFailureReport ::
  "(queue_id \<Rightarrow> (queue_id \<times> bytes) list \<Rightarrow> retval) \<Rightarrow> queue_id \<Rightarrow> VerifParams \<Rightarrow> (queue_id \<times> bytes) list \<Rightarrow> retval \<times> (queue_id \<times> bytes) list" where
  "sendFailureReport qstat acknowledgeQueue params sent = vr_send qstat acknowledgeQueue (failure_message params) sent"

definition sendSuccessReport ::
  "(queue_id \<Rightarrow> (queue_id \<times> bytes) list \<Rightarrow> retval) \<Rightarrow> queue_id \<Rightarrow> VerifParams \<Rightarrow> (queue_id \<times> bytes) list \<Rightarrow> retval \<times> (queue_id \<times> bytes) list" where
  "sendSuccessReport qstat acknowledgeQueue params sent = vr_send qstat acknowledgeQueue (success_message params) sent"

section \<open>Source data of the reports\<close>

text \<open>Serialization of one object after the other, up to the first error.\<close>

fun ser_seq :: "(sink \<Rightarrow> retval \<times> sink) list \<Rightarrow> sink \<Rightarrow> retval \<times> sink" where
  "ser_seq [] snk = (OK, snk)"
| "ser_seq (f # fs) snk = (case f snk of (result, snk) \<Rightarrow> if result \<noteq> OK then (result, snk) else ser_seq fs snk)"

record FailureReport =
  fr_packetId :: u16
  fr_packetSequenceControl :: u16
  fr_stepNumber :: u8
  fr_errorCode :: u16
  fr_errorParameter1 :: u32
  fr_errorParameter2 :: u32
  fr_failureSubtype :: u8

definition fr_serialize :: "FailureReport \<Rightarrow> Endianness \<Rightarrow> sink \<Rightarrow> nat \<Rightarrow> retval \<times> sink" where
  "fr_serialize r e snk maxSize =
     ser_seq ([\<lambda>s. ser_word e (fr_packetId r) s maxSize, \<lambda>s. ser_word e (fr_packetSequenceControl r) s maxSize] @
       (if fr_failureSubtype r = RID_PROGRESS_FAILURE then [\<lambda>s. ser_word e (fr_stepNumber r) s maxSize] else []) @
       [\<lambda>s. ser_word e (fr_errorCode r) s maxSize, \<lambda>s. ser_word e (fr_errorParameter1 r) s maxSize,
        \<lambda>s. ser_word e (fr_errorParameter2 r) s maxSize]) snk"

definition fr_getSerializedSize :: "FailureReport \<Rightarrow> nat" where
  "fr_getSerializedSize r =
     2 + 2 + (if fr_failureSubtype r = RID_PROGRESS_FAILURE then 1 else 0) + 2 + 4 + 4"

record SuccessReport =
  sr_packetId :: u16
  sr_packetSequenceControl :: u16
  sr_stepNumber :: u8
  sr_subtype :: u8

definition sr_serialize :: "SuccessReport \<Rightarrow> Endianness \<Rightarrow> sink \<Rightarrow> nat \<Rightarrow> retval \<times> sink" where
  "sr_serialize r e snk maxSize =
     ser_seq ([\<lambda>s. ser_word e (sr_packetId r) s maxSize, \<lambda>s. ser_word e (sr_packetSequenceControl r) s maxSize] @
       (if sr_subtype r = RID_PROGRESS_SUCCESS then [\<lambda>s. ser_word e (sr_stepNumber r) s maxSize] else [])) snk"

definition sr_getSerializedSize :: "SuccessReport \<Rightarrow> nat" where
  "sr_getSerializedSize r = 2 + 2 + (if sr_subtype r = RID_PROGRESS_SUCCESS then 1 else 0)"

text \<open>Data behind the identifier of the object they belong to.\<close>

definition dwo_getSerializedSize :: "ser_obj option \<Rightarrow> nat" where
  "dwo_getSerializedSize userData = (case userData of None \<Rightarrow> 0 | Some obj \<Rightarrow> snd obj)"

definition dwo_serialize :: "u32 \<Rightarrow> ser_obj option \<Rightarrow> Endianness \<Rightarrow> sink \<Rightarrow> nat \<Rightarrow> retval \<times> sink" where
  "dwo_serialize objectId userData e snk maxSize =
     (if snd snk + dwo_getSerializedSize userData > maxSize then (BUFFER_TOO_SHORT, snk)
      else (case ser_word e objectId snk maxSize of (result, snk) \<Rightarrow>
        if result \<noteq> OK then (result, snk) else ser_opt userData e snk maxSize))"

definition DataWithObjectIdPrefix :: "u32 \<Rightarrow> ser_obj option \<Rightarrow> ser_obj" where
  "DataWithObjectIdPrefix objectId userData = (dwo_serialize objectId userData, dwo_getSerializedSize userData)"

section \<open>Storing and sending of telemetry\<close>

record tm_helper =
  th_creator :: tm_creator
  th_tmStore :: pool
  th_currentAddr :: store_address
  th_queue :: "queue_id option"
  th_errReporter :: bool
  th_ignoreFault :: bool
  th_lostTm :: nat
  th_sent :: "(queue_id \<times> store_address) list"
  th_defaultService :: u8
  th_delOnFailure :: bool
  th_incrementSendCounter :: bool
  th_sendCounter :: u16

definition preparePacket :: "u8 \<Rightarrow> u8 \<Rightarrow> u16 \<Rightarrow> tm_helper \<Rightarrow> tm_helper" where
  "preparePacket service subservice counter h =
     h\<lparr>th_creator := tmc_setMessageTypeCounter counter (tmc_setSubservice subservice (tmc_setService service (th_creator h)))\<rparr>"

definition setSourceDataRaw :: "bytes option \<Rightarrow> nat \<Rightarrow> tm_helper \<Rightarrow> retval \<times> tm_helper" where
  "setSourceDataRaw data len h =
     (case tmc_setRawUserData data len (th_creator h) of (result, c) \<Rightarrow> (result, h\<lparr>th_creator := c\<rparr>))"

definition setSourceDataSerializable :: "ser_obj \<Rightarrow> tm_helper \<Rightarrow> retval \<times> tm_helper" where
  "setSourceDataSerializable obj h =
     (case tmc_setSerializableUserData obj (th_creator h) of (result, c) \<Rightarrow> (result, h\<lparr>th_creator := c\<rparr>))"

text \<open>The two bytes of a checksum that is not calculated are not written.\<close>

definition addPacketToStore :: "tm_helper \<Rightarrow> retval \<times> tm_helper" where
  "addPacketToStore h =
     (let c = tmc_updateSpLengthField (th_creator h); h = h\<lparr>th_creator := c\<rparr> in
      case pool_getFreeElement (th_currentAddr h) (tmc_getSerializedSize c) (th_tmStore h) of (result, pos, addr, p) \<Rightarrow>
        (let h = h\<lparr>th_currentAddr := addr, th_tmStore := p\<rparr> in
         if result \<noteq> OK then (result, h)
         else (case tmc_serialize (0, 0) BIG c ([], 0) (tmc_getSerializedSize c) of (result, out, n) \<Rightarrow>
           (result, h\<lparr>th_tmStore := page_write addr (if result = OK \<and> \<not> tmc_calculateCrc c then take (length out - 2) out else out) p\<rparr>))))"

definition th_deletePacket :: "tm_helper \<Rightarrow> retval \<times> tm_helper" where
  "th_deletePacket h =
     (case pool_deleteData (th_currentAddr h) (th_tmStore h) of (result, p) \<Rightarrow>
        (result, if result = OK then h\<lparr>th_tmStore := p, th_currentAddr := invalid_address\<rparr> else h\<lparr>th_tmStore := p\<rparr>))"

definition sendPacket :: "(queue_id \<Rightarrow> (queue_id \<times> store_address) list \<Rightarrow> retval) \<Rightarrow> store_address \<Rightarrow> tm_helper \<Rightarrow> retval \<times> tm_helper" where
  "sendPacket qstat storeId h =
     (case th_queue h of
        None \<Rightarrow> (FAILED, h)
      | Some dest \<Rightarrow>
          (let result = qstat dest (th_sent h) in
           if result \<noteq> OK then
             (result, if th_errReporter h \<and> \<not> th_ignoreFault h then h\<lparr>th_lostTm := Suc (th_lostTm h)\<rparr> else h)
           else (result, h\<lparr>th_sent := th_sent h @ [(dest, storeId)]\<rparr>)))"

definition storeAndSendTmPacket ::
  "(queue_id \<Rightarrow> (queue_id \<times> store_address) list \<Rightarrow> retval) \<Rightarrow> tm_helper \<Rightarrow> retval \<times> tm_helper" where
  "storeAndSendTmPacket qstat h =
     (case addPacketToStore h of (result, h) \<Rightarrow>
        if result \<noteq> OK then (result, h)
        else (case sendPacket qstat (th_currentAddr h) h of (result, h) \<Rightarrow>
          if result \<noteq> OK then (result, if th_delOnFailure h then snd (th_deletePacket h) else h)
          else (result, if th_incrementSendCounter h then h\<lparr>th_sendCounter := th_sendCounter h + 1\<rparr> else h)))"

definition prepareTmPacket_raw :: "u8 \<Rightarrow> bytes option \<Rightarrow> nat \<Rightarrow> tm_helper \<Rightarrow> retval \<times> tm_helper" where
  "prepareTmPacket_raw subservice sourceData len h =
     setSourceDataRaw sourceData len (preparePacket (th_defaultService h) subservice (th_sendCounter h) h)"

definition prepareTmPacket :: "u8 \<Rightarrow> ser_obj \<Rightarrow> tm_helper \<Rightarrow> retval \<times> tm_helper" where
  "prepareTmPacket subservice sourceData h =
     setSourceDataSerializable sourceData (preparePacket (th_defaultService h) subservice (th_sendCounter h) h)"

definition prepareTmPacket_prefix :: "u8 \<Rightarrow> u32 \<Rightarrow> ser_obj option \<Rightarrow> tm_helper \<Rightarrow> retval \<times> tm_helper" where
  "prepareTmPacket_prefix subservice objectId data h =
     setSourceDataSerializable (DataWithObjectIdPrefix objectId data)
       (preparePacket (th_defaultService h) subservice (th_sendCounter h) h)"

definition prepareTmPacket_empty :: "u8 \<Rightarrow> tm_helper \<Rightarrow> retval \<times> tm_helper" where
  "prepareTmPacket_empty subservice h =
     setSourceDataRaw None 0 (preparePacket (th_defaultService h) subservice (th_sendCounter h) h)"

text \<open>The three ways in which a commanding service sends telemetry.\<close>

definition sendTmPacket_raw ::
  "(queue_id \<Rightarrow> (queue_id \<times> store_address) list \<Rightarrow> retval) \<Rightarrow> u8 \<Rightarrow> bytes option \<Rightarrow> nat \<Rightarrow> tm_helper \<Rightarrow> retval \<times> tm_helper" where
  "sendTmPacket_raw qstat subservice sourceData len h =
     (case prepareTmPacket_raw subservice sourceData len h of (result, h) \<Rightarrow>
        if result \<noteq> OK then (result, h) else storeAndSendTmPacket qstat h)"

definition sendTmPacket_prefix ::
  "(queue_id \<Rightarrow> (queue_id \<times> store_address) list \<Rightarrow> retval) \<Rightarrow> u8 \<Rightarrow> u32 \<Rightarrow> bytes option \<Rightarrow> nat \<Rightarrow> tm_helper \<Rightarrow> retval \<times> tm_helper" where
  "sendTmPacket_prefix qstat subservice objectId data dataLen h =
     (case prepareTmPacket_prefix subservice objectId (Some (ba_obj (ba_from_const data (of_nat dataLen :: u8) False))) h of
        (result, h) \<Rightarrow> if result \<noteq> OK then (result, h) else storeAndSendTmPacket qstat h)"

definition sendTmPacket ::
  "(queue_id \<Rightarrow> (queue_id \<times> store_address) list \<Rightarrow> retval) \<Rightarrow> u8 \<Rightarrow> ser_obj \<Rightarrow> tm_helper \<Rightarrow> retval \<times> tm_helper" where
  "sendTmPacket qstat subservice sourceData h =
     (case prepareTmPacket subservice sourceData h of (result, h) \<Rightarrow>
        if result \<noteq> OK then (result, h) else storeAndSendTmPacket qstat h)"

section \<open>Service 1\<close>

record service1 =
  s1_serviceId :: u8
  s1_packetSubCounter :: u16
  s1_tmHelper :: tm_helper

definition s1_generate ::
  "(queue_id \<Rightarrow> (queue_id \<times> store_address) list \<Rightarrow> retval) \<Rightarrow> u8 \<Rightarrow> ser_obj \<Rightarrow> service1 \<Rightarrow> retval \<times> service1" where
  "s1_generate qstat reportId obj s =
     (let h = preparePacket (s1_serviceId s) reportId (s1_packetSubCounter s) (s1_tmHelper s);
          s = s\<lparr>s1_packetSubCounter := s1_packetSubCounter s + 1\<rparr>;
          (result, h) = setSourceDataSerializable obj h
      in if result \<noteq> OK then (result, s\<lparr>s1_tmHelper := h\<rparr>)
         else (case storeAndSendTmPacket qstat h of (result, h) \<Rightarrow> (result, s\<lparr>s1_tmHelper := h\<rparr>)))"

definition generateFailureReport ::
  "(queue_id \<Rightarrow> (queue_id \<times> store_address) list \<Rightarrow> retval) \<Rightarrow> bytes \<Rightarrow> service1 \<Rightarrow> retval \<times> service1" where
  "generateFailureReport qstat m s =
     (let report = \<lparr>fr_packetId = pvm_getTcPacketId m, fr_packetSequenceControl = pvm_getTcSequenceControl m,
            fr_stepNumber = pvm_getStep m, fr_errorCode = pvm_getErrorCode m, fr_errorParameter1 = pvm_getParameter1 m,
            fr_errorParameter2 = pvm_getParameter2 m, fr_failureSubtype = pvm_getReportId m\<rparr>
      in s1_generate qstat (pvm_getReportId m) (fr_serialize report, fr_getSerializedSize report) s)"

definition generateSuccessReport ::
  "(queue_id \<Rightarrow> (queue_id \<times> store_address) list \<Rightarrow> retval) \<Rightarrow> bytes \<Rightarrow> service1 \<Rightarrow> retval \<times> service1" where
  "generateSuccessReport qstat m s =
     (let report = \<lparr>sr_packetId = pvm_getTcPacketId m, sr_packetSequenceControl = pvm_getTcSequenceControl m,
            sr_stepNumber = pvm_getStep m, sr_subtype = pvm_getReportId m\<rparr>
      in s1_generate qstat (pvm_getReportId m) (sr_serialize report, sr_getSerializedSize report) s)"

definition sendVerificationReport ::
  "(queue_id \<Rightarrow> (queue_id \<times> store_address) list \<Rightarrow> retval) \<Rightarrow> bytes \<Rightarrow> service1 \<Rightarrow> retval \<times> service1" where
  "sendVerificationReport qstat m s =
     (let reportId = pvm_getReportId m in
      if reportId = 0 \<or> reportId > 8 then (FAILED, s)
      else if reportId mod 2 = 0 then generateFailureReport qstat m s
      else generateSuccessReport qstat m s)"

text \<open>The loop over the messages of the queue: the status, the messages that stay in the queue, and the state.\<close>

fun s1_performOperation ::
  "(queue_id \<Rightarrow> (queue_id \<times> store_address) list \<Rightarrow> retval) \<Rightarrow> bytes list \<Rightarrow> service1 \<Rightarrow> retval \<times> bytes list \<times> service1" where
  "s1_performOperation qstat [] s = (OK, [], s)"
| "s1_performOperation qstat (m # ms) s =
     (case sendVerificationReport qstat m s of (status, s) \<Rightarrow>
        if status \<noteq> OK then (status, ms, s) else s1_performOperation qstat ms s)"


section \<open>What a report carries\<close>

lemma sizeof_words [simp]: "sizeof (w :: u16) = 2" "sizeof (v :: u32) = 4"
  by (simp_all add: sizeof_def)

lemma message_fields:
  fixes i ack pid psc err st p1 p2
  defines "m \<equiv> PusVerificationMessage i ack pid psc err st p1 p2"
  shows "pvm_getReportId m = i" "pvm_getAckFlags m = ack" "pvm_getTcPacketId m = pid" "pvm_getTcSequenceControl m = psc"
    "pvm_getStep m = st" "pvm_getErrorCode m = err" "pvm_getParameter1 m = p1" "pvm_getParameter2 m = p2"
  unfolding m_def PusVerificationMessage_def
  by (simp_all add: pvm_getReportId_def pvm_getAckFlags_def pvm_getTcPacketId_def pvm_getTcSequenceControl_def
      pvm_getStep_def pvm_getErrorCode_def pvm_getParameter1_def pvm_getParameter2_def nth_append numeral_2_eq_2 [symmetric])

lemma length_convertBigEndian [simp]: "length (convertBigEndian xs) = length xs"
  by (simp add: convertBigEndian_def)

text \<open>The message that the reporter sends for a report, and the source data of the packet that goes to the ground.\<close>

definition message_of :: "VerifParams \<Rightarrow> bytes" where
  "message_of p = (if vp_reportId p mod 2 = 0 then failure_message p else success_message p)"

definition request_id :: "VerifParams \<Rightarrow> bytes" where
  "request_id p = enc_word BIG (vp_tcPacketId p) @ enc_word BIG (vp_tcPsc p)"

definition report_data :: "VerifParams \<Rightarrow> bytes" where
  "report_data p = request_id p @
     (if vp_reportId p \<in> {RID_PROGRESS_SUCCESS, RID_PROGRESS_FAILURE} then [vp_step p] else []) @
     (if vp_reportId p mod 2 = 0
      then enc_word BIG (rv_code (vp_errorCode p)) @ enc_word BIG (vp_errorParam1 p) @ enc_word BIG (vp_errorParam2 p) else [])"

lemma ser_seq_append: "ser_seq (fs @ gs) snk = (case ser_seq fs snk of (r, snk) \<Rightarrow> if r \<noteq> OK then (r, snk) else ser_seq gs snk)"
  by (induction fs arbitrary: snk) (auto split: prod.split)

lemma fr_serialize_fits:
  assumes "n + fr_getSerializedSize r \<le> m"
  shows "fr_serialize r e (out, n) m = (OK, out @ enc_word e (fr_packetId r) @ enc_word e (fr_packetSequenceControl r) @
      (if fr_failureSubtype r = RID_PROGRESS_FAILURE then [fr_stepNumber r] else []) @
      enc_word e (fr_errorCode r) @ enc_word e (fr_errorParameter1 r) @ enc_word e (fr_errorParameter2 r), n + fr_getSerializedSize r)"
  using assms by (cases "fr_failureSubtype r = RID_PROGRESS_FAILURE") (simp_all add: fr_serialize_def fr_getSerializedSize_def ser_seq_append ser_u8.ser_fits ser_u16.ser_fits ser_u32.ser_fits)

lemma sr_serialize_fits:
  assumes "n + sr_getSerializedSize r \<le> m"
  shows "sr_serialize r e (out, n) m = (OK, out @ enc_word e (sr_packetId r) @ enc_word e (sr_packetSequenceControl r) @
      (if sr_subtype r = RID_PROGRESS_SUCCESS then [sr_stepNumber r] else []), n + sr_getSerializedSize r)"
  using assms by (cases "sr_subtype r = RID_PROGRESS_SUCCESS") (simp_all add: sr_serialize_def sr_getSerializedSize_def ser_seq_append ser_u8.ser_fits ser_u16.ser_fits)

section \<open>Packets in the telemetry store\<close>

lemma free_element_write:
  assumes "pool_getFreeElement a (length d) p = (OK, pos, a', q)"
  shows "pool_addData a d p = (OK, a', page_write a' d q)"
proof -
  obtain st b q' where r: "reserveSpace (length d) a p = (st, b, q')" by (metis surj_pair)
  then have ok: "st = OK" "b = a'" "q' = q" using assms by (auto simp: pool_getFreeElement_def split: if_splits)
  have sz: "sizeLists q = (sizeLists p)[poolIndex a' := (sizeLists p ! poolIndex a')[packetIndex a' := length d]]"
    using r ok by (auto simp: reserveSpace_def split: prod.splits if_splits)
  have "(sizeLists q)[poolIndex a' := (sizeLists q ! poolIndex a')[packetIndex a' := length d]] = sizeLists q"
    unfolding sz by (cases "poolIndex a' < length (sizeLists p)") (simp_all add: list_update_beyond)
  then have "pool_write a' d q = page_write a' d q" by (simp add: pool_write_def page_write_def)
  then show ?thesis using r ok by (simp add: pool_addData_def)
qed

lemma no_free_element:
  assumes "pool_getFreeElement a (length d) p = (st, pos, a', q)" "st \<noteq> OK"
  shows "pool_addData a d p = (st, a', q)"
  using assms by (auto simp: pool_getFreeElement_def pool_addData_def split: prod.splits if_splits)

text \<open>A helper that is set up: a CDS stamper with the time \<open>p\<close>, checksums, valid identifiers, a store.\<close>

definition tm_ready :: "time_env \<times> timeval \<Rightarrow> tm_helper \<Rightarrow> bool" where
  "tm_ready p h \<longleftrightarrow> (let c = th_creator h; sp = spc_params (tmc_sp c); sec = tm_secHeader (tmc_pus c) in
     tms_timeStamper sec = Some (cds.stamper p) \<and> cds_valid p \<and> tmc_calculateCrc c \<and> spc_valid (tmc_sp c) \<and>
     tms_pusVersion sec < 16 \<and> tms_scTimeRefStatus sec < 16 \<and> apid (sp_packetId sp) < LIMIT_APID \<and>
     seqCount (sp_packetSeqCtrl sp) < LIMIT_SEQUENCE_COUNT \<and> packetType (sp_packetId sp) = TM \<and>
     secHeaderFlag (sp_packetId sp) \<and> small_pool (th_tmStore h) \<and> th_delOnFailure h)"

text \<open>
  What the ground reads from a packet: service, subservice, counter and source data of a telemetry packet with a
  valid checksum and the application identifier of the helper.
\<close>

definition reads_as :: "time_env \<times> timeval \<Rightarrow> bytes \<Rightarrow> u16 \<Rightarrow> u8 \<Rightarrow> u8 \<Rightarrow> u16 \<Rightarrow> bytes \<Rightarrow> bool" where
  "reads_as p pkt ap service subservice counter data \<longleftrightarrow>
     (let (res, r) = tmr_setReadOnlyData (Some pkt) (length pkt) (tmr_new (Some (cds.reader p demo_now)));
          (res', r) = tmr_parseData True r
      in res = OK \<and> res' = OK \<and> sp_getApid (spr_getPacketIdRaw (tmr_sp r)) = ap \<and>
         tmr_getService r = service \<and> tmr_getSubService r = subservice \<and> tmr_getMessageTypeCounter r = counter \<and>
         tmr_userData r = data \<and> tmr_timeReader r = Some (cds.reader p (cds_seen p)))"

lemma reads_body:
  assumes sp: "unat (sp_dataLen q) = 15 + length data" "apid (sp_packetId q) < LIMIT_APID"
    and sec: "tms_pusVersion sec < 16" "tms_scTimeRefStatus sec < 16" and p: "cds_valid p"
  shows "reads_as p (with_crc (tm_body q sec (cds_stamp p) data)) (apid (sp_packetId q)) (tms_service sec) (tms_subservice sec)
    (tms_messageTypeCounter sec) data"
proof -
  let ?b = "tm_body q sec (cds_stamp p) data" let ?crc = "[hi8 (crc16ccitt ?b), lo8 (crc16ccitt ?b)]"
  have ls: "length (cds_stamp p) = 7" using cds.length_stamp [OF p] by simp
  have pk: "with_crc ?b = sp_header_bytes q @ tm_sec_header sec @ cds_stamp p @ data @ ?crc @ []"
    by (simp add: with_crc_def tm_body_def)
  have lp: "length (with_crc ?b) = 22 + length data" by (simp add: with_crc_def tm_body_def ls)
  obtain res r0 where t: "tmr_setReadOnlyData (Some (with_crc ?b)) (length (with_crc ?b)) (tmr_new (Some (cds.reader p demo_now))) = (res, r0)"
    by (metis surj_pair)
  obtain res' r where u: "tmr_parseData True r0 = (res', r)" by (metis surj_pair)
  have tr: "tr_read (cds.reader p demo_now) (cds_stamp p @ bs) x (tr_state (cds.reader p demo_now)) = (OK, cds_seen p)"
    if "length (cds_stamp p) \<le> unat x" for x bs using that by (simp add: cds.reader_def ls cds.rd_stamp [OF p])
  have sz: "tr_size (cds.reader p demo_now) (cds_seen p) = length (cds_stamp p)" by (simp add: cds.reader_def ls)
  have l: "unat (sp_dataLen q) = 8 + length (cds_stamp p) + length data" using sp(1) ls by simp
  have n: "15 + length (cds_stamp p) + length data \<le> length (with_crc ?b)" using lp ls by simp
  note q = tmr_parse_packet [OF l n pk _ _ tr sz t u]
  have crc: "crc16ccitt (take (15 + length (cds_stamp p) + length data) (with_crc ?b)) = 0"
    using lp ls by (simp add: crc_with_crc)
  have "tmr_secHeaderStart r = Some (tm_sec_header sec @ (cds_stamp p @ data @ ?crc @ []))" using q(2) by simp
  note h = tm_sec_header_fields [OF this sec]
  have "tmr_sp r = \<lparr>spHeader = Some (sp_header_bytes q @ (tm_sec_header sec @ cds_stamp p @ data @ ?crc @ [])),
      packetDataField = Some (tm_sec_header sec @ cds_stamp p @ data @ ?crc @ []), spr_bufSize = length (with_crc ?b)\<rparr>"
    using q(5) by (simp add: pk)
  then have "sp_getApid (spr_getPacketIdRaw (tmr_sp r)) = apid (sp_packetId q)"
    using reader_of_header(1) pid_roundtrip [OF sp(2)] by (simp add: sp_accessors)
  moreover have "tmr_timeReader r = Some (cds.reader p (cds_seen p))" using q(8) by (simp add: cds.reader_def)
  ultimately show ?thesis using q(1,3,7) h crc unfolding reads_as_def Let_def t prod.case u by simp
qed

text \<open>An object that serializes to \<open>data\<close>, as \<open>SerializeIF\<close> promises.\<close>

definition writes :: "ser_obj \<Rightarrow> bytes \<Rightarrow> bool" where
  "writes obj data \<longleftrightarrow> snd obj = length data \<and>
     (\<forall>out n m. n + length data \<le> m \<longrightarrow> fst obj BIG (out, n) m = (OK, out @ data, n + length data))"

abbreviation contents :: "tm_helper \<Rightarrow> store_address \<Rightarrow> bytes option" where
  "contents h \<equiv> pool_contents (th_tmStore h)"

abbreviation sec_of :: "tm_helper \<Rightarrow> PusTmSecHeader" where
  "sec_of h \<equiv> tm_secHeader (tmc_pus (th_creator h))"

abbreviation apid_of :: "tm_helper \<Rightarrow> u16" where
  "apid_of h \<equiv> apid (sp_packetId (spc_params (tmc_sp (th_creator h))))"

lemma ready_length:
  assumes h: "tm_ready p h" and src: "tm_sourceData (tmc_pus (th_creator h)) = Some obj" "snd obj \<le> 1000"
  defines "c \<equiv> tmc_updateSpLengthField (th_creator h)"
  shows "spc_params (tmc_sp c) = (spc_params (tmc_sp (th_creator h)))\<lparr>sp_dataLen := of_nat (15 + snd obj)\<rparr>"
    "unat (sp_dataLen (spc_params (tmc_sp c))) = 15 + snd obj" "tmc_getSerializedSize c = 22 + snd obj"
proof -
  have st: "tms_timeStamper (sec_of h) = Some (cds.stamper p)" using h by (simp add: tm_ready_def Let_def)
  show q: "spc_params (tmc_sp c) = (spc_params (tmc_sp (th_creator h)))\<lparr>sp_dataLen := of_nat (15 + snd obj)\<rparr>"
    using src st by (simp add: c_def tmc_updateSpLengthField_def Let_def cds.stamper_def setCcsdsLenFromTotalDataFieldLen_def spc_setDataLenField_def)
  show l: "unat (sp_dataLen (spc_params (tmc_sp c))) = 15 + snd obj"
    using src(2) by (simp add: q unat_of_nat take_bit_nat_eq_self flip: of_nat_add)
  then show "tmc_getSerializedSize c = 22 + snd obj"
    by (simp add: tmc_getSerializedSize_def tmc_getFullPacketLen_def sp_getFullPacketLen_def spc_getPacketDataLen_def)
qed

lemma updateSpLength_frame [simp]:
  "tmc_pus (tmc_updateSpLengthField c) = tmc_pus c" "tmc_calculateCrc (tmc_updateSpLengthField c) = tmc_calculateCrc c"
  "spc_valid (tmc_sp (tmc_updateSpLengthField c)) = spc_valid (tmc_sp c)"
  "sp_packetId (spc_params (tmc_sp (tmc_updateSpLengthField c))) = sp_packetId (spc_params (tmc_sp c))"
  "sp_packetSeqCtrl (spc_params (tmc_sp (tmc_updateSpLengthField c))) = sp_packetSeqCtrl (spc_params (tmc_sp c))"
  by (simp_all add: tmc_updateSpLengthField_def Let_def setCcsdsLenFromTotalDataFieldLen_def spc_setDataLenField_def)

lemma created_packet:
  assumes h: "tm_ready p h" and src: "tm_sourceData (tmc_pus (th_creator h)) = Some obj" and w: "writes obj data" "length data \<le> 1000"
  defines "c \<equiv> tmc_updateSpLengthField (th_creator h)"
  shows "tmc_getSerializedSize c = 22 + length data"
    and "\<exists>pkt. tmc_serialize old BIG c ([], 0) (22 + length data) = (OK, pkt, 22 + length data) \<and> length pkt = 22 + length data \<and>
      reads_as p pkt (apid_of h) (tms_service (sec_of h)) (tms_subservice (sec_of h)) (tms_messageTypeCounter (sec_of h)) data"
    and "tm_ready p (h\<lparr>th_creator := c\<rparr>)" "tmc_calculateCrc c" "tmc_pus c = tmc_pus (th_creator h)"
    "apid (sp_packetId (spc_params (tmc_sp c))) = apid_of h"
proof -
  let ?d = "th_creator h" let ?q = "spc_params (tmc_sp c)" and ?sec = "sec_of h"
  have st: "tms_timeStamper ?sec = Some (cds.stamper p)" and v: "cds_valid p" using h by (simp_all add: tm_ready_def Let_def)
  have ls: "length (cds_stamp p) = 7" using cds.length_stamp [OF v] by simp
  have obj: "snd obj = length data" using w(1) by (simp add: writes_def)
  note len = ready_length [OF h src, unfolded obj, OF w(2), folded c_def]
  show ap: "apid (sp_packetId ?q) = apid_of h" and cc: "tmc_calculateCrc c" "tmc_pus c = tmc_pus ?d"
    using h by (simp_all add: c_def tm_ready_def Let_def)
  show "tm_ready p (h\<lparr>th_creator := c\<rparr>)" using h by (simp add: tm_ready_def Let_def c_def)
  show "tmc_getSerializedSize c = 22 + length data" by (rule len(3))
  note l = len(2)
  have "tmc_serialize old BIG c ([], 0) (22 + length data) =
      (OK, [] @ with_crc (tm_body ?q (tm_secHeader (tmc_pus c)) (cds_stamp p) data), 0 + (15 + length (cds_stamp p) + length data))"
  proof (rule tmc_serialize_data)
    show "ser_opt (tms_timeStamper (tm_secHeader (tmc_pus c))) BIG (out, n) (22 + length data) = (OK, out @ cds_stamp p, n + length (cds_stamp p))"
      if "n + length (cds_stamp p) \<le> 22 + length data" for out n
      using cds.ser_stamp [OF v] that st by (simp add: cc(2) ser_opt_def cds.stamper_def ls)
    show "ser_opt (tm_sourceData (tmc_pus c)) BIG (out, n) (22 + length data) = (OK, out @ data, n + length data)"
      if "n + length data \<le> 22 + length data" for out n
      using w(1) that src by (simp add: cc(2) ser_opt_def writes_def)
    show "spc_valid (tmc_sp c)" using h by (simp add: tm_ready_def Let_def c_def)
  qed (simp_all add: cc(1) l ls)
  moreover have "length (with_crc (tm_body ?q ?sec (cds_stamp p) data)) = 22 + length data" by (simp add: with_crc_def tm_body_def ls)
  moreover have "reads_as p (with_crc (tm_body ?q ?sec (cds_stamp p) data)) (apid (sp_packetId ?q)) (tms_service ?sec) (tms_subservice ?sec)
      (tms_messageTypeCounter ?sec) data"
    by (rule reads_body [OF l _ _ _ v]) (use h ap in \<open>simp_all add: tm_ready_def Let_def\<close>)
  ultimately show "\<exists>pkt. tmc_serialize old BIG c ([], 0) (22 + length data) = (OK, pkt, 22 + length data) \<and> length pkt = 22 + length data \<and>
      reads_as p pkt (apid_of h) (tms_service ?sec) (tms_subservice ?sec) (tms_messageTypeCounter ?sec) data"
    using ap by (auto simp: ls cc(2))
qed

text \<open>What the helpers keep apart from the store and the queue.\<close>

definition same_setup :: "tm_helper \<Rightarrow> tm_helper \<Rightarrow> bool" where
  "same_setup h h' \<longleftrightarrow> sec_of h' = sec_of h \<and> apid_of h' = apid_of h \<and> th_queue h' = th_queue h"

text \<open>Why a packet of \<open>n\<close> bytes is not sent.\<close>

definition refused :: "(queue_id \<Rightarrow> (queue_id \<times> store_address) list \<Rightarrow> retval) \<Rightarrow> tm_helper \<Rightarrow> nat \<Rightarrow> retval \<Rightarrow> bool" where
  "refused qstat h n res \<longleftrightarrow> th_queue h = None \<or> (\<exists>dest. th_queue h = Some dest \<and> qstat dest (th_sent h) = res) \<or>
     fst (pool_getFreeElement (th_currentAddr h) n (th_tmStore h)) = res"

lemma addPacket_cases:
  assumes h: "tm_ready p h" and src: "tm_sourceData (tmc_pus (th_creator h)) = Some obj" and w: "writes obj data" "length data \<le> 1000"
    and r: "addPacketToStore h = (res, h')"
  shows "tm_ready p h' \<and> same_setup h h' \<and> th_sent h' = th_sent h \<and>
    (if res = OK then
       (\<exists>pkt. contents h (th_currentAddr h') = None \<and> contents h' = (contents h)(th_currentAddr h' \<mapsto> pkt) \<and> pkt \<noteq> [] \<and>
          reads_as p pkt (apid_of h) (tms_service (sec_of h)) (tms_subservice (sec_of h)) (tms_messageTypeCounter (sec_of h)) data)
     else contents h' = contents h \<and> fst (pool_getFreeElement (th_currentAddr h) (22 + length data) (th_tmStore h)) = res)"
proof -
  let ?c = "tmc_updateSpLengthField (th_creator h)"
  note c = created_packet [OF h src w]
  obtain pkt where pkt: "tmc_serialize (0, 0) BIG ?c ([], 0) (22 + length data) = (OK, pkt, 22 + length data)" "length pkt = 22 + length data"
    "reads_as p pkt (apid_of h) (tms_service (sec_of h)) (tms_subservice (sec_of h)) (tms_messageTypeCounter (sec_of h)) data"
    using c(2) by blast
  have sp: "small_pool (th_tmStore h)" using h by (simp add: tm_ready_def Let_def)
  obtain st pos a q where f: "pool_getFreeElement (th_currentAddr h) (length pkt) (th_tmStore h) = (st, pos, a, q)" by (metis surj_pair)
  have rdy: "tm_ready p (h\<lparr>th_creator := ?c, th_currentAddr := a, th_tmStore := q\<rparr>)" if "small_pool q" for q
    using c(3) that by (simp add: tm_ready_def Let_def)
  show ?thesis
  proof (cases "st = OK")
    case True
    let ?q = "page_write a pkt q"
    have ad: "pool_addData (th_currentAddr h) pkt (th_tmStore h) = (OK, a, ?q)" using free_element_write f True by simp
    note o = local_pool.add_OK [OF sp ad]
    have "h' = h\<lparr>th_creator := ?c, th_currentAddr := a, th_tmStore := ?q\<rparr>" "res = OK"
      using r f True pkt c(1,4) by (simp_all add: addPacketToStore_def Let_def)
    moreover have "pkt \<noteq> []" using pkt(2) by auto
    ultimately show ?thesis using o rdy [of ?q] pkt(3) c(5,6) by (auto simp: same_setup_def)
  next
    case False
    have ad: "pool_addData (th_currentAddr h) pkt (th_tmStore h) = (st, a, q)" using no_free_element [OF f False] .
    note o = local_pool.add_fail [OF sp ad False]
    have "h' = h\<lparr>th_creator := ?c, th_currentAddr := a, th_tmStore := q\<rparr>" "res = st"
      using r f False c(1) pkt(2) by (simp_all add: addPacketToStore_def Let_def)
    then show ?thesis using o rdy [of q] False c(5,6) f pkt(2) by (auto simp: same_setup_def)
  qed
qed

text \<open>Either the packet is in the store and its address sent, or neither.\<close>

lemma storeAndSend_cases:
  assumes h: "tm_ready p h" and src: "tm_sourceData (tmc_pus (th_creator h)) = Some obj" and w: "writes obj data" "length data \<le> 1000"
    and r: "storeAndSendTmPacket qstat h = (res, h')"
  shows "tm_ready p h' \<and> same_setup h h' \<and>
    (if res = OK then
       (\<exists>dest a pkt. th_queue h = Some dest \<and> th_sent h' = th_sent h @ [(dest, a)] \<and> contents h a = None \<and>
          contents h' = (contents h)(a \<mapsto> pkt) \<and>
          reads_as p pkt (apid_of h) (tms_service (sec_of h)) (tms_subservice (sec_of h)) (tms_messageTypeCounter (sec_of h)) data)
     else th_sent h' = th_sent h \<and> contents h' = contents h \<and> refused qstat h (22 + length data) res)"
proof -
  obtain res1 h1 where 1: "addPacketToStore h = (res1, h1)" by (metis surj_pair)
  note a = addPacket_cases [OF h src w 1]
  show ?thesis
  proof (cases "res1 = OK")
    case False
    then show ?thesis using a r 1 by (auto simp: storeAndSendTmPacket_def refused_def)
  next
    case True
    then obtain pkt where pkt: "contents h (th_currentAddr h1) = None" "contents h1 = (contents h)(th_currentAddr h1 \<mapsto> pkt)" "pkt \<noteq> []"
      "reads_as p pkt (apid_of h) (tms_service (sec_of h)) (tms_subservice (sec_of h)) (tms_messageTypeCounter (sec_of h)) data"
      using a by auto
    obtain res2 h2 where 2: "sendPacket qstat (th_currentAddr h1) h1 = (res2, h2)" by (metis surj_pair)
    have h2: "tm_ready p h2" "same_setup h h2" "th_tmStore h2 = th_tmStore h1" "th_currentAddr h2 = th_currentAddr h1" "th_delOnFailure h2"
        "th_queue h = th_queue h1" "if res2 = OK then (\<exists>dest. th_queue h1 = Some dest \<and> th_sent h2 = th_sent h1 @ [(dest, th_currentAddr h1)])
         else th_sent h2 = th_sent h1 \<and> (\<forall>dest. th_queue h1 = Some dest \<longrightarrow> qstat dest (th_sent h1) = res2)"
      using 2 a by (auto simp: sendPacket_def Let_def tm_ready_def same_setup_def split: option.splits if_splits)
    show ?thesis
    proof (cases "res2 = OK")
      case ok: True
      then have "res = OK" "th_tmStore h' = th_tmStore h2" "th_sent h' = th_sent h2" "tm_ready p h'" "same_setup h h'"
        using r 1 2 True h2(1,2) by (auto simp: storeAndSendTmPacket_def tm_ready_def same_setup_def Let_def)
      then show ?thesis using h2 pkt a ok by (auto simp: same_setup_def)
    next
      case bad: False
      let ?d = "pool_deleteData (th_currentAddr h1) (th_tmStore h1)"
      have sp: "small_pool (th_tmStore h1)" using a by (simp add: tm_ready_def Let_def)
      have d: "small_pool (snd ?d)" "pool_contents (snd ?d) = contents h"
        using local_pool.delete_packet [OF sp, of "th_currentAddr h1" pkt] pkt by auto
      have "res = res2" "h' = snd (th_deletePacket h2)" using r 1 2 True bad h2(5) by (simp_all add: storeAndSendTmPacket_def)
      moreover have "th_tmStore (snd (th_deletePacket h2)) = snd ?d" "th_sent (snd (th_deletePacket h2)) = th_sent h2"
          "th_creator (snd (th_deletePacket h2)) = th_creator h2" "th_queue (snd (th_deletePacket h2)) = th_queue h2"
          "th_delOnFailure (snd (th_deletePacket h2)) = th_delOnFailure h2"
        using h2(3,4) by (simp_all add: th_deletePacket_def case_prod_unfold)
      ultimately show ?thesis using d h2 a bad by (auto simp: tm_ready_def same_setup_def Let_def refused_def)
    qed
  qed
qed

section \<open>Reports of service 1\<close>

lemma generate_cases:
  assumes h: "tm_ready p (s1_tmHelper s)" and w: "writes obj data" "length data \<le> 1000"
    and r: "s1_generate qstat i obj s = (res, s')"
  defines "h \<equiv> s1_tmHelper s" and "h' \<equiv> s1_tmHelper s'"
  shows "tm_ready p h' \<and> apid_of h' = apid_of h \<and> th_queue h' = th_queue h \<and> s1_serviceId s' = s1_serviceId s \<and>
    s1_packetSubCounter s' = s1_packetSubCounter s + 1 \<and>
    (if res = OK then
       (\<exists>dest a pkt. th_queue h = Some dest \<and> th_sent h' = th_sent h @ [(dest, a)] \<and> contents h a = None \<and>
          contents h' = (contents h)(a \<mapsto> pkt) \<and> reads_as p pkt (apid_of h) (s1_serviceId s) i (s1_packetSubCounter s) data)
     else th_sent h' = th_sent h \<and> contents h' = contents h \<and> refused qstat h (22 + length data) res)"
proof -
  let ?g = "snd (setSourceDataSerializable obj (preparePacket (s1_serviceId s) i (s1_packetSubCounter s) h))"
  have g: "tm_ready p ?g" "tm_sourceData (tmc_pus (th_creator ?g)) = Some obj" "th_tmStore ?g = th_tmStore h" "th_sent ?g = th_sent h"
      "th_queue ?g = th_queue h" "apid_of ?g = apid_of h" "tms_service (sec_of ?g) = s1_serviceId s" "tms_subservice (sec_of ?g) = i"
      "tms_messageTypeCounter (sec_of ?g) = s1_packetSubCounter s" "th_currentAddr ?g = th_currentAddr h"
    using h by (simp_all add: tm_ready_def Let_def setSourceDataSerializable_def preparePacket_def tmc_setSerializableUserData_def
        tmc_setMessageTypeCounter_def tmc_setSubservice_def tmc_setService_def h_def)
  obtain res1 h1 where s: "storeAndSendTmPacket qstat ?g = (res1, h1)" by (metis surj_pair)
  have f: "fst (setSourceDataSerializable obj (preparePacket (s1_serviceId s) i (s1_packetSubCounter s) h)) = OK"
    by (simp add: setSourceDataSerializable_def tmc_setSerializableUserData_def)
  have s': "res = res1" "h' = h1" "s1_serviceId s' = s1_serviceId s" "s1_packetSubCounter s' = s1_packetSubCounter s + 1"
    using r s f by (auto simp: s1_generate_def Let_def case_prod_unfold h_def h'_def)
  note c = storeAndSend_cases [OF g(1,2) w s]
  show ?thesis using c s' g(3-10) by (auto simp: same_setup_def refused_def)
qed

definition report_ok :: "VerifParams \<Rightarrow> bool" where
  "report_ok vp \<longleftrightarrow> 0 < vp_reportId vp \<and> vp_reportId vp \<le> 8"

lemma report_writes:
  assumes "report_ok vp"
  shows "\<exists>obj. sendVerificationReport qstat (message_of vp) s = s1_generate qstat (vp_reportId vp) obj s \<and> writes obj (report_data vp)"
proof -
  have i: "\<not> 8 < vp_reportId vp" "vp_reportId vp \<noteq> 0" using assms by (auto simp: report_ok_def)
  show ?thesis
  proof (cases "vp_reportId vp mod 2 = 0")
    case True
    let ?r = "\<lparr>fr_packetId = vp_tcPacketId vp, fr_packetSequenceControl = vp_tcPsc vp, fr_stepNumber = vp_step vp,
      fr_errorCode = rv_code (vp_errorCode vp), fr_errorParameter1 = vp_errorParam1 vp, fr_errorParameter2 = vp_errorParam2 vp,
      fr_failureSubtype = vp_reportId vp\<rparr>"
    have d: "vp_reportId vp \<noteq> 5" using True by auto
    have "writes (fr_serialize ?r, fr_getSerializedSize ?r) (report_data vp)" using True d
      by (auto simp: writes_def fr_serialize_fits fr_getSerializedSize_def report_data_def request_id_def)
    then show ?thesis using True i
      by (intro exI [of _ "(fr_serialize ?r, fr_getSerializedSize ?r)"])
        (simp add: sendVerificationReport_def generateFailureReport_def message_of_def failure_message_def message_fields Let_def)
  next
    case False
    let ?r = "\<lparr>sr_packetId = vp_tcPacketId vp, sr_packetSequenceControl = vp_tcPsc vp, sr_stepNumber = vp_step vp,
      sr_subtype = vp_reportId vp\<rparr>"
    have d: "vp_reportId vp \<noteq> 6" using False by auto
    have "writes (sr_serialize ?r, sr_getSerializedSize ?r) (report_data vp)" using False d
      by (auto simp: writes_def sr_serialize_fits sr_getSerializedSize_def report_data_def request_id_def)
    then show ?thesis using False i
      by (intro exI [of _ "(sr_serialize ?r, sr_getSerializedSize ?r)"])
        (simp add: sendVerificationReport_def generateSuccessReport_def message_of_def success_message_def message_fields Let_def)
  qed
qed

lemma length_report_data: "length (report_data vp) \<le> 1000"
  by (simp add: report_data_def request_id_def)

text \<open>The packet at an address of the telemetry store is the report \<open>vp\<close>.\<close>

definition report_at :: "time_env \<times> timeval \<Rightarrow> u16 \<Rightarrow> u8 \<Rightarrow> tm_helper \<Rightarrow> VerifParams \<Rightarrow> queue_id \<times> store_address \<Rightarrow> bool" where
  "report_at p ap service h vp qa \<longleftrightarrow> th_queue h = Some (fst qa) \<and>
     (\<exists>pkt n. contents h (snd qa) = Some pkt \<and> reads_as p pkt ap service (vp_reportId vp) n (report_data vp))"

definition keeps :: "tm_helper \<Rightarrow> (queue_id \<times> store_address) list \<Rightarrow> tm_helper \<Rightarrow> bool" where
  "keeps h new h' \<longleftrightarrow> th_sent h' = th_sent h @ new \<and> th_queue h' = th_queue h \<and> apid_of h' = apid_of h \<and>
     contents h \<subseteq>\<^sub>m contents h' \<and> dom (contents h') = dom (contents h) \<union> snd ` set new"

lemma keeps_refl: "th_sent h' = th_sent h \<Longrightarrow> contents h' = contents h \<Longrightarrow> th_queue h' = th_queue h \<Longrightarrow> apid_of h' = apid_of h \<Longrightarrow> keeps h [] h'"
  by (simp add: keeps_def)

lemma keeps_trans: "keeps h new h1 \<Longrightarrow> keeps h1 new' h2 \<Longrightarrow> keeps h (new @ new') h2"
  by (auto simp: keeps_def intro: map_le_trans)

lemma report_at_kept: "report_at p ap sv h vp qa \<Longrightarrow> keeps h new h' \<Longrightarrow> report_at p ap sv h' vp qa"
  by (auto simp: report_at_def keeps_def map_le_def dom_def)

lemma one_report:
  assumes h: "tm_ready p (s1_tmHelper s)" and vp: "report_ok vp" and r: "sendVerificationReport qstat (message_of vp) s = (res, s')"
  shows "tm_ready p (s1_tmHelper s') \<and> s1_serviceId s' = s1_serviceId s \<and>
    (\<exists>new. keeps (s1_tmHelper s) new (s1_tmHelper s') \<and>
       (if res = OK then \<exists>qa. new = [qa] \<and> report_at p (apid_of (s1_tmHelper s)) (s1_serviceId s) (s1_tmHelper s') vp qa
        else new = [] \<and> refused qstat (s1_tmHelper s) (22 + length (report_data vp)) res))"
proof -
  obtain obj where o: "s1_generate qstat (vp_reportId vp) obj s = (res, s')" "writes obj (report_data vp)"
    using report_writes [OF vp, of qstat s] r by auto
  note g = generate_cases [OF h o(2) length_report_data o(1)]
  show ?thesis
  proof (cases "res = OK")
    case True
    then obtain dest a pkt where d: "th_queue (s1_tmHelper s) = Some dest" "th_sent (s1_tmHelper s') = th_sent (s1_tmHelper s) @ [(dest, a)]"
      "contents (s1_tmHelper s) a = None" "contents (s1_tmHelper s') = (contents (s1_tmHelper s))(a \<mapsto> pkt)"
      "reads_as p pkt (apid_of (s1_tmHelper s)) (s1_serviceId s) (vp_reportId vp) (s1_packetSubCounter s) (report_data vp)"
      using g by auto
    then have "keeps (s1_tmHelper s) [(dest, a)] (s1_tmHelper s')" using g by (auto simp: keeps_def map_le_def dom_def)
    moreover have "report_at p (apid_of (s1_tmHelper s)) (s1_serviceId s) (s1_tmHelper s') vp (dest, a)"
      using d g by (auto simp: report_at_def)
    ultimately show ?thesis using g True by auto
  next
    case False
    then show ?thesis using g keeps_refl [of "s1_tmHelper s'" "s1_tmHelper s"] by auto
  qed
qed

lemma cycle_reports:
  assumes "tm_ready p (s1_tmHelper s)" "list_all report_ok vps" "s1_performOperation qstat (map message_of vps) s = (res, left, s')"
  shows "\<exists>n new. tm_ready p (s1_tmHelper s') \<and> keeps (s1_tmHelper s) new (s1_tmHelper s') \<and> n \<le> length vps \<and>
    list_all2 (report_at p (apid_of (s1_tmHelper s)) (s1_serviceId s) (s1_tmHelper s')) (take n vps) new \<and>
    (if res = OK then n = length vps \<and> left = [] else n < length vps \<and> left = map message_of (drop (Suc n) vps) \<and>
       (\<exists>h. keeps (s1_tmHelper s) new h \<and> refused qstat h (22 + length (report_data (vps ! n))) res))"
  using assms
proof (induction vps arbitrary: s)
  case Nil
  then show ?case using keeps_refl [of "s1_tmHelper s" "s1_tmHelper s"] by auto
next
  case (Cons vp vps)
  obtain res1 s1 where 1: "sendVerificationReport qstat (message_of vp) s = (res1, s1)" by (metis surj_pair)
  have vp: "report_ok vp" "list_all report_ok vps" using Cons.prems by simp_all
  from one_report [OF Cons.prems(1) vp(1) 1] obtain new where o: "tm_ready p (s1_tmHelper s1)" "s1_serviceId s1 = s1_serviceId s"
      "keeps (s1_tmHelper s) new (s1_tmHelper s1)"
      "if res1 = OK then \<exists>qa. new = [qa] \<and> report_at p (apid_of (s1_tmHelper s)) (s1_serviceId s) (s1_tmHelper s1) vp qa
       else new = [] \<and> refused qstat (s1_tmHelper s) (22 + length (report_data vp)) res1"
    by blast
  show ?case
  proof (cases "res1 = OK")
    case True
    then obtain qa where qa: "new = [qa]" "report_at p (apid_of (s1_tmHelper s)) (s1_serviceId s) (s1_tmHelper s1) vp qa" using o by auto
    have "s1_performOperation qstat (map message_of vps) s1 = (res, left, s')" using Cons.prems(3) 1 True by simp
    from Cons.IH [OF o(1) vp(2) this] obtain n new' where i: "tm_ready p (s1_tmHelper s')" "keeps (s1_tmHelper s1) new' (s1_tmHelper s')" "n \<le> length vps"
        "list_all2 (report_at p (apid_of (s1_tmHelper s1)) (s1_serviceId s1) (s1_tmHelper s')) (take n vps) new'"
        "if res = OK then n = length vps \<and> left = [] else n < length vps \<and> left = map message_of (drop (Suc n) vps) \<and>
       (\<exists>h. keeps (s1_tmHelper s1) new' h \<and> refused qstat h (22 + length (report_data (vps ! n))) res)" by blast
    have "report_at p (apid_of (s1_tmHelper s)) (s1_serviceId s) (s1_tmHelper s') vp qa" by (rule report_at_kept [OF qa(2) i(2)])
    moreover have "apid_of (s1_tmHelper s1) = apid_of (s1_tmHelper s)" using o(3) by (simp add: keeps_def)
    moreover have "keeps (s1_tmHelper s) (qa # new') h" if "keeps (s1_tmHelper s1) new' h" for h
      using keeps_trans [OF o(3) that] qa(1) by simp
    ultimately show ?thesis using i o(2)
      by (intro exI [of _ "Suc n"] exI [of _ "qa # new'"]) (cases "res = OK"; simp; blast)
  next
    case False
    then have "res = res1" "left = map message_of vps" "s' = s1" using Cons.prems(3) 1 by auto
    then show ?thesis using o False keeps_refl [of "s1_tmHelper s" "s1_tmHelper s"] by (intro exI [of _ 0] exI [of _ "[]"]) auto
  qed
qed

text \<open>
  C10: Verification reports reach the ground intact. Whatever reports (with a report identifier from 1 to 8) the services
  hand to the reporter, a cycle of service 1 over their messages sends the addresses of telemetry packets to its
  destination, one for each report in order until the store is full, the queue refuses one or no destination is set. Each
  packet stays in the telemetry store, has a valid checksum and reads back as the report: service, report identifier, the
  packet identifier and sequence control of the telecommand, the step, the error code and its parameters. Nothing else is
  left in the store, and no packet in it is lost. The telemetry helper of the service is set up (\<open>tm_ready\<close>): its time
  stamper writes the CDS format and the clock, which is constant over the cycle, is set to a time from 2 January 1970 to
  7 February 2106; the packet creator calculates checksums and has a valid application identifier and sequence count,
  the packet type telemetry with a secondary header and a PUS version and time reference status below 16; packets that
  could not be sent are deleted (\<open>delOnFailure\<close>); the telemetry store is a consistent local pool without a subpool of
  more than 64 KiB (\<open>small_pool\<close>).
\<close>

theorem verification_reports_delivered:
  assumes "tm_ready p (s1_tmHelper s)" "list_all report_ok vps" "s1_performOperation qstat (map message_of vps) s = (res, left, s')"
  shows "\<exists>n new. th_sent (s1_tmHelper s') = th_sent (s1_tmHelper s) @ new \<and>
    list_all2 (report_at p (apid_of (s1_tmHelper s)) (s1_serviceId s) (s1_tmHelper s')) (take n vps) new \<and>
    (if res = OK then n = length vps \<and> left = []
     else n < length vps \<and> left = map message_of (drop (Suc n) vps) \<and>
       (\<exists>h. th_sent h = th_sent (s1_tmHelper s) @ new \<and> th_queue h = th_queue (s1_tmHelper s) \<and>
          dom (contents h) = dom (contents (s1_tmHelper s)) \<union> snd ` set new \<and> refused qstat h (22 + length (report_data (vps ! n))) res)) \<and>
    contents (s1_tmHelper s) \<subseteq>\<^sub>m contents (s1_tmHelper s') \<and>
    dom (contents (s1_tmHelper s')) = dom (contents (s1_tmHelper s)) \<union> snd ` set new"
proof -
  from cycle_reports [OF assms] obtain n new where c: "keeps (s1_tmHelper s) new (s1_tmHelper s')"
      "list_all2 (report_at p (apid_of (s1_tmHelper s)) (s1_serviceId s) (s1_tmHelper s')) (take n vps) new"
      "if res = OK then n = length vps \<and> left = [] else n < length vps \<and> left = map message_of (drop (Suc n) vps) \<and>
        (\<exists>h. keeps (s1_tmHelper s) new h \<and> refused qstat h (22 + length (report_data (vps ! n))) res)" by blast
  then show ?thesis by (intro exI [of _ n] exI [of _ new]) (auto simp: keeps_def split: if_splits)
qed

definition demo_helper :: tm_helper where
  "demo_helper = \<lparr>th_creator = tmc_new (spc_params (spc_new_fields TM True 0x42 UNSEGMENTED 9 1 0))
       (tm_params_new 1 1 (Some (cds.stamper (demo_env, demo_now)))),
     th_tmStore = pool_init [(2, 64)] False, th_currentAddr = invalid_address, th_queue = Some 7, th_errReporter = False,
     th_ignoreFault = False, th_lostTm = 0, th_sent = [], th_defaultService = 1, th_delOnFailure = True,
     th_incrementSendCounter = True, th_sendCounter = 0\<rparr>"

definition demo_report :: VerifParams where
  "demo_report = \<lparr>vp_reportId = RID_START_FAILURE, vp_tcPacketId = 0x1842, vp_tcPsc = 0xC005, vp_ackFlags = ACK_ALL, vp_step = 0,
     vp_errorCode = FAILED, vp_errorParam1 = 1, vp_errorParam2 = 2\<rparr>"

lemma demo_helper_ready: "tm_ready (demo_env, demo_now) demo_helper"
proof -
  have "pool_inv (pool_init [(2, 64)] False)" by (rule pool_init_inv) (simp_all add: STORAGE_FREE_def)
  then have "small_pool (pool_init [(2, 64)] False)"
    by (simp add: small_pool_def, simp add: pool_init_def config_order_def Let_def)
  moreover have "cds_valid (demo_env, demo_now)" by (simp add: cds_valid_def demo_env_def demo_now_def)
  ultimately show ?thesis
    by (simp add: tm_ready_def demo_helper_def Let_def tmc_new_def tmc_setup_def tm_params_new_def tm_sec_new_def spc_new_fields_def
        spc_new_def checkFieldValidity_def spc_setSeqFlags_def spc_setSecHeaderFlag_def spc_setPacketType_def)
qed

theorem verification_reports_delivered_witness:
  "\<exists>s' a. s1_performOperation (\<lambda>_ _. OK) [message_of demo_report] \<lparr>s1_serviceId = 1, s1_packetSubCounter = 0, s1_tmHelper = demo_helper\<rparr> =
      (OK, [], s') \<and> th_sent (s1_tmHelper s') = [(7, a)] \<and> report_at (demo_env, demo_now) 0x42 1 (s1_tmHelper s') demo_report (7, a)"
proof -
  let ?s = "\<lparr>s1_serviceId = 1, s1_packetSubCounter = 0, s1_tmHelper = demo_helper\<rparr>"
  obtain res1 s1 where 1: "sendVerificationReport (\<lambda>_ _. OK) (message_of demo_report) ?s = (res1, s1)" by (metis surj_pair)
  obtain res left s' where r: "s1_performOperation (\<lambda>_ _. OK) (map message_of [demo_report]) ?s = (res, left, s')" by (metis surj_pair)
  have d: "list_all report_ok [demo_report]" "length (report_data demo_report) = 14"
    by (simp_all add: report_ok_def demo_report_def report_data_def request_id_def)
  have rdy: "tm_ready (demo_env, demo_now) (s1_tmHelper ?s)" using demo_helper_ready by simp
  have e: "th_queue demo_helper = Some 7" "th_sent demo_helper = []" "apid_of demo_helper = 0x42"
    by (simp_all add: demo_helper_def tmc_new_def tmc_setup_def spc_new_fields_def spc_new_def checkFieldValidity_def spc_setSeqFlags_def
        spc_setSecHeaderFlag_def spc_setPacketType_def Let_def)
  have "fst (pool_getFreeElement invalid_address 36 (pool_init [(2, 64)] False)) = OK"
    by (simp add: pool_getFreeElement_def reserveSpace_def pool_init_def config_order_def Let_def getSubPoolIndex_def
        reserve_search.simps findEmpty_def numeral_2_eq_2 scan_from.simps)
  then have "\<not> refused (\<lambda>_ _. OK) demo_helper 36 x" if "x \<noteq> OK" for x using that e by (auto simp: refused_def demo_helper_def)
  then have "res1 = OK" using one_report [OF rdy _ 1] d by (auto split: if_splits)
  then have res: "res = OK" using r 1 by simp
  obtain n new where n: "th_sent (s1_tmHelper s') = new" "list_all2 (report_at (demo_env, demo_now) 0x42 1 (s1_tmHelper s')) (take n [demo_report]) new"
      "n = 1" "left = []"
    using verification_reports_delivered [OF rdy d(1) r] res e by auto
  then obtain qa where qa: "new = [qa]" "report_at (demo_env, demo_now) 0x42 1 (s1_tmHelper s') demo_report qa"
    by (auto simp: list_all2_Cons1)
  have "th_queue (s1_tmHelper s') = Some 7"
    using cycle_reports [OF rdy d(1) r] e by (auto simp: keeps_def)
  then have "fst qa = 7" using qa(2) by (simp add: report_at_def)
  then show ?thesis using r res n qa by (cases qa) auto
qed

section \<open>Telemetry with an object identifier\<close>

text \<open>
  The size of data with an object identifier leaves out the four bytes of the identifier. The serialization into the
  element of that size always fails, nothing is sent, and the element stays reserved in the telemetry store.
\<close>

lemma dwo_fails:
  assumes "length d < 256"
  shows "fst (dwo_serialize objectId (Some (ba_obj (ba_from_const (Some d) (of_nat (length d) :: u8) False))) BIG (out, 20) (22 + length d)) =
    BUFFER_TOO_SHORT"
proof -
  have u: "unat (of_nat (length d) :: u8) = length d" using assms by (simp add: unat_of_nat take_bit_nat_eq_self)
  show ?thesis
    by (auto simp: dwo_serialize_def dwo_getSerializedSize_def ser_opt_def ba_obj_def ba_from_const_def ba_serialize_def
        ba_getSerializedSize_def u ser_word_def Let_def)
qed

lemma tmc_serialize_fails:
  assumes ts: "\<And>out n. n + length ts \<le> m \<Longrightarrow> ser_opt (tms_timeStamper (tm_secHeader (tmc_pus c))) BIG (out, n) m = (OK, out @ ts, n + length ts)"
    and data: "\<And>out. fst (ser_opt (tm_sourceData (tmc_pus c)) BIG (out, 13 + length ts) m) = res" "res \<noteq> OK"
    and v: "spc_valid (tmc_sp c)" and fit: "tmc_getSerializedSize c \<le> m" "15 + length ts \<le> m"
  shows "fst (tmc_serialize old BIG c ([], 0) m) = res"
proof -
  have sp: "spc_serialize BIG (tmc_sp c) ([], 0) m = (OK, sp_header_bytes (spc_params (tmc_sp c)), 6)"
    using v fit by (simp add: spc_serialize_OK)
  show ?thesis using fit data(2) ts [of 13] data(1)
    by (simp add: tmc_serialize_def Let_def sp ser_u16_big case_prod_unfold)
qed

lemma prefixed_telemetry_leaks:
  assumes h: "tm_ready p h" and d: "length d < 256"
    and f: "pool_getFreeElement (th_currentAddr h) (22 + length d) (th_tmStore h) = (OK, pos, a, q)"
    and r: "sendTmPacket_prefix qstat subservice objectId (Some d) (length d) h = (res, h')"
  shows "res = BUFFER_TOO_SHORT \<and> th_sent h' = th_sent h \<and> sizeLists (th_tmStore h') = sizeLists q"
proof -
  let ?obj = "DataWithObjectIdPrefix objectId (Some (ba_obj (ba_from_const (Some d) (of_nat (length d) :: u8) False)))"
  let ?g = "snd (prepareTmPacket subservice ?obj h)" let ?c = "tmc_updateSpLengthField (th_creator ?g)"
  have u: "unat (of_nat (length d) :: u8) = length d" using d by (simp add: unat_of_nat take_bit_nat_eq_self)
  have obj: "snd ?obj = length d" by (simp add: DataWithObjectIdPrefix_def dwo_getSerializedSize_def ba_obj_def ba_getSerializedSize_def ba_from_const_def u)
  have g: "tm_ready p ?g" "tm_sourceData (tmc_pus (th_creator ?g)) = Some ?obj" "th_tmStore ?g = th_tmStore h" "th_sent ?g = th_sent h"
      "th_currentAddr ?g = th_currentAddr h"
    using h by (simp_all add: tm_ready_def Let_def prepareTmPacket_def setSourceDataSerializable_def preparePacket_def tmc_setSerializableUserData_def
        tmc_setMessageTypeCounter_def tmc_setSubservice_def tmc_setService_def)
  have sz: "tmc_getSerializedSize ?c = 22 + length d" using ready_length(3) [OF g(1,2)] obj d by simp
  have v: "cds_valid p" "tms_timeStamper (sec_of ?g) = Some (cds.stamper p)" using g(1) by (simp_all add: tm_ready_def Let_def)
  have ls: "length (cds_stamp p) = 7" using cds.length_stamp [OF v(1)] by simp
  have "fst (tmc_serialize (0, 0) BIG ?c ([], 0) (22 + length d)) = BUFFER_TOO_SHORT"
  proof (rule tmc_serialize_fails [where ts = "cds_stamp p"])
    show "ser_opt (tms_timeStamper (tm_secHeader (tmc_pus ?c))) BIG (out, n) (22 + length d) = (OK, out @ cds_stamp p, n + length (cds_stamp p))"
      if "n + length (cds_stamp p) \<le> 22 + length d" for out n
      using cds.ser_stamp [OF v(1)] that v(2) by (simp add: ser_opt_def cds.stamper_def ls)
    show "fst (ser_opt (tm_sourceData (tmc_pus ?c)) BIG (out, 13 + length (cds_stamp p)) (22 + length d)) = BUFFER_TOO_SHORT" for out
      using dwo_fails [OF d, of objectId out] g(2) by (simp add: ser_opt_def DataWithObjectIdPrefix_def ls)
    show "spc_valid (tmc_sp ?c)" using g(1) by (simp add: tm_ready_def Let_def)
  qed (simp_all add: sz ls)
  then have "fst (addPacketToStore ?g) = BUFFER_TOO_SHORT \<and> th_sent (snd (addPacketToStore ?g)) = th_sent h \<and>
      sizeLists (th_tmStore (snd (addPacketToStore ?g))) = sizeLists q"
    using f g(3-5) sz by (simp add: addPacketToStore_def Let_def case_prod_unfold page_write_def)
  moreover have "sendTmPacket_prefix qstat subservice objectId (Some d) (length d) h = storeAndSendTmPacket qstat ?g"
    by (simp add: sendTmPacket_prefix_def prepareTmPacket_prefix_def prepareTmPacket_def setSourceDataSerializable_def tmc_setSerializableUserData_def)
  ultimately show ?thesis using r by (simp add: storeAndSendTmPacket_def case_prod_unfold)
qed

end
