(* ===== verification/Command_Timeouts.thy ===== *)
theory Command_Timeouts
  imports Commanding
begin

text \<open>
  The timeouts of commanding services: \<open>checkTimeout\<close> (\<open>src/src/fsfw/tmtcservices/CommandingServiceBase.cpp\<close>) walks
  over the map of active commands while it erases entries of it. An erased entry is replaced by the last one, and the
  iterator is decremented so that this one is looked at next. Every command that has expired is ended, and no other
  command is touched.
\<close>

section \<open>What the execution of the FIFO does to the other entries\<close>

text \<open>
  \<open>touched i s t\<close>: only the value of the entry at \<open>i\<close> may differ. \<open>removed i s t\<close>: the entry at \<open>i\<close> is gone and the last
  one is in its place. In both cases reports are only added.
\<close>

definition grown :: "'c csb \<Rightarrow> 'c csb \<Rightarrow> bool" where
  "grown s t \<longleftrightarrow> (\<exists>zs. cs_reports t = cs_reports s @ zs) \<and> cs_timeoutSeconds t = cs_timeoutSeconds s"

definition touched :: "nat \<Rightarrow> 'c csb \<Rightarrow> 'c csb \<Rightarrow> bool" where
  "touched i s t \<longleftrightarrow> grown s t \<and> cs_ok t \<and> n_active t = n_active s \<and> map fst (entries t) = map fst (entries s) \<and>
     (\<forall>j<n_active s. j \<noteq> i \<longrightarrow> entries t ! j = entries s ! j)"

definition removed :: "nat \<Rightarrow> 'c csb \<Rightarrow> 'c csb \<Rightarrow> bool" where
  "removed i s t \<longleftrightarrow> grown s t \<and> cs_ok t \<and> entries t = butlast ((entries s)[i := last (entries s)])"

lemma grown_refl [simp]: "grown s s"
  by (simp add: grown_def)

lemma grown_trans: "grown s t \<Longrightarrow> grown t u \<Longrightarrow> grown s u"
  by (auto simp: grown_def)

lemma grown_frame:
  "grown s t \<Longrightarrow> cs_reports u = cs_reports t \<Longrightarrow> cs_timeoutSeconds u = cs_timeoutSeconds t \<Longrightarrow> grown s u"
  by (simp add: grown_def)

lemma timeout_frame [simp]:
  "cs_timeoutSeconds (upd i f s) = cs_timeoutSeconds s" "cs_timeoutSeconds (deleteTc a s) = cs_timeoutSeconds s"
  "cs_timeoutSeconds (snd (setUpTcReader a s)) = cs_timeoutSeconds s" "cs_timeoutSeconds (snd (cs_send v q m s)) = cs_timeoutSeconds s"
  "cs_timeoutSeconds (cs_clear v m s) = cs_timeoutSeconds s" "cs_timeoutSeconds (report p s) = cs_timeoutSeconds s"
  "cs_timeoutSeconds (prepareVerificationFailureWithFullInfo r ti e b s) = cs_timeoutSeconds s"
  by (simp_all add: upd_def deleteTc_def setUpTcReader_def cs_send_def cs_clear_def report_def case_prod_unfold Let_def
      prepareVerificationFailureWithFullInfo_def)

lemma touched_refl: "cs_ok s \<Longrightarrow> touched i s s"
  by (simp add: touched_def)

lemma touched_trans: "touched i s t \<Longrightarrow> touched i t u \<Longrightarrow> touched i s u"
  by (auto simp: touched_def intro: grown_trans)

lemma touched_upd:
  assumes t: "touched i s t" and i: "i < n_active s" and f: "fifo_ok (info i t) \<Longrightarrow> fifo_ok (f (info i t))"
  shows "touched i s (upd i f t)"
proof -
  have t': "cs_ok t" "i < n_active t" "fm_inv (cs_commandMap t)" using t i by (auto simp: touched_def cs_ok_def)
  have "map fst ((entries t)[i := apsnd f (entries t ! i)]) = map fst (entries t)"
    using t'(2,3) by (simp add: map_update) (metis fst_apsnd length_map list_update_id map_update nth_map)
  then show ?thesis using t t' upd_cs_ok [of i t f, OF t'(2,1) f]
    by (auto simp: touched_def upd_entries intro: grown_frame)
qed

lemma touched_upd':
  assumes "touched i s t" "i < n_active s" "\<And>c. ci_fifo (f c) = ci_fifo c"
  shows "touched i s (upd i f t)"
  by (rule touched_upd [OF assms(1,2)]) (simp add: fifo_ok_def assms(3))

lemma touched_map:
  assumes "touched i s t" "cs_commandMap u = cs_commandMap t" "grown t u"
  shows "touched i s u"
  using assms cs_ok_map(1) [OF assms(2)] by (auto simp: touched_def intro: grown_trans)

lemma grown_ops [simp]:
  "grown t (report p t)" "grown t (deleteTc a t)" "grown t (cs_clear v m t)" "grown t (t\<lparr>cs_child := c\<rparr>)" "grown t (snd (cs_send v q m t))"
  "grown t (snd (setUpTcReader a t))" "grown t (prepareVerificationFailureWithFullInfo r ti e b t)"
  by (simp_all add: grown_def)

lemma grown_packets [simp]: "grown t (rejectPacket r a e t)" "grown t (acceptPacket r a t)"
  unfolding rejectPacket_def acceptPacket_def by (rule grown_trans [OF grown_ops(1) grown_ops(2)])+

lemma touched_frame:
  assumes "touched i s t"
  shows "touched i s (rejectPacket r a e t)" "touched i s (acceptPacket r a t)" "touched i s (report p t)" "touched i s (cs_clear v m t)"
    "touched i s (t\<lparr>cs_child := c\<rparr>)" "touched i s (snd (cs_send v q m t))" "touched i s (snd (setUpTcReader a t))"
  by (rule touched_map [OF assms]; simp)+

lemma start_step_touched:
  assumes "cs_ok s" "i < n_active s"
  shows "touched i s (snd (start_step v a i s))"
  unfolding start_step_def Let_def case_prod_unfold
  by (simp add: touched_frame touched_upd' touched_refl assms)

lemma erase_removed:
  assumes ok: "cs_ok s" and i: "i < n_active s" and e: "fifo_empty (ci_fifo (info i s))"
    and m: "fm_erase_iter i (cs_commandMap s) = (r, iter, m)"
  shows "removed i s (s\<lparr>cs_commandMap := m\<rparr>)"
proof -
  let ?m = "cs_commandMap s" let ?k = "fst (fm_map ?m ! i)"
  have inv: "fm_inv ?m" using ok by (simp add: cs_ok_def)
  have len: "length (fm_entries ?m) = fm_size ?m" "fm_size ?m \<le> length (fm_map ?m)" "distinct (map fst (fm_entries ?m))"
    using inv by (simp_all add: fm_inv_def)
  have "fm_findIndex ?k ?m = i"
  proof (rule fm_findIndex_cases [OF inv, of ?k])
    fix j assume j: "fm_findIndex ?k ?m = j" "j < fm_size ?m" "fst (fm_map ?m ! j) = ?k"
    have "map fst (fm_entries ?m) ! j = map fst (fm_entries ?m) ! i" using j i len by (simp add: fm_entries_nth)
    then show ?thesis using nth_eq_iff_index_eq [OF len(3), of j i] j i len(1) by simp
  next
    assume "map_of (fm_entries ?m) ?k = None"
    then show ?thesis using erase_iter(2) [OF inv i] by simp
  qed
  then have "fm_entries m = take (n_active s - 1) ((fm_map ?m)[i := fm_map ?m ! (n_active s - 1)])"
    using m i by (auto simp: fm_erase_iter_def fm_entries_def Let_def)
  also have "\<dots> = butlast ((fm_entries ?m)[i := last (fm_entries ?m)])"
  proof -
    have l: "last (fm_entries ?m) = fm_map ?m ! (n_active s - 1)" using i len
      by (cases "fm_entries ?m = []") (simp_all add: last_conv_nth fm_entries_nth)
    show ?thesis unfolding l using i len by (simp add: butlast_conv_take fm_entries_def take_update_swap min_def)
  qed
  finally show ?thesis using erase_accounts [OF ok i e m] by (simp add: removed_def grown_def)
qed

lemma touched_removed:
  assumes t: "touched i s t" and u: "removed i t u" and i: "i < n_active s" and ok: "cs_ok s"
  shows "removed i s u"
proof -
  have l: "length (entries t) = n_active s" "length (entries s) = n_active s" using t ok by (auto simp: touched_def cs_ok_def)
  have "butlast ((entries t)[i := last (entries t)]) = butlast ((entries s)[i := last (entries s)])"
  proof (rule nth_equalityI)
    fix j assume "j < length (butlast ((entries t)[i := last (entries t)]))"
    then have j: "j < n_active s - 1" using l by simp
    show "butlast ((entries t)[i := last (entries t)]) ! j = butlast ((entries s)[i := last (entries s)]) ! j"
    proof (cases "j = i")
      case True
      then have "n_active s - 1 \<noteq> i" using j by simp
      then have "last (entries t) = last (entries s)" using t l i
        by (subst (1 2) last_conv_nth) (auto simp: touched_def)
      then show ?thesis using True j l by (simp add: nth_butlast)
    next
      case False
      then show ?thesis using t j l by (simp add: nth_butlast touched_def)
    qed
  qed (simp add: l)
  then show ?thesis using t u by (auto simp: removed_def touched_def intro: grown_trans)
qed

lemma check_fifo_entries:
  "cs_ok s \<Longrightarrow> i < n_active s \<Longrightarrow> ci_fifo (info i s) = q \<Longrightarrow>
   (fst (check_fifo v i q s) = int i \<and> touched i s (snd (check_fifo v i q s)) \<or>
    fst (check_fifo v i q s) = int i - 1 \<and> removed i s (snd (check_fifo v i q s)))"
proof (induction v i q s rule: check_fifo.induct)
  case (1 v i q s)
  obtain r a q' where r: "fifo_retrieve False q = (r, a, q')" by (metis surj_pair)
  show ?case
  proof (cases "r = OK")
    case False
    then have e: "fifo_empty q" using r by (auto simp: fifo_retrieve_def split: if_splits)
    obtain r' iter m where m: "fm_erase_iter i (cs_commandMap s) = (r', iter, m)" by (metis surj_pair)
    have "iter = int i - 1" using erase_accounts [OF 1(2,3) _ m] e 1(4) by simp
    moreover have "removed i s (s\<lparr>cs_commandMap := m\<rparr>)" using erase_removed [OF 1(2,3) _ m] e 1(4) by simp
    ultimately show ?thesis using r False m by simp
  next
    case True
    let ?t = "upd i (\<lambda>c. c\<lparr>ci_fifo := q'\<rparr>) s"
    have f: "fifo_ok (info i s) \<Longrightarrow> fifo_ok ((info i s)\<lparr>ci_fifo := q'\<rparr>)"
      using r True fifo_retrieve_inv [of q False] 1(4) by (auto simp: fifo_ok_def fifo_retrieve_def split: if_splits)
    have t: "touched i s ?t" using touched_upd [OF touched_refl [OF 1(2)] 1(3), of "\<lambda>c. c\<lparr>ci_fifo := q'\<rparr>"] f by simp
    obtain res u where u: "setUpTcReader (the a) ?t = (res, u)" by (metis surj_pair)
    have tu: "touched i s u" using touched_frame(7) [OF t, of "the a"] u by simp
    obtain again w where w: "start_step v (the a) i u = (again, w)" by (metis surj_pair)
    have un: "cs_ok u" "i < n_active u" using tu 1(3) by (simp_all add: touched_def)
    have tw: "touched i s w" using touched_trans [OF tu start_step_touched [OF un]] w by (metis snd_conv)
    have q: "ci_fifo (info i w) = q'" "cs_ok w" "i < n_active w"
    proof -
      have "ci_fifo (info i u) = q'" using u upd_info [OF 1(3)] 1(2) map_frame(2) [of "the a" ?t] by (simp add: cs_ok_def)
      then show "ci_fifo (info i w) = q'" using start_step_same [OF un, of v "the a"] w by (simp add: same_def)
    qed (use tw 1(3) in \<open>simp_all add: touched_def\<close>)
    show ?thesis
    proof (cases "res = OK \<and> again")
      case ra: True
      note ih = "1.IH" [OF r [symmetric] refl _ refl refl u [symmetric] conjunct1 [OF ra] w [symmetric] conjunct2 [OF ra] q(2,3,1)]
      then show ?thesis using r True u w ra tw touched_trans [OF tw] touched_removed [OF tw _ 1(3,2)] by auto
    next
      case ra: False
      then show ?thesis using r True u w tw touched_frame(1) [OF tu] by (cases "res = OK") simp_all
    qed
  qed
qed

section \<open>The loop over the timeouts\<close>

abbreviation expired :: "'c methods \<Rightarrow> 'c csb \<Rightarrow> queue_id \<times> CommandInfo \<Rightarrow> bool" where
  "expired v s e \<equiv> cs_expired (m_now v) (cs_timeoutSeconds s) (snd e)"

definition timeout_report :: "CommandInfo \<Rightarrow> VerifParams \<Rightarrow> bool" where
  "timeout_report c p \<longleftrightarrow> vp_reportId p = RID_COMPLETION_FAILURE \<and> vp_errorCode p = CSB_TIMEOUT \<and>
     vp_tcPacketId p = ti_tcPacketId (ci_tcInfo c) \<and> vp_tcPsc p = ti_tcSequenceControl (ci_tcInfo c) \<and>
     vp_ackFlags p = ti_ackFlags (ci_tcInfo c)"

text \<open>
  The invariant for the command \<open>c\<close> of the target \<open>q\<close>: it is not among the entries that have been passed, and it has been
  reported or is still as it was.
\<close>

definition pursued :: "queue_id \<Rightarrow> CommandInfo \<Rightarrow> nat \<Rightarrow> 'c csb \<Rightarrow> bool" where
  "pursued q c i s \<longleftrightarrow> (\<forall>j<i. fst (entries s ! j) \<noteq> q) \<and>
     (\<forall>j<n_active s. fst (entries s ! j) = q \<longrightarrow> snd (entries s ! j) = c) \<and>
     (q \<in> fst ` set (entries s) \<or> (\<exists>p\<in>set (cs_reports s). timeout_report c p))"

lemma cs_ok_length: "cs_ok s \<Longrightarrow> length (entries s) = n_active s"
  by (simp add: cs_ok_def)

lemma removed_entries:
  assumes r: "removed i s u" and ok: "cs_ok s" and i: "i < n_active s"
  shows "set (entries u) = set (entries s) - {entries s ! i}" "Suc (n_active u) = n_active s"
    "j < i \<Longrightarrow> entries u ! j = entries s ! j"
proof -
  have u: "cs_ok u" using r by (simp only: removed_def)
  have l: "length (entries s) = n_active s" "distinct (map fst (entries s))" "length (entries u) = n_active u"
    by (rule cs_ok_length [OF ok], use ok in \<open>simp add: cs_ok_def fm_inv_def\<close>, rule cs_ok_length [OF u])
  have "mset (entries u) = mset (entries s) - {#entries s ! i#}"
    using r mset_move_last [of i "entries s"] i l by (simp add: removed_def)
  then have m: "mset (entries s) = add_mset (entries s ! i) (mset (entries u))"
    using i l(1) nth_mem_mset by (simp add: insert_DiffM)
  have "distinct (entries s)" using l(2) by (simp add: distinct_map)
  then have "distinct (entries s ! i # entries u)" using m by (metis mset.simps(2) mset_eq_imp_distinct_iff)
  moreover have "set (entries s) = insert (entries s ! i) (set (entries u))"
    using m by (metis set_mset_add_mset_insert set_mset_mset)
  ultimately show "set (entries u) = set (entries s) - {entries s ! i}" by auto
  show "Suc (n_active u) = n_active s" using m l by (metis mset.simps(2) size_Suc_Diff1 size_mset length_Cons)
  show "entries u ! j = entries s ! j" if "j < i" using r that i l by (simp add: removed_def nth_butlast)
qed

lemma pursued_removed:
  assumes p: "pursued q c i s" and r: "removed i s u" and ok: "cs_ok s" and i: "i < n_active s"
    and e: "fst (entries s ! i) \<noteq> q \<or> (\<exists>p\<in>set (cs_reports u). timeout_report c p)"
  shows "pursued q c i u"
proof -
  note re = removed_entries [OF r ok i]
  have l: "length (entries s) = n_active s" "length (entries u) = n_active u" using cs_ok_length [OF ok] cs_ok_length [of u] r by (simp_all only: removed_def)
  have "snd e = c" if "e \<in> set (entries s)" "fst e = q" for e
    using that p l by (auto simp: pursued_def in_set_conv_nth)
  moreover have "entries u ! j \<in> set (entries s)" if "j < n_active u" for j using that re(1) l by (metis Diff_iff nth_mem)
  ultimately have "\<forall>j<n_active u. fst (entries u ! j) = q \<longrightarrow> snd (entries u ! j) = c" by blast
  moreover have "\<forall>j<i. fst (entries u ! j) \<noteq> q" using p re(3) by (simp add: pursued_def)
  moreover have "q \<in> fst ` set (entries u)" if "q \<in> fst ` set (entries s)" "fst (entries s ! i) \<noteq> q"
    using that re(1) by auto
  moreover have "set (cs_reports s) \<subseteq> set (cs_reports u)" using r by (auto simp: removed_def grown_def)
  ultimately show ?thesis using p e by (auto simp: pursued_def)
qed

lemma pursued_touched:
  assumes p: "pursued q c i s" and r: "touched i s u" and ok: "cs_ok s" and i: "i < n_active s" and e: "fst (entries s ! i) \<noteq> q"
  shows "pursued q c (Suc i) u"
proof -
  have l: "length (entries s) = n_active s" "length (entries u) = n_active u" using cs_ok_length [OF ok] cs_ok_length [of u] r by (simp_all add: touched_def)
  have n: "n_active u = n_active s" "map fst (entries u) = map fst (entries s)" using r by (simp_all add: touched_def)
  have k: "fst (entries u ! j) = fst (entries s ! j)" if "j < n_active s" for j
    using arg_cong [OF n(2), of "\<lambda>xs. xs ! j"] that l n(1) by simp
  have "fst ` set (entries u) = fst ` set (entries s)" using r by (metis touched_def list.set_map)
  moreover have "set (cs_reports s) \<subseteq> set (cs_reports u)" using r by (auto simp: touched_def grown_def)
  moreover have "snd (entries u ! j) = c" if "j < n_active s" "fst (entries s ! j) = q" for j
    using p r that e by (cases "j = i") (auto simp: pursued_def touched_def)
  ultimately show ?thesis using p k i e r by (auto simp: pursued_def less_Suc_eq touched_def)
qed

text \<open>One iteration over an entry that has expired.\<close>

definition report_timeout :: "nat \<Rightarrow> 'c csb \<Rightarrow> 'c csb" where
  "report_timeout i s =
     (let p = prepareVerificationFailureWithFullInfo RID_COMPLETION_FAILURE (ci_tcInfo (info i s)) CSB_TIMEOUT False s
      in report (cs_failParams p) p)"

lemma timeout_step:
  assumes ok: "cs_ok s" and i: "i < n_active s"
  obtains iter u where "checkAndExecuteFifo v i (report_timeout i s) = (iter, u)"
    "iter = int i \<and> touched i s u \<or> iter = int i - 1 \<and> removed i s u"
    "fifo_empty (ci_fifo (info i s)) \<Longrightarrow> removed i s u" "\<exists>r\<in>set (cs_reports u). timeout_report (info i s) r"
proof -
  define p where "p = prepareVerificationFailureWithFullInfo RID_COMPLETION_FAILURE (ci_tcInfo (info i s)) CSB_TIMEOUT False s"
  let ?t = "report (cs_failParams p) p"
  have pt: "report_timeout i s = ?t" by (simp add: report_timeout_def p_def Let_def)
  have t: "touched i s ?t" by (rule touched_map [OF touched_refl [OF ok]]) (simp_all add: p_def grown_def)
  then have tk: "cs_ok ?t" "i < n_active ?t" using i by (simp_all add: touched_def)
  obtain iter u where u: "checkAndExecuteFifo v i ?t = (iter, u)" by (metis surj_pair)
  have inf: "info i ?t = info i s" by (simp add: p_def)
  have c: "iter = int i \<and> touched i ?t u \<or> iter = int i - 1 \<and> removed i ?t u"
    using check_fifo_entries [OF tk refl, of v] u by (simp add: checkAndExecuteFifo_def)
  then have c': "iter = int i \<and> touched i s u \<or> iter = int i - 1 \<and> removed i s u"
    using touched_trans [OF t] touched_removed [OF t _ i ok] by blast
  have "timeout_report (info i s) (cs_failParams p)"
    by (simp add: timeout_report_def p_def prepareVerificationFailureWithFullInfo_def resetFailParams_def Let_def)
  moreover have "cs_failParams p \<in> set (cs_reports u)" using c by (auto simp: touched_def removed_def grown_def)
  moreover have "removed i s u" if "fifo_empty (ci_fifo (info i s))"
  proof -
    have "iter = int i - 1"
    proof -
      obtain r' it m where m: "fm_erase_iter i (cs_commandMap ?t) = (r', it, m)" by (metis surj_pair)
      have "it = int i - 1" using erase_accounts [OF tk _ m] that inf by simp
      moreover have "fst (fifo_retrieve False (ci_fifo (info i ?t))) \<noteq> OK" using that inf by (simp add: fifo_retrieve_def)
      ultimately show ?thesis using u m by (simp add: checkAndExecuteFifo_def case_prod_unfold)
    qed
    then show ?thesis using c' by simp
  qed
  ultimately show ?thesis using that u c' pt by metis
qed

lemma timeout_loop_unfold:
  assumes "cs_ok s" "i < n_active s"
  shows "timeout_loop v (Suc n) i s = (if expired v s (fm_map (cs_commandMap s) ! i) then
      (case checkAndExecuteFifo v i (report_timeout i s) of (iter, s) \<Rightarrow> timeout_loop v n (nat (iter + 1)) s)
    else timeout_loop v n (Suc i) s)"
  using assms by (subst timeout_loop.simps) (simp add: Let_def report_timeout_def)

lemma step_bounds:
  assumes ok: "cs_ok s" and i: "i < n_active s" and n: "n_active s \<le> i + Suc n"
    and c: "iter = int i \<and> touched i s u \<or> iter = int i - 1 \<and> removed i s u"
  shows "cs_ok u" "nat (iter + 1) \<le> n_active u" "n_active u \<le> nat (iter + 1) + n" "cs_timeoutSeconds u = cs_timeoutSeconds s"
  using c i n removed_entries(2) [OF _ ok i, of u] by (auto simp: touched_def removed_def grown_def)

lemma timeout_loop_pursues:
  "timeout_loop v n i s = Some t \<Longrightarrow> cs_ok s \<Longrightarrow> i \<le> n_active s \<Longrightarrow> n_active s \<le> i + n \<Longrightarrow> pursued q c i s \<Longrightarrow>
   cs_expired (m_now v) (cs_timeoutSeconds s) c \<Longrightarrow> fifo_empty (ci_fifo c) \<Longrightarrow>
   q \<notin> fst ` set (entries t) \<and> (\<exists>p\<in>set (cs_reports t). timeout_report c p)"
proof (induction n arbitrary: i s)
  have finish: "q \<notin> fst ` set (entries s) \<and> (\<exists>p\<in>set (cs_reports s). timeout_report c p)"
    if "cs_ok s" "pursued q c (n_active s) s" for s :: "'a csb"
    using that cs_ok_length [OF that(1)] by (auto simp: pursued_def in_set_conv_nth image_iff) (metis fst_conv)+
  {
    case 0
    then show ?case using finish [of s] by (simp add: timeout_loop.simps [of v 0])
  next
    case (Suc n)
    show ?case
    proof (cases "i = n_active s")
      case True
      then show ?thesis using finish [of s] Suc.prems by (simp add: timeout_loop.simps [of v "Suc n"])
    next
      case False
      then have i: "i < n_active s" using Suc.prems by simp
      note ok = \<open>cs_ok s\<close>
      have e: "fm_map (cs_commandMap s) ! i = entries s ! i" using i by (simp add: fm_entries_nth)
      show ?thesis
      proof (cases "expired v s (entries s ! i)")
        case ne: False
        then have "fst (entries s ! i) \<noteq> q" using Suc.prems i by (auto simp: pursued_def)
        then have "pursued q c (Suc i) s" using Suc.prems(5) by (auto simp: pursued_def less_Suc_eq)
        then show ?thesis using Suc.IH [of "Suc i" s] Suc.prems i ne e by (simp add: timeout_loop_unfold)
      next
        case ex: True
        obtain iter u where u: "checkAndExecuteFifo v i (report_timeout i s) = (iter, u)"
            "iter = int i \<and> touched i s u \<or> iter = int i - 1 \<and> removed i s u"
            "fifo_empty (ci_fifo (info i s)) \<Longrightarrow> removed i s u" "\<exists>r\<in>set (cs_reports u). timeout_report (info i s) r"
          by (rule timeout_step [OF ok i, of v]) blast
        have l: "timeout_loop v n (nat (iter + 1)) u = Some t" using Suc.prems(1) ex e u(1) i ok by (simp add: timeout_loop_unfold)
        note b = step_bounds [OF ok i Suc.prems(4) u(2)]
        have "pursued q c (nat (iter + 1)) u"
        proof (cases "fst (entries s ! i) = q")
          case True
          then have c: "info i s = c" using Suc.prems(5) i e by (simp add: pursued_def)
          then have r: "removed i s u" using u(3) Suc.prems(7) by simp
          moreover have "\<not> touched i s u" using removed_entries(2) [OF r ok i] by (auto simp: touched_def)
          ultimately show ?thesis using pursued_removed [OF Suc.prems(5) r ok i] u(2,4) c by simp
        next
          case False
          then show ?thesis using u(2) pursued_removed [OF Suc.prems(5) _ ok i, of u] pursued_touched [OF Suc.prems(5) _ ok i, of u]
            by (auto simp: nat_add_distrib)
        qed
        then show ?thesis using Suc.IH [OF l b(1-3)] Suc.prems(6,7) b(4) by simp
      qed
    qed
  }
qed

text \<open>The commands that have not expired stay as they are.\<close>

lemma timeout_loop_keeps:
  "timeout_loop v n i s = Some t \<Longrightarrow> cs_ok s \<Longrightarrow> i \<le> n_active s \<Longrightarrow> n_active s \<le> i + n \<Longrightarrow> e \<in> set (entries s) \<Longrightarrow>
   \<not> expired v s e \<Longrightarrow> e \<in> set (entries t)"
proof (induction n arbitrary: i s)
  case 0
  then show ?case by (simp add: timeout_loop.simps [of v 0])
next
  case (Suc n)
  show ?case
  proof (cases "i = n_active s")
    case True
    then show ?thesis using Suc.prems by (simp add: timeout_loop.simps [of v "Suc n"])
  next
    case False
    then have i: "i < n_active s" using Suc.prems by simp
    note ok = \<open>cs_ok s\<close>
    have m: "fm_map (cs_commandMap s) ! i = entries s ! i" using i by (simp add: fm_entries_nth)
    show ?thesis
    proof (cases "expired v s (entries s ! i)")
      case ne: False
      then show ?thesis using Suc.IH [of "Suc i" s] Suc.prems i m by (simp add: timeout_loop_unfold)
    next
      case ex: True
      obtain iter u where u: "checkAndExecuteFifo v i (report_timeout i s) = (iter, u)"
          "iter = int i \<and> touched i s u \<or> iter = int i - 1 \<and> removed i s u"
        by (rule timeout_step [OF ok i, of v]) blast
      have l: "timeout_loop v n (nat (iter + 1)) u = Some t" using Suc.prems(1) ex m u(1) i ok by (simp add: timeout_loop_unfold)
      note b = step_bounds [OF ok i Suc.prems(4) u(2)]
      obtain j where j: "j < n_active s" "entries s ! j = e" "j \<noteq> i"
        using Suc.prems(5,6) ex cs_ok_length [OF ok] by (metis in_set_conv_nth)
      have "e \<in> set (entries u)"
      proof (cases "touched i s u")
        case True
        then have "entries u ! j = e" "j < length (entries u)" using j cs_ok_length [OF b(1)] by (auto simp: touched_def)
        then show ?thesis by auto
      next
        case False
        then have "e \<in> set (entries s) - {entries s ! i}" using Suc.prems(5,6) ex by auto
        then show ?thesis using False u(2) removed_entries(1) [OF _ ok i, of u] by simp
      qed
      then show ?thesis using Suc.IH [OF l b(1-3)] Suc.prems(6) b(4) by simp
    qed
  qed
qed

text \<open>
  C8: A command without an answer ends. Whatever other commands are active, after \<open>checkTimeout\<close>, which always returns,
  a command whose timeout has expired and behind which no other telecommand waits is no longer active, and a failure
  report with the code of a timeout and the identifiers of its telecommand has been sent; every command whose timeout
  has not expired is still active and unchanged.
\<close>

theorem expired_commands_are_ended:
  assumes "cs_ok s" "map_of (entries s) q = Some c" "cs_expired (m_now v) (cs_timeoutSeconds s) c" "fifo_empty (ci_fifo c)"
  shows "\<exists>t. checkTimeout v s = Some t \<and> map_of (entries t) q = None \<and>
    (\<exists>p\<in>set (cs_reports t). vp_reportId p = RID_COMPLETION_FAILURE \<and> vp_errorCode p = CSB_TIMEOUT \<and>
       vp_tcPacketId p = ti_tcPacketId (ci_tcInfo c) \<and> vp_tcPsc p = ti_tcSequenceControl (ci_tcInfo c)) \<and>
    (\<forall>q' c'. map_of (entries s) q' = Some c' \<longrightarrow> \<not> cs_expired (m_now v) (cs_timeoutSeconds s) c' \<longrightarrow> map_of (entries t) q' = Some c')"
proof -
  obtain t where t: "timeout_loop v (n_active s) 0 s = Some t" "accounts_by 0 s t"
    using timeout_loop_accounts [OF assms(1), of 0 "n_active s" v] by auto
  have d: "distinct (map fst (entries s))" "distinct (map fst (entries t))" using assms(1) t(2) by (simp_all add: cs_ok_def fm_inv_def accounts_by_def)
  have "snd (entries s ! j) = c" if "j < n_active s" "fst (entries s ! j) = q" for j
  proof -
    have "(q, snd (entries s ! j)) \<in> set (entries s)" using that cs_ok_length [OF assms(1)] by (metis nth_mem prod.collapse)
    then show ?thesis using map_of_is_SomeI [OF d(1)] assms(2) by fastforce
  qed
  moreover have "q \<in> fst ` set (entries s)" using map_of_SomeD [OF assms(2)] by force
  ultimately have "pursued q c 0 s" by (simp add: pursued_def)
  from timeout_loop_pursues [OF t(1) assms(1) _ _ this assms(3,4)]
  have "q \<notin> fst ` set (entries t)" "\<exists>p\<in>set (cs_reports t). timeout_report c p" by simp_all
  moreover have "map_of (entries t) q' = Some c'"
    if "map_of (entries s) q' = Some c'" "\<not> cs_expired (m_now v) (cs_timeoutSeconds s) c'" for q' c'
    using timeout_loop_keeps [OF t(1) assms(1) _ _ map_of_SomeD [OF that(1)]] that(2) d(2) by simp
  ultimately show ?thesis using t(1) by (auto simp: checkTimeout_def map_of_eq_None_iff timeout_report_def)
qed

definition demo_active :: CommandInfo where
  "demo_active = demo_info\<lparr>ci_fifo := fifo_init (replicate COMMAND_INFO_FIFO_DEPTH invalid_address)\<rparr>"

definition demo_waiting_service :: "unit csb" where
  "demo_waiting_service = demo_service\<lparr>cs_timeoutSeconds := 0, cs_commandMap := \<lparr>fm_map = [(7, demo_active), (0, demo_info)], fm_size = 1\<rparr>\<rparr>"

theorem expired_commands_are_ended_witness:
  "\<exists>t. checkTimeout demo_methods demo_waiting_service = Some t \<and> map_of (entries t) 7 = None \<and> cs_reports t \<noteq> []"
proof -
  have "fifo_ok demo_active" by (simp add: demo_active_def fifo_ok_def fifo_inv_init) (simp add: fifo_init_def)
  then have "cs_ok demo_waiting_service" by (simp add: cs_ok_def demo_waiting_service_def fm_inv_def fm_entries_def)
  moreover have "map_of (entries demo_waiting_service) 7 = Some demo_active" by (simp add: demo_waiting_service_def fm_entries_def)
  moreover have "cs_expired (m_now demo_methods) (cs_timeoutSeconds demo_waiting_service) demo_active" "fifo_empty (ci_fifo demo_active)"
    by (simp_all add: cs_expired_def demo_methods_def demo_waiting_service_def demo_active_def demo_info_def fifo_empty_def fifo_init_def)
  ultimately show ?thesis using expired_commands_are_ended [of demo_waiting_service 7 demo_active demo_methods] by force
qed

end
