(* ===== verification/Messages.thy ===== *)
theory Messages
  imports Device_Handler
begin

text \<open>
  The message classes of the software bus and the cleaning of messages, which frees what a message holds in the store:
  \<open>src/src/fsfw/ipc/CommandMessageCleaner.cpp\<close> with \<open>action/ActionMessage.cpp\<close>, \<open>devicehandlers/DeviceHandlerMessage.cpp\<close>,
  \<open>memory/MemoryMessage.cpp\<close>, \<open>monitoring/MonitoringMessage.cpp\<close>, \<open>parameters/ParameterMessage.cpp\<close>,
  \<open>housekeeping/HousekeepingMessage.cpp\<close>, \<open>filesystem/GenericFileSystemMessage.cpp\<close>, \<open>tmstorage/TmStoreMessage.cpp\<close>,
  \<open>cfdp/CfdpMessage.cpp\<close> and \<open>subsystem/modes/ModeSequenceMessage.cpp\<close>.

  A setter changes the parameters that it names and keeps the others. The cleaning of the messages of a mission
  (\<open>messagetypes::clearMissionMessage\<close>) is not part of the framework: it is the argument \<open>mission\<close>. The argument
  \<open>tmstorage\<close> is the build option \<open>FSFW_ADD_TMSTORAGE\<close>, with which the messages of a telemetry store are built.
\<close>

section \<open>Commands\<close>

abbreviation (input) "CFDP_ID \<equiv> 5"
abbreviation (input) "TM_STORE_ID \<equiv> 6"
abbreviation (input) "MONITORING_ID \<equiv> 8"
abbreviation (input) "MEMORY_ID \<equiv> 9"
abbreviation (input) "PARAMETER_ID \<equiv> 10"
abbreviation (input) "FILE_SYSTEM_ID \<equiv> 11"
abbreviation (input) "HOUSEKEEPING_ID \<equiv> 12"

definition CMD_SWITCH_ADDRESS :: u16 where [codes]: "CMD_SWITCH_ADDRESS = MAKE_COMMAND_ID DEVICE_HANDLER_COMMAND_ID 3"
definition REPLY_DIRECT_COMMAND_DATA :: u16 where [codes]: "REPLY_DIRECT_COMMAND_DATA = DATA_REPLY"
definition LIMIT_VIOLATION_REPORT :: u16 where [codes]: "LIMIT_VIOLATION_REPORT = MAKE_COMMAND_ID MONITORING_ID 10"
definition CMD_MEMORY_LOAD :: u16 where [codes]: "CMD_MEMORY_LOAD = MAKE_COMMAND_ID MEMORY_ID 0x01"
definition CMD_MEMORY_DUMP :: u16 where [codes]: "CMD_MEMORY_DUMP = MAKE_COMMAND_ID MEMORY_ID 0x02"
definition CMD_MEMORY_CHECK :: u16 where [codes]: "CMD_MEMORY_CHECK = MAKE_COMMAND_ID MEMORY_ID 0x03"
definition REPLY_MEMORY_DUMP :: u16 where [codes]: "REPLY_MEMORY_DUMP = MAKE_COMMAND_ID MEMORY_ID 0x10"
definition REPLY_MEMORY_CHECK :: u16 where [codes]: "REPLY_MEMORY_CHECK = MAKE_COMMAND_ID MEMORY_ID 0x30"
definition REPLY_MEMORY_FAILED :: u16 where [codes]: "REPLY_MEMORY_FAILED = MAKE_COMMAND_ID MEMORY_ID 0xE0"
definition END_OF_MEMORY_COPY :: u16 where [codes]: "END_OF_MEMORY_COPY = MAKE_COMMAND_ID MEMORY_ID 0xF0"
definition CMD_PARAMETER_LOAD :: u16 where [codes]: "CMD_PARAMETER_LOAD = MAKE_COMMAND_ID PARAMETER_ID 0x01"
definition CMD_PARAMETER_DUMP :: u16 where [codes]: "CMD_PARAMETER_DUMP = MAKE_COMMAND_ID PARAMETER_ID 0x02"
definition REPLY_PARAMETER_DUMP :: u16 where [codes]: "REPLY_PARAMETER_DUMP = MAKE_COMMAND_ID PARAMETER_ID 0x03"
definition HK_DEFINITIONS_REPORT :: u16 where [codes]: "HK_DEFINITIONS_REPORT = MAKE_COMMAND_ID HOUSEKEEPING_ID 10"
definition DIAGNOSTICS_DEFINITION_REPORT :: u16 where [codes]: "DIAGNOSTICS_DEFINITION_REPORT = MAKE_COMMAND_ID HOUSEKEEPING_ID 12"
definition HK_REPORT :: u16 where [codes]: "HK_REPORT = MAKE_COMMAND_ID HOUSEKEEPING_ID 25"
definition DIAGNOSTICS_REPORT :: u16 where [codes]: "DIAGNOSTICS_REPORT = MAKE_COMMAND_ID HOUSEKEEPING_ID 26"
definition ENABLE_PERIODIC_HK_REPORT_GENERATION :: u16 where
  [codes]: "ENABLE_PERIODIC_HK_REPORT_GENERATION = MAKE_COMMAND_ID HOUSEKEEPING_ID 5"
definition DISABLE_PERIODIC_HK_REPORT_GENERATION :: u16 where
  [codes]: "DISABLE_PERIODIC_HK_REPORT_GENERATION = MAKE_COMMAND_ID HOUSEKEEPING_ID 6"
definition ENABLE_PERIODIC_DIAGNOSTICS_GENERATION :: u16 where
  [codes]: "ENABLE_PERIODIC_DIAGNOSTICS_GENERATION = MAKE_COMMAND_ID HOUSEKEEPING_ID 7"
definition DISABLE_PERIODIC_DIAGNOSTICS_GENERATION :: u16 where
  [codes]: "DISABLE_PERIODIC_DIAGNOSTICS_GENERATION = MAKE_COMMAND_ID HOUSEKEEPING_ID 8"
definition REPORT_HK_REPORT_STRUCTURES :: u16 where [codes]: "REPORT_HK_REPORT_STRUCTURES = MAKE_COMMAND_ID HOUSEKEEPING_ID 9"
definition REPORT_DIAGNOSTICS_REPORT_STRUCTURES :: u16 where
  [codes]: "REPORT_DIAGNOSTICS_REPORT_STRUCTURES = MAKE_COMMAND_ID HOUSEKEEPING_ID 11"
definition GENERATE_ONE_PARAMETER_REPORT :: u16 where [codes]: "GENERATE_ONE_PARAMETER_REPORT = MAKE_COMMAND_ID HOUSEKEEPING_ID 27"
definition GENERATE_ONE_DIAGNOSTICS_REPORT :: u16 where [codes]: "GENERATE_ONE_DIAGNOSTICS_REPORT = MAKE_COMMAND_ID HOUSEKEEPING_ID 28"
definition HK_REQUEST_SUCCESS :: u16 where [codes]: "HK_REQUEST_SUCCESS = MAKE_COMMAND_ID HOUSEKEEPING_ID 128"
definition HK_REQUEST_FAILURE :: u16 where [codes]: "HK_REQUEST_FAILURE = MAKE_COMMAND_ID HOUSEKEEPING_ID 129"
definition UPDATE_NOTIFICATION_SET :: u16 where [codes]: "UPDATE_NOTIFICATION_SET = MAKE_COMMAND_ID HOUSEKEEPING_ID 130"
definition UPDATE_NOTIFICATION_VARIABLE :: u16 where [codes]: "UPDATE_NOTIFICATION_VARIABLE = MAKE_COMMAND_ID HOUSEKEEPING_ID 131"
definition UPDATE_SNAPSHOT_SET :: u16 where [codes]: "UPDATE_SNAPSHOT_SET = MAKE_COMMAND_ID HOUSEKEEPING_ID 132"
definition UPDATE_SNAPSHOT_VARIABLE :: u16 where [codes]: "UPDATE_SNAPSHOT_VARIABLE = MAKE_COMMAND_ID HOUSEKEEPING_ID 133"
definition CMD_CREATE_FILE :: u16 where [codes]: "CMD_CREATE_FILE = MAKE_COMMAND_ID FILE_SYSTEM_ID 1"
definition CMD_DELETE_FILE :: u16 where [codes]: "CMD_DELETE_FILE = MAKE_COMMAND_ID FILE_SYSTEM_ID 2"
definition CMD_REPORT_FILE_ATTRIBUTES :: u16 where [codes]: "CMD_REPORT_FILE_ATTRIBUTES = MAKE_COMMAND_ID FILE_SYSTEM_ID 3"
definition REPLY_REPORT_FILE_ATTRIBUTES :: u16 where [codes]: "REPLY_REPORT_FILE_ATTRIBUTES = MAKE_COMMAND_ID FILE_SYSTEM_ID 4"
definition CMD_LOCK_FILE :: u16 where [codes]: "CMD_LOCK_FILE = MAKE_COMMAND_ID FILE_SYSTEM_ID 5"
definition CMD_UNLOCK_FILE :: u16 where [codes]: "CMD_UNLOCK_FILE = MAKE_COMMAND_ID FILE_SYSTEM_ID 6"
definition CMD_CREATE_DIRECTORY :: u16 where [codes]: "CMD_CREATE_DIRECTORY = MAKE_COMMAND_ID FILE_SYSTEM_ID 9"
definition CMD_DELETE_DIRECTORY :: u16 where [codes]: "CMD_DELETE_DIRECTORY = MAKE_COMMAND_ID FILE_SYSTEM_ID 10"
definition CMD_COPY_FILE :: u16 where [codes]: "CMD_COPY_FILE = MAKE_COMMAND_ID FILE_SYSTEM_ID 14"
definition FS_COMPLETION_SUCCESS :: u16 where [codes]: "FS_COMPLETION_SUCCESS = MAKE_COMMAND_ID FILE_SYSTEM_ID 128"
definition FS_COMPLETION_FAILED :: u16 where [codes]: "FS_COMPLETION_FAILED = MAKE_COMMAND_ID FILE_SYSTEM_ID 129"
definition CMD_APPEND_TO_FILE :: u16 where [codes]: "CMD_APPEND_TO_FILE = MAKE_COMMAND_ID FILE_SYSTEM_ID 130"
definition CMD_FINISH_APPEND_TO_FILE :: u16 where [codes]: "CMD_FINISH_APPEND_TO_FILE = MAKE_COMMAND_ID FILE_SYSTEM_ID 131"
definition REPLY_FINISH_APPEND :: u16 where [codes]: "REPLY_FINISH_APPEND = MAKE_COMMAND_ID FILE_SYSTEM_ID 132"
definition CMD_READ_FROM_FILE :: u16 where [codes]: "CMD_READ_FROM_FILE = MAKE_COMMAND_ID FILE_SYSTEM_ID 140"
definition REPLY_READ_FROM_FILE :: u16 where [codes]: "REPLY_READ_FROM_FILE = MAKE_COMMAND_ID FILE_SYSTEM_ID 141"
definition REPLY_READ_FINISHED_STOP :: u16 where [codes]: "REPLY_READ_FINISHED_STOP = MAKE_COMMAND_ID FILE_SYSTEM_ID 143"
definition ENABLE_STORING :: u16 where [codes]: "ENABLE_STORING = MAKE_COMMAND_ID TM_STORE_ID 1"
definition DELETE_STORE_CONTENT :: u16 where [codes]: "DELETE_STORE_CONTENT = MAKE_COMMAND_ID TM_STORE_ID 2"
definition DOWNLINK_STORE_CONTENT :: u16 where [codes]: "DOWNLINK_STORE_CONTENT = MAKE_COMMAND_ID TM_STORE_ID 3"
definition CHANGE_SELECTION_DEFINITION :: u16 where [codes]: "CHANGE_SELECTION_DEFINITION = MAKE_COMMAND_ID TM_STORE_ID 4"
definition REPORT_SELECTION_DEFINITION :: u16 where [codes]: "REPORT_SELECTION_DEFINITION = MAKE_COMMAND_ID TM_STORE_ID 5"
definition SELECTION_DEFINITION_REPORT :: u16 where [codes]: "SELECTION_DEFINITION_REPORT = MAKE_COMMAND_ID TM_STORE_ID 6"
definition REPORT_STORE_CATALOGUE :: u16 where [codes]: "REPORT_STORE_CATALOGUE = MAKE_COMMAND_ID TM_STORE_ID 7"
definition STORE_CATALOGUE_REPORT :: u16 where [codes]: "STORE_CATALOGUE_REPORT = MAKE_COMMAND_ID TM_STORE_ID 8"
definition DOWNLINK_STORE_CONTENT_TIME :: u16 where [codes]: "DOWNLINK_STORE_CONTENT_TIME = MAKE_COMMAND_ID TM_STORE_ID 9"
definition DELETE_STORE_CONTENT_TIME :: u16 where [codes]: "DELETE_STORE_CONTENT_TIME = MAKE_COMMAND_ID TM_STORE_ID 10"
definition DELETE_STORE_CONTENT_BLOCKS :: u16 where [codes]: "DELETE_STORE_CONTENT_BLOCKS = MAKE_COMMAND_ID TM_STORE_ID 11"
definition DOWNLINK_STORE_CONTENT_BLOCKS :: u16 where [codes]: "DOWNLINK_STORE_CONTENT_BLOCKS = MAKE_COMMAND_ID TM_STORE_ID 12"
definition REPORT_INDEX_REQUEST :: u16 where [codes]: "REPORT_INDEX_REQUEST = MAKE_COMMAND_ID TM_STORE_ID 13"
definition INDEX_REPORT :: u16 where [codes]: "INDEX_REPORT = MAKE_COMMAND_ID TM_STORE_ID 14"

section \<open>Setters and getters\<close>

text \<open>A message with a store address in its second or third parameter.\<close>

definition with_store2 :: "u16 \<Rightarrow> store_address \<Rightarrow> CommandMessage \<Rightarrow> CommandMessage" where
  "with_store2 command storeId m = m\<lparr>cm_command := command, cm_parameter2 := raw_of_addr storeId\<rparr>"

definition getStoreId2 :: "CommandMessage \<Rightarrow> store_address" where
  "getStoreId2 m = addr_of_raw (cm_parameter2 m)"

definition getStoreId3 :: "CommandMessage \<Rightarrow> store_address" where
  "getStoreId3 m = addr_of_raw (cm_parameter3 m)"

definition setModeSequenceMessage :: "u16 \<Rightarrow> u32 \<Rightarrow> store_address \<Rightarrow> CommandMessage \<Rightarrow> CommandMessage" where
  "setModeSequenceMessage command sequence storeAddress m =
     m\<lparr>cm_command := command, cm_parameter := raw_of_addr storeAddress, cm_parameter2 := sequence\<rparr>"

definition setModeSequenceMessageId :: "u16 \<Rightarrow> u32 \<Rightarrow> CommandMessage \<Rightarrow> CommandMessage" where
  "setModeSequenceMessageId command sequence m = m\<lparr>cm_command := command, cm_parameter2 := sequence\<rparr>"

definition setModeSequenceMessageData :: "u16 \<Rightarrow> store_address \<Rightarrow> CommandMessage \<Rightarrow> CommandMessage" where
  "setModeSequenceMessageData command storeAddress m = m\<lparr>cm_command := command, cm_parameter := raw_of_addr storeAddress\<rparr>"

subsection \<open>Actions and devices\<close>

definition am_setCommand :: "u32 \<Rightarrow> store_address \<Rightarrow> CommandMessage \<Rightarrow> CommandMessage" where
  "am_setCommand fid parameters m = (with_store2 EXECUTE_ACTION parameters m)\<lparr>cm_parameter := fid\<rparr>"

definition am_getActionId :: "CommandMessage \<Rightarrow> u32" where
  "am_getActionId m = cm_parameter m"

definition am_getStep :: "CommandMessage \<Rightarrow> u8" where
  "am_getStep m = ucast (drop_bit 16 (cm_parameter2 m) AND 0xFF)"

definition am_getReturnCode :: "CommandMessage \<Rightarrow> u16" where
  "am_getReturnCode m = ucast (cm_parameter2 m AND 0xFFFF)"

definition setDataReply :: "u32 \<Rightarrow> store_address \<Rightarrow> CommandMessage \<Rightarrow> CommandMessage" where
  "setDataReply actionId data m = (with_store2 DATA_REPLY data m)\<lparr>cm_parameter := actionId\<rparr>"

definition setDeviceHandlerRawCommandMessage :: "store_address \<Rightarrow> CommandMessage \<Rightarrow> CommandMessage" where
  "setDeviceHandlerRawCommandMessage rawPacketStoreId m = with_store2 CMD_RAW rawPacketStoreId m"

definition setDeviceHandlerWiretappingMessage :: "u8 \<Rightarrow> CommandMessage \<Rightarrow> CommandMessage" where
  "setDeviceHandlerWiretappingMessage mode m = m\<lparr>cm_command := CMD_WIRETAPPING, cm_parameter := ucast mode\<rparr>"

definition getWiretappingMode :: "CommandMessage \<Rightarrow> u8" where
  "getWiretappingMode m = ucast (cm_parameter m)"

definition setDeviceHandlerSwitchIoBoardMessage :: "u32 \<Rightarrow> CommandMessage \<Rightarrow> CommandMessage" where
  "setDeviceHandlerSwitchIoBoardMessage ioBoardIdentifier m = m\<lparr>cm_command := CMD_SWITCH_ADDRESS, cm_parameter := ioBoardIdentifier\<rparr>"

definition setDeviceHandlerRawReplyMessage :: "u32 \<Rightarrow> store_address \<Rightarrow> bool \<Rightarrow> CommandMessage \<Rightarrow> CommandMessage" where
  "setDeviceHandlerRawReplyMessage deviceObjectid rawPacketStoreId isCommand m =
     (with_store2 (if isCommand then REPLY_RAW_COMMAND else REPLY_RAW_REPLY) rawPacketStoreId m)\<lparr>cm_parameter := deviceObjectid\<rparr>"

definition getDeviceObjectId :: "CommandMessage \<Rightarrow> u32" where
  "getDeviceObjectId m = cm_parameter m"

definition setDeviceHandlerDirectCommandReply :: "u32 \<Rightarrow> store_address \<Rightarrow> CommandMessage \<Rightarrow> CommandMessage" where
  "setDeviceHandlerDirectCommandReply deviceObjectid storeId m =
     (with_store2 REPLY_DIRECT_COMMAND_DATA storeId m)\<lparr>cm_parameter := deviceObjectid\<rparr>"

subsection \<open>Memory, parameters and limits\<close>

definition setMemoryDumpCommand :: "u32 \<Rightarrow> u32 \<Rightarrow> CommandMessage \<Rightarrow> CommandMessage" where
  "setMemoryDumpCommand address len m = m\<lparr>cm_command := CMD_MEMORY_DUMP, cm_parameter := address, cm_parameter2 := len\<rparr>"

definition setMemoryDumpReply :: "store_address \<Rightarrow> CommandMessage \<Rightarrow> CommandMessage" where
  "setMemoryDumpReply storageID m = with_store2 REPLY_MEMORY_DUMP storageID m"

definition setMemoryLoadCommand :: "u32 \<Rightarrow> store_address \<Rightarrow> CommandMessage \<Rightarrow> CommandMessage" where
  "setMemoryLoadCommand address storageID m = (with_store2 CMD_MEMORY_LOAD storageID m)\<lparr>cm_parameter := address\<rparr>"

definition setMemoryCheckCommand :: "u32 \<Rightarrow> u32 \<Rightarrow> CommandMessage \<Rightarrow> CommandMessage" where
  "setMemoryCheckCommand address len m = m\<lparr>cm_command := CMD_MEMORY_CHECK, cm_parameter := address, cm_parameter2 := len\<rparr>"

definition setMemoryCheckReply :: "u16 \<Rightarrow> CommandMessage \<Rightarrow> CommandMessage" where
  "setMemoryCheckReply crc m = m\<lparr>cm_command := REPLY_MEMORY_CHECK, cm_parameter := ucast crc\<rparr>"

definition setCrcReturnValue :: "retval \<Rightarrow> CommandMessage \<Rightarrow> CommandMessage" where
  "setCrcReturnValue r m = m\<lparr>cm_parameter := push_bit 16 (rv_param r)\<rparr>"

definition getCrc :: "CommandMessage \<Rightarrow> u16" where
  "getCrc m = ucast (cm_parameter m)"

definition getCrcReturnValue :: "CommandMessage \<Rightarrow> u16" where
  "getCrcReturnValue m = ucast (drop_bit 16 (cm_parameter m))"

definition setMemoryReplyFailed :: "retval \<Rightarrow> u16 \<Rightarrow> CommandMessage \<Rightarrow> CommandMessage" where
  "setMemoryReplyFailed errorCode initialCommand m =
     m\<lparr>cm_command := REPLY_MEMORY_FAILED, cm_parameter := rv_param errorCode, cm_parameter2 := ucast initialCommand\<rparr>"

definition setMemoryCopyEnd :: "CommandMessage \<Rightarrow> CommandMessage" where
  "setMemoryCopyEnd m = m\<lparr>cm_command := END_OF_MEMORY_COPY, cm_parameter := 0, cm_parameter2 := 0\<rparr>"

definition setParameterDumpCommand :: "u32 \<Rightarrow> CommandMessage \<Rightarrow> CommandMessage" where
  "setParameterDumpCommand pid m = m\<lparr>cm_command := CMD_PARAMETER_DUMP, cm_parameter := pid\<rparr>"

definition setParameterDumpReply :: "u32 \<Rightarrow> store_address \<Rightarrow> CommandMessage \<Rightarrow> CommandMessage" where
  "setParameterDumpReply pid storageID m = (with_store2 REPLY_PARAMETER_DUMP storageID m)\<lparr>cm_parameter := pid\<rparr>"

definition setParameterLoadCommand :: "u32 \<Rightarrow> store_address \<Rightarrow> u8 \<Rightarrow> u8 \<Rightarrow> u8 \<Rightarrow> u8 \<Rightarrow> CommandMessage \<Rightarrow> CommandMessage" where
  "setParameterLoadCommand pid storeId ptc pfc rows columns m =
     (with_store2 CMD_PARAMETER_LOAD storeId m)\<lparr>cm_parameter := pid,
        cm_parameter3 := push_bit 24 (ucast ptc) OR push_bit 16 (ucast pfc) OR push_bit 8 (ucast rows) OR ucast columns\<rparr>"

definition getParameterLoadCommand :: "CommandMessage \<Rightarrow> store_address \<times> u32 \<times> u8 \<times> u8 \<times> u8 \<times> u8" where
  "getParameterLoadCommand m =
     (let w = cm_parameter3 m in
      (getStoreId2 m, cm_parameter m, ucast (drop_bit 24 w AND 0xff), ucast (drop_bit 16 w AND 0xff),
       ucast (drop_bit 8 w AND 0xff), ucast (w AND 0xff)))"

definition setTypicalMessage :: "u16 \<Rightarrow> store_address \<Rightarrow> CommandMessage \<Rightarrow> CommandMessage" where
  "setTypicalMessage type storeId m = with_store2 type storeId m"

definition setLimitViolationReport :: "store_address \<Rightarrow> CommandMessage \<Rightarrow> CommandMessage" where
  "setLimitViolationReport storeId m = setTypicalMessage LIMIT_VIOLATION_REPORT storeId m"

subsection \<open>Housekeeping\<close>

text \<open>A structure identifier overlays the first two parameters.\<close>

record sid =
  sid_objectId :: u32
  sid_ownerSetId :: u32

definition setSid :: "sid \<Rightarrow> CommandMessage \<Rightarrow> CommandMessage" where
  "setSid i m = m\<lparr>cm_parameter := sid_objectId i, cm_parameter2 := sid_ownerSetId i\<rparr>"

definition getSid :: "CommandMessage \<Rightarrow> sid" where
  "getSid m = \<lparr>sid_objectId = cm_parameter m, sid_ownerSetId = cm_parameter2 m\<rparr>"

definition hk_report :: "u16 \<Rightarrow> sid \<Rightarrow> store_address \<Rightarrow> CommandMessage \<Rightarrow> CommandMessage" where
  "hk_report command i storeId m = (setSid i m)\<lparr>cm_command := command, cm_parameter3 := raw_of_addr storeId\<rparr>"

definition setHkReportReply :: "sid \<Rightarrow> store_address \<Rightarrow> CommandMessage \<Rightarrow> CommandMessage" where
  "setHkReportReply i storeId m = hk_report HK_REPORT i storeId m"

definition setHkDiagnosticsReply :: "sid \<Rightarrow> store_address \<Rightarrow> CommandMessage \<Rightarrow> CommandMessage" where
  "setHkDiagnosticsReply i storeId m = hk_report DIAGNOSTICS_REPORT i storeId m"

definition setHkStuctureReportReply :: "sid \<Rightarrow> store_address \<Rightarrow> CommandMessage \<Rightarrow> CommandMessage" where
  "setHkStuctureReportReply i storeId m = hk_report HK_DEFINITIONS_REPORT i storeId m"

definition setDiagnosticsStuctureReportReply :: "sid \<Rightarrow> store_address \<Rightarrow> CommandMessage \<Rightarrow> CommandMessage" where
  "setDiagnosticsStuctureReportReply i storeId m = hk_report DIAGNOSTICS_DEFINITION_REPORT i storeId m"

definition getHkDataReply :: "CommandMessage \<Rightarrow> sid \<times> store_address" where
  "getHkDataReply m = (getSid m, getStoreId3 m)"

definition setToggleReportingCommand :: "sid \<Rightarrow> bool \<Rightarrow> bool \<Rightarrow> CommandMessage \<Rightarrow> CommandMessage" where
  "setToggleReportingCommand i enableReporting isDiagnostics m =
     setSid i (m\<lparr>cm_command :=
       (if isDiagnostics
        then if enableReporting then ENABLE_PERIODIC_DIAGNOSTICS_GENERATION else DISABLE_PERIODIC_DIAGNOSTICS_GENERATION
        else if enableReporting then ENABLE_PERIODIC_HK_REPORT_GENERATION else DISABLE_PERIODIC_HK_REPORT_GENERATION)\<rparr>)"

definition setStructureReportingCommand :: "sid \<Rightarrow> bool \<Rightarrow> CommandMessage \<Rightarrow> CommandMessage" where
  "setStructureReportingCommand i isDiagnostics m =
     setSid i (m\<lparr>cm_command := (if isDiagnostics then REPORT_DIAGNOSTICS_REPORT_STRUCTURES else REPORT_HK_REPORT_STRUCTURES)\<rparr>)"

definition setOneShotReportCommand :: "sid \<Rightarrow> bool \<Rightarrow> CommandMessage \<Rightarrow> CommandMessage" where
  "setOneShotReportCommand i isDiagnostics m =
     setSid i (m\<lparr>cm_command := (if isDiagnostics then GENERATE_ONE_DIAGNOSTICS_REPORT else GENERATE_ONE_PARAMETER_REPORT)\<rparr>)"

definition setHkRequestSuccessReply :: "sid \<Rightarrow> CommandMessage \<Rightarrow> CommandMessage" where
  "setHkRequestSuccessReply i m = (setSid i m)\<lparr>cm_command := HK_REQUEST_SUCCESS\<rparr>"

definition setHkRequestFailureReply :: "sid \<Rightarrow> retval \<Rightarrow> CommandMessage \<Rightarrow> CommandMessage" where
  "setHkRequestFailureReply i error m = (setSid i m)\<lparr>cm_command := HK_REQUEST_FAILURE, cm_parameter3 := rv_param error\<rparr>"

definition getHkRequestFailureReply :: "CommandMessage \<Rightarrow> sid \<times> u16" where
  "getHkRequestFailureReply m = (getSid m, ucast (cm_parameter3 m))"

definition setUpdateNotificationSetCommand :: "sid \<Rightarrow> CommandMessage \<Rightarrow> CommandMessage" where
  "setUpdateNotificationSetCommand i m = setSid i (m\<lparr>cm_command := UPDATE_NOTIFICATION_SET\<rparr>)"

text \<open>The global identifier of a pool variable has the layout of a structure identifier.\<close>

definition setUpdateNotificationVariableCommand :: "sid \<Rightarrow> CommandMessage \<Rightarrow> CommandMessage" where
  "setUpdateNotificationVariableCommand globalPoolId m = setSid globalPoolId (m\<lparr>cm_command := UPDATE_NOTIFICATION_VARIABLE\<rparr>)"

definition setUpdateSnapshotSetCommand :: "sid \<Rightarrow> store_address \<Rightarrow> CommandMessage \<Rightarrow> CommandMessage" where
  "setUpdateSnapshotSetCommand i storeId m = hk_report UPDATE_SNAPSHOT_SET i storeId m"

definition setUpdateSnapshotVariableCommand :: "sid \<Rightarrow> store_address \<Rightarrow> CommandMessage \<Rightarrow> CommandMessage" where
  "setUpdateSnapshotVariableCommand globalPoolId storeId m = hk_report UPDATE_SNAPSHOT_VARIABLE globalPoolId storeId m"

definition getUpdateSnapshotSetCommand :: "CommandMessage \<Rightarrow> sid \<times> store_address" where
  "getUpdateSnapshotSetCommand m = (getSid m, getStoreId3 m)"

subsection \<open>File systems\<close>

definition setCreateFileCommand :: "store_address \<Rightarrow> CommandMessage \<Rightarrow> CommandMessage" where
  "setCreateFileCommand storeId m = with_store2 CMD_CREATE_FILE storeId m"

definition setDeleteFileCommand :: "store_address \<Rightarrow> CommandMessage \<Rightarrow> CommandMessage" where
  "setDeleteFileCommand storeId m = with_store2 CMD_DELETE_FILE storeId m"

definition setCreateDirectoryCommand :: "store_address \<Rightarrow> CommandMessage \<Rightarrow> CommandMessage" where
  "setCreateDirectoryCommand storeId m = with_store2 CMD_CREATE_DIRECTORY storeId m"

definition setReportFileAttributesCommand :: "store_address \<Rightarrow> CommandMessage \<Rightarrow> CommandMessage" where
  "setReportFileAttributesCommand storeId m = with_store2 CMD_REPORT_FILE_ATTRIBUTES storeId m"

definition setReportFileAttributesReply :: "store_address \<Rightarrow> CommandMessage \<Rightarrow> CommandMessage" where
  "setReportFileAttributesReply storeId m = with_store2 REPLY_REPORT_FILE_ATTRIBUTES storeId m"

definition setLockFileCommand :: "store_address \<Rightarrow> CommandMessage \<Rightarrow> CommandMessage" where
  "setLockFileCommand storeId m = with_store2 CMD_LOCK_FILE storeId m"

definition setUnlockFileCommand :: "store_address \<Rightarrow> CommandMessage \<Rightarrow> CommandMessage" where
  "setUnlockFileCommand storeId m = with_store2 CMD_UNLOCK_FILE storeId m"

definition setFinishStopWriteCommand :: "store_address \<Rightarrow> CommandMessage \<Rightarrow> CommandMessage" where
  "setFinishStopWriteCommand storeId m = with_store2 CMD_FINISH_APPEND_TO_FILE storeId m"

definition setFinishStopWriteReply :: "store_address \<Rightarrow> CommandMessage \<Rightarrow> CommandMessage" where
  "setFinishStopWriteReply storeId m = with_store2 REPLY_FINISH_APPEND storeId m"

definition setCopyCommand :: "store_address \<Rightarrow> CommandMessage \<Rightarrow> CommandMessage" where
  "setCopyCommand storeId m = with_store2 CMD_COPY_FILE storeId m"

definition setWriteCommand :: "store_address \<Rightarrow> CommandMessage \<Rightarrow> CommandMessage" where
  "setWriteCommand storeId m = with_store2 CMD_APPEND_TO_FILE storeId m"

definition setReadCommand :: "store_address \<Rightarrow> CommandMessage \<Rightarrow> CommandMessage" where
  "setReadCommand storeId m = with_store2 CMD_READ_FROM_FILE storeId m"

definition setFinishAppendReply :: "store_address \<Rightarrow> CommandMessage \<Rightarrow> CommandMessage" where
  "setFinishAppendReply storeId m = with_store2 REPLY_FINISH_APPEND storeId m"

definition setReadFinishedReply :: "store_address \<Rightarrow> CommandMessage \<Rightarrow> CommandMessage" where
  "setReadFinishedReply storeId m = with_store2 REPLY_READ_FINISHED_STOP storeId m"

definition setDeleteDirectoryCommand :: "store_address \<Rightarrow> bool \<Rightarrow> CommandMessage \<Rightarrow> CommandMessage" where
  "setDeleteDirectoryCommand storeId deleteRecursively m =
     (with_store2 CMD_DELETE_DIRECTORY storeId m)\<lparr>cm_parameter := of_bool deleteRecursively\<rparr>"

definition setReadReply :: "bool \<Rightarrow> store_address \<Rightarrow> CommandMessage \<Rightarrow> CommandMessage" where
  "setReadReply readFinished storeId m = (with_store2 REPLY_READ_FROM_FILE storeId m)\<lparr>cm_parameter := of_bool readFinished\<rparr>"

definition getReadReply :: "CommandMessage \<Rightarrow> bool \<times> store_address" where
  "getReadReply m = (cm_parameter m \<noteq> 0, getStoreId2 m)"

definition getDeleteDirectoryCommand :: "CommandMessage \<Rightarrow> store_address \<times> bool" where
  "getDeleteDirectoryCommand m = (getStoreId2 m, cm_parameter m \<noteq> 0)"

definition setSuccessReply :: "CommandMessage \<Rightarrow> CommandMessage" where
  "setSuccessReply m = m\<lparr>cm_command := FS_COMPLETION_SUCCESS\<rparr>"

definition setFailureReply :: "retval \<Rightarrow> u32 \<Rightarrow> CommandMessage \<Rightarrow> CommandMessage" where
  "setFailureReply errorCode errorParam m =
     m\<lparr>cm_command := FS_COMPLETION_FAILED, cm_parameter := rv_param errorCode, cm_parameter2 := errorParam\<rparr>"

definition getFailureReply :: "CommandMessage \<Rightarrow> u16 \<times> u32" where
  "getFailureReply m = (ucast (cm_parameter m), cm_parameter2 m)"

subsection \<open>Telemetry stores and CFDP\<close>

record ApidSsc =
  as_apid :: u16
  as_ssc :: u16

definition packet_parameter :: "ApidSsc \<Rightarrow> u32" where
  "packet_parameter i = push_bit 16 (ucast (as_apid i)) + ucast (as_ssc i)"

definition packet_of_parameter :: "u32 \<Rightarrow> ApidSsc" where
  "packet_of_parameter w = \<lparr>as_apid = ucast (drop_bit 16 w AND 0xFFFF), as_ssc = ucast (w AND 0xFFFF)\<rparr>"

definition setEnableStoringMessage :: "bool \<Rightarrow> CommandMessage \<Rightarrow> CommandMessage" where
  "setEnableStoringMessage setEnabled m = m\<lparr>cm_command := ENABLE_STORING, cm_parameter := of_bool setEnabled\<rparr>"

definition setDeleteContentMessage :: "ApidSsc \<Rightarrow> CommandMessage \<Rightarrow> CommandMessage" where
  "setDeleteContentMessage upTo m = m\<lparr>cm_command := DELETE_STORE_CONTENT, cm_parameter := packet_parameter upTo\<rparr>"

definition setDownlinkContentMessage :: "ApidSsc \<Rightarrow> ApidSsc \<Rightarrow> CommandMessage \<Rightarrow> CommandMessage" where
  "setDownlinkContentMessage fromPacket toPacket m =
     m\<lparr>cm_command := DOWNLINK_STORE_CONTENT, cm_parameter := packet_parameter fromPacket, cm_parameter2 := packet_parameter toPacket\<rparr>"

definition getPacketId1 :: "CommandMessage \<Rightarrow> ApidSsc" where
  "getPacketId1 m = packet_of_parameter (cm_parameter m)"

definition getPacketId2 :: "CommandMessage \<Rightarrow> ApidSsc" where
  "getPacketId2 m = packet_of_parameter (cm_parameter2 m)"

definition getEnableStoring :: "CommandMessage \<Rightarrow> bool" where
  "getEnableStoring m \<longleftrightarrow> cm_parameter m \<noteq> 0"

definition setChangeSelectionDefinitionMessage :: "bool \<Rightarrow> store_address \<Rightarrow> CommandMessage \<Rightarrow> CommandMessage" where
  "setChangeSelectionDefinitionMessage addDefinition store_id m =
     (with_store2 CHANGE_SELECTION_DEFINITION store_id m)\<lparr>cm_parameter := of_bool addDefinition\<rparr>"

definition getAddToSelection :: "CommandMessage \<Rightarrow> bool" where
  "getAddToSelection m \<longleftrightarrow> cm_parameter m \<noteq> 0"

definition setReportSelectionDefinitionMessage :: "CommandMessage \<Rightarrow> CommandMessage" where
  "setReportSelectionDefinitionMessage m = m\<lparr>cm_command := REPORT_SELECTION_DEFINITION\<rparr>"

definition setSelectionDefinitionReportMessage :: "store_address \<Rightarrow> CommandMessage \<Rightarrow> CommandMessage" where
  "setSelectionDefinitionReportMessage storeId m = with_store2 SELECTION_DEFINITION_REPORT storeId m"

definition setReportStoreCatalogueMessage :: "CommandMessage \<Rightarrow> CommandMessage" where
  "setReportStoreCatalogueMessage m = m\<lparr>cm_command := REPORT_STORE_CATALOGUE\<rparr>"

definition setStoreCatalogueReportMessage :: "u32 \<Rightarrow> store_address \<Rightarrow> CommandMessage \<Rightarrow> CommandMessage" where
  "setStoreCatalogueReportMessage objectId storeId m = (with_store2 STORE_CATALOGUE_REPORT storeId m)\<lparr>cm_parameter := objectId\<rparr>"

definition tm_getObjectId :: "CommandMessage \<Rightarrow> u32" where
  "tm_getObjectId m = cm_parameter m"

definition setDownlinkContentTimeMessage :: "store_address \<Rightarrow> CommandMessage \<Rightarrow> CommandMessage" where
  "setDownlinkContentTimeMessage storeId m = with_store2 DOWNLINK_STORE_CONTENT_TIME storeId m"

definition getAddressLow :: "CommandMessage \<Rightarrow> u32" where
  "getAddressLow m = cm_parameter m"

definition getAddressHigh :: "CommandMessage \<Rightarrow> u32" where
  "getAddressHigh m = cm_parameter2 m"

definition setDeleteContentTimeMessage :: "store_address \<Rightarrow> CommandMessage \<Rightarrow> CommandMessage" where
  "setDeleteContentTimeMessage storeId m = with_store2 DELETE_STORE_CONTENT_TIME storeId m"

definition setDeleteBlocksMessage :: "u32 \<Rightarrow> u32 \<Rightarrow> CommandMessage \<Rightarrow> CommandMessage" where
  "setDeleteBlocksMessage addressLow addressHigh m =
     m\<lparr>cm_command := DELETE_STORE_CONTENT_BLOCKS, cm_parameter := addressLow, cm_parameter2 := addressHigh\<rparr>"

definition setDownlinkBlocksMessage :: "u32 \<Rightarrow> u32 \<Rightarrow> CommandMessage \<Rightarrow> CommandMessage" where
  "setDownlinkBlocksMessage addressLow addressHigh m =
     m\<lparr>cm_command := DOWNLINK_STORE_CONTENT_BLOCKS, cm_parameter := addressLow, cm_parameter2 := addressHigh\<rparr>"

definition setIndexRequestMessage :: "CommandMessage \<Rightarrow> CommandMessage" where
  "setIndexRequestMessage m = m\<lparr>cm_command := REPORT_INDEX_REQUEST\<rparr>"

definition setIndexReportMessage :: "store_address \<Rightarrow> CommandMessage \<Rightarrow> CommandMessage" where
  "setIndexReportMessage storeId m = with_store2 INDEX_REPORT storeId m"

text \<open>The CFDP message leaves the command as it is.\<close>

definition cfdp_setCommand :: "store_address \<Rightarrow> CommandMessage \<Rightarrow> CommandMessage" where
  "cfdp_setCommand cfdpPacket m = m\<lparr>cm_parameter := raw_of_addr cfdpPacket\<rparr>"

definition cfdp_getStoreId :: "CommandMessage \<Rightarrow> store_address" where
  "cfdp_getStoreId m = addr_of_raw (cm_parameter m)"

section \<open>Cleaning\<close>

definition free_element :: "store_address \<Rightarrow> pool \<Rightarrow> pool" where
  "free_element a p = snd (pool_deleteData a p)"

abbreviation blank :: "CommandMessage \<Rightarrow> CommandMessage" where
  "blank m \<equiv> m\<lparr>cm_command := CMD_NONE, cm_parameter := 0, cm_parameter2 := 0\<rparr>"

definition modem_clear :: "CommandMessage \<Rightarrow> CommandMessage" where
  "modem_clear m = m\<lparr>cm_command := CMD_NONE\<rparr>"

definition healthm_clear :: "CommandMessage \<Rightarrow> CommandMessage" where
  "healthm_clear m = m\<lparr>cm_command := CMD_NONE\<rparr>"

definition msm_clear :: "CommandMessage \<Rightarrow> pool \<Rightarrow> CommandMessage \<times> pool" where
  "msm_clear m p =
     (blank m, if cm_command m \<in> {ADD_SEQUENCE, ADD_TABLE, SEQUENCE_LIST, TABLE_LIST, TABLE, SEQUENCE}
               then free_element (getStoreAddress m) p else p)"

definition am_clear :: "CommandMessage \<Rightarrow> pool \<Rightarrow> CommandMessage \<times> pool" where
  "am_clear m p = (m, if cm_command m \<in> {EXECUTE_ACTION, DATA_REPLY} then free_element (getStoreId2 m) p else p)"

definition dhm_clear :: "CommandMessage \<Rightarrow> pool \<Rightarrow> CommandMessage \<times> pool" where
  "dhm_clear m p =
     (if cm_command m \<in> {CMD_RAW, REPLY_RAW_COMMAND, REPLY_RAW_REPLY, REPLY_DIRECT_COMMAND_DATA} then (blank m, free_element (getStoreId2 m) p)
      else if cm_command m \<in> {CMD_SWITCH_ADDRESS, CMD_WIRETAPPING} then (blank m, p)
      else (m, p))"

definition mem_clear :: "CommandMessage \<Rightarrow> pool \<Rightarrow> CommandMessage \<times> pool" where
  "mem_clear m p =
     (if cm_command m \<in> {CMD_MEMORY_LOAD, REPLY_MEMORY_DUMP} then (blank m, free_element (getStoreId2 m) p)
      else if cm_command m \<in> {CMD_MEMORY_DUMP, CMD_MEMORY_CHECK, REPLY_MEMORY_CHECK, END_OF_MEMORY_COPY} then (blank m, p)
      else (m, p))"

text \<open>The command is reset before it is looked at.\<close>

definition mon_clear :: "CommandMessage \<Rightarrow> pool \<Rightarrow> CommandMessage \<times> pool" where
  "mon_clear m p =
     (let m = m\<lparr>cm_command := CMD_NONE\<rparr> in
      (m, if cm_command m = LIMIT_VIOLATION_REPORT then free_element (getStoreId2 m) p else p))"

definition par_clear :: "CommandMessage \<Rightarrow> pool \<Rightarrow> CommandMessage \<times> pool" where
  "par_clear m p = (m, if cm_command m \<in> {CMD_PARAMETER_LOAD, REPLY_PARAMETER_DUMP} then free_element (getStoreId2 m) p else p)"

definition hk_clear :: "CommandMessage \<Rightarrow> pool \<Rightarrow> CommandMessage \<times> pool" where
  "hk_clear m p =
     (m\<lparr>cm_command := CMD_NONE\<rparr>,
      if cm_command m \<in> {HK_REPORT, DIAGNOSTICS_REPORT, HK_DEFINITIONS_REPORT, DIAGNOSTICS_DEFINITION_REPORT, UPDATE_SNAPSHOT_SET,
           UPDATE_SNAPSHOT_VARIABLE}
      then free_element (snd (getHkDataReply m)) p else p)"

definition fs_clear :: "CommandMessage \<Rightarrow> pool \<Rightarrow> CommandMessage \<times> pool" where
  "fs_clear m p =
     (m, if cm_command m \<in> {CMD_CREATE_FILE, CMD_DELETE_FILE, CMD_CREATE_DIRECTORY, CMD_REPORT_FILE_ATTRIBUTES, REPLY_REPORT_FILE_ATTRIBUTES,
           CMD_LOCK_FILE, CMD_UNLOCK_FILE, CMD_COPY_FILE, REPLY_READ_FROM_FILE, CMD_READ_FROM_FILE, CMD_APPEND_TO_FILE,
           CMD_FINISH_APPEND_TO_FILE, REPLY_READ_FINISHED_STOP, REPLY_FINISH_APPEND}
         then free_element (getStoreId2 m) p else p)"

text \<open>The cleared message of a telemetry store gets the code of an error as its command.\<close>

definition tm_store_clear :: "CommandMessage \<Rightarrow> pool \<Rightarrow> CommandMessage \<times> pool" where
  "tm_store_clear m p =
     (let c = cm_command m;
          cleared = m\<lparr>cm_command := rv_code UNKNOWN_COMMAND, cm_parameter := 0, cm_parameter2 := 0\<rparr>
      in if c \<in> {SELECTION_DEFINITION_REPORT, STORE_CATALOGUE_REPORT, CHANGE_SELECTION_DEFINITION, INDEX_REPORT,
              DELETE_STORE_CONTENT_TIME, DOWNLINK_STORE_CONTENT_TIME} then (cleared, free_element (getStoreId2 m) p)
         else if c \<in> {DELETE_STORE_CONTENT_BLOCKS, DOWNLINK_STORE_CONTENT_BLOCKS, REPORT_INDEX_REQUEST} then (cleared, p)
         else (m, p))"

definition cfdp_clear :: "CommandMessage \<Rightarrow> pool \<Rightarrow> CommandMessage \<times> pool" where
  "cfdp_clear m p = (m, p)"

definition clearCommandMessage ::
  "bool \<Rightarrow> (CommandMessage \<Rightarrow> pool \<Rightarrow> CommandMessage \<times> pool) \<Rightarrow> CommandMessage \<Rightarrow> pool \<Rightarrow> CommandMessage \<times> pool" where
  "clearCommandMessage tmstorage mission m p =
     (let t = getMessageType m in
      if t = MODE_COMMAND_ID then (modem_clear m, p)
      else if t = HEALTH_COMMAND_ID then (healthm_clear m, p)
      else if t = MODE_SEQUENCE_ID then msm_clear m p
      else if t = ACTION_ID then am_clear m p
      else if t = DEVICE_HANDLER_COMMAND_ID then dhm_clear m p
      else if t = MEMORY_ID then mem_clear m p
      else if t = MONITORING_ID then mon_clear m p
      else if tmstorage \<and> t = TM_STORE_ID then tm_store_clear m p
      else if t = PARAMETER_ID then par_clear m p
      else if t = HOUSEKEEPING_ID then hk_clear m p
      else if t = FILE_SYSTEM_ID then fs_clear m p
      else mission m p)"

section \<open>What a message holds\<close>

text \<open>
  The setters that put a store address into a message and whose data the cleaner frees, with their other arguments. The
  remaining setters with a store address are those of \<open>message_data_leaks\<close> below: the typical message of the monitoring,
  with which the limit violation report is set, the command that deletes a directory and the CFDP message.
\<close>

definition sequence_data_commands :: "u16 list" where
  "sequence_data_commands = [ADD_SEQUENCE, ADD_TABLE, SEQUENCE_LIST, TABLE_LIST, TABLE, SEQUENCE]"

definition tm_store_setters :: "bool \<Rightarrow> u32 \<Rightarrow> (store_address \<Rightarrow> CommandMessage \<Rightarrow> CommandMessage) list" where
  "tm_store_setters b i = [setChangeSelectionDefinitionMessage b, setSelectionDefinitionReportMessage, setStoreCatalogueReportMessage i,
     setDownlinkContentTimeMessage, setDeleteContentTimeMessage, setIndexReportMessage]"

definition data_setters :: "bool \<Rightarrow> u32 \<Rightarrow> sid \<Rightarrow> bool \<Rightarrow> u8 \<Rightarrow> u8 \<Rightarrow> u8 \<Rightarrow> u8 \<Rightarrow> (store_address \<Rightarrow> CommandMessage \<Rightarrow> CommandMessage) list" where
  "data_setters tmstorage i s b ptc pfc rows columns =
     map (\<lambda>c. setModeSequenceMessage c i) sequence_data_commands @ map setModeSequenceMessageData sequence_data_commands @
     [am_setCommand i, setDataReply i, setDeviceHandlerRawCommandMessage, \<lambda>a. setDeviceHandlerRawReplyMessage i a b,
      setDeviceHandlerDirectCommandReply i, setMemoryDumpReply, setMemoryLoadCommand i, setParameterDumpReply i,
      \<lambda>a. setParameterLoadCommand i a ptc pfc rows columns, setHkReportReply s, setHkDiagnosticsReply s, setHkStuctureReportReply s,
      setDiagnosticsStuctureReportReply s, setUpdateSnapshotSetCommand s, setUpdateSnapshotVariableCommand s, setCreateFileCommand,
      setDeleteFileCommand, setCreateDirectoryCommand, setReportFileAttributesCommand, setReportFileAttributesReply,
      setLockFileCommand, setUnlockFileCommand, setFinishStopWriteCommand, setFinishStopWriteReply, setCopyCommand, setWriteCommand,
      setReadCommand, setFinishAppendReply, setReadReply b, setReadFinishedReply] @ (if tmstorage then tm_store_setters b i else [])"

text \<open>The setters that put no store address into a message.\<close>

definition tm_store_plain_setters :: "u32 \<Rightarrow> u32 \<Rightarrow> bool \<Rightarrow> ApidSsc \<Rightarrow> ApidSsc \<Rightarrow> (CommandMessage \<Rightarrow> CommandMessage) list" where
  "tm_store_plain_setters i j b x y = [setEnableStoringMessage b, setDeleteContentMessage x, setDownlinkContentMessage x y,
     setReportSelectionDefinitionMessage, setReportStoreCatalogueMessage, setDeleteBlocksMessage i j, setDownlinkBlocksMessage i j,
     setIndexRequestMessage]"

definition plain_setters :: "bool \<Rightarrow> ApidSsc \<Rightarrow> ApidSsc \<Rightarrow> u32 \<Rightarrow> u32 \<Rightarrow> sid \<Rightarrow> bool \<Rightarrow> bool \<Rightarrow> u16 \<Rightarrow> u8 \<Rightarrow> retval \<Rightarrow> (CommandMessage \<Rightarrow> CommandMessage) list" where
  "plain_setters tmstorage x y i j s b b' w o8 r =
     [setDeviceHandlerWiretappingMessage o8, setDeviceHandlerSwitchIoBoardMessage i, setMemoryDumpCommand i j, setMemoryCheckCommand i j,
      setMemoryCheckReply w, setMemoryReplyFailed r w, setMemoryCopyEnd, setParameterDumpCommand i, setToggleReportingCommand s b b',
      setStructureReportingCommand s b, setOneShotReportCommand s b, setHkRequestSuccessReply s, setHkRequestFailureReply s r,
      setUpdateNotificationSetCommand s, setUpdateNotificationVariableCommand s, setSuccessReply, setFailureReply r i] @
     map (\<lambda>c. setModeSequenceMessageId c i) [DELETE_SEQUENCE, DELETE_TABLE, READ_SEQUENCE, READ_TABLE, LIST_SEQUENCES, LIST_TABLES,
       READ_FREE_SEQUENCE_SLOTS, FREE_SEQUENCE_SLOTS, READ_FREE_TABLE_SLOTS, FREE_TABLE_SLOTS] @
     (if tmstorage then tm_store_plain_setters i j b x y else [])"

lemmas setter_defs = with_store2_def setModeSequenceMessage_def setModeSequenceMessageId_def setModeSequenceMessageData_def
  am_setCommand_def setDataReply_def setDeviceHandlerRawCommandMessage_def setDeviceHandlerRawReplyMessage_def
  setDeviceHandlerDirectCommandReply_def setMemoryDumpReply_def setMemoryLoadCommand_def setParameterDumpReply_def
  setParameterLoadCommand_def setHkReportReply_def setHkDiagnosticsReply_def setHkStuctureReportReply_def hk_report_def setSid_def
  setDiagnosticsStuctureReportReply_def setUpdateSnapshotSetCommand_def setUpdateSnapshotVariableCommand_def setCreateFileCommand_def
  setDeleteFileCommand_def setCreateDirectoryCommand_def setReportFileAttributesCommand_def setReportFileAttributesReply_def
  setLockFileCommand_def setUnlockFileCommand_def setFinishStopWriteCommand_def setFinishStopWriteReply_def setCopyCommand_def
  setWriteCommand_def setReadCommand_def setFinishAppendReply_def setReadReply_def setReadFinishedReply_def
  setDeviceHandlerWiretappingMessage_def setDeviceHandlerSwitchIoBoardMessage_def setMemoryDumpCommand_def setMemoryCheckCommand_def
  setMemoryCheckReply_def setMemoryReplyFailed_def setMemoryCopyEnd_def setParameterDumpCommand_def setToggleReportingCommand_def
  setStructureReportingCommand_def setOneShotReportCommand_def setHkRequestSuccessReply_def setHkRequestFailureReply_def
  setUpdateNotificationSetCommand_def setUpdateNotificationVariableCommand_def setSuccessReply_def setFailureReply_def
  setTypicalMessage_def setLimitViolationReport_def setDeleteDirectoryCommand_def setEnableStoringMessage_def setDeleteContentMessage_def
  setDownlinkContentMessage_def setChangeSelectionDefinitionMessage_def setReportSelectionDefinitionMessage_def
  setSelectionDefinitionReportMessage_def setReportStoreCatalogueMessage_def setStoreCatalogueReportMessage_def
  setDownlinkContentTimeMessage_def setDeleteContentTimeMessage_def setDeleteBlocksMessage_def setDownlinkBlocksMessage_def
  setIndexRequestMessage_def setIndexReportMessage_def cfdp_setCommand_def

lemmas clear_defs = modem_clear_def healthm_clear_def msm_clear_def am_clear_def dhm_clear_def mem_clear_def mon_clear_def par_clear_def
  hk_clear_def fs_clear_def tm_store_clear_def cfdp_clear_def

definition addr_fits :: "store_address \<Rightarrow> bool" where
  "addr_fits a \<longleftrightarrow> poolIndex a < 2 ^ 16 \<and> packetIndex a < 2 ^ 16"

lemma addr_roundtrip [simp]:
  assumes "addr_fits a"
  shows "addr_of_raw (raw_of_addr a) = a"
proof -
  obtain x y where a: "a = \<lparr>poolIndex = x, packetIndex = y\<rparr>" by (cases a) auto
  with assms have x: "x < 2 ^ 16" and y: "y < 2 ^ 16" by (simp_all add: addr_fits_def)
  have m: "(0xFFFF :: u32) = mask 16" by (simp add: mask_eq_exp_minus_1)
  have bx: "bit x n \<Longrightarrow> n < 16" for n
    using x by (metis bit_take_bit_iff take_bit_nat_eq_self)
  have by': "bit y n \<Longrightarrow> n < 16" for n
    using y by (metis bit_take_bit_iff take_bit_nat_eq_self)
  have "(of_nat x OR push_bit 16 (of_nat y) :: u32) AND 0xFFFF = of_nat x"
    unfolding m by (rule bit_eqI) (auto simp: bit_simps dest: bx)
  moreover have "drop_bit 16 (of_nat x OR push_bit 16 (of_nat y) :: u32) = of_nat y"
    by (rule bit_word_eqI) (auto simp: bit_simps dest: bx by')
  ultimately show ?thesis using x y by (simp add: a addr_of_raw_def raw_of_addr_def unat_of_nat)
qed

lemma cleaned_tm_store_data:
  assumes "setter \<in> set (tm_store_setters b i)" and "addr_fits a"
  shows "snd (clearCommandMessage True mission (setter a m) p) = free_element a p"
  using assms
  by (auto simp: tm_store_setters_def clearCommandMessage_def getMessageType_def setter_defs clear_defs codes getStoreId2_def)

lemma cleaned_data:
  assumes "setter \<in> set (data_setters tmstorage i s b ptc pfc rows columns)" and "addr_fits a"
  shows "snd (clearCommandMessage tmstorage mission (setter a m) p) = free_element a p"
proof (cases "tmstorage \<and> setter \<in> set (tm_store_setters b i)")
  case True
  then show ?thesis using cleaned_tm_store_data [of setter b i] assms(2) by simp
next
  case False
  then show ?thesis using assms
    by (auto simp: data_setters_def sequence_data_commands_def clearCommandMessage_def getMessageType_def setter_defs clear_defs codes
        getStoreAddress_def getStoreId2_def getHkDataReply_def getStoreId3_def)
qed

lemma cleaned_tm_store_plain:
  assumes "setter \<in> set (tm_store_plain_setters i j b x y)"
  shows "snd (clearCommandMessage True mission (setter m) p) = p"
  using assms by (auto simp: tm_store_plain_setters_def clearCommandMessage_def getMessageType_def setter_defs clear_defs codes)

lemma cleaned_plain:
  assumes "setter \<in> set (plain_setters tmstorage x y i j s b b' w o8 r)"
  shows "snd (clearCommandMessage tmstorage mission (setter m) p) = p"
proof (cases "tmstorage \<and> setter \<in> set (tm_store_plain_setters i j b x y)")
  case True
  then show ?thesis using cleaned_tm_store_plain [of setter i j b x y] by simp
next
  case False
  then show ?thesis using assms
    by (auto simp: plain_setters_def clearCommandMessage_def getMessageType_def setter_defs clear_defs codes)
qed

text \<open>What the receiver reads is what the sender has written.\<close>

lemma parameter_load_roundtrip:
  assumes "addr_fits a"
  shows "getParameterLoadCommand (setParameterLoadCommand pid a ptc pfc rows columns m) = (a, pid, ptc, pfc, rows, columns)"
proof -
  let ?w = "push_bit 24 (ucast ptc) OR push_bit 16 (ucast pfc) OR push_bit 8 (ucast rows) OR ucast columns :: u32"
  have m: "(0xFF :: u32) = mask 8" by (simp add: mask_eq_exp_minus_1)
  have out: "\<not> bit b (8 + n)" "\<not> bit b (16 + n)" "\<not> bit b (24 + n)" for b :: u8 and n
    by (auto dest: bit_imp_le_length)
  have "ucast (drop_bit 24 ?w AND 0xff) = ptc" "ucast (drop_bit 16 ?w AND 0xff) = pfc" "ucast (drop_bit 8 ?w AND 0xff) = rows"
    "ucast (?w AND 0xff) = columns"
    unfolding m by (auto intro!: bit_word_eqI simp: bit_simps out)
  then show ?thesis
    using assms by (simp add: getParameterLoadCommand_def setParameterLoadCommand_def with_store2_def getStoreId2_def Let_def)
qed

lemma packet_parameter_roundtrip [simp]: "packet_of_parameter (packet_parameter i) = i"
proof -
  have m: "(0xFFFF :: u32) = mask 16" by (simp add: mask_eq_exp_minus_1)
  have out: "\<not> bit (v :: u16) (16 + n)" for v n by (auto dest: bit_imp_le_length)
  let ?a = "as_apid i" and ?c = "as_ssc i"
  have z: "push_bit 16 (ucast ?a) AND ucast ?c = (0 :: u32)"
    by (rule bit_word_eqI) (auto simp: bit_simps dest: bit_imp_le_length)
  have o: "push_bit 16 (ucast ?a) + ucast ?c = (push_bit 16 (ucast ?a) OR ucast ?c :: u32)"
    using z by (rule disjunctive_add_eq_or)
  have "ucast (drop_bit 16 (push_bit 16 (ucast ?a) OR ucast ?c :: u32) AND 0xFFFF) = ?a"
    "ucast ((push_bit 16 (ucast ?a) OR ucast ?c :: u32) AND 0xFFFF) = ?c"
    unfolding m by (auto intro!: bit_word_eqI simp: bit_simps out)
  then show ?thesis by (simp add: packet_of_parameter_def packet_parameter_def o)
qed

lemma message_roundtrips:
  "addr_fits a \<Longrightarrow> getReadReply (setReadReply b a m) = (b, a)"
  "addr_fits a \<Longrightarrow> getDeleteDirectoryCommand (setDeleteDirectoryCommand a b m) = (a, b)"
  "addr_fits a \<Longrightarrow> getHkDataReply (setHkReportReply i a m) = (i, a)"
  "addr_fits a \<Longrightarrow> getUpdateSnapshotSetCommand (setUpdateSnapshotSetCommand i a m) = (i, a)"
  "getHkRequestFailureReply (setHkRequestFailureReply i r m) = (i, rv_code r)"
  "getFailureReply (setFailureReply r e m) = (rv_code r, e)"
  "getWiretappingMode (setDeviceHandlerWiretappingMessage w m) = w"
  "getCrc (setMemoryCheckReply c m) = c"
  "getPacketId1 (setDownlinkContentMessage x y m) = x" "getPacketId2 (setDownlinkContentMessage x y m) = y"
  "getEnableStoring (setEnableStoringMessage b m) = b" "getAddToSelection (setChangeSelectionDefinitionMessage b a m) = b"
  "addr_fits a \<Longrightarrow> cfdp_getStoreId (cfdp_setCommand a m) = a"
  by (simp_all add: getReadReply_def getDeleteDirectoryCommand_def getHkDataReply_def getUpdateSnapshotSetCommand_def
      getHkRequestFailureReply_def getFailureReply_def getWiretappingMode_def getCrc_def getSid_def getStoreId2_def getStoreId3_def
      getPacketId1_def getPacketId2_def getEnableStoring_def getAddToSelection_def cfdp_getStoreId_def
      setter_defs rv_param_def ucast_up_ucast_id is_up)

text \<open>The result of a memory check takes the place of the checksum.\<close>

lemma crc_return_value_overwrites: "getCrc (setCrcReturnValue r (setMemoryCheckReply c m)) = 0"
  by (auto intro!: bit_word_eqI simp: getCrc_def setCrcReturnValue_def bit_simps)

text \<open>
  The messages whose data stays in the store: those of the monitoring, the command that deletes a directory and, when
  the cleaning of the mission calls the framework's \<open>CfdpMessage::clear\<close> for it, a CFDP message.
\<close>

lemma message_data_leaks:
  "drop_bit 8 type AND 0xff = MONITORING_ID \<Longrightarrow> snd (clearCommandMessage tmstorage mission (setTypicalMessage type a m) p) = p"
  "snd (clearCommandMessage tmstorage mission (setLimitViolationReport a m) p) = p"
  "snd (clearCommandMessage tmstorage mission (setDeleteDirectoryCommand a b m) p) = p"
  "getMessageType m = CFDP_ID \<Longrightarrow> snd (clearCommandMessage tmstorage cfdp_clear (cfdp_setCommand a m) p) = p"
  by (simp_all add: clearCommandMessage_def getMessageType_def setter_defs clear_defs codes)

section \<open>The store stays clean\<close>

lemma stored_addr_fits:
  assumes sp: "small_pool p" and n: "NUMBER_OF_SUBPOOLS p \<le> 2 ^ 16" and ok: "pool_addData a0 d p = (OK, a, q)" and d: "d \<noteq> []"
  shows "addr_fits a"
proof -
  note w = pool_addData_OK [OF small_pool_inv [OF sp] ok]
  have v: "valid_id p a" and l: "length d \<le> elementSizes p ! poolIndex a" by (rule w)+
  from v have i: "poolIndex a < NUMBER_OF_SUBPOOLS p" and j: "packetIndex a < numberOfElements p ! poolIndex a"
    by (simp_all add: valid_id_def)
  have e: "1 \<le> elementSizes p ! poolIndex a" using l d by (cases d) auto
  have "numberOfElements p ! poolIndex a * elementSizes p ! poolIndex a \<le> 2 ^ 16" using sp i by (simp add: small_pool_def)
  then have "numberOfElements p ! poolIndex a \<le> 2 ^ 16" using e by (metis le_trans mult_le_mono2 mult.right_neutral)
  with i j n show ?thesis by (simp add: addr_fits_def)
qed

text \<open>
  C9: Data that is put into the store and sent in a command message of the framework is there for the receiver, and
  cleaning the message frees exactly this data: the store holds again what it held before. This is so for every setter of
  \<open>data_setters\<close>, that is for all setters that put a store address into a command message (those of mode sequence messages with
  one of the six commands that carry data, those of a telemetry store when it is built) except three:
  \<open>MonitoringMessage::setTypicalMessage\<close> with the limit violation report, \<open>setDeleteDirectoryCommand\<close> and
  \<open>CfdpMessage::setCommand\<close>, whose data stays in the store (\<open>message_data_leaks\<close>). Cleaning a message of
  \<open>plain_setters\<close>, which carries no data, does not touch the store. The store is a consistent local pool with at most
  65536 subpools of at most 64 KiB each (\<open>small_pool\<close>), and the data is not empty.
\<close>

theorem messages_release_their_data:
  assumes "small_pool p" and "NUMBER_OF_SUBPOOLS p \<le> 2 ^ 16" and "d \<noteq> []" and "pool_addData a0 d p = (OK, a, q)"
    and "setter \<in> set (data_setters tmstorage i s b ptc pfc rows columns)"
    and "plain \<in> set (plain_setters tmstorage x y i j s b b' w o8 r)"
  shows "pool_getData a q = (OK, Some d) \<and>
    small_pool (snd (clearCommandMessage tmstorage mission (setter a m) q)) \<and>
    pool_contents (snd (clearCommandMessage tmstorage mission (setter a m) q)) = pool_contents p \<and>
    snd (clearCommandMessage tmstorage mission (plain m) q) = q"
proof -
  note fits = stored_addr_fits [OF assms(1,2,4,3)]
  from local_pool.add_OK [OF assms(1,4)] have q: "pool_contents p a = None" "pool_contents q = (pool_contents p)(a \<mapsto> d)"
    "small_pool q" by auto
  from local_pool.delete_packet [OF q(3), of a d] q assms(3)
  have "small_pool (free_element a q)" "pool_contents (free_element a q) = pool_contents p"
    by (auto simp: free_element_def fun_eq_iff)
  moreover have "pool_getData a q = (OK, Some d)" using q(2) by (simp add: pool_getData_status)
  ultimately show ?thesis by (simp add: cleaned_data [OF assms(5) fits] cleaned_plain [OF assms(6)])
qed

theorem messages_release_their_data_witness:
  "pool_contents (snd (clearCommandMessage True Pair
       (setMemoryLoadCommand 7 \<lparr>poolIndex = 0, packetIndex = 0\<rparr> (cm_new CMD_NONE 0 0))
       (snd (snd (pool_addData \<lparr>poolIndex = 9, packetIndex = 9\<rparr> [1, 2] (pool_init [(2, 3)] False)))))) =
     pool_contents (pool_init [(2, 3)] False)"
proof -
  let ?p = "pool_init [(2, 3)] False" and ?a = "\<lparr>poolIndex = 0, packetIndex = 0\<rparr>" and ?s = "\<lparr>sid_objectId = 0, sid_ownerSetId = 0\<rparr>"
    and ?x = "\<lparr>as_apid = 0, as_ssc = 0\<rparr>"
  have "pool_inv ?p" by (rule pool_init_inv) (simp_all add: STORAGE_FREE_def)
  then have sp: "small_pool ?p" by (simp add: small_pool_def, simp add: pool_init_def config_order_def Let_def)
  have n: "NUMBER_OF_SUBPOOLS ?p \<le> 2 ^ 16" by (simp add: pool_init_def config_order_def Let_def)
  have r: "pool_addData \<lparr>poolIndex = 9, packetIndex = 9\<rparr> [1, 2] ?p =
      (OK, ?a, snd (snd (pool_addData \<lparr>poolIndex = 9, packetIndex = 9\<rparr> [1, 2] ?p)))"
    by (simp add: pool_init_def config_order_def pool_addData_def reserveSpace_def Let_def
      getSubPoolIndex_def scan_from.simps reserve_search.simps findEmpty_def STORAGE_FREE_def numeral_2_eq_2)
  have m: "setMemoryLoadCommand 7 \<in> set (data_setters True 7 ?s False 0 0 0 0)" by (simp add: data_setters_def)
  have k: "setMemoryCopyEnd \<in> set (plain_setters True ?x ?x 7 0 ?s False False 0 0 OK)" by (simp add: plain_setters_def)
  show ?thesis using messages_release_their_data [OF sp n _ r m k, of Pair "cm_new CMD_NONE 0 0"] by simp
qed

end
