(* ===== verification/Spec2Isabelle.thy ===== *)
theory Spec2Isabelle
  imports Fifo Fixed_Maps Dle Data_Link Pus_Tm Cfdp_Pdus Tc_Scheduling Mode_Transitions Device_Properties Verification_Reports Command_Timeouts Messages
begin

text \<open>
  \<^bold>\<open>Verification of the flight software framework FSFW.\<close>

  FSFW (\<open>src/src/fsfw\<close>) is a library from which the on-board software of a satellite is assembled. A program is a set
  of objects that run in tasks and talk over message queues; data that do not fit into a message travel through
  packet stores as addresses. This development models the parts that carry the logic of the framework, from the bytes
  of the uplink to the mode machines of devices and subsystems, and proves what makes them correct. A definition keeps
  the name of the function it translates; a prefix tells apart functions with the same name (\<open>dh_\<close> a device handler,
  \<open>cs_\<close> a commanding service, \<open>ss_\<close> a subsystem, \<open>fm_\<close> a fixed map, \<open>rb_\<close> a ring buffer, and so on).

  \<^bold>\<open>The way of a telecommand.\<close> The data link layer delimits and checks transfer frames and numbers them
  (\<open>datalinklayer\<close>); complete space packets are put together from their segments and stored; the distributors look at
  the application and the service of the packet and pass its address on (\<open>tcdistribution\<close>); a service checks it, keeps
  it for later (service 11, \<open>pus\<close>) or turns it into a command for an object (\<open>tmtcservices\<close>); the object, a device
  handler (\<open>devicehandlers\<close>) or a subsystem (\<open>subsystem\<close>), executes it and replies; and every stage is reported. The
  packet formats are those of CCSDS and PUS (\<open>tmtcpacket\<close>) and of CFDP (\<open>cfdp\<close>).

  \<^bold>\<open>Theories.\<close>

  \<^item> \<open>Fsfw_Prelude\<close>: words, return values (\<open>retval\<close>: \<open>OK\<close>, \<open>FAILED\<close> or a class and a number), byte buffers, the
    locale \<open>data_refinement\<close> (a simulation between two step functions under an invariant, lifted to all sequences of
    calls) and shared lemmas.
  \<^item> \<open>Fifo\<close>, \<open>Array_List\<close>, \<open>Fixed_Maps\<close>, \<open>Ring_Buffer\<close> (\<open>container\<close>): arrays with indices, refined against bounded
    lists, maps, sorted lists and byte streams by interpretations of \<open>data_refinement\<close>.
  \<^item> \<open>Local_Pool\<close> (\<open>storagemanager\<close>): the packet store, its reservation over subpools and the locale \<open>packet_store\<close>,
    the contract of \<open>StorageManagerIF\<close>: a packet that is added is read back and survives every other operation on an
    address that the pool can handle (\<open>deletable\<close>). An access outside of the pool's arrays sets \<open>pool_undefined\<close>.
  \<^item> \<open>Crc\<close>, \<open>Dle\<close> (\<open>globalfunctions\<close>): the table driven checksum against polynomial division, the errors it
    detects, the escape codec and the stream parser.
  \<^item> \<open>Farm\<close>, \<open>Map_Extraction\<close>, \<open>Data_Link\<close> (\<open>datalinklayer\<close>): the frame acceptance machine against the state table
    of the standard, reassembly of segments, unpacking of blocked packets, validation and demultiplexing of frames.
  \<^item> \<open>Serialize\<close> (\<open>serialize\<close>): integers, buffers and lists in both byte orders; the locale \<open>codec\<close> is the contract of
    \<open>SerializeIF\<close>.
  \<^item> \<open>Space_Packet\<close>, \<open>Pus_Packets\<close>, \<open>Pus_Tm\<close> (\<open>tmtcpacket\<close>), \<open>Ccsds_Time\<close> (\<open>timemanager\<close>): creators and readers of
    packets, time codes, the time stamper (locale \<open>time_codec\<close>) and the countdown.
  \<^item> \<open>Cfdp_Fields\<close>, \<open>Cfdp_Header\<close>, \<open>Cfdp_Pdus\<close> (\<open>cfdp\<close>): the fields, headers and packets of the file delivery
    protocol with their round trips.
  \<^item> \<open>Tc_Distribution\<close> (\<open>tcdistribution\<close>): the three distributors, interpretations of the locale \<open>distributor\<close>; no
    packet is lost or leaked.
  \<^item> \<open>Tc_Scheduling\<close> (\<open>tmtcservices/PusServiceBase.cpp\<close>, \<open>pus/Service11TelecommandScheduling.tpp\<close>): the base class of
    the PUS services (locale \<open>pus_service\<close>) and the schedule of telecommands. A request that makes the code read
    behind the end of the schedule has no result (\<open>None\<close>); \<open>derefs_end\<close> says exactly which requests do.
  \<^item> \<open>Commanding\<close> (\<open>tmtcservices/CommandingServiceBase.cpp\<close>): services that relay telecommands to objects; every
    telecommand is started or refused once, and no started one is forgotten. \<open>Command_Timeouts\<close>: the end of commands
    that got no reply.
  \<^item> \<open>Verification_Reports\<close> (\<open>tmtcservices/PusVerificationReport.cpp\<close>, the telemetry helpers,
    \<open>pus/Service1TelecommandVerification.cpp\<close>): the reports of acceptance, start, steps and completion on their way
    into telemetry packets.
  \<^item> \<open>Health_Table\<close> (\<open>ipc\<close>, \<open>health\<close>): command messages and the table of health states (locale \<open>manages_health\<close>).
  \<^item> \<open>Mode_Helper\<close>, \<open>Subsystems\<close>, \<open>Mode_Transitions\<close> (\<open>modes\<close>, \<open>health\<close>, \<open>subsystem\<close>): the helpers of a commandable
    object (locales \<open>has_modes\<close> and \<open>has_slow_modes\<close>), the mode sequences of a subsystem and what its mode machine
    guarantees: it never leaves its configuration, it reports modes truthfully and its transitions end.
  \<^item> \<open>Device_Handler\<close>, \<open>Device_Properties\<close> (\<open>devicehandlers\<close>, \<open>action\<close>): the base class of device handlers, whose
    iterators stay valid, which answers the commander of every action, reports replies that are missing and ends a
    power down in a mode that tells whether the switch opened in time.
  \<^item> \<open>Messages\<close> (\<open>ipc/CommandMessageCleaner.cpp\<close> and the message classes): setters, getters and the cleaning of
    messages, which frees the data of a message except in the cases that are named there.

  \<^bold>\<open>State and effects.\<close> The members of a class are a record; an operation takes the record and returns it, with the
  return value first. Output parameters are returned. Return values are errors as values: every early return is a
  branch. An iterator is an index or a key, and its use after the element is gone is a case of the model, not an
  assumption. Bytes and integers have the width of the source; \<open>size_t\<close> is \<open>nat\<close> where the code cannot wrap and the
  wrap-around is written out where it can. Memory that the code leaves uninitialized is an argument.

  \<^bold>\<open>Parameters.\<close> Message queues belong to the operating system: the status of a send is an argument, a function of
  the destination and of what has been sent; a message that is sent with the status \<open>OK\<close> is in the state. What the
  child class of a base class does is a record of functions (\<open>device\<close>, \<open>methods\<close>); the theorems hold for all of them,
  or name the law they need. The functions of the C library that the clock calls are \<open>time_env\<close>. The Embedded Template
  Library is not part of the repository: of \<open>etl::multimap\<close> the order of its iteration is used, and the position of an
  insertion is an argument. The class \<open>SpacePacketBase\<close> does not exist in the repository; the packet extraction that
  still names it takes its two functions as arguments. The uptime and the time of day are arguments.

  \<^bold>\<open>Loops.\<close> Loops over a container are structural recursions or folds. Three have a counter: the parsing of replies
  ends after as many rounds as bytes were received, as the loop of the source does; a PUS service handles ten requests
  at most (\<open>PUS_SERVICE_MAX_RECEPTION\<close>), as the source does; and the loop over the timeouts of a commanding service
  takes the number of active commands, for which it is proved to return.

  \<^bold>\<open>Configuration.\<close> The machine is little-endian, mode sequences are kept in memory (\<open>FSFW_USE_MODESTORE\<close> is 0), the
  FIFO of a commanding service has six places (\<open>FSFW_CSB_FIFO_DEPTH\<close>), and output on the console is left out.

  \<^bold>\<open>Not modelled.\<close> The operating system abstraction (\<open>osal\<close>, \<open>tasks\<close>), the console (\<open>serviceinterface\<close>), the object
  manager and the initialization of objects through it, which is pointer plumbing. The hardware drivers
  (\<open>src/src/fsfw_hal\<close>), tests (\<open>src/src/fsfw_tests\<close>, \<open>src/unittests\<close>) and the vendored orbit propagator
  (\<open>src/contrib\<close>). Numerical code over floating point (\<open>coordinates\<close>, \<open>globalfunctions/math\<close>, the thermal control).
  The local data pools, whose variables share memory through pointers and templates over all number types. The PUS
  services other than 1 and 11 are child classes of the two base classes. The manifest lists every part with its reason.
\<close>

end
